(* ===== verification/Prelude.thy ===== *)
theory Prelude
  imports Main "HOL-Library.Char_ord" "HOL-Library.List_Lexorder" "HOL-Library.Option_ord"
    "HOL-Library.Code_Target_Numeral"
begin

text \<open>
  Shared vocabulary of the development: the fixed-width arithmetic the Rust sources use
  (\<open>saturating_add\<close>, \<open>saturating_sub\<close>, \<open>checked_add\<close>, \<open>u32::try_from\<close>), the \<open>Result\<close> type as
  a sum with the error on the left, decimal rendering of integers (\<open>to_string\<close>), and the
  locale \<open>transition_system\<close>, which carries the reachability argument every state machine of
  the development uses.
\<close>

named_theorems machine_simps
named_theorems result_simps
named_theorems pool_simps
named_theorems pool_inv_intros

section \<open>Fixed-width unsigned arithmetic\<close>

text \<open>
  \<open>u32\<close> and \<open>u64\<close> values are natural numbers; every operation that could leave the width is
  written with its bound.
\<close>

type_synonym u32 = nat
type_synonym u64 = nat

definition u32_max :: nat where
  "u32_max = 4294967295"

definition u64_max :: nat where
  "u64_max = 18446744073709551615"

definition sat_add32 :: "u32 \<Rightarrow> u32 \<Rightarrow> u32" where
  "sat_add32 a b = min (a + b) u32_max"

definition sat_add64 :: "u64 \<Rightarrow> u64 \<Rightarrow> u64" where
  "sat_add64 a b = min (a + b) u64_max"

definition sat_sub :: "nat \<Rightarrow> nat \<Rightarrow> nat" where
  "sat_sub a b = (if a \<le> b then 0 else a - b)"

definition checked_add32 :: "u32 \<Rightarrow> u32 \<Rightarrow> u32 option" where
  "checked_add32 a b = (if a + b \<le> u32_max then Some (a + b) else None)"

text \<open>\<open>u32::try_from(n).unwrap_or(u32::MAX)\<close> for a \<open>usize\<close>.\<close>

definition u32_of_usize :: "nat \<Rightarrow> u32" where
  "u32_of_usize n = min n u32_max"

lemma sat_sub_eq [simp]: "sat_sub a b = a - b"
  by (simp add: sat_sub_def)

lemma sat_add32_le: "sat_add32 a b \<le> u32_max"
  by (simp add: sat_add32_def)

lemma sat_add64_le: "sat_add64 a b \<le> u64_max"
  by (simp add: sat_add64_def)

lemma sat_add32_exact: "a + b \<le> u32_max \<Longrightarrow> sat_add32 a b = a + b"
  by (simp add: sat_add32_def)

lemma sat_add32_pos [simp]: "0 < sat_add32 a (Suc 0)"
  by (simp add: sat_add32_def u32_max_def)

lemma sat_add64_exact: "a + b \<le> u64_max \<Longrightarrow> sat_add64 a b = a + b"
  by (simp add: sat_add64_def)

lemma checked_add32_Some: "checked_add32 a b = Some c \<longleftrightarrow> c = a + b \<and> a + b \<le> u32_max"
  by (auto simp: checked_add32_def)

lemma u32_of_usize_exact: "n \<le> u32_max \<Longrightarrow> u32_of_usize n = n"
  by (simp add: u32_of_usize_def)

lemma u32_of_usize_le: "u32_of_usize n \<le> n"
  by (simp add: u32_of_usize_def)

section \<open>Results\<close>

text \<open>
  Rust's \<open>Result<T, E>\<close> is \<open>'e + 'a\<close> with \<open>Inl\<close> the error. \<open>bind_r\<close> is the \<open>?\<close> operator and
  \<open>map_err\<close> the method of that name.
\<close>

definition bind_r :: "'e + 'a \<Rightarrow> ('a \<Rightarrow> 'e + 'b) \<Rightarrow> 'e + 'b" where
  "bind_r r f = (case r of Inl e \<Rightarrow> Inl e | Inr x \<Rightarrow> f x)"

definition map_err :: "('e \<Rightarrow> 'f) \<Rightarrow> 'e + 'a \<Rightarrow> 'f + 'a" where
  "map_err g r = (case r of Inl e \<Rightarrow> Inl (g e) | Inr x \<Rightarrow> Inr x)"

definition is_ok :: "'e + 'a \<Rightarrow> bool" where
  "is_ok r = (case r of Inl _ \<Rightarrow> False | Inr _ \<Rightarrow> True)"

definition ok_or_else :: "'e \<Rightarrow> 'a option \<Rightarrow> 'e + 'a" where
  "ok_or_else e v = (case v of None \<Rightarrow> Inl e | Some x \<Rightarrow> Inr x)"

lemma bind_r_simps [simp, result_simps]:
  "bind_r (Inl e) f = Inl e" "bind_r (Inr x) f = f x"
  by (simp_all add: bind_r_def)

lemma bind_r_Inr [result_simps]: "bind_r r f = Inr y \<longleftrightarrow> (\<exists>x. r = Inr x \<and> f x = Inr y)"
  by (cases r) auto

lemma bind_r_Inl [result_simps]:
  "bind_r r f = Inl e \<longleftrightarrow> r = Inl e \<or> (\<exists>x. r = Inr x \<and> f x = Inl e)"
  by (cases r) auto

lemma map_err_simps [simp, result_simps]:
  "map_err g (Inl e) = Inl (g e)" "map_err g (Inr x) = Inr x"
  by (simp_all add: map_err_def)

lemma map_err_Inr [result_simps]: "map_err g r = Inr x \<longleftrightarrow> r = Inr x"
  by (cases r) auto

lemma map_err_Inl [result_simps]: "map_err g r = Inl f \<longleftrightarrow> (\<exists>e. r = Inl e \<and> f = g e)"
  by (cases r) auto

lemma is_ok_simps [simp, result_simps]: "\<not> is_ok (Inl e)" "is_ok (Inr x)"
  by (simp_all add: is_ok_def)

lemma ok_or_else_simps [simp, result_simps]:
  "ok_or_else e None = Inl e" "ok_or_else e (Some x) = Inr x"
  by (simp_all add: ok_or_else_def)

lemma ok_or_else_Inr [result_simps]: "ok_or_else e v = Inr x \<longleftrightarrow> v = Some x"
  by (cases v) auto

lemma ok_or_else_Inl [result_simps]: "ok_or_else e v = Inl f \<longleftrightarrow> v = None \<and> f = e"
  by (cases v) auto

section \<open>Decimal rendering\<close>

text \<open>
  \<open>to_string\<close> of an unsigned integer: most significant digit first, no leading zero.
  Directory names are made of it, so its injectivity is what keeps two slots apart on disk.
\<close>

definition digit_char :: "nat \<Rightarrow> char" where
  "digit_char d = char_of (48 + d)"

fun to_string :: "nat \<Rightarrow> string" where
  "to_string n = (if n < 10 then [digit_char n]
                  else to_string (n div 10) @ [digit_char (n mod 10)])"

declare to_string.simps [simp del]

lemma digit_char_inj: "a < 10 \<Longrightarrow> b < 10 \<Longrightarrow> digit_char a = digit_char b \<longleftrightarrow> a = b"
  unfolding digit_char_def by (auto simp: char_of_eq_iff take_bit_eq_mod)

lemma to_string_not_Nil [simp]: "to_string n \<noteq> []"
  by (subst to_string.simps) simp

lemma to_string_small: "n < 10 \<Longrightarrow> to_string n = [digit_char n]"
  by (subst to_string.simps) simp

lemma to_string_big: "\<not> n < 10 \<Longrightarrow> to_string n = to_string (n div 10) @ [digit_char (n mod 10)]"
  by (subst to_string.simps) simp

lemma to_string_inj: "to_string a = to_string b \<Longrightarrow> a = b"
proof (induction a arbitrary: b rule: to_string.induct)
  case (1 a)
  show ?case
  proof (cases "a < 10 \<or> b < 10")
    case True
    then have "a < 10 \<and> b < 10"
      using "1.prems" by (metis append_is_Nil_conv append_eq_Cons_conv to_string_big
          to_string_not_Nil to_string_small list.distinct(1))
    with "1.prems" show ?thesis
      by (simp add: to_string_small digit_char_inj)
  next
    case False
    then have eq: "to_string (a div 10) = to_string (b div 10)"
      and last: "digit_char (a mod 10) = digit_char (b mod 10)"
      using "1.prems" by (auto simp: to_string_big)
    from False eq have "a div 10 = b div 10"
      using "1.IH" by blast
    moreover from last have "a mod 10 = b mod 10"
      by (simp add: digit_char_inj)
    ultimately show ?thesis
      by (metis div_mult_mod_eq)
  qed
qed

lemma to_string_eq_iff [simp]: "to_string a = to_string b \<longleftrightarrow> a = b"
  using to_string_inj by blast

lemma to_string_digits: "set (to_string n) \<subseteq> digit_char ` {..<10}"
proof (induction n rule: to_string.induct)
  case (1 n)
  then show ?case
    by (cases "n < 10") (auto simp: to_string_small to_string_big)
qed

section \<open>List searches\<close>

text \<open>\<open>Iterator::find_map\<close> and \<open>Iterator::min_by_key\<close> (the first of equal minima wins).\<close>

fun find_map :: "('a \<Rightarrow> 'b option) \<Rightarrow> 'a list \<Rightarrow> 'b option" where
  "find_map f [] = None"
| "find_map f (x # xs) = (case f x of Some y \<Rightarrow> Some y | None \<Rightarrow> find_map f xs)"

fun min_by_key :: "('a \<Rightarrow> 'b::linorder) \<Rightarrow> 'a list \<Rightarrow> 'a option" where
  "min_by_key f [] = None"
| "min_by_key f (x # xs) =
     (case min_by_key f xs of
        None \<Rightarrow> Some x
      | Some y \<Rightarrow> if f x \<le> f y then Some x else Some y)"

lemma find_map_SomeE:
  assumes "find_map f xs = Some y"
  obtains x where "x \<in> set xs" "f x = Some y"
  using assms by (induction xs) (auto split: option.splits)

lemma find_map_None_iff: "find_map f xs = None \<longleftrightarrow> (\<forall>x \<in> set xs. f x = None)"
  by (induction xs) (auto split: option.splits)

lemma min_by_key_None_iff [simp]: "min_by_key f xs = None \<longleftrightarrow> xs = []"
  by (cases xs) (auto split: option.splits)

lemma min_by_key_mem: "min_by_key f xs = Some y \<Longrightarrow> y \<in> set xs"
  by (induction xs arbitrary: y) (auto split: option.splits if_splits)

lemma min_by_key_le: "min_by_key f xs = Some y \<Longrightarrow> x \<in> set xs \<Longrightarrow> f y \<le> f x"
  by (induction xs arbitrary: y x) (force split: option.splits if_splits)+

section \<open>Transition systems\<close>

text \<open>
  The one reachability argument of the development: an invariant that holds at every initial
  state and is kept by every step holds in every reachable state. Each state machine below
  interprets the locale with its own step relation.
\<close>

locale transition_system =
  fixes init :: "'s \<Rightarrow> bool"
    and step :: "'s \<Rightarrow> 's \<Rightarrow> bool"
    and inv :: "'s \<Rightarrow> bool"
  assumes inv_init: "init s \<Longrightarrow> inv s"
    and inv_step: "inv s \<Longrightarrow> step s t \<Longrightarrow> inv t"
begin

lemma inv_steps: "step\<^sup>*\<^sup>* s t \<Longrightarrow> inv s \<Longrightarrow> inv t"
  by (induction rule: rtranclp_induct) (auto intro: inv_step)

lemma inv_reachable: "init s \<Longrightarrow> step\<^sup>*\<^sup>* s t \<Longrightarrow> inv t"
  by (auto intro: inv_steps inv_init)

end

end
