(* ===== verification/Machine.thy ===== *)
theory Machine
  imports Prelude
begin

text \<open>
  The instance state machine of \<open>src/crates/service/src/pool/machine.rs\<close>: the states one pool
  instance can be in, the transitions named for their evidence, the total function \<open>step\<close>, the
  census grouping, the shutdown decision and the recycle decision.
\<close>

datatype instance_state =
    Reserved | Warming | Idle | CheckedOut | Delivering | Leased | Clearing
  | Quarantined | Destroying | Leaked | Retired

datatype bucket =
    BServing | BClearing | BIdle | BLeased | BReserved | BTearingDown | BReleased

datatype transition =
    BeginWarm | WarmProven | MintFailed | CheckOut | TurnCommitted | TurnNotDelivered
  | ResponseDelivered | LeaseHeld | ResumeLease | ReleaseLease | ClearProven | RecycleDue
  | ClearFailedCoherent | ClearFailedIncoherent | IdleExpired | ColdSwapVictim
  | ShutdownDrain | BeginDestroy | Reaped | ReapFailed

datatype shutdown_choice = Drain transition | Finish | Keep

record illegal_transition =
  it_from :: instance_state
  it_transition :: transition

section \<open>Predicates on states\<close>

fun counts_against_pool :: "instance_state \<Rightarrow> bool" where
  "counts_against_pool Retired = False"
| "counts_against_pool Leaked = False"
| "counts_against_pool _ = True"

fun owns_a_root :: "instance_state \<Rightarrow> bool" where
  "owns_a_root Reserved = False"
| "owns_a_root Retired = False"
| "owns_a_root _ = True"

fun is_terminal :: "instance_state \<Rightarrow> bool" where
  "is_terminal Retired = True"
| "is_terminal Leaked = True"
| "is_terminal _ = False"

fun census_bucket :: "instance_state \<Rightarrow> bucket" where
  "census_bucket CheckedOut = BServing"
| "census_bucket Delivering = BServing"
| "census_bucket Clearing = BClearing"
| "census_bucket Idle = BIdle"
| "census_bucket Leased = BLeased"
| "census_bucket Reserved = BReserved"
| "census_bucket Warming = BReserved"
| "census_bucket Quarantined = BTearingDown"
| "census_bucket Destroying = BTearingDown"
| "census_bucket Leaked = BReleased"
| "census_bucket Retired = BReleased"

fun comes_back_on_its_own :: "bucket \<Rightarrow> bool" where
  "comes_back_on_its_own BClearing = True"
| "comes_back_on_its_own BTearingDown = True"
| "comes_back_on_its_own BServing = False"
| "comes_back_on_its_own BReserved = False"
| "comes_back_on_its_own BIdle = False"
| "comes_back_on_its_own BLeased = False"
| "comes_back_on_its_own BReleased = False"

fun show_state :: "instance_state \<Rightarrow> string" where
  "show_state Reserved = ''reserved''"
| "show_state Warming = ''warming''"
| "show_state Idle = ''idle''"
| "show_state CheckedOut = ''checked_out''"
| "show_state Delivering = ''delivering''"
| "show_state Leased = ''leased''"
| "show_state Clearing = ''clearing''"
| "show_state Quarantined = ''quarantined''"
| "show_state Destroying = ''destroying''"
| "show_state Leaked = ''leaked''"
| "show_state Retired = ''retired''"

text \<open>The derived \<open>Debug\<close> rendering of a transition, which its \<open>Display\<close> uses.\<close>

fun show_transition :: "transition \<Rightarrow> string" where
  "show_transition BeginWarm = ''BeginWarm''"
| "show_transition WarmProven = ''WarmProven''"
| "show_transition MintFailed = ''MintFailed''"
| "show_transition CheckOut = ''CheckOut''"
| "show_transition TurnCommitted = ''TurnCommitted''"
| "show_transition TurnNotDelivered = ''TurnNotDelivered''"
| "show_transition ResponseDelivered = ''ResponseDelivered''"
| "show_transition LeaseHeld = ''LeaseHeld''"
| "show_transition ResumeLease = ''ResumeLease''"
| "show_transition ReleaseLease = ''ReleaseLease''"
| "show_transition ClearProven = ''ClearProven''"
| "show_transition RecycleDue = ''RecycleDue''"
| "show_transition ClearFailedCoherent = ''ClearFailedCoherent''"
| "show_transition ClearFailedIncoherent = ''ClearFailedIncoherent''"
| "show_transition IdleExpired = ''IdleExpired''"
| "show_transition ColdSwapVictim = ''ColdSwapVictim''"
| "show_transition ShutdownDrain = ''ShutdownDrain''"
| "show_transition BeginDestroy = ''BeginDestroy''"
| "show_transition Reaped = ''Reaped''"
| "show_transition ReapFailed = ''ReapFailed''"

definition show_illegal :: "illegal_transition \<Rightarrow> string" where
  "show_illegal i = ''instance transition '' @ show_transition (it_transition i) @
     '' is not an edge out of '' @ show_state (it_from i)"

fun is_proof_carrying :: "transition \<Rightarrow> bool" where
  "is_proof_carrying WarmProven = True"
| "is_proof_carrying ClearProven = True"
| "is_proof_carrying _ = False"

definition INITIAL :: instance_state where
  "INITIAL = Reserved"

section \<open>The machine\<close>

text \<open>
  \<open>step\<close> lists the edges in the order of the source's match; every pair the source names as a
  non-arm falls into \<open>illegal\<close>.
\<close>

definition step :: "instance_state \<Rightarrow> transition \<Rightarrow> illegal_transition + instance_state" where
  "step s t =
     (let illegal = Inl \<lparr>it_from = s, it_transition = t\<rparr> in
      case s of
        Reserved \<Rightarrow>
          (case t of BeginWarm \<Rightarrow> Inr Warming
           | MintFailed \<Rightarrow> Inr Destroying
           | ShutdownDrain \<Rightarrow> Inr Destroying
           | _ \<Rightarrow> illegal)
      | Warming \<Rightarrow>
          (case t of WarmProven \<Rightarrow> Inr Idle
           | MintFailed \<Rightarrow> Inr Destroying
           | ShutdownDrain \<Rightarrow> Inr Destroying
           | _ \<Rightarrow> illegal)
      | Idle \<Rightarrow>
          (case t of CheckOut \<Rightarrow> Inr CheckedOut
           | IdleExpired \<Rightarrow> Inr Destroying
           | ColdSwapVictim \<Rightarrow> Inr Destroying
           | ShutdownDrain \<Rightarrow> Inr Destroying
           | _ \<Rightarrow> illegal)
      | CheckedOut \<Rightarrow>
          (case t of TurnCommitted \<Rightarrow> Inr Delivering
           | TurnNotDelivered \<Rightarrow> Inr Quarantined
           | _ \<Rightarrow> illegal)
      | Delivering \<Rightarrow>
          (case t of ResponseDelivered \<Rightarrow> Inr Clearing
           | LeaseHeld \<Rightarrow> Inr Leased
           | _ \<Rightarrow> illegal)
      | Leased \<Rightarrow>
          (case t of ResumeLease \<Rightarrow> Inr CheckedOut
           | ReleaseLease \<Rightarrow> Inr Clearing
           | ShutdownDrain \<Rightarrow> Inr Destroying
           | _ \<Rightarrow> illegal)
      | Clearing \<Rightarrow>
          (case t of ClearProven \<Rightarrow> Inr Idle
           | RecycleDue \<Rightarrow> Inr Destroying
           | ClearFailedCoherent \<Rightarrow> Inr Destroying
           | ClearFailedIncoherent \<Rightarrow> Inr Quarantined
           | ShutdownDrain \<Rightarrow> Inr Destroying
           | _ \<Rightarrow> illegal)
      | Quarantined \<Rightarrow>
          (case t of BeginDestroy \<Rightarrow> Inr Destroying
           | _ \<Rightarrow> illegal)
      | Destroying \<Rightarrow>
          (case t of Reaped \<Rightarrow> Inr Retired
           | ReapFailed \<Rightarrow> Inr Leaked
           | _ \<Rightarrow> illegal)
      | Leaked \<Rightarrow> illegal
      | Retired \<Rightarrow> illegal)"

fun shutdown_action :: "instance_state \<Rightarrow> shutdown_choice" where
  "shutdown_action Reserved = Drain ShutdownDrain"
| "shutdown_action Warming = Drain ShutdownDrain"
| "shutdown_action Idle = Drain ShutdownDrain"
| "shutdown_action Leased = Drain ShutdownDrain"
| "shutdown_action Clearing = Drain ShutdownDrain"
| "shutdown_action Quarantined = Drain BeginDestroy"
| "shutdown_action Destroying = Finish"
| "shutdown_action CheckedOut = Keep"
| "shutdown_action Delivering = Keep"
| "shutdown_action Leaked = Keep"
| "shutdown_action Retired = Keep"

definition clear_success_transition :: "u32 \<Rightarrow> u32 \<Rightarrow> transition" where
  "clear_success_transition turns_started recycle_turns =
     (if turns_started \<ge> recycle_turns then RecycleDue else ClearProven)"

definition idle_is_proof_carrying :: "instance_state \<Rightarrow> transition \<Rightarrow> bool" where
  "idle_is_proof_carrying s l \<longleftrightarrow> \<not> s = Idle \<or> is_proof_carrying l"

text \<open>
  The specification table the module's own tests hold \<open>step\<close> against: every edge, written out.
\<close>

definition EDGES :: "(instance_state \<times> transition \<times> instance_state) list" where
  "EDGES =
    [(Reserved, BeginWarm, Warming),
     (Reserved, MintFailed, Destroying),
     (Reserved, ShutdownDrain, Destroying),
     (Warming, WarmProven, Idle),
     (Warming, MintFailed, Destroying),
     (Warming, ShutdownDrain, Destroying),
     (Idle, CheckOut, CheckedOut),
     (Idle, IdleExpired, Destroying),
     (Idle, ColdSwapVictim, Destroying),
     (Idle, ShutdownDrain, Destroying),
     (CheckedOut, TurnCommitted, Delivering),
     (CheckedOut, TurnNotDelivered, Quarantined),
     (Delivering, ResponseDelivered, Clearing),
     (Delivering, LeaseHeld, Leased),
     (Leased, ResumeLease, CheckedOut),
     (Leased, ReleaseLease, Clearing),
     (Leased, ShutdownDrain, Destroying),
     (Clearing, ClearProven, Idle),
     (Clearing, RecycleDue, Destroying),
     (Clearing, ClearFailedCoherent, Destroying),
     (Clearing, ClearFailedIncoherent, Quarantined),
     (Clearing, ShutdownDrain, Destroying),
     (Quarantined, BeginDestroy, Destroying),
     (Destroying, Reaped, Retired),
     (Destroying, ReapFailed, Leaked)]"

text \<open>Applying transitions in sequence, stopping at the first that is not an edge.\<close>

fun run_steps :: "instance_state \<Rightarrow> transition list \<Rightarrow> illegal_transition + instance_state" where
  "run_steps s [] = Inr s"
| "run_steps s (t # ts) = bind_r (step s t) (\<lambda>s'. run_steps s' ts)"

section \<open>Edges\<close>

lemma step_edges: "step s t = Inr s' \<longleftrightarrow> (s, t, s') \<in> set EDGES"
  by (cases s; cases t) (auto simp: step_def EDGES_def)

lemma step_illegal: "step s t = Inl e \<Longrightarrow> e = \<lparr>it_from = s, it_transition = t\<rparr>"
  by (cases s; cases t) (auto simp: step_def)

lemmas step_simps [machine_simps] = step_def Let_def

lemma step_into_Idle: "step s t = Inr Idle \<longleftrightarrow>
    (s = Warming \<and> t = WarmProven) \<or> (s = Clearing \<and> t = ClearProven)"
  unfolding step_edges by (auto simp: EDGES_def)

lemma step_into_CheckedOut: "step s t = Inr CheckedOut \<longleftrightarrow>
    (s = Idle \<and> t = CheckOut) \<or> (s = Leased \<and> t = ResumeLease)"
  unfolding step_edges by (auto simp: EDGES_def)

lemma step_into_Clearing: "step s t = Inr Clearing \<longleftrightarrow>
    (s = Delivering \<and> t = ResponseDelivered) \<or> (s = Leased \<and> t = ReleaseLease)"
  unfolding step_edges by (auto simp: EDGES_def)

lemma step_into_Leased: "step s t = Inr Leased \<longleftrightarrow> s = Delivering \<and> t = LeaseHeld"
  unfolding step_edges by (auto simp: EDGES_def)

lemma step_into_Delivering: "step s t = Inr Delivering \<longleftrightarrow> s = CheckedOut \<and> t = TurnCommitted"
  unfolding step_edges by (auto simp: EDGES_def)

lemma step_into_Reserved: "step s t \<noteq> Inr Reserved"
  unfolding step_edges by (simp add: EDGES_def)

lemma step_from_Destroying: "step Destroying t = Inr s \<longleftrightarrow>
    (t = Reaped \<and> s = Retired) \<or> (t = ReapFailed \<and> s = Leaked)"
  unfolding step_edges by (auto simp: EDGES_def)

lemma step_from_Quarantined: "step Quarantined t = Inr s \<longleftrightarrow> t = BeginDestroy \<and> s = Destroying"
  unfolding step_edges by (auto simp: EDGES_def)

lemma step_Reaped: "step s Reaped = Inr s' \<longleftrightarrow> s = Destroying \<and> s' = Retired"
  unfolding step_edges by (simp add: EDGES_def)

lemma step_terminal: "is_terminal s \<longleftrightarrow> (\<forall>t. \<not> is_ok (step s t))"
proof
  assume "is_terminal s"
  then show "\<forall>t. \<not> is_ok (step s t)"
    by (cases s) (auto simp: step_def)
next
  assume stuck: "\<forall>t. \<not> is_ok (step s t)"
  show "is_terminal s"
    using stuck [rule_format, of BeginWarm] stuck [rule_format, of ShutdownDrain]
      stuck [rule_format, of TurnCommitted] stuck [rule_format, of LeaseHeld]
      stuck [rule_format, of BeginDestroy] stuck [rule_format, of Reaped]
    by (cases s) (auto simp: step_def)
qed

section \<open>Runs\<close>

lemma run_steps_append:
  "run_steps s (xs @ ys) = bind_r (run_steps s xs) (\<lambda>s'. run_steps s' ys)"
proof (induction xs arbitrary: s)
  case Nil
  then show ?case by simp
next
  case (Cons t xs)
  then show ?case by (cases "step s t") auto
qed

lemma run_steps_snoc:
  "run_steps s (ts @ [t]) = Inr s' \<longleftrightarrow> (\<exists>u. run_steps s ts = Inr u \<and> step u t = Inr s')"
  by (simp add: run_steps_append bind_r_Inr)

text \<open>
  The transition system of one instance: its state together with the transition that produced
  it (\<open>Instance::last_transition\<close>). Its invariant is the module's \<open>idle_is_proof_carrying\<close>.
\<close>

definition life_init :: "instance_state \<times> transition option \<Rightarrow> bool" where
  "life_init p \<longleftrightarrow> p = (INITIAL, None)"

inductive life_step ::
  "instance_state \<times> transition option \<Rightarrow> instance_state \<times> transition option \<Rightarrow> bool" where
  "step s t = Inr s' \<Longrightarrow> life_step (s, l) (s', Some t)"

definition life_inv :: "instance_state \<times> transition option \<Rightarrow> bool" where
  "life_inv p = (case p of (s, l) \<Rightarrow> (case l of None \<Rightarrow> s = INITIAL
     | Some t \<Rightarrow> idle_is_proof_carrying s t))"

interpretation life: transition_system life_init life_step life_inv
proof
  fix p assume "life_init p"
  then show "life_inv p" by (simp add: life_init_def life_inv_def)
next
  fix p q assume "life_inv p" "life_step p q"
  from this(2) show "life_inv q"
    by cases (auto simp: life_inv_def idle_is_proof_carrying_def step_into_Idle)
qed

text \<open>Once out of service (quarantined, in teardown or terminal), an instance stays out.\<close>

definition out_of_service :: "instance_state \<Rightarrow> bool" where
  "out_of_service s \<longleftrightarrow> s \<in> {Quarantined, Destroying, Leaked, Retired}"

lemma step_out_of_service:
  "out_of_service s \<Longrightarrow> step s t = Inr s' \<Longrightarrow> out_of_service s'"
  unfolding step_edges by (auto simp: EDGES_def out_of_service_def)

lemma run_out_of_service:
  "out_of_service s \<Longrightarrow> run_steps s ts = Inr s' \<Longrightarrow> out_of_service s'"
  by (induction ts arbitrary: s) (auto simp: bind_r_Inr dest: step_out_of_service)

text \<open>
  States an instance can be in after a caller has used it and before a clear has been proven.
\<close>

definition used :: "instance_state \<Rightarrow> bool" where
  "used s \<longleftrightarrow> s \<notin> {Reserved, Warming, Idle}"

lemma step_used: "used s \<Longrightarrow> step s t = Inr s' \<Longrightarrow> t \<noteq> ClearProven \<Longrightarrow> used s'"
  unfolding step_edges by (auto simp: EDGES_def used_def)

lemma run_used:
  "used s \<Longrightarrow> run_steps s ts = Inr s' \<Longrightarrow> ClearProven \<notin> set ts \<Longrightarrow> used s'"
  by (induction ts arbitrary: s) (auto simp: bind_r_Inr dest: step_used)

lemma run_terminal: "is_terminal s \<Longrightarrow> run_steps s ts = Inr s' \<Longrightarrow> ts = [] \<and> s' = s"
proof (cases ts)
  case (Cons t ts')
  assume "is_terminal s" "run_steps s ts = Inr s'"
  with Cons have "is_ok (step s t)" by (auto simp: bind_r_Inr)
  with \<open>is_terminal s\<close> show ?thesis by (simp add: step_terminal)
qed simp

lemma run_from_Destroying: "run_steps Destroying ts = Inr s \<Longrightarrow> length ts \<le> 1"
  by (cases ts) (auto simp: bind_r_Inr step_from_Destroying dest: run_terminal [rotated])

lemma run_from_Quarantined: "run_steps Quarantined ts = Inr s \<Longrightarrow> length ts \<le> 2"
  by (cases ts) (auto simp: bind_r_Inr step_from_Quarantined dest: run_from_Destroying)

section \<open>Properties\<close>

text \<open>Membership in the idle set is the emptiness proof: in every history of an instance that
  begins with the reservation, an instance that is \<open>Idle\<close> got there by a proof-carrying
  transition, \<open>WarmProven\<close> or \<open>ClearProven\<close>.\<close>
lemma idle_is_the_emptiness_proof:
  assumes "life_step\<^sup>*\<^sup>* (INITIAL, None) (Idle, l)"
  shows "\<exists>t. l = Some t \<and> is_proof_carrying t"
proof -
  have "life_inv (Idle, l)"
    using life.inv_reachable [OF _ assms] by (simp add: life_init_def)
  then show ?thesis
    by (auto simp: life_inv_def INITIAL_def idle_is_proof_carrying_def split: option.splits)
qed

text \<open>No caller is handed an instance another caller has used unless a clear was proven in
  between: from \<open>CheckedOut\<close>, every legal sequence of transitions that ends in another
  \<open>CheckOut\<close> contains \<open>ClearProven\<close>.\<close>
lemma no_checkout_without_a_proven_clear:
  assumes "run_steps CheckedOut (ts @ [CheckOut]) = Inr s"
  shows "ClearProven \<in> set ts"
proof (rule ccontr)
  assume "ClearProven \<notin> set ts"
  moreover obtain u where u: "run_steps CheckedOut ts = Inr u" "step u CheckOut = Inr s"
    using assms by (auto simp: run_steps_snoc)
  ultimately have "used u"
    using run_used [of CheckedOut] by (simp add: used_def)
  moreover from u(2) have "u = Idle"
    unfolding step_edges by (auto simp: EDGES_def)
  ultimately show False by (simp add: used_def)
qed

text \<open>A turn that was not delivered takes the instance out of service for good: after
  \<open>TurnNotDelivered\<close> only teardown states follow, and at most two more transitions exist.\<close>
lemma undelivered_turn_never_serves_again:
  assumes "run_steps CheckedOut (TurnNotDelivered # ts) = Inr s"
  shows "out_of_service s \<and> length ts \<le> 2"
proof -
  have run: "run_steps Quarantined ts = Inr s"
    using assms by (simp add: step_def)
  moreover have "out_of_service Quarantined"
    by (simp add: out_of_service_def)
  ultimately show ?thesis
    using run_out_of_service run_from_Quarantined by blast
qed

text \<open>\<open>step\<close> has exactly the edges the specification table names, with the target the table
  gives, and it reports every other pair as the illegal transition that was asked for.\<close>
lemma step_implements_the_edge_table:
  "step s t =
     (case find (\<lambda>(a, b, _). a = s \<and> b = t) EDGES of
        Some (_, _, s') \<Rightarrow> Inr s'
      | None \<Rightarrow> Inl \<lparr>it_from = s, it_transition = t\<rparr>)"
  by (cases s; cases t) (simp_all add: step_def EDGES_def)

text \<open>A state is waited for exactly when it can be left with no caller's help: the bucket
  predicate admission waits on agrees with the machine on every state.\<close>
theorem waited_for_iff_leaves_unattended:
  "comes_back_on_its_own (census_bucket s) \<longleftrightarrow>
     list_ex (\<lambda>t. is_ok (step s t))
       [ClearProven, ClearFailedCoherent, ClearFailedIncoherent, RecycleDue,
        BeginDestroy, Reaped, ReapFailed]"
  by (cases s) (simp_all add: step_def)

text \<open>Shutdown drains an instance only along an edge into \<open>Destroying\<close>, finishes only what is
  already being destroyed, and keeps exactly the states in which a caller still waits for its
  answer or that hold no slot.\<close>
lemma shutdown_action_sound:
  "case shutdown_action s of
     Drain t \<Rightarrow> step s t = Inr Destroying
   | Finish \<Rightarrow> s = Destroying
   | Keep \<Rightarrow> s \<in> {CheckedOut, Delivering, Leaked, Retired}"
  by (cases s) (simp_all add: step_def)

end
