(* ===== verification/BTree.thy ===== *)
theory BTree
  imports Prelude
begin

text \<open>
  Rust's \<open>BTreeMap\<close> and \<open>BTreeSet\<close>: a strictly sorted association list behind an abstract type,
  so that iteration order is the key order and every operation keeps the representation
  invariant. The locale \<open>ordered_map\<close> states what the pool relies on; the type interprets it.
\<close>

section \<open>The interface\<close>

locale ordered_map =
  fixes empty :: "'m"
    and get :: "'m \<Rightarrow> 'k::linorder \<Rightarrow> 'v option"
    and insert :: "'k \<Rightarrow> 'v \<Rightarrow> 'm \<Rightarrow> 'm"
    and remove :: "'k \<Rightarrow> 'm \<Rightarrow> 'm"
    and keys :: "'m \<Rightarrow> 'k list"
  assumes get_empty: "get empty k = None"
    and get_insert: "get (insert k v m) k' = (if k' = k then Some v else get m k')"
    and get_remove: "get (remove k m) k' = (if k' = k then None else get m k')"
    and set_keys: "set (keys m) = {k. get m k \<noteq> None}"
    and keys_sorted: "sorted_wrt (<) (keys m)"
begin

lemma keys_distinct: "distinct (keys m)"
  using keys_sorted strict_sorted_iff by blast

lemma mem_keys: "k \<in> set (keys m) \<longleftrightarrow> get m k \<noteq> None"
  by (simp add: set_keys)

lemma keys_unique: "{k. get m k \<noteq> None} = {k. get m' k \<noteq> None} \<Longrightarrow> keys m = keys m'"
  by (metis keys_sorted set_keys strict_sorted_equal)

lemma keys_insert_present: "get m k \<noteq> None \<Longrightarrow> keys (insert k v m) = keys m"
  by (rule keys_unique) (auto simp: get_insert)

lemma length_keys: "length (keys m) = card {k. get m k \<noteq> None}"
  by (metis distinct_card keys_distinct set_keys)

lemma finite_dom: "finite {k. get m k \<noteq> None}"
  by (metis List.finite_set set_keys)

lemma length_keys_insert:
  "length (keys (insert k v m)) =
     (if get m k = None then Suc (length (keys m)) else length (keys m))"
proof -
  have "{x. get (insert k v m) x \<noteq> None} = Set.insert k {x. get m x \<noteq> None}"
    by (auto simp: get_insert)
  then show ?thesis
    using finite_dom by (simp add: length_keys card_insert_if)
qed

lemma length_keys_remove:
  "length (keys (remove k m)) =
     (if get m k = None then length (keys m) else length (keys m) - 1)"
proof -
  have "{x. get (remove k m) x \<noteq> None} = {x. get m x \<noteq> None} - {k}"
    by (auto simp: get_remove)
  then show ?thesis
    using finite_dom by (simp add: length_keys card_Diff_singleton_if)
qed

end

section \<open>The sorted association list\<close>

fun ins_list :: "'k::linorder \<Rightarrow> 'v \<Rightarrow> ('k \<times> 'v) list \<Rightarrow> ('k \<times> 'v) list" where
  "ins_list k v [] = [(k, v)]"
| "ins_list k v ((k', v') # xs) =
     (if k < k' then (k, v) # (k', v') # xs
      else if k = k' then (k, v) # xs
      else (k', v') # ins_list k v xs)"

definition del_key :: "'k \<Rightarrow> ('k \<times> 'v) list \<Rightarrow> ('k \<times> 'v) list" where
  "del_key k xs = filter (\<lambda>p. fst p \<noteq> k) xs"

lemma set_fst_ins_list: "fst ` set (ins_list k v xs) = Set.insert k (fst ` set xs)"
  by (induction xs rule: ins_list.induct) auto

lemma sorted_ins_list:
  "sorted_wrt (<) (map fst xs) \<Longrightarrow> sorted_wrt (<) (map fst (ins_list k v xs))"
proof (induction k v xs rule: ins_list.induct)
  case (2 k v k' v' xs)
  then show ?case
    using set_fst_ins_list [of k v xs] by (fastforce simp: image_iff)
qed simp

lemma sorted_del_key:
  "sorted_wrt (<) (map fst xs) \<Longrightarrow> sorted_wrt (<) (map fst (del_key k xs))"
  by (induction xs) (auto simp: del_key_def)

lemma map_of_ins_list:
  "sorted_wrt (<) (map fst xs) \<Longrightarrow>
   map_of (ins_list k v xs) k' = (if k' = k then Some v else map_of xs k')"
  by (induction k v xs rule: ins_list.induct) auto

lemma map_of_del_key: "map_of (del_key k xs) k' = (if k' = k then None else map_of xs k')"
  by (induction xs) (auto simp: del_key_def)

lemma alist_of_keys:
  "sorted_wrt (<) (map fst (xs :: ('k::linorder \<times> 'v) list)) \<Longrightarrow> xs = map (\<lambda>k. (k, the (map_of xs k))) (map fst xs)"
proof -
  assume "sorted_wrt (<) (map fst xs)"
  then have "distinct (map fst xs)" by (simp add: strict_sorted_iff)
  then show ?thesis by (auto intro!: map_idI [symmetric])
qed

typedef (overloaded) ('k, 'v) btree_map =
  "{xs :: ('k::linorder \<times> 'v) list. sorted_wrt (<) (map fst xs)}"
  morphisms entries Btree
  by (rule exI [of _ "[]"]) simp

setup_lifting type_definition_btree_map

lift_definition bm_empty :: "('k::linorder, 'v) btree_map" is "[]"
  by simp

lift_definition bm_insert ::
  "'k::linorder \<Rightarrow> 'v \<Rightarrow> ('k, 'v) btree_map \<Rightarrow> ('k, 'v) btree_map" is ins_list
  by (rule sorted_ins_list)

lift_definition bm_remove ::
  "'k::linorder \<Rightarrow> ('k, 'v) btree_map \<Rightarrow> ('k, 'v) btree_map" is del_key
  by (rule sorted_del_key)

lift_definition bm_get :: "('k::linorder, 'v) btree_map \<Rightarrow> 'k \<Rightarrow> 'v option" is map_of .

lift_definition bm_keys :: "('k::linorder, 'v) btree_map \<Rightarrow> 'k list" is "map fst" .

lift_definition bm_values :: "('k::linorder, 'v) btree_map \<Rightarrow> 'v list" is "map snd" .

definition bm_contains :: "('k::linorder, 'v) btree_map \<Rightarrow> 'k \<Rightarrow> bool" where
  "bm_contains m k \<longleftrightarrow> bm_get m k \<noteq> None"

definition bm_len :: "('k::linorder, 'v) btree_map \<Rightarrow> nat" where
  "bm_len m = length (bm_keys m)"

text \<open>\<open>if let Some(v) = map.get_mut(k) { *v = f(*v) }\<close>.\<close>

definition bm_modify ::
  "'k::linorder \<Rightarrow> ('v \<Rightarrow> 'v) \<Rightarrow> ('k, 'v) btree_map \<Rightarrow> ('k, 'v) btree_map" where
  "bm_modify k f m = (case bm_get m k of None \<Rightarrow> m | Some v \<Rightarrow> bm_insert k (f v) m)"

interpretation bm: ordered_map bm_empty bm_get bm_insert bm_remove bm_keys
proof
  fix m :: "('a, 'b) btree_map" and k
  show "set (bm_keys m) = {k. bm_get m k \<noteq> None}"
    by transfer (auto simp: map_of_eq_None_iff)
qed (transfer; simp add: map_of_ins_list map_of_del_key)+

lemmas bm_simps [simp] = bm.get_empty bm.get_insert bm.get_remove

lemma bm_eqI:
  assumes "\<And>k. bm_get m k = bm_get m' k"
  shows "m = m'"
proof -
  have "bm_keys m = bm_keys m'"
    by (rule bm.keys_unique) (simp add: assms)
  moreover have "entries m = map (\<lambda>k. (k, the (bm_get m k))) (bm_keys m)" for m :: "('a, 'b) btree_map"
    by transfer (rule alist_of_keys)
  ultimately have "entries m = entries m'"
    by (simp add: assms)
  then show ?thesis by (simp add: entries_inject)
qed

lemma bm_contains_simps [simp]:
  "bm_contains bm_empty k = False"
  "bm_contains (bm_insert k v m) k' \<longleftrightarrow> k' = k \<or> bm_contains m k'"
  "bm_contains (bm_remove k m) k' \<longleftrightarrow> k' \<noteq> k \<and> bm_contains m k'"
  by (auto simp: bm_contains_def)

lemma bm_get_contains: "bm_get m k = Some v \<Longrightarrow> bm_contains m k"
  by (simp add: bm_contains_def)

lemma bm_get_modify [simp]:
  "bm_get (bm_modify k f m) k' = (if k' = k then map_option f (bm_get m k) else bm_get m k')"
  by (auto simp: bm_modify_def split: option.splits)

lemma bm_len_empty [simp]: "bm_len bm_empty = 0"
  by (simp add: bm_len_def) (transfer, simp)

lemma bm_len_insert:
  "bm_len (bm_insert k v m) = (if bm_contains m k then bm_len m else Suc (bm_len m))"
  by (simp add: bm_len_def bm.length_keys_insert bm_contains_def)

lemma bm_len_remove: "bm_len (bm_remove k m) = (if bm_contains m k then bm_len m - 1 else bm_len m)"
  by (simp add: bm_len_def bm.length_keys_remove bm_contains_def)

lemma bm_len_0_iff: "bm_len m = 0 \<longleftrightarrow> (\<forall>k. bm_get m k = None)"
  using bm.set_keys [of m] by (auto simp: bm_len_def)

lemma set_bm_keys [simp]: "set (bm_keys m) = {k. bm_contains m k}"
  by (simp add: bm.set_keys bm_contains_def)

lemma bm_values_keys: "bm_values m = map (\<lambda>k. the (bm_get m k)) (bm_keys m)"
proof transfer
  fix xs :: "('c::linorder \<times> 'd) list"
  assume "sorted_wrt (<) (map fst xs)"
  from arg_cong [OF alist_of_keys [OF this], of "map snd"]
  show "map snd xs = map (\<lambda>k. the (map_of xs k)) (map fst xs)"
    by (simp add: comp_def)
qed

lemma length_bm_values [simp]: "length (bm_values m) = bm_len m"
  by (simp add: bm_values_keys bm_len_def)

lemma set_bm_values: "set (bm_values m) = {v. \<exists>k. bm_get m k = Some v}"
  by (force simp: bm_values_keys bm_contains_def)

lemma bm_len_le_card:
  assumes "\<And>k. bm_contains m k \<Longrightarrow> k \<in> A" "finite A"
  shows "bm_len m \<le> card A"
proof -
  have "bm_len m = card {k. bm_get m k \<noteq> None}"
    by (simp add: bm_len_def bm.length_keys)
  also have "\<dots> \<le> card A"
    using assms by (intro card_mono) (auto simp: bm_contains_def)
  finally show ?thesis .
qed

instantiation btree_map :: (linorder, equal) equal
begin
definition equal_btree_map :: "('a, 'b) btree_map \<Rightarrow> ('a, 'b) btree_map \<Rightarrow> bool" where
  "equal_btree_map m m' \<longleftrightarrow> entries m = entries m'"
instance
  by standard (simp add: equal_btree_map_def entries_inject)
end

section \<open>Ordered sets\<close>

text \<open>\<open>BTreeSet<T>\<close> is \<open>BTreeMap<T, ()>\<close>.\<close>

type_synonym 'k btree_set = "('k, unit) btree_map"

definition bs_insert :: "'k::linorder \<Rightarrow> 'k btree_set \<Rightarrow> 'k btree_set" where
  "bs_insert k s = bm_insert k () s"

lemma bs_insert_simps [simp]:
  "bm_contains (bs_insert k s) k' \<longleftrightarrow> k' = k \<or> bm_contains s k'"
  "bm_len (bs_insert k s) = (if bm_contains s k then bm_len s else Suc (bm_len s))"
  by (simp_all add: bs_insert_def bm_len_insert)

end
