(* ===== verification/Text_Utf8.thy ===== *)
theory Text_Utf8
  imports Prelude "HOL-Library.Word"
begin

text \<open>
  Rust's \<open>str\<close>, where code looks at both its characters and its bytes: a text is a list of
  Unicode scalar values, and \<open>utf8\<close> is the byte sequence that stores it.
\<close>

type_synonym scalar = nat
type_synonym utext = "scalar list"
type_synonym u8w = "8 word"

definition utf8_char :: "scalar \<Rightarrow> u8w list" where
  "utf8_char c =
     (if c < 128 then [word_of_nat c]
      else if c < 2048 then [word_of_nat (192 + c div 64), word_of_nat (128 + c mod 64)]
      else if c < 65536 then
        [word_of_nat (224 + c div 4096), word_of_nat (128 + c div 64 mod 64),
         word_of_nat (128 + c mod 64)]
      else
        [word_of_nat (240 + c div 262144), word_of_nat (128 + c div 4096 mod 64),
         word_of_nat (128 + c div 64 mod 64), word_of_nat (128 + c mod 64)])"

definition utf8 :: "utext \<Rightarrow> u8w list" where
  "utf8 t = concat (map utf8_char t)"

text \<open>\<open>str::len\<close> counts bytes.\<close>

definition byte_len :: "utext \<Rightarrow> nat" where
  "byte_len t = length (utf8 t)"

text \<open>\<open>char::is_control\<close>: general category Cc.\<close>

definition is_control :: "scalar \<Rightarrow> bool" where
  "is_control c \<longleftrightarrow> c < 32 \<or> (127 \<le> c \<and> c < 160)"

definition ascii :: "string \<Rightarrow> utext" where
  "ascii s = map of_char s"

lemma byte_len_Nil [simp]: "byte_len [] = 0"
  by (simp add: byte_len_def utf8_def)

lemma byte_len_ge: "length t \<le> byte_len t"
proof (induction t)
  case (Cons c t)
  have "1 \<le> length (utf8_char c)" by (simp add: utf8_char_def)
  with Cons show ?case by (simp add: byte_len_def utf8_def)
qed simp

lemma byte_len_le: "byte_len t \<le> 4 * length t"
proof (induction t)
  case (Cons c t)
  have "length (utf8_char c) \<le> 4" by (simp add: utf8_char_def)
  with Cons show ?case by (simp add: byte_len_def utf8_def)
qed simp

end
