(* ===== verification/Wire.thy ===== *)
theory Wire
  imports BTree Text_Utf8
begin

text \<open>
  The part of the wire protocol (\<open>src/crates/protocol/src/v1.rs\<close>) the daemon's components speak:
  error codes, error bodies with their detail object, and effort tiers. \<open>serde_json\<close> objects
  are key-ordered maps in this build, so an object is a strictly sorted association list.
\<close>

datatype json =
    JNull
  | JBool bool
  | JNum nat
  | JString string
  | JArray "json list"
  | JObject "(string \<times> json) list"

text \<open>The \<open>json!\<close> macro on an object literal: insert the pairs from left to right.\<close>

definition json_object :: "(string \<times> json) list \<Rightarrow> json" where
  "json_object kvs = JObject (fold (\<lambda>(k, v). ins_list k v) kvs [])"

fun json_get :: "json \<Rightarrow> string \<Rightarrow> json option" where
  "json_get (JObject kvs) k = map_of kvs k"
| "json_get _ k = None"

fun json_str :: "json \<Rightarrow> string option" where
  "json_str (JString s) = Some s"
| "json_str _ = None"

datatype error_code =
    InvalidConfig | UnsupportedFeature | UnsupportedClaudeVersion | ClaudeNotFound
  | RmuxUnavailable | RmuxIncompatible | PersistenceDisabled | TranscriptUnavailable
  | SchemaDrift | PromptNotAcknowledged | ResultTooLarge | TurnHistoryCapacityExceeded
  | SessionBusy | IdConflict | IdCollision | SessionNotFound | StaleSessionGeneration
  | NeedsTrust | NeedsLogin | NeedsPermission | NeedsUpdate | NeedsInput | RateLimited
  | AuthenticationFailed | BillingFailed | PermissionDenied | TurnTimeout | Cancelled
  | RecoveryFailed | ClaudeExited | DaemonLost | ReplayGap | ProtocolVersionMismatch | Internal

record error_body =
  code :: error_code
  message :: string
  retryable :: bool
  details :: json

definition error_new :: "error_code \<Rightarrow> string \<Rightarrow> error_body" where
  "error_new c m = \<lparr>code = c, message = m, retryable = False, details = JNull\<rparr>"

definition with_retryable :: "bool \<Rightarrow> error_body \<Rightarrow> error_body" where
  "with_retryable r e = e\<lparr>retryable := r\<rparr>"

definition with_details :: "json \<Rightarrow> error_body \<Rightarrow> error_body" where
  "with_details d e = e\<lparr>details := d\<rparr>"

definition RECOMMENDATION_KEY :: string where
  "RECOMMENDATION_KEY = ''recommendation''"

definition advising :: "string \<Rightarrow> error_body \<Rightarrow> error_body" where
  "advising r e = e\<lparr>details :=
     (case details e of
        JObject kvs \<Rightarrow> JObject (ins_list RECOMMENDATION_KEY (JString r) kvs)
      | _ \<Rightarrow> JObject (ins_list RECOMMENDATION_KEY (JString r) []))\<rparr>"

definition recommendation :: "error_body \<Rightarrow> string option" where
  "recommendation e = Option.bind (json_get (details e) RECOMMENDATION_KEY) json_str"

datatype effort_level = Low | Medium | High | XHigh | Max

fun effort_as_str :: "effort_level \<Rightarrow> string" where
  "effort_as_str Low = ''low''"
| "effort_as_str Medium = ''medium''"
| "effort_as_str High = ''high''"
| "effort_as_str XHigh = ''xhigh''"
| "effort_as_str Max = ''max''"

section \<open>Turn payloads\<close>

record token_usage =
  input_tokens :: u64
  output_tokens :: u64
  cache_creation_input_tokens :: u64
  cache_read_input_tokens :: u64

definition token_usage_default :: token_usage where
  "token_usage_default = \<lparr>input_tokens = 0, output_tokens = 0,
     cache_creation_input_tokens = 0, cache_read_input_tokens = 0\<rparr>"

record usage_breakdown =
  main :: token_usage
  sidechain :: token_usage
  combined :: token_usage
  cost_usd :: "string option"

datatype stop_reason_kind =
  EndTurn | StopSequence | MaxTokens | ToolUse | PauseTurn | Refusal | Error | Unknown

record stop_reason =
  sr_kind :: stop_reason_kind
  sr_raw :: "string option"

record run_stateless_request =
  req_model :: string
  req_effort :: "effort_level option"
  req_prompt :: utext
  req_account :: "string option"
  req_deadline_unix_ms :: "u64 option"

record stateless_result =
  res_model :: string
  res_reported_model :: "string option"
  res_effort :: "effort_level option"
  res_text :: utext
  res_stop_reason :: "stop_reason option"
  res_usage :: usage_breakdown
  res_claude_version :: string

text \<open>\<open>slice::join\<close> on strings.\<close>

fun join_with :: "string \<Rightarrow> string list \<Rightarrow> string" where
  "join_with sep [] = []"
| "join_with sep [x] = x"
| "join_with sep (x # y # zs) = x @ sep @ join_with sep (y # zs)"

lemma error_new_simps [simp]:
  "code (error_new c m) = c" "message (error_new c m) = m"
  "\<not> retryable (error_new c m)" "details (error_new c m) = JNull"
  by (simp_all add: error_new_def)

lemma with_retryable_simps [simp]:
  "code (with_retryable r e) = code e" "message (with_retryable r e) = message e"
  "retryable (with_retryable r e) = r" "details (with_retryable r e) = details e"
  by (simp_all add: with_retryable_def)

lemma with_details_simps [simp]:
  "code (with_details d e) = code e" "message (with_details d e) = message e"
  "retryable (with_details d e) = retryable e" "details (with_details d e) = d"
  by (simp_all add: with_details_def)

lemma advising_simps [simp]:
  "code (advising r e) = code e" "message (advising r e) = message e"
  "retryable (advising r e) = retryable e"
  by (simp_all add: advising_def)

text \<open>A detail object whose keys are strictly sorted, as every object built above is.\<close>

definition wf_details :: "json \<Rightarrow> bool" where
  "wf_details d = (case d of JObject kvs \<Rightarrow> sorted_wrt (<) (map fst kvs) | _ \<Rightarrow> True)"

lemma sorted_fold_ins:
  "sorted_wrt (<) (map fst acc) \<Longrightarrow>
   sorted_wrt (<) (map fst (fold (\<lambda>(k, v). ins_list k v) kvs acc))"
  by (induction kvs arbitrary: acc) (auto simp: sorted_ins_list)

lemma wf_details_object [simp]: "wf_details (json_object kvs)"
  by (simp add: wf_details_def json_object_def sorted_fold_ins)

lemma wf_details_advising [simp]: "wf_details (details e) \<Longrightarrow> wf_details (details (advising r e))"
  by (auto simp: wf_details_def advising_def sorted_ins_list split: json.splits)

lemma advising_get:
  "wf_details (details e) \<Longrightarrow>
   json_get (details (advising r e)) k =
     (if k = RECOMMENDATION_KEY then Some (JString r) else json_get (details e) k)"
  by (cases "details e") (auto simp: advising_def wf_details_def map_of_ins_list)

lemma effort_as_str_inj: "effort_as_str a = effort_as_str b \<longleftrightarrow> a = b"
  by (cases a; cases b) simp_all

text \<open>Writing advice never costs a refusal another detail: \<open>advising\<close> sets the
  recommendation that \<open>recommendation\<close> reads back, keeps every other detail key, and leaves the
  code, the message and the retryability as they were.\<close>
lemma advising_merges:
  assumes "wf_details (details e)"
  shows "recommendation (advising r e) = Some r
    \<and> (\<forall>k. k \<noteq> RECOMMENDATION_KEY \<longrightarrow> json_get (details (advising r e)) k = json_get (details e) k)
    \<and> code (advising r e) = code e \<and> message (advising r e) = message e
    \<and> retryable (advising r e) = retryable e"
  using assms by (simp add: recommendation_def advising_get)

end
