(* ===== verification/Class.thy ===== *)
theory Class
  imports Wire
begin

text \<open>
  Accounts and the pool's class key (\<open>src/crates/service/src/pool/account.rs\<close>,
  \<open>src/crates/service/src/pool/class.rs\<close>): account names, the model table, the one rule that
  resolves a \<open>(model, effort)\<close> pair to argv, and the fungibility key built from it.
\<close>

section \<open>Account names\<close>

definition MAX_ACCOUNT_NAME_BYTES :: nat where
  "MAX_ACCOUNT_NAME_BYTES = 32"

definition DEFAULT_ACCOUNT :: string where
  "DEFAULT_ACCOUNT = ''default''"

text \<open>
  The interned name is the byte buffer's first \<open>len\<close> bytes; \<open>as_str\<close> reads it back.
\<close>

datatype account_name = AccountName (as_str: string)

datatype account_name_error = InvalidName string

definition account_default :: account_name where
  "account_default = AccountName DEFAULT_ACCOUNT"

definition is_ascii_alphabetic :: "char \<Rightarrow> bool" where
  "is_ascii_alphabetic c \<longleftrightarrow> (CHR ''A'' \<le> c \<and> c \<le> CHR ''Z'') \<or> (CHR ''a'' \<le> c \<and> c \<le> CHR ''z'')"

definition is_ascii_digit :: "char \<Rightarrow> bool" where
  "is_ascii_digit c \<longleftrightarrow> CHR ''0'' \<le> c \<and> c \<le> CHR ''9''"

definition is_ascii_alphanumeric :: "char \<Rightarrow> bool" where
  "is_ascii_alphanumeric c \<longleftrightarrow> is_ascii_alphabetic c \<or> is_ascii_digit c"

definition account_parse :: "string \<Rightarrow> account_name_error + account_name" where
  "account_parse raw =
     (if raw = [] \<or> length raw > MAX_ACCOUNT_NAME_BYTES then Inl (InvalidName raw)
      else case raw of
        [] \<Rightarrow> Inl (InvalidName raw)
      | first # rest \<Rightarrow>
          if \<not> is_ascii_alphabetic first
             \<or> \<not> list_all (\<lambda>c. is_ascii_alphanumeric c \<or> c = CHR ''_'' \<or> c = CHR ''-'') rest
          then Inl (InvalidName raw)
          else Inr (AccountName raw))"

text \<open>
  \<open>{:?}\<close> of a string: quoted, with the ASCII escapes of \<open>str\<close>'s \<open>Debug\<close>. Bytes of non-ASCII
  characters are copied, which is what \<open>Debug\<close> does with the printable ones.
\<close>

definition hex_digit :: "nat \<Rightarrow> char" where
  "hex_digit d = char_of (if d < 10 then 48 + d else 87 + d)"

definition debug_char :: "char \<Rightarrow> string" where
  "debug_char c =
     (let n = of_char c :: nat; bs = CHR 0x5C in
      if c = CHR 0x22 \<or> c = bs then [bs, c]
      else if n = 9 then [bs, CHR ''t''] else if n = 10 then [bs, CHR ''n'']
      else if n = 13 then [bs, CHR ''r''] else if n = 0 then [bs, CHR ''0'']
      else if n < 16 then [bs] @ ''u{'' @ [hex_digit n] @ ''}''
      else if n < 32 \<or> n = 127 then [bs] @ ''u{'' @ [hex_digit (n div 16), hex_digit (n mod 16)] @ ''}''
      else [c])"

definition debug_str :: "string \<Rightarrow> string" where
  "debug_str s = [CHR 0x22] @ concat (map debug_char s) @ [CHR 0x22]"

fun show_account_name_error :: "account_name_error \<Rightarrow> string" where
  "show_account_name_error (InvalidName raw) =
     ''account name '' @ debug_str raw @ '' is not '' @ to_string MAX_ACCOUNT_NAME_BYTES @
     '' or fewer ASCII letters, digits, `_` or `-`, starting with a letter (e.g. default, claude-1)''"

definition is_default :: "account_name \<Rightarrow> bool" where
  "is_default a \<longleftrightarrow> a = account_default"

record configured_account =
  acc_name :: account_name
  acc_pin :: string

section \<open>The model table\<close>

record admitted_effort =
  level :: effort_level
  argv :: string

definition LOW :: admitted_effort where "LOW = \<lparr>level = Low, argv = ''low''\<rparr>"
definition MEDIUM :: admitted_effort where "MEDIUM = \<lparr>level = Medium, argv = ''medium''\<rparr>"
definition HIGH :: admitted_effort where "HIGH = \<lparr>level = High, argv = ''high''\<rparr>"
definition XHIGH :: admitted_effort where "XHIGH = \<lparr>level = XHigh, argv = ''xhigh''\<rparr>"
definition MAX_TIER :: admitted_effort where "MAX_TIER = \<lparr>level = Max, argv = ''max''\<rparr>"

definition EFFORTS_NONE :: "admitted_effort list" where "EFFORTS_NONE = []"
definition EFFORTS_THROUGH_HIGH :: "admitted_effort list" where
  "EFFORTS_THROUGH_HIGH = [LOW, MEDIUM, HIGH]"
definition EFFORTS_THROUGH_MAX :: "admitted_effort list" where
  "EFFORTS_THROUGH_MAX = [LOW, MEDIUM, HIGH, MAX_TIER]"
definition EFFORTS_ALL :: "admitted_effort list" where
  "EFFORTS_ALL = [LOW, MEDIUM, HIGH, XHIGH, MAX_TIER]"

record model_entry =
  canonical :: string
  aliases :: "string list"
  efforts :: "admitted_effort list"

definition entry :: "string \<Rightarrow> string list \<Rightarrow> admitted_effort list \<Rightarrow> model_entry" where
  "entry c as es = \<lparr>canonical = c, aliases = as, efforts = es\<rparr>"

definition MODEL_TABLE :: "model_entry list" where
  "MODEL_TABLE =
    [entry ''claude-fable-5-1'' [''fable'', ''fable-5-1'', ''fable-5.1''] EFFORTS_ALL,
     entry ''claude-opus-5-5'' [''opus'', ''opus-5-5'', ''opus-5.5''] EFFORTS_ALL,
     entry ''claude-opus-5'' [''opus-5''] EFFORTS_ALL,
     entry ''claude-opus-4-8'' [''opus-4-8'', ''opus-4.8''] EFFORTS_ALL,
     entry ''claude-opus-4-7'' [''opus-4-7'', ''opus-4.7''] EFFORTS_ALL,
     entry ''claude-opus-4-6'' [''opus-4-6'', ''opus-4.6''] EFFORTS_THROUGH_MAX,
     entry ''claude-opus-4-5'' [''opus-4-5'', ''opus-4.5''] EFFORTS_THROUGH_HIGH,
     entry ''claude-sonnet-5'' [''sonnet'', ''sonnet-5''] EFFORTS_ALL,
     entry ''claude-sonnet-4-6'' [''sonnet-4-6'', ''sonnet-4.6''] EFFORTS_THROUGH_MAX,
     entry ''claude-sonnet-4-5'' [''sonnet-4-5'', ''sonnet-4.5''] EFFORTS_NONE,
     entry ''claude-haiku-4-5'' [''haiku'', ''haiku-4-5'', ''haiku-4.5''] EFFORTS_NONE]"

definition to_ascii_lowercase :: "char \<Rightarrow> char" where
  "to_ascii_lowercase c =
     (if CHR ''A'' \<le> c \<and> c \<le> CHR ''Z'' then char_of (of_char c + (32 :: nat)) else c)"

definition eq_ignore_ascii_case :: "string \<Rightarrow> string \<Rightarrow> bool" where
  "eq_ignore_ascii_case a b \<longleftrightarrow> map to_ascii_lowercase a = map to_ascii_lowercase b"

definition matches :: "model_entry \<Rightarrow> string \<Rightarrow> bool" where
  "matches e spelling \<longleftrightarrow> eq_ignore_ascii_case (canonical e) spelling
     \<or> list_ex (\<lambda>alias. eq_ignore_ascii_case alias spelling) (aliases e)"

definition admit :: "model_entry \<Rightarrow> effort_level \<Rightarrow> admitted_effort option" where
  "admit e l = find (\<lambda>a. level a = l) (efforts e)"

definition admitted_spellings :: "model_entry \<Rightarrow> string list" where
  "admitted_spellings e = map argv (efforts e)"

definition lookup :: "string \<Rightarrow> model_entry option" where
  "lookup spelling = find (\<lambda>e. matches e spelling) MODEL_TABLE"

definition admitted_model_list :: string where
  "admitted_model_list = join_with '', '' (map canonical MODEL_TABLE)"

section \<open>Resolution\<close>

record resolved_model_effort =
  model_arg :: "string option"
  effort_arg :: "string option"
  r_entry :: "model_entry option"
  r_effort_level :: "effort_level option"

datatype model_effort_refusal =
    EffortWithoutModel effort_level
  | UnknownModelWithEffort string effort_level
  | ModelTakesNoEffort string effort_level
  | EffortNotAdmitted string effort_level "string list"
  | UnknownModelForPool string

definition resolve_named ::
  "string \<Rightarrow> effort_level option \<Rightarrow> model_effort_refusal + resolved_model_effort" where
  "resolve_named model effort =
     (case (lookup model, effort) of
        (None, None) \<Rightarrow>
          Inr \<lparr>model_arg = Some model, effort_arg = None, r_entry = None, r_effort_level = None\<rparr>
      | (None, Some e) \<Rightarrow> Inl (UnknownModelWithEffort model e)
      | (Some ent, None) \<Rightarrow>
          Inr \<lparr>model_arg = Some (canonical ent), effort_arg = None,
               r_entry = Some ent, r_effort_level = None\<rparr>
      | (Some ent, Some e) \<Rightarrow>
          (case admit ent e of
             Some admitted \<Rightarrow>
               Inr \<lparr>model_arg = Some (canonical ent), effort_arg = Some (argv admitted),
                    r_entry = Some ent, r_effort_level = Some (level admitted)\<rparr>
           | None \<Rightarrow>
               if efforts ent = [] then Inl (ModelTakesNoEffort (canonical ent) e)
               else Inl (EffortNotAdmitted (canonical ent) e (admitted_spellings ent))))"

definition resolve_model_effort ::
  "string option \<Rightarrow> effort_level option \<Rightarrow> model_effort_refusal + resolved_model_effort" where
  "resolve_model_effort model effort =
     (case (model, effort) of
        (None, Some e) \<Rightarrow> Inl (EffortWithoutModel e)
      | (None, None) \<Rightarrow>
          Inr \<lparr>model_arg = None, effort_arg = None, r_entry = None, r_effort_level = None\<rparr>
      | (Some m, e) \<Rightarrow> resolve_named m e)"

section \<open>The class key\<close>

datatype instance_class =
  InstanceClass (canonical_model: string) (effort_argv: "string option") (account: account_name)

definition class_of :: "resolved_model_effort \<Rightarrow> instance_class option" where
  "class_of r = map_option (\<lambda>e. InstanceClass (canonical e) (effort_arg r) account_default) (r_entry r)"

definition with_account :: "instance_class \<Rightarrow> account_name \<Rightarrow> instance_class" where
  "with_account c a = InstanceClass (canonical_model c) (effort_argv c) a"

definition class_effort_level :: "instance_class \<Rightarrow> effort_level option" where
  "class_effort_level c =
     Option.bind (effort_argv c) (\<lambda>v.
       map_option level (find (\<lambda>a. argv a = v) (concat (map efforts MODEL_TABLE))))"

definition class_argv :: "instance_class \<Rightarrow> string list" where
  "class_argv c = [''--model'', canonical_model c] @
     (case effort_argv c of None \<Rightarrow> [] | Some e \<Rightarrow> [''--effort'', e])"

definition show_class :: "instance_class \<Rightarrow> string" where
  "show_class c =
     (case effort_argv c of
        Some e \<Rightarrow> canonical_model c @ ''/'' @ e
      | None \<Rightarrow> canonical_model c @ ''/-'') @
     (if \<not> is_default (account c) then ''@'' @ as_str (account c) else [])"

definition resolve_pool_class ::
  "string \<Rightarrow> effort_level option \<Rightarrow>
     model_effort_refusal + (instance_class \<times> resolved_model_effort)" where
  "resolve_pool_class model effort =
     bind_r (resolve_model_effort (Some model) effort) (\<lambda>resolved.
     bind_r (ok_or_else (UnknownModelForPool model) (class_of resolved)) (\<lambda>cls.
     Inr (cls, resolved)))"

fun show_model_effort_refusal :: "model_effort_refusal \<Rightarrow> string" where
  "show_model_effort_refusal (EffortWithoutModel e) =
     ''--effort '' @ effort_as_str e @
     '' requires an explicit model: effort tiers are not uniform across Claude models''"
| "show_model_effort_refusal (UnknownModelWithEffort m e) =
     ''model '' @ m @ '' is not admitted, so --effort '' @ effort_as_str e @
     '' cannot be validated against it''"
| "show_model_effort_refusal (ModelTakesNoEffort m e) =
     ''model '' @ m @ '' takes no effort tier; --effort '' @ effort_as_str e @
     '' is refused rather than silently dropped''"
| "show_model_effort_refusal (EffortNotAdmitted m e admitted) =
     ''model '' @ m @ '' does not admit --effort '' @ effort_as_str e @ ''; it admits '' @
     join_with '', '' admitted"
| "show_model_effort_refusal (UnknownModelForPool m) =
     ''model '' @ m @ '' is not admitted to the stateless pool: a model with no table entry has no instance class''"

definition refusal_into_error_body :: "model_effort_refusal \<Rightarrow> error_body" where
  "refusal_into_error_body r =
     with_details
       (case r of
          UnknownModelForPool _ \<Rightarrow>
            json_object
              [(''violation'', JString ''model_not_admitted_to_pool''),
               (''admitted_models'', JArray (map (\<lambda>e. JString (canonical e)) MODEL_TABLE)),
               (''recommendation'', JString (''name one of '' @ admitted_model_list @
                  '', or one of their aliases''))]
        | _ \<Rightarrow>
            json_object
              [(''violation'', JString ''model_effort_not_admitted''),
               (''admitted_models'', JArray (map (\<lambda>e. JString (canonical e)) MODEL_TABLE)),
               (''recommendation'', JString (''the models this pool admits are '' @
                  admitted_model_list @ ''; --effort is validated against '' @
                  ''the resolved model, so a tier one model takes is not a tier they all take''))])
       (error_new InvalidConfig (show_model_effort_refusal r))"


text \<open>The derived \<open>Ord\<close> of the class key: lexicographic in field order, \<open>None\<close> below \<open>Some\<close>.\<close>

instantiation instance_class :: linorder
begin
definition less_eq_instance_class :: "instance_class \<Rightarrow> instance_class \<Rightarrow> bool" where
  "less_eq_instance_class c d \<longleftrightarrow>
     canonical_model c < canonical_model d \<or> canonical_model c = canonical_model d \<and>
     (effort_argv c < effort_argv d \<or> effort_argv c = effort_argv d \<and>
      as_str (account c) \<le> as_str (account d))"
definition less_instance_class :: "instance_class \<Rightarrow> instance_class \<Rightarrow> bool" where
  "less_instance_class c d \<longleftrightarrow>
     canonical_model c < canonical_model d \<or> canonical_model c = canonical_model d \<and>
     (effort_argv c < effort_argv d \<or> effort_argv c = effort_argv d \<and>
      as_str (account c) < as_str (account d))"
instance
proof
  fix c d e :: instance_class
  show "(c < d) = (c \<le> d \<and> \<not> d \<le> c)"
    by (auto simp: less_eq_instance_class_def less_instance_class_def)
  show "c \<le> c"
    by (simp add: less_eq_instance_class_def)
  show "c \<le> d \<Longrightarrow> d \<le> e \<Longrightarrow> c \<le> e"
    by (auto simp: less_eq_instance_class_def)
  show "c \<le> d \<Longrightarrow> d \<le> c \<Longrightarrow> c = d"
    by (auto simp: less_eq_instance_class_def intro!: instance_class.expand account_name.expand)
  show "c \<le> d \<or> d \<le> c"
    by (auto simp: less_eq_instance_class_def)
qed
end

section \<open>Facts\<close>

lemmas table_defs = MODEL_TABLE_def entry_def EFFORTS_ALL_def EFFORTS_NONE_def
  EFFORTS_THROUGH_HIGH_def EFFORTS_THROUGH_MAX_def LOW_def MEDIUM_def HIGH_def XHIGH_def MAX_TIER_def

lemma find_SomeD: "find P xs = Some x \<Longrightarrow> x \<in> set xs \<and> P x"
  by (induction xs) (auto split: if_splits)

lemma lookup_mem: "lookup m = Some e \<Longrightarrow> e \<in> set MODEL_TABLE \<and> matches e m"
  unfolding lookup_def by (rule find_SomeD)

lemma admit_SomeD: "admit e l = Some a \<Longrightarrow> a \<in> set (efforts e) \<and> level a = l"
  unfolding admit_def by (rule find_SomeD)

text \<open>Every admitted tier of the table is rendered by its wire spelling.\<close>

lemma table_argv:
  "e \<in> set MODEL_TABLE \<Longrightarrow> a \<in> set (efforts e) \<Longrightarrow> argv a = effort_as_str (level a)"
  by (auto simp: table_defs)

lemma matches_case: "eq_ignore_ascii_case m m' \<Longrightarrow> matches e m = matches e m'"
  by (simp add: matches_def eq_ignore_ascii_case_def)

lemma lookup_case: "eq_ignore_ascii_case m m' \<Longrightarrow> lookup m = lookup m'"
  unfolding lookup_def by (simp add: matches_case [of m m'])

lemma class_effort_level_argv:
  assumes "e \<in> set MODEL_TABLE" "a \<in> set (efforts e)"
  shows "map_option level (find (\<lambda>b. argv b = argv a) (concat (map efforts MODEL_TABLE)))
    = Some (level a)"
proof -
  have mem: "a \<in> set (concat (map efforts MODEL_TABLE))"
    using assms by auto
  have "find (\<lambda>b. argv b = argv a) (concat (map efforts MODEL_TABLE)) \<noteq> None"
    using mem by (auto simp: find_None_iff)
  then obtain b where b: "find (\<lambda>b. argv b = argv a) (concat (map efforts MODEL_TABLE)) = Some b"
    by blast
  from find_SomeD [OF b] have "b \<in> set (concat (map efforts MODEL_TABLE))" "argv b = argv a"
    by auto
  moreover have "argv c = effort_as_str (level c)"
    if "c \<in> set (concat (map efforts MODEL_TABLE))" for c
    using that by (auto dest: table_argv)
  ultimately have "effort_as_str (level b) = effort_as_str (level a)"
    using mem by metis
  with b show ?thesis by (simp add: effort_as_str_inj)
qed

text \<open>What a successful resolution is made of.\<close>

lemma resolve_pool_class_Inr:
  assumes "resolve_pool_class m e = Inr (c, r)"
  obtains ent where "lookup m = Some ent" "ent \<in> set MODEL_TABLE" "r_entry r = Some ent"
    "c = InstanceClass (canonical ent) (effort_arg r) account_default"
    "model_arg r = Some (canonical ent)"
    "case e of None \<Rightarrow> effort_arg r = None \<and> r_effort_level r = None
     | Some l \<Rightarrow> \<exists>a \<in> set (efforts ent). level a = l \<and> effort_arg r = Some (argv a)
         \<and> r_effort_level r = Some l"
  using assms
  by (cases "lookup m"; cases e)
    (fastforce simp: resolve_pool_class_def resolve_model_effort_def resolve_named_def bind_r_Inr
      ok_or_else_Inr class_of_def dest: lookup_mem admit_SomeD split: option.splits if_splits)+

section \<open>Properties\<close>

text \<open>Every spelling the model table lists (canonical name or alias) resolves to its own entry:
  no row shadows another, so one model is one class.\<close>
lemma model_table_unambiguous:
  "list_all (\<lambda>ent. lookup (canonical ent) = Some ent
      \<and> list_all (\<lambda>alias. lookup alias = Some ent) (aliases ent)) MODEL_TABLE"
  by code_simp

text \<open>The class key is what is rendered: when a request resolves, the class's argv is exactly the
  resolved \<open>--model\<close> and \<open>--effort\<close> arguments, the model is a table row that admits the effort,
  and the tier recovered from the class is the tier the caller asked for.\<close>
lemma class_renders_its_argv:
  assumes "resolve_pool_class m e = Inr (c, r)"
  shows "class_argv c =
           concat (map (\<lambda>x. [''--model'', x]) (case model_arg r of None \<Rightarrow> [] | Some x \<Rightarrow> [x])) @
           concat (map (\<lambda>x. [''--effort'', x]) (case effort_arg r of None \<Rightarrow> [] | Some x \<Rightarrow> [x]))
    \<and> (\<exists>ent \<in> set MODEL_TABLE. matches ent m \<and> canonical_model c = canonical ent
        \<and> (\<forall>l. e = Some l \<longrightarrow> admit ent l \<noteq> None))
    \<and> class_effort_level c = e \<and> r_effort_level r = e"
proof -
  from assms obtain ent where ent: "lookup m = Some ent" "ent \<in> set MODEL_TABLE"
    "r_entry r = Some ent" "c = InstanceClass (canonical ent) (effort_arg r) account_default"
    "model_arg r = Some (canonical ent)"
    and eff: "case e of None \<Rightarrow> effort_arg r = None \<and> r_effort_level r = None
     | Some l \<Rightarrow> \<exists>a \<in> set (efforts ent). level a = l \<and> effort_arg r = Some (argv a)
         \<and> r_effort_level r = Some l"
    by (rule resolve_pool_class_Inr)
  have "class_argv c =
     concat (map (\<lambda>x. [''--model'', x]) (case model_arg r of None \<Rightarrow> [] | Some x \<Rightarrow> [x])) @
     concat (map (\<lambda>x. [''--effort'', x]) (case effort_arg r of None \<Rightarrow> [] | Some x \<Rightarrow> [x]))"
    using ent by (simp add: class_argv_def split: option.split)
  moreover have "\<exists>ent \<in> set MODEL_TABLE. matches ent m \<and> canonical_model c = canonical ent
        \<and> (\<forall>l. e = Some l \<longrightarrow> admit ent l \<noteq> None)"
    using ent eff lookup_mem [OF ent(1)]
    by (intro bexI [of _ ent]) (auto simp: admit_def find_None_iff)
  moreover have "class_effort_level c = e \<and> r_effort_level r = e"
    using ent eff class_effort_level_argv [OF ent(2)]
    by (cases e) (auto simp: class_effort_level_def)
  ultimately show ?thesis by blast
qed

text \<open>Spelling a model in another case never partitions the pool: two spellings equal up to ASCII
  case resolve to the same class and the same arguments whenever either of them resolves.\<close>
lemma resolution_ignores_case:
  assumes "eq_ignore_ascii_case m m'"
  shows "resolve_pool_class m e = Inr x \<longleftrightarrow> resolve_pool_class m' e = Inr x"
  by (auto simp: resolve_pool_class_def resolve_model_effort_def resolve_named_def bind_r_Inr
      ok_or_else_Inr class_of_def lookup_case [OF assms] split: option.splits if_splits)

text \<open>An account name is accepted exactly when it is at most 32 bytes of ASCII letters, digits,
  underscore and hyphen that begin with a letter, and the interned name reads back unchanged.\<close>
lemma account_parse_iff:
  "account_parse raw = Inr a \<longleftrightarrow>
     as_str a = raw \<and> 0 < length raw \<and> length raw \<le> 32 \<and> is_ascii_alphabetic (hd raw)
     \<and> list_all (\<lambda>c. is_ascii_alphanumeric c \<or> c = CHR ''_'' \<or> c = CHR ''-'') raw"
  by (cases raw; cases a)
    (auto simp: account_parse_def MAX_ACCOUNT_NAME_BYTES_def is_ascii_alphanumeric_def)

end
