(* ===== verification/Paths.thy ===== *)
theory Paths
  imports Prelude "HOL-Library.Sublist"
begin

text \<open>
  Filesystem paths as \<open>std::path\<close> sees them (a rooted or relative sequence of components) and
  the directories one pool instance owns (\<open>SlotPaths\<close> of
  \<open>src/crates/service/src/pool/instance.rs\<close>).
\<close>

datatype path = Path (is_absolute: bool) (components: "string list")

text \<open>\<open>Path::join\<close> of one normal component.\<close>

definition join :: "path \<Rightarrow> string \<Rightarrow> path" where
  "join p c = Path (is_absolute p) (components p @ [c])"

text \<open>\<open>Path::starts_with\<close> compares whole components.\<close>

definition starts_with :: "path \<Rightarrow> path \<Rightarrow> bool" where
  "starts_with p q \<longleftrightarrow> is_absolute p = is_absolute q \<and> prefix (components q) (components p)"

definition parent :: "path \<Rightarrow> path option" where
  "parent p = (if components p = [] then None
               else Some (Path (is_absolute p) (butlast (components p))))"

definition file_name :: "path \<Rightarrow> string option" where
  "file_name p = (if components p = [] then None else Some (last (components p)))"

text \<open>\<open>Path::ancestors\<close>: the path itself, then each parent, up to the root.\<close>

definition ancestors :: "path \<Rightarrow> path list" where
  "ancestors p = map (\<lambda>n. Path (is_absolute p) (take n (components p)))
     (rev [0..<Suc (length (components p))])"

text \<open>\<open>PathBuf::from\<close> a string: split at \<open>/\<close>, dropping empty and (except a leading one) dot
  components.\<close>

fun split_on :: "char \<Rightarrow> string \<Rightarrow> string list" where
  "split_on c [] = [[]]"
| "split_on c (x # xs) =
     (if x = c then [] # split_on c xs
      else case split_on c xs of [] \<Rightarrow> [[x]] | y # ys \<Rightarrow> (x # y) # ys)"

definition path_from :: "string \<Rightarrow> path" where
  "path_from s =
     (let parts = split_on (CHR ''/'') s;
          normal = filter (\<lambda>c. c \<noteq> [] \<and> c \<noteq> ''.'')
      in if s \<noteq> [] \<and> hd s = CHR ''/'' then Path True (normal parts)
         else case parts of
           [] \<Rightarrow> Path False []
         | c # cs \<Rightarrow> Path False ((if c = ''.'' then [c] else []) @ normal (if c = ''.'' then cs else c # cs)))"

section \<open>The directories of one instance\<close>

type_synonym slot_id = u32
type_synonym epoch = u64

record slot_paths =
  epoch_dir :: path
  root :: path
  cwd :: path
  pid_file :: path

definition slot_paths_new :: "path \<Rightarrow> slot_id \<Rightarrow> epoch \<Rightarrow> slot_paths" where
  "slot_paths_new par slot ep =
     (let dir = join (join par (to_string slot)) (to_string ep)
      in \<lparr>epoch_dir = dir, root = join dir ''root'', cwd = join dir ''cwd'', pid_file = join dir ''pid''\<rparr>)"

text \<open>
  \<open>minted_dirs\<close>: for each leaf, collect its ancestors up to the parent (refusing a leaf that is
  not under it), then append them outermost first, each once.
\<close>

fun upwards :: "path \<Rightarrow> path list \<Rightarrow> path list option" where
  "upwards par [] = None"
| "upwards par (a # as) =
     (if a = par then Some [] else map_option ((#) a) (upwards par as))"

definition push_missing :: "path list \<Rightarrow> path list \<Rightarrow> path list" where
  "push_missing chain dirs = fold (\<lambda>d ch. if d \<in> set ch then ch else ch @ [d]) dirs chain"

fun minted_chain :: "path \<Rightarrow> path list \<Rightarrow> path list \<Rightarrow> path list option" where
  "minted_chain par [] chain = Some chain"
| "minted_chain par (leaf # leaves) chain =
     (case upwards par (ancestors leaf) of
        None \<Rightarrow> None
      | Some up \<Rightarrow> minted_chain par leaves (push_missing chain (rev up)))"

definition minted_dirs :: "slot_paths \<Rightarrow> path \<Rightarrow> path list option" where
  "minted_dirs sp par = minted_chain par [root sp, cwd sp] []"

section \<open>Facts\<close>

lemma join_inject [simp]: "join p c = join q d \<longleftrightarrow> p = q \<and> c = d"
  by (cases p; cases q) (auto simp: join_def)

lemma join_neq [simp]: "join p c \<noteq> p" "p \<noteq> join p c"
  by (cases p; simp add: join_def)+

lemma starts_with_refl [simp]: "starts_with p p"
  by (simp add: starts_with_def)

lemma starts_with_trans: "starts_with p q \<Longrightarrow> starts_with q r \<Longrightarrow> starts_with p r"
  by (auto simp: starts_with_def)

lemma starts_with_join [simp]: "starts_with (join p c) p"
  by (simp add: starts_with_def join_def)

lemma ancestors_join: "ancestors (join p c) = join p c # ancestors p"
  by (cases p) (simp add: ancestors_def join_def)

lemma ancestors_self: "\<exists>rest. ancestors p = p # rest"
  by (cases p) (simp add: ancestors_def)

lemma take_prefix_iff:
  "(\<exists>n \<le> length xs. ys = take n xs) \<longleftrightarrow> prefix ys xs"
  by (metis append_eq_conv_conj prefix_def prefix_length_le take_is_prefix)

lemma set_ancestors: "a \<in> set (ancestors p) \<longleftrightarrow> starts_with p a"
proof -
  have "a \<in> set (ancestors p) \<longleftrightarrow> is_absolute a = is_absolute p \<and>
      (\<exists>n \<le> length (components p). components a = take n (components p))"
  proof -
    have "set (ancestors p) =
        (\<lambda>n. Path (is_absolute p) (take n (components p))) ` {..length (components p)}"
      by (simp only: ancestors_def set_map set_rev set_upt atLeast0LessThan lessThan_Suc_atMost)
    then show ?thesis
      by (cases a) (auto simp: image_iff)
  qed
  then show ?thesis
    by (auto simp: starts_with_def take_prefix_iff)
qed

lemma upwards_self [simp]: "upwards p (ancestors p) = Some []"
  using ancestors_self [of p] by auto

lemma upwards_None_iff: "upwards par as = None \<longleftrightarrow> par \<notin> set as"
  by (induction as) auto

lemma epoch_dir_starts_with_iff:
  "starts_with (epoch_dir (slot_paths_new par s e)) (epoch_dir (slot_paths_new par s' e'))
     \<longleftrightarrow> s = s' \<and> e = e'"
  by (auto simp: slot_paths_new_def Let_def starts_with_def join_def prefix_def)

lemma common_prefix_eq:
  assumes "length (components p) = length (components q)" "starts_with r p" "starts_with r q"
  shows "p = q"
  using assms by (cases p; cases q)
    (auto simp: starts_with_def prefix_def)

section \<open>Properties\<close>

text \<open>pmux creates exactly four directories for an instance, outermost first: the slot directory,
  the epoch directory, the config root and the working directory; none of the intermediate
  levels is missing from the list that is sealed.\<close>
theorem minted_dirs_complete:
  "minted_dirs (slot_paths_new par slot ep) par =
     Some [join par (to_string slot),
           join (join par (to_string slot)) (to_string ep),
           join (join (join par (to_string slot)) (to_string ep)) ''root'',
           join (join (join par (to_string slot)) (to_string ep)) ''cwd'']"
proof -
  have neq: "join (join p c) d \<noteq> p" "join (join (join p c) d) f \<noteq> p" for p c d f
    by (cases p; simp add: join_def)+
  show ?thesis
    by (simp add: minted_dirs_def slot_paths_new_def Let_def ancestors_join neq push_missing_def)
qed

text \<open>Directories of a tree outside the pool parent are never minted: when a leaf is not under the
  parent, \<open>minted_dirs\<close> gives no list at all.\<close>
lemma minted_dirs_contained:
  "minted_dirs sp par \<noteq> None \<longleftrightarrow> starts_with (root sp) par \<and> starts_with (cwd sp) par"
proof -
  have "upwards par (ancestors p) = None \<longleftrightarrow> \<not> starts_with p par" for p
    by (simp add: upwards_None_iff set_ancestors)
  from this [of "root sp"] this [of "cwd sp"] show ?thesis
    by (auto simp: minted_dirs_def split: option.splits)
qed

text \<open>Two instances never share a directory: below one pool parent, no path can lie in the epoch
  trees of two different \<open>(slot, epoch)\<close> pairs.\<close>
lemma instance_trees_disjoint:
  assumes "(s, e) \<noteq> (s', e')"
  shows "\<not> (starts_with p (epoch_dir (slot_paths_new par s e))
    \<and> starts_with p (epoch_dir (slot_paths_new par s' e')))"
proof
  assume both: "starts_with p (epoch_dir (slot_paths_new par s e))
    \<and> starts_with p (epoch_dir (slot_paths_new par s' e'))"
  have "epoch_dir (slot_paths_new par s e) = epoch_dir (slot_paths_new par s' e')"
    by (rule common_prefix_eq [of _ _ p]) (use both in \<open>simp_all add: slot_paths_new_def Let_def join_def\<close>)
  with assms show False
    by (simp add: slot_paths_new_def Let_def)
qed

end
