(* ===== verification/Config.thy ===== *)
theory Config
  imports Class Paths Text_Utf8
begin

text \<open>
  Operator configuration of the pool (\<open>src/crates/service/src/pool/config.rs\<close>): the settings as
  parsed, every boot refusal, \<open>PoolSettings::validate\<close>, and the questions the running pool asks
  of a validated configuration.
\<close>

unbundle bit_operations_syntax

definition MAX_POOL_SIZE :: u32 where "MAX_POOL_SIZE = 15"
definition MAX_RECYCLE_TURNS :: u32 where "MAX_RECYCLE_TURNS = 250"
definition MAX_SYSTEM_PROMPT_BYTES :: nat where "MAX_SYSTEM_PROMPT_BYTES = 512"
definition ADMISSION_WAIT_CEILING_MS :: u64 where "ADMISSION_WAIT_CEILING_MS = 2500"
definition ADMISSION_POLL_MS :: u64 where "ADMISSION_POLL_MS = 5"
definition RSS_CEILING_MB_PER_INSTANCE :: u64 where "RSS_CEILING_MB_PER_INSTANCE = 1024"

record account_setting =
  as_name :: string
  as_pin :: string

record warm_class_setting =
  wcs_model :: string
  wcs_effort :: "effort_level option"
  wcs_account :: account_name
  wcs_count :: u32

record warm_class =
  wc_class :: instance_class
  wc_count :: u32

record pool_settings =
  s_pool_size :: u32
  s_recycle_turns :: u32
  s_system_prompt :: utext
  s_instance_idle_ttl_ms :: u64
  s_turn_timeout_ms :: u64
  s_parent_dir :: path
  s_claude_executable :: path
  s_securestorage_dir :: string
  s_accounts :: "account_setting list"
  s_retain_dir :: "path option"
  s_evidence_dir :: "path option"
  s_warm_set :: "warm_class_setting list"
  s_rss_budget_mb :: u64

record pool_config =
  pool_size :: u32
  recycle_turns :: u32
  system_prompt :: utext
  system_prompt_fingerprint :: "64 word"
  instance_idle_ttl_ms :: u64
  turn_timeout_ms :: u64
  parent_dir :: path
  claude_executable :: path
  securestorage_dir :: string
  accounts :: "configured_account list"
  retain_dir :: "path option"
  evidence_dir :: "path option"
  warm_set :: "warm_class list"

datatype config_field =
  ParentDir | ClaudeExecutable | SecurestorageDir | RetainDir | EvidenceDir

fun show_config_field :: "config_field \<Rightarrow> string" where
  "show_config_field ParentDir = ''--pool-parent''"
| "show_config_field ClaudeExecutable = ''--pool-claude''"
| "show_config_field SecurestorageDir = ''--pool-securestorage-dir''"
| "show_config_field RetainDir = ''--pool-retain-dir''"
| "show_config_field EvidenceDir = ''--pool-evidence-dir''"

datatype config_refusal =
    PoolSizeOutOfRange u32 u32
  | RecycleTurnsOutOfRange u32 u32
  | EmptySystemPrompt
  | SystemPromptTooLarge nat nat
  | SystemPromptControlCharacter scalar
  | RelativePath config_field path
  | DirInsidePoolParent config_field path path
  | ZeroIdleTtl
  | ZeroTurnTimeout
  | ZeroWarmCount string
  | WarmClassNotAdmitted string model_effort_refusal
  | DuplicateWarmClass string
  | WarmSetExceedsPool u32 u32
  | RssBudgetTooSmall u32 u64 u64
  | DuplicateAccountName string
  | DuplicateAccountPin string
  | DefaultAccountPinConflict string string
  | UnknownWarmAccount string
  | InvalidAccountName string
  | RelativeAccountPin string path

fun refusal_of_account_error :: "account_name_error \<Rightarrow> config_refusal" where
  "refusal_of_account_error (InvalidName n) = InvalidAccountName n"

section \<open>Validation\<close>

definition validate_system_prompt :: "utext \<Rightarrow> config_refusal + unit" where
  "validate_system_prompt prompt =
     (if prompt = [] then Inl EmptySystemPrompt
      else if byte_len prompt > MAX_SYSTEM_PROMPT_BYTES then
        Inl (SystemPromptTooLarge (byte_len prompt) MAX_SYSTEM_PROMPT_BYTES)
      else case find (\<lambda>c. c = 0 \<or> (is_control c \<and> c \<noteq> 10 \<and> c \<noteq> 9)) prompt of
        Some offending \<Rightarrow> Inl (SystemPromptControlCharacter offending)
      | None \<Rightarrow> Inr ())"

definition require_absolute :: "path \<Rightarrow> config_field \<Rightarrow> config_refusal + unit" where
  "require_absolute p field = (if is_absolute p then Inr () else Inl (RelativePath field p))"

definition bad_pin :: "string \<Rightarrow> bool" where
  "bad_pin s \<longleftrightarrow> \<not> (s \<noteq> [] \<and> hd s = CHR ''/'') \<or> CHR 0x00 \<in> set s"

definition validate_account_pin :: "account_name \<Rightarrow> string \<Rightarrow> config_refusal + string" where
  "validate_account_pin name pin =
     (if pin = [] then Inr []
      else if bad_pin pin then Inl (RelativeAccountPin (as_str name) (path_from pin))
      else Inr pin)"

fun resolve_accounts_loop ::
  "string \<Rightarrow> account_setting list \<Rightarrow> configured_account list \<Rightarrow> account_name list \<Rightarrow> string list \<Rightarrow>
   bool \<Rightarrow> config_refusal + (configured_account list \<times> string list \<times> bool)" where
  "resolve_accounts_loop default_pin [] acc names pins has_default = Inr (acc, pins, has_default)"
| "resolve_accounts_loop default_pin (setting # rest) acc names pins has_default =
     bind_r (map_err refusal_of_account_error (account_parse (as_name setting))) (\<lambda>name.
     bind_r (validate_account_pin name (as_pin setting)) (\<lambda>pin.
     if name \<in> set names then Inl (DuplicateAccountName (as_str name))
     else if pin \<in> set pins then Inl (DuplicateAccountPin (as_str name))
     else if is_default name \<and> pin \<noteq> default_pin then
       Inl (DefaultAccountPinConflict pin default_pin)
     else resolve_accounts_loop default_pin rest
            (acc @ [\<lparr>acc_name = name, acc_pin = pin\<rparr>]) (name # names) (pin # pins)
            (has_default \<or> is_default name)))"

definition resolve_accounts ::
  "account_setting list \<Rightarrow> string \<Rightarrow> config_refusal + configured_account list" where
  "resolve_accounts declared default_pin =
     bind_r (resolve_accounts_loop default_pin declared [] [] [] False) (\<lambda>(acc, pins, has_default).
     if has_default then Inr acc
     else if default_pin \<in> set pins then Inl (DuplicateAccountPin (as_str account_default))
     else Inr (\<lparr>acc_name = account_default, acc_pin = default_pin\<rparr> # acc))"

fun resolve_warm_loop ::
  "configured_account list \<Rightarrow> u32 \<Rightarrow> warm_class_setting list \<Rightarrow> warm_class list \<Rightarrow> u32 \<Rightarrow>
   config_refusal + (warm_class list \<times> u32)" where
  "resolve_warm_loop accs sz [] resolved tot = Inr (resolved, tot)"
| "resolve_warm_loop accs sz (setting # rest) resolved tot =
     (if wcs_count setting = 0 then Inl (ZeroWarmCount (wcs_model setting))
      else if \<not> list_ex (\<lambda>a. acc_name a = wcs_account setting) accs then
        Inl (UnknownWarmAccount (as_str (wcs_account setting)))
      else bind_r (map_err (WarmClassNotAdmitted (wcs_model setting))
             (resolve_pool_class (wcs_model setting) (wcs_effort setting))) (\<lambda>(cls0, _).
        let cls = with_account cls0 (wcs_account setting) in
        if list_ex (\<lambda>w. wc_class w = cls) resolved then Inl (DuplicateWarmClass (show_class cls))
        else bind_r (ok_or_else (WarmSetExceedsPool u32_max sz)
               (checked_add32 tot (wcs_count setting))) (\<lambda>tot'.
          resolve_warm_loop accs sz rest
            (resolved @ [\<lparr>wc_class = cls, wc_count = wcs_count setting\<rparr>]) tot')))"

definition resolve_warm_set ::
  "warm_class_setting list \<Rightarrow> u32 \<Rightarrow> configured_account list \<Rightarrow> config_refusal + warm_class list" where
  "resolve_warm_set declared sz accs =
     bind_r (resolve_warm_loop accs sz declared [] 0) (\<lambda>(resolved, tot).
     if tot > sz then Inl (WarmSetExceedsPool tot sz) else Inr resolved)"

definition fingerprint :: "utext \<Rightarrow> 64 word" where
  "fingerprint prompt =
     fold (\<lambda>b hash. (hash XOR ucast b) * 0x00000100000001b3) (utf8 prompt) 0xcbf29ce484222325"

fun check_outliving_dirs ::
  "path \<Rightarrow> (config_field \<times> path option) list \<Rightarrow> config_refusal + unit" where
  "check_outliving_dirs par [] = Inr ()"
| "check_outliving_dirs par ((field, None) # rest) = check_outliving_dirs par rest"
| "check_outliving_dirs par ((field, Some dir) # rest) =
     bind_r (require_absolute dir field) (\<lambda>_.
     if starts_with dir par then Inl (DirInsidePoolParent field dir par)
     else check_outliving_dirs par rest)"

definition validate :: "pool_settings \<Rightarrow> config_refusal + pool_config" where
  "validate s =
     (if s_pool_size s = 0 \<or> s_pool_size s > MAX_POOL_SIZE then
        Inl (PoolSizeOutOfRange (s_pool_size s) MAX_POOL_SIZE)
      else if s_recycle_turns s = 0 \<or> s_recycle_turns s > MAX_RECYCLE_TURNS then
        Inl (RecycleTurnsOutOfRange (s_recycle_turns s) MAX_RECYCLE_TURNS)
      else
        bind_r (validate_system_prompt (s_system_prompt s)) (\<lambda>_.
        bind_r (require_absolute (s_parent_dir s) ParentDir) (\<lambda>_.
        bind_r (require_absolute (s_claude_executable s) ClaudeExecutable) (\<lambda>_.
        if s_securestorage_dir s \<noteq> [] \<and> bad_pin (s_securestorage_dir s) then
          Inl (RelativePath SecurestorageDir (path_from (s_securestorage_dir s)))
        else
        bind_r (resolve_accounts (s_accounts s) (s_securestorage_dir s)) (\<lambda>accs.
        bind_r (check_outliving_dirs (s_parent_dir s)
                  [(RetainDir, s_retain_dir s), (EvidenceDir, s_evidence_dir s)]) (\<lambda>_.
        if s_instance_idle_ttl_ms s = 0 then Inl ZeroIdleTtl
        else if s_turn_timeout_ms s = 0 then Inl ZeroTurnTimeout
        else
          let required_mb = s_pool_size s * RSS_CEILING_MB_PER_INSTANCE in
          if required_mb > s_rss_budget_mb s then
            Inl (RssBudgetTooSmall (s_pool_size s) required_mb (s_rss_budget_mb s))
          else
          bind_r (resolve_warm_set (s_warm_set s) (s_pool_size s) accs) (\<lambda>warm.
          Inr \<lparr>pool_size = s_pool_size s, recycle_turns = s_recycle_turns s,
               system_prompt = s_system_prompt s,
               system_prompt_fingerprint = fingerprint (s_system_prompt s),
               instance_idle_ttl_ms = s_instance_idle_ttl_ms s,
               turn_timeout_ms = s_turn_timeout_ms s,
               parent_dir = s_parent_dir s, claude_executable = s_claude_executable s,
               securestorage_dir = s_securestorage_dir s, accounts = accs,
               retain_dir = s_retain_dir s, evidence_dir = s_evidence_dir s,
               warm_set = warm\<rparr>)))))))"

section \<open>Questions to a validated configuration\<close>

definition pin_for :: "pool_config \<Rightarrow> account_name \<Rightarrow> string option" where
  "pin_for cfg a = map_option acc_pin (find (\<lambda>c. acc_name c = a) (accounts cfg))"

definition has_account :: "pool_config \<Rightarrow> account_name \<Rightarrow> bool" where
  "has_account cfg a \<longleftrightarrow> pin_for cfg a \<noteq> None"

definition warm_floor :: "pool_config \<Rightarrow> instance_class \<Rightarrow> u32" where
  "warm_floor cfg c =
     (case find (\<lambda>w. wc_class w = c) (warm_set cfg) of None \<Rightarrow> 0 | Some w \<Rightarrow> wc_count w)"

definition declared_warm_total :: "pool_config \<Rightarrow> u32" where
  "declared_warm_total cfg = fold (\<lambda>w tot. sat_add32 tot (wc_count w)) (warm_set cfg) 0"

definition effective_deadline_ms :: "pool_config \<Rightarrow> u64 \<Rightarrow> u64 option \<Rightarrow> u64" where
  "effective_deadline_ms cfg now_ms requested =
     (let ceiling = sat_add64 now_ms (turn_timeout_ms cfg)
      in case requested of Some deadline \<Rightarrow> min deadline ceiling | None \<Rightarrow> ceiling)"


section \<open>Facts\<close>

text \<open>What \<open>resolve_accounts_loop\<close> keeps of its accumulators.\<close>

definition accounts_acc ::
  "string \<Rightarrow> configured_account list \<Rightarrow> account_name list \<Rightarrow> string list \<Rightarrow> bool \<Rightarrow> bool" where
  "accounts_acc dpin acc names pins has_default \<longleftrightarrow>
     set names = acc_name ` set acc \<and> set pins = acc_pin ` set acc
     \<and> distinct (map acc_name acc) \<and> distinct (map acc_pin acc)
     \<and> (has_default \<longleftrightarrow> account_default \<in> acc_name ` set acc)
     \<and> (\<forall>a \<in> set acc. acc_name a = account_default \<longrightarrow> acc_pin a = dpin)"

lemma resolve_accounts_loop_acc:
  assumes "resolve_accounts_loop dpin settings acc names pins hd0 = Inr (acc', pins', hd')"
    and "accounts_acc dpin acc names pins hd0"
  shows "\<exists>names'. accounts_acc dpin acc' names' pins' hd'"
  using assms
proof (induction dpin settings acc names pins hd0
    arbitrary: acc' pins' hd' rule: resolve_accounts_loop.induct)
  case (2 dpin setting rest acc names pins hd0)
  from "2.prems"(1) obtain name pin where
    step: "map_err refusal_of_account_error (account_parse (as_name setting)) = Inr name"
      "validate_account_pin name (as_pin setting) = Inr pin"
      "name \<notin> set names" "pin \<notin> set pins" "\<not> (is_default name \<and> pin \<noteq> dpin)"
    and rec: "resolve_accounts_loop dpin rest (acc @ [\<lparr>acc_name = name, acc_pin = pin\<rparr>])
      (name # names) (pin # pins) (hd0 \<or> is_default name) = Inr (acc', pins', hd')"
    by (auto simp: bind_r_Inr split: if_splits)
  have "accounts_acc dpin (acc @ [\<lparr>acc_name = name, acc_pin = pin\<rparr>]) (name # names) (pin # pins)
      (hd0 \<or> is_default name)"
    using "2.prems"(2) step by (auto simp: accounts_acc_def is_default_def)
  with "2.IH" [of name pin] step rec show ?case by blast
qed auto

text \<open>The account list a configuration carries.\<close>

definition accounts_ok :: "string \<Rightarrow> configured_account list \<Rightarrow> bool" where
  "accounts_ok dpin accs \<longleftrightarrow>
     distinct (map acc_name accs) \<and> distinct (map acc_pin accs)
     \<and> \<lparr>acc_name = account_default, acc_pin = dpin\<rparr> \<in> set accs"

lemma resolve_accounts_ok:
  assumes "resolve_accounts declared dpin = Inr accs"
  shows "accounts_ok dpin accs"
proof -
  obtain acc pins hd' where loop: "resolve_accounts_loop dpin declared [] [] [] False = Inr (acc, pins, hd')"
    and rest: "(if hd' then Inr acc
       else if dpin \<in> set pins then Inl (DuplicateAccountPin (as_str account_default))
       else Inr (\<lparr>acc_name = account_default, acc_pin = dpin\<rparr> # acc)) = Inr accs"
    using assms by (auto simp: resolve_accounts_def bind_r_Inr)
  have "accounts_acc dpin [] [] [] False" by (simp add: accounts_acc_def)
  from resolve_accounts_loop_acc [OF loop this] obtain names
    where acc: "accounts_acc dpin acc names pins hd'" by blast
  show ?thesis
  proof (cases hd')
    case True
    with acc obtain a where "a \<in> set acc" "acc_name a = account_default" "acc_pin a = dpin"
      by (auto simp: accounts_acc_def)
    moreover from this have "a = \<lparr>acc_name = account_default, acc_pin = dpin\<rparr>"
      by simp
    ultimately have "\<lparr>acc_name = account_default, acc_pin = dpin\<rparr> \<in> set acc"
      by simp
    with True acc rest show ?thesis by (auto simp: accounts_ok_def accounts_acc_def)
  next
    case False
    with acc rest show ?thesis
      by (auto simp: accounts_ok_def accounts_acc_def split: if_splits)
  qed
qed

text \<open>What \<open>resolve_warm_loop\<close> keeps of its accumulators.\<close>

definition warm_acc :: "configured_account list \<Rightarrow> warm_class list \<Rightarrow> bool" where
  "warm_acc accs ws \<longleftrightarrow> distinct (map wc_class ws)
     \<and> (\<forall>w \<in> set ws. 0 < wc_count w \<and> account (wc_class w) \<in> acc_name ` set accs)"

lemma resolve_warm_loop_acc:
  assumes "resolve_warm_loop accs sz settings ws tot = Inr (ws', tot')"
    and "warm_acc accs ws" and "tot = sum_list (map wc_count ws)"
  shows "warm_acc accs ws' \<and> tot' = sum_list (map wc_count ws')"
  using assms
proof (induction accs sz settings ws tot arbitrary: ws' tot' rule: resolve_warm_loop.induct)
  case (2 accs sz setting rest ws tot)
  from "2.prems"(1) obtain cls0 r where
    step: "wcs_count setting \<noteq> 0" "list_ex (\<lambda>a. acc_name a = wcs_account setting) accs"
      "map_err (WarmClassNotAdmitted (wcs_model setting))
         (resolve_pool_class (wcs_model setting) (wcs_effort setting)) = Inr (cls0, r)"
      "\<not> list_ex (\<lambda>w. wc_class w = with_account cls0 (wcs_account setting)) ws"
      "tot + wcs_count setting \<le> u32_max"
    and rec: "resolve_warm_loop accs sz rest
      (ws @ [\<lparr>wc_class = with_account cls0 (wcs_account setting), wc_count = wcs_count setting\<rparr>])
      (tot + wcs_count setting) = Inr (ws', tot')"
    by (auto simp: bind_r_Inr ok_or_else_Inr checked_add32_Some Let_def split: if_splits)
  have "warm_acc accs (ws @ [\<lparr>wc_class = with_account cls0 (wcs_account setting),
      wc_count = wcs_count setting\<rparr>])"
    using "2.prems"(2) step
    by (auto simp: warm_acc_def list_ex_iff with_account_def intro: rev_image_eqI)
  moreover have "tot + wcs_count setting = sum_list (map wc_count
      (ws @ [\<lparr>wc_class = with_account cls0 (wcs_account setting), wc_count = wcs_count setting\<rparr>]))"
    using "2.prems"(3) by simp
  ultimately show ?case
    using "2.IH" [OF step(1) _ refl step(4)] step(2) rec by simp
qed auto

lemma resolve_warm_set_ok:
  assumes "resolve_warm_set declared sz accs = Inr ws"
  shows "warm_acc accs ws \<and> sum_list (map wc_count ws) \<le> sz"
proof -
  obtain ws' tot where loop: "resolve_warm_loop accs sz declared [] 0 = Inr (ws', tot)"
    and "\<not> tot > sz" "ws' = ws"
    using assms by (auto simp: resolve_warm_set_def bind_r_Inr split: if_splits)
  with resolve_warm_loop_acc [OF loop] show ?thesis
    by (simp add: warm_acc_def)
qed

lemma check_outliving_dirs_ok:
  "check_outliving_dirs par ds = Inr () \<Longrightarrow> (f, Some d) \<in> set ds \<Longrightarrow>
   is_absolute d \<and> \<not> starts_with d par"
  by (induction par ds rule: check_outliving_dirs.induct)
    (auto simp: bind_r_Inr require_absolute_def split: if_splits)

lemma validate_system_prompt_ok:
  "validate_system_prompt p = Inr () \<Longrightarrow>
   p \<noteq> [] \<and> byte_len p \<le> 512 \<and> (\<forall>c \<in> set p. is_control c \<longrightarrow> c = 10 \<or> c = 9)"
  by (auto simp: validate_system_prompt_def MAX_SYSTEM_PROMPT_BYTES_def find_None_iff
      split: if_splits option.splits)

text \<open>Every bound the running pool relies on.\<close>

definition config_ok :: "pool_config \<Rightarrow> bool" where
  "config_ok cfg \<longleftrightarrow>
     0 < pool_size cfg \<and> pool_size cfg \<le> 15 \<and> 0 < recycle_turns cfg \<and> recycle_turns cfg \<le> 250
     \<and> system_prompt cfg \<noteq> [] \<and> byte_len (system_prompt cfg) \<le> 512
     \<and> (\<forall>c \<in> set (system_prompt cfg). is_control c \<longrightarrow> c = 10 \<or> c = 9)
     \<and> system_prompt_fingerprint cfg = fingerprint (system_prompt cfg)
     \<and> 0 < instance_idle_ttl_ms cfg \<and> 0 < turn_timeout_ms cfg
     \<and> is_absolute (parent_dir cfg) \<and> is_absolute (claude_executable cfg)
     \<and> (\<forall>d. retain_dir cfg = Some d \<or> evidence_dir cfg = Some d \<longrightarrow>
          is_absolute d \<and> \<not> starts_with d (parent_dir cfg))
     \<and> accounts_ok (securestorage_dir cfg) (accounts cfg)
     \<and> warm_acc (accounts cfg) (warm_set cfg)
     \<and> sum_list (map wc_count (warm_set cfg)) \<le> pool_size cfg"

lemma validate_config_ok:
  assumes "validate s = Inr cfg"
  shows "config_ok cfg"
proof -
  from assms have b: "0 < s_pool_size s" "s_pool_size s \<le> 15" "0 < s_recycle_turns s"
    "s_recycle_turns s \<le> 250" "validate_system_prompt (s_system_prompt s) = Inr ()"
    "is_absolute (s_parent_dir s)" "is_absolute (s_claude_executable s)"
    "0 < s_instance_idle_ttl_ms s" "0 < s_turn_timeout_ms s"
    "check_outliving_dirs (s_parent_dir s)
       [(RetainDir, s_retain_dir s), (EvidenceDir, s_evidence_dir s)] = Inr ()"
    by (auto simp: validate_def bind_r_Inr Let_def require_absolute_def MAX_POOL_SIZE_def
        MAX_RECYCLE_TURNS_def split: if_splits)
  from assms have f: "pool_size cfg = s_pool_size s" "recycle_turns cfg = s_recycle_turns s"
    "system_prompt cfg = s_system_prompt s"
    "system_prompt_fingerprint cfg = fingerprint (s_system_prompt s)"
    "instance_idle_ttl_ms cfg = s_instance_idle_ttl_ms s" "turn_timeout_ms cfg = s_turn_timeout_ms s"
    "parent_dir cfg = s_parent_dir s" "claude_executable cfg = s_claude_executable s"
    "securestorage_dir cfg = s_securestorage_dir s" "retain_dir cfg = s_retain_dir s"
    "evidence_dir cfg = s_evidence_dir s"
    "resolve_accounts (s_accounts s) (s_securestorage_dir s) = Inr (accounts cfg)"
    "resolve_warm_set (s_warm_set s) (s_pool_size s) (accounts cfg) = Inr (warm_set cfg)"
    by (auto simp: validate_def bind_r_Inr Let_def split: if_splits)
  have dirs: "is_absolute d \<and> \<not> starts_with d (parent_dir cfg)"
    if "retain_dir cfg = Some d \<or> evidence_dir cfg = Some d" for d
    using that f(7,10,11) check_outliving_dirs_ok [OF b(10), of RetainDir d]
      check_outliving_dirs_ok [OF b(10), of EvidenceDir d] by auto
  show ?thesis
    unfolding config_ok_def
    using b(1-4,6-9) f dirs validate_system_prompt_ok [OF b(5)] resolve_accounts_ok [OF f(12)]
      resolve_warm_set_ok [OF f(13)]
    by simp
qed

lemma validate_pool_size: "validate s = Inr cfg \<Longrightarrow> pool_size cfg = s_pool_size s"
  by (auto simp: validate_def bind_r_Inr Let_def split: if_splits)

lemma warm_floor_le:
  "config_ok cfg \<Longrightarrow> warm_floor cfg c \<le> pool_size cfg"
proof -
  assume ok: "config_ok cfg"
  have "wc_count w \<le> sum_list (map wc_count (warm_set cfg))" if "w \<in> set (warm_set cfg)" for w
    using that by (simp add: member_le_sum_list)
  with ok show ?thesis
    by (auto simp: warm_floor_def config_ok_def dest!: find_SomeD split: option.splits)
      (meson le_trans)
qed

lemma effective_deadline_le:
  "effective_deadline_ms cfg now requested \<le> sat_add64 now (turn_timeout_ms cfg)"
  "requested = Some d \<Longrightarrow> effective_deadline_ms cfg now requested \<le> d"
  by (auto simp: effective_deadline_ms_def Let_def split: option.splits)

lemma fold_sat_add:
  "acc + sum_list (map wc_count ws) \<le> u32_max \<Longrightarrow>
   fold (\<lambda>w tot. sat_add32 tot (wc_count w)) ws acc = acc + sum_list (map wc_count ws)"
  by (induction ws arbitrary: acc) (auto simp: sat_add32_exact)

section \<open>Properties\<close>

text \<open>A configuration that validation hands out satisfies every bound the pool never re-checks:
  size 1 to 15, recycle cap 1 to 250, prompt non-empty, at most 512 bytes and free of control
  characters other than newline and tab, absolute paths, evidence directories outside the pool
  parent, unique account names and pins with the default account present, and a warm set of
  distinct, served classes that fits the pool.\<close>
lemma validate_checks_every_bound:
  assumes "validate s = Inr cfg"
  shows "config_ok cfg \<and> declared_warm_total cfg \<le> pool_size cfg
    \<and> has_account cfg account_default
    \<and> pin_for cfg account_default = Some (securestorage_dir cfg)
    \<and> (\<forall>w \<in> set (warm_set cfg). has_account cfg (account (wc_class w)))"
proof -
  have ok: "config_ok cfg" using assms by (rule validate_config_ok)
  have find: "find (\<lambda>c. acc_name c = acc_name a) (accounts cfg) = Some a"
    if "a \<in> set (accounts cfg)" for a
  proof -
    from that obtain b where b: "find (\<lambda>c. acc_name c = acc_name a) (accounts cfg) = Some b"
      by (cases "find (\<lambda>c. acc_name c = acc_name a) (accounts cfg)") (auto simp: find_None_iff)
    have "inj_on acc_name (set (accounts cfg))"
      using ok by (simp add: config_ok_def accounts_ok_def distinct_map)
    with find_SomeD [OF b] that have "b = a" by (auto dest: inj_onD)
    with b show ?thesis by simp
  qed
  have dflt: "\<lparr>acc_name = account_default, acc_pin = securestorage_dir cfg\<rparr> \<in> set (accounts cfg)"
    using ok by (simp add: config_ok_def accounts_ok_def)
  have pin: "pin_for cfg account_default = Some (securestorage_dir cfg)"
    using find [OF dflt] by (simp add: pin_for_def)
  have total: "declared_warm_total cfg = sum_list (map wc_count (warm_set cfg))"
    using fold_sat_add [of 0 "warm_set cfg"] ok
    by (simp add: declared_warm_total_def config_ok_def u32_max_def)
  have "has_account cfg (account (wc_class w))" if "w \<in> set (warm_set cfg)" for w
  proof -
    from ok that obtain a where "a \<in> set (accounts cfg)" "account (wc_class w) = acc_name a"
      by (auto simp: config_ok_def warm_acc_def)
    with find show ?thesis by (auto simp: has_account_def pin_for_def)
  qed
  with ok pin total show ?thesis
    by (auto simp: has_account_def config_ok_def)
qed

definition sample_settings :: pool_settings where
  "sample_settings =
     \<lparr>s_pool_size = 3, s_recycle_turns = 50, s_system_prompt = ascii ''Answer.'',
      s_instance_idle_ttl_ms = 300000, s_turn_timeout_ms = 600000,
      s_parent_dir = Path True [''pool''], s_claude_executable = Path True [''claude''],
      s_securestorage_dir = [], s_accounts = [\<lparr>as_name = ''claude-1'', as_pin = ''/pin''\<rparr>],
      s_retain_dir = Some (Path True [''retain'']), s_evidence_dir = None,
      s_warm_set = [\<lparr>wcs_model = ''haiku'', wcs_effort = None, wcs_account = account_default,
                     wcs_count = 2\<rparr>],
      s_rss_budget_mb = 4096\<rparr>"

end
