(* ===== verification/Instance.thy ===== *)
theory Instance
  imports Machine Config
begin

text \<open>
  One pool instance (\<open>src/crates/service/src/pool/instance.rs\<close>): its identity, its process
  handle, and \<open>Instance::check_invariants\<close>, the per-state invariants the pool checks after every
  transition.
\<close>

record instance_handle =
  session_id :: string
  generation_id :: string
  pid :: "int option"
  claude_version :: string

record pool_instance =
  slot :: slot_id
  epoch :: epoch
  inst_class :: instance_class
  prompt_fingerprint :: "64 word"
  paths :: slot_paths
  handle :: "instance_handle option"
  mint_in_flight :: bool
  turns_started :: u32
  idle_since_ms :: u64
  state :: instance_state
  last_transition :: "transition option"
  was_quarantined :: bool
  conversation_id :: "string option"

datatype invariant_violation =
    IdleWithoutProof slot_id "transition option"
  | IdleAtOrPastRecycleCap slot_id u32 u32
  | IdleUnderStalePrompt slot_id
  | MissingHandle slot_id instance_state
  | ReservationWithHandle slot_id
  | InFlightWithoutCheckout slot_id instance_state
  | LeasedWithoutConversation slot_id
  | ConversationOnEmptyInstance slot_id instance_state

fun show_option_transition :: "transition option \<Rightarrow> string" where
  "show_option_transition None = ''None''"
| "show_option_transition (Some t) = ''Some('' @ show_transition t @ '')''"

fun show_invariant_violation :: "invariant_violation \<Rightarrow> string" where
  "show_invariant_violation (IdleWithoutProof s l) =
     ''slot '' @ to_string s @ '' is idle after '' @ show_option_transition l @
     '', which carries no emptiness proof''"
| "show_invariant_violation (IdleAtOrPastRecycleCap s n cap) =
     ''slot '' @ to_string s @ '' is idle at '' @ to_string n @ '' of '' @ to_string cap @
     '' turns and should have been recycled''"
| "show_invariant_violation (IdleUnderStalePrompt s) =
     ''slot '' @ to_string s @ '' is idle under a system prompt the daemon no longer holds''"
| "show_invariant_violation (MissingHandle s st) =
     ''slot '' @ to_string s @ '' is '' @ show_state st @ '' with no process handle''"
| "show_invariant_violation (ReservationWithHandle s) =
     ''slot '' @ to_string s @ '' holds a process handle while still only reserved''"
| "show_invariant_violation (InFlightWithoutCheckout s st) =
     ''slot '' @ to_string s @ '' is '' @ show_state st @ '' without having counted a checkout''"
| "show_invariant_violation (LeasedWithoutConversation s) =
     ''slot '' @ to_string s @ '' is leased with no conversation id''"
| "show_invariant_violation (ConversationOnEmptyInstance s st) =
     ''slot '' @ to_string s @ '' is '' @ show_state st @ '' but still names a conversation''"

definition reserved ::
  "slot_id \<Rightarrow> epoch \<Rightarrow> instance_class \<Rightarrow> slot_paths \<Rightarrow> 64 word \<Rightarrow> pool_instance" where
  "reserved s e c p fp =
     \<lparr>slot = s, epoch = e, inst_class = c, prompt_fingerprint = fp, paths = p, handle = None,
      mint_in_flight = False, turns_started = 0, idle_since_ms = 0, state = INITIAL,
      last_transition = None, was_quarantined = False, conversation_id = None\<rparr>"

text \<open>The three tests the arms share, each returning the violation the arm reports.\<close>

definition require_handle :: "pool_instance \<Rightarrow> invariant_violation + unit" where
  "require_handle i =
     (if handle i = None then Inl (MissingHandle (slot i) (state i)) else Inr ())"

definition require_checkout :: "pool_instance \<Rightarrow> invariant_violation + unit" where
  "require_checkout i =
     (if turns_started i = 0 then Inl (InFlightWithoutCheckout (slot i) (state i)) else Inr ())"

definition require_no_conversation :: "pool_instance \<Rightarrow> invariant_violation + unit" where
  "require_no_conversation i =
     (if conversation_id i \<noteq> None then Inl (ConversationOnEmptyInstance (slot i) (state i))
      else Inr ())"

definition check_instance :: "u32 \<Rightarrow> 64 word \<Rightarrow> pool_instance \<Rightarrow> invariant_violation + unit" where
  "check_instance recycle live_fp i =
     (case state i of
        Reserved \<Rightarrow>
          if handle i \<noteq> None then Inl (ReservationWithHandle (slot i))
          else require_no_conversation i
      | Warming \<Rightarrow> Inr ()
      | Quarantined \<Rightarrow> Inr ()
      | Destroying \<Rightarrow> Inr ()
      | Leaked \<Rightarrow> Inr ()
      | Retired \<Rightarrow> Inr ()
      | Idle \<Rightarrow>
          if \<not> (case last_transition i of None \<Rightarrow> False | Some t \<Rightarrow> is_proof_carrying t) then
            Inl (IdleWithoutProof (slot i) (last_transition i))
          else bind_r (require_handle i) (\<lambda>_.
            if turns_started i \<ge> recycle then
              Inl (IdleAtOrPastRecycleCap (slot i) (turns_started i) recycle)
            else if prompt_fingerprint i \<noteq> live_fp then Inl (IdleUnderStalePrompt (slot i))
            else require_no_conversation i)
      | Leased \<Rightarrow>
          bind_r (require_handle i) (\<lambda>_. bind_r (require_checkout i) (\<lambda>_.
            if conversation_id i = None then Inl (LeasedWithoutConversation (slot i)) else Inr ()))
      | CheckedOut \<Rightarrow> bind_r (require_handle i) (\<lambda>_. require_checkout i)
      | Delivering \<Rightarrow> bind_r (require_handle i) (\<lambda>_. require_checkout i)
      | Clearing \<Rightarrow>
          bind_r (require_handle i) (\<lambda>_. bind_r (require_checkout i) (\<lambda>_.
            require_no_conversation i)))"

text \<open>The same invariants as one predicate.\<close>

definition instance_ok :: "u32 \<Rightarrow> 64 word \<Rightarrow> pool_instance \<Rightarrow> bool" where
  "instance_ok recycle live_fp i \<longleftrightarrow>
     (state i = Reserved \<longrightarrow> handle i = None)
     \<and> (state i \<in> {Reserved, Idle, Clearing} \<longrightarrow> conversation_id i = None)
     \<and> (state i \<in> {Idle, Leased, CheckedOut, Delivering, Clearing} \<longrightarrow> handle i \<noteq> None)
     \<and> (state i \<in> {Leased, CheckedOut, Delivering, Clearing} \<longrightarrow> 0 < turns_started i)
     \<and> (state i = Leased \<longrightarrow> conversation_id i \<noteq> None)
     \<and> (state i = Idle \<longrightarrow>
          (\<exists>t. last_transition i = Some t \<and> is_proof_carrying t)
          \<and> turns_started i < recycle \<and> prompt_fingerprint i = live_fp)"

lemma check_instance_ok: "check_instance recycle fp i = Inr () \<longleftrightarrow> instance_ok recycle fp i"
  by (cases "state i")
    (auto simp: check_instance_def instance_ok_def require_handle_def require_checkout_def
      require_no_conversation_def bind_r_Inr split: option.splits if_splits)

lemma check_instance_cases:
  "(check_instance recycle fp i = Inr () \<and> instance_ok recycle fp i) \<or>
   (\<exists>v. check_instance recycle fp i = Inl v \<and> \<not> instance_ok recycle fp i)"
  by (cases "check_instance recycle fp i") (auto simp: check_instance_ok [symmetric])

lemma instance_ok_reserved [simp]: "instance_ok recycle fp (reserved s e c p fp')"
  by (simp add: instance_ok_def reserved_def INITIAL_def)

lemma reserved_simps [simp]:
  "state (reserved s e c p fp) = Reserved" "handle (reserved s e c p fp) = None"
  "inst_class (reserved s e c p fp) = c" "slot (reserved s e c p fp) = s"
  "epoch (reserved s e c p fp) = e" "mint_in_flight (reserved s e c p fp) = False"
  "paths (reserved s e c p fp) = p" "conversation_id (reserved s e c p fp) = None"
  "turns_started (reserved s e c p fp) = 0" "prompt_fingerprint (reserved s e c p fp) = fp"
  by (simp_all add: reserved_def INITIAL_def)

end
