(* ===== verification/Refusals.thy ===== *)
theory Refusals
  imports Instance
begin

text \<open>
  The census and the refusals of \<open>src/crates/service/src/pool/refusal.rs\<close>: how live instances are
  binned, what a capacity refusal says, and every error body the pool returns, with the
  re-promotion trigger of \<open>src/crates/service/src/compatibility.rs\<close> that a halt quotes.
\<close>

record bucket_counts =
  serving :: u32
  clearing :: u32
  idle_n :: u32
  leased :: u32
  reserved_n :: u32
  tearing_down :: u32
  released :: u32

definition counts_default :: bucket_counts where
  "counts_default = \<lparr>serving = 0, clearing = 0, idle_n = 0, leased = 0, reserved_n = 0,
     tearing_down = 0, released = 0\<rparr>"

definition record_state :: "instance_state \<Rightarrow> bucket_counts \<Rightarrow> bucket_counts" where
  "record_state s c =
     (case census_bucket s of
        BServing \<Rightarrow> c\<lparr>serving := sat_add32 (serving c) 1\<rparr>
      | BClearing \<Rightarrow> c\<lparr>clearing := sat_add32 (clearing c) 1\<rparr>
      | BIdle \<Rightarrow> c\<lparr>idle_n := sat_add32 (idle_n c) 1\<rparr>
      | BLeased \<Rightarrow> c\<lparr>leased := sat_add32 (leased c) 1\<rparr>
      | BReserved \<Rightarrow> c\<lparr>reserved_n := sat_add32 (reserved_n c) 1\<rparr>
      | BTearingDown \<Rightarrow> c\<lparr>tearing_down := sat_add32 (tearing_down c) 1\<rparr>
      | BReleased \<Rightarrow> c\<lparr>released := sat_add32 (released c) 1\<rparr>)"

definition counts_live :: "bucket_counts \<Rightarrow> u32" where
  "counts_live c =
     sat_add32 (sat_add32 (sat_add32 (sat_add32 (sat_add32 (serving c) (clearing c))
       (idle_n c)) (leased c)) (reserved_n c)) (tearing_down c)"

fun bucket_phrase :: "bucket \<Rightarrow> string" where
  "bucket_phrase BServing = ''serving a turn''"
| "bucket_phrase BClearing = ''clearing between turns, with no caller waiting''"
| "bucket_phrase BIdle = ''idle''"
| "bucket_phrase BLeased = ''holding a conversation lease''"
| "bucket_phrase BReserved = ''reserved or warming''"
| "bucket_phrase BTearingDown = ''in teardown''"
| "bucket_phrase BReleased = ''holding no slot''"

definition clauses :: "bucket_counts \<Rightarrow> (bucket \<times> u32 \<times> string) list" where
  "clauses c =
     [(BServing, serving c, bucket_phrase BServing),
      (BClearing, clearing c, bucket_phrase BClearing),
      (BIdle, idle_n c, bucket_phrase BIdle),
      (BLeased, leased c, bucket_phrase BLeased),
      (BReserved, reserved_n c, bucket_phrase BReserved),
      (BTearingDown, tearing_down c, bucket_phrase BTearingDown)]"

definition counts_coming_back :: "bucket_counts \<Rightarrow> u32" where
  "counts_coming_back c =
     fold (\<lambda>n tot. sat_add32 tot n)
       (map (\<lambda>(_, n, _). n) (filter (\<lambda>(b, _, _). comes_back_on_its_own b) (clauses c))) 0"

record pool_pressure =
  configured_instances :: u32
  usable_instances :: u32
  counts :: bucket_counts
  leaked :: u32

definition coming_back :: "pool_pressure \<Rightarrow> u32" where
  "coming_back p = counts_coming_back (counts p)"

definition pressure_details :: "string \<Rightarrow> instance_class \<Rightarrow> u64 \<Rightarrow> pool_pressure \<Rightarrow> json" where
  "pressure_details violation requested waited_ms p =
     json_object
       [(''violation'', JString violation),
        (''budget_instances'', JNum (usable_instances p)),
        (''configured_instances'', JNum (configured_instances p)),
        (''live'', JNum (counts_live (counts p))),
        (''in_flight'', JNum (serving (counts p))),
        (''clearing'', JNum (clearing (counts p))),
        (''idle'', JNum (idle_n (counts p))),
        (''leased'', JNum (leased (counts p))),
        (''reserved'', JNum (reserved_n (counts p))),
        (''tearing_down'', JNum (tearing_down (counts p))),
        (''leaked'', JNum (leaked p)),
        (''admission_wait_ms'', JNum waited_ms),
        (''requested_class'', json_object
           [(''model'', JString (canonical_model requested)),
            (''effort'', (case effort_argv requested of None \<Rightarrow> JNull | Some e \<Rightarrow> JString e))])]"

definition pressure_census :: "pool_pressure \<Rightarrow> string" where
  "pressure_census p =
     (let leaked_clause =
        (if leaked p = 0 then []
         else '', against '' @ to_string (configured_instances p) @ '' configured before '' @
              to_string (leaked p) @ '' slot(s) leaked permanently'');
          listed = join_with '', ''
            (map (\<lambda>(_, n, phrase). to_string n @ '' '' @ phrase) (clauses (counts p)))
      in to_string (counts_live (counts p)) @ '' of '' @ to_string (usable_instances p) @
         '' usable instance(s) are live -- '' @ listed @ leaked_clause)"

definition pool_exhausted :: "pool_pressure \<Rightarrow> instance_class \<Rightarrow> u64 \<Rightarrow> error_body" where
  "pool_exhausted p requested waited_ms =
     (let waited =
        (if waited_ms = 0 then ''no slot was on its way back, so none was waited for''
         else ''no slot came back in the '' @ to_string waited_ms @ '' ms this turn waited for one'')
      in advising
          (''retry this turn: nothing is queued, so a slot is only reached by asking for it again. If '' @
           ''every turn is refused here, restart pmuxd with --pool-size above the '' @
           to_string (configured_instances p) @ '' this pool was given (refused above 15)'')
         (with_details (pressure_details ''pool_exhausted'' requested waited_ms p)
         (with_retryable True
         (error_new SessionBusy
           (''the stateless pool has no instance available for this turn: '' @ pressure_census p @
            '', and no slot is free; '' @ waited @ ''; nothing is queued'')))))"

definition reclaimed_slot_leaked :: "pool_pressure \<Rightarrow> instance_class \<Rightarrow> u64 \<Rightarrow> error_body" where
  "reclaimed_slot_leaked p requested waited_ms =
     advising
       (''retry this turn: it is refused about one slot and the rest of the pool is unaffected. The '' @
        ''lost slot does not come back on its own -- restart pmuxd to recover it'')
     (with_details (pressure_details ''reclaimed_slot_leaked'' requested waited_ms p)
     (with_retryable True
     (error_new SessionBusy
       (''the stateless pool slot this turn evicted an instance from could not be proven '' @
        ''reaped, so it is permanently subtracted rather than reused: '' @ pressure_census p @
        ''; nothing is queued''))))"

definition session_surface_removed :: error_body where
  "session_surface_removed =
     advising
       (''start pmuxd with --pool-parent, --pool-claude, and --messages-bind for harnesses, '' @
        ''or use pmux ask / run_stateless'')
     (with_details (json_object [(''violation'', JString ''session_surface_removed'')])
     (error_new UnsupportedFeature
       (''interactive sessions are not part of this product: send POST /v1/messages with '' @
        ''x-pmux-conversation, or call pmux ask / run_stateless'')))"

definition path_b_not_enabled :: error_body where
  "path_b_not_enabled =
     advising ''restart pmuxd with --pool-parent DIR --pool-claude /absolute/path/to/claude''
     (with_details (json_object [(''violation'', JString ''path_b_not_enabled'')])
     (error_new UnsupportedFeature
       (''the stateless token engine is not enabled on this daemon: it is off unless pmuxd was '' @
        ''started with --pool-parent, and restarting pmuxd with --pool-parent DIR and '' @
        ''--pool-claude PATH is what enables it'')))"

text \<open>\<open>RepromotionTrigger::ClearScreenOrPreambleMismatch\<close>: its id and its advice.\<close>

definition clear_mismatch_id :: string where
  "clear_mismatch_id = ''clear_screen_or_preamble_mismatch''"

definition clear_mismatch_how :: string where
  "clear_mismatch_how =
     ''the transcript `/clear` opened is not the preamble measured at '' @
     ''driver_io.rs's MAX_ASSERT_EMPTY_ROWS/MAX_ASSERT_EMPTY_USER_ROWS block. The '' @
     ''stateless pool HALTS on it rather than quarantining one instance, because '' @
     ''every instance is typing into the same composer. Re-promote against the '' @
     ''installed Claude Code version and restart pmuxd; no retry clears a halt.''"

definition pool_halted :: "string \<Rightarrow> error_body" where
  "pool_halted violation =
     advising clear_mismatch_how
     (with_details (json_object [(''violation'', JString violation),
        (''repromotion_trigger'', JString clear_mismatch_id)])
     (error_new SchemaDrift
       (''the stateless pool has halted: pmux's model of the installed Claude's post-/clear preamble no longer matches it'')))"

definition sidechain_on_toolless_cell :: "nat \<Rightarrow> error_body" where
  "sidechain_on_toolless_cell rows =
     advising
       (''do not retry this prompt: the next instance is launched the same way and answers the same '' @
        ''way. Restart pmuxd with --pool-retain-dir DIR, reproduce, and read the retained '' @
        ''transcript -- a sidechain row on a cell launched with --disallowedTools \"*\" means the '' @
        ''tool surface pmux denied is reachable, which is a finding and not a bad turn'')
     (with_details (json_object [(''violation'', JString ''sidechain_row_on_toolless_cell''),
        (''sidechain_rows'', JNum rows)])
     (error_new SchemaDrift
       ''the stateless turn's transcript carried a sidechain row on a cell whose tool surface is denied''))"

definition sidechain_rows_not_counted :: error_body where
  "sidechain_rows_not_counted =
     advising
       (''do not retry: the same host answers `None` again. This is a pmux build whose stateless '' @
        ''host cannot count a transcript's sidechain rows, so upgrade pmuxd rather than the prompt'')
     (with_details (json_object [(''violation'', JString ''sidechain_rows_not_counted'')])
     (error_new UnsupportedFeature
       (''the stateless host committed a turn without counting the transcript's sidechain rows, so '' @
        ''the tool-surface isolation claim could not be checked'')))"

definition daemon_shutting_down :: error_body where
  "daemon_shutting_down =
     advising
       (''retry against the replacement daemon once its socket accepts connections: this one is '' @
        ''draining and will refuse every remaining turn'')
     (with_retryable True (error_new DaemonLost ''the stateless pool is shutting down''))"

end
