(* ===== verification/PoolState.thy ===== *)
theory PoolState
  imports Refusals
begin

text \<open>
  The pool's mutable state (\<open>PoolState\<close> of \<open>src/crates/service/src/pool/mod.rs\<close>), its pure readers,
  \<open>transition_locked\<close> -- the one place an instance changes state -- with reservation and idle
  publication, and \<open>Pool::check_invariants\<close>. The invariant \<open>pool_inv\<close> is what every critical
  section of the pool keeps; \<open>pool_inv_checks\<close> shows it implies that \<open>check_invariants\<close> passes.
\<close>

record pool_state =
  instances :: "(slot_id, pool_instance) btree_map"
  idle :: "(instance_class, slot_id btree_set) btree_map"
  next_epoch :: "(slot_id, epoch) btree_map"
  leaked_slots :: "slot_id btree_set"
  rewarming :: "instance_class btree_set"
  pending_leases :: "string btree_set"
  protected_leases :: "string btree_set"
  halted :: "string option"
  shutting_down :: bool

definition pool_new :: pool_state where
  "pool_new = \<lparr>instances = bm_empty, idle = bm_empty, next_epoch = bm_empty,
     leaked_slots = bm_empty, rewarming = bm_empty, pending_leases = bm_empty,
     protected_leases = bm_empty, halted = None, shutting_down = False\<rparr>"

section \<open>Readers\<close>

definition live :: "pool_state \<Rightarrow> u32" where
  "live st = u32_of_usize (bm_len (instances st))"

definition buckets :: "pool_state \<Rightarrow> bucket_counts" where
  "buckets st = fold (\<lambda>i c. record_state (state i) c) (bm_values (instances st)) counts_default"

definition idle_count :: "pool_state \<Rightarrow> u32" where
  "idle_count st = u32_of_usize (sum_list (map bm_len (bm_values (idle st))))"

definition capacity :: "pool_state \<Rightarrow> u32 \<Rightarrow> u32" where
  "capacity st n = sat_sub n (u32_of_usize (bm_len (leaked_slots st)))"

definition pressure :: "pool_state \<Rightarrow> u32 \<Rightarrow> pool_pressure" where
  "pressure st n = \<lparr>configured_instances = n, usable_instances = capacity st n,
     counts = buckets st, leaked = u32_of_usize (bm_len (leaked_slots st))\<rparr>"

definition free_slot :: "pool_state \<Rightarrow> u32 \<Rightarrow> slot_id option" where
  "free_slot st n =
     find (\<lambda>s. \<not> bm_contains (instances st) s \<and> \<not> bm_contains (leaked_slots st) s) [0..<n]"

definition take_epoch :: "slot_id \<Rightarrow> pool_state \<Rightarrow> epoch \<times> pool_state" where
  "take_epoch s st =
     (let current = (case bm_get (next_epoch st) s of None \<Rightarrow> 0 | Some e \<Rightarrow> e)
      in (current, st\<lparr>next_epoch := bm_insert s (sat_add64 current 1) (next_epoch st)\<rparr>))"

definition remove_from_idle :: "instance_class \<Rightarrow> slot_id \<Rightarrow> pool_state \<Rightarrow> pool_state" where
  "remove_from_idle c s st =
     (case bm_get (idle st) c of
        None \<Rightarrow> st
      | Some members \<Rightarrow>
          (let members' = bm_remove s members
           in if bm_len members' = 0 then st\<lparr>idle := bm_remove c (idle st)\<rparr>
              else st\<lparr>idle := bm_insert c members' (idle st)\<rparr>))"

text \<open>\<open>instances.get(slot).map_or(u64::MAX, |instance| instance.idle_since_ms)\<close>.\<close>

definition idle_since :: "pool_state \<Rightarrow> slot_id \<Rightarrow> u64" where
  "idle_since st s = (case bm_get (instances st) s of None \<Rightarrow> u64_max | Some i \<Rightarrow> idle_since_ms i)"

definition lru_of :: "pool_state \<Rightarrow> instance_class \<Rightarrow> slot_id option" where
  "lru_of st c =
     (case bm_get (idle st) c of
        None \<Rightarrow> None
      | Some members \<Rightarrow> min_by_key (idle_since st) (bm_keys members))"

section \<open>Transitions\<close>

datatype transition_refusal =
  NoSuchSlot slot_id | Illegal illegal_transition | Invariant invariant_violation

fun show_transition_refusal :: "transition_refusal \<Rightarrow> string" where
  "show_transition_refusal (NoSuchSlot s) = ''slot '' @ to_string s @ '' is not live''"
| "show_transition_refusal (Illegal e) = show_illegal e"
| "show_transition_refusal (Invariant v) = show_invariant_violation v"

definition internal :: "string \<Rightarrow> error_body" where
  "internal msg =
     with_details (json_object [(''violation'', JString ''path_b_pool_internal'')])
       (error_new Internal msg)"

text \<open>The instance a transition would produce, before its invariants are asked.\<close>

definition candidate :: "transition \<Rightarrow> instance_state \<Rightarrow> pool_instance \<Rightarrow> pool_instance" where
  "candidate t next i =
     i\<lparr>turns_started :=
         (if t \<in> {CheckOut, ResumeLease} then sat_add32 (turns_started i) 1 else turns_started i),
       conversation_id :=
         (if t \<in> {ReleaseLease, ShutdownDrain, TurnNotDelivered, ResponseDelivered} then None
          else conversation_id i),
       state := next, last_transition := Some t,
       was_quarantined := (was_quarantined i \<or> next = Quarantined)\<rparr>"

definition transition_locked ::
  "pool_config \<Rightarrow> slot_id \<Rightarrow> transition \<Rightarrow> pool_state
     \<Rightarrow> transition_refusal + (instance_state \<times> pool_state)" where
  "transition_locked cfg s t st =
     (case bm_get (instances st) s of
        None \<Rightarrow> Inl (NoSuchSlot s)
      | Some i \<Rightarrow>
          (case step (state i) t of
             Inl e \<Rightarrow> Inl (Illegal e)
           | Inr next \<Rightarrow>
               (let cand = candidate t next i
                in case check_instance (recycle_turns cfg) (system_prompt_fingerprint cfg) cand of
                     Inl v \<Rightarrow> Inl (Invariant v)
                   | Inr _ \<Rightarrow>
                       (let st' = st\<lparr>instances := bm_insert s cand (instances st)\<rparr>
                        in Inr (next,
                             if state i = Idle \<and> next \<noteq> Idle
                             then remove_from_idle (inst_class cand) s st' else st')))))"

text \<open>\<open>let _ = self.transition_locked(...)\<close>: the refusal is dropped and the state kept.\<close>

definition try_transition ::
  "pool_config \<Rightarrow> slot_id \<Rightarrow> transition \<Rightarrow> pool_state \<Rightarrow> pool_state" where
  "try_transition cfg s t st =
     (case transition_locked cfg s t st of Inl _ \<Rightarrow> st | Inr (_, st') \<Rightarrow> st')"

text \<open>\<open>transition_locked(...).map_err(|violation| internal(&violation.to_string()))\<close>.\<close>

definition transition_or_internal ::
  "pool_config \<Rightarrow> slot_id \<Rightarrow> transition \<Rightarrow> pool_state \<Rightarrow> error_body + pool_state" where
  "transition_or_internal cfg s t st =
     (case transition_locked cfg s t st of
        Inl v \<Rightarrow> Inl (internal (show_transition_refusal v))
      | Inr (_, st') \<Rightarrow> Inr st')"

definition reserve_locked ::
  "pool_config \<Rightarrow> slot_id \<Rightarrow> instance_class \<Rightarrow> pool_state \<Rightarrow> pool_state" where
  "reserve_locked cfg s c st =
     (let (e, st') = take_epoch s st;
          p = slot_paths_new (parent_dir cfg) s e
      in st'\<lparr>instances :=
           bm_insert s (reserved s e c p (system_prompt_fingerprint cfg)) (instances st')\<rparr>)"

definition publish_idle_locked ::
  "pool_config \<Rightarrow> u64 \<Rightarrow> slot_id \<Rightarrow> transition \<Rightarrow> pool_state \<Rightarrow> bool \<times> pool_state" where
  "publish_idle_locked cfg now s t st =
     (case transition_locked cfg s t st of
        Inl _ \<Rightarrow> (False, st)
      | Inr (_, st') \<Rightarrow>
          (case bm_get (instances st') s of
             None \<Rightarrow> (False, st')
           | Some i \<Rightarrow>
               (let st'' = st'\<lparr>instances := bm_insert s (i\<lparr>idle_since_ms := now\<rparr>) (instances st')\<rparr>;
                    c = inst_class i;
                    members = (case bm_get (idle st'') c of None \<Rightarrow> bm_empty | Some m \<Rightarrow> m)
                in (True, st''\<lparr>idle := bm_insert c (bs_insert s members) (idle st'')\<rparr>))))"

section \<open>The invariants the code checks\<close>

datatype pool_violation =
    IdleSetHoldsNonIdle slot_id instance_state
  | IdleInstanceNotPublished slot_id
  | IdleSetClassMismatch slot_id
  | OverCapacity u32 u32
  | LeakedSlotStillLive slot_id
  | InstanceViolation invariant_violation

fun show_pool_violation :: "pool_violation \<Rightarrow> string" where
  "show_pool_violation (IdleSetHoldsNonIdle s st) =
     ''the idle set holds slot '' @ to_string s @ '', which is '' @ show_state st"
| "show_pool_violation (IdleInstanceNotPublished s) =
     ''slot '' @ to_string s @ '' is idle but is not published in its class's idle set''"
| "show_pool_violation (IdleSetClassMismatch s) =
     ''slot '' @ to_string s @ '' is filed under another class''"
| "show_pool_violation (OverCapacity n cap) =
     to_string n @ '' live instances against a budget of '' @ to_string cap"
| "show_pool_violation (LeakedSlotStillLive s) =
     ''slot '' @ to_string s @ '' is both leaked and live''"
| "show_pool_violation (InstanceViolation v) = show_invariant_violation v"

fun first_error :: "('a \<Rightarrow> 'e + unit) \<Rightarrow> 'a list \<Rightarrow> 'e + unit" where
  "first_error f [] = Inr ()"
| "first_error f (x # xs) = bind_r (f x) (\<lambda>_. first_error f xs)"

definition check_idle_member ::
  "pool_state \<Rightarrow> instance_class \<Rightarrow> slot_id \<Rightarrow> pool_violation + unit" where
  "check_idle_member st c s =
     (case bm_get (instances st) s of
        None \<Rightarrow> Inl (IdleSetHoldsNonIdle s Retired)
      | Some i \<Rightarrow>
          if state i \<noteq> Idle then Inl (IdleSetHoldsNonIdle s (state i))
          else if inst_class i \<noteq> c then Inl (IdleSetClassMismatch s)
          else Inr ())"

definition published :: "pool_state \<Rightarrow> instance_class \<Rightarrow> slot_id \<Rightarrow> bool" where
  "published st c s = (case bm_get (idle st) c of None \<Rightarrow> False | Some m \<Rightarrow> bm_contains m s)"

definition check_live_slot ::
  "pool_config \<Rightarrow> pool_state \<Rightarrow> slot_id \<times> pool_instance \<Rightarrow> pool_violation + unit" where
  "check_live_slot cfg st = (\<lambda>(s, i).
     if bm_contains (leaked_slots st) s then Inl (LeakedSlotStillLive s)
     else if state i = Idle \<and> \<not> published st (inst_class i) s then Inl (IdleInstanceNotPublished s)
     else map_err InstanceViolation
       (check_instance (recycle_turns cfg) (system_prompt_fingerprint cfg) i))"

definition check_pool :: "pool_config \<Rightarrow> pool_state \<Rightarrow> pool_violation + unit" where
  "check_pool cfg st =
     (let cap = capacity st (pool_size cfg)
      in if live st > cap then Inl (OverCapacity (live st) cap)
         else bind_r (first_error (\<lambda>(c, m). first_error (check_idle_member st c) (bm_keys m))
                (entries (idle st)))
              (\<lambda>_. first_error (check_live_slot cfg st) (entries (instances st))))"

section \<open>The invariant of the pool\<close>

text \<open>
  Per slot: it is within the configured size, filed under its own key, satisfies its state's
  invariants, is not terminal, holds a conversation only while a turn or a lease is open, was made for a configured account, lives in
  the directory its slot and epoch name, and has consumed its epoch.
\<close>

definition slot_ok :: "pool_config \<Rightarrow> pool_state \<Rightarrow> slot_id \<Rightarrow> pool_instance \<Rightarrow> bool" where
  "slot_ok cfg st s i \<longleftrightarrow>
     s < pool_size cfg \<and> slot i = s
     \<and> instance_ok (recycle_turns cfg) (system_prompt_fingerprint cfg) i
     \<and> \<not> is_terminal (state i)
     \<and> (conversation_id i \<noteq> None \<longrightarrow> state i \<in> {CheckedOut, Delivering, Leased})
     \<and> prompt_fingerprint i = system_prompt_fingerprint cfg
     \<and> has_account cfg (account (inst_class i))
     \<and> paths i = slot_paths_new (parent_dir cfg) s (epoch i)
     \<and> (\<exists>n. bm_get (next_epoch st) s = Some n \<and> (epoch i < n \<or> n = u64_max))
     \<and> \<not> bm_contains (leaked_slots st) s"

definition pool_inv :: "pool_config \<Rightarrow> pool_state \<Rightarrow> bool" where
  "pool_inv cfg st \<longleftrightarrow>
     (\<forall>s i. bm_get (instances st) s = Some i \<longrightarrow> slot_ok cfg st s i)
     \<and> (\<forall>c s. published st c s \<longleftrightarrow>
          (\<exists>i. bm_get (instances st) s = Some i \<and> state i = Idle \<and> inst_class i = c))
     \<and> (\<forall>c m. bm_get (idle st) c = Some m \<longrightarrow> bm_len m \<noteq> 0)
     \<and> (\<forall>s. bm_contains (leaked_slots st) s \<longrightarrow> s < pool_size cfg)"

lemma first_error_Inr: "first_error f xs = Inr () \<longleftrightarrow> (\<forall>x \<in> set xs. f x = Inr ())"
  by (induction xs) (auto simp: bind_r_Inr)

lemma set_entries: "(k, v) \<in> set (entries m) \<longleftrightarrow> bm_get m k = Some v"
  by transfer (metis map_of_eq_Some_iff strict_sorted_iff)

lemma remove_from_idle_other [simp]:
  "instances (remove_from_idle c s st) = instances st"
  "next_epoch (remove_from_idle c s st) = next_epoch st"
  "leaked_slots (remove_from_idle c s st) = leaked_slots st"
  "rewarming (remove_from_idle c s st) = rewarming st"
  "pending_leases (remove_from_idle c s st) = pending_leases st"
  "protected_leases (remove_from_idle c s st) = protected_leases st"
  "halted (remove_from_idle c s st) = halted st"
  "shutting_down (remove_from_idle c s st) = shutting_down st"
  by (auto simp: remove_from_idle_def Let_def split: option.split)

lemma published_remove [simp]:
  "published (remove_from_idle c s st) c' s' \<longleftrightarrow> published st c' s' \<and> \<not> (c' = c \<and> s' = s)"
  by (auto simp: remove_from_idle_def published_def Let_def bm_len_0_iff bm_contains_def
      split: option.splits if_splits)
    
lemma idle_nonempty_remove:
  "(\<And>c m. bm_get (idle st) c = Some m \<Longrightarrow> bm_len m \<noteq> 0) \<Longrightarrow>
   bm_get (idle (remove_from_idle c' s st)) c = Some m \<Longrightarrow> bm_len m \<noteq> 0"
  by (auto simp: remove_from_idle_def Let_def split: option.splits if_splits)

lemma published_idle_cong [simp]:
  "published (st\<lparr>instances := x\<rparr>) = published st"
  "published (st\<lparr>next_epoch := e\<rparr>) = published st"
  "published (st\<lparr>leaked_slots := l\<rparr>) = published st"
  "published (st\<lparr>rewarming := r\<rparr>) = published st"
  "published (st\<lparr>pending_leases := p\<rparr>) = published st"
  "published (st\<lparr>protected_leases := q\<rparr>) = published st"
  "published (st\<lparr>halted := h\<rparr>) = published st"
  "published (st\<lparr>shutting_down := b\<rparr>) = published st"
  by (simp_all add: published_def fun_eq_iff)

lemma candidate_simps [simp]:
  "state (candidate t n i) = n" "slot (candidate t n i) = slot i" "epoch (candidate t n i) = epoch i"
  "inst_class (candidate t n i) = inst_class i" "paths (candidate t n i) = paths i"
  "handle (candidate t n i) = handle i" "mint_in_flight (candidate t n i) = mint_in_flight i"
  "prompt_fingerprint (candidate t n i) = prompt_fingerprint i"
  "last_transition (candidate t n i) = Some t" "idle_since_ms (candidate t n i) = idle_since_ms i"
  by (simp_all add: candidate_def)

lemma transition_locked_Inr:
  "transition_locked cfg s t st = Inr (n, st') \<longleftrightarrow>
     (\<exists>i. bm_get (instances st) s = Some i \<and> step (state i) t = Inr n
        \<and> instance_ok (recycle_turns cfg) (system_prompt_fingerprint cfg) (candidate t n i)
        \<and> st' = (if state i = Idle then remove_from_idle (inst_class i) s else id)
                  (st\<lparr>instances := bm_insert s (candidate t n i) (instances st)\<rparr>))"
proof (cases "bm_get (instances st) s")
  case None
  then show ?thesis by (simp add: transition_locked_def)
next
  case (Some i)
  show ?thesis
  proof (cases "step (state i) t")
    case (Inl e)
    with Some show ?thesis by (simp add: transition_locked_def)
  next
    case (Inr n')
    then have "state i = Idle \<Longrightarrow> n' \<noteq> Idle"
      by (auto simp: step_into_Idle)
    with Some Inr show ?thesis
      using check_instance_cases [of "recycle_turns cfg" "system_prompt_fingerprint cfg"
          "candidate t n' i"]
      by (auto simp: transition_locked_def Let_def)
  qed
qed

lemma candidate_conversation:
  assumes "step (state i) t = Inr n" "conversation_id i \<noteq> None \<longrightarrow> state i \<in> {CheckedOut, Delivering, Leased}"
    "conversation_id (candidate t n i) \<noteq> None"
  shows "n \<in> {CheckedOut, Delivering, Leased}"
  using assms by (auto simp: step_edges EDGES_def candidate_def split: if_splits)

lemma pool_invD:
  assumes "pool_inv cfg st"
  shows "bm_get (instances st) s = Some i \<Longrightarrow> slot_ok cfg st s i"
    and "published st c s \<longleftrightarrow>
          (\<exists>i. bm_get (instances st) s = Some i \<and> state i = Idle \<and> inst_class i = c)"
    and "bm_get (idle st) c = Some m \<Longrightarrow> bm_len m \<noteq> 0"
    and "bm_contains (leaked_slots st) s \<Longrightarrow> s < pool_size cfg"
  using assms by (auto simp: pool_inv_def)

text \<open>A transition to anything but \<open>Idle\<close> or a terminal state keeps the invariant by itself.\<close>

lemma slot_ok_candidate:
  assumes "slot_ok cfg st s i" "step (state i) t = Inr n" "\<not> is_terminal n"
    "instance_ok (recycle_turns cfg) (system_prompt_fingerprint cfg) (candidate t n i)"
  shows "slot_ok cfg st s (candidate t n i)"
  using assms candidate_conversation [OF assms(2)] unfolding slot_ok_def by simp

lemma slot_ok_cong:
  "next_epoch st' = next_epoch st \<Longrightarrow> leaked_slots st' = leaked_slots st \<Longrightarrow>
   slot_ok cfg st' s i \<longleftrightarrow> slot_ok cfg st s i"
  by (simp add: slot_ok_def)

lemma transition_keeps_inv:
  assumes inv: "pool_inv cfg st" and tr: "transition_locked cfg s t st = Inr (n, st')"
    and n: "n \<noteq> Idle" "\<not> is_terminal n"
  shows "pool_inv cfg st'"
proof -
  obtain i where i: "bm_get (instances st) s = Some i" "step (state i) t = Inr n"
    "instance_ok (recycle_turns cfg) (system_prompt_fingerprint cfg) (candidate t n i)"
    and st': "st' = (if state i = Idle then remove_from_idle (inst_class i) s else id)
                  (st\<lparr>instances := bm_insert s (candidate t n i) (instances st)\<rparr>)"
    using tr by (auto simp: transition_locked_Inr)
  have other: "instances st' = bm_insert s (candidate t n i) (instances st)"
    "next_epoch st' = next_epoch st" "leaked_slots st' = leaked_slots st"
    by (simp_all add: st')
  have "slot_ok cfg st s (candidate t n i)"
    using slot_ok_candidate pool_invD(1) [OF inv i(1)] i(2,3) n(2) by blast
  then have "slot_ok cfg st' s' j" if "bm_get (instances st') s' = Some j" for s' j
    using that pool_invD(1) [OF inv] slot_ok_cong [OF other(2,3)]
    by (auto simp: other split: if_splits)
  moreover have "published st' c s' \<longleftrightarrow>
      (\<exists>j. bm_get (instances st') s' = Some j \<and> state j = Idle \<and> inst_class j = c)" for c s'
    using pool_invD(2) [OF inv, of c s'] i(1) n(1) by (auto simp: other st')
  moreover have "bm_len m \<noteq> 0" if "bm_get (idle st') c = Some m" for c m
    using that idle_nonempty_remove [of "st\<lparr>instances := bm_insert s (candidate t n i) (instances st)\<rparr>"]
      pool_invD(3) [OF inv] by (auto simp: st' split: if_splits)
  ultimately show ?thesis
    using pool_invD(4) [OF inv] by (auto simp: pool_inv_def other)
qed

lemma pool_inv_other [simp]:
  "pool_inv cfg (st\<lparr>rewarming := r\<rparr>) = pool_inv cfg st"
  "pool_inv cfg (st\<lparr>pending_leases := p\<rparr>) = pool_inv cfg st"
  "pool_inv cfg (st\<lparr>protected_leases := q\<rparr>) = pool_inv cfg st"
  "pool_inv cfg (st\<lparr>halted := h\<rparr>) = pool_inv cfg st"
  "pool_inv cfg (st\<lparr>shutting_down := b\<rparr>) = pool_inv cfg st"
  by (simp_all add: pool_inv_def slot_ok_def)

lemma pool_inv_update:
  assumes inv: "pool_inv cfg st" and i: "bm_get (instances st) s = Some i"
    and j: "slot_ok cfg st s j" "state j = Idle \<longleftrightarrow> state i = Idle" "inst_class j = inst_class i"
  shows "pool_inv cfg (st\<lparr>instances := bm_insert s j (instances st)\<rparr>)"
proof -
  let ?st = "st\<lparr>instances := bm_insert s j (instances st)\<rparr>"
  have "slot_ok cfg ?st s' k" if "bm_get (instances ?st) s' = Some k" for s' k
    using that j(1) pool_invD(1) [OF inv] by (auto simp: slot_ok_def split: if_splits)
  moreover have "published ?st c s' \<longleftrightarrow>
      (\<exists>k. bm_get (instances ?st) s' = Some k \<and> state k = Idle \<and> inst_class k = c)" for c s'
    using pool_invD(2) [OF inv, of c s'] i j(2,3) by auto
  ultimately show ?thesis
    using pool_invD(3,4) [OF inv] by (auto simp: pool_inv_def)
qed

lemma pool_inv_remove:
  assumes inv: "pool_inv cfg st" and i: "bm_get (instances st) s = Some i" "state i \<noteq> Idle"
  shows "pool_inv cfg (st\<lparr>instances := bm_remove s (instances st)\<rparr>)"
    and "pool_inv cfg (st\<lparr>instances := bm_remove s (instances st),
           leaked_slots := bs_insert s (leaked_slots st)\<rparr>)"
proof -
  have "published st c s' \<longleftrightarrow>
      (\<exists>k. bm_get (bm_remove s (instances st)) s' = Some k \<and> state k = Idle \<and> inst_class k = c)" for c s'
    using pool_invD(2) [OF inv, of c s'] i by auto
  moreover have "s < pool_size cfg"
    using pool_invD(1) [OF inv i(1)] by (simp add: slot_ok_def)
  ultimately show "pool_inv cfg (st\<lparr>instances := bm_remove s (instances st)\<rparr>)"
    and "pool_inv cfg (st\<lparr>instances := bm_remove s (instances st),
           leaked_slots := bs_insert s (leaked_slots st)\<rparr>)"
    using inv by (auto simp: pool_inv_def slot_ok_def split: if_splits)
qed

lemma pool_inv_new [simp]: "pool_inv cfg pool_new"
  by (simp add: pool_inv_def pool_new_def published_def)

lemma reserve_fields [simp]:
  "instances (reserve_locked cfg s c st) = bm_insert s (reserved s (fst (take_epoch s st)) c
     (slot_paths_new (parent_dir cfg) s (fst (take_epoch s st))) (system_prompt_fingerprint cfg)) (instances st)"
  "idle (reserve_locked cfg s c st) = idle st"
  "leaked_slots (reserve_locked cfg s c st) = leaked_slots st"
  "rewarming (reserve_locked cfg s c st) = rewarming st"
  "pending_leases (reserve_locked cfg s c st) = pending_leases st"
  "protected_leases (reserve_locked cfg s c st) = protected_leases st"
  "halted (reserve_locked cfg s c st) = halted st"
  "shutting_down (reserve_locked cfg s c st) = shutting_down st"
  "next_epoch (reserve_locked cfg s c st) =
     bm_insert s (sat_add64 (fst (take_epoch s st)) 1) (next_epoch st)"
  by (simp_all add: reserve_locked_def take_epoch_def Let_def)

lemma reserve_keeps_inv:
  assumes inv: "pool_inv cfg st" and s: "s < pool_size cfg" "\<not> bm_contains (instances st) s"
    "\<not> bm_contains (leaked_slots st) s" "has_account cfg (account c)"
  shows "pool_inv cfg (reserve_locked cfg s c st)"
proof -
  let ?st = "reserve_locked cfg s c st"
  let ?e = "fst (take_epoch s st)"
  have none: "bm_get (instances st) s = None"
    using s(2) by (simp add: bm_contains_def)
  have new: "slot_ok cfg ?st s (reserved s ?e c (slot_paths_new (parent_dir cfg) s ?e)
      (system_prompt_fingerprint cfg))"
    using s by (auto simp: slot_ok_def sat_add64_def min_def)
  then have "slot_ok cfg ?st s' j" if "bm_get (instances ?st) s' = Some j" for s' j
    using that pool_invD(1) [OF inv, of s' j] by (auto simp: slot_ok_def split: if_splits)
  moreover have "published ?st c' s' \<longleftrightarrow>
      (\<exists>j. bm_get (instances ?st) s' = Some j \<and> state j = Idle \<and> inst_class j = c')" for c' s'
    using pool_invD(2) [OF inv, of c' s'] none by (auto simp: published_def)
  ultimately show ?thesis
    using pool_invD(3,4) [OF inv] by (auto simp: pool_inv_def)
qed

lemma publish_keeps_inv:
  assumes inv: "pool_inv cfg st" and t: "is_proof_carrying t"
    and pub: "publish_idle_locked cfg now s t st = (b, st')"
  shows "pool_inv cfg st' \<and> (b \<longleftrightarrow> is_ok (transition_locked cfg s t st)) \<and> (\<not> b \<longrightarrow> st' = st)"
proof (cases "transition_locked cfg s t st")
  case (Inl e)
  with pub inv show ?thesis by (auto simp: publish_idle_locked_def)
next
  case (Inr r)
  then obtain n st1 where tr: "transition_locked cfg s t st = Inr (n, st1)"
    by (cases r) auto
  then obtain i where i: "bm_get (instances st) s = Some i" "step (state i) t = Inr n"
    "instance_ok (recycle_turns cfg) (system_prompt_fingerprint cfg) (candidate t n i)"
    and st1: "st1 = (if state i = Idle then remove_from_idle (inst_class i) s else id)
                  (st\<lparr>instances := bm_insert s (candidate t n i) (instances st)\<rparr>)"
    by (auto simp: transition_locked_Inr)
  have n: "n = Idle" "state i \<noteq> Idle"
    using i(2) t by (auto simp: step_edges EDGES_def)
  define c where "c = inst_class i"
  define m where "m = (case bm_get (idle st) c of None \<Rightarrow> bm_empty | Some m \<Rightarrow> m)"
  define j where "j = (candidate t Idle i)\<lparr>idle_since_ms := now\<rparr>"
  have st': "b" "st' = st\<lparr>instances := bm_insert s j (bm_insert s (candidate t Idle i) (instances st)),
      idle := bm_insert c (bs_insert s m) (idle st)\<rparr>"
    using pub n by (auto simp: publish_idle_locked_def tr st1 Let_def j_def m_def c_def)
  have j: "state j = Idle" "inst_class j = c"
    by (simp_all add: j_def c_def)
  have pubd: "published st' c' s' \<longleftrightarrow> published st c' s' \<or> (c' = c \<and> s' = s)" for c' s'
    by (auto simp: st' published_def m_def split: option.splits)
  have "slot_ok cfg st s (candidate t Idle i)"
    using slot_ok_candidate [OF pool_invD(1) [OF inv i(1)]] i(2,3) n by simp
  then have "slot_ok cfg st s j"
    by (simp add: slot_ok_def j_def instance_ok_def)
  then have "slot_ok cfg st' s' k" if "bm_get (instances st') s' = Some k" for s' k
    using that pool_invD(1) [OF inv, of s' k] by (auto simp: slot_ok_def st' split: if_splits)
  moreover have "published st' c' s' \<longleftrightarrow>
      (\<exists>k. bm_get (instances st') s' = Some k \<and> state k = Idle \<and> inst_class k = c')" for c' s'
  proof (cases "s' = s")
    case True
    then show ?thesis
      using pool_invD(2) [OF inv, of c' s] i(1) n(2) unfolding pubd by (auto simp: st' j)
  next
    case False
    then show ?thesis
      using pool_invD(2) [OF inv, of c' s'] unfolding pubd by (simp add: st')
  qed
  moreover have "bm_len m' \<noteq> 0" if "bm_get (idle st') c' = Some m'" for c' m'
    using that pool_invD(3) [OF inv] by (auto simp: st' bm_len_0_iff bs_insert_def split: if_splits)
  ultimately show ?thesis
    using pool_invD(4) [OF inv] tr st'(1) by (auto simp: pool_inv_def st')
qed

lemma bm_remove_insert [simp]: "bm_remove k (bm_insert k v m) = bm_remove k m"
  by (rule bm_eqI) auto

lemma bm_insert_insert [simp]: "bm_insert k v (bm_insert k w m) = bm_insert k v m"
  by (rule bm_eqI) auto

lemma bm_len_card: "bm_len m = card {k. bm_contains m k}"
  by (simp add: bm_len_def bm.length_keys bm_contains_def)

lemma finite_bm: "finite {k. bm_contains m k}"
  using bm.finite_dom [of m] by (simp add: bm_contains_def)

lemma reaped_keeps_inv:
  assumes inv: "pool_inv cfg st" and tr: "transition_locked cfg s Reaped st = Inr (n, st')"
  shows "pool_inv cfg (st'\<lparr>instances := bm_remove s (instances st')\<rparr>)"
proof -
  obtain i where i: "bm_get (instances st) s = Some i" "state i = Destroying"
    and "st' = st\<lparr>instances := bm_insert s (candidate Reaped n i) (instances st)\<rparr>"
    using tr by (auto simp: transition_locked_Inr step_Reaped)
  with pool_inv_remove(1) [OF inv i(1)] show ?thesis by simp
qed

lemma try_transition_cases:
  obtains (kept) "try_transition cfg s t st = st" "\<not> is_ok (transition_locked cfg s t st)"
  | (moved) n st' where "transition_locked cfg s t st = Inr (n, st')" "try_transition cfg s t st = st'"
  by (cases "transition_locked cfg s t st") (auto simp: try_transition_def)

lemma try_transition_keeps_inv:
  assumes "pool_inv cfg st" "t \<notin> {WarmProven, ClearProven, Reaped, ReapFailed}"
  shows "pool_inv cfg (try_transition cfg s t st)"
proof (cases rule: try_transition_cases [of cfg s t st])
  case (moved n st')
  then have "n \<noteq> Idle \<and> \<not> is_terminal n"
    using assms(2) by (auto simp: transition_locked_Inr step_edges EDGES_def)
  with moved assms(1) show ?thesis
    using transition_keeps_inv by fastforce
qed (use assms in simp)

section \<open>Capacity\<close>

lemma pool_inv_capacity:
  assumes inv: "pool_inv cfg st"
  shows "bm_len (instances st) + bm_len (leaked_slots st) \<le> pool_size cfg"
proof -
  let ?L = "{s. bm_contains (instances st) s}" and ?K = "{s. bm_contains (leaked_slots st) s}"
  have L: "\<And>s. bm_contains (instances st) s \<Longrightarrow> s < pool_size cfg \<and> \<not> bm_contains (leaked_slots st) s"
    using pool_invD(1) [OF inv] by (fastforce simp: bm_contains_def slot_ok_def)
  then have "card (?L \<union> ?K) = card ?L + card ?K"
    by (intro card_Un_disjoint finite_bm) auto
  moreover have "card (?L \<union> ?K) \<le> card {..<pool_size cfg}"
    using L pool_invD(4) [OF inv] by (intro card_mono) auto
  ultimately show ?thesis by (simp add: bm_len_card)
qed

lemma pool_inv_live:
  assumes "pool_inv cfg st" "pool_size cfg \<le> u32_max"
  shows "live st = bm_len (instances st) \<and> capacity st (pool_size cfg) = pool_size cfg - bm_len (leaked_slots st)
    \<and> live st \<le> capacity st (pool_size cfg)"
  using pool_inv_capacity [OF assms(1)] assms(2)
  by (simp add: live_def capacity_def u32_of_usize_def)

lemma pool_inv_checks:
  assumes inv: "pool_inv cfg st" and sz: "pool_size cfg \<le> u32_max"
  shows "check_pool cfg st = Inr ()"
proof -
  have "check_idle_member st c s = Inr ()" if "bm_get (idle st) c = Some m" "bm_contains m s" for c m s
    using pool_invD(2) [OF inv, of c s] that by (auto simp: check_idle_member_def published_def)
  moreover have "check_live_slot cfg st (s, i) = Inr ()" if "bm_get (instances st) s = Some i" for s i
    using pool_invD(1) [OF inv that] pool_invD(2) [OF inv, of "inst_class i" s] that
    by (auto simp: check_live_slot_def slot_ok_def check_instance_ok map_err_Inr)
  ultimately show ?thesis
    using pool_inv_live [OF inv sz]
    by (auto simp: check_pool_def Let_def first_error_Inr bind_r_Inr set_entries)
qed

lemma free_slot_Some:
  "free_slot st n = Some s \<Longrightarrow>
   s < n \<and> \<not> bm_contains (instances st) s \<and> \<not> bm_contains (leaked_slots st) s"
  using find_SomeD [of _ "[0..<n]" s] by (auto simp: free_slot_def)

lemma free_slot_None:
  "free_slot st n = None \<longleftrightarrow> (\<forall>s < n. bm_contains (instances st) s \<or> bm_contains (leaked_slots st) s)"
  by (auto simp: free_slot_def find_None_iff)

text \<open>Rule 2's two conditions agree: below capacity there is always a free slot.\<close>

lemma free_slot_iff:
  assumes inv: "pool_inv cfg st" and sz: "pool_size cfg \<le> u32_max"
  shows "live st < capacity st (pool_size cfg) \<longleftrightarrow> free_slot st (pool_size cfg) \<noteq> None"
proof -
  let ?L = "{s. bm_contains (instances st) s}" and ?K = "{s. bm_contains (leaked_slots st) s}"
  have L: "?L \<subseteq> {..<pool_size cfg}" "?K \<subseteq> {..<pool_size cfg}" "?L \<inter> ?K = {}"
    using pool_invD(1,4) [OF inv] by (fastforce simp: bm_contains_def slot_ok_def)+
  then have "card (?L \<union> ?K) = bm_len (instances st) + bm_len (leaked_slots st)"
    by (simp add: card_Un_disjoint finite_bm bm_len_card)
  moreover have "?L \<union> ?K = {..<pool_size cfg} \<longleftrightarrow> card (?L \<union> ?K) = pool_size cfg"
    using L by (metis Un_least card_lessThan card_subset_eq finite_lessThan)
  ultimately show ?thesis
    using pool_inv_live [OF inv sz] pool_inv_capacity [OF inv] L
    by (auto simp: free_slot_None)
qed

section \<open>The idle sets\<close>

lemma lru_of_Some:
  "lru_of st c = Some s \<Longrightarrow> published st c s \<and> (\<forall>s'. published st c s' \<longrightarrow> idle_since st s \<le> idle_since st s')"
  by (auto simp: lru_of_def published_def split: option.splits dest: min_by_key_mem min_by_key_le)

lemma lru_of_None:
  assumes "pool_inv cfg st"
  shows "lru_of st c = None \<longleftrightarrow> bm_get (idle st) c = None"
  using pool_invD(3) [OF assms, of c] by (auto simp: lru_of_def bm_len_def split: option.splits)

lemma lru_of_Idle:
  assumes inv: "pool_inv cfg st" and "lru_of st c = Some s"
  obtains i where "bm_get (instances st) s = Some i" "state i = Idle" "inst_class i = c"
    "slot_ok cfg st s i"
  using lru_of_Some [OF assms(2)] pool_invD(1,2) [OF inv] by blast

text \<open>A class has an idle set exactly when one of its instances is idle.\<close>

lemma idle_class_iff:
  assumes inv: "pool_inv cfg st"
  shows "bm_contains (idle st) c \<longleftrightarrow>
    (\<exists>s i. bm_get (instances st) s = Some i \<and> state i = Idle \<and> inst_class i = c)"
proof -
  have "bm_contains (idle st) c \<longleftrightarrow> (\<exists>s. published st c s)"
    using pool_invD(3) [OF inv, of c]
    by (auto simp: bm_contains_def published_def bm_len_0_iff split: option.splits)
  then show ?thesis
    using pool_invD(2) [OF inv] by auto
qed

section \<open>The census\<close>

fun count_of :: "bucket \<Rightarrow> bucket_counts \<Rightarrow> u32" where
  "count_of BServing c = serving c"
| "count_of BClearing c = clearing c"
| "count_of BIdle c = idle_n c"
| "count_of BLeased c = leased c"
| "count_of BReserved c = reserved_n c"
| "count_of BTearingDown c = tearing_down c"
| "count_of BReleased c = released c"

definition binned :: "bucket \<Rightarrow> pool_instance list \<Rightarrow> nat" where
  "binned b is = length (filter (\<lambda>i. census_bucket (state i) = b) is)"

lemma count_of_record:
  "count_of b c < u32_max \<Longrightarrow>
   count_of b (record_state s c) = count_of b c + (if census_bucket s = b then 1 else 0)"
  by (cases b; cases "census_bucket s") (simp_all add: record_state_def sat_add32_def)

lemma count_of_fold:
  "\<forall>b. count_of b c + length is \<le> u32_max \<Longrightarrow>
   count_of b (fold (\<lambda>i c. record_state (state i) c) is c) = count_of b c + binned b is"
proof (induction "is" arbitrary: c)
  case (Cons i rest)
  have le: "count_of b' c + Suc (length rest) \<le> u32_max" for b'
    using Cons.prems [rule_format, of b'] by simp
  have "count_of b' (record_state (state i) c) + length rest \<le> u32_max" for b'
    using count_of_record [of b' c "state i"] le [of b'] by (simp split: if_splits)
  with Cons.IH show ?case
    using count_of_record [of b c "state i"] le [of b] by (simp add: binned_def)
qed (simp add: binned_def)

lemma buckets_count:
  assumes "bm_len (instances st) \<le> u32_max"
  shows "count_of b (buckets st) = binned b (bm_values (instances st))"
proof -
  have "count_of b' counts_default = 0" for b' by (cases b') (simp_all add: counts_default_def)
  then show ?thesis
    using count_of_fold [of counts_default "bm_values (instances st)" b] assms
    by (simp add: buckets_def)
qed

lemma binned_total:
  "binned BServing is + binned BClearing is + binned BIdle is + binned BLeased is
   + binned BReserved is + binned BTearingDown is + binned BReleased is = length is"
proof (induction "is")
  case (Cons i rest)
  then show ?case by (cases "census_bucket (state i)") (simp_all add: binned_def)
qed (simp add: binned_def)

lemma terminal_bucket: "census_bucket s = BReleased \<longleftrightarrow> is_terminal s"
  by (cases s) simp_all

lemma comes_back_iff: "comes_back_on_its_own b \<longleftrightarrow> b = BClearing \<or> b = BTearingDown"
  by (cases b) simp_all

lemma idle_bucket: "census_bucket s = BIdle \<longleftrightarrow> s = Idle"
  by (cases s) simp_all

lemma counts_live_exact:
  assumes "bm_len (instances st) \<le> u32_max"
    and "\<And>i. i \<in> set (bm_values (instances st)) \<Longrightarrow> \<not> is_terminal (state i)"
  shows "counts_live (buckets st) = live st"
proof -
  have "binned BReleased (bm_values (instances st)) = 0"
    using assms(2) by (auto simp: binned_def filter_empty_conv terminal_bucket)
  then have "serving c + clearing c + idle_n c + leased c + reserved_n c + tearing_down c
      = bm_len (instances st)" if "c = buckets st" for c
    using binned_total [of "bm_values (instances st)"] that
      buckets_count [OF assms(1), of BServing] buckets_count [OF assms(1), of BClearing]
      buckets_count [OF assms(1), of BIdle] buckets_count [OF assms(1), of BLeased]
      buckets_count [OF assms(1), of BReserved] buckets_count [OF assms(1), of BTearingDown]
    by simp
  with assms(1) show ?thesis
    by (simp add: counts_live_def sat_add32_def live_def u32_of_usize_def)
qed

lemma pool_inv_live_states:
  "pool_inv cfg st \<Longrightarrow> i \<in> set (bm_values (instances st)) \<Longrightarrow> \<not> is_terminal (state i)"
  by (auto simp: set_bm_values slot_ok_def dest: pool_invD(1))

lemma coming_back_pos_iff:
  assumes "bm_len (instances st) \<le> u32_max"
  shows "0 < coming_back (pressure st n) \<longleftrightarrow>
    (\<exists>s i. bm_get (instances st) s = Some i \<and> comes_back_on_its_own (census_bucket (state i)))"
proof -
  have "0 < coming_back (pressure st n) \<longleftrightarrow> 0 < clearing (buckets st) \<or> 0 < tearing_down (buckets st)"
    by (auto simp: coming_back_def pressure_def counts_coming_back_def clauses_def sat_add32_def u32_max_def)
  also have "\<dots> \<longleftrightarrow> (\<exists>i \<in> set (bm_values (instances st)). census_bucket (state i) \<in> {BClearing, BTearingDown})"
    using buckets_count [OF assms, of BClearing] buckets_count [OF assms, of BTearingDown]
    by (auto simp: binned_def length_greater_0_conv filter_empty_conv)
  also have "\<dots> \<longleftrightarrow> (\<exists>i \<in> set (bm_values (instances st)). comes_back_on_its_own (census_bucket (state i)))"
    by (simp add: comes_back_iff)
  finally show ?thesis
    by (auto simp: set_bm_values)
qed

lemma card_values:
  "length (filter P (bm_values m)) = card {k. \<exists>v. bm_get m k = Some v \<and> P v}"
proof -
  have "length (filter P (bm_values m)) = length (filter (\<lambda>k. P (the (bm_get m k))) (bm_keys m))"
    by (simp add: bm_values_keys filter_map comp_def)
  also have "\<dots> = card (set (filter (\<lambda>k. P (the (bm_get m k))) (bm_keys m)))"
    by (intro distinct_card [symmetric] distinct_filter bm.keys_distinct)
  also have "set (filter (\<lambda>k. P (the (bm_get m k))) (bm_keys m)) = {k. \<exists>v. bm_get m k = Some v \<and> P v}"
    by (auto simp: bm_contains_def)
  finally show ?thesis .
qed

text \<open>The idle sets and the idle bucket count the same instances.\<close>

lemma idle_sets_total:
  assumes inv: "pool_inv cfg st"
  shows "sum_list (map bm_len (bm_values (idle st))) = binned BIdle (bm_values (instances st))"
proof -
  let ?I = "\<lambda>c. {s. \<exists>i. bm_get (instances st) s = Some i \<and> state i = Idle \<and> inst_class i = c}"
  have fin: "finite (?I c)" for c
    by (rule finite_subset [OF _ bm.finite_dom [of "instances st"]]) auto
  have "bm_len (the (bm_get (idle st) c)) = card (?I c)" if "bm_contains (idle st) c" for c
  proof -
    have "{s. bm_contains (the (bm_get (idle st) c)) s} = ?I c"
      using pool_invD(2) [OF inv, of c] that
      by (auto simp: published_def bm_contains_def [of "idle st"])
    then show ?thesis by (simp add: bm_len_card)
  qed
  then have "sum_list (map bm_len (bm_values (idle st))) = sum_list (map (\<lambda>c. card (?I c)) (bm_keys (idle st)))"
    by (auto simp: bm_values_keys intro!: arg_cong [where f = sum_list])
  also have "\<dots> = (\<Sum>c \<in> {c. bm_contains (idle st) c}. card (?I c))"
    using sum.distinct_set_conv_list [OF bm.keys_distinct, of "\<lambda>c. card (?I c)" "idle st"] by simp
  also have "\<dots> = card (\<Union>c \<in> {c. bm_contains (idle st) c}. ?I c)"
    by (rule card_UN_disjoint [symmetric]) (auto simp: finite_bm fin)
  also have "(\<Union>c \<in> {c. bm_contains (idle st) c}. ?I c) = {s. \<exists>i. bm_get (instances st) s = Some i \<and> census_bucket (state i) = BIdle}"
    using idle_class_iff [OF inv] by (auto simp: idle_bucket)
  finally show ?thesis
    by (simp add: binned_def card_values)
qed

section \<open>A small concrete pool\<close>

text \<open>One slot, one account: the pool the witnesses run on.\<close>

definition sample_class :: instance_class where
  "sample_class = InstanceClass ''claude-haiku-4-5'' None account_default"

definition sample_cfg :: pool_config where
  "sample_cfg =
     \<lparr>pool_size = 1, recycle_turns = 50, system_prompt = ascii ''Answer.'',
      system_prompt_fingerprint = 0, instance_idle_ttl_ms = 300, turn_timeout_ms = 600,
      parent_dir = Path True [''pool''], claude_executable = Path True [''claude''],
      securestorage_dir = [], accounts = [\<lparr>acc_name = account_default, acc_pin = []\<rparr>],
      retain_dir = None, evidence_dir = None, warm_set = []\<rparr>"

definition sample_handle :: instance_handle where
  "sample_handle = \<lparr>session_id = ''s'', generation_id = ''g'', pid = Some 7, claude_version = ''2.1.0''\<rparr>"

definition sample_reserved :: pool_state where
  "sample_reserved = reserve_locked sample_cfg 0 sample_class pool_new"

lemma sample_cfg_simps [simp]:
  "pool_size sample_cfg = 1" "recycle_turns sample_cfg = 50" "system_prompt_fingerprint sample_cfg = 0"
  "instance_idle_ttl_ms sample_cfg = 300" "has_account sample_cfg (account sample_class)"
  "warm_floor sample_cfg c = 0" "parent_dir sample_cfg = Path True [''pool'']"
  by (simp_all add: sample_cfg_def has_account_def pin_for_def sample_class_def warm_floor_def)

lemma pool_inv_sample_reserved: "pool_inv sample_cfg sample_reserved"
  unfolding sample_reserved_def
  by (rule reserve_keeps_inv [OF pool_inv_new]) (simp_all, simp_all add: pool_new_def)

text \<open>The same slot, launched and published.\<close>

definition sample_idle :: pool_state where
  "sample_idle =
     (let st1 = try_transition sample_cfg 0 BeginWarm sample_reserved;
          st2 = st1\<lparr>instances := bm_modify 0 (\<lambda>i. i\<lparr>handle := Some sample_handle\<rparr>) (instances st1)\<rparr>
      in snd (publish_idle_locked sample_cfg 1000 0 WarmProven st2))"

end
