(* ===== verification/PoolOps.thy ===== *)
theory PoolOps
  imports PoolState
begin

text \<open>
  The pool's operations (\<open>Pool\<close> of \<open>src/crates/service/src/pool/mod.rs\<close>), one definition per critical
  section: each is everything the code does between taking \<open>self.state.lock()\<close> and dropping it, in
  the order of the file. How the sections are sequenced inside one call, and interleaved between
  calls, is the subject of \<open>Tasks\<close>. The host's types (\<open>src/crates/service/src/pool/host.rs\<close>) are
  here too.
\<close>

section \<open>The host's side of the seam\<close>

record mint_spec =
  ms_slot :: slot_id
  ms_epoch :: epoch
  ms_class :: instance_class
  ms_root :: path
  ms_cwd :: path
  ms_claude_executable :: path
  ms_securestorage_dir :: string
  ms_system_prompt :: utext
  ms_instance_idle_ttl_ms :: u64

record host_turn =
  ht_text :: utext
  ht_reported_model :: "string option"
  ht_stop_reason :: "stop_reason option"
  ht_usage :: usage_breakdown
  ht_sidechain_rows :: "nat option"

record host_failure =
  hf_error :: error_body
  process_may_survive :: bool

definition hf_reaped :: "error_body \<Rightarrow> host_failure" where
  "hf_reaped e = \<lparr>hf_error = e, process_may_survive = False\<rparr>"

definition hf_possibly_live :: "error_body \<Rightarrow> host_failure" where
  "hf_possibly_live e = \<lparr>hf_error = e, process_may_survive = True\<rparr>"

record clear_failure =
  cf_error :: error_body
  clear_not_submitted :: bool
  preamble_mismatch :: "string option"

record destroyed =
  process_reaped :: bool

section \<open>Requests\<close>

definition account_from_request ::
  "run_stateless_request \<Rightarrow> pool_config \<Rightarrow> error_body + account_name" where
  "account_from_request req cfg =
     bind_r
       (case req_account req of
          None \<Rightarrow> Inr account_default
        | Some raw \<Rightarrow>
            if raw = [] then Inr account_default
            else map_err (\<lambda>e.
                with_details (json_object [(''violation'', JString ''invalid_account_name'')])
                  (error_new InvalidConfig (show_account_name_error e)))
              (account_parse raw))
       (\<lambda>name.
         if has_account cfg name then Inr name
         else
           (let known = map (\<lambda>a. as_str (acc_name a)) (accounts cfg)
            in Inl (with_details (json_object
                 [(''violation'', JString ''unknown_account''),
                  (''account'', JString (as_str name)),
                  (''configured'', JArray (map JString known))])
               (error_new InvalidConfig
                 (''account '' @ debug_str (as_str name) @
                  '' is not configured on this daemon; configured accounts: '' @
                  join_with '', '' known)))))"

section \<open>The boot-time warm set\<close>

text \<open>One iteration of \<open>start\<close>'s inner loop up to the mint; \<open>None\<close> is the \<open>break\<close>.\<close>

definition warm_reserve ::
  "pool_config \<Rightarrow> instance_class \<Rightarrow> pool_state \<Rightarrow> slot_id option \<times> pool_state" where
  "warm_reserve cfg c st =
     (case free_slot st (pool_size cfg) of
        None \<Rightarrow> (None, st)
      | Some s \<Rightarrow> (Some s, reserve_locked cfg s c st))"

section \<open>Admission\<close>

datatype admission = Warm slot_id | ReservedSlot slot_id | ColdSwap slot_id

record admission_refusal =
  ar_body :: error_body
  ar_coming_back :: u32

definition final_refusal :: "error_body \<Rightarrow> admission_refusal" where
  "final_refusal b = \<lparr>ar_body = b, ar_coming_back = 0\<rparr>"

text \<open>What one admission read decided, and whether it asked for a re-warm of the class.\<close>

record admitted_read =
  adm :: admission
  rewarm_class :: "instance_class option"

text \<open>Rule 3's victim: the least recently idle of every class's least recently idle.\<close>

definition cold_swap_victim :: "pool_state \<Rightarrow> slot_id option" where
  "cold_swap_victim st =
     min_by_key (idle_since st) (List.map_filter (lru_of st) (bm_keys (idle st)))"

definition admit_once ::
  "pool_config \<Rightarrow> instance_class \<Rightarrow> u64 \<Rightarrow> bool \<Rightarrow> pool_state
     \<Rightarrow> (admission_refusal + admitted_read) \<times> pool_state" where
  "admit_once cfg c waited_ms may_wait_longer st =
     (if shutting_down st then (Inl (final_refusal daemon_shutting_down), st)
      else case halted st of
        Some violation \<Rightarrow> (Inl (final_refusal (pool_halted violation)), st)
      | None \<Rightarrow>
          (case lru_of st c of
             Some s \<Rightarrow>
               (case transition_or_internal cfg s CheckOut st of
                  Inl e \<Rightarrow> (Inl (final_refusal e), st)
                | Inr st1 \<Rightarrow>
                    (let should_rewarm = \<not> bm_contains (idle st1) c
                           \<and> live st1 < capacity st1 (pool_size cfg)
                           \<and> \<not> bm_contains (rewarming st1) c
                     in (Inr \<lparr>adm = Warm s, rewarm_class = (if should_rewarm then Some c else None)\<rparr>,
                         if should_rewarm then st1\<lparr>rewarming := bs_insert c (rewarming st1)\<rparr> else st1)))
           | None \<Rightarrow>
               (case (if live st < capacity st (pool_size cfg) then free_slot st (pool_size cfg)
                      else None) of
                  Some s \<Rightarrow> (Inr \<lparr>adm = ReservedSlot s, rewarm_class = None\<rparr>, reserve_locked cfg s c st)
                | None \<Rightarrow>
                    (let p = pressure st (pool_size cfg);
                         defer_cold_swap = may_wait_longer \<and> coming_back p > 0
                     in case (if defer_cold_swap then None else cold_swap_victim st) of
                          Some s \<Rightarrow>
                            (case transition_or_internal cfg s ColdSwapVictim st of
                               Inl e \<Rightarrow> (Inl (final_refusal e), st)
                             | Inr st1 \<Rightarrow> (Inr \<lparr>adm = ColdSwap s, rewarm_class = None\<rparr>, st1))
                        | None \<Rightarrow>
                            (Inl \<lparr>ar_body = pool_exhausted p c waited_ms,
                               ar_coming_back = coming_back p\<rparr>, st)))))"

text \<open>
  One pass of \<open>admit\<close>'s loop. Durations are nanoseconds: \<open>waited\<close> is \<open>started.elapsed()\<close>, \<open>now\<close>
  the pool's clock in milliseconds. The pass returns, or names how long it sleeps.
\<close>

definition NS_PER_MS :: nat where
  "NS_PER_MS = 1000000"

definition millis_of :: "nat \<Rightarrow> u64" where
  "millis_of d = min (d div NS_PER_MS) u64_max"

record admitted =
  admission_of :: admitted_read
  waited_ms :: u64

datatype admit_outcome =
  AdmitReturn "error_body + admitted" | AdmitSleep nat

definition admit_budget :: "u64 \<Rightarrow> nat \<Rightarrow> u64 \<Rightarrow> nat option" where
  "admit_budget deadline_ms waited now =
     (let ceiling = ADMISSION_WAIT_CEILING_MS * NS_PER_MS
      in if waited > ceiling then None
         else (let b = min (ceiling - waited) (sat_sub deadline_ms now * NS_PER_MS)
               in if b = 0 then None else Some b))"

definition admit_pass ::
  "pool_config \<Rightarrow> instance_class \<Rightarrow> u64 \<Rightarrow> nat \<Rightarrow> u64 \<Rightarrow> pool_state
     \<Rightarrow> admit_outcome \<times> pool_state" where
  "admit_pass cfg c deadline_ms waited now st =
     (let budget = admit_budget deadline_ms waited now
      in case admit_once cfg c (millis_of waited) (budget \<noteq> None) st of
           (Inr a, st') \<Rightarrow> (AdmitReturn (Inr \<lparr>admission_of = a, waited_ms = millis_of waited\<rparr>), st')
         | (Inl r, st') \<Rightarrow>
             (case (if ar_coming_back r > 0 then budget else None) of
                None \<Rightarrow> (AdmitReturn (Inl (ar_body r)), st')
              | Some b \<Rightarrow> (AdmitSleep (min b (ADMISSION_POLL_MS * NS_PER_MS)), st')))"

text \<open>
  The loop over what its passes see: each observation is the elapsed time, the clock, and the
  effect other tasks had on the pool since the previous pass. \<open>None\<close> when the observations run
  out while it is still asleep.
\<close>

fun admit_loop ::
  "pool_config \<Rightarrow> instance_class \<Rightarrow> u64 \<Rightarrow> (nat \<times> u64 \<times> (pool_state \<Rightarrow> pool_state)) list \<Rightarrow> pool_state
     \<Rightarrow> ((error_body + admitted) \<times> pool_state) option" where
  "admit_loop cfg c deadline_ms [] st = None"
| "admit_loop cfg c deadline_ms ((waited, now, others) # obs) st =
     (case admit_pass cfg c deadline_ms waited now (others st) of
        (AdmitReturn r, st') \<Rightarrow> Some (r, st')
      | (AdmitSleep _, st') \<Rightarrow> admit_loop cfg c deadline_ms obs st')"

definition reclaim ::
  "pool_config \<Rightarrow> slot_id \<Rightarrow> instance_class \<Rightarrow> u64 \<Rightarrow> pool_state \<Rightarrow> error_body + pool_state" where
  "reclaim cfg s c waited st =
     (if bm_contains (instances st) s then Inl (internal ''a reclaimed slot was still occupied'')
      else if bm_contains (leaked_slots st) s then
        Inl (reclaimed_slot_leaked (pressure st (pool_size cfg)) c waited)
      else Inr (reserve_locked cfg s c st))"

section \<open>Minting\<close>

text \<open>
  \<open>mint\<close>'s first critical section. \<open>None\<close> is the panic of
  \<open>pin_for(...).expect("every live class account was admitted at boot")\<close>.
\<close>

definition mint_begin ::
  "pool_config \<Rightarrow> slot_id \<Rightarrow> pool_state
     \<Rightarrow> (error_body + (mint_spec \<times> slot_paths \<times> pool_state)) option" where
  "mint_begin cfg s st =
     (case transition_or_internal cfg s BeginWarm st of
        Inl e \<Rightarrow> Some (Inl e)
      | Inr st' \<Rightarrow>
          (case bm_get (instances st') s of
             None \<Rightarrow> None
           | Some i \<Rightarrow>
               (case pin_for cfg (account (inst_class i)) of
                  None \<Rightarrow> None
                | Some pin \<Rightarrow>
                    Some (Inr
                      (\<lparr>ms_slot = s, ms_epoch = epoch i, ms_class = inst_class i,
                        ms_root = root (paths i), ms_cwd = cwd (paths i),
                        ms_claude_executable = claude_executable cfg,
                        ms_securestorage_dir = pin, ms_system_prompt = system_prompt cfg,
                        ms_instance_idle_ttl_ms = instance_idle_ttl_ms cfg\<rparr>,
                       paths i, st')))))"

text \<open>The second section: the reservation for the launch itself.\<close>

definition mint_mark :: "slot_id \<Rightarrow> pool_state \<Rightarrow> error_body + pool_state" where
  "mint_mark s st =
     (case bm_get (instances st) s of
        None \<Rightarrow> Inl (internal ''a launching slot was released before its mint began'')
      | Some i \<Rightarrow>
          Inr (st\<lparr>instances := bm_insert s (i\<lparr>mint_in_flight := True\<rparr>) (instances st)\<rparr>))"

text \<open>The third, on a launch that answered; \<open>None\<close> when the slot was torn down meanwhile.\<close>

definition mint_done :: "slot_id \<Rightarrow> instance_handle \<Rightarrow> pool_state \<Rightarrow> pool_state option" where
  "mint_done s h st =
     (case bm_get (instances st) s of
        None \<Rightarrow> None
      | Some i \<Rightarrow>
          Some (st\<lparr>instances :=
            bm_insert s (i\<lparr>handle := Some h, mint_in_flight := False\<rparr>) (instances st)\<rparr>))"

definition orphaned_mint :: error_body where
  "orphaned_mint = internal ''a launching slot was torn down before its mint returned''"

definition abandon_mint_locked :: "pool_config \<Rightarrow> slot_id \<Rightarrow> pool_state \<Rightarrow> pool_state" where
  "abandon_mint_locked cfg s st =
     (let st' = try_transition cfg s MintFailed st
      in st'\<lparr>instances := bm_modify s (\<lambda>i. i\<lparr>mint_in_flight := False\<rparr>) (instances st')\<rparr>)"

definition idle_held :: "pool_state \<Rightarrow> instance_class \<Rightarrow> u32" where
  "idle_held st c = (case bm_get (idle st) c of None \<Rightarrow> 0 | Some m \<Rightarrow> u32_of_usize (bm_len m))"

definition remint_if_below_floor ::
  "pool_config \<Rightarrow> instance_class \<Rightarrow> pool_state \<Rightarrow> bool \<times> pool_state" where
  "remint_if_below_floor cfg c st =
     (if idle_held st c < warm_floor cfg c \<and> \<not> bm_contains (rewarming st) c
      then (True, st\<lparr>rewarming := bs_insert c (rewarming st)\<rparr>)
      else (False, st))"

text \<open>The reservation a spawned re-warm makes, and the entry it removes when it is over.\<close>

definition rewarm_reserve ::
  "pool_config \<Rightarrow> instance_class \<Rightarrow> pool_state \<Rightarrow> slot_id option \<times> pool_state" where
  "rewarm_reserve cfg c st =
     (case (if \<not> shutting_down st \<and> halted st = None then free_slot st (pool_size cfg) else None) of
        Some s \<Rightarrow>
          if live st < capacity st (pool_size cfg) then (Some s, reserve_locked cfg s c st)
          else (None, st)
      | None \<Rightarrow> (None, st))"

definition rewarm_done :: "instance_class \<Rightarrow> pool_state \<Rightarrow> pool_state" where
  "rewarm_done c st = st\<lparr>rewarming := bm_remove c (rewarming st)\<rparr>"

section \<open>Publication\<close>

definition AFTER_WARM :: "transition list" where
  "AFTER_WARM = [MintFailed]"

definition AFTER_CLEAR :: "transition list" where
  "AFTER_CLEAR = [ClearFailedIncoherent, BeginDestroy]"

definition abandon_unpublishable_locked ::
  "pool_config \<Rightarrow> slot_id \<Rightarrow> transition list \<Rightarrow> pool_state \<Rightarrow> pool_state" where
  "abandon_unpublishable_locked cfg s teardown st =
     fold (\<lambda>t st. try_transition cfg s t st) teardown st"

text \<open>
  \<open>publish_idle_and_check_out\<close> under its one lock: \<open>None\<close> when the instance could not be published
  and has to be abandoned.
\<close>

definition publish_idle_and_check_out ::
  "pool_config \<Rightarrow> u64 \<Rightarrow> slot_id \<Rightarrow> pool_state \<Rightarrow> (error_body + slot_id) option \<times> pool_state" where
  "publish_idle_and_check_out cfg now s st =
     (case publish_idle_locked cfg now s WarmProven st of
        (False, st') \<Rightarrow> (None, st')
      | (True, st') \<Rightarrow>
          (case transition_or_internal cfg s CheckOut st' of
             Inl e \<Rightarrow> (Some (Inl e), st')
           | Inr st'' \<Rightarrow> (Some (Inr s), st'')))"

definition unpublishable :: error_body where
  "unpublishable = internal ''a freshly proven instance could not enter the idle set''"

section \<open>Turn completion\<close>

text \<open>The sidechain guard both commits open with.\<close>

definition sidechain_guard :: "host_turn \<Rightarrow> error_body + unit" where
  "sidechain_guard turn =
     (case ht_sidechain_rows turn of
        None \<Rightarrow> Inl sidechain_rows_not_counted
      | Some rows \<Rightarrow>
          if rows > 0 \<or> sidechain (ht_usage turn) \<noteq> token_usage_default
          then Inl (sidechain_on_toolless_cell rows)
          else Inr ())"

definition turn_result ::
  "instance_class \<Rightarrow> resolved_model_effort \<Rightarrow> host_turn \<Rightarrow> string \<Rightarrow> stateless_result" where
  "turn_result c resolved turn version =
     \<lparr>res_model = canonical_model c, res_reported_model = ht_reported_model turn,
      res_effort = r_effort_level resolved, res_text = ht_text turn,
      res_stop_reason = ht_stop_reason turn, res_usage = ht_usage turn,
      res_claude_version = version\<rparr>"

definition handle_of :: "slot_id \<Rightarrow> pool_state \<Rightarrow> instance_handle option" where
  "handle_of s st = Option.bind (bm_get (instances st) s) handle"

text \<open>
  \<open>commit\<close>'s critical section: two transitions, the second attempted only if the first held. A
  failure of the second leaves the first in place, as the \<open>?\<close> does.
\<close>

definition commit_locked :: "pool_config \<Rightarrow> slot_id \<Rightarrow> pool_state \<Rightarrow> (error_body + unit) \<times> pool_state" where
  "commit_locked cfg s st =
     (case transition_or_internal cfg s TurnCommitted st of
        Inl e \<Rightarrow> (Inl e, st)
      | Inr st1 \<Rightarrow>
          (case transition_or_internal cfg s ResponseDelivered st1 of
             Inl e \<Rightarrow> (Inl e, st1)
           | Inr st2 \<Rightarrow> (Inr (), st2)))"

definition cell_token :: "pool_instance \<Rightarrow> string" where
  "cell_token i = ''s'' @ to_string (slot i) @ ''e'' @ to_string (epoch i)"

definition sticky_read :: "slot_id \<Rightarrow> pool_state \<Rightarrow> error_body + (string \<times> string)" where
  "sticky_read s st =
     (case bm_get (instances st) s of
        None \<Rightarrow> Inl (internal ''a committed sticky turn lost its instance'')
      | Some i \<Rightarrow>
          (case handle i of
             None \<Rightarrow> Inl (internal ''a committed sticky turn lost its process handle'')
           | Some h \<Rightarrow> Inr (claude_version h, cell_token i)))"

text \<open>\<open>Inr True\<close>: the pool is shutting down and the instance was drained, so it is destroyed next.\<close>

definition commit_sticky_locked ::
  "pool_config \<Rightarrow> u64 \<Rightarrow> slot_id \<Rightarrow> string \<Rightarrow> pool_state \<Rightarrow> (error_body + bool) \<times> pool_state" where
  "commit_sticky_locked cfg now s conv st =
     (case transition_or_internal cfg s TurnCommitted st of
        Inl e \<Rightarrow> (Inl e, st)
      | Inr st1 \<Rightarrow>
          if shutting_down st1 then
            (case transition_or_internal cfg s ResponseDelivered st1 of
               Inl e \<Rightarrow> (Inl e, st1)
             | Inr st2 \<Rightarrow>
                 (case transition_or_internal cfg s ShutdownDrain st2 of
                    Inl e \<Rightarrow> (Inl e, st2)
                  | Inr st3 \<Rightarrow> (Inr True, st3)))
          else
            (let st2 = st1\<lparr>instances :=
                   bm_modify s (\<lambda>i. i\<lparr>conversation_id := Some conv\<rparr>) (instances st1)\<rparr>
             in case transition_or_internal cfg s LeaseHeld st2 of
                  Inl e \<Rightarrow> (Inl e, st2)
                | Inr st3 \<Rightarrow>
                    (Inr False, st3\<lparr>instances :=
                       bm_modify s (\<lambda>i. i\<lparr>idle_since_ms := now\<rparr>) (instances st3)\<rparr>)))"

section \<open>The clear between turns\<close>

definition clear_transition_read :: "pool_config \<Rightarrow> slot_id \<Rightarrow> pool_state \<Rightarrow> transition option" where
  "clear_transition_read cfg s st =
     map_option (\<lambda>i. clear_success_transition (turns_started i) (recycle_turns cfg))
       (bm_get (instances st) s)"

definition recycle_locked ::
  "pool_config \<Rightarrow> slot_id \<Rightarrow> pool_state \<Rightarrow> instance_class option \<times> pool_state" where
  "recycle_locked cfg s st =
     (map_option inst_class (bm_get (instances st) s), try_transition cfg s RecycleDue st)"

definition clear_failed_transition :: "clear_failure \<Rightarrow> transition" where
  "clear_failed_transition f =
     (if clear_not_submitted f \<and> preamble_mismatch f = None then ClearFailedCoherent
      else ClearFailedIncoherent)"

definition clear_failed_locked ::
  "pool_config \<Rightarrow> slot_id \<Rightarrow> clear_failure \<Rightarrow> pool_state \<Rightarrow> pool_state" where
  "clear_failed_locked cfg s f st =
     (let t = clear_failed_transition f; st' = try_transition cfg s t st
      in if t = ClearFailedIncoherent then try_transition cfg s BeginDestroy st' else st')"

definition quarantine_locked :: "pool_config \<Rightarrow> slot_id \<Rightarrow> pool_state \<Rightarrow> pool_state" where
  "quarantine_locked cfg s st =
     try_transition cfg s BeginDestroy (try_transition cfg s TurnNotDelivered st)"

section \<open>Teardown\<close>

record teardown_read =
  td_handle :: "instance_handle option"
  td_mint_in_flight :: bool
  td_paths :: slot_paths
  td_quarantined :: bool

definition destroy_read :: "slot_id \<Rightarrow> pool_state \<Rightarrow> teardown_read option" where
  "destroy_read s st =
     map_option (\<lambda>i. \<lparr>td_handle = handle i, td_mint_in_flight = mint_in_flight i,
         td_paths = paths i, td_quarantined = was_quarantined i\<rparr>)
       (bm_get (instances st) s)"

text \<open>
  Why the process was not proven reaped, if it was not: \<open>answer\<close> is the host's reply to
  \<open>destroy\<close>, asked only when there is a handle.
\<close>

definition unreaped :: "teardown_read \<Rightarrow> host_failure + destroyed \<Rightarrow> string option" where
  "unreaped r answer =
     (case td_handle r of
        Some _ \<Rightarrow>
          (if (case answer of Inl _ \<Rightarrow> False | Inr d \<Rightarrow> process_reaped d) then None
           else Some ''close_without_confirmed_reaping'')
      | None \<Rightarrow>
          if td_mint_in_flight r then Some ''destroyed_while_a_launch_was_in_flight'' else None)"

definition retain_for :: "pool_config \<Rightarrow> teardown_read \<Rightarrow> path option" where
  "retain_for cfg r = (if td_quarantined r then retain_dir cfg else None)"

definition release_locked :: "pool_config \<Rightarrow> slot_id \<Rightarrow> pool_state \<Rightarrow> pool_state" where
  "release_locked cfg s st =
     (case transition_locked cfg s Reaped st of
        Inl _ \<Rightarrow> st
      | Inr (_, st') \<Rightarrow> st'\<lparr>instances := bm_remove s (instances st')\<rparr>)"

definition leak :: "pool_config \<Rightarrow> slot_id \<Rightarrow> pool_state \<Rightarrow> pool_state" where
  "leak cfg s st =
     (let st' = try_transition cfg s ReapFailed st
      in case bm_get (instances st') s of
           None \<Rightarrow> st'
         | Some _ \<Rightarrow>
             st'\<lparr>instances := bm_remove s (instances st'),
                 leaked_slots := bs_insert s (leaked_slots st')\<rparr>)"

definition halt :: "string \<Rightarrow> pool_state \<Rightarrow> pool_state" where
  "halt violation st = (if halted st = None then st\<lparr>halted := Some violation\<rparr> else st)"

section \<open>Conversations\<close>

text \<open>
  \<open>str::trim().is_empty()\<close>: every character is White_Space. Strings are UTF-8 byte strings, so the
  non-ASCII members are matched as their encodings: U+0085, U+00A0, U+1680, U+2000 to U+200A,
  U+2028, U+2029, U+202F, U+205F and U+3000.
\<close>

definition ws2 :: "nat \<Rightarrow> nat \<Rightarrow> bool" where
  "ws2 a b \<longleftrightarrow> a = 194 \<and> (b = 133 \<or> b = 160)"

definition ws3 :: "nat \<Rightarrow> nat \<Rightarrow> nat \<Rightarrow> bool" where
  "ws3 a b c \<longleftrightarrow>
     a = 225 \<and> b = 154 \<and> c = 128
     \<or> a = 226 \<and> b = 128 \<and> (128 \<le> c \<and> c \<le> 138 \<or> c = 168 \<or> c = 169 \<or> c = 175)
     \<or> a = 226 \<and> b = 129 \<and> c = 159
     \<or> a = 227 \<and> b = 128 \<and> c = 128"

fun blank_bytes :: "nat list \<Rightarrow> bool" where
  "blank_bytes [] = True"
| "blank_bytes (a # rest) =
     (if (9 \<le> a \<and> a \<le> 13) \<or> a = 32 then blank_bytes rest
      else case rest of
        b # rest2 \<Rightarrow>
          if ws2 a b then blank_bytes rest2
          else (case rest2 of
                  c # rest3 \<Rightarrow> ws3 a b c \<and> blank_bytes rest3
                | [] \<Rightarrow> False)
      | [] \<Rightarrow> False)"

definition is_blank :: "string \<Rightarrow> bool" where
  "is_blank s = blank_bytes (map of_char s)"

definition turn_in_flight :: error_body where
  "turn_in_flight = with_retryable True (error_new SessionBusy
     ''this conversation already has a turn in flight; nothing is queued'')"

definition holds_turn_or_lease :: "instance_state \<Rightarrow> bool" where
  "holds_turn_or_lease s \<longleftrightarrow> s = Leased \<or> s = CheckedOut \<or> s = Delivering"

text \<open>\<open>Inr (Some s)\<close>: the lease ended and slot \<open>s\<close> is to be cleared.\<close>

definition release_conversation ::
  "pool_config \<Rightarrow> string \<Rightarrow> pool_state \<Rightarrow> (error_body + slot_id option) \<times> pool_state" where
  "release_conversation cfg conv st =
     (if bm_contains (pending_leases st) conv then (Inl turn_in_flight, st)
      else case find (\<lambda>(s, i). conversation_id i = Some conv) (entries (instances st)) of
        None \<Rightarrow> (Inr None, st)
      | Some (s, i) \<Rightarrow>
          (case state i of
             CheckedOut \<Rightarrow> (Inl turn_in_flight, st)
           | Delivering \<Rightarrow> (Inl turn_in_flight, st)
           | Leased \<Rightarrow>
               (case transition_or_internal cfg s ReleaseLease st of
                  Inl e \<Rightarrow> (Inl e, st)
                | Inr st' \<Rightarrow> (Inr (Some s), st'))
           | _ \<Rightarrow> (Inr None, st)))"

definition claim_begin :: "string \<Rightarrow> pool_state \<Rightarrow> error_body + pool_state" where
  "claim_begin conv st =
     (if bm_contains (pending_leases st) conv
         \<or> list_ex (\<lambda>i. conversation_id i = Some conv \<and> holds_turn_or_lease (state i))
             (bm_values (instances st))
      then Inl (with_retryable True (error_new SessionBusy
             (''conversation '' @ conv @ '' already holds a pool instance'')))
      else Inr (st\<lparr>pending_leases := bs_insert conv (pending_leases st)\<rparr>))"

definition claim_cancel :: "string \<Rightarrow> pool_state \<Rightarrow> pool_state" where
  "claim_cancel conv st = st\<lparr>pending_leases := bm_remove conv (pending_leases st)\<rparr>"

definition claim_bind :: "string \<Rightarrow> slot_id \<Rightarrow> pool_state \<Rightarrow> pool_state" where
  "claim_bind conv s st =
     st\<lparr>pending_leases := bm_remove conv (pending_leases st),
        instances := bm_modify s (\<lambda>i. i\<lparr>conversation_id := Some conv\<rparr>) (instances st)\<rparr>"

definition resume_lease ::
  "pool_config \<Rightarrow> string \<Rightarrow> instance_class \<Rightarrow> pool_state \<Rightarrow> error_body + (slot_id \<times> pool_state)" where
  "resume_lease cfg conv c st =
     (if bm_contains (pending_leases st) conv then Inl turn_in_flight
      else case find (\<lambda>(s, i). conversation_id i = Some conv \<and> holds_turn_or_lease (state i))
                  (entries (instances st)) of
        None \<Rightarrow> Inl (error_new SessionNotFound
                  ''this conversation has no leased instance; send the full primer'')
      | Some (s, i) \<Rightarrow>
          (case state i of
             CheckedOut \<Rightarrow> Inl turn_in_flight
           | Delivering \<Rightarrow> Inl turn_in_flight
           | Leased \<Rightarrow>
               if inst_class i \<noteq> c then
                 Inl (error_new InvalidConfig
                   (''conversation '' @ conv @ '' is leased on '' @ show_class (inst_class i) @
                    '', not '' @ show_class c @ ''; release it first''))
               else bind_r (transition_or_internal cfg s ResumeLease st) (\<lambda>st'. Inr (s, st'))
           | other \<Rightarrow>
               Inl (internal (''conversation '' @ conv @ '' is bound to slot '' @ to_string s @
                 '' in state '' @ show_state other))))"

definition touch_conversation :: "u64 \<Rightarrow> string \<Rightarrow> pool_state \<Rightarrow> bool \<times> pool_state" where
  "touch_conversation now conv st =
     (case find (\<lambda>(s, i). conversation_id i = Some conv \<and> state i = Leased)
             (entries (instances st)) of
        None \<Rightarrow> (False, st)
      | Some (s, i) \<Rightarrow>
          (True, st\<lparr>instances := bm_insert s (i\<lparr>idle_since_ms := now\<rparr>) (instances st)\<rparr>))"

definition protect_conversation :: "string \<Rightarrow> pool_state \<Rightarrow> pool_state" where
  "protect_conversation conv st =
     (if is_blank conv then st
      else st\<lparr>protected_leases := bs_insert conv (protected_leases st)\<rparr>)"

definition unprotect_conversation :: "string \<Rightarrow> pool_state \<Rightarrow> pool_state" where
  "unprotect_conversation conv st = st\<lparr>protected_leases := bm_remove conv (protected_leases st)\<rparr>"

section \<open>The sweep\<close>

definition expired_idle :: "pool_config \<Rightarrow> u64 \<Rightarrow> slot_id \<Rightarrow> pool_state \<Rightarrow> bool" where
  "expired_idle cfg now s st =
     (case bm_get (instances st) s of
        None \<Rightarrow> False
      | Some i \<Rightarrow> instance_idle_ttl_ms cfg \<le> sat_sub now (idle_since_ms i))"

definition idle_slots :: "pool_state \<Rightarrow> slot_id set" where
  "idle_slots st = {s. \<exists>i. bm_get (instances st) s = Some i \<and> state i = Idle}"

lemma finite_idle_slots: "finite (idle_slots st)"
  by (rule finite_subset [OF _ bm.finite_dom [of "instances st"]]) (auto simp: idle_slots_def)

lemma idle_slots_IdleExpired:
  assumes "transition_locked cfg s IdleExpired st = Inr (n, st')"
  shows "idle_slots st' = idle_slots st - {s}" "s \<in> idle_slots st"
  using assms by (auto simp: transition_locked_Inr idle_slots_def step_edges EDGES_def
      split: if_splits)

function sweep_class ::
  "pool_config \<Rightarrow> u64 \<Rightarrow> instance_class \<Rightarrow> pool_state \<Rightarrow> slot_id list \<times> pool_state" where
  "sweep_class cfg now c st =
     (if idle_held st c \<le> warm_floor cfg c then ([], st)
      else case lru_of st c of
        None \<Rightarrow> ([], st)
      | Some s \<Rightarrow>
          if \<not> expired_idle cfg now s st then ([], st)
          else case transition_locked cfg s IdleExpired st of
            Inl _ \<Rightarrow> ([], st)
          | Inr r \<Rightarrow>
              (case sweep_class cfg now c (snd r) of (victims, st'') \<Rightarrow> (s # victims, st'')))"
  by pat_completeness auto

termination
proof (relation "measure (\<lambda>(cfg, now, c, st). card (idle_slots st))", goal_cases)
  case (2 cfg now c st s r)
  then have "idle_slots (snd r) = idle_slots st - {s}" "s \<in> idle_slots st"
    using idle_slots_IdleExpired [of cfg s st "fst r" "snd r"] by simp_all
  then show ?case
    using card_Diff1_less [OF finite_idle_slots] by simp
qed simp

declare sweep_class.simps [simp del]

definition sweep_step ::
  "pool_config \<Rightarrow> u64 \<Rightarrow> instance_class \<Rightarrow> slot_id list \<times> pool_state \<Rightarrow> slot_id list \<times> pool_state" where
  "sweep_step cfg now c = (\<lambda>(vs, st). case sweep_class cfg now c st of (vs', st') \<Rightarrow> (vs @ vs', st'))"

definition sweep_idle_locked ::
  "pool_config \<Rightarrow> u64 \<Rightarrow> pool_state \<Rightarrow> slot_id list \<times> pool_state" where
  "sweep_idle_locked cfg now st = fold (sweep_step cfg now) (bm_keys (idle st)) ([], st)"

definition lease_due :: "pool_config \<Rightarrow> u64 \<Rightarrow> slot_id \<Rightarrow> pool_state \<Rightarrow> bool" where
  "lease_due cfg now s st =
     (case bm_get (instances st) s of
        None \<Rightarrow> False
      | Some i \<Rightarrow>
          state i = Leased \<and> instance_idle_ttl_ms cfg \<le> sat_sub now (idle_since_ms i)
          \<and> \<not> (case conversation_id i of
                 None \<Rightarrow> False | Some conv \<Rightarrow> bm_contains (protected_leases st) conv))"

definition sweep_lease_step ::
  "pool_config \<Rightarrow> u64 \<Rightarrow> slot_id \<Rightarrow> slot_id list \<times> pool_state \<Rightarrow> slot_id list \<times> pool_state" where
  "sweep_lease_step cfg now s = (\<lambda>(expired, st).
     if lease_due cfg now s st then
       (case transition_locked cfg s ReleaseLease st of
          Inl _ \<Rightarrow> (expired, st)
        | Inr (_, st') \<Rightarrow> (expired @ [s], st'))
     else (expired, st))"

definition sweep_leases_locked ::
  "pool_config \<Rightarrow> u64 \<Rightarrow> pool_state \<Rightarrow> slot_id list \<times> pool_state" where
  "sweep_leases_locked cfg now st = fold (sweep_lease_step cfg now) (bm_keys (instances st)) ([], st)"

section \<open>Shutdown\<close>

definition shutdown_slot ::
  "pool_config \<Rightarrow> slot_id \<Rightarrow> slot_id list \<times> pool_state \<Rightarrow> slot_id list \<times> pool_state" where
  "shutdown_slot cfg s = (\<lambda>(victims, st).
     case bm_get (instances st) s of
       None \<Rightarrow> (victims, st)
     | Some i \<Rightarrow>
         (case shutdown_action (state i) of
            Drain t \<Rightarrow>
              (case transition_locked cfg s t st of
                 Inl _ \<Rightarrow> (victims, st)
               | Inr (_, st') \<Rightarrow> (victims @ [s], st'))
          | Finish \<Rightarrow> (victims @ [s], st)
          | Keep \<Rightarrow> (victims, st)))"

definition shutdown_locked :: "pool_config \<Rightarrow> pool_state \<Rightarrow> slot_id list \<times> pool_state" where
  "shutdown_locked cfg st =
     fold (shutdown_slot cfg) (bm_keys (instances st)) ([], st\<lparr>shutting_down := True\<rparr>)"

section \<open>Reports\<close>

record pool_census =
  pc_live :: u32
  pc_idle :: u32
  pc_in_flight :: u32
  pc_clearing :: u32
  pc_leased :: u32
  pc_reserved :: u32
  pc_tearing_down :: u32
  pc_leaked :: u32
  pc_capacity :: u32
  pc_halted :: "string option"

definition census :: "pool_config \<Rightarrow> pool_state \<Rightarrow> pool_census" where
  "census cfg st =
     (let c = buckets st
      in \<lparr>pc_live = live st, pc_idle = idle_count st, pc_in_flight = serving c,
          pc_clearing = clearing c, pc_leased = leased c, pc_reserved = reserved_n c,
          pc_tearing_down = tearing_down c, pc_leaked = u32_of_usize (bm_len (leaked_slots st)),
          pc_capacity = capacity st (pool_size cfg), pc_halted = halted st\<rparr>)"

record conversation_lease =
  cl_conversation_id :: string
  cl_cell :: string
  cl_state :: string

definition lease_row :: "pool_instance \<Rightarrow> conversation_lease option" where
  "lease_row i =
     (case conversation_id i of
        None \<Rightarrow> None
      | Some conv \<Rightarrow>
          if holds_turn_or_lease (state i)
          then Some \<lparr>cl_conversation_id = conv, cl_cell = cell_token i, cl_state = show_state (state i)\<rparr>
          else None)"

definition conversation_leases :: "pool_state \<Rightarrow> conversation_lease list" where
  "conversation_leases st =
     sort_key cl_cell (List.map_filter lease_row (bm_values (instances st)))"

end
