(* ===== verification/PoolSafety.thy ===== *)
theory PoolSafety
  imports PoolOps
begin

text \<open>
  What the pool's critical sections guarantee, one by one: each keeps \<open>pool_inv\<close>, and admission,
  the sweep, leases and the census do what their rules say.
\<close>

section \<open>Every critical section keeps the invariant\<close>

lemma transition_or_internal_Inr:
  "transition_or_internal cfg s t st = Inr st' \<longleftrightarrow> (\<exists>n. transition_locked cfg s t st = Inr (n, st'))"
  by (auto simp: transition_or_internal_def split: sum.splits prod.splits)

lemma transition_or_internal_keeps_inv:
  assumes "pool_inv cfg st" "t \<notin> {WarmProven, ClearProven, Reaped, ReapFailed}"
    "transition_or_internal cfg s t st = Inr st'"
  shows "pool_inv cfg st'"
  using try_transition_keeps_inv [OF assms(1,2), of s] assms(3)
  by (auto simp: transition_or_internal_Inr try_transition_def)

lemma cold_swap_victim_Some:
  assumes inv: "pool_inv cfg st" and "cold_swap_victim st = Some s"
  obtains c i where "lru_of st c = Some s" "bm_get (instances st) s = Some i" "state i = Idle"
    "inst_class i = c"
proof -
  from assms(2) have "s \<in> set (List.map_filter (lru_of st) (bm_keys (idle st)))"
    unfolding cold_swap_victim_def by (rule min_by_key_mem)
  then obtain c where "lru_of st c = Some s"
    by (auto simp: map_filter_def)
  then show ?thesis
    using lru_of_Idle [OF inv] that by metis
qed

lemma cold_swap_victim_None:
  assumes inv: "pool_inv cfg st"
  shows "cold_swap_victim st = None \<longleftrightarrow> idle_slots st = {}"
proof -
  have "cold_swap_victim st = None \<longleftrightarrow> (\<forall>c. bm_contains (idle st) c \<longrightarrow> lru_of st c = None)"
    by (auto simp: cold_swap_victim_def map_filter_def filter_empty_conv)
  also have "\<dots> \<longleftrightarrow> (\<forall>c. \<not> bm_contains (idle st) c)"
    using lru_of_None [OF inv] by (auto simp: bm_contains_def)
  finally show ?thesis
    using idle_class_iff [OF inv] by (auto simp: idle_slots_def)
qed

lemma admit_once_keeps_inv:
  assumes inv: "pool_inv cfg st" and acc: "has_account cfg (account c)"
  shows "pool_inv cfg (snd (admit_once cfg c w m st))"
proof -
  have res: "free_slot st (pool_size cfg) = Some s \<Longrightarrow> pool_inv cfg (reserve_locked cfg s c st)" for s
    using free_slot_Some [of st "pool_size cfg" s] reserve_keeps_inv [OF inv _ _ _ acc] by blast
  have tr: "transition_or_internal cfg s t st = Inr st' \<Longrightarrow> t \<in> {CheckOut, ColdSwapVictim} \<Longrightarrow>
      pool_inv cfg st'" for s t st'
    using transition_or_internal_keeps_inv [OF inv] by blast
  show ?thesis
    by (auto simp: admit_once_def Let_def inv res tr split: option.split sum.split if_split)
qed

lemma admit_pass_keeps_inv:
  "pool_inv cfg st \<Longrightarrow> has_account cfg (account c) \<Longrightarrow>
   pool_inv cfg (snd (admit_pass cfg c d w now st))"
  using admit_once_keeps_inv [of cfg st c "millis_of w" "admit_budget d w now \<noteq> None"]
  by (auto simp: admit_pass_def Let_def split: prod.splits sum.splits option.split)

lemma reclaim_keeps_inv:
  "pool_inv cfg st \<Longrightarrow> has_account cfg (account c) \<Longrightarrow> s < pool_size cfg \<Longrightarrow>
   reclaim cfg s c w st = Inr st' \<Longrightarrow> pool_inv cfg st'"
  using reserve_keeps_inv [of cfg st s c] by (auto simp: reclaim_def split: if_splits)

lemma warm_reserve_keeps_inv:
  "pool_inv cfg st \<Longrightarrow> has_account cfg (account c) \<Longrightarrow> pool_inv cfg (snd (warm_reserve cfg c st))"
  using free_slot_Some [of st "pool_size cfg"] reserve_keeps_inv [of cfg st _ c]
  by (auto simp: warm_reserve_def split: option.split)

lemma rewarm_reserve_keeps_inv:
  "pool_inv cfg st \<Longrightarrow> has_account cfg (account c) \<Longrightarrow> pool_inv cfg (snd (rewarm_reserve cfg c st))"
  using free_slot_Some [of st "pool_size cfg"] reserve_keeps_inv [of cfg st _ c]
  by (auto simp: rewarm_reserve_def split: option.split)

lemma mint_begin_keeps_inv:
  "pool_inv cfg st \<Longrightarrow> mint_begin cfg s st = Some (Inr (spec, p, st')) \<Longrightarrow> pool_inv cfg st'"
  using transition_or_internal_keeps_inv [of cfg st BeginWarm s]
  by (auto simp: mint_begin_def split: sum.splits option.splits)

lemma slot_ok_edits:
  assumes "slot_ok cfg st s i"
  shows "slot_ok cfg st s (i\<lparr>mint_in_flight := b\<rparr>)"
    and "slot_ok cfg st s (i\<lparr>idle_since_ms := n\<rparr>)"
    and "state i \<noteq> Reserved \<Longrightarrow> slot_ok cfg st s (i\<lparr>handle := Some h, mint_in_flight := b\<rparr>)"
    and "state i \<in> {CheckedOut, Delivering, Leased} \<Longrightarrow>
      slot_ok cfg st s (i\<lparr>conversation_id := Some conv\<rparr>)"
proof -
  show "slot_ok cfg st s (i\<lparr>conversation_id := Some conv\<rparr>)"
    if "state i \<in> {CheckedOut, Delivering, Leased}"
    using that assms by (cases "state i") (simp_all add: slot_ok_def instance_ok_def)
qed (use assms in \<open>simp_all add: slot_ok_def instance_ok_def\<close>)

lemma pool_inv_modify:
  assumes "pool_inv cfg st"
    and "\<And>i. bm_get (instances st) s = Some i \<Longrightarrow>
      slot_ok cfg st s (f i) \<and> state (f i) = state i \<and> inst_class (f i) = inst_class i"
  shows "pool_inv cfg (st\<lparr>instances := bm_modify s f (instances st)\<rparr>)"
  using assms(1) assms(2) pool_inv_update [OF assms(1), of s _ "f _"]
  by (auto simp: bm_modify_def split: option.split)

lemma mint_mark_keeps_inv:
  assumes inv: "pool_inv cfg st" and m: "mint_mark s st = Inr st'"
  shows "pool_inv cfg st'"
proof -
  obtain i where i: "bm_get (instances st) s = Some i"
    and st': "st' = st\<lparr>instances := bm_insert s (i\<lparr>mint_in_flight := True\<rparr>) (instances st)\<rparr>"
    using m by (auto simp: mint_mark_def split: option.splits)
  show ?thesis
    unfolding st' by (rule pool_inv_update [OF inv i slot_ok_edits(1) [OF pool_invD(1) [OF inv i]]]) simp_all
qed

lemma mint_done_keeps_inv:
  assumes inv: "pool_inv cfg st" and m: "mint_done s h st = Some st'"
    and nr: "\<And>i. bm_get (instances st) s = Some i \<Longrightarrow> state i \<noteq> Reserved"
  shows "pool_inv cfg st'"
proof -
  obtain i where i: "bm_get (instances st) s = Some i" and st': "st' = st\<lparr>instances :=
      bm_insert s (i\<lparr>handle := Some h, mint_in_flight := False\<rparr>) (instances st)\<rparr>"
    using m by (auto simp: mint_done_def split: option.splits)
  show ?thesis
    unfolding st'
    by (rule pool_inv_update [OF inv i slot_ok_edits(3) [OF pool_invD(1) [OF inv i] nr [OF i]]]) simp_all
qed

lemma abandon_mint_keeps_inv: "pool_inv cfg st \<Longrightarrow> pool_inv cfg (abandon_mint_locked cfg s st)"
  unfolding abandon_mint_locked_def Let_def
  by (rule pool_inv_modify)
    (simp_all add: try_transition_keeps_inv slot_ok_edits(1) pool_invD(1))

lemma remint_keeps_inv: "pool_inv cfg st \<Longrightarrow> pool_inv cfg (snd (remint_if_below_floor cfg c st))"
  by (simp add: remint_if_below_floor_def)

lemma rewarm_done_keeps_inv: "pool_inv cfg st \<Longrightarrow> pool_inv cfg (rewarm_done c st)"
  by (simp add: rewarm_done_def)

lemma try_transitions_keep_inv:
  "pool_inv cfg st \<Longrightarrow> \<forall>t \<in> set ts. t \<notin> {WarmProven, ClearProven, Reaped, ReapFailed} \<Longrightarrow>
   pool_inv cfg (fold (\<lambda>t st. try_transition cfg s t st) ts st)"
  by (induction ts arbitrary: st) (simp_all add: try_transition_keeps_inv)

lemma abandon_unpublishable_keeps_inv:
  "pool_inv cfg st \<Longrightarrow> ts \<in> {AFTER_WARM, AFTER_CLEAR} \<Longrightarrow>
   pool_inv cfg (abandon_unpublishable_locked cfg s ts st)"
  unfolding abandon_unpublishable_locked_def
  by (rule try_transitions_keep_inv) (auto simp: AFTER_WARM_def AFTER_CLEAR_def)

lemma publish_and_check_out_keeps_inv:
  assumes "pool_inv cfg st"
  shows "pool_inv cfg (snd (publish_idle_and_check_out cfg now s st))"
proof -
  obtain b st1 where p: "publish_idle_locked cfg now s WarmProven st = (b, st1)"
    by (cases "publish_idle_locked cfg now s WarmProven st")
  then have inv1: "pool_inv cfg st1"
    using publish_keeps_inv [OF assms _ p] by simp
  show ?thesis
  proof (cases "transition_or_internal cfg s CheckOut st1")
    case (Inr st2)
    then show ?thesis
      using transition_or_internal_keeps_inv [OF inv1 _ Inr] inv1
      by (simp add: publish_idle_and_check_out_def p split: bool.split)
  qed (simp add: publish_idle_and_check_out_def p inv1 split: bool.split)
qed

lemma commit_keeps_inv:
  assumes inv: "pool_inv cfg st"
  shows "pool_inv cfg (snd (commit_locked cfg s st))"
proof (cases "transition_or_internal cfg s TurnCommitted st")
  case (Inr st1)
  then have inv1: "pool_inv cfg st1"
    using transition_or_internal_keeps_inv [OF inv _ Inr] by simp
  show ?thesis
  proof (cases "transition_or_internal cfg s ResponseDelivered st1")
    case (Inr st2)
    with transition_or_internal_keeps_inv [OF inv1 _ Inr] \<open>_ = Inr st1\<close> show ?thesis
      by (simp add: commit_locked_def)
  qed (simp add: commit_locked_def \<open>_ = Inr st1\<close> inv1)
qed (simp add: commit_locked_def inv)

lemma commit_sticky_keeps_inv:
  assumes inv: "pool_inv cfg st"
  shows "pool_inv cfg (snd (commit_sticky_locked cfg now s conv st))"
proof -
  note keeps = transition_or_internal_keeps_inv [of cfg]
  have bind: "pool_inv cfg (st1\<lparr>instances :=
      bm_modify s (\<lambda>i. i\<lparr>conversation_id := Some conv\<rparr>) (instances st1)\<rparr>)"
    if st1: "transition_or_internal cfg s TurnCommitted st = Inr st1" for st1
  proof (rule pool_inv_modify)
    show "pool_inv cfg st1" using keeps [OF inv _ st1] by simp
    fix i assume i: "bm_get (instances st1) s = Some i"
    then have "state i = Delivering"
      using st1 by (auto simp: transition_or_internal_Inr transition_locked_Inr step_edges EDGES_def)
    with i \<open>pool_inv cfg st1\<close> show "slot_ok cfg st1 s (i\<lparr>conversation_id := Some conv\<rparr>) \<and>
        state (i\<lparr>conversation_id := Some conv\<rparr>) = state i \<and>
        inst_class (i\<lparr>conversation_id := Some conv\<rparr>) = inst_class i"
      by (auto intro: slot_ok_edits(4) pool_invD(1))
  qed
  have stamp: "pool_inv cfg (st3\<lparr>instances := bm_modify s (\<lambda>i. i\<lparr>idle_since_ms := now\<rparr>) (instances st3)\<rparr>)"
    if "pool_inv cfg st3" for st3
    by (rule pool_inv_modify [OF that]) (simp add: slot_ok_edits(2) pool_invD(1) [OF that])
  show ?thesis
  proof (cases "transition_or_internal cfg s TurnCommitted st")
    case st1: (Inr st1)
    then have inv1: "pool_inv cfg st1" using keeps [OF inv _ st1] by simp
    define st2 where "st2 = st1\<lparr>instances :=
      bm_modify s (\<lambda>i. i\<lparr>conversation_id := Some conv\<rparr>) (instances st1)\<rparr>"
    have inv2: "pool_inv cfg st2" using bind [OF st1] by (simp add: st2_def)
    show ?thesis
    proof (cases "shutting_down st1")
      case True
      show ?thesis
      proof (cases "transition_or_internal cfg s ResponseDelivered st1")
        case rd: (Inr sta)
        then have inva: "pool_inv cfg sta" using keeps [OF inv1 _ rd] by simp
        show ?thesis
          using keeps [OF inva, of ShutdownDrain s]
          by (cases "transition_or_internal cfg s ShutdownDrain sta")
            (simp_all add: commit_sticky_locked_def st1 True rd inva)
      qed (simp add: commit_sticky_locked_def st1 True inv1)
    next
      case False
      show ?thesis
        using keeps [OF inv2, of LeaseHeld s] stamp inv2
        by (cases "transition_or_internal cfg s LeaseHeld st2")
          (simp_all add: commit_sticky_locked_def st1 False st2_def [symmetric] Let_def)
    qed
  qed (simp add: commit_sticky_locked_def inv)
qed

lemma recycle_keeps_inv: "pool_inv cfg st \<Longrightarrow> pool_inv cfg (snd (recycle_locked cfg s st))"
  by (simp add: recycle_locked_def try_transition_keeps_inv)

lemma clear_failed_keeps_inv: "pool_inv cfg st \<Longrightarrow> pool_inv cfg (clear_failed_locked cfg s f st)"
  by (auto simp: clear_failed_locked_def clear_failed_transition_def Let_def
      intro!: try_transition_keeps_inv)

lemma quarantine_keeps_inv: "pool_inv cfg st \<Longrightarrow> pool_inv cfg (quarantine_locked cfg s st)"
  by (simp add: quarantine_locked_def try_transition_keeps_inv)

lemma release_keeps_inv: "pool_inv cfg st \<Longrightarrow> pool_inv cfg (release_locked cfg s st)"
  by (auto simp: release_locked_def split: sum.split intro: reaped_keeps_inv)

lemma ReapFailed_target:
  "transition_locked cfg s ReapFailed st = Inr (n, st') \<Longrightarrow>
   \<exists>i. bm_get (instances st) s = Some i \<and> state i = Destroying \<and>
     st' = st\<lparr>instances := bm_insert s (candidate ReapFailed n i) (instances st)\<rparr>"
  by (auto simp: transition_locked_Inr step_edges EDGES_def)

lemma leak_keeps_inv:
  assumes inv: "pool_inv cfg st"
    and ni: "\<And>i. bm_get (instances st) s = Some i \<Longrightarrow> state i \<noteq> Idle"
  shows "pool_inv cfg (leak cfg s st)"
proof (cases "bm_get (instances st) s")
  case None
  then show ?thesis
    using inv by (simp add: leak_def try_transition_def transition_locked_def)
next
  case (Some i)
  have "leak cfg s st = st\<lparr>instances := bm_remove s (instances st),
      leaked_slots := bs_insert s (leaked_slots st)\<rparr>"
  proof (cases rule: try_transition_cases [of cfg s ReapFailed st])
    case kept
    with Some show ?thesis by (simp add: leak_def)
  next
    case (moved n st')
    with ReapFailed_target [OF moved(1)] show ?thesis by (auto simp: leak_def)
  qed
  with pool_inv_remove(2) [OF inv Some ni [OF Some]] show ?thesis by simp
qed

lemma halt_keeps_inv: "pool_inv cfg st \<Longrightarrow> pool_inv cfg (halt v st)"
  by (simp add: halt_def)


lemma find_entries_Some:
  assumes "find P (entries m) = Some (k, v)"
  shows "bm_get m k = Some v \<and> P (k, v)"
  using find_SomeD [OF assms] by (simp add: set_entries)

lemma release_conversation_cases:
  "snd (release_conversation cfg conv st) = st \<or>
   (\<exists>s. transition_or_internal cfg s ReleaseLease st = Inr (snd (release_conversation cfg conv st)))"
  by (simp add: release_conversation_def split: option.split instance_state.split sum.split)
    blast

lemma release_conversation_keeps_inv:
  "pool_inv cfg st \<Longrightarrow> pool_inv cfg (snd (release_conversation cfg conv st))"
  using release_conversation_cases [of cfg conv st] transition_or_internal_keeps_inv
  by (metis (no_types) insert_iff empty_iff transition.distinct)

lemma claim_begin_keeps_inv: "pool_inv cfg st \<Longrightarrow> claim_begin conv st = Inr st' \<Longrightarrow> pool_inv cfg st'"
  by (auto simp: claim_begin_def split: if_splits)

lemma claim_cancel_keeps_inv: "pool_inv cfg st \<Longrightarrow> pool_inv cfg (claim_cancel conv st)"
  by (simp add: claim_cancel_def)

lemma claim_bind_keeps_inv:
  assumes "pool_inv cfg st"
    and "\<And>i. bm_get (instances st) s = Some i \<Longrightarrow> state i \<in> {CheckedOut, Delivering, Leased}"
  shows "pool_inv cfg (claim_bind conv s st)"
proof -
  have "pool_inv cfg (st\<lparr>instances :=
      bm_modify s (\<lambda>i. i\<lparr>conversation_id := Some conv\<rparr>) (instances st)\<rparr>)"
    by (rule pool_inv_modify [OF assms(1)])
      (simp add: slot_ok_edits(4) [OF pool_invD(1) [OF assms(1)] assms(2)])
  moreover have "claim_bind conv s st = (st\<lparr>instances :=
      bm_modify s (\<lambda>i. i\<lparr>conversation_id := Some conv\<rparr>) (instances st)\<rparr>)
      \<lparr>pending_leases := bm_remove conv (pending_leases st)\<rparr>"
    by (cases st) (simp add: claim_bind_def)
  ultimately show ?thesis by (simp only: pool_inv_other)
qed

lemma resume_lease_Inr:
  "resume_lease cfg conv c st = Inr (s, st') \<Longrightarrow>
   \<exists>i. bm_get (instances st) s = Some i \<and> conversation_id i = Some conv \<and> state i = Leased
     \<and> inst_class i = c \<and> transition_or_internal cfg s ResumeLease st = Inr st'"
  by (auto simp: resume_lease_def bind_r_Inr split: if_splits option.splits prod.splits
      instance_state.splits dest!: find_entries_Some)

lemma resume_lease_keeps_inv:
  "pool_inv cfg st \<Longrightarrow> resume_lease cfg conv c st = Inr (s, st') \<Longrightarrow> pool_inv cfg st'"
  by (auto dest!: resume_lease_Inr elim: transition_or_internal_keeps_inv [where t = ResumeLease, rotated 2])

lemma touch_keeps_inv:
  assumes inv: "pool_inv cfg st"
  shows "pool_inv cfg (snd (touch_conversation now conv st))"
proof (cases "find (\<lambda>(s, i). conversation_id i = Some conv \<and> state i = Leased) (entries (instances st))")
  case (Some si)
  obtain s i where si: "si = (s, i)" by (cases si)
  have i: "bm_get (instances st) s = Some i"
    using find_entries_Some [OF Some [unfolded si]] by simp
  show ?thesis
    using pool_inv_update [OF inv i slot_ok_edits(2) [OF pool_invD(1) [OF inv i]]]
    by (simp add: touch_conversation_def Some si)
qed (simp add: touch_conversation_def inv)

lemma protect_keeps_inv:
  "pool_inv cfg st \<Longrightarrow> pool_inv cfg (protect_conversation conv st)"
  "pool_inv cfg st \<Longrightarrow> pool_inv cfg (unprotect_conversation conv st)"
  by (simp_all add: protect_conversation_def unprotect_conversation_def)

lemma fold_keeps: "(\<And>x a. P a \<Longrightarrow> P (f x a)) \<Longrightarrow> P a \<Longrightarrow> P (fold f xs a)"
  by (induction xs arbitrary: a) simp_all

lemma sweep_class_keeps_inv: "pool_inv cfg st \<Longrightarrow> pool_inv cfg (snd (sweep_class cfg now c st))"
proof (induction cfg now c st rule: sweep_class.induct)
  case (1 cfg now c st)
  show ?case
  proof (cases "\<exists>s r. \<not> idle_held st c \<le> warm_floor cfg c \<and> lru_of st c = Some s \<and> expired_idle cfg now s st
      \<and> transition_locked cfg s IdleExpired st = Inr r")
    case True
    then obtain s r where r: "\<not> idle_held st c \<le> warm_floor cfg c" "lru_of st c = Some s"
      "expired_idle cfg now s st" "transition_locked cfg s IdleExpired st = Inr r" by blast
    then have "pool_inv cfg (snd r)"
      using try_transition_keeps_inv [OF "1.prems", of IdleExpired s]
      by (simp add: try_transition_def split: prod.splits)
    then have "pool_inv cfg (snd (sweep_class cfg now c (snd r)))"
      using "1.IH" [OF r(1,2) _ r(4)] r(3) by simp
    with r show ?thesis
      by (subst sweep_class.simps) (simp add: split_def)
  next
    case False
    then show ?thesis
      using "1.prems" by (subst sweep_class.simps) (auto split: option.splits sum.splits)
  qed
qed

lemma sweep_step_keeps_inv: "pool_inv cfg (snd acc) \<Longrightarrow> pool_inv cfg (snd (sweep_step cfg now c acc))"
  using sweep_class_keeps_inv [of cfg "snd acc" now c] by (simp add: sweep_step_def split_def)

lemma sweep_idle_keeps_inv: "pool_inv cfg st \<Longrightarrow> pool_inv cfg (snd (sweep_idle_locked cfg now st))"
  unfolding sweep_idle_locked_def
  by (rule fold_keeps [where P = "\<lambda>acc. pool_inv cfg (snd acc)"]) (auto intro: sweep_step_keeps_inv)

lemma sweep_lease_step_keeps_inv:
  assumes "pool_inv cfg (snd acc)"
  shows "pool_inv cfg (snd (sweep_lease_step cfg now s acc))"
  using try_transition_keeps_inv [OF assms, of ReleaseLease s] assms
  by (auto simp: sweep_lease_step_def try_transition_def split: prod.splits sum.splits)

lemma sweep_leases_keeps_inv: "pool_inv cfg st \<Longrightarrow> pool_inv cfg (snd (sweep_leases_locked cfg now st))"
  unfolding sweep_leases_locked_def
  by (rule fold_keeps [where P = "\<lambda>acc. pool_inv cfg (snd acc)"]) (auto intro: sweep_lease_step_keeps_inv)

lemma shutdown_action_Drain: "shutdown_action s = Drain t \<Longrightarrow> t \<in> {ShutdownDrain, BeginDestroy}"
  by (cases s) auto

lemma shutdown_slot_keeps_inv:
  assumes "pool_inv cfg (snd acc)"
  shows "pool_inv cfg (snd (shutdown_slot cfg s acc))"
proof -
  obtain vs st where acc: "acc = (vs, st)" by (cases acc)
  have "pool_inv cfg st'" if "shutdown_action a = Drain t" "transition_locked cfg s t st = Inr (n, st')" for a t n st'
    using try_transition_keeps_inv [of cfg st t s] shutdown_action_Drain [OF that(1)] assms that(2)
    by (auto simp: try_transition_def acc)
  then show ?thesis
    using assms by (auto simp: shutdown_slot_def acc split: option.split shutdown_choice.split sum.split)
qed

lemma shutdown_keeps_inv: "pool_inv cfg st \<Longrightarrow> pool_inv cfg (snd (shutdown_locked cfg st))"
proof -
  have "pool_inv cfg (snd acc) \<Longrightarrow> pool_inv cfg (snd (fold (shutdown_slot cfg) ss acc))" for ss acc
    by (rule fold_keeps [where P = "\<lambda>acc. pool_inv cfg (snd acc)"]) (rule shutdown_slot_keeps_inv)
  then show "pool_inv cfg st \<Longrightarrow> ?thesis" by (simp add: shutdown_locked_def)
qed

lemma pool_inv_sample_idle: "pool_inv sample_cfg sample_idle"
proof -
  let ?st1 = "try_transition sample_cfg 0 BeginWarm sample_reserved"
  let ?st2 = "?st1\<lparr>instances := bm_modify 0 (\<lambda>i. i\<lparr>handle := Some sample_handle\<rparr>) (instances ?st1)\<rparr>"
  have inv1: "pool_inv sample_cfg ?st1"
    by (rule try_transition_keeps_inv [OF pool_inv_sample_reserved]) simp
  have warm: "map_option state (bm_get (instances ?st1) 0) = Some Warming"
    by code_simp
  have "pool_inv sample_cfg ?st2"
  proof (rule pool_inv_modify [OF inv1])
    fix i assume i: "bm_get (instances ?st1) 0 = Some i"
    then have "state i \<noteq> Reserved" using warm by simp
    from slot_ok_edits(3) [OF pool_invD(1) [OF inv1 i] this, where h = sample_handle and b = "mint_in_flight i"]
    show "slot_ok sample_cfg ?st1 0 (i\<lparr>handle := Some sample_handle\<rparr>)
        \<and> state (i\<lparr>handle := Some sample_handle\<rparr>) = state i
        \<and> inst_class (i\<lparr>handle := Some sample_handle\<rparr>) = inst_class i"
      by simp
  qed
  then have "pool_inv sample_cfg (snd (publish_idle_locked sample_cfg 1000 0 WarmProven ?st2))"
    using publish_keeps_inv [of sample_cfg ?st2 WarmProven 1000 0] by (metis is_proof_carrying.simps(1) prod.collapse)
  then show ?thesis by (simp add: sample_idle_def Let_def)
qed

end
