(* ===== verification/Admission.thy ===== *)
theory Admission
  imports PoolSafety
begin

text \<open>
  Admission (\<open>admit\<close>, \<open>admit_once\<close> of \<open>src/crates/service/src/pool/mod.rs\<close>): when a transition is granted,
  the four rules as one case distinction, and the bound on the wait.
\<close>

section \<open>When a transition is granted\<close>

text \<open>The state a granted transition leaves behind.\<close>

definition moved :: "slot_id \<Rightarrow> transition \<Rightarrow> instance_state \<Rightarrow> pool_instance \<Rightarrow> pool_state \<Rightarrow> pool_state" where
  "moved s t n i st = (if state i = Idle then remove_from_idle (inst_class i) s else id)
     (st\<lparr>instances := bm_insert s (candidate t n i) (instances st)\<rparr>)"

lemma moved_fields [simp]:
  "instances (moved s t n i st) = bm_insert s (candidate t n i) (instances st)"
  "next_epoch (moved s t n i st) = next_epoch st"
  "leaked_slots (moved s t n i st) = leaked_slots st"
  "rewarming (moved s t n i st) = rewarming st"
  "pending_leases (moved s t n i st) = pending_leases st"
  "protected_leases (moved s t n i st) = protected_leases st"
  "halted (moved s t n i st) = halted st"
  "shutting_down (moved s t n i st) = shutting_down st"
  by (simp_all add: moved_def)

lemma transition_locked_moved:
  "transition_locked cfg s t st = Inr (n, st') \<longleftrightarrow>
     (\<exists>i. bm_get (instances st) s = Some i \<and> step (state i) t = Inr n
        \<and> instance_ok (recycle_turns cfg) (system_prompt_fingerprint cfg) (candidate t n i)
        \<and> st' = moved s t n i st)"
  by (simp add: transition_locked_Inr moved_def)

lemma step_shape:
  "step s t = Inr n \<Longrightarrow>
     n \<in> {Warming, Destroying, Quarantined, Retired, Leaked}
   \<or> n = Idle \<and> is_proof_carrying t \<and> s \<in> {Warming, Clearing}
   \<or> n = CheckedOut \<and> s \<in> {Idle, Leased} \<and> t \<in> {CheckOut, ResumeLease}
   \<or> n = Delivering \<and> s = CheckedOut \<and> t = TurnCommitted
   \<or> n = Clearing \<and> s \<in> {Delivering, Leased} \<and> t \<in> {ResponseDelivered, ReleaseLease}
   \<or> n = Leased \<and> s = Delivering \<and> t = LeaseHeld"
  by (cases s; cases t; simp add: step_def)

lemma instance_ok_candidate:
  assumes ok: "instance_ok R fp i" "prompt_fingerprint i = fp"
    "conversation_id i \<noteq> None \<longrightarrow> state i \<in> {CheckedOut, Delivering, Leased}"
    and edge: "step (state i) t = Inr n"
    and into: "n = Idle \<Longrightarrow> handle i \<noteq> None \<and> turns_started i < R"
      "n = Leased \<Longrightarrow> conversation_id i \<noteq> None"
  shows "instance_ok R fp (candidate t n i)"
  using step_shape [OF edge]
proof (elim disjE conjE)
  assume "n \<in> {Warming, Destroying, Quarantined, Retired, Leaked}"
  then show ?thesis by (cases n) (simp_all add: instance_ok_def)
next
  assume n: "n = Idle" and t: "is_proof_carrying t" and s: "state i \<in> {Warming, Clearing}"
  then have "conversation_id i = None" using ok(3) by (cases "state i") simp_all
  with into(1) [OF n] n t ok(2) show ?thesis by (cases t) (simp_all add: instance_ok_def candidate_def)
next
  assume n: "n = CheckedOut" and s: "state i \<in> {Idle, Leased}" and t: "t \<in> {CheckOut, ResumeLease}"
  then have "handle i \<noteq> None" using ok(1) by (cases "state i") (simp_all add: instance_ok_def)
  with n t show ?thesis by (simp add: instance_ok_def candidate_def)
next
  assume "n = Delivering" "state i = CheckedOut" "t = TurnCommitted"
  with ok(1) show ?thesis by (simp add: instance_ok_def candidate_def)
next
  assume n: "n = Clearing" and s: "state i \<in> {Delivering, Leased}"
    and t: "t \<in> {ResponseDelivered, ReleaseLease}"
  have "handle i \<noteq> None \<and> 0 < turns_started i"
    using ok(1) s by (cases "state i") (simp_all add: instance_ok_def)
  moreover have "conversation_id (candidate t n i) = None \<and> turns_started (candidate t n i) = turns_started i"
    using t by (auto simp: candidate_def)
  ultimately show ?thesis using n by (simp add: instance_ok_def)
next
  assume "n = Leased" "state i = Delivering" "t = LeaseHeld"
  with ok(1) into(2) show ?thesis by (simp add: instance_ok_def candidate_def)
qed

text \<open>
  A transition on a live slot is refused only if it is not an edge, or publishes an instance that
  is not serviceable, or leases one to nobody.
\<close>

lemma transition_granted:
  assumes inv: "pool_inv cfg st" and i: "bm_get (instances st) s = Some i"
    and edge: "step (state i) t = Inr n"
    and into_idle: "n = Idle \<Longrightarrow> handle i \<noteq> None \<and> turns_started i < recycle_turns cfg"
    and into_lease: "n = Leased \<Longrightarrow> conversation_id i \<noteq> None"
  shows "transition_locked cfg s t st = Inr (n, moved s t n i st)"
proof -
  have ok: "slot_ok cfg st s i" by (rule pool_invD(1) [OF inv i])
  have "instance_ok (recycle_turns cfg) (system_prompt_fingerprint cfg) (candidate t n i)"
    using instance_ok_candidate [OF _ _ _ edge into_idle into_lease] ok
    unfolding slot_ok_def by blast
  with i edge show ?thesis by (simp add: transition_locked_moved)
qed

lemma transition_or_internal_granted:
  assumes "pool_inv cfg st" "bm_get (instances st) s = Some i" "step (state i) t = Inr n"
    "n \<noteq> Idle" "n \<noteq> Leased"
  shows "transition_or_internal cfg s t st = Inr (moved s t n i st)"
  using transition_granted [OF assms(1-3)] assms(4,5) by (simp add: transition_or_internal_def)

section \<open>Admission\<close>

lemma admit_warm:
  assumes inv: "pool_inv cfg st" and up: "\<not> shutting_down st" "halted st = None"
    and lru: "lru_of st c = Some s"
  shows "\<exists>i st'. bm_get (instances st) s = Some i \<and> state i = Idle \<and> inst_class i = c
    \<and> fst (admit_once cfg c w m st) = Inr \<lparr>adm = Warm s, rewarm_class = st'\<rparr>
    \<and> instances (snd (admit_once cfg c w m st)) = bm_insert s (candidate CheckOut CheckedOut i) (instances st)"
proof -
  obtain i where i: "bm_get (instances st) s = Some i" "state i = Idle" "inst_class i = c"
    using lru_of_Idle [OF inv lru] by metis
  then have "step (state i) CheckOut = Inr CheckedOut" by (simp add: step_def)
  from transition_or_internal_granted [OF inv i(1) this] i show ?thesis
    using up lru by (auto simp: admit_once_def Let_def)
qed

text \<open>The whole rule list as one case distinction on what the pool holds.\<close>

lemma admit_once_rules:
  assumes inv: "pool_inv cfg st" and sz: "pool_size cfg \<le> u32_max"
    and up: "\<not> shutting_down st" "halted st = None"
    and warm: "\<not> bm_contains (idle st) c"
  shows "admit_once cfg c w m st =
    (case free_slot st (pool_size cfg) of
       Some s \<Rightarrow> (Inr \<lparr>adm = ReservedSlot s, rewarm_class = None\<rparr>, reserve_locked cfg s c st)
     | None \<Rightarrow>
         (case (if m \<and> coming_back (pressure st (pool_size cfg)) > 0 then None else cold_swap_victim st) of
            Some s \<Rightarrow> (Inr \<lparr>adm = ColdSwap s, rewarm_class = None\<rparr>,
              moved s ColdSwapVictim Destroying (the (bm_get (instances st) s)) st)
          | None \<Rightarrow> (Inl \<lparr>ar_body = pool_exhausted (pressure st (pool_size cfg)) c w,
              ar_coming_back = coming_back (pressure st (pool_size cfg))\<rparr>, st)))"
proof -
  have lru: "lru_of st c = None"
    using warm lru_of_None [OF inv] by (simp add: bm_contains_def)
  have cap: "(if live st < capacity st (pool_size cfg) then free_slot st (pool_size cfg) else None)
      = free_slot st (pool_size cfg)"
    using free_slot_iff [OF inv sz] by auto
  have victim: "transition_or_internal cfg s ColdSwapVictim st =
      Inr (moved s ColdSwapVictim Destroying (the (bm_get (instances st) s)) st)"
    if v: "cold_swap_victim st = Some s" for s
  proof -
    obtain i where i: "bm_get (instances st) s = Some i" "state i = Idle"
      using cold_swap_victim_Some [OF inv v] by metis
    then have "step (state i) ColdSwapVictim = Inr Destroying" by (simp add: step_def)
    from transition_or_internal_granted [OF inv i(1) this] i(1) show ?thesis by simp
  qed
  show ?thesis
    using up by (auto simp: admit_once_def lru cap Let_def victim split: option.split)
qed

text \<open>C34: On a caller's last look no refusal coexists with an idle instance of any class: admission
  refuses for capacity only when nothing is idle and every usable slot is live, it then leaves the
  pool as it was, and the census in the refusal counts exactly the live instances.\<close>

theorem no_refusal_beside_an_idle_instance:
  assumes "pool_inv cfg st" "pool_size cfg \<le> u32_max" "\<not> shutting_down st" "halted st = None"
    and "admit_once cfg c w False st = (Inl r, st')"
  shows "idle_slots st = {} \<and> live st = capacity st (pool_size cfg) \<and> st' = st
    \<and> ar_body r = pool_exhausted (pressure st (pool_size cfg)) c w
    \<and> counts_live (counts (pressure st (pool_size cfg))) = live st"
proof -
  note inv = assms(1) and sz = assms(2)
  have cold: "\<not> bm_contains (idle st) c"
  proof
    assume "bm_contains (idle st) c"
    then obtain s where "lru_of st c = Some s"
      using lru_of_None [OF inv, of c] by (auto simp: bm_contains_def)
    from admit_warm [OF inv assms(3,4) this, of w False] assms(5) show False by auto
  qed
  note rules = admit_once_rules [OF inv sz assms(3,4) cold, of w False]
  have free: "free_slot st (pool_size cfg) = None"
    using rules assms(5) by (auto split: option.splits)
  moreover have victim: "cold_swap_victim st = None"
    using rules assms(5) free by (auto split: option.splits)
  moreover have "live st = capacity st (pool_size cfg)"
    using free_slot_iff [OF inv sz] free pool_inv_live [OF inv sz] by auto
  moreover have "counts_live (buckets st) = live st"
    using counts_live_exact [of st] pool_inv_live_states [OF inv] pool_inv_capacity [OF inv] sz by auto
  ultimately show ?thesis
    using rules assms(5) cold_swap_victim_None [OF inv] by (auto simp: pressure_def)
qed

theorem no_refusal_beside_an_idle_instance_witness:
  "\<exists>r. admit_once sample_cfg sample_class 0 False sample_reserved = (Inl r, sample_reserved)
     \<and> idle_slots sample_reserved = {} \<and> live sample_reserved = capacity sample_reserved 1"
proof -
  have refused: "\<not> is_ok (fst (admit_once sample_cfg sample_class 0 False sample_reserved))"
    and up: "\<not> shutting_down sample_reserved" "halted sample_reserved = None"
    by code_simp+
  obtain r st' where adm: "admit_once sample_cfg sample_class 0 False sample_reserved = (Inl r, st')"
    using refused by (cases "admit_once sample_cfg sample_class 0 False sample_reserved";
        cases "fst (admit_once sample_cfg sample_class 0 False sample_reserved)") auto
  from no_refusal_beside_an_idle_instance
      [OF pool_inv_sample_reserved _ up adm] adm show ?thesis
    by (auto simp: u32_max_def)
qed

lemma admit_once_Inl_state:
  "admit_once cfg c w m st = (Inl r, st') \<Longrightarrow> st' = st"
  by (simp add: admit_once_def Let_def split: if_splits option.splits sum.splits)

lemma admit_pass_sleep:
  assumes "admit_pass cfg c d w now st = (AdmitSleep n, st')"
  shows "st' = st \<and> 0 < n \<and> w + n \<le> ADMISSION_WAIT_CEILING_MS * NS_PER_MS
    \<and> n \<le> (d - now) * NS_PER_MS \<and> n \<le> ADMISSION_POLL_MS * NS_PER_MS
    \<and> (NS_PER_MS \<le> n \<or> w + n = ADMISSION_WAIT_CEILING_MS * NS_PER_MS)"
proof -
  obtain r where r: "admit_once cfg c (millis_of w) (admit_budget d w now \<noteq> None) st = (Inl r, st')"
    "0 < ar_coming_back r" and "\<exists>b. admit_budget d w now = Some b
      \<and> n = min b (ADMISSION_POLL_MS * NS_PER_MS)"
    using assms by (auto simp: admit_pass_def Let_def split: prod.splits sum.splits option.splits if_splits)
  then obtain b where b: "admit_budget d w now = Some b" "n = min b (ADMISSION_POLL_MS * NS_PER_MS)"
    by blast
  have "st' = st" by (rule admit_once_Inl_state [OF r(1)])
  moreover have "w \<le> ADMISSION_WAIT_CEILING_MS * NS_PER_MS"
    "b = min (ADMISSION_WAIT_CEILING_MS * NS_PER_MS - w) ((d - now) * NS_PER_MS)" "0 < b"
    using b(1) by (auto simp: admit_budget_def Let_def split: if_splits)
  moreover have "1 \<le> d - now" if "0 < (d - now) * NS_PER_MS" using that by auto
  moreover have "NS_PER_MS \<le> (d - now) * NS_PER_MS" if "1 \<le> d - now"
    using mult_le_mono1 [OF that, of NS_PER_MS] by simp
  ultimately show ?thesis
    using b(2) by (auto simp: min_def ADMISSION_POLL_MS_def NS_PER_MS_def split: if_splits)
qed

text \<open>A pass that slept is not observed again before its sleep is over.\<close>

fun sleeps_respected ::
  "pool_config \<Rightarrow> instance_class \<Rightarrow> u64 \<Rightarrow> (nat \<times> u64 \<times> (pool_state \<Rightarrow> pool_state)) list \<Rightarrow> pool_state \<Rightarrow> bool" where
  "sleeps_respected cfg c d [] st = True"
| "sleeps_respected cfg c d ((w, now, others) # obs) st =
     (case admit_pass cfg c d w now (others st) of
        (AdmitReturn _, _) \<Rightarrow> True
      | (AdmitSleep n, st') \<Rightarrow>
          (case obs of [] \<Rightarrow> True | (w', _, _) # _ \<Rightarrow> w + n \<le> w')
          \<and> sleeps_respected cfg c d obs st')"

lemma admit_loop_bound:
  assumes "sleeps_respected cfg c d obs st" "admit_loop cfg c d obs st = None" "obs \<noteq> []"
  shows "(length obs - 1) * NS_PER_MS + fst (hd obs) < ADMISSION_WAIT_CEILING_MS * NS_PER_MS"
  using assms
proof (induction obs arbitrary: st)
  case (Cons ob obs)
  obtain w now others where ob: "ob = (w, now, others)" by (cases ob)
  obtain n st' where p: "admit_pass cfg c d w now (others st) = (AdmitSleep n, st')"
    using Cons.prems(2) by (auto simp: ob split: prod.splits admit_outcome.splits)
  have w: "0 < n" "w + n \<le> ADMISSION_WAIT_CEILING_MS * NS_PER_MS"
    "NS_PER_MS \<le> n \<or> w + n = ADMISSION_WAIT_CEILING_MS * NS_PER_MS"
    using admit_pass_sleep [OF p] by simp_all
  show ?case
  proof (cases obs)
    case Nil
    then show ?thesis using w by (simp add: ob)
  next
    case (Cons ob' obs')
    then have "w + n \<le> fst (hd obs)"
      using Cons.prems(1) by (auto simp: ob p split: prod.splits)
    moreover have "(length obs - 1) * NS_PER_MS + fst (hd obs) < ADMISSION_WAIT_CEILING_MS * NS_PER_MS"
      using Cons.IH [of st'] Cons.prems(1,2) Cons by (simp add: ob p)
    ultimately show ?thesis
      using w Cons by (auto simp: ob)
  qed
qed simp

text \<open>C36: Admission waits but never queues. However the rest of the pool moves between its reads, a caller whose sleeps are
  respected, that is, who does not read again before the sleep it took is over on its own clock, is answered by its 2501st
  read at the latest, since every read but the last costs it a millisecond of a 2.5 second ceiling.\<close>

theorem admission_answers_every_caller:
  assumes "sleeps_respected cfg c d obs st" "2500 < length obs"
  shows "\<exists>r st'. admit_loop cfg c d obs st = Some (r, st')"
proof -
  have "obs \<noteq> []" using assms(2) by auto
  have "2500 * NS_PER_MS \<le> (length obs - 1) * NS_PER_MS"
    using assms(2) by (intro mult_le_mono1) simp
  moreover have "(length obs - 1) * NS_PER_MS < 2500 * NS_PER_MS" if "admit_loop cfg c d obs st = None"
    using admit_loop_bound [OF assms(1) that \<open>obs \<noteq> []\<close>]
    unfolding ADMISSION_WAIT_CEILING_MS_def by linarith
  ultimately have "admit_loop cfg c d obs st \<noteq> None" by linarith
  then show ?thesis by auto
qed

text \<open>
  A full pool whose one instance is clearing: a caller of another class reads it, sleeps, reads it again 5 ms later, sleeps
  again, and is answered by its third read, before which the clear was proven.
\<close>

definition sample_clearing :: pool_state where
  "sample_clearing =
     fold (\<lambda>t st. try_transition sample_cfg 0 t st)
       [CheckOut, TurnCommitted, ResponseDelivered] sample_idle"

definition other_class :: instance_class where
  "other_class = InstanceClass ''claude-opus-4-6'' None account_default"

definition sample_sleeps :: "(nat \<times> u64 \<times> (pool_state \<Rightarrow> pool_state)) list" where
  "sample_sleeps = [(0, 0, id), (5 * NS_PER_MS, 5, id)]"

definition sample_answered :: "nat \<times> u64 \<times> (pool_state \<Rightarrow> pool_state)" where
  "sample_answered = (10 * NS_PER_MS, 10, \<lambda>st. snd (publish_idle_locked sample_cfg 1010 0 ClearProven st))"

definition sample_obs :: "nat \<Rightarrow> (nat \<times> u64 \<times> (pool_state \<Rightarrow> pool_state)) list" where
  "sample_obs n = sample_sleeps @ sample_answered # replicate n (10 * NS_PER_MS, 10, id)"

lemma length_sample_obs: "length (sample_obs n) = n + 3"
  by (simp add: sample_obs_def sample_sleeps_def)

lemma sample_obs_sleeps:
  "sleeps_respected sample_cfg other_class 600 (sample_sleeps @ [sample_answered]) sample_clearing
   \<and> admit_loop sample_cfg other_class 600 sample_sleeps sample_clearing = None
   \<and> admit_loop sample_cfg other_class 600 (sample_sleeps @ [sample_answered]) sample_clearing \<noteq> None"
  by code_simp

lemma respected_once_answered:
  "admit_loop cfg c d obs st \<noteq> None \<Longrightarrow> sleeps_respected cfg c d obs st \<Longrightarrow> sleeps_respected cfg c d (obs @ rest) st"
proof (induction obs arbitrary: st)
  case (Cons ob obs)
  obtain w now others where ob: "ob = (w, now, others)" by (cases ob)
  show ?case
  proof (cases "admit_pass cfg c d w now (others st)")
    case (Pair out st')
    then show ?thesis
      using Cons by (cases out; cases obs) (auto simp: ob split: prod.splits)
  qed
qed simp

lemma sample_obs_respected: "sleeps_respected sample_cfg other_class 600 (sample_obs n) sample_clearing"
  using respected_once_answered [of sample_cfg other_class 600 "sample_sleeps @ [sample_answered]" sample_clearing
      "replicate n (10 * NS_PER_MS, 10, id)"] sample_obs_sleeps
  by (simp add: sample_obs_def)

theorem admission_answers_every_caller_witness:
  "admit_loop sample_cfg other_class 600 (take 2 (sample_obs 2500)) sample_clearing = None
   \<and> (\<exists>r st'. admit_loop sample_cfg other_class 600 (sample_obs 2500) sample_clearing = Some (r, st'))"
proof
  show "admit_loop sample_cfg other_class 600 (take 2 (sample_obs 2500)) sample_clearing = None"
    using sample_obs_sleeps by (simp add: sample_obs_def sample_sleeps_def)
  show "\<exists>r st'. admit_loop sample_cfg other_class 600 (sample_obs 2500) sample_clearing = Some (r, st')"
    by (rule admission_answers_every_caller [OF sample_obs_respected]) (simp only: length_sample_obs)
qed

text \<open>Every sleep of the admission loop is positive, at most one 5 ms poll, over no later than the
  ceiling and no later than the caller's own deadline, and taken only after a read that left the
  pool untouched.\<close>

lemma admission_sleep_is_within_budget:
  assumes "admit_pass cfg c d w now st = (AdmitSleep n, st')"
  shows "st' = st \<and> 0 < n \<and> n \<le> 5 * NS_PER_MS \<and> w + n \<le> 2500 * NS_PER_MS \<and> n \<le> (d - now) * NS_PER_MS"
  using admit_pass_sleep [OF assms] by (simp add: ADMISSION_WAIT_CEILING_MS_def ADMISSION_POLL_MS_def)

end
