(* ===== verification/Sweep.thy ===== *)
theory Sweep
  imports Admission
begin

text \<open>
  The idle TTL sweep (\<open>sweep_idle\<close> of \<open>src/crates/service/src/pool/mod.rs\<close>): what it takes, what it
  leaves, and the warm floor it keeps.
\<close>

section \<open>The idle sweep\<close>

definition idle_of :: "pool_state \<Rightarrow> instance_class \<Rightarrow> slot_id set" where
  "idle_of st c = {s. \<exists>i. bm_get (instances st) s = Some i \<and> state i = Idle \<and> inst_class i = c}"

lemma finite_idle_of: "finite (idle_of st c)"
  by (rule finite_subset [OF _ bm.finite_dom [of "instances st"]]) (auto simp: idle_of_def)

lemma idle_held_card:
  assumes inv: "pool_inv cfg st" and sz: "pool_size cfg \<le> u32_max"
  shows "idle_held st c = card (idle_of st c)"
proof (cases "bm_get (idle st) c")
  case None
  then have "idle_of st c = {}"
    using idle_class_iff [OF inv, of c] by (auto simp: idle_of_def bm_contains_def)
  with None show ?thesis by (simp add: idle_held_def)
next
  case (Some m)
  have "{s. bm_contains m s} = idle_of st c"
    using pool_invD(2) [OF inv, of c] Some by (auto simp: published_def idle_of_def)
  moreover have "card (idle_of st c) \<le> bm_len (instances st)"
    unfolding bm_len_card by (rule card_mono [OF finite_bm]) (auto simp: idle_of_def bm_contains_def)
  ultimately show ?thesis
    using Some pool_inv_capacity [OF inv] sz
    by (simp add: idle_held_def bm_len_card u32_of_usize_def)
qed

text \<open>What a sweep did: the victims, and only they, left \<open>Idle\<close> for \<open>Destroying\<close>, all expired.\<close>

definition swept :: "pool_config \<Rightarrow> u64 \<Rightarrow> slot_id list \<Rightarrow> pool_state \<Rightarrow> pool_state \<Rightarrow> bool" where
  "swept cfg now vs st st' \<longleftrightarrow>
     (\<forall>s. s \<notin> set vs \<longrightarrow> bm_get (instances st') s = bm_get (instances st) s)
     \<and> (\<forall>s \<in> set vs. \<exists>i. bm_get (instances st) s = Some i \<and> state i = Idle
          \<and> instance_idle_ttl_ms cfg \<le> now - idle_since_ms i
          \<and> bm_get (instances st') s = Some (candidate IdleExpired Destroying i))"

lemma swept_Nil [simp]: "swept cfg now [] st st"
  by (simp add: swept_def)

lemma swept_append:
  assumes a: "swept cfg now vs st st1" and b: "swept cfg now vs' st1 st2"
  shows "swept cfg now (vs @ vs') st st2"
proof -
  have "s \<notin> set vs" if "s \<in> set vs'" for s
    using a b that by (fastforce simp: swept_def)
  with a b show ?thesis
    unfolding swept_def by (simp add: ball_Un) metis
qed

lemma swept_one:
  assumes "transition_locked cfg s IdleExpired st = Inr r" "expired_idle cfg now s st"
  shows "swept cfg now [s] st (snd r)"
  using assms by (cases r)
    (auto simp: transition_locked_moved swept_def expired_idle_def step_edges EDGES_def split: option.splits)

definition none_expired :: "pool_config \<Rightarrow> u64 \<Rightarrow> pool_state \<Rightarrow> instance_class \<Rightarrow> bool" where
  "none_expired cfg now st c \<longleftrightarrow> (\<forall>s \<in> idle_of st c. \<not> expired_idle cfg now s st)"

lemma lru_not_expired:
  assumes inv: "pool_inv cfg st" and "lru_of st c = Some s" "\<not> expired_idle cfg now s st"
  shows "none_expired cfg now st c"
proof -
  have least: "idle_since st s \<le> idle_since st s'" if "s' \<in> idle_of st c" for s'
    using lru_of_Some [OF assms(2)] pool_invD(2) [OF inv, of c s'] that by (auto simp: idle_of_def)
  obtain i where "bm_get (instances st) s = Some i"
    using lru_of_Idle [OF inv assms(2)] by metis
  with assms(3) least show ?thesis
    by (fastforce simp: none_expired_def expired_idle_def idle_since_def split: option.splits)
qed

lemma sweep_class_spec:
  "pool_inv cfg st \<Longrightarrow> pool_size cfg \<le> u32_max \<Longrightarrow> sweep_class cfg now c st = (vs, st') \<Longrightarrow>
   swept cfg now vs st st' \<and> (\<forall>c'. c' \<noteq> c \<longrightarrow> idle_of st' c' = idle_of st c')
   \<and> min (card (idle_of st c)) (warm_floor cfg c) \<le> card (idle_of st' c)
   \<and> (card (idle_of st' c) \<le> warm_floor cfg c \<or> none_expired cfg now st' c)"
proof (induction cfg now c st arbitrary: vs rule: sweep_class.induct)
  case (1 cfg now c st)
  note inv = "1.prems"(1) and sz = "1.prems"(2)
  have held: "idle_held st c = card (idle_of st c)" by (rule idle_held_card [OF inv sz])
  consider (floor) "idle_held st c \<le> warm_floor cfg c"
    | (none) "\<not> idle_held st c \<le> warm_floor cfg c" "lru_of st c = None"
    | (fresh) s where "\<not> idle_held st c \<le> warm_floor cfg c" "lru_of st c = Some s" "\<not> expired_idle cfg now s st"
    | (due) s where "\<not> idle_held st c \<le> warm_floor cfg c" "lru_of st c = Some s" "expired_idle cfg now s st"
    by (cases "lru_of st c") auto
  then show ?case
  proof cases
    case floor
    then show ?thesis using "1.prems"(3) held by (subst (asm) sweep_class.simps) simp
  next
    case none
    then have "idle_held st c = 0"
      using lru_of_None [OF inv, of c] by (simp add: idle_held_def)
    with none show ?thesis by simp
  next
    case fresh
    then show ?thesis
      using "1.prems"(3) lru_not_expired [OF inv fresh(2,3)] by (subst (asm) sweep_class.simps) simp
  next
    case (due s)
    obtain i where i: "bm_get (instances st) s = Some i" "state i = Idle" "inst_class i = c"
      using lru_of_Idle [OF inv due(2)] by metis
    define st1 where "st1 = moved s IdleExpired Destroying i st"
    have tr: "transition_locked cfg s IdleExpired st = Inr (Destroying, st1)"
      unfolding st1_def using transition_granted [OF inv i(1), of IdleExpired Destroying] i(2)
      by (simp add: step_def)
    have inv1: "pool_inv cfg st1"
      using transition_keeps_inv [OF inv tr] by simp
    obtain vs1 where rec: "sweep_class cfg now c st1 = (vs1, st')" and vs: "vs = s # vs1"
      using "1.prems"(3) due tr by (subst (asm) sweep_class.simps) (auto split: prod.splits)
    have IH: "swept cfg now vs1 st1 st'" "\<And>c'. c' \<noteq> c \<Longrightarrow> idle_of st' c' = idle_of st1 c'"
      "min (card (idle_of st1 c)) (warm_floor cfg c) \<le> card (idle_of st' c)"
      "card (idle_of st' c) \<le> warm_floor cfg c \<or> none_expired cfg now st' c"
      using "1.IH" [OF due(1,2) _ tr] due(3) inv1 sz rec by simp_all
    have own: "idle_of st1 c' = idle_of st c' - {s}" for c'
      by (auto simp: idle_of_def st1_def)
    have "s \<in> idle_of st c" using i by (simp add: idle_of_def)
    then have "card (idle_of st1 c) = card (idle_of st c) - 1"
      using own by (simp add: card_Diff_singleton)
    moreover have "warm_floor cfg c < card (idle_of st c)" using due(1) held by simp
    moreover have "idle_of st1 c' = idle_of st c'" if "c' \<noteq> c" for c'
      using own [of c'] that i by (auto simp: idle_of_def)
    moreover have "swept cfg now vs st st'"
      using swept_append [OF swept_one [OF tr due(3)]] IH(1) by (simp add: vs)
    ultimately show ?thesis using IH by auto
  qed
qed


lemma swept_not_idle: "swept cfg now vs st st' \<Longrightarrow> s \<in> idle_of st' c \<Longrightarrow> s \<notin> set vs"
  by (fastforce simp: swept_def idle_of_def)

lemma sweep_fold_spec:
  assumes "pool_inv cfg (snd acc)" "pool_size cfg \<le> u32_max" "distinct cs"
    "swept cfg now (fst acc) st (snd acc)" "fold (sweep_step cfg now) cs acc = (vs, st')"
  shows "swept cfg now vs st st' \<and> (\<forall>c. c \<notin> set cs \<longrightarrow> idle_of st' c = idle_of (snd acc) c)
    \<and> (\<forall>c \<in> set cs. min (card (idle_of (snd acc) c)) (warm_floor cfg c) \<le> card (idle_of st' c)
         \<and> (card (idle_of st' c) \<le> warm_floor cfg c \<or> none_expired cfg now st' c))"
  using assms
proof (induction cs arbitrary: acc)
  case Nil
  then show ?case by simp
next
  case (Cons c cs)
  obtain vs0 st0 where acc: "acc = (vs0, st0)" by (cases acc)
  obtain vs1 st1 where one: "sweep_class cfg now c st0 = (vs1, st1)"
    by (cases "sweep_class cfg now c st0")
  note spec = sweep_class_spec [OF _ Cons.prems(2) one]
  have inv0: "pool_inv cfg st0" using Cons.prems(1) by (simp add: acc)
  have inv1: "pool_inv cfg st1" using sweep_class_keeps_inv [OF inv0, of now c] by (simp add: one)
  have rest: "fold (sweep_step cfg now) cs (vs0 @ vs1, st1) = (vs, st')"
    using Cons.prems(5) by (simp add: acc) (simp add: sweep_step_def [of cfg now c] one)
  have sw: "swept cfg now (vs0 @ vs1) st st1"
    using Cons.prems(4) spec [OF inv0] by (auto simp: acc intro: swept_append)
  have IH: "swept cfg now vs st st'" "\<And>c'. c' \<notin> set cs \<Longrightarrow> idle_of st' c' = idle_of st1 c'"
    "\<And>c'. c' \<in> set cs \<Longrightarrow> min (card (idle_of st1 c')) (warm_floor cfg c') \<le> card (idle_of st' c')
       \<and> (card (idle_of st' c') \<le> warm_floor cfg c' \<or> none_expired cfg now st' c')"
    using Cons.IH [of "(vs0 @ vs1, st1)"] inv1 Cons.prems(2,3) sw rest by simp_all
  have keep: "idle_of st' c = idle_of st1 c" using IH(2) Cons.prems(3) by simp
  have exp: "none_expired cfg now st' c" if "none_expired cfg now st1 c"
  proof -
    have "bm_get (instances st') s = bm_get (instances st1) s" if "s \<in> idle_of st' c" for s
    proof -
      have "s \<in> idle_of st1 c" using that keep by simp
      then show ?thesis
        using swept_not_idle [OF sw] swept_not_idle [OF IH(1) that] sw IH(1) by (simp add: swept_def)
    qed
    with that keep show ?thesis by (simp add: none_expired_def expired_idle_def)
  qed
  have same: "idle_of st1 c' = idle_of st0 c'" if "c' \<in> set cs" for c'
    using spec [OF inv0] that Cons.prems(3) by auto
  show ?case
    using IH spec [OF inv0] keep exp Cons.prems(3) by (auto simp: acc same)
qed

text \<open>C35: The idle sweep honours the operator's warm floor. Whatever is idle, it takes only instances
  idle for the whole TTL, never takes a class below the floor declared for it, leaves every other
  instance exactly as it was, and stops only where a class is at its floor or holds nothing that
  has expired.\<close>

theorem sweep_keeps_the_warm_floor:
  assumes "pool_inv cfg st" "pool_size cfg \<le> u32_max" "sweep_idle_locked cfg now st = (vs, st')"
  shows "swept cfg now vs st st'
    \<and> min (idle_held st c) (warm_floor cfg c) \<le> idle_held st' c
    \<and> (idle_held st' c \<le> warm_floor cfg c \<or> none_expired cfg now st' c)"
proof -
  note inv = assms(1) and sz = assms(2)
  have inv': "pool_inv cfg st'"
    using sweep_idle_keeps_inv [OF inv, of now] assms(3) by simp
  have fold: "fold (sweep_step cfg now) (bm_keys (idle st)) ([], st) = (vs, st')"
    using assms(3) by (simp add: sweep_idle_locked_def)
  note spec = sweep_fold_spec [OF _ sz bm.keys_distinct _ fold, of st]
  show ?thesis
  proof (cases "bm_contains (idle st) c")
    case True
    then show ?thesis
      using spec inv by (simp add: idle_held_card [OF inv sz] idle_held_card [OF inv' sz])
  next
    case False
    then have "idle_of st c = {}"
      using idle_class_iff [OF inv] by (auto simp: idle_of_def)
    then have "idle_of st' c = {}" using spec inv False by simp
    with \<open>idle_of st c = {}\<close> show ?thesis
      using spec inv by (simp add: idle_held_card [OF inv sz] idle_held_card [OF inv' sz])
  qed
qed

theorem sweep_keeps_the_warm_floor_witness:
  "\<exists>st'. sweep_idle_locked sample_cfg 2000 sample_idle = ([0], st')
     \<and> swept sample_cfg 2000 [0] sample_idle st' \<and> idle_held st' sample_class = 0"
proof -
  have vs: "fst (sweep_idle_locked sample_cfg 2000 sample_idle) = [0]"
    and held: "idle_held (snd (sweep_idle_locked sample_cfg 2000 sample_idle)) sample_class = 0"
    by code_simp+
  obtain st' where sw: "sweep_idle_locked sample_cfg 2000 sample_idle = ([0], st')"
    using vs by (cases "sweep_idle_locked sample_cfg 2000 sample_idle") auto
  with sweep_keeps_the_warm_floor [OF pool_inv_sample_idle _ sw] held show ?thesis
    by (simp add: u32_max_def)
qed

end
