(* ===== verification/Composer.thy ===== *)
theory Composer
  imports Text_Utf8 Wire
begin

text \<open>
  What pmux will paste into Claude's composer: \<open>src/crates/claude/src/composer.rs\<close>,
  \<open>normalize_prompt\<close> of \<open>src/crates/claude/src/engine.rs\<close> and \<open>validate_prompt\<close> of
  \<open>src/crates/service/src/driver_io.rs\<close>. Unicode NFC comes from the \<open>unicode_normalization\<close> crate and
  is the parameter \<open>nfc\<close>.
\<close>

section \<open>Text primitives\<close>

text \<open>\<open>char::is_whitespace\<close>: the White_Space property.\<close>

definition is_whitespace :: "scalar \<Rightarrow> bool" where
  "is_whitespace c \<longleftrightarrow>
     (9 \<le> c \<and> c \<le> 13) \<or> c = 32 \<or> c = 133 \<or> c = 160 \<or> c = 0x1680 \<or> (0x2000 \<le> c \<and> c \<le> 0x200a)
     \<or> c = 0x2028 \<or> c = 0x2029 \<or> c = 0x202f \<or> c = 0x205f \<or> c = 0x3000"

fun strip_prefix :: "'a list \<Rightarrow> 'a list \<Rightarrow> 'a list option" where
  "strip_prefix [] s = Some s"
| "strip_prefix (p # ps) [] = None"
| "strip_prefix (p # ps) (c # cs) = (if p = c then strip_prefix ps cs else None)"

definition strip_suffix :: "'a list \<Rightarrow> 'a list \<Rightarrow> 'a list option" where
  "strip_suffix p s = map_option rev (strip_prefix (rev p) (rev s))"

text \<open>\<open>str::split_once\<close>: around the first occurrence.\<close>

fun split_once :: "'a list \<Rightarrow> 'a list \<Rightarrow> ('a list \<times> 'a list) option" where
  "split_once p [] = (case p of [] \<Rightarrow> Some ([], []) | _ \<Rightarrow> None)"
| "split_once p (c # cs) =
     (case strip_prefix p (c # cs) of
        Some rest \<Rightarrow> Some ([], rest)
      | None \<Rightarrow> map_option (\<lambda>(a, b). (c # a, b)) (split_once p cs))"

definition trim_end_matches :: "('a \<Rightarrow> bool) \<Rightarrow> 'a list \<Rightarrow> 'a list" where
  "trim_end_matches P s = rev (dropWhile P (rev s))"

definition ends_with :: "'a list \<Rightarrow> 'a \<Rightarrow> bool" where
  "ends_with s c \<longleftrightarrow> s \<noteq> [] \<and> List.last s = c"

text \<open>The bytes of a text, as the characters of a message.\<close>

definition utf8_string :: "utext \<Rightarrow> string" where
  "utf8_string t = map (\<lambda>b. char_of (unat b)) (utf8 t)"

section \<open>The composer's rules\<close>

definition COMPOSER_MODE_PREFIXES :: utext where
  "COMPOSER_MODE_PREFIXES = [47, 33]"

definition COMPOSER_REWRITTEN_CHARACTERS :: utext where
  "COMPOSER_REWRITTEN_CHARACTERS = [9, 11, 12]"

definition COMPOSER_LINE_CONTINUATION :: scalar where
  "COMPOSER_LINE_CONTINUATION = 92"

definition is_refused_wherever_it_stands :: "scalar \<Rightarrow> bool" where
  "is_refused_wherever_it_stands c \<longleftrightarrow> is_control c \<and> c \<noteq> 10"

definition is_trimmed_from_the_end :: "scalar \<Rightarrow> bool" where
  "is_trimmed_from_the_end c \<longleftrightarrow>
     (is_whitespace c \<or> c = 0xfeff) \<and> \<not> is_refused_wherever_it_stands c"

definition composer_submitted_text :: "utext \<Rightarrow> utext" where
  "composer_submitted_text prompt = trim_end_matches is_trimmed_from_the_end prompt"

definition is_ignorable_prompt_prefix :: "scalar \<Rightarrow> bool" where
  "is_ignorable_prompt_prefix c \<longleftrightarrow>
     is_whitespace c \<or> c = 0xad \<or> (0x600 \<le> c \<and> c \<le> 0x605) \<or> c = 0x61c \<or> c = 0x6dd \<or> c = 0x70f
     \<or> (0x890 \<le> c \<and> c \<le> 0x891) \<or> c = 0x8e2 \<or> c = 0x180e \<or> (0x200b \<le> c \<and> c \<le> 0x200f)
     \<or> (0x202a \<le> c \<and> c \<le> 0x202e) \<or> (0x2060 \<le> c \<and> c \<le> 0x2064) \<or> (0x2066 \<le> c \<and> c \<le> 0x206f)
     \<or> c = 0xfeff \<or> (0xfff9 \<le> c \<and> c \<le> 0xfffb) \<or> c = 0x110bd \<or> c = 0x110cd
     \<or> (0x13430 \<le> c \<and> c \<le> 0x1343f) \<or> (0x1bca0 \<le> c \<and> c \<le> 0x1bca3)
     \<or> (0x1d173 \<le> c \<and> c \<le> 0x1d17a) \<or> c = 0xe0001 \<or> (0xe0020 \<le> c \<and> c \<le> 0xe007f)"

datatype composer_refusal_kind = ModePrefix scalar | RewrittenCharacter scalar | LineContinuation

fun refusal_code :: "composer_refusal_kind \<Rightarrow> string" where
  "refusal_code (ModePrefix _) = ''composer_mode_prefix''"
| "refusal_code (RewrittenCharacter _) = ''composer_rewritten_character''"
| "refusal_code LineContinuation = ''composer_line_continuation''"

text \<open>\<open>{:04X}\<close>.\<close>

definition hex_upper :: "nat \<Rightarrow> char" where
  "hex_upper d = char_of (if d < 10 then 48 + d else 55 + d)"

fun hex_digits :: "nat \<Rightarrow> string" where
  "hex_digits n = (if n < 16 then [hex_upper n] else hex_digits (n div 16) @ [hex_upper (n mod 16)])"

declare hex_digits.simps [simp del]

definition hex4 :: "nat \<Rightarrow> string" where
  "hex4 n = replicate (4 - length (hex_digits n)) (CHR ''0'') @ hex_digits n"

fun refusal_explain :: "composer_refusal_kind \<Rightarrow> string" where
  "refusal_explain (ModePrefix c) =
     (if c = 47 then
        ''a prompt whose first character is `/` opens the composer's '' @
        ''command menu, so Enter would select a command instead of sending the prompt; '' @
        ''slash commands require a future typed control API.''
      else if c = 33 then
        ''a prompt whose first character is `!` switches the composer '' @
        ''into bash mode, so Enter would RUN THE REST AS A SHELL COMMAND on the host '' @
        ''instead of sending it to the model.''
      else
        ''a prompt whose first character is `'' @ utf8_string [c] @ ''` switches the composer into a '' @
        ''mode, so Enter would not send the prompt to the model.'')"
| "refusal_explain (RewrittenCharacter c) =
     (if c = 9 then
        ''a prompt containing a tab (U+0009) is recorded by '' @
        ''the composer as four spaces, so the turn pmux typed could never be acknowledged '' @
        ''and the instance would be destroyed proving it.''
      else if c = 11 then
        ''a prompt containing a vertical tab (U+000B) is '' @
        ''recorded by the composer as the two characters `^K`, so the turn pmux typed '' @
        ''could never be acknowledged and the instance would be destroyed proving it.''
      else if c = 12 then
        ''a prompt containing a form feed (U+000C) is '' @
        ''recorded by the composer as the two characters `^L`, so the turn pmux typed '' @
        ''could never be acknowledged and the instance would be destroyed proving it.''
      else
        ''a prompt containing U+'' @ hex4 c @ '' is rewritten by the composer, so the turn pmux '' @
        ''typed could never be acknowledged.'')"
| "refusal_explain LineContinuation =
     ''a prompt whose last character is `'' @ utf8_string [COMPOSER_LINE_CONTINUATION] @
     ''` is read by the '' @
     ''composer as a line continuation, so Enter would INSERT A NEWLINE instead of '' @
     ''sending the prompt: the turn would never be submitted and would run to its '' @
     ''deadline, destroying the instance.''"

fun refusal_remedy :: "composer_refusal_kind \<Rightarrow> string" where
  "refusal_remedy (ModePrefix c) =
     (if c = 47 then ''Put a word before it, or ask for the command as text.''
      else if c = 33 then ''Put a word before it, or escape it.''
      else ''Put a word before it.'')"
| "refusal_remedy (RewrittenCharacter c) =
     (if c = 9 then ''Send spaces.'' else ''Send the prompt without that character.'')"
| "refusal_remedy LineContinuation =
     ''Remove it -- doubling it does not escape it, and neither does a space after it, '' @
     ''which the composer removes.''"

definition refusal_describe :: "composer_refusal_kind \<Rightarrow> string" where
  "refusal_describe r = refusal_explain r @ '' '' @ refusal_remedy r"

text \<open>The first character the mode rule looks at.\<close>

definition first_meaningful :: "utext \<Rightarrow> scalar option" where
  "first_meaningful prompt =
     (case dropWhile is_ignorable_prompt_prefix prompt of [] \<Rightarrow> None | c # _ \<Rightarrow> Some c)"

definition composer_refusal :: "utext \<Rightarrow> composer_refusal_kind option" where
  "composer_refusal prompt =
     (case Option.bind (first_meaningful prompt)
             (\<lambda>c. if c \<in> set COMPOSER_MODE_PREFIXES then Some c else None) of
        Some c \<Rightarrow> Some (ModePrefix c)
      | None \<Rightarrow>
          (case find (\<lambda>c. c \<in> set COMPOSER_REWRITTEN_CHARACTERS) prompt of
             Some c \<Rightarrow> Some (RewrittenCharacter c)
           | None \<Rightarrow>
               if ends_with (composer_submitted_text prompt) COMPOSER_LINE_CONTINUATION
               then Some LineContinuation else None))"

section \<open>Normalization and validation\<close>

text \<open>\<open>replace("\r\n", "\n").replace('\r', "\n")\<close>.\<close>

fun replace_crlf :: "utext \<Rightarrow> utext" where
  "replace_crlf (c # d # t) = (if c = 13 \<and> d = 10 then 10 # replace_crlf t else c # replace_crlf (d # t))"
| "replace_crlf t = t"

definition normalize_newlines :: "utext \<Rightarrow> utext" where
  "normalize_newlines t = map (\<lambda>c. if c = 13 then 10 else c) (replace_crlf t)"

definition is_hexdigit :: "scalar \<Rightarrow> bool" where
  "is_hexdigit c \<longleftrightarrow> (48 \<le> c \<and> c \<le> 57) \<or> (65 \<le> c \<and> c \<le> 70) \<or> (97 \<le> c \<and> c \<le> 102)"

definition unwrap_pasted_content_envelope :: "utext \<Rightarrow> utext" where
  "unwrap_pasted_content_envelope prompt =
     (case strip_prefix ([10, 10] @ ascii ''<pasted_content id='' @ [34]) prompt of
        None \<Rightarrow> prompt
      | Some rest \<Rightarrow>
          (case split_once [34, 62, 10] rest of
             None \<Rightarrow> prompt
           | Some (ident, after_open) \<Rightarrow>
               if ident = [] \<or> \<not> list_all is_hexdigit ident then prompt
               else
                 (case strip_suffix ([10] @ ascii ''</pasted_content id='' @ [34] @ ident @ [34, 62, 10])
                         after_open of
                    None \<Rightarrow> prompt
                  | Some body \<Rightarrow> body)))"

definition normalize_prompt :: "(utext \<Rightarrow> utext) \<Rightarrow> utext \<Rightarrow> utext" where
  "normalize_prompt nfc prompt =
     composer_submitted_text (nfc (unwrap_pasted_content_envelope (normalize_newlines prompt)))"

definition MAX_PROMPT_BYTES :: nat where
  "MAX_PROMPT_BYTES = 1024 * 1024"

definition refusal_error_code :: "composer_refusal_kind \<Rightarrow> error_code" where
  "refusal_error_code r =
     (case r of ModePrefix _ \<Rightarrow> UnsupportedFeature | RewrittenCharacter _ \<Rightarrow> InvalidConfig
      | LineContinuation \<Rightarrow> InvalidConfig)"

definition validate_prompt :: "(utext \<Rightarrow> utext) \<Rightarrow> utext \<Rightarrow> error_body + utext" where
  "validate_prompt nfc prompt =
     (let normalized = normalize_prompt nfc prompt
      in if normalized = [] then
           Inl (error_new InvalidConfig
             (''prompt must not be empty; a prompt of nothing but whitespace is empty here, '' @
              ''because the composer removes its trailing whitespace and Enter never submits '' @
              ''what is left''))
         else if byte_len normalized > MAX_PROMPT_BYTES then
           Inl (error_new InvalidConfig
             (''prompt exceeds the '' @ to_string MAX_PROMPT_BYTES @ ''-byte service limit''))
         else case composer_refusal normalized of
           Some refusal \<Rightarrow>
             Inl (with_details (json_object
                 [(''violation'', JString (refusal_code refusal)),
                  (RECOMMENDATION_KEY, JString (refusal_remedy refusal))])
               (error_new (refusal_error_code refusal) (refusal_explain refusal)))
         | None \<Rightarrow>
             if list_ex (\<lambda>c. is_control c \<and> c \<noteq> 10) normalized then
               Inl (error_new InvalidConfig ''prompt contains an unsafe control character'')
             else Inr normalized)"

section \<open>What the rendered rows prove\<close>

definition PASTE_PLACEHOLDER_OPEN :: utext where
  "PASTE_PLACEHOLDER_OPEN = ascii ''[Pasted text #''"

definition collapsed_paste_placeholder :: "u64 \<Rightarrow> nat \<Rightarrow> utext" where
  "collapsed_paste_placeholder counter line_breaks =
     (if line_breaks = 0 then PASTE_PLACEHOLDER_OPEN @ ascii (to_string counter) @ ascii '']''
      else PASTE_PLACEHOLDER_OPEN @ ascii (to_string counter) @ ascii '' +'' @
           ascii (to_string line_breaks) @ ascii '' lines]'')"

datatype composer_render_proof_kind = PromptText | CollapsedPaste

definition a_rendered_row_can_omit :: "scalar \<Rightarrow> bool" where
  "a_rendered_row_can_omit c = is_ignorable_prompt_prefix c"

fun advance_past :: "utext \<Rightarrow> utext \<Rightarrow> utext option" where
  "advance_past rest row =
     (case strip_prefix row rest of
        Some tail \<Rightarrow> Some tail
      | None \<Rightarrow>
          (case rest of
             [] \<Rightarrow> None
           | c # rest' \<Rightarrow> if \<not> a_rendered_row_can_omit c then None else advance_past rest' row))"

declare advance_past.simps [simp del]

text \<open>\<open>"...".parse::<u64>()\<close> of a string of ASCII digits.\<close>

definition parse_u64 :: "utext \<Rightarrow> u64 option" where
  "parse_u64 ds =
     (let n = foldl (\<lambda>a d. a * 10 + (d - 48)) 0 ds
      in if ds = [] \<or> n > u64_max then None else Some n)"

definition composer_render_proof :: "utext list \<Rightarrow> utext \<Rightarrow> composer_render_proof_kind option" where
  "composer_render_proof rows prompt =
     (case rows of
        [] \<Rightarrow> None
      | head # continuations \<Rightarrow>
          (let remaining = fold (\<lambda>row remaining. Option.bind remaining (\<lambda>rest. advance_past rest row))
                 continuations (strip_prefix head prompt)
           in if (case remaining of None \<Rightarrow> False | Some rest \<Rightarrow> list_all a_rendered_row_can_omit rest)
              then Some PromptText
              else if continuations \<noteq> [] then None
              else
                Option.bind (strip_prefix PASTE_PLACEHOLDER_OPEN head) (\<lambda>after.
                Option.bind (parse_u64 (takeWhile (\<lambda>c. 48 \<le> c \<and> c \<le> 57) after)) (\<lambda>counter.
                if head = collapsed_paste_placeholder counter (length (filter (\<lambda>c. c = 10) prompt))
                then Some CollapsedPaste else None))))"

section \<open>Lemmas on trimming and prefixes\<close>

lemma strip_prefix_Some: "strip_prefix p s = Some t \<longleftrightarrow> s = p @ t"
  by (induction p s rule: strip_prefix.induct) auto

lemma trim_end_split:
  "\<exists>w. s = trim_end_matches P s @ w \<and> (\<forall>c \<in> set w. P c)"
proof -
  have "s = rev (takeWhile P (rev s) @ dropWhile P (rev s))" by simp
  then have "s = trim_end_matches P s @ rev (takeWhile P (rev s))"
    by (simp only: trim_end_matches_def rev_append)
  moreover have "\<forall>c \<in> set (rev (takeWhile P (rev s))). P c"
    by (auto dest: set_takeWhileD)
  ultimately show ?thesis by blast
qed

lemma trim_end_last: "trim_end_matches P s \<noteq> [] \<Longrightarrow> \<not> P (List.last (trim_end_matches P s))"
  by (simp add: trim_end_matches_def last_rev hd_dropWhile)

lemma trim_end_idem: "trim_end_matches P (trim_end_matches P s) = trim_end_matches P s"
  by (simp add: trim_end_matches_def)

lemma submitted_normalize [simp]:
  "composer_submitted_text (normalize_prompt nfc p) = normalize_prompt nfc p"
  by (simp add: normalize_prompt_def composer_submitted_text_def trim_end_idem)

lemma refused_control: "c \<in> set COMPOSER_REWRITTEN_CHARACTERS \<Longrightarrow> is_control c \<and> c \<noteq> 10"
  by (auto simp: COMPOSER_REWRITTEN_CHARACTERS_def is_control_def)

text \<open>C39: A prompt is accepted exactly when its normal form is sendable: not empty, within one mebibyte,
  free of control characters other than newline, not opening a composer mode through any run of
  invisible characters, and not ending in whitespace the composer would drop or in a line
  continuation. What is accepted is that normal form.\<close>

theorem prompt_accepted_iff_sendable:
  "validate_prompt nfc p = Inr q \<longleftrightarrow>
     q = normalize_prompt nfc p \<and> q \<noteq> [] \<and> byte_len q \<le> 1048576
     \<and> filter (\<lambda>c. is_control c \<and> c \<noteq> 10) q = []
     \<and> first_meaningful q \<noteq> Some 47 \<and> first_meaningful q \<noteq> Some 33
     \<and> \<not> is_trimmed_from_the_end (List.last q) \<and> List.last q \<noteq> 92"
proof -
  let ?n = "normalize_prompt nfc p"
  have last: "?n \<noteq> [] \<Longrightarrow> \<not> is_trimmed_from_the_end (List.last ?n)"
    by (simp add: normalize_prompt_def composer_submitted_text_def trim_end_last)
  have mode: "Option.bind (first_meaningful t)
      (\<lambda>c. if c \<in> set COMPOSER_MODE_PREFIXES then Some c else None) = None \<longleftrightarrow>
      first_meaningful t \<noteq> Some 47 \<and> first_meaningful t \<noteq> Some 33" for t
    by (cases "first_meaningful t") (auto simp: COMPOSER_MODE_PREFIXES_def)
  have ctl: "list_ex (\<lambda>c. is_control c \<and> c \<noteq> 10) t \<longleftrightarrow> filter (\<lambda>c. is_control c \<and> c \<noteq> 10) t \<noteq> []" for t
    by (auto simp: list_ex_iff filter_empty_conv)
  have rewritten: "find (\<lambda>c. c \<in> set COMPOSER_REWRITTEN_CHARACTERS) t = None"
    if "filter (\<lambda>c. is_control c \<and> c \<noteq> 10) t = []" for t
    using that refused_control by (auto simp: find_None_iff filter_empty_conv)
  have refusal: "composer_refusal ?n = None \<longleftrightarrow>
      first_meaningful ?n \<noteq> Some 47 \<and> first_meaningful ?n \<noteq> Some 33 \<and> List.last ?n \<noteq> 92"
    if "filter (\<lambda>c. is_control c \<and> c \<noteq> 10) ?n = []" "?n \<noteq> []"
    using mode [of ?n] rewritten [OF that(1)] that(2)
    by (cases "Option.bind (first_meaningful ?n)
        (\<lambda>c. if c \<in> set COMPOSER_MODE_PREFIXES then Some c else None)")
      (auto simp: composer_refusal_def ends_with_def COMPOSER_LINE_CONTINUATION_def)
  show ?thesis
  proof (cases "?n = [] \<or> byte_len ?n > 1048576 \<or> filter (\<lambda>c. is_control c \<and> c \<noteq> 10) ?n \<noteq> []")
    case True
    then show ?thesis
      by (auto simp: validate_prompt_def Let_def MAX_PROMPT_BYTES_def ctl split: option.split)
  next
    case False
    then have f: "?n \<noteq> []" "\<not> byte_len ?n > 1048576" "filter (\<lambda>c. is_control c \<and> c \<noteq> 10) ?n = []"
      by simp_all
    show ?thesis
      using f refusal [OF f(3,1)] last [OF f(1)]
      by (cases "composer_refusal ?n") (auto simp: validate_prompt_def Let_def MAX_PROMPT_BYTES_def ctl)
  qed
qed

text \<open>Trimming deletes nothing pmux would refuse: what is cut from the end of a prompt is whitespace or a
  byte order mark, every refused character of the prompt is still there to be reported, and
  trimming again changes nothing.\<close>

lemma trimming_hides_no_refused_character:
  "\<exists>cut. t = composer_submitted_text t @ cut
     \<and> filter (\<lambda>c. \<not> (is_whitespace c \<or> c = 0xfeff)) cut = []
     \<and> filter is_refused_wherever_it_stands (composer_submitted_text t) =
       filter is_refused_wherever_it_stands t
     \<and> composer_submitted_text (composer_submitted_text t) = composer_submitted_text t"
proof -
  obtain w where w: "t = composer_submitted_text t @ w" "\<forall>c \<in> set w. is_trimmed_from_the_end c"
    using trim_end_split [of t is_trimmed_from_the_end] by (auto simp: composer_submitted_text_def)
  then have "filter is_refused_wherever_it_stands w = []"
    "filter (\<lambda>c. \<not> (is_whitespace c \<or> c = 0xfeff)) w = []"
    by (auto simp: is_trimmed_from_the_end_def filter_empty_conv)
  moreover from w(1) have "filter is_refused_wherever_it_stands t =
      filter is_refused_wherever_it_stands (composer_submitted_text t) @ filter is_refused_wherever_it_stands w"
    by (metis filter_append)
  ultimately show ?thesis
    using w(1) by (intro exI [of _ w]) (simp add: composer_submitted_text_def trim_end_idem)
qed

section \<open>Rendered rows\<close>

lemma advance_past_Some:
  "advance_past rest row = Some tail \<Longrightarrow> \<exists>gap. rest = gap @ row @ tail \<and> list_all a_rendered_row_can_omit gap"
proof (induction rest row rule: advance_past.induct)
  case (1 rest row)
  show ?case
  proof (cases "strip_prefix row rest")
    case None
    then obtain c rest' where rest: "rest = c # rest'" "a_rendered_row_can_omit c"
      "advance_past rest' row = Some tail"
      using "1.prems" by (subst (asm) advance_past.simps) (auto split: list.splits if_splits)
    with "1.IH" [OF None rest(1)] obtain gap where "rest' = gap @ row @ tail" "list_all a_rendered_row_can_omit gap"
      by auto
    with rest show ?thesis by (intro exI [of _ "c # gap"]) simp
  next
    case (Some t)
    then have "t = tail" using "1.prems" by (subst (asm) advance_past.simps) simp
    with Some show ?thesis by (intro exI [of _ "[]"]) (simp add: strip_prefix_Some)
  qed
qed

text \<open>The prompt as its rows with runs of undrawable characters between them.\<close>

fun spells :: "utext \<Rightarrow> utext list \<Rightarrow> utext list \<Rightarrow> utext" where
  "spells acc (gap # gaps) (row # rows) = spells (acc @ gap @ row) gaps rows"
| "spells acc _ _ = acc"

lemma rows_advance:
  assumes "fold (\<lambda>row remaining. Option.bind remaining (\<lambda>rest. advance_past rest row)) rows r = Some tail"
  shows "\<exists>rest gaps. r = Some rest \<and> length gaps = length rows
    \<and> list_all (list_all a_rendered_row_can_omit) gaps \<and> (\<forall>acc. acc @ rest = spells acc gaps rows @ tail)"
  using assms
proof (induction rows arbitrary: r)
  case Nil
  then show ?case by (auto intro!: exI [of _ "[]"])
next
  case (Cons row rows)
  then obtain rest' gaps where IH: "Option.bind r (\<lambda>rest. advance_past rest row) = Some rest'"
    "length gaps = length rows" "list_all (list_all a_rendered_row_can_omit) gaps"
    "\<forall>acc. acc @ rest' = spells acc gaps rows @ tail"
    by fastforce
  then obtain rest where r: "r = Some rest" "advance_past rest row = Some rest'"
    by (cases r) auto
  from advance_past_Some [OF r(2)] obtain gap where gap: "rest = gap @ row @ rest'"
    "list_all a_rendered_row_can_omit gap" by blast
  have "acc @ rest = spells acc (gap # gaps) (row # rows) @ tail" for acc
    using IH(4) [rule_format, of "acc @ gap @ row"] gap(1) by simp
  with r(1) gap(2) IH(2,3) show ?case
    by (intro exI [of _ rest] exI [of _ "gap # gaps"]) simp
qed

text \<open>C40: Pressing Enter is licensed only by the whole prompt. When the rendered rows are taken as the
  prompt's own text, the prompt is exactly the rows in order with nothing but undrawable characters
  between and after them; when they are taken as a collapsed paste, they are the one placeholder row
  whose line count is the prompt's.\<close>

theorem render_proof_spells_the_whole_prompt:
  "case composer_render_proof rows prompt of
     Some PromptText \<Rightarrow>
       \<exists>gaps tail. length gaps = length (tl rows)
         \<and> list_all (list_all a_rendered_row_can_omit) gaps \<and> list_all a_rendered_row_can_omit tail
         \<and> rows \<noteq> [] \<and> prompt = spells (hd rows) gaps (tl rows) @ tail
   | Some CollapsedPaste \<Rightarrow>
       \<exists>k. rows = [collapsed_paste_placeholder k (length (filter (\<lambda>c. c = 10) prompt))]
   | None \<Rightarrow> True"
proof (cases rows)
  case Nil
  then show ?thesis by (simp add: composer_render_proof_def)
next
  case (Cons head conts)
  let ?r = "fold (\<lambda>row remaining. Option.bind remaining (\<lambda>rest. advance_past rest row)) conts
    (strip_prefix head prompt)"
  show ?thesis
  proof (cases "case ?r of None \<Rightarrow> False | Some rest \<Rightarrow> list_all a_rendered_row_can_omit rest")
    case True
    then obtain tail where tail: "?r = Some tail" "list_all a_rendered_row_can_omit tail"
      by (auto split: option.splits)
    from rows_advance [OF tail(1)] obtain rest gaps where
      "strip_prefix head prompt = Some rest" "length gaps = length conts"
      "list_all (list_all a_rendered_row_can_omit) gaps" "\<forall>acc. acc @ rest = spells acc gaps conts @ tail"
      by blast
    then have "prompt = spells head gaps conts @ tail" by (simp add: strip_prefix_Some)
    then show ?thesis
      using Cons tail \<open>length gaps = _\<close> \<open>list_all (list_all _) gaps\<close>
      by (auto simp: composer_render_proof_def Let_def)
  next
    case False
    then show ?thesis
      using Cons by (auto simp: composer_render_proof_def Let_def bind_eq_Some_conv
          split: option.split composer_render_proof_kind.split if_splits)
  qed
qed

end
