(* ===== verification/Filesystem.thy ===== *)
theory Filesystem
  imports Paths PoolState
begin

unbundle bit_operations_syntax

text \<open>
  The pool's filesystem effects: \<open>src/crates/service/src/private_dir.rs\<close> and \<open>require_private_parent\<close>,
  \<open>mint_roots\<close>, \<open>create_owner_only\<close> and \<open>erase_tree\<close> of \<open>src/crates/service/src/pool/mod.rs\<close>.

  A filesystem maps a path to its node. The kernel's own refusals (permission, a full disk, a busy
  directory) are the parameter \<open>os\<close>: for every call it says whether it fails and how, and for a
  recursive removal that fails, what it had already removed. Symbolic links are nodes of their own,
  as \<open>lstat\<close> sees them; a link among the ancestors of a path is not followed.
\<close>

section \<open>The operating system\<close>

datatype io_kind = NotFound | AlreadyExists | InvalidInput | OtherIo

record io_error =
  io_kind_of :: io_kind
  io_message :: string

datatype node_kind = Directory | RegularFile | Symlink

record node =
  n_kind :: node_kind
  n_mode :: "32 word"
  n_uid :: u32

type_synonym fs = "path \<Rightarrow> node option"

record os =
  umask :: "32 word"
  effective_uid :: u32
  lstat_fault :: "path \<Rightarrow> io_error option"
  mkdir_fault :: "path \<Rightarrow> io_error option"
  chmod_fault :: "path \<Rightarrow> io_error option"
  rename_fault :: "path \<Rightarrow> io_error option"
  remove_fault :: "path \<Rightarrow> (io_error \<times> (path \<Rightarrow> bool)) option"
  link_resolves :: "path \<Rightarrow> bool"

definition not_found :: io_error where
  "not_found = \<lparr>io_kind_of = NotFound, io_message = ''No such file or directory (os error 2)''\<rparr>"

definition already_exists :: io_error where
  "already_exists = \<lparr>io_kind_of = AlreadyExists, io_message = ''File exists (os error 17)''\<rparr>"

definition not_empty :: io_error where
  "not_empty = \<lparr>io_kind_of = OtherIo, io_message = ''Directory not empty (os error 39)''\<rparr>"

definition symlink_metadata :: "os \<Rightarrow> path \<Rightarrow> fs \<Rightarrow> io_error + node" where
  "symlink_metadata os p fs =
     (case lstat_fault os p of
        Some e \<Rightarrow> Inl e
      | None \<Rightarrow> (case fs p of None \<Rightarrow> Inl not_found | Some n \<Rightarrow> Inr n))"

text \<open>\<open>Path::exists\<close> follows a final link and answers false on any error.\<close>

definition path_exists :: "os \<Rightarrow> path \<Rightarrow> fs \<Rightarrow> bool" where
  "path_exists os p fs =
     (case symlink_metadata os p fs of
        Inl _ \<Rightarrow> False
      | Inr n \<Rightarrow> if n_kind n = Symlink then link_resolves os p else True)"

definition not_a_directory :: io_error where
  "not_a_directory = \<lparr>io_kind_of = OtherIo, io_message = ''Not a directory (os error 20)''\<rparr>"

text \<open>Why a new entry \<open>p\<close> cannot be made: its parent is missing, dangling, or no directory.\<close>

definition bad_parent :: "os \<Rightarrow> path \<Rightarrow> fs \<Rightarrow> io_error option" where
  "bad_parent os p fs =
     (case parent p of
        None \<Rightarrow> None
      | Some q \<Rightarrow>
          if q = Path False [] then None
          else case fs q of
            None \<Rightarrow> Some not_found
          | Some n \<Rightarrow>
              (case n_kind n of
                 Directory \<Rightarrow> None
               | RegularFile \<Rightarrow> Some not_a_directory
               | Symlink \<Rightarrow> if link_resolves os q then None else Some not_found))"

definition mkdir :: "os \<Rightarrow> 32 word \<Rightarrow> path \<Rightarrow> fs \<Rightarrow> (io_error + unit) \<times> fs" where
  "mkdir os mode p fs =
     (case mkdir_fault os p of
        Some e \<Rightarrow> (Inl e, fs)
      | None \<Rightarrow>
          if fs p \<noteq> None then (Inl already_exists, fs)
          else case bad_parent os p fs of
            Some e \<Rightarrow> (Inl e, fs)
          | None \<Rightarrow> (Inr (), fs(p \<mapsto> \<lparr>n_kind = Directory, n_mode = mode AND NOT (umask os),
                                   n_uid = effective_uid os\<rparr>)))"

text \<open>\<open>chmod\<close> follows a link; what is behind it is not a node of the model.\<close>

definition chmod :: "os \<Rightarrow> 32 word \<Rightarrow> path \<Rightarrow> fs \<Rightarrow> (io_error + unit) \<times> fs" where
  "chmod os mode p fs =
     (case chmod_fault os p of
        Some e \<Rightarrow> (Inl e, fs)
      | None \<Rightarrow>
          (case fs p of
             None \<Rightarrow> (Inl not_found, fs)
           | Some n \<Rightarrow>
               if n_kind n = Symlink then
                 (if link_resolves os p then (Inr (), fs) else (Inl not_found, fs))
               else (Inr (), fs(p \<mapsto> n\<lparr>n_mode := mode\<rparr>))))"

definition remove_dir_all :: "os \<Rightarrow> path \<Rightarrow> fs \<Rightarrow> (io_error + unit) \<times> fs" where
  "remove_dir_all os p fs =
     (case remove_fault os p of
        Some (e, gone) \<Rightarrow> (Inl e, \<lambda>x. if starts_with x p \<and> x \<noteq> p \<and> gone x then None else fs x)
      | None \<Rightarrow>
          if fs p = None then (Inl not_found, fs)
          else (Inr (), \<lambda>x. if starts_with x p then None else fs x))"

text \<open>The path a node under \<open>to\<close> had under \<open>frm\<close>.\<close>

definition rebase :: "path \<Rightarrow> path \<Rightarrow> path \<Rightarrow> path" where
  "rebase frm to x =
     Path (is_absolute frm) (components frm @ drop (length (components to)) (components x))"

definition rename :: "os \<Rightarrow> path \<Rightarrow> path \<Rightarrow> fs \<Rightarrow> (io_error + unit) \<times> fs" where
  "rename os frm to fs =
     (case rename_fault os frm of
        Some e \<Rightarrow> (Inl e, fs)
      | None \<Rightarrow>
          if fs frm = None then (Inl not_found, fs)
          else if bad_parent os to fs \<noteq> None then (Inl not_found, fs)
          else if fs to \<noteq> None then (Inl not_empty, fs)
          else (Inr (), \<lambda>x. if starts_with x to then fs (rebase frm to x)
                             else if starts_with x frm then None else fs x))"

section \<open>Private directories\<close>

definition OWNER_ONLY :: "32 word" where
  "OWNER_ONLY = 0x1C0"

definition seal_owner_only :: "os \<Rightarrow> path \<Rightarrow> fs \<Rightarrow> (io_error + unit) \<times> fs" where
  "seal_owner_only os p fs = chmod os OWNER_ONLY p fs"

fun missing_ancestors :: "os \<Rightarrow> fs \<Rightarrow> path list \<Rightarrow> io_error + path list" where
  "missing_ancestors os fs [] = Inr []"
| "missing_ancestors os fs (a # as) =
     (if a = Path False [] then Inr []
      else case symlink_metadata os a fs of
        Inr _ \<Rightarrow> Inr []
      | Inl e \<Rightarrow>
          if io_kind_of e = NotFound
          then bind_r (missing_ancestors os fs as) (\<lambda>ms. Inr (a # ms))
          else Inl e)"

fun create_each :: "os \<Rightarrow> path list \<Rightarrow> fs \<Rightarrow> (io_error + path list) \<times> fs" where
  "create_each os [] fs = (Inr [], fs)"
| "create_each os (d # ds) fs =
     (case mkdir os OWNER_ONLY d fs of
        (Inl e, fs1) \<Rightarrow>
          if io_kind_of e = AlreadyExists then create_each os ds fs1 else (Inl e, fs1)
      | (Inr _, fs1) \<Rightarrow>
          (case seal_owner_only os d fs1 of
             (Inl e, fs2) \<Rightarrow> (Inl e, fs2)
           | (Inr _, fs2) \<Rightarrow>
               (case create_each os ds fs2 of
                  (Inl e, fs3) \<Rightarrow> (Inl e, fs3)
                | (Inr created, fs3) \<Rightarrow> (Inr (d # created), fs3))))"

definition create_private_dir_all :: "os \<Rightarrow> path \<Rightarrow> fs \<Rightarrow> (io_error + path list) \<times> fs" where
  "create_private_dir_all os p fs =
     (case missing_ancestors os fs (ancestors p) of
        Inl e \<Rightarrow> (Inl e, fs)
      | Inr missing \<Rightarrow> create_each os (rev missing) fs)"

text \<open>\<open>{mode:o}\<close>.\<close>

fun octal :: "nat \<Rightarrow> string" where
  "octal n = (if n < 8 then [digit_char n] else octal (n div 8) @ [digit_char (n mod 8)])"

declare octal.simps [simp del]

definition owner_only_violation :: "node \<Rightarrow> u32 \<Rightarrow> string option" where
  "owner_only_violation n uid =
     (if n_uid n \<noteq> uid then
        Some (''it is owned by uid '' @ to_string (n_uid n) @ '', not the current user'')
      else
        (let mode = n_mode n AND 0x1FF
         in if mode AND 0x3F \<noteq> 0 then Some (''its mode is '' @ octal (unat mode) @ '', not owner-only'')
            else None))"

section \<open>The pool's trees\<close>

definition show_path :: "path \<Rightarrow> string" where
  "show_path p = (if is_absolute p then ''/'' else []) @ join_with ''/'' (components p)"

definition require_private_parent :: "os \<Rightarrow> path \<Rightarrow> config_field \<Rightarrow> fs \<Rightarrow> (error_body + unit) \<times> fs" where
  "require_private_parent os p field fs =
     (let lead = show_config_field field @ '' '' @ show_path p
      in case create_private_dir_all os p fs of
           (Inl e, fs1) \<Rightarrow>
             (Inl (error_new InvalidConfig (lead @ '': could not create it: '' @ io_message e)), fs1)
         | (Inr _, fs1) \<Rightarrow>
             (case symlink_metadata os p fs1 of
                Inl e \<Rightarrow>
                  (Inl (error_new InvalidConfig (lead @ '': could not inspect it: '' @ io_message e)), fs1)
              | Inr n \<Rightarrow>
                  if n_kind n \<noteq> Directory then
                    (Inl (error_new InvalidConfig (lead @ '' is not a directory'')), fs1)
                  else case owner_only_violation n (effective_uid os) of
                    Some reason \<Rightarrow>
                      (Inl (error_new InvalidConfig
                        (lead @ '' must be owner-only and owned by the daemon's user, the same bar the '' @
                         ''daemon's socket directory is held to, because every pool instance's config root '' @
                         ''and cwd live under it: '' @ reason)), fs1)
                  | None \<Rightarrow> (Inr (), fs1)))"

definition create_owner_only :: "os \<Rightarrow> path \<Rightarrow> fs \<Rightarrow> (error_body + unit) \<times> fs" where
  "create_owner_only os p fs =
     (case create_private_dir_all os p fs of
        (Inl e, fs1) \<Rightarrow> (Inl (internal (''could not create '' @ show_path p @ '': '' @ io_message e)), fs1)
      | (Inr _, fs1) \<Rightarrow>
          (case seal_owner_only os p fs1 of
             (Inl e, fs2) \<Rightarrow>
               (Inl (internal (''could not seal '' @ show_path p @ '' to 0700: '' @ io_message e)), fs2)
           | (Inr _, fs2) \<Rightarrow> (Inr (), fs2)))"

fun create_all_owner_only :: "os \<Rightarrow> path list \<Rightarrow> fs \<Rightarrow> (error_body + unit) \<times> fs" where
  "create_all_owner_only os [] fs = (Inr (), fs)"
| "create_all_owner_only os (d # ds) fs =
     (case create_owner_only os d fs of
        (Inl e, fs1) \<Rightarrow> (Inl e, fs1)
      | (Inr _, fs1) \<Rightarrow> create_all_owner_only os ds fs1)"

definition mint_roots :: "os \<Rightarrow> path \<Rightarrow> slot_paths \<Rightarrow> fs \<Rightarrow> (error_body + unit) \<times> fs" where
  "mint_roots os par sp fs =
     (if path_exists os (epoch_dir sp) fs then
        (Inl (internal (''epoch directory '' @ show_path (epoch_dir sp) @
           '' already exists, so a previous daemon did not shut down cleanly; '' @
           ''the pool never adopts a tree it did not create, and this mint erases that tree as it '' @
           ''fails, so a repeated start passes this slot'')), fs)
      else case minted_dirs sp par of
        None \<Rightarrow>
          (Inl (internal (show_path (epoch_dir sp) @ '' is not under the pool parent '' @ show_path par)), fs)
      | Some dirs \<Rightarrow> create_all_owner_only os dirs fs)"

text \<open>\<open><slot>-<epoch>\<close> under the retain directory.\<close>

definition retained_name :: "path \<Rightarrow> string" where
  "retained_name dir =
     (case Option.bind (parent dir) file_name of None \<Rightarrow> ''slot'' | Some s \<Rightarrow> s) @ ''-'' @
     (case file_name dir of None \<Rightarrow> ''epoch'' | Some e \<Rightarrow> e)"

definition erase_tree ::
  "os \<Rightarrow> path \<Rightarrow> slot_paths \<Rightarrow> path option \<Rightarrow> fs \<Rightarrow> (io_error + unit) \<times> fs" where
  "erase_tree os par sp retain fs =
     (if \<not> starts_with (epoch_dir sp) par then
        (Inl \<lparr>io_kind_of = InvalidInput,
           io_message = show_path (epoch_dir sp) @ '' is not under the pool parent '' @ show_path par\<rparr>, fs)
      else case symlink_metadata os (epoch_dir sp) fs of
        Inl e \<Rightarrow> if io_kind_of e = NotFound then (Inr (), fs) else (Inl e, fs)
      | Inr n \<Rightarrow>
          if n_kind n = Symlink \<or> n_kind n \<noteq> Directory then
            (Inl \<lparr>io_kind_of = InvalidInput,
               io_message = show_path (epoch_dir sp) @ '' is not a directory pmux minted''\<rparr>, fs)
          else case retain of
            None \<Rightarrow> remove_dir_all os (epoch_dir sp) fs
          | Some keep \<Rightarrow>
              (case create_private_dir_all os keep fs of
                 (Inl e, fs1) \<Rightarrow> (Inl e, fs1)
               | (Inr _, fs1) \<Rightarrow>
                   (let stamped = join keep (retained_name (epoch_dir sp))
                    in case (if path_exists os stamped fs1 then remove_dir_all os stamped fs1
                             else (Inr (), fs1)) of
                         (Inl e, fs2) \<Rightarrow> (Inl e, fs2)
                       | (Inr _, fs2) \<Rightarrow> rename os (epoch_dir sp) stamped fs2)))"

section \<open>A quiet machine\<close>

text \<open>
  No other process interferes: the kernel does not report as missing a path that is there, nor as
  there a path that is missing. Every other failure stays possible.
\<close>

definition undisturbed :: "os \<Rightarrow> bool" where
  "undisturbed os \<longleftrightarrow>
     (\<forall>p e. lstat_fault os p = Some e \<longrightarrow> io_kind_of e \<noteq> NotFound)
     \<and> (\<forall>p e. mkdir_fault os p = Some e \<longrightarrow> io_kind_of e \<noteq> AlreadyExists)"

text \<open>Every entry has its parent directory.\<close>

definition fs_closed :: "fs \<Rightarrow> bool" where
  "fs_closed fs \<longleftrightarrow> (\<forall>p c. fs (join p c) \<noteq> None \<longrightarrow> p = Path False [] \<or> fs p \<noteq> None)"

lemma starts_with_iff: "starts_with x d \<longleftrightarrow> (\<exists>cs. x = Path (is_absolute d) (components d @ cs))"
  by (cases x) (auto simp: starts_with_def prefix_def)

lemma closed_below:
  assumes cl: "fs_closed fs" and none: "fs d = None" and ne: "d \<noteq> Path False []" and x: "starts_with x d"
  shows "fs x = None"
proof -
  obtain cs where "x = Path (is_absolute d) (components d @ cs)"
    using x by (auto simp: starts_with_iff)
  moreover have "fs (Path (is_absolute d) (components d @ cs)) = None" for cs
  proof (induction cs rule: rev_induct)
    case Nil
    then show ?case using none by simp
  next
    case (snoc c cs)
    let ?p = "Path (is_absolute d) (components d @ cs)"
    have "?p \<noteq> Path False []" using ne by (cases d) auto
    moreover have "join ?p c = Path (is_absolute d) (components d @ cs @ [c])"
      by (simp add: join_def)
    ultimately show ?case
      using cl snoc.IH unfolding fs_closed_def by metis
  qed
  ultimately show ?thesis by simp
qed

lemma lstat_missing:
  "undisturbed os \<Longrightarrow> symlink_metadata os p fs = Inl e \<Longrightarrow> io_kind_of e = NotFound \<Longrightarrow> fs p = None"
  by (auto simp: symlink_metadata_def undisturbed_def split: option.splits)

lemma lstat_found: "symlink_metadata os p fs = Inr n \<Longrightarrow> fs p = Some n"
  by (auto simp: symlink_metadata_def split: option.splits)

definition private_node :: "os \<Rightarrow> node" where
  "private_node os = \<lparr>n_kind = Directory, n_mode = OWNER_ONLY, n_uid = effective_uid os\<rparr>"

lemma missing_ancestors_None:
  "undisturbed os \<Longrightarrow> missing_ancestors os fs as = Inr ms \<Longrightarrow>
   (\<exists>rest. as = ms @ rest) \<and> (\<forall>m \<in> set ms. fs m = None)"
proof (induction "as" arbitrary: ms)
  case (Cons a as)
  show ?case
  proof (cases "a = Path False [] \<or> is_ok (symlink_metadata os a fs)")
    case True
    then show ?thesis
      using Cons.prems(2) by (auto split: if_splits sum.splits)
  next
    case False
    then obtain e where e: "symlink_metadata os a fs = Inl e"
      by (cases "symlink_metadata os a fs") auto
    with Cons.prems(2) False obtain ms' where ms': "io_kind_of e = NotFound" "ms = a # ms'"
      "missing_ancestors os fs as = Inr ms'"
      by (auto simp: bind_r_Inr split: if_splits)
    with Cons.IH [OF Cons.prems(1) ms'(3)] lstat_missing [OF Cons.prems(1) e] show ?thesis
      by auto
  qed
qed simp

lemma missing_ancestors_head:
  "missing_ancestors os fs (a # as) = Inr ms \<Longrightarrow> a \<noteq> Path False [] \<Longrightarrow> fs a = None \<Longrightarrow> a \<in> set ms"
  by (auto simp: bind_r_Inr split: sum.splits if_splits dest: lstat_found)

lemma create_each_Inr:
  assumes "undisturbed os" "distinct ds" "\<forall>d \<in> set ds. fs d = None" "create_each os ds fs = (Inr cr, fs')"
  shows "cr = ds \<and> fs' = (\<lambda>x. if x \<in> set ds then Some (private_node os) else fs x)"
  using assms
proof (induction ds arbitrary: fs cr)
  case (Cons d ds)
  have none: "fs d = None" using Cons.prems(3) by simp
  obtain r1 fs1 where m: "mkdir os OWNER_ONLY d fs = (r1, fs1)" by (cases "mkdir os OWNER_ONLY d fs")
  have r1: "r1 = Inr ()" and fs1: "fs1 = fs(d \<mapsto> \<lparr>n_kind = Directory,
      n_mode = OWNER_ONLY AND NOT (umask os), n_uid = effective_uid os\<rparr>)"
  proof -
    have "\<not> (\<exists>e. r1 = Inl e \<and> io_kind_of e = AlreadyExists)"
      using m none Cons.prems(1)
      by (auto simp: mkdir_def undisturbed_def bad_parent_def not_found_def not_a_directory_def
          split: option.splits if_splits node_kind.splits)
    then show "r1 = Inr ()"
      using Cons.prems(4) m by (cases r1) auto
    with m none show "fs1 = fs(d \<mapsto> \<lparr>n_kind = Directory,
      n_mode = OWNER_ONLY AND NOT (umask os), n_uid = effective_uid os\<rparr>)"
      by (auto simp: mkdir_def split: option.splits)
  qed
  obtain r2 fs2 where c: "seal_owner_only os d fs1 = (r2, fs2)" by (cases "seal_owner_only os d fs1")
  have r2: "r2 = Inr ()"
    using Cons.prems(4) m c r1 by (cases r2) auto
  then have fs2: "fs2 = fs(d \<mapsto> private_node os)"
    using c by (auto simp: seal_owner_only_def chmod_def fs1 private_node_def split: option.splits)
  obtain cr' where rec: "create_each os ds fs2 = (Inr cr', fs')" "cr = d # cr'"
    using Cons.prems(4) m c r1 r2 by (auto split: prod.splits sum.splits)
  have "\<forall>d' \<in> set ds. fs2 d' = None"
    using Cons.prems(2,3) by (auto simp: fs2)
  from Cons.IH [OF Cons.prems(1) _ this rec(1)] Cons.prems(2) rec(2) show ?case
    by (auto simp: fs2)
qed auto

lemma distinct_ancestors: "distinct (ancestors p)"
proof -
  have "inj_on (\<lambda>n. Path (is_absolute p) (take n (components p))) {0..<Suc (length (components p))}"
    by (rule inj_onI) (auto, metis length_take min.absorb2 less_Suc_eq_le)
  then show ?thesis
    unfolding ancestors_def distinct_map by (simp only: set_rev set_upt distinct_rev distinct_upt simp_thms)
qed

text \<open>
  What creating a directory privately did: some missing ancestors (the path itself among them if it
  was missing) are now private directories, and nothing else changed.
\<close>

lemma create_private_dir_all_Inr:
  assumes "undisturbed os" "create_private_dir_all os p fs = (Inr cr, fs')"
  shows "(\<forall>d \<in> set cr. fs d = None \<and> starts_with p d)
    \<and> fs' = (\<lambda>x. if x \<in> set cr then Some (private_node os) else fs x)
    \<and> (p \<noteq> Path False [] \<and> fs p = None \<longrightarrow> p \<in> set cr)"
proof -
  obtain ms where ms: "missing_ancestors os fs (ancestors p) = Inr ms"
    "create_each os (rev ms) fs = (Inr cr, fs')"
    using assms(2) by (auto simp: create_private_dir_all_def split: sum.splits)
  obtain rest where rest: "ancestors p = ms @ rest" and none: "\<forall>m \<in> set ms. fs m = None"
    using missing_ancestors_None [OF assms(1) ms(1)] by blast
  have "distinct (rev ms)"
    using distinct_ancestors [of p] rest by simp
  from create_each_Inr [OF assms(1) this _ ms(2)] none
  have cr: "cr = rev ms" "fs' = (\<lambda>x. if x \<in> set ms then Some (private_node os) else fs x)"
    by auto
  moreover have "\<forall>d \<in> set ms. starts_with p d"
    using set_ancestors [of _ p] rest by auto
  moreover have "p \<in> set ms" if "p \<noteq> Path False []" "fs p = None"
    using ancestors_self [of p] missing_ancestors_head [of os fs p] ms(1) that by auto
  ultimately show ?thesis
    using none by auto
qed

section \<open>Minting\<close>

text \<open>One directory made or sealed owner-only, with whatever ancestors were missing.\<close>

definition grown :: "os \<Rightarrow> path \<Rightarrow> fs \<Rightarrow> fs \<Rightarrow> bool" where
  "grown os p fs fs' \<longleftrightarrow>
     (\<forall>x. x \<noteq> p \<longrightarrow> fs' x = fs x \<or> fs x = None \<and> starts_with p x \<and> fs' x = Some (private_node os))
     \<and> (case fs p of
          None \<Rightarrow> fs' p = Some (private_node os)
        | Some n \<Rightarrow> fs' p = Some (if n_kind n = Symlink then n else n\<lparr>n_mode := OWNER_ONLY\<rparr>))"

lemma create_owner_only_grown:
  assumes q: "undisturbed os" "p \<noteq> Path False []" and c: "create_owner_only os p fs = (Inr (), fs')"
  shows "grown os p fs fs'"
proof -
  obtain cr fs1 where mk: "create_private_dir_all os p fs = (Inr cr, fs1)"
    and ch: "chmod os OWNER_ONLY p fs1 = (Inr (), fs')"
    using c by (auto simp: create_owner_only_def seal_owner_only_def split: prod.splits sum.splits)
  note cr = create_private_dir_all_Inr [OF q(1) mk]
  obtain n where n: "fs1 p = Some n" "fs' = (if n_kind n = Symlink then fs1 else fs1(p \<mapsto> n\<lparr>n_mode := OWNER_ONLY\<rparr>))"
    using ch by (auto simp: chmod_def split: option.splits if_splits)
  show ?thesis
  proof (cases "fs p")
    case None
    then have "n = private_node os" using cr q(2) n(1) by auto
    with None n cr show ?thesis by (auto simp: grown_def private_node_def)
  next
    case (Some m)
    then have "m = n" using cr n(1) by (auto split: if_splits)
    with Some n cr show ?thesis by (auto simp: grown_def)
  qed
qed

lemma grown_other: "grown os p fs fs' \<Longrightarrow> x \<noteq> p \<Longrightarrow> \<not> starts_with p x \<Longrightarrow> fs' x = fs x"
  by (auto simp: grown_def)

lemma grown_keep: "grown os p fs fs' \<Longrightarrow> x \<noteq> p \<Longrightarrow> fs x = Some n \<Longrightarrow> fs' x = Some n"
  by (auto simp: grown_def)

lemma grown_made: "grown os p fs fs' \<Longrightarrow> fs p = None \<Longrightarrow> fs' p = Some (private_node os)"
  by (simp add: grown_def)

lemma absent_if_made:
  assumes q: "undisturbed os" and ne: "\<not> path_exists os p fs" "p \<noteq> Path False []"
    and c: "create_owner_only os p fs1 = (Inr (), fs2)" and same: "fs1 p = fs p"
  shows "fs p = None"
proof (rule ccontr)
  assume "fs p \<noteq> None"
  then obtain n where n: "fs p = Some n" by blast
  obtain cr fs' where mk: "create_private_dir_all os p fs1 = (Inr cr, fs')"
    and ch: "chmod os OWNER_ONLY p fs' = (Inr (), fs2)"
    using c by (auto simp: create_owner_only_def seal_owner_only_def split: prod.splits sum.splits)
  have "lstat_fault os p = None"
  proof (rule ccontr)
    assume "lstat_fault os p \<noteq> None"
    then obtain e where e: "lstat_fault os p = Some e" "io_kind_of e \<noteq> NotFound"
      using q by (auto simp: undisturbed_def)
    obtain rest where "ancestors p = p # rest" using ancestors_self by blast
    with e mk ne(2) show False
      by (simp add: create_private_dir_all_def symlink_metadata_def)
  qed
  then have "n_kind n = Symlink" "\<not> link_resolves os p"
    using ne(1) n by (auto simp: path_exists_def symlink_metadata_def split: if_splits)
  moreover have "fs' p = Some n"
    using create_private_dir_all_Inr [OF q mk] same n by auto
  ultimately show False
    using ch by (auto simp: chmod_def split: option.splits)
qed

lemma starts_with_antisym: "starts_with p q \<Longrightarrow> starts_with q p \<Longrightarrow> p = q"
  by (cases p; cases q) (auto simp: starts_with_def)

lemma starts_with_join_iff: "starts_with (join p c) x \<longleftrightarrow> x = join p c \<or> starts_with p x"
  by (cases p; cases x) (auto simp: starts_with_def join_def prefix_snoc)

lemma not_starts_with_join [simp]: "\<not> starts_with p (join p c)" "join p c \<noteq> Path False []"
  by (cases p; auto simp: starts_with_def join_def)+


section \<open>Erasing\<close>

lemma remove_dir_all_outside:
  "remove_dir_all os p fs = (r, fs') \<Longrightarrow> \<not> starts_with x p \<Longrightarrow> fs' x = fs x"
  by (auto simp: remove_dir_all_def split: option.splits prod.splits if_splits)

lemma create_each_keeps: "create_each os ds fs = (r, fs') \<Longrightarrow> fs' x = fs x \<or> fs x = None \<and> x \<in> set ds"
proof (induction ds arbitrary: fs r fs')
  case (Cons d ds)
  obtain made fs1 where made: "mkdir os OWNER_ONLY d fs = (made, fs1)" by (cases "mkdir os OWNER_ONLY d fs")
  obtain sealed fs2 where sealed: "seal_owner_only os d fs1 = (sealed, fs2)" by (cases "seal_owner_only os d fs1")
  have fs1: "fs1 = fs \<or> fs d = None \<and> (\<forall>y. y \<noteq> d \<longrightarrow> fs1 y = fs y)"
    using made by (auto simp: mkdir_def split: option.splits if_splits)
  have fs2: "fs2 y = fs1 y" if "y \<noteq> d" for y
    using sealed that by (auto simp: seal_owner_only_def chmod_def split: option.splits if_splits)
  have start: "f x = fs x \<or> fs x = None \<and> x = d" if "f \<in> {fs1, fs2}" "is_ok made \<or> f = fs1" for f
  proof -
    have "fs d = None" if "is_ok made" using made that by (auto simp: mkdir_def split: option.splits if_splits)
    then show ?thesis using that fs1 fs2 by (cases "x = d") auto
  qed
  have "fs' \<in> {fs1, fs2} \<and> (is_ok made \<or> fs' = fs1)
      \<or> (\<exists>f r'. f \<in> {fs1, fs2} \<and> (is_ok made \<or> f = fs1) \<and> create_each os ds f = (r', fs'))"
    using Cons.prems made sealed by (auto split: sum.splits prod.splits if_splits)
  then consider "fs' \<in> {fs1, fs2}" "is_ok made \<or> fs' = fs1"
    | f r' where "f \<in> {fs1, fs2}" "is_ok made \<or> f = fs1" "create_each os ds f = (r', fs')"
    by blast
  then show ?case
  proof cases
    case 1
    then show ?thesis using start [of fs'] by auto
  next
    case 2
    then show ?thesis using start [of f] Cons.IH [of f r' fs'] by auto
  qed
qed simp

lemma missing_are_ancestors: "missing_ancestors os fs as = Inr ms \<Longrightarrow> set ms \<subseteq> set as"
  by (induction "as" arbitrary: ms) (auto simp: bind_r_Inr split: if_splits sum.splits)

lemma create_private_dir_all_keeps:
  assumes "create_private_dir_all os p fs = (r, fs')"
  shows "fs' x = fs x \<or> fs x = None \<and> starts_with p x"
proof (cases "missing_ancestors os fs (ancestors p)")
  case (Inr ms)
  then have "create_each os (rev ms) fs = (r, fs')" using assms by (simp add: create_private_dir_all_def)
  from create_each_keeps [OF this, of x] show ?thesis
    using missing_are_ancestors [OF Inr] by (auto simp: set_ancestors)
qed (use assms in \<open>simp add: create_private_dir_all_def\<close>)

lemma rename_outside:
  "rename os frm to fs = (r, fs') \<Longrightarrow> \<not> starts_with x frm \<Longrightarrow> \<not> starts_with x to \<Longrightarrow> fs' x = fs x"
  by (auto simp: rename_def split: option.splits if_splits)

lemma erase_tree_outside:
  assumes er: "erase_tree os par sp retain fs = (r, fs')" and x: "\<not> starts_with x (epoch_dir sp)"
    "\<And>keep. retain = Some keep \<Longrightarrow> \<not> starts_with x (join keep (retained_name (epoch_dir sp)))"
  shows "fs' x = fs x \<or> (\<exists>keep. retain = Some keep \<and> starts_with keep x \<and> fs x = None)"
proof (cases "starts_with (epoch_dir sp) par \<and> (\<exists>n. symlink_metadata os (epoch_dir sp) fs = Inr n \<and> n_kind n = Directory)")
  case False
  then show ?thesis using er by (auto simp: erase_tree_def split: if_splits sum.splits)
next
  case dir: True
  show ?thesis
  proof (cases retain)
    case None
    then have "remove_dir_all os (epoch_dir sp) fs = (r, fs')" using er dir by (auto simp: erase_tree_def)
    then show ?thesis using remove_dir_all_outside x(1) by blast
  next
    case (Some keep)
    let ?T = "join keep (retained_name (epoch_dir sp))"
    obtain c fs1 where c: "create_private_dir_all os keep fs = (c, fs1)" by (cases "create_private_dir_all os keep fs")
    obtain d fs2 where d: "(if path_exists os ?T fs1 then remove_dir_all os ?T fs1 else (Inr (), fs1)) = (d, fs2)"
      by (cases "if path_exists os ?T fs1 then remove_dir_all os ?T fs1 else (Inr (), fs1)")
    have "fs2 x = fs1 x"
      using d x(2) [OF Some] remove_dir_all_outside by (auto split: if_splits)
    moreover have "fs' = fs1 \<or> fs' = fs2 \<or> rename os (epoch_dir sp) ?T fs2 = (r, fs')"
      using er dir c d Some by (auto simp: erase_tree_def Let_def split: sum.splits)
    ultimately have "fs' x = fs1 x" using rename_outside [OF _ x(1) x(2) [OF Some]] by metis
    then show ?thesis using create_private_dir_all_keeps [OF c, of x] Some by auto
  qed
qed

lemma erase_tree_absent:
  assumes "undisturbed os" "fs_closed fs" "epoch_dir sp \<noteq> Path False []" "erase_tree os par sp retain fs = (r, fs')" "is_ok r"
    "\<nexists>n. symlink_metadata os (epoch_dir sp) fs = Inr n" "starts_with x (epoch_dir sp)"
  shows "fs' x = None"
proof -
  obtain e where e: "symlink_metadata os (epoch_dir sp) fs = Inl e"
    using assms(6) by (cases "symlink_metadata os (epoch_dir sp) fs") auto
  then have "fs' = fs" "io_kind_of e = NotFound" using assms(4,5) by (auto simp: erase_tree_def split: if_splits)
  then show ?thesis using closed_below [OF assms(2) lstat_missing [OF assms(1) e] assms(3,7)] by simp
qed

lemma erase_tree_removes:
  assumes "erase_tree os par sp None fs = (r, fs')" "is_ok r" "symlink_metadata os (epoch_dir sp) fs = Inr n"
    "starts_with x (epoch_dir sp)"
  shows "fs' x = None"
proof -
  have "remove_dir_all os (epoch_dir sp) fs = (r, fs')" using assms(1-3) by (auto simp: erase_tree_def split: if_splits)
  then show ?thesis using assms(2,4) by (auto simp: remove_dir_all_def split: option.splits prod.splits if_splits)
qed

lemma rebase_under:
  "rebase frm to (Path (is_absolute to) (components to @ cs)) = Path (is_absolute frm) (components frm @ cs)"
  by (simp add: rebase_def)

text \<open>A quarantined tree is kept whole. When the operator has a retain directory outside the pool parent,
  a successful teardown leaves every entry of the epoch directory, unchanged, under
  \<open>retain/slot-epoch\<close>, and nothing of it in the pool.\<close>

lemma erase_tree_retains_whole:
  assumes q: "undisturbed os" and keep: "\<not> starts_with keep par" "keep \<noteq> Path False []"
    "\<not> starts_with (epoch_dir sp) (join keep (retained_name (epoch_dir sp)))"
    and here: "fs (epoch_dir sp) \<noteq> None"
    and er: "erase_tree os par sp (Some keep) fs = (Inr (), fs')"
  shows "(\<forall>cs. fs' (Path (is_absolute keep)
            (components keep @ [retained_name (epoch_dir sp)] @ cs)) =
          fs (Path (is_absolute (epoch_dir sp)) (components (epoch_dir sp) @ cs)))
    \<and> (\<forall>x. starts_with x (epoch_dir sp) \<longrightarrow> fs' x = None)"
proof -
  define E where "E = epoch_dir sp"
  define T where "T = join keep (retained_name E)"
  have under: "starts_with E par"
    using er by (auto simp: erase_tree_def E_def split: if_splits)
  have apart: "\<not> starts_with x T" if "starts_with x E" for x
  proof
    assume "starts_with x T"
    with that have "starts_with T E \<or> starts_with E T"
      by (auto simp: starts_with_def dest: prefix_same_cases)
    moreover have "E \<noteq> T" using keep(3) by (auto simp: E_def T_def)
    moreover have "\<not> starts_with keep E" using keep(1) under starts_with_trans by blast
    ultimately show False
      using keep(3) by (auto simp: E_def [symmetric] T_def starts_with_join_iff)
  qed
  obtain n where n: "symlink_metadata os E fs = Inr n" "n_kind n = Directory"
  proof (cases "symlink_metadata os E fs")
    case (Inl e)
    then have "io_kind_of e = NotFound"
      using er under by (simp add: erase_tree_def E_def split: if_splits)
    with lstat_missing [OF q Inl] here show thesis by (simp add: E_def)
  next
    case (Inr n)
    then have "n_kind n = Directory"
      using er under by (simp add: erase_tree_def E_def split: if_splits)
    with Inr show thesis by (rule that)
  qed
  obtain cr fs1 where mk: "create_private_dir_all os keep fs = (Inr cr, fs1)"
    using er under n by (auto simp: erase_tree_def E_def split: prod.splits sum.splits)
  define fs2 where "fs2 = snd (if path_exists os T fs1 then remove_dir_all os T fs1 else (Inr (), fs1))"
  have mv: "rename os E T fs2 = (Inr (), fs')"
    using er under n mk
    by (auto simp: erase_tree_def Let_def fs2_def E_def [symmetric] T_def [symmetric]
        split: prod.splits sum.splits if_splits)
  have same: "fs2 x = fs x" if "starts_with x E" for x
  proof -
    have "\<not> starts_with keep x"
      using that under keep(1) starts_with_trans by blast
    then have "fs1 x = fs x"
      using create_private_dir_all_Inr [OF q mk] by auto
    moreover have "fs2 x = fs1 x"
      using remove_dir_all_outside [of os T fs1 _ _ x] apart [OF that]
      by (cases "remove_dir_all os T fs1") (auto simp: fs2_def)
    ultimately show ?thesis by simp
  qed
  have fs': "fs' = (\<lambda>x. if starts_with x T then fs2 (rebase E T x)
      else if starts_with x E then None else fs2 x)"
    using mv by (auto simp: rename_def split: option.splits if_splits)
  have "fs' (Path (is_absolute T) (components T @ cs)) = fs (Path (is_absolute E) (components E @ cs))" for cs
    using same by (simp add: fs' starts_with_iff rebase_under)
  moreover have "fs' x = None" if "starts_with x E" for x
    using apart [OF that] that by (simp add: fs')
  ultimately show ?thesis
    by (simp add: E_def T_def join_def)
qed

text \<open>The retain directory, if there is one, is outside the pool parent, and the tree is not under the place it is moved to.\<close>

definition retain_apart :: "path \<Rightarrow> slot_paths \<Rightarrow> path option \<Rightarrow> bool" where
  "retain_apart par sp retain \<longleftrightarrow> (case retain of
     None \<Rightarrow> True
   | Some keep \<Rightarrow> \<not> starts_with keep par \<and> keep \<noteq> Path False []
       \<and> \<not> starts_with (epoch_dir sp) (join keep (retained_name (epoch_dir sp))))"

text \<open>C38: Erasing reaches only its own tree and the place it is moved to. Whatever the machine answers and with or without
  a retain directory, a tree that is not under the pool parent is refused untouched; otherwise no path changes that is
  neither in the epoch directory nor in \<open>retain/slot-epoch\<close>, except that the retain directory and its ancestors are
  created where they are missing. When it reports success, on a machine no other process disturbs and with a
  retain directory outside the pool, nothing of the tree is left in the pool, and with a retain directory every entry of it
  is found unchanged under \<open>retain/slot-epoch\<close>.\<close>

theorem erase_tree_contained:
  assumes "erase_tree os par sp retain fs = (r, fs')"
  shows "(\<not> starts_with (epoch_dir sp) par \<longrightarrow> \<not> is_ok r \<and> fs' = fs)
    \<and> (\<forall>x. \<not> starts_with x (epoch_dir sp)
           \<and> (\<forall>keep. retain = Some keep \<longrightarrow> \<not> starts_with x (join keep (retained_name (epoch_dir sp)))) \<longrightarrow>
         fs' x = fs x \<or> (\<exists>keep. retain = Some keep \<and> starts_with keep x \<and> fs x = None))
    \<and> (undisturbed os \<and> fs_closed fs \<and> epoch_dir sp \<noteq> Path False [] \<and> retain_apart par sp retain \<and> is_ok r \<longrightarrow>
         (\<forall>x. starts_with x (epoch_dir sp) \<longrightarrow> fs' x = None)
         \<and> (\<forall>keep cs. retain = Some keep \<and> fs (epoch_dir sp) \<noteq> None \<longrightarrow>
              fs' (Path (is_absolute keep) (components keep @ [retained_name (epoch_dir sp)] @ cs)) =
              fs (Path (is_absolute (epoch_dir sp)) (components (epoch_dir sp) @ cs))))"
proof (intro conjI impI allI)
  assume "\<not> starts_with (epoch_dir sp) par"
  then show "\<not> is_ok r" "fs' = fs" using assms by (auto simp: erase_tree_def)
next
  fix x
  assume "\<not> starts_with x (epoch_dir sp)
    \<and> (\<forall>keep. retain = Some keep \<longrightarrow> \<not> starts_with x (join keep (retained_name (epoch_dir sp))))"
  then show "fs' x = fs x \<or> (\<exists>keep. retain = Some keep \<and> starts_with keep x \<and> fs x = None)"
    using erase_tree_outside [OF assms, of x] by blast
next
  fix x
  assume ok: "undisturbed os \<and> fs_closed fs \<and> epoch_dir sp \<noteq> Path False [] \<and> retain_apart par sp retain \<and> is_ok r"
    and x: "starts_with x (epoch_dir sp)"
  show "fs' x = None"
  proof (cases "\<exists>n. symlink_metadata os (epoch_dir sp) fs = Inr n")
    case True
    then have here: "fs (epoch_dir sp) \<noteq> None" using lstat_found by fastforce
    show ?thesis
    proof (cases retain)
      case None
      then show ?thesis using erase_tree_removes [OF assms [unfolded None]] True ok x by blast
    next
      case (Some keep)
      then show ?thesis
        using erase_tree_retains_whole [of os keep par sp fs fs'] ok here x assms by (cases r) (auto simp: retain_apart_def)
    qed
  qed (use erase_tree_absent [OF _ _ _ assms] ok x in blast)
next
  fix keep cs
  assume ok: "undisturbed os \<and> fs_closed fs \<and> epoch_dir sp \<noteq> Path False [] \<and> retain_apart par sp retain \<and> is_ok r"
    and kept: "retain = Some keep \<and> fs (epoch_dir sp) \<noteq> None"
  then show "fs' (Path (is_absolute keep) (components keep @ [retained_name (epoch_dir sp)] @ cs)) =
      fs (Path (is_absolute (epoch_dir sp)) (components (epoch_dir sp) @ cs))"
    using erase_tree_retains_whole [of os keep par sp fs fs'] assms by (cases r) (auto simp: retain_apart_def)
qed

section \<open>Concrete machines\<close>

definition quiet_os :: os where
  "quiet_os = \<lparr>umask = 0x12, effective_uid = 501, lstat_fault = (\<lambda>_. None), mkdir_fault = (\<lambda>_. None),
     chmod_fault = (\<lambda>_. None), rename_fault = (\<lambda>_. None), remove_fault = (\<lambda>_. None),
     link_resolves = (\<lambda>_. True)\<rparr>"

definition sample_pool :: path where
  "sample_pool = Path True [''pool'']"

definition sample_keep :: path where
  "sample_keep = Path True [''keep'']"

definition sample_fs :: fs where
  "sample_fs p =
     (if p = Path True [] \<or> p = sample_pool then Some \<lparr>n_kind = Directory, n_mode = OWNER_ONLY, n_uid = 501\<rparr>
      else None)"

lemma undisturbed_quiet: "undisturbed quiet_os"
  by (simp add: undisturbed_def quiet_os_def)

lemma fs_closed_sample: "fs_closed sample_fs"
  by (auto simp: fs_closed_def sample_fs_def sample_pool_def join_def intro: path.expand)

definition sample_slot :: slot_paths where
  "sample_slot = slot_paths_new sample_pool 0 1"

definition sample_minted :: fs where
  "sample_minted = snd (mint_roots quiet_os sample_pool sample_slot sample_fs)"

lemma sample_mint: "mint_roots quiet_os sample_pool sample_slot sample_fs = (Inr (), sample_minted)"
proof -
  have "fst (mint_roots quiet_os sample_pool sample_slot sample_fs) = Inr ()" by code_simp
  then show ?thesis by (simp add: sample_minted_def prod_eq_iff)
qed


text \<open>A tree as a mint leaves it, moved out to a retain directory that does not exist yet.\<close>

definition sample_tree :: fs where
  "sample_tree p =
     (if p \<in> {Path True [], sample_pool, join sample_pool ''0'', epoch_dir sample_slot, root sample_slot, cwd sample_slot}
      then Some (private_node quiet_os) else None)"

lemma sample_slot_paths:
  "epoch_dir sample_slot = Path True [''pool'', ''0'', ''1'']" "root sample_slot = Path True [''pool'', ''0'', ''1'', ''root'']"
  "cwd sample_slot = Path True [''pool'', ''0'', ''1'', ''cwd'']"
  by code_simp+

lemma fs_closed_tree: "fs_closed sample_tree"
  unfolding fs_closed_def
proof (intro allI impI)
  fix p c
  assume "sample_tree (join p c) \<noteq> None"
  then have "is_absolute p" "components p \<in> {[], [''pool''], [''pool'', ''0''], [''pool'', ''0'', ''1'']}"
    by (auto simp: sample_tree_def sample_slot_paths sample_pool_def join_def append_eq_Cons_conv split: if_splits)
  then have "p \<in> {Path True [], sample_pool, join sample_pool ''0'', epoch_dir sample_slot}"
    by (cases p) (auto simp: sample_slot_paths sample_pool_def join_def)
  then show "p = Path False [] \<or> sample_tree p \<noteq> None" by (auto simp: sample_tree_def)
qed

lemma sample_erased: "fst (erase_tree quiet_os sample_pool sample_slot (Some sample_keep) sample_tree) = Inr ()"
  by code_simp

theorem erase_tree_contained_witness:
  "\<exists>fs'. erase_tree quiet_os sample_pool sample_slot (Some sample_keep) sample_tree = (Inr (), fs')
     \<and> fs' sample_pool = sample_tree sample_pool
     \<and> fs' (Path True [''keep'', ''0-1'', ''root'']) = Some (private_node quiet_os) \<and> fs' (root sample_slot) = None"
proof -
  obtain r fs' where er: "erase_tree quiet_os sample_pool sample_slot (Some sample_keep) sample_tree = (r, fs')"
    by fastforce
  have ok: "r = Inr ()"
    using er fst_conv [of r fs'] by (metis (no_types) sample_erased)
  note erased = erase_tree_contained [OF er]
  have apart: "retain_apart sample_pool sample_slot (Some sample_keep)" by code_simp
  have "\<not> starts_with sample_pool (epoch_dir sample_slot)"
    "\<not> starts_with sample_pool (join sample_keep (retained_name (epoch_dir sample_slot)))" "\<not> starts_with sample_keep sample_pool"
    by code_simp+
  then have "fs' sample_pool = sample_tree sample_pool" using erased by auto
  moreover have "epoch_dir sample_slot \<noteq> Path False []" "starts_with (root sample_slot) (epoch_dir sample_slot)"
    "retained_name (epoch_dir sample_slot) = ''0-1''"
    by code_simp+
  moreover have "sample_tree (epoch_dir sample_slot) \<noteq> None" by (simp add: sample_tree_def)
  moreover have "sample_tree (Path True [''pool'', ''0'', ''1'', ''root'']) = Some (private_node quiet_os)"
    by (simp add: sample_tree_def sample_slot_paths)
  ultimately show ?thesis
    using er ok erased undisturbed_quiet fs_closed_tree apart
    by (auto simp: sample_slot_paths sample_keep_def dest!: spec [where x = "[''root'']"])
qed

end
