(* ===== verification/Ownership.thy ===== *)
theory Ownership
  imports Main
begin

text \<open>
  Exclusive ownership among interleaved tasks. Every task names the resources it holds and what it
  expects of each; a resource nobody holds is free. If one task's step keeps its side of the
  contract \<open>hands\<close> (it takes only free resources, leaves free what it gives up, and touches nothing
  of anybody else's), then ownership of the whole system is kept. The pool's tasks interpret this
  twice, for instance slots and for conversations.
\<close>

locale ownership =
  fixes want :: "'t \<Rightarrow> ('r \<times> ('c \<Rightarrow> bool)) list"
    and cell :: "'w \<Rightarrow> 'r \<Rightarrow> 'c"
    and free :: "'r \<Rightarrow> 'c \<Rightarrow> bool"
  assumes want_not_free: "(r, P) \<in> set (want t) \<Longrightarrow> P c \<Longrightarrow> \<not> free r c"
begin

definition wants :: "'t list \<Rightarrow> ('r \<times> ('c \<Rightarrow> bool)) list" where
  "wants ts = concat (map want ts)"

definition held :: "'t list \<Rightarrow> 'r set" where
  "held ts = fst ` set (wants ts)"

definition met :: "'w \<Rightarrow> 't list \<Rightarrow> bool" where
  "met w ts \<longleftrightarrow> distinct (map fst (wants ts)) \<and> (\<forall>(r, P) \<in> set (wants ts). P (cell w r))"

definition owned :: "'w \<Rightarrow> 't list \<Rightarrow> bool" where
  "owned w ts \<longleftrightarrow> met w ts \<and> (\<forall>r. r \<notin> held ts \<longrightarrow> free r (cell w r))"

definition hands :: "'w \<Rightarrow> 't \<Rightarrow> 'w \<Rightarrow> 't list \<Rightarrow> bool" where
  "hands w t w' ts \<longleftrightarrow> met w' ts
     \<and> (\<forall>r. if r \<in> held ts then r \<in> held [t] \<or> free r (cell w r)
          else if r \<in> held [t] then free r (cell w' r)
          else cell w' r = cell w r \<or> free r (cell w r) \<and> free r (cell w' r))"

lemma wants_append [simp]: "wants (us @ vs) = wants us @ wants vs"
  by (simp add: wants_def)

lemma held_append [simp]: "held (us @ vs) = held us \<union> held vs"
  by (auto simp: held_def)

lemma wants_Cons: "wants (t # ts) = want t @ wants ts"
  by (simp add: wants_def)

lemma wants_Nil [simp]: "wants [] = []" "held [] = {}"
  by (simp_all add: wants_def held_def)

lemma wants_not_free: "(r, P) \<in> set (wants ts) \<Longrightarrow> P c \<Longrightarrow> \<not> free r c"
  by (auto simp: wants_def dest: want_not_free)

lemma met_append:
  "met w (us @ vs) \<longleftrightarrow> met w us \<and> met w vs \<and> held us \<inter> held vs = {}"
  by (auto simp: met_def held_def)

lemma met_not_free: "met w ts \<Longrightarrow> r \<in> held ts \<Longrightarrow> \<not> free r (cell w r)"
  using wants_not_free unfolding met_def held_def by fastforce

lemma met_cong: "met w ts \<Longrightarrow> (\<And>r. r \<in> held ts \<Longrightarrow> cell w' r = cell w r) \<Longrightarrow> met w' ts"
  unfolding met_def held_def by (simp add: split_def)

lemma others_untouched:
  assumes own: "owned w (us @ [t] @ vs)" and h: "hands w t w' ts" and r: "r \<in> held us \<union> held vs"
  shows "r \<notin> held ts \<and> cell w' r = cell w r"
proof -
  have m: "met w us" "met w vs" "held us \<inter> held [t] = {}" "held [t] \<inter> held vs = {}"
    using own unfolding owned_def met_append held_append by blast+
  have "\<not> free r (cell w r)" "r \<notin> held [t]"
    using r met_not_free [OF m(1)] met_not_free [OF m(2)] m(3,4) by blast+
  moreover have "if r \<in> held ts then r \<in> held [t] \<or> free r (cell w r)
        else if r \<in> held [t] then free r (cell w' r)
        else cell w' r = cell w r \<or> free r (cell w r) \<and> free r (cell w' r)"
    using h unfolding hands_def by blast
  ultimately show ?thesis by (simp split: if_splits)
qed

lemma owned_step:
  assumes own: "owned w (us @ [t] @ vs)" and h: "hands w t w' ts"
  shows "owned w' (us @ ts @ vs)"
proof -
  have m: "met w us" "met w vs" "held us \<inter> held vs = {}"
    using own unfolding owned_def met_append held_append by blast+
  note other = others_untouched [OF own h]
  have "met w' us" "met w' vs"
    using met_cong [OF m(1)] met_cong [OF m(2)] other by blast+
  moreover have "met w' ts" using h by (simp add: hands_def)
  moreover have "held us \<inter> held ts = {}" "held ts \<inter> held vs = {}" using other by blast+
  ultimately have "met w' (us @ ts @ vs)"
    using m(3) unfolding met_append held_append by blast
  moreover have "free r (cell w' r)" if r: "r \<notin> held (us @ ts @ vs)" for r
  proof -
    have "r \<notin> held [t] \<Longrightarrow> free r (cell w r)"
      using own r unfolding owned_def held_append by blast
    moreover have "if r \<in> held ts then r \<in> held [t] \<or> free r (cell w r)
          else if r \<in> held [t] then free r (cell w' r)
          else cell w' r = cell w r \<or> free r (cell w r) \<and> free r (cell w' r)"
      using h unfolding hands_def by blast
    ultimately show ?thesis using r by (simp split: if_splits) metis
  qed
  ultimately show ?thesis by (simp add: owned_def)
qed

end
end
