(* ===== verification/Tasks.thy ===== *)
theory Tasks
  imports Admission Composer Filesystem Ownership
begin

text \<open>
  The pool's asynchronous handlers (\<open>Pool::start\<close>, \<open>run\<close>, \<open>run_sticky\<close>, \<open>release_conversation\<close>,
  \<open>sweep_idle\<close>, \<open>shutdown\<close> and everything they await, in \<open>src/crates/service/src/pool/mod.rs\<close>).

  A task is a program counter: the point between two atomic actions at which the handler is
  suspended, with the local variables it still needs. An atomic action is one critical section of
  \<open>PoolOps\<close>, one filesystem call of \<open>Filesystem\<close>, or one answer of the host. \<open>task_step\<close> performs the
  action a task is suspended at and returns the new world and what the task became, followed by
  the tasks it spawned. The host's answers, the clock and the kernel's refusals are the step's
  input.

  Two fields of the world are ghosts, read by no handler: whether a process launched into a slot
  may still be alive, and the turns its current process was given since it was last proven empty.
  They follow the answers of the host as \<open>src/crates/service/src/pool/host.rs\<close> documents them: a
  launch starts a process in an empty root; \<open>HostFailure::reaped\<close> and \<open>Destroyed::process_reaped\<close>
  mean the process is gone; \<open>Ok\<close> from \<open>clear\<close> means the conversation is empty.
\<close>

section \<open>Worlds and inputs\<close>

type_synonym tag = "string option"

record world =
  pool :: pool_state
  disk :: fs
  running :: "slot_id \<Rightarrow> bool"
  heard :: "slot_id \<Rightarrow> tag list"

record input =
  in_now :: u64
  in_elapsed :: nat
  in_os :: os
  in_mint :: "host_failure + instance_handle"
  in_turn :: "host_failure + host_turn"
  in_clear :: "clear_failure + unit"
  in_destroy :: "host_failure + destroyed"
  in_pid_written :: bool

section \<open>Tasks\<close>

text \<open>What a turn needs once its request has been checked.\<close>

record job =
  j_class :: instance_class
  j_resolved :: resolved_model_effort
  j_prompt :: utext
  j_deadline :: u64

text \<open>
  On whose behalf an instance is minted: a caller with a turn to run, or the pool's own upkeep (a
  re-warm of one class, or \<open>start\<close> with what is left of the warm set).
\<close>

datatype caller =
    Stateless job
  | Sticky string job

datatype keeper =
    Rewarming instance_class
  | Booting "(instance_class \<times> nat) list"

datatype client = Caller caller | Keeper keeper

datatype reply =
    RunReply "error_body + stateless_result"
  | StickyReply "error_body + stateless_result \<times> string"
  | UnitReply "error_body + unit"

text \<open>What follows a \<open>destroy\<close> (or the \<open>leak\<close> it ends in).\<close>

datatype after =
    ThenReply reply
  | ThenFailed client error_body
  | ThenPublished keeper
  | ThenReclaim caller slot_id u64
  | ThenRemint instance_class
  | ThenVictims "slot_id list" "u64 option"

datatype pc =
    AtRun run_stateless_request
  | AtRunSticky string run_stateless_request bool
  | AtClaim string job
  | AtResume string job
  | AtAdmit caller
  | AtCancelClaim string error_body
  | AtReclaim caller slot_id u64
  | AtMint client slot_id
  | AtMintRoots client slot_id mint_spec slot_paths
  | AtMintMark client slot_id mint_spec
  | AtLaunch client slot_id mint_spec
  | AtLanded client slot_id mint_spec instance_handle
  | AtOrphan client
  | AtAbandonMint client slot_id bool error_body
  | AtPublish client slot_id
  | AtUnpublish slot_id "transition list" after
  | AtBind string job slot_id
  | AtHandle caller slot_id
  | AtTurn caller slot_id instance_handle
  | AtCommitRead caller slot_id host_turn
  | AtCommit caller slot_id stateless_result string
  | AtQuarantine slot_id after
  | AtDestroy slot_id after
  | AtClose slot_id teardown_read after
  | AtErase slot_id teardown_read after
  | AtRelease slot_id after
  | AtLeak slot_id after
  | AtClear slot_id
  | AtClearWait slot_id instance_handle
  | AtClearRead slot_id
  | AtClearPublish slot_id
  | AtRecycle slot_id
  | AtHalt slot_id string clear_failure
  | AtClearFailed slot_id clear_failure
  | AtRemint instance_class
  | AtRewarm instance_class
  | AtRewarmEnd instance_class
  | AtBoot
  | AtBootNext "(instance_class \<times> nat) list"
  | AtSweep
  | AtSweepIdle u64
  | AtSweepLeases u64
  | AtShutdown
  | AtEndConversation string
  | Done reply
  | Panicked

section \<open>Where a task goes next\<close>

text \<open>The error of a mint, a reclaim or a publication, as its caller propagates it.\<close>

fun admission_failed :: "caller \<Rightarrow> error_body \<Rightarrow> pc" where
  "admission_failed (Stateless j) e = Done (RunReply (Inl e))"
| "admission_failed (Sticky conv j) e = AtCancelClaim conv e"

fun mint_failed :: "client \<Rightarrow> error_body \<Rightarrow> pc" where
  "mint_failed (Caller cl) e = admission_failed cl e"
| "mint_failed (Keeper (Rewarming c)) e = AtRewarmEnd c"
| "mint_failed (Keeper (Booting left)) e = Done (UnitReply (Inl e))"

text \<open>An instance checked out for a caller: a new conversation is bound to it first.\<close>

fun checked_out :: "caller \<Rightarrow> slot_id \<Rightarrow> pc" where
  "checked_out (Stateless j) s = AtHandle (Stateless j) s"
| "checked_out (Sticky conv j) s = AtBind conv j s"

fun kept :: "keeper \<Rightarrow> pc" where
  "kept (Rewarming c) = AtRewarmEnd c"
| "kept (Booting left) = AtBootNext left"

fun go_on :: "after \<Rightarrow> pc" where
  "go_on (ThenReply r) = Done r"
| "go_on (ThenFailed cl e) = mint_failed cl e"
| "go_on (ThenPublished k) = kept k"
| "go_on (ThenReclaim cl s w) = AtReclaim cl s w"
| "go_on (ThenRemint c) = AtRemint c"
| "go_on (ThenVictims [] (Some now)) = AtSweepLeases now"
| "go_on (ThenVictims [] None) = Done (UnitReply (Inr ()))"
| "go_on (ThenVictims (s # ss) x) = AtDestroy s (ThenVictims ss x)"

fun caller_job :: "caller \<Rightarrow> job" where
  "caller_job (Stateless j) = j"
| "caller_job (Sticky conv j) = j"

fun caller_tag :: "caller \<Rightarrow> tag" where
  "caller_tag (Stateless j) = None"
| "caller_tag (Sticky conv j) = Some conv"

text \<open>A turn's error, once it has an instance: no claim is pending any more.\<close>

fun turn_failed :: "caller \<Rightarrow> error_body \<Rightarrow> reply" where
  "turn_failed (Stateless j) e = RunReply (Inl e)"
| "turn_failed (Sticky conv j) e = StickyReply (Inl e)"

section \<open>The handlers\<close>

text \<open>
  Steps 1 to 3 of \<open>run\<close> and \<open>run_sticky\<close>, before any instance is touched. \<open>nfc\<close> is Unicode
  normalisation form C.
\<close>

definition prepare ::
  "pool_config \<Rightarrow> (utext \<Rightarrow> utext) \<Rightarrow> u64 \<Rightarrow> run_stateless_request \<Rightarrow> error_body + job" where
  "prepare cfg nfc now req =
     bind_r (validate_prompt nfc (req_prompt req)) (\<lambda>prompt.
     bind_r (map_err refusal_into_error_body (resolve_pool_class (req_model req) (req_effort req)))
       (\<lambda>(cls, resolved).
     bind_r (account_from_request req cfg) (\<lambda>acct.
     Inr \<lparr>j_class = with_account cls acct, j_resolved = resolved, j_prompt = prompt,
          j_deadline = effective_deadline_ms cfg now (req_deadline_unix_ms req)\<rparr>)))"

definition with_pool :: "world \<Rightarrow> pool_state \<Rightarrow> world" where
  "with_pool w st = w\<lparr>pool := st\<rparr>"

text \<open>\<open>run\<close>, \<open>run_sticky\<close> and \<open>claim_new_lease\<close> up to a checked-out instance.\<close>

definition step_run ::
  "pool_config \<Rightarrow> (utext \<Rightarrow> utext) \<Rightarrow> input \<Rightarrow> run_stateless_request \<Rightarrow> pc" where
  "step_run cfg nfc inp req =
     (case prepare cfg nfc (in_now inp) req of
        Inl e \<Rightarrow> Done (RunReply (Inl e))
      | Inr j \<Rightarrow> AtAdmit (Stateless j))"

definition step_run_sticky ::
  "pool_config \<Rightarrow> (utext \<Rightarrow> utext) \<Rightarrow> input \<Rightarrow> string \<Rightarrow> run_stateless_request \<Rightarrow> bool \<Rightarrow> pc" where
  "step_run_sticky cfg nfc inp conv req resume =
     (if is_blank conv then
        Done (StickyReply (Inl (error_new InvalidConfig ''conversation id must not be empty'')))
      else case prepare cfg nfc (in_now inp) req of
        Inl e \<Rightarrow> Done (StickyReply (Inl e))
      | Inr j \<Rightarrow> if resume then AtResume conv j else AtClaim conv j)"

definition step_claim :: "string \<Rightarrow> job \<Rightarrow> world \<Rightarrow> world \<times> pc list" where
  "step_claim conv j w =
     (case claim_begin conv (pool w) of
        Inl e \<Rightarrow> (w, [Done (StickyReply (Inl e))])
      | Inr st \<Rightarrow> (with_pool w st, [AtAdmit (Sticky conv j)]))"

definition step_resume :: "pool_config \<Rightarrow> string \<Rightarrow> job \<Rightarrow> world \<Rightarrow> world \<times> pc list" where
  "step_resume cfg conv j w =
     (case resume_lease cfg conv (j_class j) (pool w) of
        Inl e \<Rightarrow> (w, [Done (StickyReply (Inl e))])
      | Inr (s, st) \<Rightarrow> (with_pool w st, [AtHandle (Sticky conv j) s]))"

definition step_admit :: "pool_config \<Rightarrow> input \<Rightarrow> caller \<Rightarrow> world \<Rightarrow> world \<times> pc list" where
  "step_admit cfg inp cl w =
     (let j = caller_job cl
      in case admit_pass cfg (j_class j) (j_deadline j) (in_elapsed inp) (in_now inp) (pool w) of
           (AdmitSleep _, st) \<Rightarrow> (with_pool w st, [AtAdmit cl])
         | (AdmitReturn (Inl e), st) \<Rightarrow> (with_pool w st, [admission_failed cl e])
         | (AdmitReturn (Inr a), st) \<Rightarrow>
             (with_pool w st,
              (case adm (admission_of a) of
                 Warm s \<Rightarrow> checked_out cl s
               | ReservedSlot s \<Rightarrow> AtMint (Caller cl) s
               | ColdSwap s \<Rightarrow> AtDestroy s (ThenReclaim cl s (waited_ms a)))
              # (case rewarm_class (admission_of a) of None \<Rightarrow> [] | Some c \<Rightarrow> [AtRewarm c])))"

definition step_reclaim :: "pool_config \<Rightarrow> caller \<Rightarrow> slot_id \<Rightarrow> u64 \<Rightarrow> world \<Rightarrow> world \<times> pc list" where
  "step_reclaim cfg cl s waited w =
     (case reclaim cfg s (j_class (caller_job cl)) waited (pool w) of
        Inl e \<Rightarrow> (w, [admission_failed cl e])
      | Inr st \<Rightarrow> (with_pool w st, [AtMint (Caller cl) s]))"

text \<open>\<open>mint\<close> and \<open>abandon_mint\<close>.\<close>

definition step_mint :: "pool_config \<Rightarrow> client \<Rightarrow> slot_id \<Rightarrow> world \<Rightarrow> world \<times> pc list" where
  "step_mint cfg cl s w =
     (case mint_begin cfg s (pool w) of
        None \<Rightarrow> (with_pool w (try_transition cfg s BeginWarm (pool w)), [Panicked])
      | Some (Inl e) \<Rightarrow> (w, [mint_failed cl e])
      | Some (Inr (spec, sp, st)) \<Rightarrow> (with_pool w st, [AtMintRoots cl s spec sp]))"

definition step_mint_roots ::
  "pool_config \<Rightarrow> input \<Rightarrow> client \<Rightarrow> slot_id \<Rightarrow> mint_spec \<Rightarrow> slot_paths \<Rightarrow> world \<Rightarrow> world \<times> pc list" where
  "step_mint_roots cfg inp cl s spec sp w =
     (case mint_roots (in_os inp) (parent_dir cfg) sp (disk w) of
        (Inl e, d) \<Rightarrow> (w\<lparr>disk := d\<rparr>, [AtAbandonMint cl s False e])
      | (Inr _, d) \<Rightarrow> (w\<lparr>disk := d\<rparr>, [AtMintMark cl s spec]))"

definition step_mint_mark :: "client \<Rightarrow> slot_id \<Rightarrow> mint_spec \<Rightarrow> world \<Rightarrow> world \<times> pc list" where
  "step_mint_mark cl s spec w =
     (case mint_mark s (pool w) of
        Inl e \<Rightarrow> (w, [mint_failed cl e])
      | Inr st \<Rightarrow>
          ((with_pool w st)\<lparr>running := (running w)(s := True), heard := (heard w)(s := [])\<rparr>,
           [AtLaunch cl s spec]))"

definition step_launch ::
  "input \<Rightarrow> client \<Rightarrow> slot_id \<Rightarrow> mint_spec \<Rightarrow> world \<Rightarrow> world \<times> pc list" where
  "step_launch inp cl s spec w =
     (case in_mint inp of
        Inr h \<Rightarrow> (w, [AtLanded cl s spec h])
      | Inl f \<Rightarrow>
          (w\<lparr>running := (running w)(s := running w s \<and> process_may_survive f)\<rparr>,
           [AtAbandonMint cl s (process_may_survive f) (hf_error f)]))"

text \<open>The pid file is written when the host names a pid, and a failure to write it is ignored.\<close>

definition write_pid_file :: "pool_config \<Rightarrow> input \<Rightarrow> mint_spec \<Rightarrow> instance_handle \<Rightarrow> fs \<Rightarrow> fs" where
  "write_pid_file cfg inp spec h d =
     (if pid h \<noteq> None \<and> in_pid_written inp then
        d(pid_file (slot_paths_new (parent_dir cfg) (ms_slot spec) (ms_epoch spec)) \<mapsto>
          \<lparr>n_kind = RegularFile, n_mode = 0x1B6 AND NOT (umask (in_os inp)), n_uid = effective_uid (in_os inp)\<rparr>)
      else d)"

definition step_landed ::
  "pool_config \<Rightarrow> input \<Rightarrow> client \<Rightarrow> slot_id \<Rightarrow> mint_spec \<Rightarrow> instance_handle \<Rightarrow> world \<Rightarrow> world \<times> pc list" where
  "step_landed cfg inp cl s spec h w =
     (let d = write_pid_file cfg inp spec h (disk w)
      in case mint_done s h (pool w) of
           None \<Rightarrow> (w\<lparr>disk := d\<rparr>, [AtOrphan cl])
         | Some st \<Rightarrow> ((with_pool w st)\<lparr>disk := d\<rparr>, [AtPublish cl s]))"

definition step_abandon_mint ::
  "pool_config \<Rightarrow> client \<Rightarrow> slot_id \<Rightarrow> bool \<Rightarrow> error_body \<Rightarrow> world \<Rightarrow> world \<times> pc list" where
  "step_abandon_mint cfg cl s survives e w =
     (with_pool w (abandon_mint_locked cfg s (pool w)),
      [if survives then AtLeak s (ThenFailed cl e) else AtDestroy s (ThenFailed cl e)])"

text \<open>\<open>publish_idle\<close> and \<open>publish_idle_and_check_out\<close>.\<close>

fun step_publish :: "pool_config \<Rightarrow> input \<Rightarrow> client \<Rightarrow> slot_id \<Rightarrow> world \<Rightarrow> world \<times> pc list" where
  "step_publish cfg inp (Caller cl) s w =
     (case publish_idle_and_check_out cfg (in_now inp) s (pool w) of
        (None, st) \<Rightarrow> (with_pool w st, [AtUnpublish s AFTER_WARM (ThenFailed (Caller cl) unpublishable)])
      | (Some (Inl e), st) \<Rightarrow> (with_pool w st, [admission_failed cl e])
      | (Some (Inr s'), st) \<Rightarrow> (with_pool w st, [checked_out cl s']))"
| "step_publish cfg inp (Keeper k) s w =
     (case publish_idle_locked cfg (in_now inp) s WarmProven (pool w) of
        (False, st) \<Rightarrow> (with_pool w st, [AtUnpublish s AFTER_WARM (ThenPublished k)])
      | (True, st) \<Rightarrow> (with_pool w st, [kept k]))"

text \<open>The turn: \<open>handle_of\<close>, \<open>run_turn\<close>, \<open>commit\<close> and \<open>commit_sticky\<close>.\<close>

definition lost_handle :: error_body where
  "lost_handle = internal ''a checked-out instance lost its process handle''"

definition step_handle :: "caller \<Rightarrow> slot_id \<Rightarrow> world \<Rightarrow> world \<times> pc list" where
  "step_handle cl s w =
     (case handle_of s (pool w) of
        None \<Rightarrow>
          (w, [case cl of
                 Stateless j \<Rightarrow> Done (RunReply (Inl lost_handle))
               | Sticky conv j \<Rightarrow> AtQuarantine s (ThenReply (StickyReply (Inl lost_handle)))])
      | Some h \<Rightarrow>
          (w\<lparr>heard := (heard w)(s := heard w s @ [caller_tag cl])\<rparr>, [AtTurn cl s h]))"

definition step_turn :: "input \<Rightarrow> caller \<Rightarrow> slot_id \<Rightarrow> instance_handle \<Rightarrow> world \<Rightarrow> world \<times> pc list" where
  "step_turn inp cl s h w =
     (case in_turn inp of
        Inl f \<Rightarrow> (w, [AtQuarantine s (ThenReply (turn_failed cl (hf_error f)))])
      | Inr turn \<Rightarrow>
          (case sidechain_guard turn of
             Inl e \<Rightarrow> (w, [AtQuarantine s (ThenReply (turn_failed cl e))])
           | Inr _ \<Rightarrow> (w, [AtCommitRead cl s turn])))"

definition step_commit_read :: "caller \<Rightarrow> slot_id \<Rightarrow> host_turn \<Rightarrow> world \<Rightarrow> world \<times> pc list" where
  "step_commit_read cl s turn w =
     (let j = caller_job cl; result = turn_result (j_class j) (j_resolved j) turn
      in case cl of
           Stateless _ \<Rightarrow>
             (case handle_of s (pool w) of
                None \<Rightarrow> (w, [Done (RunReply (Inl (internal ''a committed turn lost its process handle'')))])
              | Some h \<Rightarrow> (w, [AtCommit cl s (result (claude_version h)) []]))
         | Sticky _ _ \<Rightarrow>
             (case sticky_read s (pool w) of
                Inl e \<Rightarrow> (w, [Done (StickyReply (Inl e))])
              | Inr (version, cell) \<Rightarrow> (w, [AtCommit cl s (result version) cell])))"

fun step_commit ::
  "pool_config \<Rightarrow> input \<Rightarrow> caller \<Rightarrow> slot_id \<Rightarrow> stateless_result \<Rightarrow> string \<Rightarrow> world \<Rightarrow> world \<times> pc list" where
  "step_commit cfg inp (Stateless j) s result cell w =
     (case commit_locked cfg s (pool w) of
        (Inl e, st) \<Rightarrow> (with_pool w st, [Done (RunReply (Inl e))])
      | (Inr _, st) \<Rightarrow> (with_pool w st, [Done (RunReply (Inr result)), AtClear s]))"
| "step_commit cfg inp (Sticky conv j) s result cell w =
     (case commit_sticky_locked cfg (in_now inp) s conv (pool w) of
        (Inl e, st) \<Rightarrow> (with_pool w st, [Done (StickyReply (Inl e))])
      | (Inr True, st) \<Rightarrow> (with_pool w st, [AtDestroy s (ThenReply (StickyReply (Inr (result, cell))))])
      | (Inr False, st) \<Rightarrow> (with_pool w st, [Done (StickyReply (Inr (result, cell)))]))"

text \<open>\<open>destroy\<close>, in its strict order.\<close>

definition step_destroy :: "slot_id \<Rightarrow> after \<Rightarrow> world \<Rightarrow> world \<times> pc list" where
  "step_destroy s k w =
     (case destroy_read s (pool w) of
        None \<Rightarrow> (w, [go_on k])
      | Some r \<Rightarrow>
          (w, [case td_handle r of
                 Some _ \<Rightarrow> AtClose s r k
               | None \<Rightarrow> if td_mint_in_flight r then AtLeak s k else AtErase s r k]))"

definition reaped_by :: "host_failure + destroyed \<Rightarrow> bool" where
  "reaped_by answer = (case answer of Inl _ \<Rightarrow> False | Inr d \<Rightarrow> process_reaped d)"

definition step_close :: "input \<Rightarrow> slot_id \<Rightarrow> teardown_read \<Rightarrow> after \<Rightarrow> world \<Rightarrow> world \<times> pc list" where
  "step_close inp s r k w =
     (w\<lparr>running := (running w)(s := running w s \<and> \<not> reaped_by (in_destroy inp))\<rparr>,
      [case unreaped r (in_destroy inp) of Some _ \<Rightarrow> AtLeak s k | None \<Rightarrow> AtErase s r k])"

definition step_erase ::
  "pool_config \<Rightarrow> input \<Rightarrow> slot_id \<Rightarrow> teardown_read \<Rightarrow> after \<Rightarrow> world \<Rightarrow> world \<times> pc list" where
  "step_erase cfg inp s r k w =
     (case erase_tree (in_os inp) (parent_dir cfg) (td_paths r) (retain_for cfg r) (disk w) of
        (Inl e, d) \<Rightarrow> (w\<lparr>disk := d\<rparr>, [AtLeak s k])
      | (Inr _, d) \<Rightarrow> (w\<lparr>disk := d\<rparr>, [AtRelease s k]))"

text \<open>\<open>finish_turn\<close>.\<close>

definition step_clear :: "slot_id \<Rightarrow> world \<Rightarrow> world \<times> pc list" where
  "step_clear s w =
     (w, [case handle_of s (pool w) of
            None \<Rightarrow> AtDestroy s (ThenReply (UnitReply (Inr ())))
          | Some h \<Rightarrow> AtClearWait s h])"

definition step_clear_wait :: "input \<Rightarrow> slot_id \<Rightarrow> world \<Rightarrow> world \<times> pc list" where
  "step_clear_wait inp s w =
     (case in_clear inp of
        Inr _ \<Rightarrow> (w\<lparr>heard := (heard w)(s := [])\<rparr>, [AtClearRead s])
      | Inl f \<Rightarrow>
          (w, [case preamble_mismatch f of
                 Some reason \<Rightarrow> AtHalt s reason f
               | None \<Rightarrow> AtClearFailed s f]))"

definition step_clear_read :: "pool_config \<Rightarrow> slot_id \<Rightarrow> world \<Rightarrow> world \<times> pc list" where
  "step_clear_read cfg s w =
     (w, [case clear_transition_read cfg s (pool w) of
            None \<Rightarrow> Done (UnitReply (Inr ()))
          | Some t \<Rightarrow> if t = ClearProven then AtClearPublish s else AtRecycle s])"

definition step_clear_publish :: "pool_config \<Rightarrow> input \<Rightarrow> slot_id \<Rightarrow> world \<Rightarrow> world \<times> pc list" where
  "step_clear_publish cfg inp s w =
     (case publish_idle_locked cfg (in_now inp) s ClearProven (pool w) of
        (False, st) \<Rightarrow> (with_pool w st, [AtUnpublish s AFTER_CLEAR (ThenReply (UnitReply (Inr ())))])
      | (True, st) \<Rightarrow> (with_pool w st, [Done (UnitReply (Inr ()))]))"

definition step_recycle :: "pool_config \<Rightarrow> slot_id \<Rightarrow> world \<Rightarrow> world \<times> pc list" where
  "step_recycle cfg s w =
     (case recycle_locked cfg s (pool w) of
        (cls, st) \<Rightarrow>
          (with_pool w st,
           [AtDestroy s (case cls of None \<Rightarrow> ThenReply (UnitReply (Inr ())) | Some c \<Rightarrow> ThenRemint c)]))"

definition step_remint :: "pool_config \<Rightarrow> instance_class \<Rightarrow> world \<Rightarrow> world \<times> pc list" where
  "step_remint cfg c w =
     (case remint_if_below_floor cfg c (pool w) of
        (should, st) \<Rightarrow>
          (with_pool w st, Done (UnitReply (Inr ())) # (if should then [AtRewarm c] else [])))"

text \<open>\<open>spawn_rewarm\<close>'s task, \<open>start\<close>, \<open>sweep_idle\<close>, \<open>shutdown\<close>, \<open>release_conversation\<close>.\<close>

definition step_rewarm :: "pool_config \<Rightarrow> instance_class \<Rightarrow> world \<Rightarrow> world \<times> pc list" where
  "step_rewarm cfg c w =
     (case rewarm_reserve cfg c (pool w) of
        (None, st) \<Rightarrow> (with_pool w st, [AtRewarmEnd c])
      | (Some s, st) \<Rightarrow> (with_pool w st, [AtMint (Keeper (Rewarming c)) s]))"

definition step_boot :: "pool_config \<Rightarrow> input \<Rightarrow> world \<Rightarrow> world \<times> pc list" where
  "step_boot cfg inp w =
     (case require_private_parent (in_os inp) (parent_dir cfg) ParentDir (disk w) of
        (Inl e, d) \<Rightarrow> (w\<lparr>disk := d\<rparr>, [Done (UnitReply (Inl e))])
      | (Inr _, d) \<Rightarrow>
          (case (case retain_dir cfg of
                   None \<Rightarrow> (Inr (), d)
                 | Some keep \<Rightarrow> require_private_parent (in_os inp) keep RetainDir d) of
             (Inl e, d') \<Rightarrow> (w\<lparr>disk := d'\<rparr>, [Done (UnitReply (Inl e))])
           | (Inr _, d') \<Rightarrow>
               (w\<lparr>disk := d'\<rparr>, [AtBootNext (map (\<lambda>wc. (wc_class wc, wc_count wc)) (warm_set cfg))])))"

fun step_boot_next :: "pool_config \<Rightarrow> (instance_class \<times> nat) list \<Rightarrow> world \<Rightarrow> world \<times> pc list" where
  "step_boot_next cfg [] w = (w, [Done (UnitReply (Inr ()))])"
| "step_boot_next cfg ((c, 0) # left) w = (w, [AtBootNext left])"
| "step_boot_next cfg ((c, Suc n) # left) w =
     (case warm_reserve cfg c (pool w) of
        (None, st) \<Rightarrow> (with_pool w st, [AtBootNext left])
      | (Some s, st) \<Rightarrow> (with_pool w st, [AtMint (Keeper (Booting ((c, n) # left))) s]))"

definition step_sweep_idle :: "pool_config \<Rightarrow> u64 \<Rightarrow> world \<Rightarrow> world \<times> pc list" where
  "step_sweep_idle cfg now w =
     (case sweep_idle_locked cfg now (pool w) of
        (victims, st) \<Rightarrow> (with_pool w st, [go_on (ThenVictims victims (Some now))]))"

definition step_sweep_leases :: "pool_config \<Rightarrow> u64 \<Rightarrow> world \<Rightarrow> world \<times> pc list" where
  "step_sweep_leases cfg now w =
     (case sweep_leases_locked cfg now (pool w) of
        (expired, st) \<Rightarrow> (with_pool w st, Done (UnitReply (Inr ())) # map AtClear expired))"

definition step_shutdown :: "pool_config \<Rightarrow> world \<Rightarrow> world \<times> pc list" where
  "step_shutdown cfg w =
     (case shutdown_locked cfg (pool w) of
        (victims, st) \<Rightarrow> (with_pool w st, [go_on (ThenVictims victims None)]))"

definition step_end_conversation :: "pool_config \<Rightarrow> string \<Rightarrow> world \<Rightarrow> world \<times> pc list" where
  "step_end_conversation cfg conv w =
     (case release_conversation cfg conv (pool w) of
        (Inl e, st) \<Rightarrow> (with_pool w st, [Done (UnitReply (Inl e))])
      | (Inr None, st) \<Rightarrow> (with_pool w st, [Done (UnitReply (Inr ()))])
      | (Inr (Some s), st) \<Rightarrow> (with_pool w st, [Done (UnitReply (Inr ())), AtClear s]))"

section \<open>One step of a task\<close>

fun task_step :: "pool_config \<Rightarrow> (utext \<Rightarrow> utext) \<Rightarrow> input \<Rightarrow> pc \<Rightarrow> world \<Rightarrow> world \<times> pc list" where
  "task_step cfg nfc inp (AtRun req) w = (w, [step_run cfg nfc inp req])"
| "task_step cfg nfc inp (AtRunSticky conv req resume) w = (w, [step_run_sticky cfg nfc inp conv req resume])"
| "task_step cfg nfc inp (AtClaim conv j) w = step_claim conv j w"
| "task_step cfg nfc inp (AtResume conv j) w = step_resume cfg conv j w"
| "task_step cfg nfc inp (AtAdmit cl) w = step_admit cfg inp cl w"
| "task_step cfg nfc inp (AtCancelClaim conv e) w =
     (with_pool w (claim_cancel conv (pool w)), [Done (StickyReply (Inl e))])"
| "task_step cfg nfc inp (AtReclaim cl s waited) w = step_reclaim cfg cl s waited w"
| "task_step cfg nfc inp (AtMint cl s) w = step_mint cfg cl s w"
| "task_step cfg nfc inp (AtMintRoots cl s spec sp) w = step_mint_roots cfg inp cl s spec sp w"
| "task_step cfg nfc inp (AtMintMark cl s spec) w = step_mint_mark cl s spec w"
| "task_step cfg nfc inp (AtLaunch cl s spec) w = step_launch inp cl s spec w"
| "task_step cfg nfc inp (AtLanded cl s spec h) w = step_landed cfg inp cl s spec h w"
| "task_step cfg nfc inp (AtOrphan cl) w = (w, [mint_failed cl orphaned_mint])"
| "task_step cfg nfc inp (AtAbandonMint cl s survives e) w = step_abandon_mint cfg cl s survives e w"
| "task_step cfg nfc inp (AtPublish cl s) w = step_publish cfg inp cl s w"
| "task_step cfg nfc inp (AtUnpublish s teardown k) w =
     (with_pool w (abandon_unpublishable_locked cfg s teardown (pool w)), [AtDestroy s k])"
| "task_step cfg nfc inp (AtBind conv j s) w =
     (with_pool w (claim_bind conv s (pool w)), [AtHandle (Sticky conv j) s])"
| "task_step cfg nfc inp (AtHandle cl s) w = step_handle cl s w"
| "task_step cfg nfc inp (AtTurn cl s h) w = step_turn inp cl s h w"
| "task_step cfg nfc inp (AtCommitRead cl s turn) w = step_commit_read cl s turn w"
| "task_step cfg nfc inp (AtCommit cl s result cell) w = step_commit cfg inp cl s result cell w"
| "task_step cfg nfc inp (AtQuarantine s k) w =
     (with_pool w (quarantine_locked cfg s (pool w)), [AtDestroy s k])"
| "task_step cfg nfc inp (AtDestroy s k) w = step_destroy s k w"
| "task_step cfg nfc inp (AtClose s r k) w = step_close inp s r k w"
| "task_step cfg nfc inp (AtErase s r k) w = step_erase cfg inp s r k w"
| "task_step cfg nfc inp (AtRelease s k) w = (with_pool w (release_locked cfg s (pool w)), [go_on k])"
| "task_step cfg nfc inp (AtLeak s k) w = (with_pool w (leak cfg s (pool w)), [go_on k])"
| "task_step cfg nfc inp (AtClear s) w = step_clear s w"
| "task_step cfg nfc inp (AtClearWait s h) w = step_clear_wait inp s w"
| "task_step cfg nfc inp (AtClearRead s) w = step_clear_read cfg s w"
| "task_step cfg nfc inp (AtClearPublish s) w = step_clear_publish cfg inp s w"
| "task_step cfg nfc inp (AtRecycle s) w = step_recycle cfg s w"
| "task_step cfg nfc inp (AtHalt s reason f) w = (with_pool w (halt reason (pool w)), [AtClearFailed s f])"
| "task_step cfg nfc inp (AtClearFailed s f) w =
     (with_pool w (clear_failed_locked cfg s f (pool w)), [AtDestroy s (ThenReply (UnitReply (Inr ())))])"
| "task_step cfg nfc inp (AtRemint c) w = step_remint cfg c w"
| "task_step cfg nfc inp (AtRewarm c) w = step_rewarm cfg c w"
| "task_step cfg nfc inp (AtRewarmEnd c) w = (with_pool w (rewarm_done c (pool w)), [Done (UnitReply (Inr ()))])"
| "task_step cfg nfc inp AtBoot w = step_boot cfg inp w"
| "task_step cfg nfc inp (AtBootNext left) w = step_boot_next cfg left w"
| "task_step cfg nfc inp AtSweep w = (w, [AtSweepIdle (in_now inp)])"
| "task_step cfg nfc inp (AtSweepIdle now) w = step_sweep_idle cfg now w"
| "task_step cfg nfc inp (AtSweepLeases now) w = step_sweep_leases cfg now w"
| "task_step cfg nfc inp AtShutdown w = step_shutdown cfg w"
| "task_step cfg nfc inp (AtEndConversation conv) w = step_end_conversation cfg conv w"
| "task_step cfg nfc inp (Done r) w = (w, [Done r])"
| "task_step cfg nfc inp Panicked w = (w, [Panicked])"

end
