(* ===== verification/SlotOwners.thy ===== *)
theory SlotOwners
  imports Tasks
begin

text \<open>
  Which task is responsible for which slot. \<open>pc_want\<close> says, for every program counter of \<open>Tasks\<close>, which
  slots the task holds there and in what state; the interpretation \<open>slots\<close> of the ownership contract
  then reduces the pool's safety to one lemma per action: it acts on its own slot only and leaves it
  as the next program counter expects it, or takes a slot that was nobody's.
\<close>

section \<open>Actions on one slot\<close>

text \<open>
  An action on slot \<open>s\<close>: every other slot, the pending conversations and the shutdown flag are left
  alone, and the slot names no conversation it did not name before.
\<close>

definition local_to :: "slot_id \<Rightarrow> pool_state \<Rightarrow> pool_state \<Rightarrow> bool" where
  "local_to s st st' \<longleftrightarrow>
     (\<forall>s'. s' \<noteq> s \<longrightarrow> bm_get (instances st') s' = bm_get (instances st) s'
        \<and> bm_contains (leaked_slots st') s' = bm_contains (leaked_slots st) s')
     \<and> pending_leases st' = pending_leases st \<and> shutting_down st' = shutting_down st
     \<and> (\<forall>j. bm_get (instances st') s = Some j \<longrightarrow> conversation_id j = None
          \<or> (\<exists>i. bm_get (instances st) s = Some i \<and> conversation_id i = conversation_id j))"

lemma local_refl [simp]: "local_to s st st"
  by (simp add: local_to_def)

lemma local_trans: "local_to s a b \<Longrightarrow> local_to s b c \<Longrightarrow> local_to s a c"
  unfolding local_to_def by metis

lemma candidate_conversation_kept:
  "conversation_id (candidate t n i) = None \<or> conversation_id (candidate t n i) = conversation_id i"
  by (simp add: candidate_def)

lemma local_transition: "transition_locked cfg s t st = Inr (n, st') \<Longrightarrow> local_to s st st'"
  using candidate_conversation_kept by (auto simp: transition_locked_moved local_to_def) metis

lemma local_try: "local_to s st (try_transition cfg s t st)"
  by (cases rule: try_transition_cases [of cfg s t st]) (auto dest: local_transition)

lemma local_or_internal: "transition_or_internal cfg s t st = Inr st' \<Longrightarrow> local_to s st st'"
  by (auto simp: transition_or_internal_Inr dest: local_transition)

lemma local_insert:
  "conversation_id j = None \<or> (\<exists>i. bm_get (instances st) s = Some i \<and> conversation_id i = conversation_id j) \<Longrightarrow>
   local_to s st (st\<lparr>instances := bm_insert s j (instances st)\<rparr>)"
  by (simp add: local_to_def)

lemma local_modify:
  "(\<And>i. conversation_id (f i) = conversation_id i) \<Longrightarrow>
   local_to s st (st\<lparr>instances := bm_modify s f (instances st)\<rparr>)"
  by (auto simp: local_to_def bm_modify_def split: option.split)

lemma local_remove: "local_to s st (st\<lparr>instances := bm_remove s (instances st)\<rparr>)"
  by (simp add: local_to_def)

lemma local_leak_slot:
  "local_to s st (st\<lparr>instances := bm_remove s (instances st), leaked_slots := bs_insert s (leaked_slots st)\<rparr>)"
  by (auto simp: local_to_def)

lemma local_reserve: "local_to s st (reserve_locked cfg s c st)"
  by (simp add: local_to_def)

lemma local_other:
  "local_to s st (st\<lparr>rewarming := r\<rparr>)" "local_to s st (st\<lparr>halted := h\<rparr>)"
  "local_to s st (st\<lparr>protected_leases := q\<rparr>)" "local_to s st (st\<lparr>idle := x\<rparr>)"
  by (simp_all add: local_to_def)

lemma local_publish:
  assumes "publish_idle_locked cfg now s t st = (b, st')"
  shows "local_to s st st'"
proof (cases "transition_locked cfg s t st")
  case (Inl e)
  with assms show ?thesis by (simp add: publish_idle_locked_def)
next
  case (Inr r)
  obtain n st1 where r: "r = (n, st1)" by (cases r)
  have "local_to s st st1" by (rule local_transition [of cfg s t st n]) (simp add: Inr r)
  moreover have "local_to s st1 st'"
    using assms Inr by (auto simp: publish_idle_locked_def r local_to_def Let_def split: option.splits)
  ultimately show ?thesis by (rule local_trans)
qed

lemma local_publish_check_out:
  assumes "publish_idle_and_check_out cfg now s st = (r, st')"
  shows "local_to s st st'"
proof -
  obtain b st1 where p: "publish_idle_locked cfg now s WarmProven st = (b, st1)"
    by (cases "publish_idle_locked cfg now s WarmProven st")
  from local_publish [OF p] have "local_to s st st1" .
  moreover have "local_to s st1 st'"
    using assms by (auto simp: publish_idle_and_check_out_def p split: bool.splits sum.splits
        dest: local_or_internal)
  ultimately show ?thesis by (rule local_trans)
qed

lemma local_mint_begin:
  "mint_begin cfg s st = Some (Inr (spec, sp, st')) \<Longrightarrow> local_to s st st'"
  by (auto simp: mint_begin_def split: sum.splits option.splits dest: local_or_internal)

lemma local_mint_mark: "mint_mark s st = Inr st' \<Longrightarrow> local_to s st st'"
  by (auto simp: mint_mark_def split: option.splits intro!: local_insert)

lemma local_mint_done: "mint_done s h st = Some st' \<Longrightarrow> local_to s st st'"
  by (auto simp: mint_done_def split: option.splits intro!: local_insert)

lemma local_abandon_mint: "local_to s st (abandon_mint_locked cfg s st)"
  unfolding abandon_mint_locked_def Let_def
  by (rule local_trans [OF local_try local_modify]) simp

lemma local_abandon_unpublishable: "local_to s st (abandon_unpublishable_locked cfg s ts st)"
  unfolding abandon_unpublishable_locked_def
  by (induction ts arbitrary: st) (auto intro: local_trans [OF local_try])

lemma local_commit:
  assumes "commit_locked cfg s st = (r, st')"
  shows "local_to s st st'"
  using assms by (auto simp: commit_locked_def split: sum.splits intro: local_trans dest: local_or_internal)

lemma local_recycle: "local_to s st (snd (recycle_locked cfg s st))"
  by (simp add: recycle_locked_def local_try)

lemma local_clear_failed: "local_to s st (clear_failed_locked cfg s f st)"
  by (auto simp: clear_failed_locked_def Let_def intro: local_trans [OF local_try local_try] local_try)

lemma local_quarantine: "local_to s st (quarantine_locked cfg s st)"
  unfolding quarantine_locked_def by (rule local_trans [OF local_try local_try])

lemma local_release: "local_to s st (release_locked cfg s st)"
  by (auto simp: release_locked_def split: sum.split intro: local_trans [OF local_transition local_remove])

lemma local_leak: "local_to s st (leak cfg s st)"
  by (auto simp: leak_def Let_def split: option.split intro: local_try local_trans [OF local_try local_leak_slot])

lemma local_halt: "local_to s st (halt v st)"
  by (simp add: halt_def local_other)

lemma local_resume: "resume_lease cfg conv c st = Inr (s, st') \<Longrightarrow> local_to s st st'"
  by (auto dest!: resume_lease_Inr dest: local_or_internal)

lemma local_reclaim: "reclaim cfg s c waited st = Inr st' \<Longrightarrow> local_to s st st'"
  by (auto simp: reclaim_def split: if_splits intro: local_reserve)

lemmas localities =
  local_try local_publish local_publish_check_out local_mint_begin local_mint_mark local_mint_done
  local_abandon_mint local_abandon_unpublishable local_commit local_recycle local_clear_failed
  local_quarantine local_release local_leak local_halt local_resume local_reclaim local_other

section \<open>Who owns which slot\<close>

text \<open>What the world says of one slot.\<close>

record slot_cell =
  c_inst :: "pool_instance option"
  c_leaked :: bool
  c_running :: bool
  c_heard :: "tag list"

definition slot_cell_of :: "world \<Rightarrow> slot_id \<Rightarrow> slot_cell" where
  "slot_cell_of w s =
     \<lparr>c_inst = bm_get (instances (pool w)) s, c_leaked = bm_contains (leaked_slots (pool w)) s,
      c_running = running w s, c_heard = heard w s\<rparr>"

text \<open>
  A slot no task holds: empty (and then without a process, unless it was subtracted for good), or
  an idle instance that has been given no turn since it was proven empty, or a leased one that was
  given only its own conversation's.
\<close>

definition slot_free :: "slot_id \<Rightarrow> slot_cell \<Rightarrow> bool" where
  "slot_free s c =
     (case c_inst c of
        None \<Rightarrow> c_leaked c \<or> \<not> c_running c
      | Some i \<Rightarrow>
          \<not> mint_in_flight i \<and>
          (state i = Idle \<and> c_heard c = []
           \<or> state i = Leased \<and> set (c_heard c) \<subseteq> {conversation_id i}))"

type_synonym expectation = "pool_instance \<Rightarrow> bool \<Rightarrow> tag list \<Rightarrow> bool"

definition on_slot :: "expectation \<Rightarrow> slot_cell \<Rightarrow> bool" where
  "on_slot Q c = (case c_inst c of None \<Rightarrow> False | Some i \<Rightarrow> Q i (c_running c) (c_heard c))"

text \<open>A caller's instance is of the class the caller asked for.\<close>

fun for_client :: "client \<Rightarrow> pool_instance \<Rightarrow> bool" where
  "for_client (Caller cl) i \<longleftrightarrow> inst_class i = j_class (caller_job cl)"
| "for_client (Keeper k) i \<longleftrightarrow> True"

lemma for_client_cong [simp]:
  "for_client cl (candidate t n i) = for_client cl i" "for_client cl (i\<lparr>mint_in_flight := b\<rparr>) = for_client cl i"
  "for_client cl (i\<lparr>handle := h\<rparr>) = for_client cl i"
  by (cases cl; simp)+

definition e_reserved :: "client \<Rightarrow> expectation" where
  "e_reserved cl i r h \<longleftrightarrow> for_client cl i \<and> state i = Reserved \<and> \<not> mint_in_flight i \<and> turns_started i = 0 \<and> \<not> r"

definition e_warming :: "client \<Rightarrow> expectation" where
  "e_warming cl i r h \<longleftrightarrow>
     for_client cl i \<and> state i = Warming \<and> handle i = None \<and> \<not> mint_in_flight i \<and> turns_started i = 0 \<and> \<not> r"

definition e_launching :: "client \<Rightarrow> expectation" where
  "e_launching cl i r h \<longleftrightarrow>
     for_client cl i \<and> state i = Warming \<and> handle i = None \<and> mint_in_flight i \<and> turns_started i = 0 \<and> h = []"

definition e_abandoned :: "bool \<Rightarrow> expectation" where
  "e_abandoned survives i r h \<longleftrightarrow> state i = Warming \<and> handle i = None \<and> (r \<longrightarrow> survives)"

definition e_minted :: "client \<Rightarrow> expectation" where
  "e_minted cl i r h \<longleftrightarrow>
     for_client cl i \<and> state i = Warming \<and> handle i \<noteq> None \<and> \<not> mint_in_flight i \<and> turns_started i = 0 \<and> h = []"

definition e_checked_out :: "instance_class \<Rightarrow> tag \<Rightarrow> expectation" where
  "e_checked_out c t i r h \<longleftrightarrow>
     inst_class i = c \<and> state i = CheckedOut \<and> \<not> mint_in_flight i \<and> conversation_id i = t \<and> set h \<subseteq> {t}"

definition e_fresh :: "instance_class \<Rightarrow> tag \<Rightarrow> expectation" where
  "e_fresh c t i r h \<longleftrightarrow> e_checked_out c t i r h \<and> (t = None \<longrightarrow> h = [])"

definition e_quarantine :: expectation where
  "e_quarantine i r h \<longleftrightarrow> state i = CheckedOut \<and> \<not> mint_in_flight i"

definition e_clearing :: expectation where
  "e_clearing i r h \<longleftrightarrow> state i = Clearing \<and> \<not> mint_in_flight i"

definition e_cleared :: expectation where
  "e_cleared i r h \<longleftrightarrow> e_clearing i r h \<and> h = []"

definition e_reusable :: "pool_config \<Rightarrow> expectation" where
  "e_reusable cfg i r h \<longleftrightarrow> e_cleared i r h \<and> turns_started i < recycle_turns cfg"

definition e_destroying :: expectation where
  "e_destroying i r h \<longleftrightarrow> state i = Destroying \<and> \<not> mint_in_flight i \<and> (r \<longrightarrow> handle i \<noteq> None)"

definition e_closing :: "teardown_read \<Rightarrow> expectation" where
  "e_closing td i r h \<longleftrightarrow> e_destroying i r h \<and> td_handle td = handle i \<and> td_paths td = paths i \<and> handle i \<noteq> None"

definition e_reaped :: "teardown_read \<Rightarrow> expectation" where
  "e_reaped td i r h \<longleftrightarrow> state i = Destroying \<and> \<not> r \<and> td_paths td = paths i"

definition e_erased :: expectation where
  "e_erased i r h \<longleftrightarrow> state i = Destroying \<and> \<not> r"

definition e_leaking :: expectation where
  "e_leaking i r h \<longleftrightarrow> state i = Destroying"

lemmas expectations =
  e_reserved_def e_warming_def e_launching_def e_abandoned_def e_minted_def e_checked_out_def
  e_fresh_def e_quarantine_def e_clearing_def e_cleared_def e_reusable_def e_destroying_def
  e_closing_def e_reaped_def e_erased_def e_leaking_def

fun after_want :: "after \<Rightarrow> (slot_id \<times> expectation) list" where
  "after_want (ThenVictims ss x) = map (\<lambda>s. (s, e_destroying)) ss"
| "after_want _ = []"

fun pc_want :: "pool_config \<Rightarrow> pc \<Rightarrow> (slot_id \<times> expectation) list" where
  "pc_want cfg (AtMint cl s) = [(s, e_reserved cl)]"
| "pc_want cfg (AtMintRoots cl s spec sp) = [(s, e_warming cl)]"
| "pc_want cfg (AtMintMark cl s spec) = [(s, e_warming cl)]"
| "pc_want cfg (AtLaunch cl s spec) = [(s, e_launching cl)]"
| "pc_want cfg (AtLanded cl s spec h) = [(s, e_launching cl)]"
| "pc_want cfg (AtAbandonMint cl s survives e) = [(s, e_abandoned survives)]"
| "pc_want cfg (AtPublish cl s) = [(s, e_minted cl)]"
| "pc_want cfg (AtBind conv j s) = [(s, e_fresh (j_class j) None)]"
| "pc_want cfg (AtHandle cl s) = [(s, e_fresh (j_class (caller_job cl)) (caller_tag cl))]"
| "pc_want cfg (AtTurn cl s h) = [(s, e_checked_out (j_class (caller_job cl)) (caller_tag cl))]"
| "pc_want cfg (AtCommitRead cl s turn) = [(s, e_checked_out (j_class (caller_job cl)) (caller_tag cl))]"
| "pc_want cfg (AtCommit cl s result cell) = [(s, e_checked_out (j_class (caller_job cl)) (caller_tag cl))]"
| "pc_want cfg (AtQuarantine s k) = (s, e_quarantine) # after_want k"
| "pc_want cfg (AtDestroy s k) = (s, e_destroying) # after_want k"
| "pc_want cfg (AtClose s td k) = (s, e_closing td) # after_want k"
| "pc_want cfg (AtErase s td k) = (s, e_reaped td) # after_want k"
| "pc_want cfg (AtRelease s k) = (s, e_erased) # after_want k"
| "pc_want cfg (AtLeak s k) = (s, e_leaking) # after_want k"
| "pc_want cfg (AtClear s) = [(s, e_clearing)]"
| "pc_want cfg (AtClearWait s h) = [(s, e_clearing)]"
| "pc_want cfg (AtClearRead s) = [(s, e_cleared)]"
| "pc_want cfg (AtClearPublish s) = [(s, e_reusable cfg)]"
| "pc_want cfg (AtRecycle s) = [(s, e_cleared)]"
| "pc_want cfg (AtHalt s reason f) = [(s, e_clearing)]"
| "pc_want cfg (AtClearFailed s f) = [(s, e_clearing)]"
| "pc_want cfg _ = []"

definition slot_want :: "pool_config \<Rightarrow> pc \<Rightarrow> (slot_id \<times> (slot_cell \<Rightarrow> bool)) list" where
  "slot_want cfg t = map (\<lambda>(s, Q). (s, on_slot Q)) (pc_want cfg t)"

definition excludes_free :: "expectation \<Rightarrow> bool" where
  "excludes_free Q \<longleftrightarrow> (\<forall>i r h. Q i r h \<longrightarrow> state i \<noteq> Idle \<and> state i \<noteq> Leased)"

lemma pc_want_excludes: "list_all (\<lambda>(s, Q). excludes_free Q) (pc_want cfg t)"
proof -
  have k: "list_all (\<lambda>(s, Q). excludes_free Q) (after_want k)" for k
    by (cases k) (auto simp: list_all_iff excludes_free_def expectations)
  show ?thesis
    by (cases t) (simp_all add: k, auto simp: excludes_free_def expectations)
qed

interpretation slots: ownership "slot_want cfg" slot_cell_of slot_free for cfg
proof
  fix s P t c
  assume "(s, P) \<in> set (slot_want cfg t)" and P: "P c"
  then obtain Q where "P = on_slot Q" "excludes_free Q"
    using pc_want_excludes [of cfg t] by (auto simp: slot_want_def list_all_iff)
  with P show "\<not> slot_free s c"
    by (auto simp: on_slot_def slot_free_def excludes_free_def split: option.splits)
qed


section \<open>The four shapes of a step\<close>

definition pcs_want :: "pool_config \<Rightarrow> pc list \<Rightarrow> (slot_id \<times> expectation) list" where
  "pcs_want cfg ps = concat (map (pc_want cfg) ps)"

lemma pcs_want_simps [simp]:
  "pcs_want cfg [] = []" "pcs_want cfg (p # ps) = pc_want cfg p @ pcs_want cfg ps"
  by (simp_all add: pcs_want_def)

lemma slots_wants: "slots.wants cfg ps = map (\<lambda>(s, Q). (s, on_slot Q)) (pcs_want cfg ps)"
proof (induction ps)
  case (Cons p ps)
  have "slots.wants cfg (p # ps) = slot_want cfg p @ slots.wants cfg ps"
    by (rule slots.wants_Cons)
  with Cons show ?case by (simp add: slot_want_def [of cfg p])
qed simp

lemma slots_held: "slots.held cfg ps = fst ` set (pcs_want cfg ps)"
  by (force simp: slots.held_def slots_wants)

lemma slots_met:
  "slots.met cfg w ps \<longleftrightarrow> distinct (map fst (pcs_want cfg ps))
     \<and> (\<forall>(s, Q) \<in> set (pcs_want cfg ps). on_slot Q (slot_cell_of w s))"
  by (simp add: slots.met_def slots_wants split_def comp_def)

lemma hands_same:
  assumes "slots.met cfg w [p]" "pcs_want cfg ps = pc_want cfg p"
    and "\<And>s. slot_cell_of w' s = slot_cell_of w s"
  shows "slots.hands cfg w p w' ps"
  using assms by (simp add: slots.hands_def slots_met slots_held)

lemma hands_own:
  assumes met: "slots.met cfg w [p]" and w: "pc_want cfg p = (s, Q) # R" "pcs_want cfg ps = (s, Q') # R"
    and same: "\<And>s'. s' \<noteq> s \<Longrightarrow> slot_cell_of w' s' = slot_cell_of w s'"
    and Q': "on_slot Q' (slot_cell_of w' s)"
  shows "slots.hands cfg w p w' ps"
proof -
  have "s' \<noteq> s" if "(s', Q'') \<in> set R" for s' Q''
    using met w(1) that by (force simp: slots_met)
  with met w same Q' show ?thesis
    by (auto simp: slots.hands_def slots_met slots_held)
qed

lemma hands_give:
  assumes met: "slots.met cfg w [p]" and w: "pc_want cfg p = (s, Q) # R" "pcs_want cfg ps = R"
    and same: "\<And>s'. s' \<noteq> s \<Longrightarrow> slot_cell_of w' s' = slot_cell_of w s'"
    and f: "slot_free s (slot_cell_of w' s)"
  shows "slots.hands cfg w p w' ps"
proof -
  have "s' \<noteq> s" if "(s', Q'') \<in> set R" for s' Q''
    using met w(1) that by (force simp: slots_met)
  with met w same f show ?thesis
    by (auto simp: slots.hands_def slots_met slots_held)
qed

lemma hands_take:
  assumes w: "pc_want cfg p = []" "pcs_want cfg ps = map (\<lambda>s. (s, Q)) vs" "distinct vs"
    and new: "\<And>s. s \<in> set vs \<Longrightarrow> slot_free s (slot_cell_of w s) \<and> on_slot Q (slot_cell_of w' s)"
    and other: "\<And>s. s \<notin> set vs \<Longrightarrow> slot_cell_of w' s = slot_cell_of w s
      \<or> slot_free s (slot_cell_of w s) \<and> slot_free s (slot_cell_of w' s)"
  shows "slots.hands cfg w p w' ps"
  using assms by (auto simp: slots.hands_def slots_met slots_held comp_def image_image)

lemma met_owner:
  assumes "slots.met cfg w [p]" "pc_want cfg p = (s, Q) # R"
  obtains i where "bm_get (instances (pool w)) s = Some i" "Q i (running w s) (heard w s)"
  using assms by (auto simp: slots_met on_slot_def slot_cell_of_def split: option.splits)

lemma pc_want_go_on [simp]: "pc_want cfg (go_on k) = after_want k"
proof -
  have "pc_want cfg (admission_failed cl e) = []" for cl e by (cases cl) simp_all
  then have "pc_want cfg (mint_failed cl e) = []" for cl e by (cases "(cl, e)" rule: mint_failed.cases) simp_all
  moreover have "pc_want cfg (kept k) = []" for k by (cases k) simp_all
  ultimately show ?thesis by (cases k rule: go_on.cases) simp_all
qed


text \<open>Where a task never gets while the pool is not shutting down.\<close>

fun sane :: "pc \<Rightarrow> bool" where
  "sane (AtUnpublish s ts k) = False"
| "sane (AtOrphan cl) = False"
| "sane Panicked = False"
| "sane AtShutdown = False"
| "sane _ = True"

lemma sane_next [simp]:
  "sane (admission_failed cl e)" "sane (mint_failed cl' e)" "sane (kept k)" "sane (checked_out cl s)" "sane (go_on a)"
proof -
  show adm: "sane (admission_failed cl e)" for cl e by (cases cl) simp_all
  show mint: "sane (mint_failed cl' e)" for cl' e by (cases "(cl', e)" rule: mint_failed.cases) (simp_all add: adm)
  show kept: "sane (kept k)" for k by (cases k) simp_all
  show "sane (checked_out cl s)" by (cases cl) simp_all
  show "sane (go_on a)" by (cases a rule: go_on.cases) (simp_all add: mint kept)
qed

section \<open>Steps of a task that holds a slot\<close>

definition world_local :: "slot_id \<Rightarrow> world \<Rightarrow> world \<Rightarrow> bool" where
  "world_local s w w' \<longleftrightarrow> local_to s (pool w) (pool w')
     \<and> (\<forall>s'. s' \<noteq> s \<longrightarrow> running w' s' = running w s' \<and> heard w' s' = heard w s')"

lemma world_local_cell: "world_local s w w' \<Longrightarrow> s' \<noteq> s \<Longrightarrow> slot_cell_of w' s' = slot_cell_of w s'"
  by (simp add: world_local_def local_to_def slot_cell_of_def)

lemma with_pool_simps [simp]:
  "pool (with_pool w st) = st" "running (with_pool w st) = running w" "heard (with_pool w st) = heard w"
  "disk (with_pool w st) = disk w"
  by (simp_all add: with_pool_def)

text \<open>
  The task keeps its slot in a state that meets what it expects next, or gives it up free; either
  way it acted on that slot alone.
\<close>

definition advances :: "pool_config \<Rightarrow> slot_id \<Rightarrow> (slot_id \<times> expectation) list \<Rightarrow> world \<Rightarrow> world \<times> pc list \<Rightarrow> bool" where
  "advances cfg s R w out \<longleftrightarrow>
     world_local s w (fst out) \<and> list_all sane (snd out)
     \<and> ((\<exists>Q j. pcs_want cfg (snd out) = (s, Q) # R \<and> bm_get (instances (pool (fst out))) s = Some j
            \<and> Q j (running (fst out) s) (heard (fst out) s))
        \<or> pcs_want cfg (snd out) = R \<and> slot_free s (slot_cell_of (fst out) s))"

lemma hands_advance:
  assumes "slots.met cfg w [p]" "pc_want cfg p = (s, Q) # R" "advances cfg s R w (w', ps)"
  shows "slots.hands cfg w p w' ps"
  using assms world_local_cell hands_own [OF assms(1,2)] hands_give [OF assms(1,2)]
  by (auto simp: advances_def on_slot_def slot_cell_of_def)

lemma advances_keep:
  assumes "bm_get (instances (pool w')) s = Some j" "Q j (running w' s) (heard w' s)"
    "pcs_want cfg ps = (s, Q) # R" "world_local s w w'" "list_all sane ps"
  shows "advances cfg s R w (w', ps)"
  using assms by (auto simp: advances_def)

lemma try_granted:
  assumes "pool_inv cfg st" "bm_get (instances st) s = Some i" "step (state i) t = Inr n" "n \<noteq> Idle" "n \<noteq> Leased"
  shows "try_transition cfg s t st = moved s t n i st"
  using transition_granted [OF assms(1-3)] assms(4,5) by (simp add: try_transition_def)

lemma candidate_turns:
  "turns_started (candidate t n i) =
     (if t \<in> {CheckOut, ResumeLease} then sat_add32 (turns_started i) 1 else turns_started i)"
  by (simp add: candidate_def)

lemma candidate_conv:
  "conversation_id (candidate t n i) =
     (if t \<in> {ReleaseLease, ShutdownDrain, TurnNotDelivered, ResponseDelivered} then None
      else conversation_id i)"
  by (simp add: candidate_def)

lemmas pool_moves = transition_or_internal_granted try_granted

lemma adv_mint:
  assumes inv: "pool_inv cfg (pool w)" and i: "bm_get (instances (pool w)) s = Some i"
    and e: "e_reserved cl i (running w s) (heard w s)"
  shows "advances cfg s [] w (step_mint cfg cl s w)"
proof -
  have edge: "step (state i) BeginWarm = Inr Warming" using e by (simp add: step_def expectations)
  have ok: "slot_ok cfg (pool w) s i" by (rule pool_invD(1) [OF inv i])
  then obtain pin where pin: "pin_for cfg (account (inst_class i)) = Some pin"
    by (auto simp: slot_ok_def has_account_def)
  have h: "handle i = None" using ok e by (auto simp: slot_ok_def instance_ok_def expectations)
  from transition_or_internal_granted [OF inv i edge] pin
  obtain spec sp where m: "mint_begin cfg s (pool w) = Some (Inr (spec, sp, moved s BeginWarm Warming i (pool w)))"
    by (simp add: mint_begin_def)
  show ?thesis
    unfolding step_mint_def m option.case sum.case prod.case
    by (rule advances_keep [where Q = "e_warming cl" and j = "candidate BeginWarm Warming i"])
      (use e h local_mint_begin [OF m] in \<open>simp_all add: expectations world_local_def candidate_turns candidate_conv\<close>)
qed

lemma adv_mint_roots:
  assumes i: "bm_get (instances (pool w)) s = Some i" and e: "e_warming cl i (running w s) (heard w s)"
  shows "advances cfg s [] w (step_mint_roots cfg inp cl s spec sp w)"
  using assms by (auto simp: step_mint_roots_def advances_def world_local_def expectations split: prod.split sum.split)

lemma adv_mint_mark:
  assumes i: "bm_get (instances (pool w)) s = Some i" and e: "e_warming cl i (running w s) (heard w s)"
  shows "advances cfg s [] w (step_mint_mark cl s spec w)"
  using assms local_mint_mark [of s "pool w"]
  by (auto simp: step_mint_mark_def mint_mark_def advances_def world_local_def expectations)

lemma adv_launch:
  assumes i: "bm_get (instances (pool w)) s = Some i" and e: "e_launching cl i (running w s) (heard w s)"
  shows "advances cfg s [] w (step_launch inp cl s spec w)"
  using assms by (auto simp: step_launch_def advances_def world_local_def expectations split: sum.split)

lemma adv_landed:
  assumes i: "bm_get (instances (pool w)) s = Some i" and e: "e_launching cl i (running w s) (heard w s)"
  shows "advances cfg s [] w (step_landed cfg inp cl s spec h w)"
  using assms local_mint_done [of s h "pool w"]
  by (auto simp: step_landed_def mint_done_def advances_def world_local_def expectations Let_def)


lemma adv_abandon_mint:
  assumes inv: "pool_inv cfg (pool w)" and i: "bm_get (instances (pool w)) s = Some i"
    and e: "e_abandoned survives i (running w s) (heard w s)"
  shows "advances cfg s [] w (step_abandon_mint cfg cl s survives err w)"
proof -
  have edge: "step (state i) MintFailed = Inr Destroying" using e by (simp add: step_def expectations)
  have get: "bm_get (instances (abandon_mint_locked cfg s (pool w))) s =
      Some ((candidate MintFailed Destroying i)\<lparr>mint_in_flight := False\<rparr>)"
    using try_granted [OF inv i edge] by (simp add: abandon_mint_locked_def Let_def bm_modify_def)
  have loc: "world_local s w (with_pool w (abandon_mint_locked cfg s (pool w)))"
    by (simp add: world_local_def local_abandon_mint)
  show ?thesis
    using e get loc by (cases survives) (auto simp: step_abandon_mint_def advances_def expectations)
qed

lemma publish_granted:
  assumes inv: "pool_inv cfg st" and i: "bm_get (instances st) s = Some i"
    and edge: "step (state i) t = Inr Idle" and ok: "handle i \<noteq> None" "turns_started i < recycle_turns cfg"
  obtains st' where "publish_idle_locked cfg now s t st = (True, st')" "pool_inv cfg st'"
    "bm_get (instances st') s = Some ((candidate t Idle i)\<lparr>idle_since_ms := now\<rparr>)"
proof -
  have t: "is_proof_carrying t" using edge by (cases "state i"; cases t) (simp_all add: step_def)
  obtain b st' where pub: "publish_idle_locked cfg now s t st = (b, st')"
    by (cases "publish_idle_locked cfg now s t st")
  have tr: "transition_locked cfg s t st = Inr (Idle, moved s t Idle i st)"
    using transition_granted [OF inv i edge] ok by simp
  then have "b" and inv': "pool_inv cfg st'"
    using publish_keeps_inv [OF inv t pub] by simp_all
  moreover have "bm_get (instances st') s = Some ((candidate t Idle i)\<lparr>idle_since_ms := now\<rparr>)"
    using pub tr by (auto simp: publish_idle_locked_def Let_def)
  ultimately show thesis using pub that by simp
qed

lemma adv_publish:
  assumes inv: "pool_inv cfg (pool w)" and i: "bm_get (instances (pool w)) s = Some i"
    and e: "e_minted cl i (running w s) (heard w s)" and cap: "0 < recycle_turns cfg"
  shows "advances cfg s [] w (step_publish cfg inp cl s w)"
proof -
  have edge: "step (state i) WarmProven = Inr Idle" using e by (simp add: step_def expectations)
  have conv: "conversation_id i = None"
    using pool_invD(1) [OF inv i] e by (auto simp: slot_ok_def expectations)
  obtain st where p: "publish_idle_locked cfg (in_now inp) s WarmProven (pool w) = (True, st)"
    and inv': "pool_inv cfg st"
    and j: "bm_get (instances st) s = Some ((candidate WarmProven Idle i)\<lparr>idle_since_ms := in_now inp\<rparr>)"
    using publish_granted [OF inv i edge] e cap unfolding e_minted_def by metis
  show ?thesis
  proof (cases cl)
    case (Keeper k)
    have "slot_free s (slot_cell_of (with_pool w st) s)"
      using e j by (simp add: slot_free_def slot_cell_of_def expectations)
    moreover have "pcs_want cfg [kept k] = []" by (cases k) simp_all
    ultimately show ?thesis
      using local_publish [OF p] by (simp add: Keeper p advances_def world_local_def)
  next
    case (Caller c)
    have "step (state ((candidate WarmProven Idle i)\<lparr>idle_since_ms := in_now inp\<rparr>)) CheckOut = Inr CheckedOut"
      by (simp add: step_def)
    from transition_or_internal_granted [OF inv' j this]
    obtain st' where co: "publish_idle_and_check_out cfg (in_now inp) s (pool w) = (Some (Inr s), st')"
      and j': "bm_get (instances st') s = Some (candidate CheckOut CheckedOut
        ((candidate WarmProven Idle i)\<lparr>idle_since_ms := in_now inp\<rparr>))"
      by (simp add: publish_idle_and_check_out_def p)
    have "pcs_want cfg [checked_out c s] = [(s, e_fresh (j_class (caller_job c)) None)]" if "caller_tag c = None"
      using that by (cases c) simp_all
    moreover have "pcs_want cfg [checked_out c s] = [(s, e_fresh (j_class (caller_job c)) None)]" if "caller_tag c \<noteq> None"
      using that by (cases c) simp_all
    ultimately show ?thesis
      unfolding Caller step_publish.simps co prod.case option.case sum.case
      by (intro advances_keep [OF _ _ _ , where Q = "e_fresh (j_class (caller_job c)) None"])
        (use e j' conv Caller local_publish_check_out [OF co] in
          \<open>auto simp: expectations world_local_def candidate_conv\<close>)
  qed
qed


lemma adv_bind_conv:
  assumes i: "bm_get (instances (pool w)) s = Some i" and e: "e_fresh c None i (running w s) (heard w s)"
  shows "\<exists>j. bm_get (instances (claim_bind conv s (pool w))) s = Some j
    \<and> e_fresh c (Some conv) j (running w s) (heard w s)"
  using assms by (auto simp: claim_bind_def bm_modify_def expectations)

lemma adv_handle:
  assumes inv: "pool_inv cfg (pool w)" and i: "bm_get (instances (pool w)) s = Some i"
    and e: "e_fresh (j_class (caller_job cl)) (caller_tag cl) i (running w s) (heard w s)"
  shows "advances cfg s [] w (step_handle cl s w)"
proof -
  obtain h where h: "handle i = Some h"
    using pool_invD(1) [OF inv i] e by (auto simp: slot_ok_def instance_ok_def expectations)
  then show ?thesis
    using i e by (auto simp: step_handle_def handle_of_def advances_def world_local_def expectations)
qed

lemma adv_turn:
  assumes i: "bm_get (instances (pool w)) s = Some i"
    and e: "e_checked_out (j_class (caller_job cl)) (caller_tag cl) i (running w s) (heard w s)"
  shows "advances cfg s [] w (step_turn inp cl s h w)"
  using assms by (auto simp: step_turn_def advances_def world_local_def expectations split: sum.split)

lemma adv_commit_read:
  assumes inv: "pool_inv cfg (pool w)" and i: "bm_get (instances (pool w)) s = Some i"
    and e: "e_checked_out (j_class (caller_job cl)) (caller_tag cl) i (running w s) (heard w s)"
  shows "advances cfg s [] w (step_commit_read cl s turn w)"
proof -
  obtain h where h: "handle i = Some h"
    using pool_invD(1) [OF inv i] e by (auto simp: slot_ok_def instance_ok_def expectations)
  then show ?thesis
    using i e by (cases cl) (simp_all add: step_commit_read_def Let_def handle_of_def sticky_read_def
        advances_def world_local_def)
qed

lemma commit_granted:
  assumes inv: "pool_inv cfg st" and i: "bm_get (instances st) s = Some i" "state i = CheckedOut"
  obtains st1 where "transition_or_internal cfg s TurnCommitted st = Inr st1" "pool_inv cfg st1"
    "bm_get (instances st1) s = Some (candidate TurnCommitted Delivering i)" "shutting_down st1 = shutting_down st"
proof
  have "step (state i) TurnCommitted = Inr Delivering" using i(2) by (simp add: step_def)
  from transition_or_internal_granted [OF inv i(1) this]
  show "transition_or_internal cfg s TurnCommitted st = Inr (moved s TurnCommitted Delivering i st)" by simp
  from transition_or_internal_keeps_inv [OF inv _ this]
  show "pool_inv cfg (moved s TurnCommitted Delivering i st)" by simp
qed simp_all

lemma adv_commit_stateless:
  assumes inv: "pool_inv cfg (pool w)" and i: "bm_get (instances (pool w)) s = Some i"
    and e: "e_checked_out c (caller_tag (Stateless j)) i (running w s) (heard w s)"
  shows "advances cfg s [] w (step_commit cfg inp (Stateless j) s result cell w)"
proof -
  obtain st1 where c: "transition_or_internal cfg s TurnCommitted (pool w) = Inr st1" "pool_inv cfg st1"
    "bm_get (instances st1) s = Some (candidate TurnCommitted Delivering i)"
    using commit_granted [OF inv i] e unfolding e_checked_out_def by metis
  have "step (state (candidate TurnCommitted Delivering i)) ResponseDelivered = Inr Clearing"
    by (simp add: step_def)
  from transition_or_internal_granted [OF c(2,3) this]
  obtain st2 where cm: "commit_locked cfg s (pool w) = (Inr (), st2)"
    and j2: "bm_get (instances st2) s = Some (candidate ResponseDelivered Clearing (candidate TurnCommitted Delivering i))"
    by (simp add: commit_locked_def c(1))
  from e j2 local_commit [OF cm] show ?thesis
    by (simp add: cm advances_def world_local_def expectations)
qed

lemma commit_sticky_granted:
  assumes inv: "pool_inv cfg st" and i: "bm_get (instances st) s = Some i"
    and e: "state i = CheckedOut" "conversation_id i = Some conv" and up: "\<not> shutting_down st"
  obtains st' j where "commit_sticky_locked cfg now s conv st = (Inr False, st')" "local_to s st st'"
    "bm_get (instances st') s = Some j" "state j = Leased" "conversation_id j = Some conv"
    "mint_in_flight j = mint_in_flight i"
proof -
  obtain st1 where c: "transition_or_internal cfg s TurnCommitted st = Inr st1" "pool_inv cfg st1"
    "bm_get (instances st1) s = Some (candidate TurnCommitted Delivering i)" "\<not> shutting_down st1"
    using commit_granted [OF inv i] e up by metis
  define d where "d = candidate TurnCommitted Delivering i"
  have conv: "conversation_id d = Some conv" using e by (simp add: d_def candidate_conv)
  then have "d\<lparr>conversation_id := Some conv\<rparr> = d" by simp
  then have same: "bm_modify s (\<lambda>i. i\<lparr>conversation_id := Some conv\<rparr>) (instances st1) = instances st1"
    using c(3) by (intro bm_eqI) (auto simp: bm_modify_def d_def [symmetric])
  have "step (state d) LeaseHeld = Inr Leased" by (simp add: d_def step_def)
  from transition_granted [OF c(2) c(3) [folded d_def] this] conv
  have lh: "transition_or_internal cfg s LeaseHeld st1 = Inr (moved s LeaseHeld Leased d st1)"
    by (simp add: transition_or_internal_def)
  let ?st = "(moved s LeaseHeld Leased d st1)\<lparr>instances := bm_modify s (\<lambda>i. i\<lparr>idle_since_ms := now\<rparr>)
      (instances (moved s LeaseHeld Leased d st1))\<rparr>"
  have cs: "commit_sticky_locked cfg now s conv st = (Inr False, ?st)"
    using c(1,4) lh by (simp add: commit_sticky_locked_def Let_def same)
  have "local_to s st st1" by (rule local_or_internal [OF c(1)])
  moreover have "local_to s st1 (moved s LeaseHeld Leased d st1)" by (rule local_or_internal [OF lh])
  moreover have "local_to s (moved s LeaseHeld Leased d st1) ?st" by (rule local_modify) simp
  ultimately have "local_to s st ?st" by (blast intro: local_trans)
  then show thesis
    using cs e conv
    by (intro that [of ?st "(candidate LeaseHeld Leased d)\<lparr>idle_since_ms := now\<rparr>"])
      (simp_all add: bm_modify_def candidate_conv d_def)
qed

lemma adv_commit_sticky:
  assumes inv: "pool_inv cfg (pool w)" and i: "bm_get (instances (pool w)) s = Some i"
    and e: "e_checked_out c (Some conv) i (running w s) (heard w s)" and up: "\<not> shutting_down (pool w)"
  shows "advances cfg s [] w (step_commit cfg inp (Sticky conv j) s result cell w)"
proof -
  have e': "state i = CheckedOut" "conversation_id i = Some conv" "\<not> mint_in_flight i" "set (heard w s) \<subseteq> {Some conv}"
    using e by (auto simp: expectations)
  obtain st' k where k: "commit_sticky_locked cfg (in_now inp) s conv (pool w) = (Inr False, st')"
    "local_to s (pool w) st'" "bm_get (instances st') s = Some k" "state k = Leased"
    "conversation_id k = Some conv" "mint_in_flight k = mint_in_flight i"
    by (rule commit_sticky_granted [OF inv i e'(1,2) up])
  then show ?thesis
    using e' by (simp add: advances_def world_local_def slot_free_def slot_cell_of_def)
qed

lemma adv_quarantine:
  assumes inv: "pool_inv cfg (pool w)" and i: "bm_get (instances (pool w)) s = Some i"
    and e: "e_quarantine i (running w s) (heard w s)"
  shows "advances cfg s (after_want k) w (with_pool w (quarantine_locked cfg s (pool w)), [AtDestroy s k])"
proof -
  have t1: "try_transition cfg s TurnNotDelivered (pool w) = moved s TurnNotDelivered Quarantined i (pool w)"
    using e by (intro try_granted [OF inv i]) (simp_all add: step_def expectations)
  have inv1: "pool_inv cfg (moved s TurnNotDelivered Quarantined i (pool w))"
    using try_transition_keeps_inv [OF inv, of TurnNotDelivered s] t1 by simp
  have t2: "try_transition cfg s BeginDestroy (moved s TurnNotDelivered Quarantined i (pool w)) =
      moved s BeginDestroy Destroying (candidate TurnNotDelivered Quarantined i)
        (moved s TurnNotDelivered Quarantined i (pool w))"
    by (intro try_granted [OF inv1]) (simp_all add: step_def)
  have "handle i \<noteq> None"
    using pool_invD(1) [OF inv i] e by (auto simp: slot_ok_def instance_ok_def expectations)
  then show ?thesis
    using e local_quarantine [of s "pool w" cfg]
    by (simp add: advances_def world_local_def quarantine_locked_def t1 t2 expectations)
qed

lemma adv_destroy:
  assumes i: "bm_get (instances (pool w)) s = Some i" and e: "e_destroying i (running w s) (heard w s)"
  shows "advances cfg s (after_want k) w (step_destroy s k w)"
  using assms by (auto simp: step_destroy_def destroy_read_def advances_def world_local_def expectations
      split: option.split)

lemma adv_close:
  assumes i: "bm_get (instances (pool w)) s = Some i" and e: "e_closing td i (running w s) (heard w s)"
  shows "advances cfg s (after_want k) w (step_close inp s td k w)"
  using assms by (auto simp: step_close_def unreaped_def reaped_by_def advances_def world_local_def expectations
      split: option.split sum.splits)

lemma adv_erase:
  assumes i: "bm_get (instances (pool w)) s = Some i" and e: "e_reaped td i (running w s) (heard w s)"
  shows "advances cfg s (after_want k) w (step_erase cfg inp s td k w)"
  using assms by (auto simp: step_erase_def advances_def world_local_def expectations
      split: prod.split sum.split)

lemma release_granted:
  assumes inv: "pool_inv cfg st" and i: "bm_get (instances st) s = Some i" "state i = Destroying"
  shows "bm_get (instances (release_locked cfg s st)) s = None"
    and "leaked_slots (release_locked cfg s st) = leaked_slots st"
proof -
  have "step (state i) Reaped = Inr Retired" using i(2) by (simp add: step_def)
  from transition_granted [OF inv i(1) this]
  have "transition_locked cfg s Reaped st = Inr (Retired, moved s Reaped Retired i st)" by simp
  then show "bm_get (instances (release_locked cfg s st)) s = None"
    "leaked_slots (release_locked cfg s st) = leaked_slots st"
    by (simp_all add: release_locked_def)
qed

lemma adv_release:
  assumes inv: "pool_inv cfg (pool w)" and i: "bm_get (instances (pool w)) s = Some i"
    and e: "e_erased i (running w s) (heard w s)"
  shows "advances cfg s (after_want k) w (with_pool w (release_locked cfg s (pool w)), [go_on k])"
  using e release_granted [OF inv i] local_release [of s "pool w" cfg]
  by (simp add: advances_def world_local_def slot_free_def slot_cell_of_def expectations)

lemma leak_gone:
  assumes i: "bm_get (instances st) s = Some i"
  shows "bm_get (instances (leak cfg s st)) s = None \<and> bm_contains (leaked_slots (leak cfg s st)) s"
proof -
  have "bm_get (instances (try_transition cfg s ReapFailed st)) s \<noteq> None"
    using i by (cases rule: try_transition_cases [of cfg s ReapFailed st]) (auto simp: transition_locked_moved)
  then show ?thesis by (auto simp: leak_def Let_def)
qed

lemma adv_leak:
  assumes i: "bm_get (instances (pool w)) s = Some i"
  shows "advances cfg s (after_want k) w (with_pool w (leak cfg s (pool w)), [go_on k])"
  using leak_gone [OF i, of cfg] local_leak [of s "pool w" cfg]
  by (simp add: advances_def world_local_def slot_free_def slot_cell_of_def)

lemma adv_clear:
  assumes inv: "pool_inv cfg (pool w)" and i: "bm_get (instances (pool w)) s = Some i"
    and e: "e_clearing i (running w s) (heard w s)"
  shows "advances cfg s [] w (step_clear s w)"
proof -
  obtain h where h: "handle i = Some h"
    using pool_invD(1) [OF inv i] e by (auto simp: slot_ok_def instance_ok_def expectations)
  then show ?thesis
    using i e by (simp add: step_clear_def handle_of_def advances_def world_local_def)
qed

lemma adv_clear_wait:
  assumes i: "bm_get (instances (pool w)) s = Some i" and e: "e_clearing i (running w s) (heard w s)"
  shows "advances cfg s [] w (step_clear_wait inp s w)"
  using assms by (auto simp: step_clear_wait_def advances_def world_local_def expectations
      split: sum.split option.split)

lemma adv_clear_read:
  assumes i: "bm_get (instances (pool w)) s = Some i" and e: "e_cleared i (running w s) (heard w s)"
  shows "advances cfg s [] w (step_clear_read cfg s w)"
  using assms by (auto simp: step_clear_read_def clear_transition_read_def clear_success_transition_def
      advances_def world_local_def expectations)

lemma adv_clear_publish:
  assumes inv: "pool_inv cfg (pool w)" and i: "bm_get (instances (pool w)) s = Some i"
    and e: "e_reusable cfg i (running w s) (heard w s)"
  shows "advances cfg s [] w (step_clear_publish cfg inp s w)"
proof -
  have edge: "step (state i) ClearProven = Inr Idle" using e by (simp add: step_def expectations)
  have h: "handle i \<noteq> None"
    using pool_invD(1) [OF inv i] e by (auto simp: slot_ok_def instance_ok_def expectations)
  obtain st where p: "publish_idle_locked cfg (in_now inp) s ClearProven (pool w) = (True, st)"
    and j: "bm_get (instances st) s = Some ((candidate ClearProven Idle i)\<lparr>idle_since_ms := in_now inp\<rparr>)"
    using publish_granted [OF inv i edge h] e unfolding e_reusable_def by metis
  show ?thesis
    using e j local_publish [OF p]
    by (simp add: step_clear_publish_def p advances_def world_local_def slot_free_def slot_cell_of_def expectations)
qed

lemma adv_recycle:
  assumes inv: "pool_inv cfg (pool w)" and i: "bm_get (instances (pool w)) s = Some i"
    and e: "e_cleared i (running w s) (heard w s)"
  shows "advances cfg s [] w (step_recycle cfg s w)"
proof -
  have t: "try_transition cfg s RecycleDue (pool w) = moved s RecycleDue Destroying i (pool w)"
    using e by (intro try_granted [OF inv i]) (simp_all add: step_def expectations)
  have "handle i \<noteq> None"
    using pool_invD(1) [OF inv i] e by (auto simp: slot_ok_def instance_ok_def expectations)
  then show ?thesis
    using e i local_recycle [of s "pool w" cfg]
    by (simp add: step_recycle_def recycle_locked_def t advances_def world_local_def expectations)
qed

lemma adv_clear_failed:
  assumes inv: "pool_inv cfg (pool w)" and i: "bm_get (instances (pool w)) s = Some i"
    and e: "e_clearing i (running w s) (heard w s)"
  shows "advances cfg s [] w (with_pool w (clear_failed_locked cfg s f (pool w)),
    [AtDestroy s (ThenReply r)])"
proof -
  have h: "handle i \<noteq> None"
    using pool_invD(1) [OF inv i] e by (auto simp: slot_ok_def instance_ok_def expectations)
  have coherent: "try_transition cfg s ClearFailedCoherent (pool w) = moved s ClearFailedCoherent Destroying i (pool w)"
    using e by (intro try_granted [OF inv i]) (simp_all add: step_def expectations)
  have t1: "try_transition cfg s ClearFailedIncoherent (pool w) = moved s ClearFailedIncoherent Quarantined i (pool w)"
    using e by (intro try_granted [OF inv i]) (simp_all add: step_def expectations)
  have inv1: "pool_inv cfg (moved s ClearFailedIncoherent Quarantined i (pool w))"
    using try_transition_keeps_inv [OF inv, of ClearFailedIncoherent s] t1 by simp
  have t2: "try_transition cfg s BeginDestroy (moved s ClearFailedIncoherent Quarantined i (pool w)) =
      moved s BeginDestroy Destroying (candidate ClearFailedIncoherent Quarantined i)
        (moved s ClearFailedIncoherent Quarantined i (pool w))"
    by (intro try_granted [OF inv1]) (simp_all add: step_def)
  show ?thesis
    using e h local_clear_failed [of s "pool w" cfg f]
    by (auto simp: advances_def world_local_def clear_failed_locked_def clear_failed_transition_def
        Let_def coherent t1 t2 expectations)
qed

lemma adv_halt:
  assumes i: "bm_get (instances (pool w)) s = Some i" and e: "e_clearing i (running w s) (heard w s)"
  shows "advances cfg s [] w (with_pool w (halt reason (pool w)), [AtClearFailed s f])"
  using assms local_halt [of s "pool w" reason]
  by (auto simp: advances_def world_local_def halt_def)

section \<open>Steps that take slots nobody holds\<close>

definition quiet :: "pool_state \<Rightarrow> pool_state \<Rightarrow> bool" where
  "quiet st st' \<longleftrightarrow> pending_leases st' = pending_leases st \<and> shutting_down st' = shutting_down st
     \<and> (\<forall>s j. bm_get (instances st') s = Some j \<longrightarrow> conversation_id j = None
          \<or> (\<exists>i. bm_get (instances st) s = Some i \<and> conversation_id i = conversation_id j))"

lemma quiet_refl [simp]: "quiet st st"
  by (simp add: quiet_def)

lemma quiet_trans: "quiet a b \<Longrightarrow> quiet b c \<Longrightarrow> quiet a c"
  unfolding quiet_def by metis

lemma local_quiet: "local_to s st st' \<Longrightarrow> quiet st st'"
  unfolding local_to_def quiet_def by metis

text \<open>Exactly the slots \<open>vs\<close> made transition \<open>t\<close>, out of state \<open>from\<close>.\<close>

definition took :: "transition \<Rightarrow> instance_state \<Rightarrow> instance_state \<Rightarrow> slot_id list \<Rightarrow> pool_state \<Rightarrow> pool_state \<Rightarrow> bool" where
  "took t a b vs st st' \<longleftrightarrow> distinct vs \<and> quiet st st' \<and> leaked_slots st' = leaked_slots st
     \<and> (\<forall>s. s \<notin> set vs \<longrightarrow> bm_get (instances st') s = bm_get (instances st) s)
     \<and> (\<forall>s \<in> set vs. \<exists>i. bm_get (instances st) s = Some i \<and> state i = a
          \<and> bm_get (instances st') s = Some (candidate t b i))"

lemma took_Nil [simp]: "took t a b [] st st"
  by (simp add: took_def)

lemma took_append:
  assumes "a \<noteq> b" and l: "took t a b vs st st1" and r: "took t a b vs' st1 st2"
  shows "took t a b (vs @ vs') st st2"
proof -
  have dis: "s \<notin> set vs" if "s \<in> set vs'" for s
    using l r that \<open>a \<noteq> b\<close> by (fastforce simp: took_def)
  have "\<exists>i. bm_get (instances st) s = Some i \<and> state i = a
          \<and> bm_get (instances st2) s = Some (candidate t b i)" if "s \<in> set vs \<union> set vs'" for s
  proof (cases "s \<in> set vs")
    case True
    then have "bm_get (instances st2) s = bm_get (instances st1) s"
      using r dis by (auto simp: took_def)
    with True l show ?thesis by (simp add: took_def)
  next
    case False
    then have "bm_get (instances st) s = bm_get (instances st1) s" "s \<in> set vs'"
      using that l by (auto simp: took_def)
    with r show ?thesis by (simp add: took_def)
  qed
  moreover have "quiet st st2" using l r quiet_trans by (auto simp: took_def)
  ultimately show ?thesis
    using l r dis by (auto simp: took_def)
qed

lemma took_one:
  assumes "transition_locked cfg s t st = Inr r" "\<And>a' n. step a' t = Inr n \<Longrightarrow> a' = a \<and> n = b"
  shows "took t a b [s] st (snd r)"
proof -
  obtain n st' where r: "r = (n, st')" by (cases r)
  have "quiet st st'" using local_quiet [OF local_transition] assms(1) by (simp add: r)
  then show ?thesis using assms by (auto simp: r took_def transition_locked_moved)
qed

lemma expired_edge: "step a IdleExpired = Inr n \<Longrightarrow> a = Idle \<and> n = Destroying"
  by (cases a) (simp_all add: step_def)

lemma lease_edge: "step a ReleaseLease = Inr n \<Longrightarrow> a = Leased \<and> n = Clearing"
  by (cases a) (simp_all add: step_def)

lemma sweep_class_took:
  "sweep_class cfg now c st = (vs, st') \<Longrightarrow> took IdleExpired Idle Destroying vs st st'"
proof (induction cfg now c st arbitrary: vs rule: sweep_class.induct)
  case (1 cfg now c st)
  show ?case
  proof (cases "\<exists>s r. \<not> idle_held st c \<le> warm_floor cfg c \<and> lru_of st c = Some s \<and> expired_idle cfg now s st
      \<and> transition_locked cfg s IdleExpired st = Inr r")
    case True
    then obtain s r where r: "\<not> idle_held st c \<le> warm_floor cfg c" "lru_of st c = Some s"
      "expired_idle cfg now s st" "transition_locked cfg s IdleExpired st = Inr r" by blast
    obtain vs1 where rec: "sweep_class cfg now c (snd r) = (vs1, st')" and vs: "vs = s # vs1"
      using "1.prems" r by (subst (asm) sweep_class.simps) (auto split: prod.splits)
    have "took IdleExpired Idle Destroying vs1 (snd r) st'"
      using "1.IH" [OF r(1,2) _ r(4) rec] r(3) by simp
    from took_append [OF _ took_one [OF r(4) expired_edge] this] vs show ?thesis by simp
  next
    case False
    then show ?thesis
      using "1.prems" by (subst (asm) sweep_class.simps) (auto split: option.splits sum.splits if_splits)
  qed
qed

lemma sweep_idle_took:
  assumes "sweep_idle_locked cfg now st = (vs, st')"
  shows "took IdleExpired Idle Destroying vs st st'"
proof -
  have "took IdleExpired Idle Destroying (fst acc) st (snd acc) \<Longrightarrow>
      took IdleExpired Idle Destroying (fst (fold (sweep_step cfg now) cs acc)) st
        (snd (fold (sweep_step cfg now) cs acc))" for cs acc
  proof (induction cs arbitrary: acc)
    case (Cons c cs)
    have "took IdleExpired Idle Destroying (fst (sweep_class cfg now c (snd acc))) (snd acc)
        (snd (sweep_class cfg now c (snd acc)))"
      by (rule sweep_class_took [of cfg now c]) simp
    from took_append [OF _ Cons.prems this] show ?case
      by (simp add: Cons.IH sweep_step_def [of cfg now c] split_def)
  qed simp
  from this [of "([], st)" "bm_keys (idle st)"] assms show ?thesis
    by (simp add: sweep_idle_locked_def)
qed

lemma sweep_leases_took:
  assumes "sweep_leases_locked cfg now st = (vs, st')"
  shows "took ReleaseLease Leased Clearing vs st st'"
proof -
  have one: "took ReleaseLease Leased Clearing (fst (sweep_lease_step cfg now s acc)) st (snd (sweep_lease_step cfg now s acc))"
    if prev: "took ReleaseLease Leased Clearing (fst acc) st (snd acc)" for s acc
  proof (cases "lease_due cfg now s (snd acc)")
    case True
    show ?thesis
    proof (cases "transition_locked cfg s ReleaseLease (snd acc)")
      case (Inr r)
      from took_append [OF _ prev took_one [OF Inr lease_edge]] Inr True show ?thesis
        by (cases r) (simp add: sweep_lease_step_def split_def)
    qed (use prev True in \<open>simp add: sweep_lease_step_def split_def\<close>)
  qed (use prev in \<open>simp add: sweep_lease_step_def split_def\<close>)
  have "took ReleaseLease Leased Clearing (fst (fold (sweep_lease_step cfg now) (bm_keys (instances st)) ([], st))) st
      (snd (fold (sweep_lease_step cfg now) (bm_keys (instances st)) ([], st)))"
    by (rule fold_keeps [where P = "\<lambda>acc. took ReleaseLease Leased Clearing (fst acc) st (snd acc)"])
      (auto intro: one)
  with assms show ?thesis by (simp add: sweep_leases_locked_def)
qed

text \<open>A slot whose instance is idle or leased, or that has none, is nobody's.\<close>

definition unheld :: "world \<Rightarrow> bool" where
  "unheld w \<longleftrightarrow>
     (\<forall>s. (\<forall>i. bm_get (instances (pool w)) s = Some i \<longrightarrow> state i = Idle \<or> state i = Leased) \<longrightarrow>
        slot_free s (slot_cell_of w s))"

lemma unheldD:
  "unheld w \<Longrightarrow> bm_get (instances (pool w)) s = None \<Longrightarrow> slot_free s (slot_cell_of w s)"
  "unheld w \<Longrightarrow> bm_get (instances (pool w)) s = Some i \<Longrightarrow> state i = Idle \<or> state i = Leased \<Longrightarrow>
   slot_free s (slot_cell_of w s)"
  by (simp_all add: unheld_def)

lemma owned_unheld:
  assumes "slots.owned cfg w ts"
  shows "unheld w"
  unfolding unheld_def
proof (intro allI impI)
  fix s
  assume s: "\<forall>i. bm_get (instances (pool w)) s = Some i \<longrightarrow> state i = Idle \<or> state i = Leased"
  have "s \<notin> slots.held cfg ts"
  proof
    assume "s \<in> slots.held cfg ts"
    then obtain Q t where Q: "(s, Q) \<in> set (pc_want cfg t)" "t \<in> set ts"
      by (auto simp: slots_held pcs_want_def)
    then have "on_slot Q (slot_cell_of w s)"
      using assms by (fastforce simp: slots.owned_def slots_met pcs_want_def)
    moreover have "excludes_free Q"
      using pc_want_excludes [of cfg t] Q(1) by (auto simp: list_all_iff)
    ultimately show False
      using s by (auto simp: on_slot_def slot_cell_of_def excludes_free_def split: option.splits)
  qed
  then show "slot_free s (slot_cell_of w s)"
    using assms by (simp add: slots.owned_def)
qed

text \<open>The task held nothing; what it holds now was nobody's.\<close>

definition takes :: "pool_config \<Rightarrow> world \<Rightarrow> world \<times> pc list \<Rightarrow> bool" where
  "takes cfg w out \<longleftrightarrow> quiet (pool w) (pool (fst out)) \<and> list_all sane (snd out)
     \<and> (\<exists>vs Q. pcs_want cfg (snd out) = map (\<lambda>s. (s, Q)) vs \<and> distinct vs
        \<and> (\<forall>s \<in> set vs. slot_free s (slot_cell_of w s) \<and> on_slot Q (slot_cell_of (fst out) s))
        \<and> (\<forall>s. s \<notin> set vs \<longrightarrow> slot_cell_of (fst out) s = slot_cell_of w s))"

lemma hands_takes: "pc_want cfg p = [] \<Longrightarrow> takes cfg w (w', ps) \<Longrightarrow> slots.hands cfg w p w' ps"
  unfolding takes_def fst_conv snd_conv by (elim exE conjE, rule hands_take) auto

lemma takes_none:
  "pcs_want cfg ps = [] \<Longrightarrow> list_all sane ps \<Longrightarrow> quiet (pool w) (pool w') \<Longrightarrow>
   (\<And>s. slot_cell_of w' s = slot_cell_of w s) \<Longrightarrow> takes cfg w (w', ps)"
  by (auto simp: takes_def intro!: exI [of _ "[]"])

lemma takes_one:
  assumes "pcs_want cfg ps = [(s, Q)]" "world_local s w w'" "slot_free s (slot_cell_of w s)"
    "bm_get (instances (pool w')) s = Some j" "Q j (running w' s) (heard w' s)" "list_all sane ps"
  shows "takes cfg w (w', ps)"
  unfolding takes_def fst_conv snd_conv
  using assms world_local_cell [OF assms(2)] local_quiet
  by (intro conjI exI [of _ "[s]"] exI [of _ Q]) (auto simp: on_slot_def slot_cell_of_def world_local_def)

lemma takes_took:
  assumes "pcs_want cfg ps = map (\<lambda>s. (s, Q)) vs" "took t a b vs (pool w) st'" "unheld w"
    "a = Idle \<or> a = Leased" "list_all sane ps"
    and "\<And>s i. s \<in> set vs \<Longrightarrow> bm_get (instances (pool w)) s = Some i \<Longrightarrow> state i = a \<Longrightarrow>
      slot_free s (slot_cell_of w s) \<Longrightarrow> Q (candidate t b i) (running w s) (heard w s)"
  shows "takes cfg w (with_pool w st', ps)"
proof -
  have "slot_free s (slot_cell_of w s) \<and> on_slot Q (slot_cell_of (with_pool w st') s)" if s: "s \<in> set vs" for s
  proof -
    obtain i where i: "bm_get (instances (pool w)) s = Some i" "state i = a"
      "bm_get (instances st') s = Some (candidate t b i)"
      using assms(2) s by (auto simp: took_def)
    then have "slot_free s (slot_cell_of w s)" using unheldD(2) [OF assms(3) i(1)] assms(4) by simp
    with assms(6) [OF s i(1,2)] i(3) show ?thesis by (simp add: on_slot_def slot_cell_of_def)
  qed
  moreover have "slot_cell_of (with_pool w st') s = slot_cell_of w s" if "s \<notin> set vs" for s
    using assms(2) that by (simp add: took_def slot_cell_of_def)
  ultimately show ?thesis
    unfolding takes_def fst_conv snd_conv using assms(1,2,5) by (auto simp: took_def)
qed


lemma step_checked_out [simp]: "pcs_want cfg [checked_out cl s] = [(s, e_fresh (j_class (caller_job cl)) None)]"
  by (cases cl) simp_all

lemma step_admission_failed [simp]: "pc_want cfg (admission_failed cl e) = []"
  by (cases cl) simp_all

lemma step_kept [simp]: "pc_want cfg (kept k) = []"
  by (cases k) simp_all

lemma step_mint_failed [simp]: "pc_want cfg (mint_failed cl e) = []"
  by (cases "(cl, e)" rule: mint_failed.cases) simp_all

lemma takes_reserve:
  assumes un: "unheld w" and s: "\<not> bm_contains (instances (pool w)) s" "\<not> bm_contains (leaked_slots (pool w)) s"
    and ps: "pcs_want cfg ps = [(s, e_reserved cl)]" "list_all sane ps"
    and cl: "\<And>i. inst_class i = c \<Longrightarrow> for_client cl i"
  shows "takes cfg w (with_pool w (reserve_locked cfg s c (pool w)), ps)"
proof -
  have free: "slot_free s (slot_cell_of w s)"
    using unheldD(1) [OF un] s(1) by (simp add: bm_contains_def)
  then have "\<not> running w s"
    using s by (simp add: slot_free_def slot_cell_of_def bm_contains_def)
  with free ps cl local_reserve [of s "pool w" cfg c] show ?thesis
    by (intro takes_one [where Q = "e_reserved cl"]) (auto simp: world_local_def expectations)
qed

lemma take_resume:
  assumes inv: "pool_inv cfg (pool w)" and un: "unheld w"
  shows "takes cfg w (step_resume cfg conv j w)"
proof (cases "resume_lease cfg conv (j_class j) (pool w)")
  case (Inl e)
  then show ?thesis by (simp add: step_resume_def takes_none)
next
  case (Inr r)
  obtain s st where r: "r = (s, st)" by (cases r)
  obtain i where i: "bm_get (instances (pool w)) s = Some i" "conversation_id i = Some conv" "state i = Leased"
    "inst_class i = j_class j" and tr: "transition_or_internal cfg s ResumeLease (pool w) = Inr st"
    using resume_lease_Inr [OF Inr [unfolded r]] by blast
  have "step (state i) ResumeLease = Inr CheckedOut" using i(3) by (simp add: step_def)
  from transition_or_internal_granted [OF inv i(1) this] tr
  have st: "st = moved s ResumeLease CheckedOut i (pool w)" by simp
  have free: "slot_free s (slot_cell_of w s)" using unheldD(2) [OF un i(1)] i(3) by simp
  then have "\<not> mint_in_flight i" "set (heard w s) \<subseteq> {Some conv}"
    using i by (auto simp: slot_free_def slot_cell_of_def)
  then show ?thesis
    using i(2,4) local_resume [OF Inr [unfolded r]] free
    unfolding step_resume_def Inr r sum.case prod.case
    by (intro takes_one [where Q = "e_fresh (j_class j) (Some conv)" and s = s and j = "candidate ResumeLease CheckedOut i"])
      (auto simp: world_local_def expectations candidate_conv st)
qed

lemma take_end_conversation:
  assumes inv: "pool_inv cfg (pool w)" and un: "unheld w"
  shows "takes cfg w (step_end_conversation cfg conv w)"
proof -
  obtain r st where rc: "release_conversation cfg conv (pool w) = (r, st)"
    by (cases "release_conversation cfg conv (pool w)")
  consider (none) "st = pool w" "\<forall>s. r \<noteq> Inr (Some s)"
    | (some) s i where "r = Inr (Some s)" "bm_get (instances (pool w)) s = Some i" "state i = Leased"
        "transition_or_internal cfg s ReleaseLease (pool w) = Inr st"
    using rc by (auto simp: release_conversation_def split: if_splits option.splits prod.splits
        instance_state.splits sum.splits dest!: find_entries_Some)
  then show ?thesis
  proof cases
    case none
    then show ?thesis
      by (auto simp: step_end_conversation_def rc with_pool_def split: sum.split option.split intro!: takes_none)
  next
    case some
    have "step (state i) ReleaseLease = Inr Clearing" using some(3) by (simp add: step_def)
    from transition_or_internal_granted [OF inv some(2) this] some(4)
    have st: "st = moved s ReleaseLease Clearing i (pool w)" by simp
    have free: "slot_free s (slot_cell_of w s)" using unheldD(2) [OF un some(2)] some(3) by simp
    then have "\<not> mint_in_flight i" using some by (simp add: slot_free_def slot_cell_of_def)
    then show ?thesis
      using local_or_internal [OF some(4)] free
      unfolding step_end_conversation_def rc some(1) prod.case sum.case option.case
      by (intro takes_one [where Q = e_clearing and s = s and j = "candidate ReleaseLease Clearing i"])
        (auto simp: world_local_def expectations st)
  qed
qed

lemma take_reclaim:
  assumes "unheld w"
  shows "takes cfg w (step_reclaim cfg cl s waited w)"
proof (cases "reclaim cfg s (j_class (caller_job cl)) waited (pool w)")
  case (Inr st)
  then have "\<not> bm_contains (instances (pool w)) s" "\<not> bm_contains (leaked_slots (pool w)) s"
    "st = reserve_locked cfg s (j_class (caller_job cl)) (pool w)"
    by (auto simp: reclaim_def split: if_splits)
  with takes_reserve [OF assms] Inr show ?thesis by (simp add: step_reclaim_def)
qed (simp add: step_reclaim_def takes_none)

lemma take_rewarm:
  assumes "unheld w"
  shows "takes cfg w (step_rewarm cfg c w)"
proof -
  have same: "with_pool w (pool w) = w" by (simp add: with_pool_def)
  have res: "takes cfg w (with_pool w (reserve_locked cfg s c (pool w)), [AtMint (Keeper (Rewarming c)) s])"
    if "free_slot (pool w) (pool_size cfg) = Some s" for s
    using takes_reserve [OF assms] free_slot_Some [OF that] by simp
  show ?thesis
    using res by (auto simp: step_rewarm_def rewarm_reserve_def same takes_none split: option.split)
qed

lemma take_boot_next:
  assumes "unheld w"
  shows "takes cfg w (step_boot_next cfg left w)"
proof -
  have same: "with_pool w (pool w) = w" by (simp add: with_pool_def)
  have res: "takes cfg w (with_pool w (reserve_locked cfg s c (pool w)), [AtMint (Keeper k) s])"
    if "free_slot (pool w) (pool_size cfg) = Some s" for s c k
    using takes_reserve [OF assms, of s cfg "[AtMint (Keeper k) s]" "Keeper k"] free_slot_Some [OF that] by simp
  show ?thesis
    by (cases "(cfg, left, w)" rule: step_boot_next.cases)
      (auto simp: warm_reserve_def same takes_none res split: option.split)
qed

lemma take_sweep_idle:
  assumes un: "unheld w" and inv: "pool_inv cfg (pool w)"
  shows "takes cfg w (step_sweep_idle cfg now w)"
proof -
  obtain vs st where s: "sweep_idle_locked cfg now (pool w) = (vs, st)"
    by (cases "sweep_idle_locked cfg now (pool w)")
  have "e_destroying (candidate IdleExpired Destroying i) (running w s) (heard w s)"
    if i: "bm_get (instances (pool w)) s = Some i" "state i = Idle" "slot_free s (slot_cell_of w s)" for s i
    using pool_invD(1) [OF inv i(1)] i
    by (auto simp: expectations slot_free_def slot_cell_of_def slot_ok_def instance_ok_def)
  with takes_took [OF _ sweep_idle_took [OF s] un, of cfg _ e_destroying] show ?thesis
    by (simp add: step_sweep_idle_def s)
qed

lemma take_sweep_leases:
  assumes un: "unheld w"
  shows "takes cfg w (step_sweep_leases cfg now w)"
proof -
  obtain vs st where s: "sweep_leases_locked cfg now (pool w) = (vs, st)"
    by (cases "sweep_leases_locked cfg now (pool w)")
  have "e_clearing (candidate ReleaseLease Clearing i) (running w s) (heard w s)"
    if i: "bm_get (instances (pool w)) s = Some i" "state i = Leased" "slot_free s (slot_cell_of w s)" for s i
    using i by (auto simp: expectations slot_free_def slot_cell_of_def)
  moreover have "pcs_want cfg (map AtClear vs) = map (\<lambda>s. (s, e_clearing)) vs" "list_all sane (map AtClear vs)"
    by (induction vs) simp_all
  ultimately show ?thesis
    using takes_took [OF _ sweep_leases_took [OF s] un, of cfg _ e_clearing] by (simp add: step_sweep_leases_def s)
qed


lemma admit_once_Inr:
  assumes inv: "pool_inv cfg st" and a: "admit_once cfg c wt m st = (Inr r, st')"
  obtains (Warm) s i st1 where "adm r = Warm s" "bm_get (instances st) s = Some i" "state i = Idle" "inst_class i = c"
      "st1 = moved s CheckOut CheckedOut i st" "st'\<lparr>rewarming := rewarming st\<rparr> = st1\<lparr>rewarming := rewarming st\<rparr>"
      "rewarm_class r = None \<or> rewarm_class r = Some c"
  | (Reserved) s where "adm r = ReservedSlot s" "\<not> bm_contains (instances st) s"
      "\<not> bm_contains (leaked_slots st) s" "st' = reserve_locked cfg s c st" "rewarm_class r = None"
  | (ColdSwap) s i where "adm r = ColdSwap s" "bm_get (instances st) s = Some i" "state i = Idle"
      "st' = moved s ColdSwapVictim Destroying i st" "rewarm_class r = None"
proof (cases "lru_of st c")
  case (Some s)
  obtain i where i: "bm_get (instances st) s = Some i" "state i = Idle" "inst_class i = c"
    using lru_of_Idle [OF inv Some] by metis
  have "step (state i) CheckOut = Inr CheckedOut" using i(2) by (simp add: step_def)
  from transition_or_internal_granted [OF inv i(1) this]
  have "transition_or_internal cfg s CheckOut st = Inr (moved s CheckOut CheckedOut i st)" by simp
  with a Some Warm [OF _ i refl] show thesis
    by (auto simp: admit_once_def Let_def split: if_splits option.splits)
next
  case None
  show thesis
  proof (cases "if live st < capacity st (pool_size cfg) then free_slot st (pool_size cfg) else None")
    case (Some s)
    then have "free_slot st (pool_size cfg) = Some s" by (simp split: if_splits)
    with a None Some free_slot_Some [of st "pool_size cfg" s] Reserved [of s] show thesis
      by (auto simp: admit_once_def split: if_splits option.splits)
  next
    case full: None
    from a None full obtain s where v: "cold_swap_victim st = Some s"
      and tr: "transition_or_internal cfg s ColdSwapVictim st = Inr st'"
      and r: "r = \<lparr>adm = ColdSwap s, rewarm_class = None\<rparr>"
      by (auto simp: admit_once_def Let_def split: if_splits option.splits sum.splits)
    obtain i where i: "bm_get (instances st) s = Some i" "state i = Idle"
      using cold_swap_victim_Some [OF inv v] by metis
    have "step (state i) ColdSwapVictim = Inr Destroying" using i(2) by (simp add: step_def)
    from transition_or_internal_granted [OF inv i(1) this] tr
    have "st' = moved s ColdSwapVictim Destroying i st" by simp
    with ColdSwap [of s i] r i show thesis by simp
  qed
qed

lemma admit_pass_cases:
  assumes "admit_pass cfg c d wt now st = (out, st')"
  obtains (wait) n where "out = AdmitSleep n" "st' = st"
  | (refuse) e where "out = AdmitReturn (Inl e)" "st' = st"
  | (grant) a m where "out = AdmitReturn (Inr \<lparr>admission_of = a, waited_ms = millis_of wt\<rparr>)"
      "admit_once cfg c (millis_of wt) m st = (Inr a, st')"
proof -
  obtain r st1 where r: "admit_once cfg c (millis_of wt) (admit_budget d wt now \<noteq> None) st = (r, st1)"
    by (cases "admit_once cfg c (millis_of wt) (admit_budget d wt now \<noteq> None) st")
  show thesis
  proof (cases r)
    case (Inl e)
    with r admit_once_Inl_state [of cfg c _ _ st e st1] have "st1 = st" by blast
    with assms r Inl wait refuse show thesis
      by (auto simp: admit_pass_def Let_def split: option.splits if_splits)
  next
    case (Inr a)
    with assms r grant show thesis by (auto simp: admit_pass_def Let_def)
  qed
qed

lemma take_admit:
  assumes un: "unheld w" and inv: "pool_inv cfg (pool w)"
  shows "takes cfg w (step_admit cfg inp cl w)"
proof -
  have same: "with_pool w (pool w) = w" by (simp add: with_pool_def)
  obtain out st where ap: "admit_pass cfg (j_class (caller_job cl)) (j_deadline (caller_job cl))
      (in_elapsed inp) (in_now inp) (pool w) = (out, st)"
    by (cases "admit_pass cfg (j_class (caller_job cl)) (j_deadline (caller_job cl))
      (in_elapsed inp) (in_now inp) (pool w)")
  from ap show ?thesis
  proof (cases rule: admit_pass_cases)
    case (grant a m)
    have rw: "pcs_want cfg (case rewarm_class a of None \<Rightarrow> [] | Some c \<Rightarrow> [AtRewarm c]) = []"
      "list_all sane (case rewarm_class a of None \<Rightarrow> [] | Some c \<Rightarrow> [AtRewarm c])"
      by (simp_all split: option.split)
    from inv grant(2) show ?thesis
    proof (cases rule: admit_once_Inr)
      case (Warm s i st1)
      have free: "slot_free s (slot_cell_of w s)" using unheldD(2) [OF un Warm(2)] Warm(3) by simp
      have "conversation_id i = None" using pool_invD(1) [OF inv Warm(2)] Warm(3) by (auto simp: slot_ok_def)
      moreover have "heard w s = []" "\<not> mint_in_flight i"
        using free Warm(2,3) by (simp_all add: slot_free_def slot_cell_of_def)
      moreover have "instances st = instances st1" "leaked_slots st = leaked_slots st1"
        "pending_leases st = pending_leases st1" "shutting_down st = shutting_down st1"
        using arg_cong [OF Warm(6), of instances] arg_cong [OF Warm(6), of leaked_slots]
          arg_cong [OF Warm(6), of pending_leases] arg_cong [OF Warm(6), of shutting_down] by simp_all
      ultimately have "world_local s w (with_pool w st)
          \<and> bm_get (instances (pool (with_pool w st))) s = Some (candidate CheckOut CheckedOut i)
          \<and> e_fresh (j_class (caller_job cl)) None (candidate CheckOut CheckedOut i) (running (with_pool w st) s) (heard (with_pool w st) s)"
        using Warm(2,4,5) by (simp add: world_local_def local_to_def expectations candidate_conv)
      then show ?thesis
        using takes_one [OF _ _ free, of cfg _ "e_fresh (j_class (caller_job cl)) None" "with_pool w st"] Warm(1) rw grant(1)
        by (simp add: step_admit_def ap Let_def) (cases cl; simp)
    next
      case (Reserved s)
      with takes_reserve [OF un Reserved(2,3), of cfg "[AtMint (Caller cl) s]" "Caller cl"] grant(1) show ?thesis
        by (simp add: step_admit_def ap Let_def)
    next
      case (ColdSwap s i)
      have free: "slot_free s (slot_cell_of w s)" using unheldD(2) [OF un ColdSwap(2)] ColdSwap(3) by simp
      then have "e_destroying (candidate ColdSwapVictim Destroying i) (running w s) (heard w s)"
        using pool_invD(1) [OF inv ColdSwap(2)] ColdSwap(2,3)
        by (auto simp: expectations slot_free_def slot_cell_of_def slot_ok_def instance_ok_def)
      moreover have "world_local s w (with_pool w st)"
        using ColdSwap(2,4) by (simp add: world_local_def local_to_def candidate_conv)
      ultimately show ?thesis
        using takes_one [OF _ _ free, of cfg _ e_destroying "with_pool w st"] ColdSwap(1,4,5) grant(1)
        by (simp add: step_admit_def ap Let_def)
    qed
  qed (simp_all add: step_admit_def ap Let_def same takes_none)
qed

end
