(* ===== verification/ConvOwners.thy ===== *)
theory ConvOwners
  imports SlotOwners
begin

text \<open>
  Which task is claiming which conversation, and which instance is bound to it: the second
  interpretation of the ownership contract, over conversation names.
\<close>

section \<open>Which task claims which conversation\<close>

fun caller_claims :: "caller \<Rightarrow> string list" where
  "caller_claims (Stateless j) = []"
| "caller_claims (Sticky conv j) = [conv]"

fun client_claims :: "client \<Rightarrow> string list" where
  "client_claims (Caller cl) = caller_claims cl"
| "client_claims (Keeper k) = []"

fun after_claims :: "after \<Rightarrow> string list" where
  "after_claims (ThenFailed cl e) = client_claims cl"
| "after_claims (ThenReclaim cl s waited) = caller_claims cl"
| "after_claims _ = []"

fun pc_claims :: "pc \<Rightarrow> string list" where
  "pc_claims (AtAdmit cl) = caller_claims cl"
| "pc_claims (AtCancelClaim conv e) = [conv]"
| "pc_claims (AtReclaim cl s waited) = caller_claims cl"
| "pc_claims (AtMint cl s) = client_claims cl"
| "pc_claims (AtMintRoots cl s spec sp) = client_claims cl"
| "pc_claims (AtMintMark cl s spec) = client_claims cl"
| "pc_claims (AtLaunch cl s spec) = client_claims cl"
| "pc_claims (AtLanded cl s spec h) = client_claims cl"
| "pc_claims (AtOrphan cl) = client_claims cl"
| "pc_claims (AtAbandonMint cl s survives e) = client_claims cl"
| "pc_claims (AtPublish cl s) = client_claims cl"
| "pc_claims (AtUnpublish s ts k) = after_claims k"
| "pc_claims (AtBind conv j s) = [conv]"
| "pc_claims (AtQuarantine s k) = after_claims k"
| "pc_claims (AtDestroy s k) = after_claims k"
| "pc_claims (AtClose s td k) = after_claims k"
| "pc_claims (AtErase s td k) = after_claims k"
| "pc_claims (AtRelease s k) = after_claims k"
| "pc_claims (AtLeak s k) = after_claims k"
| "pc_claims _ = []"

definition bound_to :: "world \<Rightarrow> string \<Rightarrow> slot_id set" where
  "bound_to w conv = {s. \<exists>i. bm_get (instances (pool w)) s = Some i \<and> conversation_id i = Some conv}"

definition conv_cell :: "world \<Rightarrow> string \<Rightarrow> bool \<times> slot_id set" where
  "conv_cell w conv = (bm_contains (pending_leases (pool w)) conv, bound_to w conv)"

definition conv_free :: "string \<Rightarrow> bool \<times> slot_id set \<Rightarrow> bool" where
  "conv_free conv c \<longleftrightarrow> \<not> fst c \<and> (\<exists>s. snd c \<subseteq> {s})"

definition claimed :: "bool \<times> slot_id set \<Rightarrow> bool" where
  "claimed c \<longleftrightarrow> fst c \<and> snd c = {}"

definition conv_want :: "pc \<Rightarrow> (string \<times> (bool \<times> slot_id set \<Rightarrow> bool)) list" where
  "conv_want t = map (\<lambda>conv. (conv, claimed)) (pc_claims t)"

interpretation convs: ownership conv_want conv_cell conv_free
  by unfold_locales (auto simp: conv_want_def claimed_def conv_free_def)

definition pcs_claims :: "pc list \<Rightarrow> string list" where
  "pcs_claims ps = concat (map pc_claims ps)"

lemma pcs_claims_simps [simp]:
  "pcs_claims [] = []" "pcs_claims (p # ps) = pc_claims p @ pcs_claims ps"
  by (simp_all add: pcs_claims_def)

lemma convs_wants: "convs.wants ps = map (\<lambda>conv. (conv, claimed)) (pcs_claims ps)"
proof (induction ps)
  case (Cons p ps)
  have "convs.wants (p # ps) = conv_want p @ convs.wants ps" by (rule convs.wants_Cons)
  with Cons show ?case by (simp add: conv_want_def [of p])
qed simp

lemma convs_held: "convs.held ps = set (pcs_claims ps)"
  by (simp add: convs.held_def convs_wants image_image)

lemma convs_met:
  "convs.met w ps \<longleftrightarrow> distinct (pcs_claims ps) \<and> (\<forall>conv \<in> set (pcs_claims ps). claimed (conv_cell w conv))"
  by (simp add: convs.met_def convs_wants comp_def)

text \<open>Every step but a claim, its cancellation and its binding leaves the claims alone.\<close>

lemma conv_hands_quiet:
  assumes met: "convs.met w [p]" and q: "quiet (pool w) (pool w')" and ps: "pcs_claims ps = pc_claims p"
    and bound: "\<And>conv. bound_to w conv \<noteq> {} \<Longrightarrow> conv_free conv (conv_cell w conv)"
  shows "convs.hands w p w' ps"
proof -
  have sub: "bound_to w' conv \<subseteq> bound_to w conv" for conv
    using q by (fastforce simp: quiet_def bound_to_def)
  have pend: "bm_contains (pending_leases (pool w')) conv = bm_contains (pending_leases (pool w)) conv" for conv
    using q by (simp add: quiet_def)
  have "claimed (conv_cell w' conv)" if "conv \<in> set (pc_claims p)" for conv
    using met that sub [of conv] pend [of conv] by (auto simp: convs_met claimed_def conv_cell_def)
  moreover have "conv_cell w' conv = conv_cell w conv
      \<or> conv_free conv (conv_cell w conv) \<and> conv_free conv (conv_cell w' conv)" for conv
  proof (cases "bound_to w conv = {}")
    case True
    then show ?thesis using sub [of conv] pend by (simp add: conv_cell_def)
  next
    case False
    from bound [OF this] sub [of conv] pend [of conv] have "conv_free conv (conv_cell w' conv)"
      by (fastforce simp: conv_free_def conv_cell_def)
    with bound [OF False] show ?thesis by simp
  qed
  ultimately show ?thesis
    using met ps by (auto simp: convs.hands_def convs_met convs_held)
qed

lemma owned_bound:
  assumes "convs.owned w ts" "bound_to w conv \<noteq> {}"
  shows "conv_free conv (conv_cell w conv)"
  using assms by (auto simp: convs.owned_def convs_met convs_held claimed_def conv_cell_def)

lemma conv_hands_claim:
  assumes "claim_begin conv (pool w) = Inr st" and bound: "\<And>conv. bound_to w conv \<noteq> {} \<Longrightarrow> conv_free conv (conv_cell w conv)"
    and inv: "pool_inv cfg (pool w)" and p: "pc_claims p = []" "pcs_claims ps = [conv]"
  shows "convs.hands w p (with_pool w st) ps"
proof -
  have st: "st = (pool w)\<lparr>pending_leases := bs_insert conv (pending_leases (pool w))\<rparr>"
    and np: "\<not> bm_contains (pending_leases (pool w)) conv"
    and none: "\<not> list_ex (\<lambda>i. conversation_id i = Some conv \<and> holds_turn_or_lease (state i)) (bm_values (instances (pool w)))"
    using assms(1) by (auto simp: claim_begin_def split: if_splits)
  have nb: "bound_to w conv = {}"
  proof (rule ccontr)
    assume "bound_to w conv \<noteq> {}"
    then obtain s i where i: "bm_get (instances (pool w)) s = Some i" "conversation_id i = Some conv"
      by (auto simp: bound_to_def)
    then have "holds_turn_or_lease (state i)"
      using pool_invD(1) [OF inv i(1)] by (auto simp: slot_ok_def holds_turn_or_lease_def)
    with i none show False by (auto simp: list_ex_iff set_bm_values)
  qed
  have cell: "conv_cell (with_pool w st) c = (c = conv \<or> bm_contains (pending_leases (pool w)) c, bound_to w c)" for c
    by (auto simp: conv_cell_def bound_to_def st)
  have "conv_free conv (conv_cell w conv)" using np nb by (simp add: conv_free_def conv_cell_def)
  then show ?thesis
    using p nb by (auto simp: convs.hands_def convs_met convs_held cell claimed_def conv_cell_def [of w])
qed

lemma conv_hands_cancel:
  assumes met: "convs.met w [p]" and p: "pc_claims p = [conv]" "pcs_claims ps = []"
  shows "convs.hands w p (with_pool w (claim_cancel conv (pool w))) ps"
proof -
  have cell: "conv_cell (with_pool w (claim_cancel conv (pool w))) c =
      (c \<noteq> conv \<and> bm_contains (pending_leases (pool w)) c, bound_to w c)" for c
    by (auto simp: conv_cell_def bound_to_def claim_cancel_def)
  show ?thesis
    using met p by (auto simp: convs.hands_def convs_met convs_held cell claimed_def conv_cell_def [of w] conv_free_def)
qed

lemma conv_hands_bind:
  assumes met: "convs.met w [p]" and p: "pc_claims p = [conv]" "pcs_claims ps = []"
    and i: "bm_get (instances (pool w)) s = Some i" "conversation_id i = None"
  shows "convs.hands w p (with_pool w (claim_bind conv s (pool w))) ps"
proof -
  have "bound_to (with_pool w (claim_bind conv s (pool w))) c = (if c = conv then insert s (bound_to w c) else bound_to w c)" for c
    using i by (auto simp: bound_to_def claim_bind_def bm_modify_def split: if_splits)
  then have cell: "conv_cell (with_pool w (claim_bind conv s (pool w))) c =
      (c \<noteq> conv \<and> bm_contains (pending_leases (pool w)) c, if c = conv then insert s (bound_to w c) else bound_to w c)" for c
    by (auto simp: conv_cell_def claim_bind_def)
  have "bound_to w conv = {}" using met p(1) by (simp add: convs_met claimed_def conv_cell_def)
  then show ?thesis
    using p by (auto simp: convs.hands_def convs_met convs_held cell conv_cell_def [of w] conv_free_def)
qed

end
