(* ===== verification/Serving.thy ===== *)
theory Serving
  imports ConvOwners
begin

text \<open>
  The pool as a whole while it serves: every task's step keeps both ownership contracts, the pool's
  invariant and the classes its tasks will mint, so all of it holds in every reachable state.
\<close>

section \<open>Every step keeps its side\<close>

text \<open>Tasks that act on the pool other than through a slot they hold or take.\<close>

fun bookkeeping :: "pc \<Rightarrow> bool" where
  "bookkeeping (AtClaim conv j) = True"
| "bookkeeping (AtCancelClaim conv e) = True"
| "bookkeeping (AtBind conv j s) = True"
| "bookkeeping AtShutdown = True"
| "bookkeeping _ = False"

lemma holder_advances:
  assumes inv: "pool_inv cfg (pool w)" and met: "slots.met cfg w [p]" and want: "pc_want cfg p = (s, Q) # R"
    and up: "\<not> shutting_down (pool w)" and cap: "0 < recycle_turns cfg" and b: "\<not> bookkeeping p"
  shows "advances cfg s R w (task_step cfg nfc inp p w)"
proof -
  obtain i where i: "bm_get (instances (pool w)) s = Some i" and e: "Q i (running w s) (heard w s)"
    by (rule met_owner [OF met want])
  show ?thesis
  proof (cases p)
    case (AtCommit cl s' result cell)
    then show ?thesis
      using want i e adv_commit_stateless [OF inv i] adv_commit_sticky [OF inv i _ up] by (cases cl) auto
  qed (use want i e b in \<open>auto intro: adv_mint [OF inv i] adv_mint_roots [OF i] adv_mint_mark [OF i]
      adv_launch [OF i] adv_landed [OF i] adv_abandon_mint [OF inv i] adv_publish [OF inv i _ cap]
      adv_handle [OF inv i] adv_turn [OF i] adv_commit_read [OF inv i] adv_quarantine [OF inv i]
      adv_destroy [OF i] adv_close [OF i] adv_erase [OF i] adv_release [OF inv i] adv_leak [OF i]
      adv_clear [OF inv i] adv_clear_wait [OF i] adv_clear_read [OF i] adv_clear_publish [OF inv i]
      adv_recycle [OF inv i] adv_clear_failed [OF inv i] adv_halt [OF i]\<close>)
qed


lemma idler_takes:
  assumes inv: "pool_inv cfg (pool w)" and un: "unheld w" and want: "pc_want cfg p = []"
    and b: "\<not> bookkeeping p" and s: "sane p"
  shows "takes cfg w (task_step cfg nfc inp p w)"
proof -
  note t = take_resume [OF inv un] take_end_conversation [OF inv un] take_reclaim [OF un]
    take_rewarm [OF un] take_boot_next [OF un] take_sweep_idle [OF un inv] take_sweep_leases [OF un]
    take_admit [OF un inv]
  show ?thesis
  proof (cases p)
    case (AtRun req)
    then show ?thesis by (simp add: takes_none step_run_def split: sum.split)
  next
    case (AtRunSticky conv req resume)
    then show ?thesis by (simp add: takes_none step_run_sticky_def split: sum.split)
  next
    case (AtRemint c)
    then show ?thesis
      by (auto simp: step_remint_def remint_if_below_floor_def slot_cell_of_def quiet_def intro!: takes_none)
  next
    case (AtRewarmEnd c)
    then show ?thesis by (auto simp: rewarm_done_def slot_cell_of_def quiet_def intro!: takes_none)
  next
    case AtBoot
    then show ?thesis
      by (auto simp: step_boot_def slot_cell_of_def split: prod.split sum.split option.split intro!: takes_none)
  qed (use want b s t in \<open>simp_all add: takes_none\<close>)
qed

lemma step_quiet:
  assumes "pool_inv cfg (pool w)" "unheld w" "slots.met cfg w [p]" "\<not> shutting_down (pool w)"
    "0 < recycle_turns cfg" "\<not> bookkeeping p" "sane p" and out: "task_step cfg nfc inp p w = (w', ps)"
  shows "slots.hands cfg w p w' ps \<and> quiet (pool w) (pool w') \<and> list_all sane ps"
proof (cases "pc_want cfg p")
  case Nil
  have "takes cfg w (w', ps)" using idler_takes [OF assms(1,2) Nil assms(6,7)] out by metis
  with hands_takes [OF Nil] show ?thesis by (simp add: takes_def)
next
  case (Cons q R)
  obtain s Q where q: "q = (s, Q)" by (cases q)
  have adv: "advances cfg s R w (w', ps)"
    using holder_advances [OF assms(1,3) _ assms(4,5,6)] Cons q out by metis
  have "slots.hands cfg w p w' ps" using hands_advance [OF assms(3) _ adv] Cons q by simp
  moreover have "quiet (pool w) (pool w')" using adv local_quiet by (auto simp: advances_def world_local_def)
  ultimately show ?thesis using adv by (simp add: advances_def)
qed

text \<open>Claims are handed on, whatever the branch.\<close>

lemma claims_next [simp]:
  "pc_claims (admission_failed cl e) = caller_claims cl" "pc_claims (mint_failed cl' e) = client_claims cl'"
  "pc_claims (kept k) = []" "pc_claims (checked_out cl s) = caller_claims cl" "pc_claims (go_on a) = after_claims a"
proof -
  show adm: "pc_claims (admission_failed cl e) = caller_claims cl" for cl e by (cases cl) simp_all
  show mint: "pc_claims (mint_failed cl' e) = client_claims cl'" for cl' e
    by (cases "(cl', e)" rule: mint_failed.cases) (simp_all add: adm)
  show kept: "pc_claims (kept k) = []" for k by (cases k) simp_all
  show "pc_claims (checked_out cl s) = caller_claims cl" by (cases cl) simp_all
  show "pc_claims (go_on a) = after_claims a" by (cases a rule: go_on.cases) (simp_all add: mint kept)
qed

lemma step_claims_misc:
  "pc_claims (step_run cfg nfc inp req) = []" "pc_claims (step_run_sticky cfg nfc inp conv req r) = []"
  "pcs_claims (snd (step_resume cfg conv j w)) = []"
  "pcs_claims (snd (step_admit cfg inp cl w)) = caller_claims cl"
  "pcs_claims (snd (step_reclaim cfg cl s wt w)) = caller_claims cl"
  "pcs_claims (snd (step_mint_roots cfg inp cl' s spec sp w)) = client_claims cl'"
  "pcs_claims (snd (step_mint_mark cl' s spec w)) = client_claims cl'"
  "pcs_claims (snd (step_launch inp cl' s spec w)) = client_claims cl'"
  "pcs_claims (snd (step_landed cfg inp cl' s spec h w)) = client_claims cl'"
  "pcs_claims (snd (step_abandon_mint cfg cl' s v e w)) = client_claims cl'"
  by (auto simp: step_run_def step_run_sticky_def step_resume_def step_admit_def step_reclaim_def
      step_mint_roots_def step_mint_mark_def step_launch_def step_landed_def step_abandon_mint_def Let_def
      split: sum.split prod.split admit_outcome.split admission.split option.split)

lemma step_claims_turn:
  "pcs_claims (snd (step_turn inp cl s h w)) = []"
  "pcs_claims (snd (step_commit_read cl s turn w)) = []"
  "pcs_claims (snd (step_commit cfg inp cl s result cell w)) = []"
  "pcs_claims (snd (step_handle cl s w)) = []"
  "pcs_claims (snd (step_destroy s k w)) = after_claims k"
  "pcs_claims (snd (step_close inp s td k w)) = after_claims k"
  "pcs_claims (snd (step_erase cfg inp s td k w)) = after_claims k"
  by (cases cl; auto simp: step_turn_def step_commit_read_def step_handle_def step_destroy_def step_close_def
      step_erase_def Let_def split: sum.split prod.split option.split bool.split)+

lemma step_claims_upkeep:
  "pcs_claims (snd (step_clear s w)) = []"
  "pcs_claims (snd (step_clear_wait inp s w)) = []"
  "pcs_claims (snd (step_clear_read cfg s w)) = []"
  "pcs_claims (snd (step_clear_publish cfg inp s w)) = []"
  "pcs_claims (snd (step_recycle cfg s w)) = []"
  "pcs_claims (snd (step_remint cfg c w)) = []"
  "pcs_claims (snd (step_rewarm cfg c w)) = []"
  "pcs_claims (snd (step_boot cfg inp w)) = []"
  "pcs_claims (snd (step_boot_next cfg left w)) = []"
  "pcs_claims (snd (step_sweep_idle cfg now w)) = []"
  "pcs_claims (snd (step_sweep_leases cfg now w)) = []"
  "pcs_claims (snd (step_end_conversation cfg conv w)) = []"
proof -
  have "pcs_claims (map AtClear vs) = []" for vs by (induction vs) simp_all
  then show "pcs_claims (snd (step_sweep_leases cfg now w)) = []"
    by (simp add: step_sweep_leases_def split: prod.split)
  show "pcs_claims (snd (step_boot_next cfg left w)) = []"
    by (cases "(cfg, left, w)" rule: step_boot_next.cases) (auto split: prod.split option.split)
qed (auto simp: step_clear_def step_clear_wait_def step_clear_read_def step_clear_publish_def step_recycle_def
    step_remint_def step_rewarm_def step_boot_def step_sweep_idle_def step_end_conversation_def
    split: sum.split prod.split option.split bool.split)


lemma step_claims_mint:
  "list_all sane (snd (step_mint cfg cl s w)) \<Longrightarrow> pcs_claims (snd (step_mint cfg cl s w)) = client_claims cl"
  "pcs_claims (snd (step_publish cfg inp cl s w)) = client_claims cl"
  by (auto simp: step_mint_def split: option.splits sum.splits)
    (cases cl; simp split: prod.split option.split sum.split bool.split)

lemma step_claims:
  assumes "\<not> bookkeeping p" "sane p" "list_all sane (snd (task_step cfg nfc inp p w))"
  shows "pcs_claims (snd (task_step cfg nfc inp p w)) = pc_claims p"
  using assms by (cases p)
    (simp_all add: step_claims_misc step_claims_turn step_claims_upkeep step_claims_mint)

section \<open>Every step keeps the pool's invariant\<close>

text \<open>Every class a task will mint belongs to an account the daemon serves.\<close>

definition class_ok :: "pool_config \<Rightarrow> instance_class \<Rightarrow> bool" where
  "class_ok cfg c = has_account cfg (account c)"

definition caller_ok :: "pool_config \<Rightarrow> caller \<Rightarrow> bool" where
  "caller_ok cfg cl = class_ok cfg (j_class (caller_job cl))"

fun keeper_ok :: "pool_config \<Rightarrow> keeper \<Rightarrow> bool" where
  "keeper_ok cfg (Rewarming c) = class_ok cfg c"
| "keeper_ok cfg (Booting left) = list_all (\<lambda>(c, n). class_ok cfg c) left"

fun client_ok :: "pool_config \<Rightarrow> client \<Rightarrow> bool" where
  "client_ok cfg (Caller cl) = caller_ok cfg cl"
| "client_ok cfg (Keeper k) = keeper_ok cfg k"

fun after_ok :: "pool_config \<Rightarrow> after \<Rightarrow> bool" where
  "after_ok cfg (ThenFailed cl e) = client_ok cfg cl"
| "after_ok cfg (ThenPublished k) = keeper_ok cfg k"
| "after_ok cfg (ThenReclaim cl s waited) = (caller_ok cfg cl \<and> s < pool_size cfg)"
| "after_ok cfg (ThenRemint c) = class_ok cfg c"
| "after_ok cfg _ = True"

fun pc_ok :: "pool_config \<Rightarrow> pc \<Rightarrow> bool" where
  "pc_ok cfg (AtClaim conv j) = class_ok cfg (j_class j)"
| "pc_ok cfg (AtAdmit cl) = caller_ok cfg cl"
| "pc_ok cfg (AtReclaim cl s waited) = (caller_ok cfg cl \<and> s < pool_size cfg)"
| "pc_ok cfg (AtMint cl s) = client_ok cfg cl"
| "pc_ok cfg (AtMintRoots cl s spec sp) = client_ok cfg cl"
| "pc_ok cfg (AtMintMark cl s spec) = client_ok cfg cl"
| "pc_ok cfg (AtLaunch cl s spec) = client_ok cfg cl"
| "pc_ok cfg (AtLanded cl s spec h) = client_ok cfg cl"
| "pc_ok cfg (AtAbandonMint cl s survives e) = client_ok cfg cl"
| "pc_ok cfg (AtPublish cl s) = client_ok cfg cl"
| "pc_ok cfg (AtQuarantine s k) = after_ok cfg k"
| "pc_ok cfg (AtDestroy s k) = after_ok cfg k"
| "pc_ok cfg (AtClose s td k) = after_ok cfg k"
| "pc_ok cfg (AtErase s td k) = after_ok cfg k"
| "pc_ok cfg (AtRelease s k) = after_ok cfg k"
| "pc_ok cfg (AtLeak s k) = after_ok cfg k"
| "pc_ok cfg (AtRemint c) = class_ok cfg c"
| "pc_ok cfg (AtRewarm c) = class_ok cfg c"
| "pc_ok cfg (AtBootNext left) = list_all (\<lambda>(c, n). class_ok cfg c) left"
| "pc_ok cfg (AtUnpublish s ts k) = False"
| "pc_ok cfg (AtOrphan cl) = False"
| "pc_ok cfg Panicked = False"
| "pc_ok cfg AtShutdown = False"
| "pc_ok cfg _ = True"

definition cfg_served :: "pool_config \<Rightarrow> bool" where
  "cfg_served cfg \<longleftrightarrow> 0 < recycle_turns cfg \<and> pool_size cfg \<le> u32_max
     \<and> (\<forall>wc \<in> set (warm_set cfg). class_ok cfg (wc_class wc))"

lemma pc_ok_sane: "pc_ok cfg p \<Longrightarrow> sane p"
  by (cases p) simp_all

lemma ok_next [simp]:
  "pc_ok cfg (admission_failed cl e)" "pc_ok cfg (mint_failed cl' e)" "keeper_ok cfg k \<Longrightarrow> pc_ok cfg (kept k)"
  "pc_ok cfg (checked_out cl s)" "after_ok cfg a \<Longrightarrow> pc_ok cfg (go_on a)"
proof -
  show adm: "pc_ok cfg (admission_failed cl e)" for cl e by (cases cl) simp_all
  show mint: "pc_ok cfg (mint_failed cl' e)" for cl' e
    by (cases "(cl', e)" rule: mint_failed.cases) (simp_all add: adm)
  show kept: "keeper_ok cfg k \<Longrightarrow> pc_ok cfg (kept k)" for k by (cases k) simp_all
  show "pc_ok cfg (checked_out cl s)" by (cases cl) simp_all
  show "after_ok cfg a \<Longrightarrow> pc_ok cfg (go_on a)" by (cases a rule: go_on.cases) (simp_all add: mint kept)
qed

lemma account_from_request_served: "account_from_request req cfg = Inr a \<Longrightarrow> has_account cfg a"
  by (auto simp: account_from_request_def bind_r_Inr Let_def split: if_splits)

lemma prepare_class: "prepare cfg nfc now req = Inr j \<Longrightarrow> class_ok cfg (j_class j)"
  by (auto simp: prepare_def bind_r_Inr class_ok_def with_account_def account_from_request_served)

lemma step_ok_request:
  "pc_ok cfg (step_run cfg nfc inp req)" "pc_ok cfg (step_run_sticky cfg nfc inp conv req r)"
  by (auto simp: step_run_def step_run_sticky_def caller_ok_def split: sum.split dest: prepare_class)

lemma step_ok_admit:
  assumes inv: "pool_inv cfg (pool w)" and ok: "caller_ok cfg cl"
  shows "list_all (pc_ok cfg) (snd (step_admit cfg inp cl w))"
proof -
  obtain out st where ap: "admit_pass cfg (j_class (caller_job cl)) (j_deadline (caller_job cl))
      (in_elapsed inp) (in_now inp) (pool w) = (out, st)"
    by (cases "admit_pass cfg (j_class (caller_job cl)) (j_deadline (caller_job cl))
      (in_elapsed inp) (in_now inp) (pool w)")
  from ap show ?thesis
  proof (cases rule: admit_pass_cases)
    case (grant a m)
    from inv grant(2) show ?thesis
    proof (cases rule: admit_once_Inr)
      case (ColdSwap s i)
      then have "s < pool_size cfg" using pool_invD(1) [OF inv ColdSwap(2)] by (simp add: slot_ok_def)
      with ColdSwap grant(1) ok show ?thesis by (simp add: step_admit_def ap Let_def)
    qed (use grant(1) ok in \<open>auto simp: step_admit_def ap Let_def caller_ok_def\<close>)
  qed (use ok in \<open>simp_all add: step_admit_def ap Let_def\<close>)
qed

lemma step_ok_recycle:
  assumes inv: "pool_inv cfg (pool w)"
  shows "list_all (pc_ok cfg) (snd (step_recycle cfg s w))"
  using pool_invD(1) [OF inv, of s]
  by (auto simp: step_recycle_def recycle_locked_def class_ok_def slot_ok_def split: option.split)

lemma step_ok:
  assumes inv: "pool_inv cfg (pool w)" and cfg: "cfg_served cfg" and ok: "pc_ok cfg p"
    and sane: "list_all sane (snd (task_step cfg nfc inp p w))"
  shows "list_all (pc_ok cfg) (snd (task_step cfg nfc inp p w))"
proof (cases p)
  case (AtMint cl s)
  with ok sane show ?thesis by (auto simp: step_mint_def split: option.splits sum.splits)
next
  case (AtPublish cl s)
  with ok sane show ?thesis by (cases cl) (auto split: prod.splits option.splits sum.splits bool.splits)
next
  case (AtBootNext left)
  with ok show ?thesis
    by (cases "(cfg, left, w)" rule: step_boot_next.cases) (auto split: prod.split option.split)
next
  case (AtCommit cl s result cell)
  with ok show ?thesis by (cases cl) (auto split: prod.split sum.split bool.split)
next
  case (AtSweepLeases now)
  have "list_all (pc_ok cfg) (map AtClear vs)" for vs by (induction vs) simp_all
  with AtSweepLeases show ?thesis by (simp add: step_sweep_leases_def split: prod.split)
next
  case AtBoot
  with cfg show ?thesis
    by (auto simp: step_boot_def cfg_served_def list_all_iff split: prod.split sum.split option.split)
qed (use ok sane step_ok_request step_ok_admit [OF inv] step_ok_recycle [OF inv] in \<open>auto simp:
    step_claim_def step_resume_def step_reclaim_def step_mint_roots_def step_mint_mark_def step_launch_def
    step_landed_def step_abandon_mint_def step_handle_def step_turn_def step_commit_read_def step_destroy_def
    step_close_def step_erase_def step_clear_def step_clear_wait_def step_clear_read_def step_clear_publish_def
    step_remint_def step_rewarm_def step_sweep_idle_def step_shutdown_def step_end_conversation_def Let_def
    caller_ok_def
    split: prod.splits sum.splits option.splits bool.splits caller.splits\<close>)

lemma publish_inv:
  assumes "pool_inv cfg st" "is_proof_carrying t"
  shows "pool_inv cfg (snd (publish_idle_locked cfg now s t st))"
  using publish_keeps_inv [OF assms, of now s] by (metis prod.collapse)

lemma step_inv_admission:
  assumes inv: "pool_inv cfg (pool w)"
  shows "pool_inv cfg (pool (fst (step_claim conv j w)))"
    and "pool_inv cfg (pool (fst (step_resume cfg conv j w)))"
    and "caller_ok cfg cl \<Longrightarrow> pool_inv cfg (pool (fst (step_admit cfg inp cl w)))"
    and "caller_ok cfg cl \<Longrightarrow> s < pool_size cfg \<Longrightarrow> pool_inv cfg (pool (fst (step_reclaim cfg cl s wt w)))"
    and "class_ok cfg c \<Longrightarrow> pool_inv cfg (pool (fst (step_rewarm cfg c w)))"
    and "list_all (\<lambda>(c, n). class_ok cfg c) left \<Longrightarrow> pool_inv cfg (pool (fst (step_boot_next cfg left w)))"
proof -
  show "pool_inv cfg (pool (fst (step_claim conv j w)))"
    using claim_begin_keeps_inv [OF inv] inv by (auto simp: step_claim_def split: sum.split)
  show "pool_inv cfg (pool (fst (step_resume cfg conv j w)))"
    using resume_lease_keeps_inv [OF inv] inv by (auto simp: step_resume_def split: sum.split)
  show "caller_ok cfg cl \<Longrightarrow> pool_inv cfg (pool (fst (step_admit cfg inp cl w)))"
    using admit_pass_keeps_inv [OF inv, of "j_class (caller_job cl)" "j_deadline (caller_job cl)"
        "in_elapsed inp" "in_now inp"]
    by (auto simp: step_admit_def Let_def caller_ok_def class_ok_def split: prod.splits admit_outcome.split sum.split)
  show "caller_ok cfg cl \<Longrightarrow> s < pool_size cfg \<Longrightarrow> pool_inv cfg (pool (fst (step_reclaim cfg cl s wt w)))"
    using reclaim_keeps_inv [OF inv, of "j_class (caller_job cl)" s wt] inv
    by (auto simp: step_reclaim_def caller_ok_def class_ok_def split: sum.split)
  show "class_ok cfg c \<Longrightarrow> pool_inv cfg (pool (fst (step_rewarm cfg c w)))"
    using rewarm_reserve_keeps_inv [OF inv, of c]
    by (auto simp: step_rewarm_def class_ok_def split: prod.splits option.split)
  show "list_all (\<lambda>(c, n). class_ok cfg c) left \<Longrightarrow> pool_inv cfg (pool (fst (step_boot_next cfg left w)))"
    using warm_reserve_keeps_inv [OF inv] inv
    by (cases "(cfg, left, w)" rule: step_boot_next.cases)
      (auto simp: class_ok_def split: prod.splits option.split, (metis snd_conv)+)
qed

lemma step_inv_mint:
  assumes inv: "pool_inv cfg (pool w)"
  shows "pool_inv cfg (pool (fst (step_mint cfg cl s w)))"
    and "pool_inv cfg (pool (fst (step_mint_roots cfg inp cl s spec sp w)))"
    and "pool_inv cfg (pool (fst (step_mint_mark cl s spec w)))"
    and "pool_inv cfg (pool (fst (step_launch inp cl s spec w)))"
    and "(\<And>i. bm_get (instances (pool w)) s = Some i \<Longrightarrow> state i \<noteq> Reserved) \<Longrightarrow>
      pool_inv cfg (pool (fst (step_landed cfg inp cl s spec h w)))"
    and "pool_inv cfg (pool (fst (step_abandon_mint cfg cl s v e w)))"
    and "pool_inv cfg (pool (fst (step_publish cfg inp cl s w)))"
proof -
  show "pool_inv cfg (pool (fst (step_mint cfg cl s w)))"
    using mint_begin_keeps_inv [OF inv, of s] try_transition_keeps_inv [OF inv, of BeginWarm s] inv
    by (auto simp: step_mint_def split: option.split sum.split)
  show "pool_inv cfg (pool (fst (step_mint_mark cl s spec w)))"
    using mint_mark_keeps_inv [OF inv, of s] inv by (auto simp: step_mint_mark_def split: sum.split)
  show "pool_inv cfg (pool (fst (step_landed cfg inp cl s spec h w)))"
    if "\<And>i. bm_get (instances (pool w)) s = Some i \<Longrightarrow> state i \<noteq> Reserved"
    using mint_done_keeps_inv [OF inv, of s h] that inv by (auto simp: step_landed_def Let_def split: option.split)
  show "pool_inv cfg (pool (fst (step_abandon_mint cfg cl s v e w)))"
    by (simp add: step_abandon_mint_def abandon_mint_keeps_inv [OF inv])
  show "pool_inv cfg (pool (fst (step_publish cfg inp cl s w)))"
    using publish_inv [OF inv, of WarmProven "in_now inp" s] publish_and_check_out_keeps_inv [OF inv, of "in_now inp" s]
    by (cases cl) (auto split: prod.splits option.split sum.split bool.split)
qed (use inv in \<open>auto simp: step_mint_roots_def step_launch_def split: prod.split sum.split\<close>)

lemma step_inv_turn:
  assumes inv: "pool_inv cfg (pool w)"
  shows "pool_inv cfg (pool (fst (step_handle cl s w)))"
    and "pool_inv cfg (pool (fst (step_turn inp cl s h w)))"
    and "pool_inv cfg (pool (fst (step_commit_read cl s turn w)))"
    and "pool_inv cfg (pool (fst (step_commit cfg inp cl s result cell w)))"
    and "pool_inv cfg (pool (fst (step_destroy s k w)))"
    and "pool_inv cfg (pool (fst (step_close inp s td k w)))"
    and "pool_inv cfg (pool (fst (step_erase cfg inp s td k w)))"
proof -
  show "pool_inv cfg (pool (fst (step_commit cfg inp cl s result cell w)))"
    using commit_keeps_inv [OF inv, of s] commit_sticky_keeps_inv [OF inv, of "in_now inp" s]
    by (cases cl) (auto split: prod.splits sum.split bool.split, (metis snd_conv)+)
qed (use inv in \<open>auto simp: step_handle_def step_turn_def step_commit_read_def step_destroy_def step_close_def
    step_erase_def Let_def split: prod.split sum.split option.split caller.split\<close>)

lemma step_inv_upkeep:
  assumes inv: "pool_inv cfg (pool w)"
  shows "pool_inv cfg (pool (fst (step_clear s w)))"
    and "pool_inv cfg (pool (fst (step_clear_wait inp s w)))"
    and "pool_inv cfg (pool (fst (step_clear_read cfg s w)))"
    and "pool_inv cfg (pool (fst (step_clear_publish cfg inp s w)))"
    and "pool_inv cfg (pool (fst (step_recycle cfg s w)))"
    and "pool_inv cfg (pool (fst (step_remint cfg c w)))"
    and "pool_inv cfg (pool (fst (step_boot cfg inp w)))"
    and "pool_inv cfg (pool (fst (step_sweep_idle cfg now w)))"
    and "pool_inv cfg (pool (fst (step_sweep_leases cfg now w)))"
    and "pool_inv cfg (pool (fst (step_shutdown cfg w)))"
    and "pool_inv cfg (pool (fst (step_end_conversation cfg conv w)))"
proof -
  show "pool_inv cfg (pool (fst (step_clear_publish cfg inp s w)))"
    using publish_inv [OF inv, of ClearProven "in_now inp" s]
    by (auto simp: step_clear_publish_def split: prod.splits bool.split)
  show "pool_inv cfg (pool (fst (step_recycle cfg s w)))"
    using recycle_keeps_inv [OF inv, of s] by (auto simp: step_recycle_def split: prod.splits)
  show "pool_inv cfg (pool (fst (step_remint cfg c w)))"
    using remint_keeps_inv [OF inv, of c] by (auto simp: step_remint_def split: prod.splits)
  show "pool_inv cfg (pool (fst (step_sweep_idle cfg now w)))"
    using sweep_idle_keeps_inv [OF inv, of now] by (auto simp: step_sweep_idle_def split: prod.splits)
  show "pool_inv cfg (pool (fst (step_sweep_leases cfg now w)))"
    using sweep_leases_keeps_inv [OF inv, of now] by (auto simp: step_sweep_leases_def split: prod.splits)
  show "pool_inv cfg (pool (fst (step_shutdown cfg w)))"
    using shutdown_keeps_inv [OF inv] by (auto simp: step_shutdown_def split: prod.splits)
  show "pool_inv cfg (pool (fst (step_end_conversation cfg conv w)))"
    using release_conversation_keeps_inv [OF inv, of conv]
    by (auto simp: step_end_conversation_def split: prod.splits sum.split option.split)
qed (use inv in \<open>auto simp: step_clear_def step_clear_wait_def step_clear_read_def step_boot_def
    split: prod.split sum.split option.split\<close>)

lemma step_inv:
  assumes inv: "pool_inv cfg (pool w)" and met: "slots.met cfg w [p]" and ok: "pc_ok cfg p"
  shows "pool_inv cfg (pool (fst (task_step cfg nfc inp p w)))"
proof (cases p)
  case (AtBind conv j s)
  obtain i where "bm_get (instances (pool w)) s = Some i" "e_fresh (j_class j) None i (running w s) (heard w s)"
    by (rule met_owner [OF met, of s "e_fresh (j_class j) None" "[]"]) (simp add: AtBind)
  with claim_bind_keeps_inv [OF inv, of s conv] AtBind show ?thesis by (simp add: expectations)
next
  case (AtLanded cl s spec h)
  obtain i where "bm_get (instances (pool w)) s = Some i" "e_launching cl i (running w s) (heard w s)"
    by (rule met_owner [OF met, of s "e_launching cl" "[]"]) (simp add: AtLanded)
  with step_inv_mint(5) [OF inv, of s] AtLanded show ?thesis by (simp add: expectations)
next
  case (AtLeak s k)
  obtain i where "bm_get (instances (pool w)) s = Some i" "e_leaking i (running w s) (heard w s)"
    by (rule met_owner [OF met, of s e_leaking "after_want k"]) (simp add: AtLeak)
  with leak_keeps_inv [OF inv, of s] AtLeak show ?thesis by (simp add: expectations)
qed (use inv ok in \<open>simp_all add: step_inv_admission step_inv_mint step_inv_turn step_inv_upkeep
    claim_cancel_keeps_inv quarantine_keeps_inv release_keeps_inv halt_keeps_inv clear_failed_keeps_inv
    rewarm_done_keeps_inv\<close>)

section \<open>The serving pool\<close>

type_synonym system = "world \<times> pc list"

text \<open>The calls that start a task, other than \<open>shutdown\<close>.\<close>

fun entry :: "pc \<Rightarrow> bool" where
  "entry (AtRun req) = True"
| "entry (AtRunSticky conv req resume) = True"
| "entry (AtEndConversation conv) = True"
| "entry AtSweep = True"
| "entry AtBoot = True"
| "entry _ = False"

text \<open>
  A step of the pool while nobody has asked it to shut down: one task acts, a call arrives, one of
  the one-lock calls runs, or anything at all happens on disk.
\<close>

inductive pool_step :: "pool_config \<Rightarrow> (utext \<Rightarrow> utext) \<Rightarrow> system \<Rightarrow> system \<Rightarrow> bool"
  for cfg :: pool_config and nfc :: "utext \<Rightarrow> utext" where
  act: "task_step cfg nfc inp p w = (w', ps) \<Longrightarrow> pool_step cfg nfc (w, us @ [p] @ vs) (w', us @ ps @ vs)"
| arrive: "entry p \<Longrightarrow> pool_step cfg nfc (w, ts) (w, ts @ [p])"
| touch: "pool_step cfg nfc (w, ts) (with_pool w (snd (touch_conversation now conv (pool w))), ts)"
| protect: "pool_step cfg nfc (w, ts) (with_pool w (protect_conversation conv (pool w)), ts)"
| unprotect: "pool_step cfg nfc (w, ts) (with_pool w (unprotect_conversation conv (pool w)), ts)"
| outside: "pool_step cfg nfc (w, ts) (w\<lparr>disk := d\<rparr>, ts)"

inductive_cases pool_stepE: "pool_step cfg nfc S S'"

definition pool_start :: "system \<Rightarrow> bool" where
  "pool_start S \<longleftrightarrow> (\<exists>d h. S = (\<lparr>pool = pool_new, disk = d, running = (\<lambda>_. False), heard = h\<rparr>, []))"

definition serving :: "pool_config \<Rightarrow> system \<Rightarrow> bool" where
  "serving cfg S \<longleftrightarrow> (case S of (w, ts) \<Rightarrow>
     cfg_served cfg \<longrightarrow> pool_inv cfg (pool w) \<and> \<not> shutting_down (pool w) \<and> slots.owned cfg w ts
       \<and> convs.owned w ts \<and> list_all (pc_ok cfg) ts)"

lemma owned_met:
  "slots.owned cfg w (us @ [p] @ vs) \<Longrightarrow> slots.met cfg w [p]"
  "convs.owned w (us @ [p] @ vs) \<Longrightarrow> convs.met w [p]"
  unfolding slots.owned_def convs.owned_def slots.met_append convs.met_append by blast+

lemma bind_hands:
  assumes met: "slots.met cfg w [AtBind conv j s]"
  shows "slots.hands cfg w (AtBind conv j s) (with_pool w (claim_bind conv s (pool w))) [AtHandle (Sticky conv j) s]"
proof -
  obtain i where i: "bm_get (instances (pool w)) s = Some i" "e_fresh (j_class j) None i (running w s) (heard w s)"
    by (rule met_owner [OF met, of s "e_fresh (j_class j) None" "[]"]) simp
  from adv_bind_conv [OF this, of conv] obtain j' where
    "bm_get (instances (claim_bind conv s (pool w))) s = Some j'" "e_fresh (j_class j) (Some conv) j' (running w s) (heard w s)"
    by blast
  then show ?thesis
    by (intro hands_own [OF met, of s "e_fresh (j_class j) None" "[]" _ "e_fresh (j_class j) (Some conv)"])
      (simp_all add: on_slot_def slot_cell_of_def claim_bind_def bm_modify_def i(1))
qed

lemma claims_hands:
  "slots.hands cfg w (AtClaim conv j) (fst (step_claim conv j w)) (snd (step_claim conv j w))"
  "slots.hands cfg w (AtCancelClaim conv e) (with_pool w (claim_cancel conv (pool w))) [Done r]"
proof -
  show "slots.hands cfg w (AtClaim conv j) (fst (step_claim conv j w)) (snd (step_claim conv j w))"
    by (rule hands_take [where vs = "[]"])
      (auto simp: step_claim_def claim_begin_def slot_cell_of_def split: sum.split)
  show "slots.hands cfg w (AtCancelClaim conv e) (with_pool w (claim_cancel conv (pool w))) [Done r]"
    by (rule hands_take [where vs = "[]"]) (auto simp: claim_cancel_def slot_cell_of_def)
qed

text \<open>One task's step, with both of its contracts.\<close>

lemma step_contract:
  assumes inv: "pool_inv cfg (pool w)" and up: "\<not> shutting_down (pool w)" and so: "slots.owned cfg w ts"
    and co: "convs.owned w ts" and ts: "ts = us @ [p] @ vs" and ok: "pc_ok cfg p" and cfg: "cfg_served cfg"
    and out: "task_step cfg nfc inp p w = (w', ps)"
  shows "slots.hands cfg w p w' ps \<and> convs.hands w p w' ps \<and> \<not> shutting_down (pool w') \<and> list_all sane ps"
proof -
  have met: "slots.met cfg w [p]" "convs.met w [p]" using so co owned_met unfolding ts by blast+
  note bound = owned_bound [OF co]
  show ?thesis
  proof (cases "bookkeeping p")
    case False
    have "slots.hands cfg w p w' ps \<and> quiet (pool w) (pool w') \<and> list_all sane ps"
      using step_quiet [OF inv owned_unheld [OF so] met(1) up _ False pc_ok_sane [OF ok] out] cfg
      by (simp add: cfg_served_def)
    moreover from this have "pcs_claims ps = pc_claims p"
      using step_claims [OF False pc_ok_sane [OF ok], of cfg nfc inp w] out by simp
    ultimately show ?thesis
      using conv_hands_quiet [OF met(2) _ _ bound] up by (auto simp: quiet_def)
  next
    case True
    then consider (claim) conv j where "p = AtClaim conv j" | (cancel) conv e where "p = AtCancelClaim conv e"
      | (bind) conv j s where "p = AtBind conv j s" | (down) "p = AtShutdown"
      by (cases p) simp_all
    then show ?thesis
    proof cases
      case claim
      have "convs.hands w p w' ps"
      proof (cases "claim_begin conv (pool w)")
        case (Inl e)
        with out claim show ?thesis
          by (auto simp: step_claim_def convs.hands_def convs_met convs_held)
      next
        case (Inr st)
        with conv_hands_claim [OF Inr bound inv] out claim show ?thesis by (auto simp: step_claim_def)
      qed
      moreover have "\<not> shutting_down (pool w')" "list_all sane ps"
        using out claim up by (auto simp: step_claim_def claim_begin_def split: sum.splits if_splits)
      ultimately show ?thesis using claims_hands(1) [of cfg w conv j] out claim by simp
    next
      case cancel
      then show ?thesis
        using out up claims_hands(2) [of cfg w conv e] conv_hands_cancel [OF met(2), of conv ps]
        by (auto simp: claim_cancel_def)
    next
      case bind
      obtain i where i: "bm_get (instances (pool w)) s = Some i" "e_fresh (j_class j) None i (running w s) (heard w s)"
        by (rule met_owner [OF met(1), of s "e_fresh (j_class j) None" "[]"]) (simp add: bind)
      then show ?thesis
        using out up bind bind_hands [of cfg w conv j s] met conv_hands_bind [OF met(2), of conv ps s i]
        by (auto simp: claim_bind_def expectations)
    next
      case down
      with ok show ?thesis by simp
    qed
  qed
qed


lemma others_serve:
  assumes "serving cfg (w, ts)" "cfg_served cfg"
    and q: "quiet (pool w) (pool w')" and inv: "pool_inv cfg (pool w')"
    and free: "\<And>s. slot_cell_of w' s = slot_cell_of w s
      \<or> slot_free s (slot_cell_of w s) \<and> slot_free s (slot_cell_of w' s)"
    and conv: "\<And>c. conv_cell w' c = conv_cell w c"
  shows "serving cfg (w', ts)"
proof -
  have so: "slots.owned cfg w ts" and co: "convs.owned w ts" and up: "\<not> shutting_down (pool w)"
    and ok: "list_all (pc_ok cfg) ts"
    using assms(1,2) by (simp_all add: serving_def)
  have m: "slots.met cfg w ts" using so by (simp add: slots.owned_def)
  have cell: "slot_cell_of w' s = slot_cell_of w s" if "s \<in> slots.held cfg ts" for s
    using free [of s] slots.met_not_free [OF m that] by blast
  then have "slots.met cfg w' ts" using slots.met_cong [OF m] by blast
  moreover have "slot_free s (slot_cell_of w' s)" if "s \<notin> slots.held cfg ts" for s
    using free [of s] so that by (auto simp: slots.owned_def)
  ultimately have "slots.owned cfg w' ts" by (simp add: slots.owned_def)
  moreover have "convs.owned w' ts"
    using co conv convs.met_cong [of w ts w'] by (simp add: convs.owned_def)
  ultimately show ?thesis
    using inv ok up q by (simp add: serving_def quiet_def)
qed

lemma touch_serves:
  assumes s: "serving cfg (w, ts)" and cfg: "cfg_served cfg"
  shows "serving cfg (with_pool w (snd (touch_conversation now conv (pool w))), ts)"
proof -
  let ?st = "snd (touch_conversation now conv (pool w))"
  have inv: "pool_inv cfg (pool w)" and so: "slots.owned cfg w ts"
    using s cfg by (simp_all add: serving_def)
  have "?st = pool w \<or> (\<exists>s i. bm_get (instances (pool w)) s = Some i \<and> state i = Leased
      \<and> ?st = (pool w)\<lparr>instances := bm_insert s (i\<lparr>idle_since_ms := now\<rparr>) (instances (pool w))\<rparr>)"
    by (auto simp: touch_conversation_def split: option.split prod.split dest!: find_entries_Some)
  then consider (same) "?st = pool w" | (moved) s i where "bm_get (instances (pool w)) s = Some i" "state i = Leased"
      "?st = (pool w)\<lparr>instances := bm_insert s (i\<lparr>idle_since_ms := now\<rparr>) (instances (pool w))\<rparr>"
    by blast
  then show ?thesis
  proof cases
    case same
    with s show ?thesis by (simp add: with_pool_def)
  next
    case (moved s i)
    have fr: "slot_free s (slot_cell_of w s)"
      using unheldD(2) [OF owned_unheld [OF so] moved(1)] moved(2) by simp
    show ?thesis
    proof (rule others_serve [OF assms])
      show "pool_inv cfg (pool (with_pool w ?st))" using touch_keeps_inv [OF inv] by simp
      show "quiet (pool w) (pool (with_pool w ?st))" using moved by (auto simp: quiet_def)
      show "conv_cell (with_pool w ?st) c = conv_cell w c" for c
        using moved by (auto simp: conv_cell_def bound_to_def)
      show "slot_cell_of (with_pool w ?st) s' = slot_cell_of w s'
        \<or> slot_free s' (slot_cell_of w s') \<and> slot_free s' (slot_cell_of (with_pool w ?st) s')" for s'
        using moved fr by (cases "s' = s") (auto simp: slot_cell_of_def slot_free_def)
    qed
  qed
qed

lemma step_serves:
  assumes s: "serving cfg S" and st: "pool_step cfg nfc S S'"
  shows "serving cfg S'"
proof (cases "cfg_served cfg")
  case False
  then show ?thesis by (simp add: serving_def split: prod.split)
next
  case cfg: True
  from st show ?thesis
  proof cases
    case (act inp p w w' ps us vs)
    have g: "pool_inv cfg (pool w)" "\<not> shutting_down (pool w)" "slots.owned cfg w (us @ [p] @ vs)"
      "convs.owned w (us @ [p] @ vs)" "list_all (pc_ok cfg) (us @ [p] @ vs)"
      using s cfg act(1) by (simp_all add: serving_def)
    have ok: "pc_ok cfg p" using g(5) by simp
    note c = step_contract [OF g(1-4) refl ok cfg act(3)]
    have "pool_inv cfg (pool w')"
      using step_inv [OF g(1) owned_met(1) [OF g(3)] ok, of nfc inp] act(3) by simp
    moreover have "list_all (pc_ok cfg) ps"
      using step_ok [OF g(1) cfg ok, of nfc inp] act(3) c by simp
    moreover have "slots.owned cfg w' (us @ ps @ vs)" using slots.owned_step [OF g(3)] c by blast
    moreover have "convs.owned w' (us @ ps @ vs)" using convs.owned_step [OF g(4)] c by blast
    ultimately show ?thesis using c g(5) act(2) by (simp add: serving_def)
  next
    case (arrive p w ts)
    have "pc_want cfg p = []" "pc_claims p = []" "pc_ok cfg p" using arrive(3) by (cases p; simp)+
    moreover have "slots.owned cfg w (ts @ [p]) = slots.owned cfg w ts"
      using \<open>pc_want cfg p = []\<close>
      by (simp add: slots.owned_def slots.met_append slots.held_append) (simp add: slots_met slots_held)
    moreover have "convs.owned w (ts @ [p]) = convs.owned w ts"
      using \<open>pc_claims p = []\<close>
      by (simp add: convs.owned_def convs.met_append convs.held_append) (simp add: convs_met convs_held)
    ultimately show ?thesis using s arrive(1,2) by (simp add: serving_def)
  next
    case (touch w ts now conv)
    then show ?thesis using touch_serves s cfg by simp
  next
    case (protect w ts conv)
    show ?thesis
      unfolding protect(2)
    proof (rule others_serve [OF s [unfolded protect(1)] cfg])
      show "pool_inv cfg (pool (with_pool w (protect_conversation conv (pool w))))"
        using s cfg protect(1) protect_keeps_inv by (simp add: serving_def)
    qed (simp_all add: protect_conversation_def quiet_def slot_cell_of_def conv_cell_def bound_to_def)
  next
    case (unprotect w ts conv)
    show ?thesis
      unfolding unprotect(2)
    proof (rule others_serve [OF s [unfolded unprotect(1)] cfg])
      show "pool_inv cfg (pool (with_pool w (unprotect_conversation conv (pool w))))"
        using s cfg unprotect(1) protect_keeps_inv by (simp add: serving_def)
    qed (simp_all add: unprotect_conversation_def quiet_def slot_cell_of_def conv_cell_def bound_to_def)
  next
    case (outside w ts d)
    show ?thesis
      unfolding outside(2)
      by (rule others_serve [OF s [unfolded outside(1)] cfg])
        (use s cfg outside(1) in \<open>simp_all add: serving_def slot_cell_of_def conv_cell_def bound_to_def\<close>)
  qed
qed

lemma start_serves: "pool_start S \<Longrightarrow> serving cfg S"
  by (auto simp: pool_start_def serving_def slots.owned_def slots_met slots_held convs.owned_def convs_met
      convs_held slot_free_def slot_cell_of_def conv_free_def conv_cell_def bound_to_def pool_new_def
      pool_inv_new [unfolded pool_new_def])

interpretation pool_sys: transition_system pool_start "pool_step cfg nfc" "serving cfg" for cfg nfc
  by unfold_locales (auto intro: start_serves step_serves)

end
