(* ===== verification/Isolation.thy ===== *)
theory Isolation
  imports Serving
begin

text \<open>
  What a serving pool guarantees its callers and its operator, and what shutdown does: the theorems
  that span all of \<open>src/crates/service/src/pool/mod.rs\<close>, with concrete runs of the model.
\<close>

section \<open>What holds in every state of a serving pool\<close>

definition reachable :: "pool_config \<Rightarrow> (utext \<Rightarrow> utext) \<Rightarrow> system \<Rightarrow> bool" where
  "reachable cfg nfc S \<longleftrightarrow> (\<exists>S0. pool_start S0 \<and> (pool_step cfg nfc)\<^sup>*\<^sup>* S0 S)"

lemma reachable_serving:
  assumes "reachable cfg nfc (w, ts)" "cfg_served cfg"
  shows "pool_inv cfg (pool w)" "\<not> shutting_down (pool w)" "slots.owned cfg w ts" "convs.owned w ts"
    "list_all (pc_ok cfg) ts"
  using assms pool_sys.inv_reachable [of _ cfg nfc "(w, ts)"]
  by (auto simp: reachable_def serving_def)

lemma reachable_owner:
  assumes r: "reachable cfg nfc (w, ts)" "cfg_served cfg" and t: "t \<in> set ts" "(s, Q) \<in> set (pc_want cfg t)"
  obtains i where "bm_get (instances (pool w)) s = Some i" "Q i (running w s) (heard w s)"
proof -
  have "(s, Q) \<in> set (pcs_want cfg ts)" using t by (auto simp: pcs_want_def)
  then have "on_slot Q (slot_cell_of w s)"
    using reachable_serving(3) [OF r] by (fastforce simp: slots.owned_def slots_met)
  then show thesis using that by (auto simp: on_slot_def slot_cell_of_def split: option.splits)
qed

text \<open>C1: No caller ever meets another's conversation. Whatever the interleaving, an instance about to run a
  turn is live, checked out to exactly that caller, of the model and effort the caller asked for,
  and its process has been given nothing since it was last proven empty: nothing at all for a
  stateless call, and only earlier turns of the same conversation for a sticky one.\<close>

theorem turns_never_share_a_context:
  assumes "cfg_served cfg" "reachable cfg nfc (w, ts)" "AtHandle cl s \<in> set ts"
  shows "\<exists>i h. bm_get (instances (pool w)) s = Some i \<and> state i = CheckedOut \<and> handle i = Some h
    \<and> inst_class i = j_class (caller_job cl) \<and> conversation_id i = caller_tag cl
    \<and> set (heard w s) \<subseteq> {caller_tag cl} \<and> (caller_tag cl = None \<longrightarrow> heard w s = [])"
proof -
  obtain i where i: "bm_get (instances (pool w)) s = Some i"
    "e_fresh (j_class (caller_job cl)) (caller_tag cl) i (running w s) (heard w s)"
    by (rule reachable_owner [OF assms(2,1,3)]) simp
  moreover have "handle i \<noteq> None"
    using pool_invD(1) [OF reachable_serving(1) [OF assms(2,1)] i(1)] i(2)
    by (auto simp: slot_ok_def instance_ok_def expectations)
  ultimately show ?thesis by (auto simp: expectations)
qed

text \<open>C2: Nothing is deleted or reused under a live process. When a task is about to erase an instance's tree,
  the process launched there is gone and the tree is that of the instance still in the slot; when
  a task is about to mint into a slot, no process launched there earlier can be alive.\<close>

theorem no_tree_changes_under_a_live_process:
  assumes "cfg_served cfg" "reachable cfg nfc (w, ts)"
  shows "(AtErase s td k \<in> set ts \<longrightarrow> \<not> running w s \<and>
      (\<exists>i. bm_get (instances (pool w)) s = Some i \<and> state i = Destroying \<and> td_paths td = paths i))
    \<and> (AtMintRoots cl s spec sp \<in> set ts \<longrightarrow> \<not> running w s)"
proof (intro conjI impI)
  assume "AtErase s td k \<in> set ts"
  then obtain i where "bm_get (instances (pool w)) s = Some i" "e_reaped td i (running w s) (heard w s)"
    by (rule reachable_owner [OF assms(2,1), of _ s "e_reaped td"]) simp_all
  then show "\<not> running w s" "\<exists>i. bm_get (instances (pool w)) s = Some i \<and> state i = Destroying \<and> td_paths td = paths i"
    by (auto simp: expectations)
next
  assume "AtMintRoots cl s spec sp \<in> set ts"
  then obtain i where "e_warming cl i (running w s) (heard w s)"
    by (rule reachable_owner [OF assms(2,1), of _ s "e_warming cl"]) simp_all
  then show "\<not> running w s" by (simp add: expectations)
qed

text \<open>The slots a suspended task is responsible for.\<close>

definition task_slots :: "pool_config \<Rightarrow> pc \<Rightarrow> slot_id list" where
  "task_slots cfg t = map fst (pc_want cfg t)"

lemma held_nth: "s \<in> slots.held cfg ts \<longleftrightarrow> (\<exists>k < length ts. s \<in> set (task_slots cfg (ts ! k)))"
  by (auto simp: slots_held pcs_want_def task_slots_def in_set_conv_nth image_iff) (metis fst_conv nth_mem)+

lemma distinct_concat_nth:
  assumes "distinct (concat xss)" "a < length xss" "b < length xss" "x \<in> set (xss ! a)" "x \<in> set (xss ! b)"
  shows "a = b"
  using assms
proof (induction xss arbitrary: a b)
  case (Cons xs xss)
  have "x \<notin> set (xss ! n)" if "x \<in> set xs" "n < length xss" for n
    using Cons.prems(1) that nth_mem [OF that(2)] by fastforce
  with Cons show ?case by (cases a; cases b) auto
qed simp

text \<open>C3: No instance is stranded and none is fought over: every live instance that is neither idle nor
  leased is the responsibility of exactly one task, and an idle or leased one of none.\<close>

theorem every_busy_instance_has_one_task:
  assumes "cfg_served cfg" "reachable cfg nfc (w, ts)" "bm_get (instances (pool w)) s = Some i"
  shows "if state i = Idle \<or> state i = Leased
    then (\<forall>k < length ts. s \<notin> set (task_slots cfg (ts ! k)))
    else (\<exists>!k. k < length ts \<and> s \<in> set (task_slots cfg (ts ! k)))"
proof -
  have own: "slots.owned cfg w ts" using reachable_serving(3) [OF assms(2,1)] .
  then have met: "slots.met cfg w ts" by (simp add: slots.owned_def)
  show ?thesis
  proof (cases "s \<in> slots.held cfg ts")
    case True
    then have "\<not> (state i = Idle \<or> state i = Leased)"
      using owned_unheld [OF own] slots.met_not_free [OF met True] unheldD(2) [OF _ assms(3)] by blast
    moreover obtain k where k: "k < length ts" "s \<in> set (task_slots cfg (ts ! k))"
      using True by (auto simp: held_nth)
    moreover have "a = b" if "a < length ts" "s \<in> set (task_slots cfg (ts ! a))"
      "b < length ts" "s \<in> set (task_slots cfg (ts ! b))" for a b
    proof (rule distinct_concat_nth [of "map (task_slots cfg) ts"])
      show "distinct (concat (map (task_slots cfg) ts))"
        using met by (simp add: slots_met pcs_want_def task_slots_def [abs_def] map_concat comp_def)
    qed (use that in simp_all)
    ultimately show ?thesis by auto
  next
    case False
    then have "slot_free s (slot_cell_of w s)" using own by (simp add: slots.owned_def)
    then have "state i = Idle \<or> state i = Leased"
      using assms(3) by (auto simp: slot_free_def slot_cell_of_def)
    with False show ?thesis by (auto simp: held_nth)
  qed
qed

text \<open>C4: A conversation is never held twice: at most one instance is bound to it, and while a first turn of
  it is still being admitted no instance is.\<close>

theorem one_instance_per_conversation:
  assumes "cfg_served cfg" "reachable cfg nfc (w, ts)"
    and "bm_get (instances (pool w)) s = Some i" "conversation_id i = Some conv"
  shows "\<not> bm_contains (pending_leases (pool w)) conv
    \<and> (\<forall>s' i'. bm_get (instances (pool w)) s' = Some i' \<and> conversation_id i' = Some conv \<longrightarrow> s' = s)"
proof -
  have "s \<in> bound_to w conv" using assms(3,4) by (auto simp: bound_to_def)
  with owned_bound [OF reachable_serving(4) [OF assms(2,1)], of conv]
  have "conv_free conv (conv_cell w conv)" by blast
  with \<open>s \<in> bound_to w conv\<close> have "\<not> bm_contains (pending_leases (pool w)) conv" "bound_to w conv = {s}"
    by (auto simp: conv_free_def conv_cell_def)
  then show ?thesis by (auto simp: bound_to_def)
qed

text \<open>C5: A serving pool passes every check it can make of itself: the invariant audit finds nothing, live and
  leaked slots together never exceed the budget, no task panics, and no mint is orphaned or refused
  publication.\<close>

theorem serving_pool_passes_its_audit:
  assumes "cfg_served cfg" "reachable cfg nfc (w, ts)"
  shows "check_pool cfg (pool w) = Inr () \<and> bm_len (instances (pool w)) + bm_len (leaked_slots (pool w)) \<le> pool_size cfg
    \<and> Panicked \<notin> set ts \<and> AtOrphan cl \<notin> set ts \<and> AtUnpublish s tr k \<notin> set ts"
proof -
  note r = reachable_serving [OF assms(2,1)]
  have "check_pool cfg (pool w) = Inr ()" using pool_inv_checks [OF r(1)] assms(1) by (simp add: cfg_served_def)
  moreover have "pc_ok cfg t" if "t \<in> set ts" for t using r(5) that by (simp add: list_all_iff)
  ultimately show ?thesis using pool_inv_capacity [OF r(1)] by fastforce
qed

section \<open>Concrete runs\<close>

text \<open>Run the tasks in a given order, each step with its own input.\<close>

fun run_schedule :: "pool_config \<Rightarrow> (utext \<Rightarrow> utext) \<Rightarrow> (nat \<times> input) list \<Rightarrow> system \<Rightarrow> system" where
  "run_schedule cfg nfc [] S = S"
| "run_schedule cfg nfc ((k, inp) # rest) S =
     (if k < length (snd S)
      then (case task_step cfg nfc inp (snd S ! k) (fst S) of
              (w', ps) \<Rightarrow> run_schedule cfg nfc rest (w', take k (snd S) @ ps @ drop (Suc k) (snd S)))
      else S)"

lemma run_schedule_steps: "(pool_step cfg nfc)\<^sup>*\<^sup>* S (run_schedule cfg nfc sched S)"
proof (induction cfg nfc sched S rule: run_schedule.induct)
  case (2 cfg nfc k inp rest S)
  show ?case
  proof (cases "k < length (snd S)")
    case True
    obtain w' ps where out: "task_step cfg nfc inp (snd S ! k) (fst S) = (w', ps)"
      by (cases "task_step cfg nfc inp (snd S ! k) (fst S)")
    have "S = (fst S, take k (snd S) @ [snd S ! k] @ drop (Suc k) (snd S))"
      using id_take_nth_drop [OF True] by (simp add: prod_eq_iff)
    then have "pool_step cfg nfc S (w', take k (snd S) @ ps @ drop (Suc k) (snd S))"
      using pool_step.act [OF out, of "take k (snd S)" "drop (Suc k) (snd S)"] by simp
    with "2.IH" [OF True out [symmetric]] True out show ?thesis
      by (simp add: converse_rtranclp_into_rtranclp)
  qed simp
qed simp

definition sample_turn :: host_turn where
  "sample_turn = \<lparr>ht_text = ascii ''hello'', ht_reported_model = None, ht_stop_reason = None,
     ht_usage = \<lparr>main = token_usage_default, sidechain = token_usage_default, combined = token_usage_default, cost_usd = None\<rparr>,
     ht_sidechain_rows = Some 0\<rparr>"

definition sample_input :: input where
  "sample_input = \<lparr>in_now = 1000, in_elapsed = 0, in_os = quiet_os, in_mint = Inr sample_handle,
     in_turn = Inr sample_turn, in_clear = Inr (), in_destroy = Inr \<lparr>process_reaped = True\<rparr>, in_pid_written = True\<rparr>"

definition sample_request :: run_stateless_request where
  "sample_request = \<lparr>req_model = ''haiku'', req_effort = None, req_prompt = ascii ''Hi'', req_account = None,
     req_deadline_unix_ms = None\<rparr>"

definition sample_start :: system where
  "sample_start = (\<lparr>pool = pool_new, disk = sample_fs, running = (\<lambda>_. False), heard = (\<lambda>_. [])\<rparr>, [])"

text \<open>One call arrives and its task takes \<open>n\<close> steps.\<close>

definition sample_run :: "pc \<Rightarrow> (nat \<times> input) list \<Rightarrow> system" where
  "sample_run p sched = run_schedule sample_cfg id sched (fst sample_start, [p])"

lemma sample_run_reachable: "entry p \<Longrightarrow> reachable sample_cfg id (sample_run p sched)"
proof -
  assume "entry p"
  then have "pool_step sample_cfg id sample_start (fst sample_start, [p])"
    using pool_step.arrive [of p sample_cfg id "fst sample_start" "[]"] by (simp add: sample_start_def)
  then have "(pool_step sample_cfg id)\<^sup>*\<^sup>* sample_start (sample_run p sched)"
    unfolding sample_run_def by (rule converse_rtranclp_into_rtranclp) (rule run_schedule_steps)
  moreover have "pool_start sample_start" by (auto simp: pool_start_def sample_start_def)
  ultimately show ?thesis unfolding reachable_def by blast
qed

lemma sample_cfg_served: "cfg_served sample_cfg"
  by (simp add: cfg_served_def u32_max_def) (simp add: sample_cfg_def)

text \<open>Which tasks a run ends in, as tests that evaluate.\<close>

definition at_handle :: "slot_id \<Rightarrow> pc \<Rightarrow> bool" where
  "at_handle s p = (case p of AtHandle cl s' \<Rightarrow> s' = s | _ \<Rightarrow> False)"

definition at_erase :: "slot_id \<Rightarrow> pc \<Rightarrow> bool" where
  "at_erase s p = (case p of AtErase s' td k \<Rightarrow> s' = s | _ \<Rightarrow> False)"

lemma at_tests:
  "list_ex (at_handle s) ts \<longleftrightarrow> (\<exists>cl. AtHandle cl s \<in> set ts)"
  "list_ex (at_erase s) ts \<longleftrightarrow> (\<exists>td k. AtErase s td k \<in> set ts)"
proof -
  have "at_handle s p \<longleftrightarrow> (\<exists>cl. p = AtHandle cl s)" "at_erase s p \<longleftrightarrow> (\<exists>td k. p = AtErase s td k)" for p
    by (cases p; simp add: at_handle_def at_erase_def)+
  then show "list_ex (at_handle s) ts \<longleftrightarrow> (\<exists>cl. AtHandle cl s \<in> set ts)"
    "list_ex (at_erase s) ts \<longleftrightarrow> (\<exists>td k. AtErase s td k \<in> set ts)"
    by (auto simp: list_ex_iff)
qed

text \<open>
  A stateless call up to its turn; the same call with a turn that fails, up to the erasure; a
  sticky call to its end.
\<close>

definition run_to_turn :: system where
  "run_to_turn = sample_run (AtRun sample_request) (replicate 8 (0, sample_input))"

definition run_to_erase :: system where
  "run_to_erase = sample_run (AtRun sample_request) (replicate 13
     (0, sample_input\<lparr>in_turn := Inl (hf_reaped lost_handle)\<rparr>))"

definition run_to_lease :: system where
  "run_to_lease = sample_run (AtRunSticky ''chat'' sample_request False) (replicate 14 (0, sample_input))"

theorem turns_never_share_a_context_witness:
  "\<exists>cl. reachable sample_cfg id run_to_turn \<and> AtHandle cl 0 \<in> set (snd run_to_turn)
     \<and> heard (fst run_to_turn) 0 = []"
proof -
  have "list_ex (at_handle 0) (snd run_to_turn)" by code_simp
  then obtain cl where cl: "AtHandle cl 0 \<in> set (snd run_to_turn)" by (auto simp: at_tests)
  have r: "reachable sample_cfg id run_to_turn" unfolding run_to_turn_def by (rule sample_run_reachable) simp
  have "heard (fst run_to_turn) 0 = []" by code_simp
  with r cl turns_never_share_a_context [OF sample_cfg_served _ cl, of id "fst run_to_turn"] show ?thesis by auto
qed

theorem no_tree_changes_under_a_live_process_witness:
  "\<exists>td k. reachable sample_cfg id run_to_erase \<and> AtErase 0 td k \<in> set (snd run_to_erase)
     \<and> \<not> running (fst run_to_erase) 0"
proof -
  have "list_ex (at_erase 0) (snd run_to_erase)" by code_simp
  then obtain td k where e: "AtErase 0 td k \<in> set (snd run_to_erase)" by (auto simp: at_tests)
  have r: "reachable sample_cfg id run_to_erase" unfolding run_to_erase_def by (rule sample_run_reachable) simp
  from e r no_tree_changes_under_a_live_process
    [OF sample_cfg_served, of id "fst run_to_erase" "snd run_to_erase" 0 td k] show ?thesis by auto
qed

theorem every_busy_instance_has_one_task_witness:
  "\<exists>i. reachable sample_cfg id run_to_turn \<and> bm_get (instances (pool (fst run_to_turn))) 0 = Some i
     \<and> state i = CheckedOut
     \<and> (\<exists>!k. k < length (snd run_to_turn) \<and> 0 \<in> set (task_slots sample_cfg (snd run_to_turn ! k)))"
proof -
  have "map_option state (bm_get (instances (pool (fst run_to_turn))) 0) = Some CheckedOut" by code_simp
  then obtain i where i: "bm_get (instances (pool (fst run_to_turn))) 0 = Some i" "state i = CheckedOut" by auto
  have r: "reachable sample_cfg id run_to_turn" unfolding run_to_turn_def by (rule sample_run_reachable) simp
  from every_busy_instance_has_one_task [OF sample_cfg_served _ i(1), of id "snd run_to_turn"] i r
  show ?thesis by auto
qed

theorem one_instance_per_conversation_witness:
  "\<exists>i. reachable sample_cfg id run_to_lease \<and> bm_get (instances (pool (fst run_to_lease))) 0 = Some i
     \<and> conversation_id i = Some ''chat'' \<and> \<not> bm_contains (pending_leases (pool (fst run_to_lease))) ''chat''"
proof -
  have "map_option conversation_id (bm_get (instances (pool (fst run_to_lease))) 0) = Some (Some ''chat'')"
    by code_simp
  then obtain i where i: "bm_get (instances (pool (fst run_to_lease))) 0 = Some i"
    "conversation_id i = Some ''chat''" by auto
  have r: "reachable sample_cfg id run_to_lease" unfolding run_to_lease_def by (rule sample_run_reachable) simp
  from one_instance_per_conversation [OF sample_cfg_served _ i, of id "snd run_to_lease"] i r
  show ?thesis by auto
qed

theorem serving_pool_passes_its_audit_witness:
  "reachable sample_cfg id run_to_lease \<and> check_pool sample_cfg (pool (fst run_to_lease)) = Inr ()"
proof -
  have r: "reachable sample_cfg id run_to_lease" unfolding run_to_lease_def by (rule sample_run_reachable) simp
  with serving_pool_passes_its_audit [OF sample_cfg_served, of id "fst run_to_lease" "snd run_to_lease"]
  show ?thesis by auto
qed

section \<open>Shutdown\<close>

lemma shutdown_slot_spec:
  assumes inv: "pool_inv cfg st" and i: "bm_get (instances st) s = Some i"
  shows "(if state i = CheckedOut \<or> state i = Delivering then shutdown_slot cfg s (vs, st) = (vs, st)
    else \<exists>j st'. shutdown_slot cfg s (vs, st) = (vs @ [s], st') \<and> pool_inv cfg st'
      \<and> bm_get (instances st') s = Some j \<and> state j = Destroying
      \<and> (\<forall>s'. s' \<noteq> s \<longrightarrow> bm_get (instances st') s' = bm_get (instances st) s')
      \<and> shutting_down st' = shutting_down st)"
proof -
  have live: "\<not> is_terminal (state i)" using pool_invD(1) [OF inv i] by (simp add: slot_ok_def)
  show ?thesis
  proof (cases "shutdown_action (state i)")
    case (Drain t)
    then have edge: "step (state i) t = Inr Destroying" and n: "state i \<noteq> CheckedOut" "state i \<noteq> Delivering"
      by (cases "state i"; simp add: step_def)+
    from transition_granted [OF inv i edge]
    have tr: "transition_locked cfg s t st = Inr (Destroying, moved s t Destroying i st)" by simp
    have "pool_inv cfg (moved s t Destroying i st)" by (rule transition_keeps_inv [OF inv tr]) simp_all
    with n show ?thesis by (auto simp: shutdown_slot_def i Drain tr)
  next
    case Finish
    then have "state i = Destroying" using live by (cases "state i") simp_all
    with Finish inv i show ?thesis by (auto simp: shutdown_slot_def)
  next
    case Keep
    then have "state i = CheckedOut \<or> state i = Delivering" using live by (cases "state i") simp_all
    with Keep i show ?thesis by (auto simp: shutdown_slot_def)
  qed
qed


definition answering :: "pool_state \<Rightarrow> slot_id \<Rightarrow> bool" where
  "answering st s = (case bm_get (instances st) s of
     None \<Rightarrow> False | Some i \<Rightarrow> state i = CheckedOut \<or> state i = Delivering)"

lemma shutdown_fold_spec:
  assumes "pool_inv cfg st" "distinct ss" "\<forall>s \<in> set ss. bm_contains (instances st) s"
    "fold (shutdown_slot cfg) ss (vs, st) = (vs', st')"
  shows "vs' = vs @ filter (\<lambda>s. \<not> answering st s) ss \<and> shutting_down st' = shutting_down st
    \<and> (\<forall>s \<in> set ss. \<not> answering st s \<longrightarrow> (\<exists>j. bm_get (instances st') s = Some j \<and> state j = Destroying))
    \<and> (\<forall>s. s \<notin> set ss \<or> answering st s \<longrightarrow> bm_get (instances st') s = bm_get (instances st) s)"
  using assms
proof (induction ss arbitrary: vs st)
  case (Cons s ss)
  obtain i where i: "bm_get (instances st) s = Some i" using Cons.prems(3) by (auto simp: bm_contains_def)
  show ?case
  proof (cases "answering st s")
    case True
    then have "shutdown_slot cfg s (vs, st) = (vs, st)"
      using shutdown_slot_spec [OF Cons.prems(1) i, of vs] by (simp add: answering_def i)
    with Cons.prems have "fold (shutdown_slot cfg) ss (vs, st) = (vs', st')" by simp
    from Cons.IH [OF Cons.prems(1) _ _ this] Cons.prems(2,3) True show ?thesis by auto
  next
    case False
    then obtain j st1 where one: "shutdown_slot cfg s (vs, st) = (vs @ [s], st1)" "pool_inv cfg st1"
      "bm_get (instances st1) s = Some j" "state j = Destroying"
      "\<And>s'. s' \<noteq> s \<Longrightarrow> bm_get (instances st1) s' = bm_get (instances st) s'"
      "shutting_down st1 = shutting_down st"
      using shutdown_slot_spec [OF Cons.prems(1) i, of vs] by (auto simp: answering_def i)
    have other: "answering st1 s' = answering st s'" if "s' \<noteq> s" for s'
      using one(5) [OF that] by (simp add: answering_def)
    have "bm_contains (instances st1) s'" if "s' \<in> set ss" for s'
    proof -
      have "s' \<noteq> s" using Cons.prems(2) that by auto
      with one(5) [of s'] Cons.prems(3) that show ?thesis by (simp add: bm_contains_def)
    qed
    moreover have "fold (shutdown_slot cfg) ss (vs @ [s], st1) = (vs', st')" using Cons.prems(4) one(1) by simp
    ultimately have IH: "vs' = (vs @ [s]) @ filter (\<lambda>s. \<not> answering st1 s) ss" "shutting_down st' = shutting_down st1"
      "\<forall>s \<in> set ss. \<not> answering st1 s \<longrightarrow> (\<exists>j. bm_get (instances st') s = Some j \<and> state j = Destroying)"
      "\<forall>s. s \<notin> set ss \<or> answering st1 s \<longrightarrow> bm_get (instances st') s = bm_get (instances st1) s"
      using Cons.IH [OF one(2), of "vs @ [s]"] Cons.prems(2) by auto
    have "filter (\<lambda>s. \<not> answering st1 s) ss = filter (\<lambda>s. \<not> answering st s) ss"
    proof (rule filter_cong [OF refl])
      fix x assume "x \<in> set ss"
      with Cons.prems(2) have "x \<noteq> s" by auto
      with other show "(\<not> answering st1 x) = (\<not> answering st x)" by simp
    qed
    moreover have "bm_get (instances st') s = Some j" using IH(4) Cons.prems(2) one(3) by simp
    ultimately show ?thesis
      using IH other one False Cons.prems(2) by (auto simp del: split_paired_All) metis+
  qed
qed simp

text \<open>Shutdown closes the door and leaves nobody out. Its one scan marks the pool, puts every instance
  into teardown and onto its list, in slot order, except those a caller is still waiting on, which
  it leaves exactly as they are.\<close>

lemma shutdown_scan_is_complete:
  assumes "pool_inv cfg st" "shutdown_locked cfg st = (victims, st')"
  shows "shutting_down st' \<and> victims = filter (\<lambda>s. \<not> answering st s) (bm_keys (instances st))
    \<and> (\<forall>s i. bm_get (instances st) s = Some i \<longrightarrow>
         (if state i = CheckedOut \<or> state i = Delivering then bm_get (instances st') s = Some i
          else (\<exists>j. bm_get (instances st') s = Some j \<and> state j = Destroying)))"
proof -
  let ?st = "st\<lparr>shutting_down := True\<rparr>"
  have inv: "pool_inv cfg ?st" using assms(1) by simp
  have "distinct (bm_keys (instances st))" by (rule bm.keys_distinct)
  from shutdown_fold_spec [OF inv this, of "[]" victims st'] assms(2)
  have spec: "victims = [] @ filter (\<lambda>s. \<not> answering ?st s) (bm_keys (instances st)) \<and> shutting_down st' = shutting_down ?st
    \<and> (\<forall>s \<in> set (bm_keys (instances st)). \<not> answering ?st s \<longrightarrow> (\<exists>j. bm_get (instances st') s = Some j \<and> state j = Destroying))
    \<and> (\<forall>s. s \<notin> set (bm_keys (instances st)) \<or> answering ?st s \<longrightarrow> bm_get (instances st') s = bm_get (instances ?st) s)"
    by (simp add: shutdown_locked_def)
  have same: "answering ?st = answering st" by (rule ext) (simp add: answering_def)
  from spec show ?thesis
    unfolding same by (auto simp: answering_def bm_contains_def)
qed


section \<open>Three races the code leaves open\<close>

text \<open>
  A shutdown that reads a launching slot between the creation of its tree and the mark of its
  launch goes on to erase the tree while the process is running.
\<close>

definition shutdown_race :: system where
  "shutdown_race = run_schedule sample_cfg id
     (replicate 4 (0, sample_input) @ [(1, sample_input), (1, sample_input), (0, sample_input)])
     (fst sample_start, [AtRun sample_request, AtShutdown])"

lemma shutdown_can_erase_under_a_live_process:
  "list_ex (at_erase 0) (snd shutdown_race) \<and> running (fst shutdown_race) 0
   \<and> map_option state (bm_get (instances (pool (fst shutdown_race))) 0) = Some Destroying
   \<and> map_option mint_in_flight (bm_get (instances (pool (fst shutdown_race))) 0) = Some True"
  by code_simp

text \<open>
  A stateless turn that is delivered after the shutdown scan returns its instance to service: every
  task has ended, and the instance is idle, its process alive and its root on disk.
\<close>

definition late_turn :: system where
  "late_turn = run_schedule sample_cfg id
     (replicate 9 (0, sample_input) @ [(1, sample_input)] @ replicate 3 (0, sample_input)
        @ replicate 4 (1, sample_input))
     (fst sample_start, [AtRun sample_request, AtShutdown])"

definition task_done :: "pc \<Rightarrow> bool" where
  "task_done p = (case p of Done r \<Rightarrow> True | _ \<Rightarrow> False)"

lemma turn_delivered_after_shutdown_leaves_its_root:
  "list_all task_done (snd late_turn) \<and> length (snd late_turn) = 3
   \<and> shutting_down (pool (fst late_turn)) \<and> running (fst late_turn) 0
   \<and> map_option state (bm_get (instances (pool (fst late_turn))) 0) = Some Idle
   \<and> disk (fst late_turn) (Path True [''pool'', ''0'', ''0'', ''root'']) \<noteq> None"
  by code_simp

text \<open>
  Between the release of a cold swap's victim and the reclaim, another caller can reserve the slot;
  the caller who paid for the swap is answered with an internal error.
\<close>

definition other_request :: run_stateless_request where
  "other_request = sample_request\<lparr>req_model := ''sonnet''\<rparr>"

definition reclaim_race :: system where
  "reclaim_race = run_schedule sample_cfg id
     (replicate 12 (0, sample_input) @ replicate 4 (1, sample_input)
       @ replicate 6 (2, sample_input) @ replicate 2 (3, sample_input) @ [(2, sample_input)])
     (fst sample_start, [AtRun sample_request, AtRun other_request, AtRun sample_request])"

definition answered_internal :: "pc \<Rightarrow> bool" where
  "answered_internal p = (case p of
     Done (RunReply (Inl e)) \<Rightarrow> e = internal ''a reclaimed slot was still occupied'' | _ \<Rightarrow> False)"

lemma cold_swap_can_lose_its_slot:
  "answered_internal (snd reclaim_race ! 2) \<and> \<not> shutting_down (pool (fst reclaim_race))
   \<and> map_option state (bm_get (instances (pool (fst reclaim_race))) 0) = Some Reserved"
  by code_simp

end
