(* ===== verification/Progress.thy ===== *)
theory Progress
  imports Tasks
begin

text \<open>
  No handler of \<open>src/crates/service/src/pool/mod.rs\<close> runs forever.
\<close>

section \<open>Every handler ends\<close>

text \<open>How much work a program counter has left, on a scale where every action makes it less.\<close>

fun boot_work :: "(instance_class \<times> nat) list \<Rightarrow> nat" where
  "boot_work [] = 0"
| "boot_work ((c, n) # left) = Suc n + boot_work left"

fun client_base :: "client \<Rightarrow> nat" where
  "client_base (Caller cl) = 50"
| "client_base (Keeper (Rewarming c)) = 2"
| "client_base (Keeper (Booting left)) = 30 * boot_work left + 4"

fun after_base :: "after \<Rightarrow> nat" where
  "after_base (ThenReply r) = 1"
| "after_base (ThenFailed cl e) = client_base cl"
| "after_base (ThenPublished k) = client_base (Keeper k)"
| "after_base (ThenReclaim cl s waited) = 80"
| "after_base (ThenRemint c) = 26"
| "after_base (ThenVictims ss x) = 46 + 20 * length ss"

fun work :: "pc \<Rightarrow> nat" where
  "work (AtRun req) = 102"
| "work (AtRunSticky conv req resume) = 102"
| "work (AtClaim conv j) = 101"
| "work (AtResume conv j) = 101"
| "work (AtAdmit cl) = 100"
| "work (AtCancelClaim conv e) = 1"
| "work (AtReclaim cl s waited) = 72"
| "work (AtMint cl s) = client_base cl + 20"
| "work (AtMintRoots cl s spec sp) = client_base cl + 19"
| "work (AtMintMark cl s spec) = client_base cl + 18"
| "work (AtLaunch cl s spec) = client_base cl + 17"
| "work (AtLanded cl s spec h) = client_base cl + 16"
| "work (AtOrphan cl) = client_base cl + 15"
| "work (AtAbandonMint cl s survives e) = client_base cl + 15"
| "work (AtPublish cl s) = client_base cl + 15"
| "work (AtUnpublish s ts k) = after_base k + 14"
| "work (AtBind conv j s) = 49"
| "work (AtHandle cl s) = 48"
| "work (AtTurn cl s h) = 47"
| "work (AtCommitRead cl s turn) = 46"
| "work (AtCommit cl s result cell) = 45"
| "work (AtQuarantine s k) = after_base k + 14"
| "work (AtDestroy s k) = after_base k + 13"
| "work (AtClose s td k) = after_base k + 12"
| "work (AtErase s td k) = after_base k + 11"
| "work (AtRelease s k) = after_base k + 10"
| "work (AtLeak s k) = after_base k + 10"
| "work (AtClear s) = 44"
| "work (AtClearWait s h) = 43"
| "work (AtClearRead s) = 42"
| "work (AtClearPublish s) = 41"
| "work (AtRecycle s) = 40"
| "work (AtHalt s reason f) = 42"
| "work (AtClearFailed s f) = 41"
| "work (AtRemint c) = 25"
| "work (AtRewarm c) = 24"
| "work (AtRewarmEnd c) = 1"
| "work AtBoot = 0"
| "work (AtBootNext left) = 30 * boot_work left + 3"
| "work AtSweep = 1"
| "work (AtSweepIdle now) = 0"
| "work (AtSweepLeases now) = 45"
| "work AtShutdown = 0"
| "work (AtEndConversation conv) = 45"
| "work (Done r) = 0"
| "work Panicked = 0"

text \<open>The scans of the whole pool come before everything they give rise to.\<close>

fun scans :: "pc \<Rightarrow> bool" where
  "scans AtBoot = True"
| "scans AtSweep = True"
| "scans (AtSweepIdle now) = True"
| "scans AtShutdown = True"
| "scans _ = False"

definition effort :: "pc \<Rightarrow> nat \<times> nat" where
  "effort p = (if scans p then 1 else 0, work p)"

fun ended :: "pc \<Rightarrow> bool" where
  "ended (Done r) = True"
| "ended Panicked = True"
| "ended _ = False"

text \<open>\<open>q\<close> is what became of \<open>p\<close>, or what it spawned; sleeping in admission is no progress.\<close>

definition becomes :: "pool_config \<Rightarrow> (utext \<Rightarrow> utext) \<Rightarrow> pc \<Rightarrow> pc \<Rightarrow> bool" where
  "becomes cfg nfc p q \<longleftrightarrow> \<not> ended p \<and> \<not> (\<exists>cl. p = AtAdmit cl \<and> q = AtAdmit cl)
     \<and> (\<exists>inp w. q \<in> set (snd (task_step cfg nfc inp p w)))"

lemma work_next:
  "work (admission_failed cl e) \<le> 1" "work (mint_failed cl' e) \<le> 1"
  "work (kept k) < client_base (Keeper k)" "work (checked_out cl s) \<le> 49" "work (go_on a) < after_base a"
  "\<not> scans (admission_failed cl e)" "\<not> scans (mint_failed cl' e)" "\<not> scans (kept k)"
  "\<not> scans (checked_out cl s)" "\<not> scans (go_on a)"
proof -
  show adm: "work (admission_failed cl e) \<le> 1" "\<not> scans (admission_failed cl e)" for cl e by (cases cl; simp)+
  show mint: "work (mint_failed cl' e) \<le> 1" "\<not> scans (mint_failed cl' e)" for cl' e
    using adm by (cases "(cl', e)" rule: mint_failed.cases; simp)+
  show kept: "work (kept k) < client_base (Keeper k)" "\<not> scans (kept k)" for k by (cases k; simp)+
  show "work (checked_out cl s) \<le> 49" "\<not> scans (checked_out cl s)" by (cases cl; simp)+
  have b: "1 < client_base cl" for cl by (cases cl rule: client_base.cases) simp_all
  show "work (go_on a) < after_base a"
    using kept mint b le_less_trans [OF mint(1) b] by (cases a rule: go_on.cases) simp_all
  show "\<not> scans (go_on a)" using kept mint by (cases a rule: go_on.cases) simp_all
qed


definition below :: "nat \<Rightarrow> pc \<Rightarrow> bool" where
  "below n q \<longleftrightarrow> work q < n \<and> \<not> scans q"

lemma client_base_pos: "1 < client_base cl" "client_base (Caller c) = 50"
  by (cases cl rule: client_base.cases) simp_all

lemma below_next:
  "1 < n \<Longrightarrow> below n (admission_failed cl e)" "1 < n \<Longrightarrow> below n (mint_failed cl' e)"
  "client_base (Keeper k) \<le> n \<Longrightarrow> below n (kept k)" "49 < n \<Longrightarrow> below n (checked_out cl s)"
  "after_base a \<le> n \<Longrightarrow> below n (go_on a)"
  using work_next(1,6) [of cl e] work_next(2,7) [of cl' e] work_next(3,8) [of k]
    work_next(4,9) [of cl s] work_next(5,10) [of a]
  by (auto simp: below_def)

lemma less_admission:
  "below 102 (step_run cfg nfc inp req)" "below 102 (step_run_sticky cfg nfc inp conv req r)"
  "list_all (below 101) (snd (step_claim conv j w))"
  "list_all (below 101) (snd (step_resume cfg conv j w))"
  "list_all (\<lambda>q. q = AtAdmit cl \<or> below 100 q) (snd (step_admit cfg inp cl w))"
  "list_all (below 72) (snd (step_reclaim cfg cl s wt w))"
  using below_next(1) [of 100 cl] below_next(1) [of 72 cl] below_next(4) [of 100 cl]
  by (auto simp: step_run_def step_run_sticky_def step_claim_def step_resume_def step_admit_def step_reclaim_def
      Let_def below_def split: sum.split prod.split admit_outcome.split admission.split option.split)

lemma less_mint:
  "list_all (below (client_base cl + 20)) (snd (step_mint cfg cl s w))"
  "list_all (below (client_base cl + 19)) (snd (step_mint_roots cfg inp cl s spec sp w))"
  "list_all (below (client_base cl + 18)) (snd (step_mint_mark cl s spec w))"
  "list_all (below (client_base cl + 17)) (snd (step_launch inp cl s spec w))"
  "list_all (below (client_base cl + 16)) (snd (step_landed cfg inp cl s spec h w))"
  "list_all (below (client_base cl + 15)) (snd (step_abandon_mint cfg cl s v e w))"
proof -
  note f = below_next(2) [of "client_base cl + 20" cl] below_next(2) [of "client_base cl + 18" cl]
  show "list_all (below (client_base cl + 20)) (snd (step_mint cfg cl s w))"
    using f by (auto simp: step_mint_def below_def split: sum.split option.split)
  show "list_all (below (client_base cl + 18)) (snd (step_mint_mark cl s spec w))"
    using f by (auto simp: step_mint_mark_def below_def split: sum.split)
qed (auto simp: step_mint_roots_def step_launch_def step_landed_def step_abandon_mint_def Let_def below_def
    split: sum.split option.split prod.split)

lemma less_publish: "list_all (below (client_base cl + 15)) (snd (step_publish cfg inp cl s w))"
proof (cases cl)
  case (Caller c)
  then show ?thesis
    using below_next(1) [of 65 c] below_next(4) [of 65 c]
    by (auto simp: below_def split: prod.split option.split sum.split)
next
  case (Keeper k)
  then show ?thesis
    using below_next(3) [of k "client_base (Keeper k) + 15"]
    by (auto simp: below_def split: prod.split bool.split)
qed

lemma less_turn:
  "list_all (below 48) (snd (step_handle cl s w))"
  "list_all (below 47) (snd (step_turn inp cl s h w))"
  "list_all (below 46) (snd (step_commit_read cl s turn w))"
  "list_all (below 45) (snd (step_commit cfg inp cl s result cell w))"
  by (cases cl; auto simp: step_handle_def step_turn_def step_commit_read_def Let_def below_def
      split: sum.split option.split prod.split bool.split)+

lemma less_teardown:
  "list_all (below (after_base k + 13)) (snd (step_destroy s k w))"
  "list_all (below (after_base k + 12)) (snd (step_close inp s td k w))"
  "list_all (below (after_base k + 11)) (snd (step_erase cfg inp s td k w))"
  using below_next(5) [of k "after_base k + 13"]
  by (auto simp: step_destroy_def step_close_def step_erase_def below_def split: sum.split option.split prod.split)

lemma less_clear:
  "list_all (below 44) (snd (step_clear s w))"
  "list_all (below 43) (snd (step_clear_wait inp s w))"
  "list_all (below 42) (snd (step_clear_read cfg s w))"
  "list_all (below 41) (snd (step_clear_publish cfg inp s w))"
  "list_all (below 40) (snd (step_recycle cfg s w))"
  "list_all (below 25) (snd (step_remint cfg c w))"
  "list_all (below 24) (snd (step_rewarm cfg c w))"
  "list_all (below 45) (snd (step_end_conversation cfg conv w))"
  by (auto simp: step_clear_def step_clear_wait_def step_clear_read_def step_clear_publish_def step_recycle_def
      step_remint_def step_rewarm_def step_end_conversation_def below_def
      split: sum.split option.split prod.split bool.split)

lemma less_scans:
  "list_all (\<lambda>q. \<not> scans q) (snd (step_boot cfg inp w))"
  "list_all (\<lambda>q. \<not> scans q) (snd (step_sweep_idle cfg now w))"
  "list_all (\<lambda>q. \<not> scans q) (snd (step_shutdown cfg w))"
  "list_all (below 45) (snd (step_sweep_leases cfg now w))"
  "list_all (below (30 * boot_work left + 3)) (snd (step_boot_next cfg left w))"
proof -
  show "list_all (\<lambda>q. \<not> scans q) (snd (step_boot cfg inp w))"
    by (auto simp: step_boot_def split: sum.split option.split prod.split)
  show "list_all (\<lambda>q. \<not> scans q) (snd (step_sweep_idle cfg now w))"
    "list_all (\<lambda>q. \<not> scans q) (snd (step_shutdown cfg w))"
    using work_next(10) by (auto simp: step_sweep_idle_def step_shutdown_def split: prod.split)
  have "list_all (below 45) (map AtClear vs)" for vs by (induction vs) (simp_all add: below_def)
  then show "list_all (below 45) (snd (step_sweep_leases cfg now w))"
    by (simp add: step_sweep_leases_def below_def split: prod.split)
  show "list_all (below (30 * boot_work left + 3)) (snd (step_boot_next cfg left w))"
    by (cases "(cfg, left, w)" rule: step_boot_next.cases) (auto simp: below_def split: prod.split option.split)
qed

lemmas less_steps = less_admission less_mint less_publish less_turn less_teardown less_clear less_scans

lemma step_less:
  assumes "\<not> ended p" "\<not> scans p"
  shows "list_all (\<lambda>q. p = q \<and> (\<exists>cl. p = AtAdmit cl) \<or> below (work p) q) (snd (task_step cfg nfc inp p w))"
proof -
  have weaken: "list_all (below n) qs \<Longrightarrow> n = work p \<Longrightarrow>
      list_all (\<lambda>q. p = q \<and> (\<exists>cl. p = AtAdmit cl) \<or> below (work p) q) qs" for n qs
    by (simp add: list_all_iff)
  show ?thesis
  proof (cases p)
    case (AtAdmit cl)
    then show ?thesis using less_admission(5) [of cl cfg inp w] by (auto simp: list_all_iff)
  qed (use assms less_steps in \<open>auto intro!: weaken intro: below_next simp: below_next\<close>,
      auto simp: below_def)
qed

lemma becomes_less: "becomes cfg nfc p q \<Longrightarrow> (effort q, effort p) \<in> less_than <*lex*> less_than"
proof (cases "scans p")
  case True
  assume "becomes cfg nfc p q"
  with True less_scans(1-3) show ?thesis
    by (cases p) (auto simp: becomes_def effort_def list_all_iff)
next
  case False
  assume "becomes cfg nfc p q"
  then obtain inp w where q: "q \<in> set (snd (task_step cfg nfc inp p w))" "\<not> ended p"
    "\<not> (\<exists>cl. p = AtAdmit cl \<and> q = AtAdmit cl)"
    by (auto simp: becomes_def)
  from step_less [OF q(2) False, of cfg nfc inp w] q(1,3) have "below (work p) q"
    by (auto simp: list_all_iff)
  with False show ?thesis by (simp add: effort_def below_def)
qed

text \<open>C33: No handler runs forever. There is no infinite chain in which a task becomes, or spawns, the next,
  whatever the host answers, whatever the clock says and however the other tasks interleave; the
  only state a task can return to is the sleep between two admission reads.\<close>

theorem no_handler_runs_forever: "wf {(q, p). becomes cfg nfc p q}"
proof (rule wf_subset)
  show "wf (inv_image (less_than <*lex*> less_than) effort)" by (intro wf_inv_image wf_lex_prod wf_less_than)
  show "{(q, p). becomes cfg nfc p q} \<subseteq> inv_image (less_than <*lex*> less_than) effort"
    by (auto simp: in_inv_image simp del: in_lex_prod dest: becomes_less)
qed

end
