(* ===== verification/Transcript.thy ===== *)
theory Transcript
  imports Composer
begin

text \<open>
  The data of a Claude transcript: \<open>src/crates/claude/src/model.rs\<close>, the errors of
  \<open>src/crates/claude/src/error.rs\<close> and the file identity of \<open>cursor.rs\<close>. A Rust \<open>String\<close> is a list of
  Unicode scalars; \<open>jvalue\<close> is \<open>serde_json::Value\<close>, an object being its list of members with distinct
  keys in key order, and a float an opaque code, equal for equal values. The \<open>message\<close> of a schema error
  keeps what it is formatted from instead of the text Rust's \<open>Debug\<close> prints.
\<close>

type_synonym byte = "8 word"
type_synonym bytes = "byte list"

section \<open>JSON values\<close>

datatype number = PosInt u64 | NegInt int | Float nat

datatype jvalue =
    VNull
  | VBool bool
  | VNumber number
  | VString utext
  | VArray "jvalue list"
  | VObject "(utext \<times> jvalue) list"

type_synonym object = "(utext \<times> jvalue) list"

definition get :: "object \<Rightarrow> string \<Rightarrow> jvalue option" where
  "get obj key = map_of obj (ascii key)"

fun as_object :: "jvalue \<Rightarrow> object option" where
  "as_object (VObject kvs) = Some kvs"
| "as_object _ = None"

fun as_array :: "jvalue \<Rightarrow> jvalue list option" where
  "as_array (VArray vs) = Some vs"
| "as_array _ = None"

fun as_str :: "jvalue \<Rightarrow> utext option" where
  "as_str (VString s) = Some s"
| "as_str _ = None"

fun as_u64 :: "jvalue \<Rightarrow> u64 option" where
  "as_u64 (VNumber (PosInt n)) = Some n"
| "as_u64 _ = None"

definition MAX_SAFE_JSON_INTEGER :: u64 where
  "MAX_SAFE_JSON_INTEGER = 9007199254740991"

section \<open>Rows\<close>

record file_identity =
  fi_device :: u64
  fi_inode :: u64

record source_location =
  sl_line :: u64
  sl_byte_offset :: u64

datatype row_scope = Main | Sidechain | Team | Meta

record common_fields =
  cf_uuid :: "utext option"
  cf_parent_uuid :: "utext option"
  cf_session_id :: "utext option"
  cf_scope :: row_scope

record tool_result_block =
  tr_tool_use_id :: utext
  tr_content :: jvalue
  tr_is_error :: "bool option"

datatype content_block =
    Text utext
  | Thinking utext
  | ToolUse utext utext jvalue
  | UnknownBlock "utext option" jvalue

record token_usage =
  tu_input :: u64
  tu_output :: u64
  tu_cache_creation :: u64
  tu_cache_read :: u64

record usage_snapshot =
  us_tokens :: token_usage
  us_raw :: jvalue

record assistant_fragment =
  af_message_id :: "utext option"
  af_request_id :: "utext option"
  af_model :: "utext option"
  af_blocks :: "content_block list"
  af_stop_reason :: "utext option"
  af_usage :: "usage_snapshot option"
  af_is_api_error :: bool

datatype row_kind =
    TypedUser utext "utext option"
  | UserToolResults "tool_result_block list"
  | UserOther
  | Assistant assistant_fragment
  | Attachment utext
  | System "utext option"
  | Metadata utext
  | UnknownRow "utext option"

record parsed_row =
  pr_source :: source_location
  pr_common :: common_fields
  pr_kind :: row_kind
  pr_raw :: jvalue

fun is_metadata :: "row_kind \<Rightarrow> bool" where
  "is_metadata (Metadata _) = True"
| "is_metadata _ = False"

fun is_assistant :: "row_kind \<Rightarrow> bool" where
  "is_assistant (Assistant _) = True"
| "is_assistant _ = False"

text \<open>The methods of \<open>SystemRow\<close>, on its subtype.\<close>

definition is_proven_inert_marker :: "utext option \<Rightarrow> bool" where
  "is_proven_inert_marker subtype \<longleftrightarrow>
     subtype = Some (ascii ''turn_duration'') \<or> subtype = Some (ascii ''stop_hook_summary'')"

definition is_retry_in_flight_marker :: "utext option \<Rightarrow> bool" where
  "is_retry_in_flight_marker subtype \<longleftrightarrow> subtype = Some (ascii ''api_error'')"

definition is_admitted_on_active_chain :: "utext option \<Rightarrow> bool" where
  "is_admitted_on_active_chain subtype \<longleftrightarrow>
     is_proven_inert_marker subtype \<or> is_retry_in_flight_marker subtype"

definition is_analysis_changing :: "parsed_row \<Rightarrow> bool" where
  "is_analysis_changing row =
     (case pr_kind row of
        Metadata _ \<Rightarrow> False
      | UnknownRow _ \<Rightarrow> True
      | _ \<Rightarrow> cf_scope (pr_common row) = Main \<or> cf_scope (pr_common row) = Sidechain)"

definition is_turn_duration_marker :: "parsed_row \<Rightarrow> bool" where
  "is_turn_duration_marker row \<longleftrightarrow>
     cf_scope (pr_common row) = Main \<and> pr_kind row = System (Some (ascii ''turn_duration''))"

section \<open>What an analysis yields\<close>

datatype logical_message_key = MessageId utext | RequestId utext | RowUuid utext

datatype stop_reason =
    EndTurn | MaxTokens | StopSequence | StopToolUse | PauseTurn | Refusal | UnknownStop utext

definition parse_stop_reason :: "utext \<Rightarrow> stop_reason" where
  "parse_stop_reason v =
     (if v = ascii ''end_turn'' then EndTurn
      else if v = ascii ''max_tokens'' then MaxTokens
      else if v = ascii ''stop_sequence'' then StopSequence
      else if v = ascii ''tool_use'' then StopToolUse
      else if v = ascii ''pause_turn'' then PauseTurn
      else if v = ascii ''refusal'' then Refusal
      else UnknownStop v)"

record usage_totals =
  ut_tokens :: token_usage
  ut_model_calls_with_usage :: u64

definition no_tokens :: token_usage where
  "no_tokens = \<lparr>tu_input = 0, tu_output = 0, tu_cache_creation = 0, tu_cache_read = 0\<rparr>"

definition no_usage :: usage_totals where
  "no_usage = \<lparr>ut_tokens = no_tokens, ut_model_calls_with_usage = 0\<rparr>"

record logical_assistant_message =
  lm_key :: logical_message_key
  lm_row_uuids :: "utext list"
  lm_model :: "utext option"
  lm_blocks :: "content_block list"
  lm_stop_reason :: "stop_reason option"
  lm_usage :: "usage_snapshot option"
  lm_is_api_error :: bool
  lm_first_ordinal :: u64
  lm_last_ordinal :: u64

record prompt_acknowledgement =
  pa_row_uuid :: utext
  pa_prompt_id :: "utext option"
  pa_ordinal :: u64

record tool_record =
  to_tool_use_id :: utext
  to_name :: utext
  to_input :: jvalue
  to_result :: "tool_result_block option"
  to_order :: u64

datatype terminal_outcome = Completed | OutMaxTokens | Refused | ApiError

record final_turn =
  ft_outcome :: terminal_outcome
  ft_message_key :: logical_message_key
  ft_stop_reason :: "stop_reason option"
  ft_final_text :: utext
  ft_final_text_blocks :: "utext list"
  ft_model :: "utext option"

datatype turn_status =
    AwaitingPromptAcknowledgement
  | Running "stop_reason option"
  | Terminal final_turn

text \<open>The strict mode, the only \<open>ParseMode\<close>, gives the first of these and refuses a transcript for the others.\<close>

datatype engine_warning =
    WarnUnknownRow u64 "utext option"
  | WarnUnknownContentBlock logical_message_key "utext option"
  | WarnConflictingUsage logical_message_key
  | WarnOrphanToolResult utext

record transcript_analysis =
  ta_status :: turn_status
  ta_acknowledgement :: "prompt_acknowledgement option"
  ta_active_chain :: "utext list"
  ta_messages :: "logical_assistant_message list"
  ta_tools :: "tool_record list"
  ta_usage :: usage_totals
  ta_sidechain_usage :: usage_totals
  ta_combined_usage :: usage_totals
  ta_turn_duration_seen :: bool
  ta_stop_hook_summary_seen :: bool
  ta_api_error_retries_seen :: u64
  ta_sidechain_rows :: u64
  ta_warnings :: "engine_warning list"

section \<open>Errors\<close>

datatype drift_message =
    Says string
  | SaysOption string "utext option" string
  | SaysText string utext string

datatype transcript_error =
    CursorOffsetMismatch u64 u64
  | ReadBeyondObservedFile u64 u64
  | LineTooLong nat nat u64
  | InvalidUtf8 source_location
  | MalformedJson source_location
  | SchemaDrift "utext option" string drift_message
  | ConflictingDuplicateRow utext
  | TurnAlreadyArmed
  | NoTurnArmed
  | UnexpectedTypedPrompt utext utext
  | MultiplePromptAcknowledgements
  | AmbiguousActiveBranches nat
  | ActiveRowMissingUuid u64
  | DisconnectedActiveRow utext
  | ParentAppendOrder utext utext
  | ParentCycle utext
  | InterleavedLogicalMessage logical_message_key
  | LogicalMessageConflict logical_message_key string
  | UsageOverflow string
  | DuplicateToolCall utext
  | DuplicateToolResult utext
  | OrphanToolResult utext
  | TerminalMessageMissingText logical_message_key
  | FileIdentityMismatch file_identity file_identity

end
