(* ===== verification/Cursor.thy ===== *)
theory Cursor
  imports Transcript
begin

text \<open>
  The transcript cursor, \<open>src/crates/claude/src/cursor.rs\<close>: it turns offset-addressed reads of a growing
  file into complete lines. A byte is an \<open>8 word\<close>. \<open>push\<close> keeps what it changed when it fails, as
  the \<open>&mut self\<close> method does, so it returns the cursor beside the result. The reference
  \<open>raw_lines\<close> splits a whole byte string at once, and the theorems relate the two for every
  way of cutting the file into reads.
\<close>

section \<open>Data\<close>

definition MAX_TRANSCRIPT_LINE_BYTES :: nat where
  "MAX_TRANSCRIPT_LINE_BYTES = 16 * 1024 * 1024"

record file_metadata =
  fm_identity :: file_identity
  fm_len :: u64

datatype cursor_change =
    Initialized
  | Unchanged
  | Replaced file_identity file_identity
  | Truncated u64 u64

record cursor_observation =
  co_change :: cursor_change
  co_read_from :: u64
  co_read_to :: u64
  co_generation :: u64

record complete_line =
  cl_location :: source_location
  cl_bytes :: bytes

record cursor_update =
  cu_lines :: "complete_line list"
  cu_next_offset :: u64
  cu_pending_bytes :: nat
  cu_generation :: u64

record transcript_cursor =
  tc_identity :: "file_identity option"
  tc_observed_len :: u64
  tc_next_offset :: u64
  tc_pending_offset :: u64
  tc_pending :: bytes
  tc_scan_from :: nat
  tc_next_line_number :: u64
  tc_generation :: u64

section \<open>Operations\<close>

definition cursor_new :: transcript_cursor where
  "cursor_new =
     \<lparr>tc_identity = None, tc_observed_len = 0, tc_next_offset = 0, tc_pending_offset = 0,
      tc_pending = [], tc_scan_from = 0, tc_next_line_number = 1, tc_generation = 0\<rparr>"

definition reset_for :: "file_identity \<Rightarrow> transcript_cursor \<Rightarrow> transcript_cursor" where
  "reset_for ident c =
     c\<lparr>tc_identity := Some ident, tc_next_offset := 0, tc_pending_offset := 0, tc_pending := [],
       tc_scan_from := 0, tc_next_line_number := 1, tc_generation := sat_add64 (tc_generation c) 1\<rparr>"

definition seek_to_eof :: "file_metadata \<Rightarrow> transcript_cursor \<Rightarrow> transcript_cursor" where
  "seek_to_eof m c =
     (reset_for (fm_identity m) c)
       \<lparr>tc_observed_len := fm_len m, tc_next_offset := fm_len m, tc_pending_offset := fm_len m\<rparr>"

definition observe :: "file_metadata \<Rightarrow> transcript_cursor \<Rightarrow> cursor_observation \<times> transcript_cursor" where
  "observe m c =
     (let (change, c1) =
            (case tc_identity c of
               None \<Rightarrow> (Initialized, reset_for (fm_identity m) c)
             | Some previous \<Rightarrow>
                 if previous \<noteq> fm_identity m then
                   (Replaced previous (fm_identity m), reset_for (fm_identity m) c)
                 else if fm_len m < tc_next_offset c then
                   (Truncated (tc_next_offset c) (fm_len m), reset_for (fm_identity m) c)
                 else (Unchanged, c));
          c2 = c1\<lparr>tc_observed_len := fm_len m\<rparr>
      in (\<lparr>co_change = change, co_read_from = tc_next_offset c2, co_read_to = fm_len m,
           co_generation = tc_generation c2\<rparr>, c2))"

text \<open>
  The loop of \<open>push\<close> over the newline positions of the buffer: the lines so far, the bytes consumed and
  the next line number. A line that is too long stops it, and the line numbers given out before stay
  given out.
\<close>

definition line_end_at :: "bytes \<Rightarrow> nat \<Rightarrow> nat \<Rightarrow> nat" where
  "line_end_at p consumed newline =
     (if newline > consumed \<and> p ! (newline - 1) = 13 then newline - 1 else newline)"

fun frame_lines ::
  "bytes \<Rightarrow> u64 \<Rightarrow> nat list \<Rightarrow> nat \<Rightarrow> u64 \<Rightarrow> complete_line list
    \<Rightarrow> (transcript_error \<times> u64) + (complete_line list \<times> nat \<times> u64)" where
  "frame_lines p off [] consumed n acc = Inr (acc, consumed, n)"
| "frame_lines p off (newline # rest) consumed n acc =
     (let line_end = line_end_at p consumed newline;
          line_bytes = sat_sub line_end consumed
      in if line_bytes > MAX_TRANSCRIPT_LINE_BYTES then
           Inl (LineTooLong line_bytes MAX_TRANSCRIPT_LINE_BYTES (off + consumed), n)
         else
           frame_lines p off rest (newline + 1) (n + 1)
             (acc @ [\<lparr>cl_location = \<lparr>sl_line = n, sl_byte_offset = off + consumed\<rparr>,
                      cl_bytes = drop consumed (take line_end p)\<rparr>]))"

definition push ::
  "file_identity \<Rightarrow> u64 \<Rightarrow> bytes \<Rightarrow> transcript_cursor
    \<Rightarrow> (transcript_error + cursor_update) \<times> transcript_cursor" where
  "push ident read_offset bs c =
     (let expected = (case tc_identity c of None \<Rightarrow> ident | Some i \<Rightarrow> i)
      in if expected \<noteq> ident then (Inl (FileIdentityMismatch expected ident), c)
         else if read_offset \<noteq> tc_next_offset c then
           (Inl (CursorOffsetMismatch (tc_next_offset c) read_offset), c)
         else if read_offset + length bs > u64_max then
           (Inl (ReadBeyondObservedFile u64_max (tc_observed_len c)), c)
         else if read_offset + length bs > tc_observed_len c then
           (Inl (ReadBeyondObservedFile (read_offset + length bs) (tc_observed_len c)), c)
         else
           let p = tc_pending c @ bs;
               off = (if tc_pending c = [] then read_offset else tc_pending_offset c);
               c1 = c\<lparr>tc_pending_offset := off, tc_pending := p,
                      tc_next_offset := read_offset + length bs\<rparr>
           in case frame_lines p off (filter (\<lambda>i. p ! i = 10) [tc_scan_from c ..< length p])
                     0 (tc_next_line_number c) [] of
                Inl (e, n) \<Rightarrow> (Inl e, c1\<lparr>tc_next_line_number := n\<rparr>)
              | Inr (ls, consumed, n) \<Rightarrow>
                  let c2 = c1\<lparr>tc_next_line_number := n, tc_scan_from := sat_sub (length p) consumed,
                              tc_pending := drop consumed p, tc_pending_offset := off + consumed\<rparr>
                  in if length (tc_pending c2) > MAX_TRANSCRIPT_LINE_BYTES then
                       (Inl (LineTooLong (length (tc_pending c2)) MAX_TRANSCRIPT_LINE_BYTES
                               (tc_pending_offset c2)), c2)
                     else
                       (Inr \<lparr>cu_lines = ls, cu_next_offset = tc_next_offset c2,
                             cu_pending_bytes = length (tc_pending c2),
                             cu_generation = tc_generation c2\<rparr>, c2))"

definition has_partial_line :: "transcript_cursor \<Rightarrow> bool" where
  "has_partial_line c \<longleftrightarrow> tc_pending c \<noteq> []"

section \<open>The reference splitter\<close>

text \<open>The terminated lines of a byte string, terminators removed, and what follows the last one.\<close>

fun raw_lines :: "bytes \<Rightarrow> bytes list \<times> bytes" where
  "raw_lines [] = ([], [])"
| "raw_lines (b # bs) =
     (case raw_lines bs of (ls, r) \<Rightarrow>
        if b = 10 then ([] # ls, r)
        else (case ls of [] \<Rightarrow> ([], b # r) | l # ls' \<Rightarrow> ((b # l) # ls', r)))"

definition strip_cr :: "bytes \<Rightarrow> bytes" where
  "strip_cr l = (if l \<noteq> [] \<and> last l = 13 then butlast l else l)"

fun located :: "u64 \<Rightarrow> u64 \<Rightarrow> bytes list \<Rightarrow> complete_line list" where
  "located off n [] = []"
| "located off n (l # ls) =
     \<lparr>cl_location = \<lparr>sl_line = n, sl_byte_offset = off\<rparr>, cl_bytes = strip_cr l\<rparr>
       # located (off + length l + 1) (n + 1) ls"

lemma raw_lines_unterminated: "10 \<notin> set l \<Longrightarrow> raw_lines l = ([], l)"
  by (induction l) auto

lemma raw_lines_line: "10 \<notin> set l \<Longrightarrow> raw_lines (l @ 10 # bs) = (l # fst (raw_lines bs), snd (raw_lines bs))"
  by (induction l) (auto split: prod.splits)

lemma raw_lines_append:
  "raw_lines (xs @ ys) =
     (fst (raw_lines xs) @ fst (raw_lines (snd (raw_lines xs) @ ys)),
      snd (raw_lines (snd (raw_lines xs) @ ys)))"
  by (induction xs) (auto split: prod.splits list.splits)

lemma raw_lines_rest_unterminated: "10 \<notin> set (snd (raw_lines bs))"
  by (induction bs) (auto split: prod.splits list.splits)

text \<open>Nothing is lost: the lines with their terminators, then the rest, are the string.\<close>

lemma raw_lines_concat: "concat (map (\<lambda>l. l @ [10]) (fst (raw_lines bs))) @ snd (raw_lines bs) = bs"
  by (induction bs) (auto split: prod.splits list.splits)

lemma raw_lines_length: "(\<Sum>l\<leftarrow>fst (raw_lines bs). length l + 1) + length (snd (raw_lines bs)) = length bs"
  by (induction bs) (auto split: prod.splits list.splits)

lemma located_append:
  "located off n (xs @ ys) =
     located off n xs @ located (off + (\<Sum>l\<leftarrow>xs. length l + 1)) (n + length xs) ys"
  by (induction xs arbitrary: off n) (auto simp: algebra_simps)

lemma map_bytes_located [simp]: "map cl_bytes (located off n ls) = map strip_cr ls"
  by (induction ls arbitrary: off n) auto

lemma length_strip_cr: "length (strip_cr l) \<le> length l"
  by (simp add: strip_cr_def)

section \<open>What one read does\<close>

definition newlines :: "nat \<Rightarrow> bytes \<Rightarrow> nat list" where
  "newlines k p = filter (\<lambda>i. p ! i = 10) [k ..< length p]"

lemma newlines_at:
  "newlines (length pre) (pre @ b # bs) =
     (if b = 10 then length pre # newlines (length (pre @ [b])) ((pre @ [b]) @ bs)
      else newlines (length (pre @ [b])) ((pre @ [b]) @ bs))"
proof -
  have "[length pre ..< length (pre @ b # bs)] = length pre # [Suc (length pre) ..< length (pre @ b # bs)]"
    by (rule upt_conv_Cons) simp
  then show ?thesis by (simp add: newlines_def del: upt_Suc)
qed

lemma newlines_skip:
  "10 \<notin> set l \<Longrightarrow> newlines (length pre) (pre @ l @ bs) = newlines (length (pre @ l)) ((pre @ l) @ bs)"
proof (induction l arbitrary: pre)
  case (Cons b l)
  from Cons.IH [of "pre @ [b]"] Cons.prems show ?case by (simp add: newlines_at)
qed simp

lemma newlines_none: "10 \<notin> set bs \<Longrightarrow> newlines (length pre) (pre @ bs) = []"
  using newlines_skip [of bs pre "[]"] by (simp add: newlines_def)

lemma newlines_first:
  "10 \<notin> set l \<Longrightarrow> newlines (length pre) (pre @ l @ 10 # r)
           = (length pre + length l) # newlines (length (pre @ l @ [10])) ((pre @ l @ [10]) @ r)"
  using newlines_at [of "pre @ l" 10 r] newlines_skip [of l pre "10 # r"] by simp

lemma line_end_at_line:
  "line_end_at (pre @ l @ 10 # r) (length pre) (length pre + length l) = length pre + length (strip_cr l)"
  by (cases l rule: rev_cases) (simp_all add: line_end_at_def strip_cr_def nth_append)

lemma strip_cr_prefix: "take (length (strip_cr l)) l = strip_cr l"
  by (simp add: strip_cr_def butlast_conv_take)

lemma frame_lines_newline:
  assumes "10 \<notin> set l"
  shows "frame_lines (pre @ l @ 10 # r) off (newlines (length pre) (pre @ l @ 10 # r)) (length pre) n acc =
     (if length (strip_cr l) > MAX_TRANSCRIPT_LINE_BYTES then
        Inl (LineTooLong (length (strip_cr l)) MAX_TRANSCRIPT_LINE_BYTES (off + length pre), n)
      else frame_lines ((pre @ l @ [10]) @ r) off (newlines (length (pre @ l @ [10])) ((pre @ l @ [10]) @ r))
             (length (pre @ l @ [10])) (n + 1) (acc @ located (off + length pre) n [l]))"
  using line_end_at_line [of pre l r]
  by (simp add: newlines_first [OF assms] strip_cr_prefix length_strip_cr Let_def)

lemma frame_lines_ok:
  assumes "\<forall>l \<in> set (fst (raw_lines bs)). length (strip_cr l) \<le> MAX_TRANSCRIPT_LINE_BYTES"
  shows "frame_lines (pre @ bs) off (newlines (length pre) (pre @ bs)) (length pre) n acc =
     Inr (acc @ located (off + length pre) n (fst (raw_lines bs)),
          length pre + (length bs - length (snd (raw_lines bs))), n + length (fst (raw_lines bs)))"
  using assms
proof (induction "length bs" arbitrary: bs pre n acc rule: less_induct)
  case less
  show ?case
  proof (cases "10 \<in> set bs")
    case False
    then show ?thesis by (simp add: newlines_none raw_lines_unterminated)
  next
    case True
    then obtain l r where bs: "bs = l @ 10 # r" and l: "10 \<notin> set l" by (meson split_list_first)
    note step = less.hyps [of r "pre @ l @ [10]", where n = "n + 1" and acc = "acc @ located (off + length pre) n [l]"]
    have len: "length (snd (raw_lines r)) \<le> length r"
      using raw_lines_length [of r] by simp
    have "frame_lines (pre @ bs) off (newlines (length pre) (pre @ bs)) (length pre) n acc =
        frame_lines ((pre @ l @ [10]) @ r) off (newlines (length (pre @ l @ [10])) ((pre @ l @ [10]) @ r))
             (length (pre @ l @ [10])) (n + 1) (acc @ located (off + length pre) n [l])"
      unfolding bs frame_lines_newline [OF l] using less.prems bs l by (simp add: raw_lines_line)
    also have "\<dots> = Inr (acc @ located (off + length pre) n (fst (raw_lines bs)),
          length pre + (length bs - length (snd (raw_lines bs))), n + length (fst (raw_lines bs)))"
      using len less.prems bs l by (subst step) (auto simp: raw_lines_line add_ac)
    finally show ?thesis .
  qed
qed

lemma frame_lines_err:
  assumes "\<exists>l \<in> set (fst (raw_lines bs)). length (strip_cr l) > MAX_TRANSCRIPT_LINE_BYTES"
  shows "\<exists>b a m. frame_lines (pre @ bs) off (newlines (length pre) (pre @ bs)) (length pre) n acc
           = Inl (LineTooLong b MAX_TRANSCRIPT_LINE_BYTES a, m)"
  using assms
proof (induction "length bs" arbitrary: bs pre n acc rule: less_induct)
  case less
  have "10 \<in> set bs"
    using less.prems by (auto intro: ccontr simp: raw_lines_unterminated)
  then obtain l r where bs: "bs = l @ 10 # r" and l: "10 \<notin> set l" by (meson split_list_first)
  show ?case
  proof (cases "length (strip_cr l) > MAX_TRANSCRIPT_LINE_BYTES")
    case True
    with l bs show ?thesis by (simp add: frame_lines_newline)
  next
    case False
    with less.hyps [of r "pre @ l @ [10]" "n + 1"] less.prems bs l show ?thesis
      by (auto simp: frame_lines_newline raw_lines_line simp del: append_assoc)
  qed
qed

text \<open>Between two reads: every buffered byte has been scanned, none of them ends a line, and the buffer
  lies right before the next offset.\<close>

definition cursor_ok :: "transcript_cursor \<Rightarrow> bool" where
  "cursor_ok c \<longleftrightarrow>
     tc_scan_from c = length (tc_pending c) \<and> 10 \<notin> set (tc_pending c)
     \<and> tc_pending_offset c + length (tc_pending c) = tc_next_offset c
     \<and> tc_next_offset c \<le> tc_observed_len c
     \<and> tc_next_line_number c \<le> tc_pending_offset c + 1"

definition within_limit :: "bytes list \<times> bytes \<Rightarrow> bool" where
  "within_limit lr \<longleftrightarrow>
     (\<forall>l \<in> set (fst lr). length (strip_cr l) \<le> MAX_TRANSCRIPT_LINE_BYTES)
     \<and> length (snd lr) \<le> MAX_TRANSCRIPT_LINE_BYTES"

text \<open>The cursor after a read of \<open>bs\<close> that framed \<open>ls\<close> and left \<open>r\<close>.\<close>

definition after_read :: "bytes \<Rightarrow> bytes list \<times> bytes \<Rightarrow> transcript_cursor \<Rightarrow> transcript_cursor" where
  "after_read bs lr c =
     c\<lparr>tc_next_offset := tc_next_offset c + length bs,
       tc_pending_offset := tc_next_offset c + length bs - length (snd lr), tc_pending := snd lr,
       tc_scan_from := length (snd lr), tc_next_line_number := tc_next_line_number c + length (fst lr)\<rparr>"

lemma drop_raw_lines: "drop (length bs - length (snd (raw_lines bs))) bs = snd (raw_lines bs)"
  by (subst (3) raw_lines_concat [of bs, symmetric], subst (1) raw_lines_concat [of bs, symmetric])
     (simp del: raw_lines_concat)

lemma length_rest: "length (snd (raw_lines bs)) \<le> length bs"
  using raw_lines_length [of bs] by simp

lemma newlines_scanned:
  "cursor_ok c \<Longrightarrow> newlines (tc_scan_from c) (tc_pending c @ bs) = newlines 0 (tc_pending c @ bs)"
  using newlines_skip [of "tc_pending c" "[]" bs] by (simp add: cursor_ok_def)

lemma push_within_limit:
  assumes ok: "cursor_ok c" and id: "tc_identity c = Some ident"
    and len: "tc_next_offset c + length bs \<le> tc_observed_len c" "tc_observed_len c \<le> u64_max"
    and lim: "within_limit (raw_lines (tc_pending c @ bs))"
  defines "lr \<equiv> raw_lines (tc_pending c @ bs)"
  shows "push ident (tc_next_offset c) bs c =
     (Inr \<lparr>cu_lines = located (tc_pending_offset c) (tc_next_line_number c) (fst lr),
           cu_next_offset = tc_next_offset c + length bs, cu_pending_bytes = length (snd lr),
           cu_generation = tc_generation c\<rparr>, after_read bs lr c)"
proof -
  let ?p = "tc_pending c @ bs"
  have off: "(if tc_pending c = [] then tc_next_offset c else tc_pending_offset c) = tc_pending_offset c"
    using ok by (auto simp: cursor_ok_def)
  have frame: "frame_lines ?p (tc_pending_offset c) (newlines (tc_scan_from c) ?p) 0 (tc_next_line_number c) []
      = Inr (located (tc_pending_offset c) (tc_next_line_number c) (fst lr), length ?p - length (snd lr),
             tc_next_line_number c + length (fst lr))"
    using frame_lines_ok [of ?p "[]" "tc_pending_offset c"] lim
    by (simp add: newlines_scanned [OF ok] within_limit_def lr_def)
  have rest: "drop (length ?p - length (snd lr)) ?p = snd lr" "length (snd lr) \<le> length ?p"
    unfolding lr_def by (rule drop_raw_lines, rule length_rest)
  have at: "tc_pending_offset c + (length ?p - length (snd lr)) = tc_next_offset c + length bs - length (snd lr)"
    using ok rest(2) by (auto simp: cursor_ok_def)
  show ?thesis
    using len lim rest at unfolding push_def off newlines_def [symmetric]
    by (simp add: id off frame Let_def within_limit_def lr_def [symmetric] after_read_def del: length_append)
qed

lemma push_over_limit:
  assumes ok: "cursor_ok c" and id: "tc_identity c = Some ident"
    and len: "tc_next_offset c + length bs \<le> tc_observed_len c" "tc_observed_len c \<le> u64_max"
    and lim: "\<not> within_limit (raw_lines (tc_pending c @ bs))"
  shows "\<exists>b a. fst (push ident (tc_next_offset c) bs c) = Inl (LineTooLong b MAX_TRANSCRIPT_LINE_BYTES a)"
proof -
  let ?p = "tc_pending c @ bs" and ?lr = "raw_lines (tc_pending c @ bs)"
  have off: "(if tc_pending c = [] then tc_next_offset c else tc_pending_offset c) = tc_pending_offset c"
    using ok by (auto simp: cursor_ok_def)
  show ?thesis
  proof (cases "\<exists>l \<in> set (fst ?lr). length (strip_cr l) > MAX_TRANSCRIPT_LINE_BYTES")
    case True
    from frame_lines_err [OF this, of "[]" "tc_pending_offset c" "tc_next_line_number c" "[]"] obtain b a m where
      "frame_lines ?p (tc_pending_offset c) (newlines (tc_scan_from c) ?p) 0 (tc_next_line_number c) []
         = Inl (LineTooLong b MAX_TRANSCRIPT_LINE_BYTES a, m)"
      by (auto simp: newlines_scanned [OF ok])
    with len show ?thesis unfolding push_def off newlines_def [symmetric]
      by (simp add: id off Let_def del: length_append)
  next
    case False
    with lim have long: "length (snd ?lr) > MAX_TRANSCRIPT_LINE_BYTES" by (auto simp: within_limit_def)
    from False have "\<forall>l \<in> set (fst ?lr). length (strip_cr l) \<le> MAX_TRANSCRIPT_LINE_BYTES" by (meson not_le)
    from frame_lines_ok [OF this, of "[]" "tc_pending_offset c" "tc_next_line_number c" "[]"]
    have "frame_lines ?p (tc_pending_offset c) (newlines (tc_scan_from c) ?p) 0 (tc_next_line_number c) []
      = Inr (located (tc_pending_offset c) (tc_next_line_number c) (fst ?lr), length ?p - length (snd ?lr),
             tc_next_line_number c + length (fst ?lr))"
      by (simp add: newlines_scanned [OF ok])
    with len long length_rest [of ?p] show ?thesis unfolding push_def off newlines_def [symmetric]
      by (simp add: id off Let_def drop_raw_lines del: length_append drop_append)
  qed
qed

lemma lines_fit: "length (fst (raw_lines bs)) + length (snd (raw_lines bs)) \<le> length bs"
proof -
  have "length ls \<le> (\<Sum>l\<leftarrow>ls. length l + 1)" for ls :: "bytes list" by (induction ls) auto
  from this [of "fst (raw_lines bs)"] raw_lines_length [of bs] show ?thesis by linarith
qed

lemma after_read_ok:
  assumes "cursor_ok c" and "tc_next_offset c + length bs \<le> tc_observed_len c"
  shows "cursor_ok (after_read bs (raw_lines (tc_pending c @ bs)) c)"
  using assms lines_fit [of "tc_pending c @ bs"] raw_lines_rest_unterminated [of "tc_pending c @ bs"]
  by (auto simp: cursor_ok_def after_read_def)

section \<open>A file read as it grows\<close>

text \<open>What a tail of a growing file does: observe the file each time it has grown by a chunk, read exactly
  the range the observation names, push it.\<close>

fun read_growing ::
  "file_identity \<Rightarrow> bytes list \<Rightarrow> transcript_cursor \<Rightarrow> (transcript_error + complete_line list) \<times> transcript_cursor" where
  "read_growing ident [] c = (Inr [], c)"
| "read_growing ident (chunk # chunks) c =
     (case observe \<lparr>fm_identity = ident, fm_len = tc_next_offset c + length chunk\<rparr> c of
        (obs, c1) \<Rightarrow>
          (case push ident (co_read_from obs) chunk c1 of
             (Inl e, c2) \<Rightarrow> (Inl e, c2)
           | (Inr u, c2) \<Rightarrow>
               (case read_growing ident chunks c2 of
                  (Inl e, c3) \<Rightarrow> (Inl e, c3)
                | (Inr ls, c3) \<Rightarrow> (Inr (cu_lines u @ ls), c3))))"

text \<open>Every line, its carriage return included, and the unfinished rest fit the limit.\<close>

definition all_fit :: "bytes \<Rightarrow> bool" where
  "all_fit bs \<longleftrightarrow>
     (\<forall>l \<in> set (snd (raw_lines bs) # fst (raw_lines bs)). length l \<le> MAX_TRANSCRIPT_LINE_BYTES)"

lemma all_fit_prefix:
  assumes "all_fit (xs @ ys)"
  shows "all_fit xs" and "all_fit (snd (raw_lines xs) @ ys)"
proof -
  let ?q = "snd (raw_lines xs)"
  from assms show tail: "all_fit (?q @ ys)"
    unfolding all_fit_def raw_lines_append [of xs ys] by auto
  have "length ?q \<le> MAX_TRANSCRIPT_LINE_BYTES"
  proof (cases "10 \<in> set ys")
    case True
    then obtain l r where "ys = l @ 10 # r" "10 \<notin> set l" by (meson split_list_first)
    with tail raw_lines_line [of "?q @ l" r] raw_lines_rest_unterminated [of xs] show ?thesis
      by (simp add: all_fit_def)
  next
    case False
    with tail raw_lines_unterminated [of "?q @ ys"] raw_lines_rest_unterminated [of xs] show ?thesis
      by (simp add: all_fit_def)
  qed
  with assms show "all_fit xs" unfolding all_fit_def raw_lines_append [of xs ys] by auto
qed

lemma all_fit_within: "all_fit bs \<Longrightarrow> within_limit (raw_lines bs)"
  using length_strip_cr order_trans unfolding all_fit_def within_limit_def by fastforce

lemma observe_grown:
  assumes "tc_identity c = Some ident"
  shows "observe \<lparr>fm_identity = ident, fm_len = tc_next_offset c + n\<rparr> c =
    (\<lparr>co_change = Unchanged, co_read_from = tc_next_offset c, co_read_to = tc_next_offset c + n,
      co_generation = tc_generation c\<rparr>, c\<lparr>tc_observed_len := tc_next_offset c + n\<rparr>)"
  using assms by (simp add: observe_def)

lemma read_growing_spec:
  assumes "cursor_ok c" and "tc_identity c = Some ident"
    and "tc_next_offset c + length (concat chunks) \<le> u64_max"
    and "all_fit (tc_pending c @ concat chunks)"
  shows "\<exists>c'. read_growing ident chunks c =
      (Inr (located (tc_pending_offset c) (tc_next_line_number c)
              (fst (raw_lines (tc_pending c @ concat chunks)))), c')
    \<and> tc_pending c' = snd (raw_lines (tc_pending c @ concat chunks))
    \<and> tc_next_offset c' = tc_next_offset c + length (concat chunks) \<and> cursor_ok c'"
  using assms
proof (induction chunks arbitrary: c)
  case Nil
  then show ?case by (auto simp: cursor_ok_def raw_lines_unterminated)
next
  case (Cons chunk chunks)
  let ?lr = "raw_lines (tc_pending c @ chunk)"
  define c1 where "c1 = c\<lparr>tc_observed_len := tc_next_offset c + length chunk\<rparr>"
  define c2 where "c2 = after_read chunk ?lr c1"
  have c1: "cursor_ok c1" "tc_identity c1 = Some ident" "tc_pending c1 = tc_pending c"
    "tc_next_offset c1 + length chunk \<le> tc_observed_len c1" "tc_observed_len c1 \<le> u64_max"
    "tc_next_offset c1 = tc_next_offset c" "tc_pending_offset c1 = tc_pending_offset c"
    "tc_next_line_number c1 = tc_next_line_number c"
    using Cons.prems by (auto simp: c1_def cursor_ok_def)
  have fit: "all_fit (tc_pending c @ chunk)" "all_fit (snd ?lr @ concat chunks)"
    using all_fit_prefix [of "tc_pending c @ chunk" "concat chunks"] Cons.prems(4) by simp_all
  have push: "push ident (tc_next_offset c) chunk c1 =
     (Inr \<lparr>cu_lines = located (tc_pending_offset c) (tc_next_line_number c) (fst ?lr),
           cu_next_offset = tc_next_offset c + length chunk, cu_pending_bytes = length (snd ?lr),
           cu_generation = tc_generation c1\<rparr>, c2)"
    using push_within_limit [OF c1(1,2,4,5)] all_fit_within [OF fit(1)] by (simp add: c1(3,6-8) c2_def)
  have c2: "cursor_ok c2" "tc_identity c2 = Some ident" "tc_pending c2 = snd ?lr"
    "tc_next_offset c2 = tc_next_offset c + length chunk"
    "tc_next_line_number c2 = tc_next_line_number c + length (fst ?lr)"
    "tc_pending_offset c2 = tc_pending_offset c + (\<Sum>l\<leftarrow>fst ?lr. length l + 1)"
    using after_read_ok [OF c1(1,4)] c1 raw_lines_length [of "tc_pending c @ chunk"] Cons.prems(1)
    by (auto simp: c2_def after_read_def cursor_ok_def)
  obtain c' where rec: "read_growing ident chunks c2 =
      (Inr (located (tc_pending_offset c2) (tc_next_line_number c2)
              (fst (raw_lines (snd ?lr @ concat chunks)))), c')"
    "tc_pending c' = snd (raw_lines (snd ?lr @ concat chunks))"
    "tc_next_offset c' = tc_next_offset c2 + length (concat chunks)" "cursor_ok c'"
    using Cons.IH [of c2] c2 Cons.prems(3) fit(2) by auto
  have whole: "raw_lines (tc_pending c @ chunk @ concat chunks) =
      (fst ?lr @ fst (raw_lines (snd ?lr @ concat chunks)), snd (raw_lines (snd ?lr @ concat chunks)))"
    using raw_lines_append [of "tc_pending c @ chunk" "concat chunks"] by simp
  show ?case
    using rec c2(4-6) by (simp add: whole observe_grown [OF Cons.prems(2)] push located_append flip: c1_def)
qed

section \<open>Properties\<close>

text \<open>A JSONL file: each record and its newline.\<close>

definition jsonl :: "bytes list \<Rightarrow> bytes" where
  "jsonl rs = concat (map (\<lambda>r. r @ [10]) rs)"

lemma raw_lines_jsonl:
  "\<forall>r \<in> set rs. 10 \<notin> set r \<Longrightarrow> 10 \<notin> set partial \<Longrightarrow> raw_lines (jsonl rs @ partial) = (rs, partial)"
  by (induction rs) (auto simp: jsonl_def raw_lines_unterminated raw_lines_line)

lemma seek_to_eof_ok: "cursor_ok (seek_to_eof m c)"
  by (simp add: seek_to_eof_def reset_for_def cursor_ok_def)

lemma map_strip_cr_id: "\<forall>r \<in> set rs. r = [] \<or> last r \<noteq> 13 \<Longrightarrow> map strip_cr rs = rs"
  by (induction rs) (auto simp: strip_cr_def)

text \<open>C25: Whatever way the writer's appends are cut into reads, a cursor placed at the end of the file
  delivers exactly the records appended since: each once, in order, byte for byte; and an unfinished
  last record is held back, not delivered. (Records contain no newline, do not end in a carriage return,
  and fit the 16 MiB limit.)\<close>

theorem appended_records_are_delivered_exactly:
  assumes "concat chunks = jsonl rs @ partial"
    and "\<forall>r \<in> set rs. 10 \<notin> set r \<and> (r = [] \<or> last r \<noteq> 13) \<and> length r \<le> MAX_TRANSCRIPT_LINE_BYTES"
    and "10 \<notin> set partial" and "length partial \<le> MAX_TRANSCRIPT_LINE_BYTES"
    and "fm_len m + length (concat chunks) \<le> u64_max"
  shows "\<exists>ls c'. read_growing (fm_identity m) chunks (seek_to_eof m c) = (Inr ls, c')
      \<and> map cl_bytes ls = rs \<and> (has_partial_line c' \<longleftrightarrow> partial \<noteq> [])
      \<and> tc_next_offset c' = fm_len m + length (concat chunks)"
proof -
  let ?c = "seek_to_eof m c"
  have raw: "raw_lines (concat chunks) = (rs, partial)"
    using assms raw_lines_jsonl [of rs partial] by auto
  have "tc_identity ?c = Some (fm_identity m)" "tc_pending ?c = []" "tc_next_offset ?c = fm_len m"
    by (simp_all add: seek_to_eof_def reset_for_def)
  moreover have "all_fit (concat chunks)" using assms raw by (simp add: all_fit_def)
  moreover have "map strip_cr rs = rs" using assms(2) by (intro map_strip_cr_id) blast
  ultimately show ?thesis
    using read_growing_spec [OF seek_to_eof_ok, of m c "fm_identity m" chunks] assms(5)
    by (auto simp: raw has_partial_line_def)
qed

theorem appended_records_are_delivered_exactly_witness:
  "let m = \<lparr>fm_identity = \<lparr>fi_device = 1, fi_inode = 2\<rparr>, fm_len = 7\<rparr>
   in \<exists>ls c'. read_growing (fm_identity m) [[1, 2], [3, 10, 4], [10, 5]] (seek_to_eof m cursor_new) = (Inr ls, c')
      \<and> map cl_bytes ls = [[1, 2, 3], [4]] \<and> (has_partial_line c' \<longleftrightarrow> [5 :: byte] \<noteq> [])
      \<and> tc_next_offset c' = fm_len m + length (concat [[1, 2], [3, 10, 4], [10, 5 :: byte]])"
  unfolding Let_def
  by (rule appended_records_are_delivered_exactly)
     (simp_all add: jsonl_def u64_max_def MAX_TRANSCRIPT_LINE_BYTES_def)

text \<open>C26: A read refines the reference splitter. On a cursor between two reads, with the identity and range
  the last observation named, \<open>push\<close> succeeds exactly when every line of buffer and read together, and
  the rest, is within the limit; then the lines it returns are the reference's, each at its byte offset
  and line number, the rest stays buffered, and the cursor is again between two reads. Otherwise it
  reports the limit.\<close>

theorem push_refines_the_splitter:
  assumes "cursor_ok c" and "tc_identity c = Some ident"
    and "tc_next_offset c + length bs \<le> tc_observed_len c" and "tc_observed_len c \<le> u64_max"
  shows "case push ident (tc_next_offset c) bs c of
           (Inr u, c') \<Rightarrow> within_limit (raw_lines (tc_pending c @ bs))
             \<and> cu_lines u = located (tc_pending_offset c) (tc_next_line_number c) (fst (raw_lines (tc_pending c @ bs)))
             \<and> tc_pending c' = snd (raw_lines (tc_pending c @ bs))
             \<and> tc_next_offset c' = tc_next_offset c + length bs \<and> cursor_ok c'
         | (Inl e, c') \<Rightarrow> \<not> within_limit (raw_lines (tc_pending c @ bs))
             \<and> (\<exists>b a. e = LineTooLong b MAX_TRANSCRIPT_LINE_BYTES a)"
proof (cases "within_limit (raw_lines (tc_pending c @ bs))")
  case True
  from push_within_limit [OF assms this] True after_read_ok [OF assms(1,3)] show ?thesis
    by (simp add: after_read_def)
next
  case False
  from push_over_limit [OF assms this] False show ?thesis by (auto split: prod.splits)
qed

definition sample_cursor :: transcript_cursor where
  "sample_cursor =
     cursor_new\<lparr>tc_identity := Some \<lparr>fi_device = 1, fi_inode = 2\<rparr>, tc_observed_len := 9, tc_next_offset := 2,
       tc_pending := [65, 66], tc_scan_from := 2\<rparr>"

theorem push_refines_the_splitter_witness:
  "case push \<lparr>fi_device = 1, fi_inode = 2\<rparr> (tc_next_offset sample_cursor) [13, 10, 67] sample_cursor of
           (Inr u, c') \<Rightarrow> within_limit (raw_lines (tc_pending sample_cursor @ [13, 10, 67]))
             \<and> cu_lines u = located (tc_pending_offset sample_cursor) (tc_next_line_number sample_cursor)
                              (fst (raw_lines (tc_pending sample_cursor @ [13, 10, 67])))
             \<and> tc_pending c' = snd (raw_lines (tc_pending sample_cursor @ [13, 10, 67]))
             \<and> tc_next_offset c' = tc_next_offset sample_cursor + length [13, 10, 67 :: byte] \<and> cursor_ok c'
         | (Inl e, c') \<Rightarrow> \<not> within_limit (raw_lines (tc_pending sample_cursor @ [13, 10, 67]))
             \<and> (\<exists>b a. e = LineTooLong b MAX_TRANSCRIPT_LINE_BYTES a)"
  by (rule push_refines_the_splitter)
     (simp_all add: sample_cursor_def cursor_new_def cursor_ok_def u64_max_def)

text \<open>
  The limit counts a trailing carriage return that is still buffered, but not one that its newline follows in the
  same read: a record of exactly the limit ended by CR LF is accepted whole and refused when the read
  ends between the two.
\<close>

definition limit_record :: bytes where
  "limit_record = replicate MAX_TRANSCRIPT_LINE_BYTES 65"

lemma crlf_record_at_the_limit:
  "within_limit (raw_lines (limit_record @ [13, 10]))" "\<not> within_limit (raw_lines (limit_record @ [13]))"
proof -
  have no: "10 \<notin> set (limit_record @ [13])" by (simp add: limit_record_def)
  have "strip_cr (limit_record @ [13]) = limit_record" by (simp add: strip_cr_def)
  with raw_lines_line [OF no, of "[]"] show "within_limit (raw_lines (limit_record @ [13, 10]))"
    by (simp add: within_limit_def limit_record_def)
  from raw_lines_unterminated [OF no] show "\<not> within_limit (raw_lines (limit_record @ [13]))"
    by (simp add: within_limit_def limit_record_def)
qed

end
