(* ===== verification/Parser.thy ===== *)
theory Parser
  imports Cursor
begin

text \<open>
  The row decoder, \<open>src/crates/claude/src/parser.rs\<close>. \<open>ParseMode\<close> has the one constructor \<open>Strict\<close>, so
  the arms that test it are the strict ones. Decoding a line's JSON is \<open>serde_json::from_slice\<close>, the parameter
  \<open>from_slice\<close>; \<open>str::from_utf8\<close> is \<open>is_utf8\<close>, the well-formed byte sequences of the Unicode standard.
\<close>

section \<open>UTF-8\<close>

definition in_range :: "nat \<Rightarrow> nat \<Rightarrow> byte \<Rightarrow> bool" where
  "in_range lo hi b \<longleftrightarrow> lo \<le> unat b \<and> unat b \<le> hi"

fun is_utf8 :: "bytes \<Rightarrow> bool" where
  "is_utf8 [] = True"
| "is_utf8 (b # bs) =
     (if in_range 0 0x7f b then is_utf8 bs
      else case bs of
        [] \<Rightarrow> False
      | b1 # r1 \<Rightarrow>
          if in_range 0xc2 0xdf b then in_range 0x80 0xbf b1 \<and> is_utf8 r1
          else case r1 of
            [] \<Rightarrow> False
          | b2 # r2 \<Rightarrow>
              if in_range 0xe0 0xe0 b then in_range 0xa0 0xbf b1 \<and> in_range 0x80 0xbf b2 \<and> is_utf8 r2
              else if in_range 0xed 0xed b then in_range 0x80 0x9f b1 \<and> in_range 0x80 0xbf b2 \<and> is_utf8 r2
              else if in_range 0xe1 0xef b then in_range 0x80 0xbf b1 \<and> in_range 0x80 0xbf b2 \<and> is_utf8 r2
              else case r2 of
                [] \<Rightarrow> False
              | b3 # r3 \<Rightarrow>
                  (in_range 0xf0 0xf0 b \<and> in_range 0x90 0xbf b1
                    \<or> in_range 0xf1 0xf3 b \<and> in_range 0x80 0xbf b1
                    \<or> in_range 0xf4 0xf4 b \<and> in_range 0x80 0x8f b1)
                  \<and> in_range 0x80 0xbf b2 \<and> in_range 0x80 0xbf b3 \<and> is_utf8 r3)"

section \<open>Fields\<close>

definition schema :: "utext option \<Rightarrow> string \<Rightarrow> string \<Rightarrow> transcript_error" where
  "schema row_uuid path msg = SchemaDrift row_uuid path (Says msg)"

definition optional_string ::
  "object \<Rightarrow> string \<Rightarrow> string \<Rightarrow> utext option \<Rightarrow> transcript_error + utext option" where
  "optional_string obj key parent row_uuid =
     (case get obj key of
        None \<Rightarrow> Inr None
      | Some VNull \<Rightarrow> Inr None
      | Some (VString v) \<Rightarrow> Inr (Some v)
      | Some _ \<Rightarrow> Inl (schema row_uuid (parent @ ''.'' @ key) ''field must be a string''))"

definition optional_nullable_string ::
  "object \<Rightarrow> string \<Rightarrow> string \<Rightarrow> utext option \<Rightarrow> transcript_error + utext option" where
  "optional_nullable_string obj key parent row_uuid = optional_string obj key parent row_uuid"

definition optional_bool ::
  "object \<Rightarrow> string \<Rightarrow> string \<Rightarrow> utext option \<Rightarrow> transcript_error + bool option" where
  "optional_bool obj key parent row_uuid =
     (case get obj key of
        None \<Rightarrow> Inr None
      | Some VNull \<Rightarrow> Inr None
      | Some (VBool v) \<Rightarrow> Inr (Some v)
      | Some _ \<Rightarrow> Inl (schema row_uuid (parent @ ''.'' @ key) ''field must be a boolean''))"

definition unwrap_or :: "'a \<Rightarrow> 'a option \<Rightarrow> 'a" where
  "unwrap_or d v = (case v of None \<Rightarrow> d | Some x \<Rightarrow> x)"

definition TEAM_FIELDS :: "string list" where
  "TEAM_FIELDS = [''teamName'', ''teamId'', ''teammateName'', ''teammateId'', ''agentName'', ''agentId'']"

definition parse_scope :: "object \<Rightarrow> utext option \<Rightarrow> transcript_error + row_scope" where
  "parse_scope obj row_uuid =
     bind_r (optional_bool obj ''isMeta'' ''$'' row_uuid) (\<lambda>meta.
       if unwrap_or False meta then Inr Meta
       else if list_ex (\<lambda>f. case get obj f of None \<Rightarrow> False | Some v \<Rightarrow> v \<noteq> VNull) TEAM_FIELDS then Inr Team
       else bind_r (optional_bool obj ''isSidechain'' ''$'' row_uuid) (\<lambda>side.
         if unwrap_or False side then Inr Sidechain else Inr Main))"

section \<open>Content\<close>

definition get_str :: "object \<Rightarrow> string \<Rightarrow> utext option" where
  "get_str obj key = Option.bind (get obj key) as_str"

definition parse_content_block :: "jvalue \<Rightarrow> content_block" where
  "parse_content_block v =
     (case as_object v of
        None \<Rightarrow> UnknownBlock None v
      | Some obj \<Rightarrow>
          let declared = get_str obj ''type''
          in if declared = Some (ascii ''text'') then
               (case get_str obj ''text'' of Some t \<Rightarrow> Text t | None \<Rightarrow> UnknownBlock declared v)
             else if declared = Some (ascii ''thinking'') then
               (case get_str obj ''thinking'' of Some t \<Rightarrow> Thinking t | None \<Rightarrow> UnknownBlock declared v)
             else if declared = Some (ascii ''tool_use'') then
               (case (get_str obj ''id'', get_str obj ''name'') of
                  (Some ident, Some name) \<Rightarrow> ToolUse ident name (unwrap_or VNull (get obj ''input''))
                | _ \<Rightarrow> UnknownBlock declared v)
             else UnknownBlock declared v)"

definition usage_token :: "object \<Rightarrow> utext option \<Rightarrow> string \<Rightarrow> transcript_error + u64" where
  "usage_token obj row_uuid name =
     bind_r
       (case get obj name of
          None \<Rightarrow> Inr 0
        | Some VNull \<Rightarrow> Inr 0
        | Some v \<Rightarrow>
            ok_or_else (schema row_uuid (''$.message.usage.'' @ name) ''token count must be a non-negative integer'')
              (as_u64 v))
       (\<lambda>n. if n > MAX_SAFE_JSON_INTEGER
             then Inl (schema row_uuid (''$.message.usage.'' @ name)
                         ''token count exceeds protocol-v1's safe-integer maximum'')
             else Inr n)"

definition TOKEN_FIELDS :: "string list" where
  "TOKEN_FIELDS =
     [''input_tokens'', ''output_tokens'', ''cache_creation_input_tokens'', ''cache_read_input_tokens'']"

definition parse_usage :: "jvalue \<Rightarrow> utext option \<Rightarrow> transcript_error + usage_snapshot" where
  "parse_usage v row_uuid =
     (case as_object v of
        None \<Rightarrow> Inl (schema row_uuid ''$.message.usage'' ''usage must be an object'')
      | Some obj \<Rightarrow>
          bind_r (usage_token obj row_uuid ''input_tokens'') (\<lambda>i.
          bind_r (usage_token obj row_uuid ''output_tokens'') (\<lambda>out.
          bind_r (usage_token obj row_uuid ''cache_creation_input_tokens'') (\<lambda>cc.
          bind_r (usage_token obj row_uuid ''cache_read_input_tokens'') (\<lambda>cr.
            if \<not> list_ex (\<lambda>(k, _). list_ex (\<lambda>f. k = ascii f) TOKEN_FIELDS) obj
            then Inl (schema row_uuid ''$.message.usage'' ''usage has no recognized token fields'')
            else Inr \<lparr>us_tokens = \<lparr>tu_input = i, tu_output = out, tu_cache_creation = cc, tu_cache_read = cr\<rparr>,
                      us_raw = v\<rparr>)))))"

definition message_object :: "object \<Rightarrow> object option" where
  "message_object obj = Option.bind (get obj ''message'') as_object"

definition message_usage :: "object \<Rightarrow> utext option \<Rightarrow> transcript_error + usage_snapshot option" where
  "message_usage msg row_uuid =
     (case get msg ''usage'' of
        None \<Rightarrow> Inr None
      | Some VNull \<Rightarrow> Inr None
      | Some v \<Rightarrow> bind_r (parse_usage v row_uuid) (\<lambda>u. Inr (Some u)))"

definition parse_assistant :: "object \<Rightarrow> utext option \<Rightarrow> transcript_error + row_kind" where
  "parse_assistant obj row_uuid =
     (case message_object obj of
        None \<Rightarrow> Inl (schema row_uuid ''$.message'' ''assistant message must be an object'')
      | Some msg \<Rightarrow>
          (case Option.bind (get msg ''content'') as_array of
             None \<Rightarrow> Inl (schema row_uuid ''$.message.content'' ''assistant content must be an array'')
           | Some content \<Rightarrow>
               bind_r (optional_bool obj ''isApiErrorMessage'' ''$'' row_uuid) (\<lambda>top_level_api_error.
               bind_r (optional_bool msg ''isApiErrorMessage'' ''$.message'' row_uuid) (\<lambda>message_api_error.
               bind_r (message_usage msg row_uuid) (\<lambda>usage.
               bind_r (optional_string msg ''id'' ''$.message'' row_uuid) (\<lambda>message_id.
               bind_r (optional_string obj ''requestId'' ''$'' row_uuid) (\<lambda>request_id.
               bind_r (optional_string msg ''model'' ''$.message'' row_uuid) (\<lambda>model.
               bind_r (optional_nullable_string msg ''stop_reason'' ''$.message'' row_uuid) (\<lambda>stop_reason.
                 Inr (Assistant
                   \<lparr>af_message_id = message_id, af_request_id = request_id, af_model = model,
                    af_blocks = map parse_content_block content, af_stop_reason = stop_reason,
                    af_usage = usage,
                    af_is_api_error = (unwrap_or False top_level_api_error \<or> unwrap_or False message_api_error)\<rparr>)))))))))) "

section \<open>User rows\<close>

text \<open>The loop over a user message's content blocks: the tool results and the first block that is none.\<close>

fun user_blocks ::
  "utext option \<Rightarrow> nat \<Rightarrow> jvalue list \<Rightarrow> tool_result_block list \<Rightarrow> nat option
    \<Rightarrow> transcript_error + tool_result_block list \<times> nat option" where
  "user_blocks row_uuid index [] results unsupported = Inr (results, unsupported)"
| "user_blocks row_uuid index (block # blocks) results unsupported =
     (let skip = user_blocks row_uuid (index + 1) blocks results
                   (if unsupported = None then Some index else unsupported)
      in case as_object block of
           None \<Rightarrow> skip
         | Some obj \<Rightarrow>
             if get_str obj ''type'' \<noteq> Some (ascii ''tool_result'') then skip
             else
               (case get_str obj ''tool_use_id'' of
                  None \<Rightarrow>
                    Inl (schema row_uuid (''$.message.content['' @ to_string index @ ''].tool_use_id'')
                           ''tool result requires a string tool_use_id'')
                | Some ident \<Rightarrow>
                    bind_r (optional_bool obj ''is_error'' (''$.message.content['' @ to_string index @ '']'') row_uuid)
                      (\<lambda>is_error.
                        user_blocks row_uuid (index + 1) blocks
                          (results @ [\<lparr>tr_tool_use_id = ident, tr_content = unwrap_or VNull (get obj ''content''),
                                       tr_is_error = is_error\<rparr>])
                          unsupported)))"

definition parse_user :: "object \<Rightarrow> utext option \<Rightarrow> transcript_error + row_kind" where
  "parse_user obj row_uuid =
     (case message_object obj of
        None \<Rightarrow> Inl (schema row_uuid ''$.message'' ''user message must be an object'')
      | Some msg \<Rightarrow>
          bind_r (optional_string msg ''role'' ''$.message'' row_uuid) (\<lambda>role.
          if role \<noteq> None \<and> role \<noteq> Some (ascii ''user'') then
            Inl (schema row_uuid ''$.message.role'' ''user message role must be \"user\"'')
          else
          bind_r (optional_string obj ''promptSource'' ''$'' row_uuid) (\<lambda>prompt_source.
          if prompt_source = Some (ascii ''typed'') then
            (case get_str msg ''content'' of
               Some prompt \<Rightarrow>
                 bind_r (optional_string obj ''promptId'' ''$'' row_uuid) (\<lambda>prompt_id.
                   Inr (TypedUser prompt prompt_id))
             | None \<Rightarrow> Inl (schema row_uuid ''$.message.content'' ''typed prompt content must be a string''))
          else
            (case Option.bind (get msg ''content'') as_array of
               None \<Rightarrow> Inr UserOther
             | Some content \<Rightarrow>
                 bind_r (user_blocks row_uuid 0 content [] None) (\<lambda>(results, unsupported).
                   case (results, unsupported) of
                     ([], _) \<Rightarrow> Inr UserOther
                   | (_, Some index) \<Rightarrow>
                       Inl (schema row_uuid (''$.message.content['' @ to_string index @ '']'')
                              ''tool result row contains an unknown or malformed sibling block'')
                   | (_, None) \<Rightarrow> Inr (UserToolResults results))))))"

section \<open>Attachments and system rows\<close>

definition is_metadata_record :: "utext \<Rightarrow> bool" where
  "is_metadata_record t \<longleftrightarrow>
     t \<in> set (map ascii
       [''ai-title'', ''mode'', ''permission-mode'', ''progress'', ''file-history-snapshot'',
        ''file-history-delta'', ''queue-operation'', ''summary'', ''last-prompt'', ''pr-link'',
        ''bridge-session'', ''atis-latch'', ''cost-state''])"

definition is_supported_attachment_type :: "utext \<Rightarrow> bool" where
  "is_supported_attachment_type t \<longleftrightarrow>
     t \<in> set (map ascii
       [''agent_listing_delta'', ''command_permissions'', ''compact_file_reference'', ''date_change'',
        ''deferred_tools_delta'', ''deferred_tools_record'', ''edited_text_file'', ''file'',
        ''invoked_skills'', ''plan_mode'', ''queued_command'', ''skill_listing'', ''task_reminder'',
        ''total_tokens_reminder'', ''ultra_effort_enter'', ''workflow_keyword_request'',
        ''remote_session_change'', ''date'', ''environment'', ''model'', ''prompt_snapshot'',
        ''session_context'', ''instructions'', ''mcp_instructions_delta''])"

definition parse_attachment :: "object \<Rightarrow> utext option \<Rightarrow> transcript_error + row_kind" where
  "parse_attachment obj row_uuid =
     (case Option.bind (get obj ''attachment'') as_object of
        None \<Rightarrow> Inl (schema row_uuid ''$.attachment'' ''attachment row payload must be an object'')
      | Some attachment \<Rightarrow>
          bind_r (optional_string attachment ''type'' ''$.attachment'' row_uuid) (\<lambda>ty.
            case ty of
              None \<Rightarrow> Inl (schema row_uuid ''$.attachment.type'' ''attachment type must be a string'')
            | Some t \<Rightarrow>
                if \<not> is_supported_attachment_type t then
                  Inl (SchemaDrift row_uuid ''$.attachment.type'' (SaysText ''unsupported attachment type '' t ''''))
                else Inr (Attachment t)))"

fun reject_semantic_payload_keys :: "object \<Rightarrow> utext option \<Rightarrow> string \<Rightarrow> string list \<Rightarrow> transcript_error + unit" where
  "reject_semantic_payload_keys obj row_uuid subtype [] = Inr ()"
| "reject_semantic_payload_keys obj row_uuid subtype (key # keys) =
     (if get obj key \<noteq> None then
        Inl (schema row_uuid (''$.'' @ key) (subtype @ '' must not contain a semantic payload''))
      else reject_semantic_payload_keys obj row_uuid subtype keys)"

definition reject_semantic_payload :: "object \<Rightarrow> utext option \<Rightarrow> string \<Rightarrow> transcript_error + unit" where
  "reject_semantic_payload obj row_uuid subtype =
     reject_semantic_payload_keys obj row_uuid subtype [''message'', ''content'', ''attachment'']"

definition not_a_count :: "jvalue option \<Rightarrow> bool" where
  "not_a_count v = (case v of None \<Rightarrow> False | Some x \<Rightarrow> as_u64 x = None)"

definition prove_turn_duration_inert :: "object \<Rightarrow> utext option \<Rightarrow> transcript_error + unit" where
  "prove_turn_duration_inert obj row_uuid =
     (if \<not> (case get obj ''pendingWorkflowCount'' of None \<Rightarrow> True | Some v \<Rightarrow> as_u64 v = Some 0) then
        Inl (schema row_uuid ''$.pendingWorkflowCount''
               ''turn_duration announces pending workflow work, so the turn is not proven over'')
      else if not_a_count (get obj ''durationMs'') then
        Inl (schema row_uuid ''$.durationMs'' ''turn_duration durationMs must be a non-negative integer'')
      else if not_a_count (get obj ''messageCount'') then
        Inl (schema row_uuid ''$.messageCount'' ''turn_duration messageCount must be a non-negative integer'')
      else reject_semantic_payload obj row_uuid ''turn_duration'')"

fun require_no_feedback :: "object \<Rightarrow> utext option \<Rightarrow> string list \<Rightarrow> transcript_error + unit" where
  "require_no_feedback obj row_uuid [] = Inr ()"
| "require_no_feedback obj row_uuid (key # keys) =
     (if get obj key = None \<or> get obj key = Some (VArray []) then require_no_feedback obj row_uuid keys
      else Inl (schema row_uuid (''$.'' @ key)
                  ''stop_hook_summary hook feedback must be absent or an empty array''))"

definition prove_stop_hook_summary_inert :: "object \<Rightarrow> utext option \<Rightarrow> transcript_error + unit" where
  "prove_stop_hook_summary_inert obj row_uuid =
     (case get obj ''preventedContinuation'' of
        Some (VBool False) \<Rightarrow>
          bind_r (require_no_feedback obj row_uuid [''hookErrors'', ''hookAdditionalContext'']) (\<lambda>_.
            reject_semantic_payload obj row_uuid ''stop_hook_summary'')
      | Some (VBool True) \<Rightarrow>
          Inl (schema row_uuid ''$.preventedContinuation''
                 ''stop_hook_summary blocked the stop, so the turn may still continue'')
      | _ \<Rightarrow>
          Inl (schema row_uuid ''$.preventedContinuation''
                 ''stop_hook_summary requires preventedContinuation:false to prove inertness''))"

fun require_counts :: "object \<Rightarrow> utext option \<Rightarrow> string list \<Rightarrow> transcript_error + unit" where
  "require_counts obj row_uuid [] = Inr ()"
| "require_counts obj row_uuid (key # keys) =
     (case Option.bind (get obj key) as_u64 of
        Some _ \<Rightarrow> require_counts obj row_uuid keys
      | None \<Rightarrow>
          Inl (schema row_uuid (''$.'' @ key)
            ''api_error requires retryAttempt and maxRetries as non-negative integers to prove it is a retry record''))"

definition prove_api_error_is_a_retry_record :: "object \<Rightarrow> utext option \<Rightarrow> transcript_error + unit" where
  "prove_api_error_is_a_retry_record obj row_uuid =
     bind_r (require_counts obj row_uuid [''retryAttempt'', ''maxRetries'']) (\<lambda>_.
       reject_semantic_payload obj row_uuid ''api_error'')"

definition parse_system :: "object \<Rightarrow> utext option \<Rightarrow> transcript_error + row_kind" where
  "parse_system obj row_uuid =
     bind_r (optional_string obj ''subtype'' ''$'' row_uuid) (\<lambda>subtype.
     bind_r
       (if subtype = Some (ascii ''turn_duration'') then prove_turn_duration_inert obj row_uuid
        else if subtype = Some (ascii ''stop_hook_summary'') then prove_stop_hook_summary_inert obj row_uuid
        else if subtype = Some (ascii ''api_error'') then prove_api_error_is_a_retry_record obj row_uuid
        else Inr ())
       (\<lambda>_. Inr (System subtype)))"

section \<open>A row\<close>

fun requires_uuid :: "row_kind \<Rightarrow> bool" where
  "requires_uuid (Assistant _) = True"
| "requires_uuid (TypedUser _ _) = True"
| "requires_uuid (UserToolResults _) = True"
| "requires_uuid UserOther = True"
| "requires_uuid (Attachment _) = True"
| "requires_uuid _ = False"

definition parse_kind :: "utext option \<Rightarrow> object \<Rightarrow> utext option \<Rightarrow> transcript_error + row_kind" where
  "parse_kind declared_type obj row_uuid =
     (if declared_type = Some (ascii ''user'') then parse_user obj row_uuid
      else if declared_type = Some (ascii ''assistant'') then parse_assistant obj row_uuid
      else if declared_type = Some (ascii ''attachment'') then parse_attachment obj row_uuid
      else if declared_type = Some (ascii ''system'') then parse_system obj row_uuid
      else case declared_type of
             Some t \<Rightarrow> Inr (if is_metadata_record t then Metadata t else UnknownRow declared_type)
           | None \<Rightarrow> Inr (UnknownRow None))"

definition parse :: "(bytes \<Rightarrow> jvalue option) \<Rightarrow> complete_line \<Rightarrow> transcript_error + parsed_row" where
  "parse from_slice line =
     (if \<not> is_utf8 (cl_bytes line) then Inl (InvalidUtf8 (cl_location line))
      else case from_slice (cl_bytes line) of
        None \<Rightarrow> Inl (MalformedJson (cl_location line))
      | Some raw \<Rightarrow>
          (case as_object raw of
             None \<Rightarrow> Inl (schema None ''$'' ''top-level JSONL value must be an object'')
           | Some obj \<Rightarrow>
               bind_r (optional_string obj ''uuid'' ''$'' None) (\<lambda>row_uuid.
               bind_r (optional_nullable_string obj ''parentUuid'' ''$'' row_uuid) (\<lambda>parent_uuid.
               bind_r (optional_string obj ''sessionId'' ''$'' row_uuid) (\<lambda>session_id.
               bind_r (parse_scope obj row_uuid) (\<lambda>scope.
               bind_r (optional_string obj ''type'' ''$'' row_uuid) (\<lambda>declared_type.
               bind_r (parse_kind declared_type obj row_uuid) (\<lambda>kind.
                 if requires_uuid kind \<and> row_uuid = None then
                   Inl (schema None ''$.uuid'' ''semantic row requires a string UUID'')
                 else
                   Inr \<lparr>pr_source = cl_location line,
                        pr_common = \<lparr>cf_uuid = row_uuid, cf_parent_uuid = parent_uuid,
                                     cf_session_id = session_id, cf_scope = scope\<rparr>,
                        pr_kind = kind, pr_raw = raw\<rparr>))))))))"

end
