(* ===== verification/RowTypes.thy ===== *)
theory RowTypes
  imports Parser
begin

text \<open>What the engine may rely on about a row the parser has admitted.\<close>

definition safe_tokens :: "token_usage \<Rightarrow> bool" where
  "safe_tokens u \<longleftrightarrow>
     (\<forall>n \<in> {tu_input u, tu_output u, tu_cache_creation u, tu_cache_read u}. n \<le> MAX_SAFE_JSON_INTEGER)"

definition no_payload :: "object \<Rightarrow> bool" where
  "no_payload obj \<longleftrightarrow> get obj ''message'' = None \<and> get obj ''content'' = None \<and> get obj ''attachment'' = None"

text \<open>The proof a marker row carries in its own payload.\<close>

definition proves_turn_over :: "object \<Rightarrow> bool" where
  "proves_turn_over obj \<longleftrightarrow>
     (get obj ''pendingWorkflowCount'' = None \<or> get obj ''pendingWorkflowCount'' = Some (VNumber (PosInt 0)))
     \<and> no_payload obj"

definition proves_stop_not_blocked :: "object \<Rightarrow> bool" where
  "proves_stop_not_blocked obj \<longleftrightarrow>
     get obj ''preventedContinuation'' = Some (VBool False)
     \<and> get obj ''hookErrors'' \<in> {None, Some (VArray [])}
     \<and> get obj ''hookAdditionalContext'' \<in> {None, Some (VArray [])}
     \<and> no_payload obj"

definition proves_retry :: "object \<Rightarrow> bool" where
  "proves_retry obj \<longleftrightarrow>
     (\<exists>n. get obj ''retryAttempt'' = Some (VNumber (PosInt n)))
     \<and> (\<exists>n. get obj ''maxRetries'' = Some (VNumber (PosInt n))) \<and> no_payload obj"

definition kind_typed :: "object \<Rightarrow> row_kind \<Rightarrow> bool" where
  "kind_typed obj k =
     (case k of
        Assistant f \<Rightarrow> (\<forall>u. af_usage f = Some u \<longrightarrow> safe_tokens (us_tokens u))
      | UserToolResults rs \<Rightarrow> rs \<noteq> []
      | Attachment t \<Rightarrow> is_supported_attachment_type t
      | Metadata t \<Rightarrow> is_metadata_record t
      | System s \<Rightarrow>
          (s = Some (ascii ''turn_duration'') \<longrightarrow> proves_turn_over obj)
          \<and> (s = Some (ascii ''stop_hook_summary'') \<longrightarrow> proves_stop_not_blocked obj)
          \<and> (s = Some (ascii ''api_error'') \<longrightarrow> proves_retry obj)
      | _ \<Rightarrow> True)"

definition row_typed :: "parsed_row \<Rightarrow> bool" where
  "row_typed row \<longleftrightarrow>
     (requires_uuid (pr_kind row) \<longrightarrow> cf_uuid (pr_common row) \<noteq> None)
     \<and> (\<exists>obj. pr_raw row = VObject obj \<and> kind_typed obj (pr_kind row))"

section \<open>Each decoder\<close>

lemma as_u64_Some: "as_u64 v = Some n \<longleftrightarrow> v = VNumber (PosInt n)"
  by (cases v rule: as_u64.cases) auto

lemma as_object_Some: "as_object v = Some obj \<longleftrightarrow> v = VObject obj"
  by (cases v) auto

lemma reject_semantic_payload_ok: "reject_semantic_payload obj row_uuid subtype = Inr () \<Longrightarrow> no_payload obj"
  by (simp add: reject_semantic_payload_def no_payload_def split: if_splits)

lemma parse_system_typed: "parse_system obj row_uuid = Inr k \<Longrightarrow> kind_typed obj k"
proof -
  assume "parse_system obj row_uuid = Inr k"
  then obtain s where k: "k = System s" and proofs:
      "s = Some (ascii ''turn_duration'') \<Longrightarrow> prove_turn_duration_inert obj row_uuid = Inr ()"
      "s = Some (ascii ''stop_hook_summary'') \<Longrightarrow> prove_stop_hook_summary_inert obj row_uuid = Inr ()"
      "s = Some (ascii ''api_error'') \<Longrightarrow> prove_api_error_is_a_retry_record obj row_uuid = Inr ()"
    by (auto simp: parse_system_def bind_r_Inr ascii_def split: if_splits)
  have "proves_turn_over obj" if "prove_turn_duration_inert obj row_uuid = Inr ()"
    using that reject_semantic_payload_ok
    by (auto simp: prove_turn_duration_inert_def proves_turn_over_def as_u64_Some split: if_splits option.splits)
  moreover have "proves_stop_not_blocked obj" if "prove_stop_hook_summary_inert obj row_uuid = Inr ()"
    using that reject_semantic_payload_ok
    by (auto simp: prove_stop_hook_summary_inert_def proves_stop_not_blocked_def bind_r_Inr
        split: if_splits option.splits jvalue.splits bool.splits)
  moreover have "proves_retry obj" if "prove_api_error_is_a_retry_record obj row_uuid = Inr ()"
    using that reject_semantic_payload_ok
    by (auto simp: prove_api_error_is_a_retry_record_def proves_retry_def bind_r_Inr as_u64_Some
        bind_eq_Some_conv split: option.splits)
  ultimately show ?thesis using proofs by (simp add: k kind_typed_def)
qed

lemma usage_token_safe: "usage_token obj row_uuid name = Inr n \<Longrightarrow> n \<le> MAX_SAFE_JSON_INTEGER"
  by (auto simp: usage_token_def bind_r_Inr split: if_splits)

lemma parse_usage_safe: "parse_usage v row_uuid = Inr u \<Longrightarrow> safe_tokens (us_tokens u)"
  by (auto simp: parse_usage_def bind_r_Inr safe_tokens_def dest: usage_token_safe split: option.splits if_splits)

lemma message_usage_safe: "message_usage msg row_uuid = Inr (Some u) \<Longrightarrow> safe_tokens (us_tokens u)"
  by (auto simp: message_usage_def bind_r_Inr dest: parse_usage_safe split: option.splits jvalue.splits)

lemma parse_assistant_typed: "parse_assistant obj row_uuid = Inr k \<Longrightarrow> kind_typed obj k"
  by (auto simp: parse_assistant_def bind_r_Inr kind_typed_def dest: message_usage_safe split: option.splits)

lemma parse_user_typed: "parse_user obj row_uuid = Inr k \<Longrightarrow> kind_typed obj k"
  by (auto simp: parse_user_def bind_r_Inr kind_typed_def neq_Nil_conv split: option.splits if_splits list.splits prod.splits)

lemma parse_attachment_typed: "parse_attachment obj row_uuid = Inr k \<Longrightarrow> kind_typed obj k"
  by (auto simp: parse_attachment_def bind_r_Inr kind_typed_def split: option.splits if_splits)

lemma parse_kind_typed: "parse_kind declared obj row_uuid = Inr k \<Longrightarrow> kind_typed obj k"
  by (auto simp: parse_kind_def kind_typed_def [of _ "Metadata _"] kind_typed_def [of _ "UnknownRow _"]
      intro: parse_user_typed parse_assistant_typed parse_attachment_typed parse_system_typed
      split: if_splits option.splits)

text \<open>C29: Rows are well typed. A row the parser admits keeps the line's location and its whole JSON object;
  every row that can join the conversation has a UUID; token counts are within the safe-integer range; a tool
  result row has a result; and a system marker is admitted only with its proof in its own payload: \<open>turn_duration\<close>
  announces no pending work, \<open>stop_hook_summary\<close> did not block the stop and fed nothing back,
  \<open>api_error\<close> carries its retry counters, and none of them hides a message, content or attachment.\<close>

theorem parsed_rows_are_typed:
  assumes "parse from_slice line = Inr row"
  shows "row_typed row \<and> pr_source row = cl_location line
       \<and> from_slice (cl_bytes line) = Some (pr_raw row) \<and> is_utf8 (cl_bytes line)"
  using assms
  by (auto simp: parse_def bind_r_Inr row_typed_def as_object_Some dest: parse_kind_typed
      split: if_splits option.splits)

definition sample_stop_row :: object where
  "sample_stop_row =
     [(ascii ''preventedContinuation'', VBool False), (ascii ''subtype'', VString (ascii ''stop_hook_summary'')),
      (ascii ''type'', VString (ascii ''system'')), (ascii ''uuid'', VString (ascii ''u''))]"

definition sample_line :: complete_line where
  "sample_line = \<lparr>cl_location = \<lparr>sl_line = 3, sl_byte_offset = 40\<rparr>, cl_bytes = [123, 125]\<rparr>"

definition sample_decode :: "bytes \<Rightarrow> jvalue option" where
  "sample_decode bs = Some (VObject sample_stop_row)"

definition sample_parsed :: parsed_row where
  "sample_parsed =
     \<lparr>pr_source = \<lparr>sl_line = 3, sl_byte_offset = 40\<rparr>,
      pr_common = \<lparr>cf_uuid = Some (ascii ''u''), cf_parent_uuid = None, cf_session_id = None, cf_scope = Main\<rparr>,
      pr_kind = System (Some (ascii ''stop_hook_summary'')), pr_raw = VObject sample_stop_row\<rparr>"

theorem parsed_rows_are_typed_witness:
  "row_typed sample_parsed \<and> pr_source sample_parsed = cl_location sample_line
     \<and> sample_decode (cl_bytes sample_line) = Some (pr_raw sample_parsed) \<and> is_utf8 (cl_bytes sample_line)"
proof -
  have "parse sample_decode sample_line = Inr sample_parsed" by code_simp
  then show ?thesis by (rule parsed_rows_are_typed)
qed

end
