(* ===== verification/Engine.thy ===== *)
theory Engine
  imports Parser
begin

text \<open>
  The transcript engine, \<open>src/crates/claude/src/engine.rs\<close>: it decides, from the rows of a transcript, whether
  the armed turn's prompt was acknowledged, which rows belong to the turn, and whether the turn is over and
  with what answer. The \<open>RECORD_WORK\<close> counters are not modelled (they are off in production). A \<open>HashMap\<close> is
  a partial function; a \<open>HashSet\<close> a set. An \<open>expect\<close> or an index that earlier checks make unreachable is an arm that
  does nothing, and is noted.
\<close>

section \<open>State\<close>

record stored_row =
  sr_ordinal :: u64
  sr_row :: parsed_row

record active_turn =
  at_expected_prompt :: utext
  at_armed_at_ordinal :: u64
  at_acknowledgement :: "prompt_acknowledgement option"

record transcript_engine =
  te_rows :: "stored_row list"
  te_by_uuid :: "utext \<Rightarrow> nat option"
  te_next_ordinal :: u64
  te_active_turn :: "active_turn option"

datatype ingest_outcome =
    Added u64
  | PromptAcknowledged prompt_acknowledgement
  | DuplicateIgnored utext

abbreviation uuid_of :: "stored_row \<Rightarrow> utext option" where
  "uuid_of s \<equiv> cf_uuid (pr_common (sr_row s))"

abbreviation parent_of :: "stored_row \<Rightarrow> utext option" where
  "parent_of s \<equiv> cf_parent_uuid (pr_common (sr_row s))"

abbreviation scope_of :: "stored_row \<Rightarrow> row_scope" where
  "scope_of s \<equiv> cf_scope (pr_common (sr_row s))"

abbreviation kind_of :: "stored_row \<Rightarrow> row_kind" where
  "kind_of s \<equiv> pr_kind (sr_row s)"

definition engine_new :: transcript_engine where
  "engine_new = \<lparr>te_rows = [], te_by_uuid = Map.empty, te_next_ordinal = 0, te_active_turn = None\<rparr>"

definition arm_turn ::
  "(utext \<Rightarrow> utext) \<Rightarrow> utext \<Rightarrow> transcript_engine \<Rightarrow> transcript_error + transcript_engine" where
  "arm_turn nfc expected_prompt e =
     (if te_active_turn e \<noteq> None then Inl TurnAlreadyArmed
      else Inr (e\<lparr>te_active_turn :=
                    Some \<lparr>at_expected_prompt = normalize_prompt nfc expected_prompt,
                          at_armed_at_ordinal = te_next_ordinal e, at_acknowledgement = None\<rparr>\<rparr>))"

definition disarm_turn :: "transcript_engine \<Rightarrow> transcript_error + transcript_engine" where
  "disarm_turn e =
     (if te_active_turn e = None then Inl NoTurnArmed else Inr (e\<lparr>te_active_turn := None\<rparr>))"

section \<open>Ingesting a row\<close>

text \<open>The acknowledgement step of \<open>ingest\<close>: the turn as the row leaves it, and the acknowledgement if the row is one.\<close>

definition acknowledge ::
  "(utext \<Rightarrow> utext) \<Rightarrow> u64 \<Rightarrow> parsed_row \<Rightarrow> active_turn option
    \<Rightarrow> transcript_error + active_turn option \<times> prompt_acknowledgement option" where
  "acknowledge nfc ordinal row at_opt =
     (case (at_opt, pr_kind row) of
        (Some turn, TypedUser prompt prompt_id) \<Rightarrow>
          if ordinal \<ge> at_armed_at_ordinal turn \<and> cf_scope (pr_common row) = Main then
            let actual = normalize_prompt nfc prompt
            in if at_acknowledgement turn \<noteq> None then Inl MultiplePromptAcknowledgements
               else if actual \<noteq> at_expected_prompt turn then
                 Inl (UnexpectedTypedPrompt (at_expected_prompt turn) actual)
               else
                 (case cf_uuid (pr_common row) of
                    None \<Rightarrow> Inl (schema None ''$.uuid'' ''acknowledged typed prompt requires a UUID'')
                  | Some row_uuid \<Rightarrow>
                      let ack = \<lparr>pa_row_uuid = row_uuid, pa_prompt_id = prompt_id, pa_ordinal = ordinal\<rparr>
                      in Inr (Some (turn\<lparr>at_acknowledgement := Some ack\<rparr>), Some ack))
          else Inr (at_opt, None)
      | _ \<Rightarrow> Inr (at_opt, None))"

definition ingest ::
  "(utext \<Rightarrow> utext) \<Rightarrow> parsed_row \<Rightarrow> transcript_engine
    \<Rightarrow> (transcript_error + ingest_outcome) \<times> transcript_engine" where
  "ingest nfc row e =
     (case Option.bind (cf_uuid (pr_common row)) (\<lambda>u. map_option (\<lambda>i. (u, i)) (te_by_uuid e u)) of
        Some (u, i) \<Rightarrow>
          if i < length (te_rows e) \<and> pr_raw (sr_row (te_rows e ! i)) = pr_raw row
          then (Inr (DuplicateIgnored u), e)
          else (Inl (ConflictingDuplicateRow u), e)
      | None \<Rightarrow>
          let ordinal = te_next_ordinal e
          in case acknowledge nfc ordinal row (te_active_turn e) of
               Inl err \<Rightarrow> (Inl err, e)
             | Inr (turn, acknowledged) \<Rightarrow>
                 (Inr (case acknowledged of None \<Rightarrow> Added ordinal | Some ack \<Rightarrow> PromptAcknowledged ack),
                  e\<lparr>te_active_turn := turn,
                    te_by_uuid :=
                      (case cf_uuid (pr_common row) of
                         None \<Rightarrow> te_by_uuid e
                       | Some u \<Rightarrow> (te_by_uuid e)(u \<mapsto> length (te_rows e))),
                    te_rows := te_rows e @ [\<lparr>sr_ordinal = ordinal, sr_row = row\<rparr>],
                    te_next_ordinal := sat_add64 ordinal 1\<rparr>))"

section \<open>The active path\<close>

record active_indices =
  ai_path :: "nat list"
  ai_included :: "nat list"
  ai_leaf_index :: nat

type_synonym children = "utext \<Rightarrow> nat list option"

definition push_child :: "utext \<Rightarrow> nat \<Rightarrow> children \<Rightarrow> children" where
  "push_child p i ch = ch(p \<mapsto> (case ch p of None \<Rightarrow> [i] | Some is \<Rightarrow> is @ [i]))"

text \<open>\<open>children.entry(parent).or_default().push(index)\<close> over some rows; a row without a parent adds nothing.\<close>

definition children_of :: "stored_row list \<Rightarrow> nat list \<Rightarrow> children" where
  "children_of rows is =
     fold (\<lambda>i ch. case parent_of (rows ! i) of None \<Rightarrow> ch | Some p \<Rightarrow> push_child p i ch) is Map.empty"

definition in_graph :: "u64 \<Rightarrow> stored_row \<Rightarrow> bool" where
  "in_graph ack_ordinal s \<longleftrightarrow> sr_ordinal s \<ge> ack_ordinal \<and> scope_of s = Main \<and> \<not> is_metadata (kind_of s)"

definition graph_rows_of :: "stored_row list \<Rightarrow> u64 \<Rightarrow> nat list" where
  "graph_rows_of rows ack_ordinal = filter (\<lambda>i. in_graph ack_ordinal (rows ! i)) [0 ..< length rows]"

definition all_uuid_to_index_of :: "stored_row list \<Rightarrow> utext \<Rightarrow> nat option" where
  "all_uuid_to_index_of rows =
     fold (\<lambda>i m. if scope_of (rows ! i) = Main \<and> \<not> is_metadata (kind_of (rows ! i))
                  then (case uuid_of (rows ! i) of None \<Rightarrow> m | Some u \<Rightarrow> m(u \<mapsto> i)) else m)
       [0 ..< length rows] Map.empty"

text \<open>The body of the worklist loop: every child not seen before is marked, and its UUID pushed. The guard
  \<open>i < length rows\<close> is the bound an index of a child list satisfies.\<close>

definition visit :: "stored_row list \<Rightarrow> nat \<Rightarrow> nat set \<times> utext list \<Rightarrow> nat set \<times> utext list" where
  "visit rows i = (\<lambda>(seen, todo).
     if i < length rows \<and> i \<notin> seen
     then (insert i seen, (case uuid_of (rows ! i) of None \<Rightarrow> todo | Some u \<Rightarrow> u # todo))
     else (seen, todo))"

lemma card_unseen: "finite U \<Longrightarrow> x \<in> U \<Longrightarrow> x \<notin> S \<Longrightarrow> card (U - insert x S) < card (U - S)"
  by (rule psubset_card_mono) auto

lemma visit_simps [simp]:
  "i < length rows \<Longrightarrow> i \<notin> seen \<Longrightarrow> visit rows i (seen, todo)
     = (insert i seen, (case uuid_of (rows ! i) of None \<Rightarrow> todo | Some u \<Rightarrow> u # todo))"
  "i \<in> seen \<or> i \<ge> length rows \<Longrightarrow> visit rows i (seen, todo) = (seen, todo)"
  by (auto simp: visit_def)

lemma visit_unseen:
  "card ({..<length rows} - fst (fold (visit rows) is (seen, todo))) < card ({..<length rows} - seen)
   \<or> fold (visit rows) is (seen, todo) = (seen, todo)"
proof (induction "is" arbitrary: seen todo)
  case (Cons i "is")
  show ?case
  proof (cases "i < length rows \<and> i \<notin> seen")
    case True
    then have "card ({..<length rows} - insert i seen) < card ({..<length rows} - seen)"
      by (intro card_unseen) auto
    with Cons.IH [of "insert i seen" "case uuid_of (rows ! i) of None \<Rightarrow> todo | Some u \<Rightarrow> u # todo"] True
    show ?thesis by auto
  next
    case False
    then have "i \<in> seen \<or> i \<ge> length rows" by auto
    with Cons.IH [of seen todo] show ?thesis by simp
  qed
qed simp

function traverse :: "stored_row list \<Rightarrow> children \<Rightarrow> utext list \<Rightarrow> nat set \<Rightarrow> nat set" where
  "traverse rows ch [] seen = seen"
| "traverse rows ch (u # todo) seen =
     (case ch u of
        None \<Rightarrow> traverse rows ch todo seen
      | Some is \<Rightarrow>
          (case fold (visit rows) is (seen, todo) of (seen', todo') \<Rightarrow> traverse rows ch todo' seen'))"
  by pat_completeness auto
termination
  apply (relation "(\<lambda>(rows, _, _, seen). card ({..<length rows} - seen)) <*mlex*> measure (\<lambda>(_, _, todo, _). length todo)")
  subgoal by (intro wf_mlex) simp
  subgoal by (simp add: mlex_prod_def)
  subgoal for rows ch u todo seen "is"
    using visit_unseen [of rows "is" seen todo]
    by (cases "fold (visit rows) is (seen, todo)") (auto simp: mlex_prod_def)
  done

text \<open>\<open>ancestor_path_to_ack\<close>: the parents from a row up to the acknowledged one, or nothing if they end or repeat first.\<close>

function climb_ancestors ::
  "stored_row list \<Rightarrow> nat \<Rightarrow> (utext \<Rightarrow> nat option) \<Rightarrow> nat set \<Rightarrow> nat \<Rightarrow> nat list \<Rightarrow> nat list option" where
  "climb_ancestors rows ack idx seen current path =
     (case parent_of (rows ! current) of
        None \<Rightarrow> None
      | Some p \<Rightarrow>
          (case idx p of
             None \<Rightarrow> None
           | Some parent \<Rightarrow>
               if parent = ack then Some (path @ [parent])
               else if parent \<in> seen \<or> parent \<ge> length rows then None
               else climb_ancestors rows ack idx (insert parent seen) parent (path @ [parent])))"
  by pat_completeness auto
termination
  apply (relation "measure (\<lambda>(rows, _, _, seen, _, _). card ({..<length rows} - seen))")
  subgoal by simp
  subgoal unfolding in_measure prod.case by (rule card_unseen) auto
  done

declare climb_ancestors.simps [simp del]

definition ancestor_path_to_ack ::
  "stored_row list \<Rightarrow> nat \<Rightarrow> nat \<Rightarrow> (utext \<Rightarrow> nat option) \<Rightarrow> nat list option" where
  "ancestor_path_to_ack rows start ack idx = climb_ancestors rows ack idx {start} start []"

fun is_live_semantic_row :: "row_kind \<Rightarrow> bool" where
  "is_live_semantic_row (TypedUser _ _) = True"
| "is_live_semantic_row (UserToolResults _) = True"
| "is_live_semantic_row UserOther = True"
| "is_live_semantic_row (Assistant _) = True"
| "is_live_semantic_row _ = False"

text \<open>The loop that admits a live row the first traversal missed, with its ancestors.\<close>

definition admit_by_ancestry ::
  "stored_row list \<Rightarrow> nat \<Rightarrow> (utext \<Rightarrow> nat option) \<Rightarrow> nat \<Rightarrow> nat set \<Rightarrow> nat set" where
  "admit_by_ancestry rows ack idx i seen =
     (if i = ack \<or> i \<in> seen \<or> \<not> is_live_semantic_row (kind_of (rows ! i)) then seen
      else case ancestor_path_to_ack rows i ack idx of
             None \<Rightarrow> seen
           | Some ancs \<Rightarrow> insert i seen \<union> set ancs)"

definition reachable_set :: "stored_row list \<Rightarrow> nat \<Rightarrow> utext \<Rightarrow> u64 \<Rightarrow> nat set" where
  "reachable_set rows ack ack_uuid ack_ordinal =
     (let graph = graph_rows_of rows ack_ordinal;
          ch = children_of rows graph;
          idx = all_uuid_to_index_of rows;
          seen1 = traverse rows ch [ack_uuid] {ack};
          seen2 = fold (admit_by_ancestry rows ack idx) graph seen1;
          todo = List.map_filter (\<lambda>i. if i \<in> seen2 then uuid_of (rows ! i) else None) [0 ..< length rows]
      in traverse rows ch todo seen2)"

text \<open>The loop that validates the reachable rows.\<close>

definition check_reachable_row ::
  "stored_row list \<Rightarrow> nat \<Rightarrow> u64 \<Rightarrow> (utext \<Rightarrow> nat option) \<Rightarrow> nat \<Rightarrow> transcript_error + unit" where
  "check_reachable_row rows ack ack_ordinal idx i =
     (if i = ack then Inr ()
      else let s = rows ! i in
        case uuid_of s of
          None \<Rightarrow> Inl (ActiveRowMissingUuid (sr_ordinal s))
        | Some u \<Rightarrow>
            (case parent_of s of
               None \<Rightarrow> Inl (schema (Some u) ''$.parentUuid'' ''active main-chain row requires a parent UUID'')
             | Some p \<Rightarrow>
                 (case idx p of
                    None \<Rightarrow> Inl (schema (Some u) ''$.parentUuid'' ''active main-chain row has no resolvable parent'')
                  | Some j \<Rightarrow>
                      if sr_ordinal s \<ge> ack_ordinal \<and> sr_ordinal (rows ! j) \<ge> sr_ordinal s
                      then Inl (ParentAppendOrder u p) else Inr ())))"

fun check_each :: "('a \<Rightarrow> transcript_error + unit) \<Rightarrow> 'a list \<Rightarrow> transcript_error + unit" where
  "check_each f [] = Inr ()"
| "check_each f (x # xs) = bind_r (f x) (\<lambda>_. check_each f xs)"

text \<open>A live row of the graph that nothing connects to the prompt.\<close>

definition check_connected :: "stored_row list \<Rightarrow> nat \<Rightarrow> nat set \<Rightarrow> nat \<Rightarrow> transcript_error + unit" where
  "check_connected rows ack seen i =
     (if i = ack \<or> i \<in> seen \<or> \<not> is_live_semantic_row (kind_of (rows ! i)) then Inr ()
      else Inl (DisconnectedActiveRow
                  (case uuid_of (rows ! i) of
                     Some u \<Rightarrow> u
                   | None \<Rightarrow> ascii (''ordinal:'' @ to_string (sr_ordinal (rows ! i))))))"

lemma measure_unvisited:
  assumes "(if i < length rows then uuid_of (rows ! i) else None) = Some u" and "u \<notin> visited"
  shows "card (Option.these (uuid_of ` set rows) - insert u visited) < card (Option.these (uuid_of ` set rows) - visited)"
proof -
  from assms(1) have "u \<in> Option.these (uuid_of ` set rows)"
    by (auto simp: in_these_eq image_iff split: if_splits intro!: bexI [of _ "rows ! i"])
  moreover have "finite (Option.these (uuid_of ` set rows))" by (simp add: Option.these_def)
  ultimately show ?thesis using assms(2) by (intro card_unseen)
qed

text \<open>The walk down the only child of each row. A child without UUID ends it; the validation above left none.\<close>

function walk ::
  "stored_row list \<Rightarrow> children \<Rightarrow> utext \<Rightarrow> utext set \<Rightarrow> nat list \<Rightarrow> transcript_error + nat list" where
  "walk rows ch current visited path =
     (case ch current of
        None \<Rightarrow> Inr path
      | Some nexts \<Rightarrow>
          (case nexts of
             [next] \<Rightarrow>
               (case (if next < length rows then uuid_of (rows ! next) else None) of
                  None \<Rightarrow> Inr (path @ [next])
                | Some u \<Rightarrow>
                    if u \<in> visited then Inl (ParentCycle u)
                    else walk rows ch u (insert u visited) (path @ [next]))
           | _ \<Rightarrow> Inl (AmbiguousActiveBranches (length nexts))))"
  by pat_completeness auto
termination
  apply (relation "measure (\<lambda>(rows, _, _, visited, _). card (Option.these (uuid_of ` set rows) - visited))")
  subgoal by simp
  subgoal unfolding in_measure prod.case by (rule measure_unvisited)
  done

declare walk.simps [simp del]

text \<open>The checks of the path: the state is the subtype of the marker that opened the trailing zone.\<close>

definition check_path_row ::
  "stored_row \<Rightarrow> utext option \<Rightarrow> transcript_error + utext option" where
  "check_path_row s inert_marker =
     (case kind_of s of
        UnknownRow declared_type \<Rightarrow>
          Inl (SchemaDrift (uuid_of s) ''$.type''
                 (SaysOption ''unknown row type '' declared_type '' is on the active parent chain''))
      | UserOther \<Rightarrow>
          Inl (schema (uuid_of s) ''$.message'' ''unrecognized user row is on the active parent chain'')
      | System subtype \<Rightarrow>
          if \<not> is_admitted_on_active_chain subtype then
            Inl (SchemaDrift (uuid_of s) ''$.subtype'' (SaysOption ''unsupported active system subtype '' subtype ''''))
          else if is_proven_inert_marker subtype \<and> inert_marker = None then Inr subtype
          else Inr inert_marker
      | Metadata _ \<Rightarrow> Inr inert_marker
      | _ \<Rightarrow>
          (case inert_marker of
             Some marker \<Rightarrow>
               Inl (SchemaDrift (uuid_of s) ''$.type'' (SaysText '''' marker '' must be trailing on the active parent chain''))
           | None \<Rightarrow> Inr None))"

fun check_path_rows :: "stored_row list \<Rightarrow> nat list \<Rightarrow> utext option \<Rightarrow> transcript_error + unit" where
  "check_path_rows rows [] inert_marker = Inr ()"
| "check_path_rows rows (i # is) inert_marker =
     bind_r (check_path_row (rows ! i) inert_marker) (check_path_rows rows is)"

definition validate_strict_active_path :: "stored_row list \<Rightarrow> nat list \<Rightarrow> transcript_error + unit" where
  "validate_strict_active_path rows path = check_path_rows rows (drop 1 path) None"

definition is_leaf :: "stored_row list \<Rightarrow> children \<Rightarrow> nat \<Rightarrow> bool" where
  "is_leaf rows ch i = (case uuid_of (rows ! i) of None \<Rightarrow> False | Some u \<Rightarrow> ch u = None)"

text \<open>The rows of the set that are on the main chain, in append order.\<close>

definition main_rows :: "stored_row list \<Rightarrow> nat set \<Rightarrow> nat list" where
  "main_rows rows seen =
     filter (\<lambda>i. i \<in> seen \<and> scope_of (rows ! i) = Main \<and> \<not> is_metadata (kind_of (rows ! i))) [0 ..< length rows]"

definition strict_active_indices ::
  "transcript_engine \<Rightarrow> prompt_acknowledgement \<Rightarrow> transcript_error + active_indices" where
  "strict_active_indices e ack =
     (let rows = te_rows e in
      case te_by_uuid e (pa_row_uuid ack) of
        None \<Rightarrow>
          Inl (schema (Some (pa_row_uuid ack)) ''$.uuid'' ''acknowledged row disappeared from the UUID index'')
      | Some ack_index \<Rightarrow>
          let seen = reachable_set rows ack_index (pa_row_uuid ack) (pa_ordinal ack);
              reachable = main_rows rows seen;
              ch = children_of rows (filter (\<lambda>i. i \<noteq> ack_index) reachable);
              leaf_count = length (filter (is_leaf rows ch) reachable)
          in
          bind_r (check_each (check_reachable_row rows ack_index (pa_ordinal ack) (all_uuid_to_index_of rows)) reachable) (\<lambda>_.
          bind_r (check_each (check_connected rows ack_index seen) (graph_rows_of rows (pa_ordinal ack))) (\<lambda>_.
          if leaf_count > 1 then Inl (AmbiguousActiveBranches leaf_count)
          else
          bind_r (walk rows ch (pa_row_uuid ack) {pa_row_uuid ack} [ack_index]) (\<lambda>path.
          if length path \<noteq> length reachable then Inl (AmbiguousActiveBranches (max leaf_count 2))
          else
          bind_r (validate_strict_active_path rows path) (\<lambda>_.
            Inr \<lparr>ai_path = path, ai_included = path, ai_leaf_index = last path\<rparr>)))))"

section \<open>Sidechains\<close>

definition parents_in :: "stored_row list \<Rightarrow> utext set" where
  "parents_in rows = Option.these (parent_of ` set rows)"

lemma finite_parents_in [simp]: "finite (parents_in rows)"
  by (simp add: parents_in_def Option.these_def)

lemma parent_of_in: "i < length rows \<Longrightarrow> parent_of (rows ! i) = Some p \<Longrightarrow> p \<in> parents_in rows"
  by (auto simp: parents_in_def in_these_eq image_iff intro!: bexI [of _ "rows ! i"])

lemma card_unclimbed:
  assumes "candidate \<notin> visited" and "i < length rows"
  shows "card (parents_in rows \<union> set_option (parent_of (rows ! i)) - insert candidate visited)
       < card (parents_in rows \<union> {candidate} - visited)"
proof -
  have "parents_in rows \<union> set_option (parent_of (rows ! i)) = parents_in rows"
    using parent_of_in [OF assms(2)] by auto
  with assms(1) show ?thesis by (auto intro!: psubset_card_mono)
qed

text \<open>The loop of \<open>is_descendant_cached\<close>: whether the climb reaches the root, and the rows it passed.\<close>

function climb ::
  "transcript_engine \<Rightarrow> utext \<Rightarrow> bool \<Rightarrow> (utext \<Rightarrow> bool option) \<Rightarrow> utext option \<Rightarrow> utext list \<Rightarrow> utext set
    \<Rightarrow> transcript_error + bool \<times> utext list" where
  "climb e root allow_sidechain cache current path visited =
     (case current of
        None \<Rightarrow> Inr (False, path)
      | Some candidate \<Rightarrow>
          (case cache candidate of
             Some reach \<Rightarrow> Inr (reach, path)
           | None \<Rightarrow>
               if candidate \<in> visited then Inl (ParentCycle candidate)
               else
                 (case te_by_uuid e candidate of
                    None \<Rightarrow> Inr (False, path)
                  | Some i \<Rightarrow>
                      if i \<ge> length (te_rows e) then Inr (False, path)
                      else if scope_of (te_rows e ! i) \<noteq> Main
                              \<and> \<not> (allow_sidechain \<and> scope_of (te_rows e ! i) = Sidechain) then Inr (False, path)
                      else if candidate = root then Inr (True, path)
                      else climb e root allow_sidechain cache (parent_of (te_rows e ! i)) (path @ [candidate])
                             (insert candidate visited))))"
  by pat_completeness auto
termination
  apply (relation "measure (\<lambda>(e, _, _, _, current, _, visited).
                      card (parents_in (te_rows e) \<union> set_option current - visited))")
  subgoal by simp
  subgoal unfolding in_measure prod.case by (simp only: option.set) (rule card_unclimbed, simp_all)
  done

declare climb.simps [simp del]

definition is_descendant_cached ::
  "transcript_engine \<Rightarrow> utext \<Rightarrow> utext \<Rightarrow> bool \<Rightarrow> (utext \<Rightarrow> bool option)
    \<Rightarrow> transcript_error + bool \<times> (utext \<Rightarrow> bool option)" where
  "is_descendant_cached e u root allow_sidechain cache =
     bind_r (climb e root allow_sidechain cache (Some u) [] {}) (\<lambda>(reach, path).
       Inr (reach, fold (\<lambda>c m. m(c \<mapsto> reach)) path cache))"

fun sidechain_scan ::
  "transcript_engine \<Rightarrow> prompt_acknowledgement \<Rightarrow> nat list \<Rightarrow> (utext \<Rightarrow> bool option) \<Rightarrow> nat list
    \<Rightarrow> transcript_error + nat list" where
  "sidechain_scan e ack [] cache indices = Inr indices"
| "sidechain_scan e ack (i # is) cache indices =
     (let s = te_rows e ! i in
      if sr_ordinal s < pa_ordinal ack \<or> scope_of s \<noteq> Sidechain \<or> \<not> is_assistant (kind_of s)
      then sidechain_scan e ack is cache indices
      else case uuid_of s of
             None \<Rightarrow> sidechain_scan e ack is cache indices
           | Some u \<Rightarrow>
               bind_r (is_descendant_cached e u (pa_row_uuid ack) True cache) (\<lambda>(reach, cache').
                 sidechain_scan e ack is cache' (if reach then indices @ [i] else indices)))"

definition sidechain_indices :: "transcript_engine \<Rightarrow> prompt_acknowledgement \<Rightarrow> transcript_error + nat list" where
  "sidechain_indices e ack = sidechain_scan e ack [0 ..< length (te_rows e)] Map.empty []"

definition sidechain_row_count :: "transcript_engine \<Rightarrow> prompt_acknowledgement \<Rightarrow> u64" where
  "sidechain_row_count e ack =
     length (filter (\<lambda>s. sr_ordinal s \<ge> pa_ordinal ack \<and> scope_of s = Sidechain) (te_rows e))"

section \<open>Logical messages\<close>

definition message_key :: "stored_row \<Rightarrow> transcript_error + logical_message_key option" where
  "message_key s =
     (case kind_of s of
        Assistant f \<Rightarrow>
          (case af_message_id f of
             Some i \<Rightarrow> Inr (Some (MessageId i))
           | None \<Rightarrow>
               (case af_request_id f of
                  Some r \<Rightarrow> Inr (Some (RequestId r))
                | None \<Rightarrow>
                    (case uuid_of s of
                       Some u \<Rightarrow> Inr (Some (RowUuid u))
                     | None \<Rightarrow> Inl (schema None ''$.uuid'' ''assistant fragment has no grouping identity''))))
      | _ \<Rightarrow> Inr None)"

fun keeps_message_open :: "row_kind \<Rightarrow> bool" where
  "keeps_message_open (UserToolResults _) = True"
| "keeps_message_open (Attachment _) = True"
| "keeps_message_open _ = False"

fun check_contiguity ::
  "stored_row list \<Rightarrow> nat list \<Rightarrow> logical_message_key option \<Rightarrow> logical_message_key set
    \<Rightarrow> transcript_error + unit" where
  "check_contiguity rows [] current closed = Inr ()"
| "check_contiguity rows (i # is) current closed =
     (if keeps_message_open (kind_of (rows ! i)) then check_contiguity rows is current closed
      else bind_r (message_key (rows ! i)) (\<lambda>nxt.
        if nxt = current then check_contiguity rows is current closed
        else let closed' = closed \<union> set_option current in
          case nxt of
            None \<Rightarrow> check_contiguity rows is None closed'
          | Some key \<Rightarrow>
              if key \<in> closed' then Inl (InterleavedLogicalMessage key)
              else check_contiguity rows is (Some key) closed'))"

definition validate_logical_message_contiguity :: "stored_row list \<Rightarrow> nat list \<Rightarrow> transcript_error + unit" where
  "validate_logical_message_contiguity rows included = check_contiguity rows included None {}"

definition merge_optional_owned ::
  "'a option \<Rightarrow> 'a option \<Rightarrow> logical_message_key \<Rightarrow> string \<Rightarrow> transcript_error + 'a option" where
  "merge_optional_owned target candidate key field =
     (case candidate of
        None \<Rightarrow> Inr target
      | Some c \<Rightarrow>
          (case target of
             None \<Rightarrow> Inr (Some c)
           | Some t \<Rightarrow> if t = c then Inr target else Inl (LogicalMessageConflict key field)))"

definition merge_optional ::
  "utext option \<Rightarrow> utext option \<Rightarrow> logical_message_key \<Rightarrow> string \<Rightarrow> transcript_error + utext option" where
  "merge_optional target candidate key field = merge_optional_owned target candidate key field"

fun first_unknown_block :: "content_block list \<Rightarrow> utext option option" where
  "first_unknown_block [] = None"
| "first_unknown_block (UnknownBlock d _ # _) = Some d"
| "first_unknown_block (_ # bs) = first_unknown_block bs"

definition new_message :: "logical_message_key \<Rightarrow> u64 \<Rightarrow> logical_assistant_message" where
  "new_message key ordinal =
     \<lparr>lm_key = key, lm_row_uuids = [], lm_model = None, lm_blocks = [], lm_stop_reason = None, lm_usage = None,
      lm_is_api_error = False, lm_first_ordinal = ordinal, lm_last_ordinal = ordinal\<rparr>"

text \<open>One fragment merged into its message.\<close>

definition merge_fragment ::
  "logical_message_key \<Rightarrow> stored_row \<Rightarrow> assistant_fragment \<Rightarrow> logical_assistant_message
    \<Rightarrow> transcript_error + logical_assistant_message" where
  "merge_fragment key s f m =
     bind_r (merge_optional (lm_model m) (af_model f) key ''model'') (\<lambda>model.
     bind_r (merge_optional_owned (lm_stop_reason m) (map_option parse_stop_reason (af_stop_reason f)) key
               ''stop_reason'') (\<lambda>stop.
     bind_r (merge_optional_owned (lm_usage m) (af_usage f) key ''usage'') (\<lambda>usage.
     case first_unknown_block (af_blocks f) of
       Some declared_type \<Rightarrow>
         Inl (SchemaDrift (uuid_of s) ''$.message.content''
                (SaysOption ''unknown or malformed content block '' declared_type ''''))
     | None \<Rightarrow>
         Inr (m\<lparr>lm_row_uuids := lm_row_uuids m @ (case uuid_of s of None \<Rightarrow> [] | Some u \<Rightarrow> [u]),
                lm_model := model, lm_stop_reason := stop, lm_usage := usage,
                lm_blocks := lm_blocks m @ af_blocks f,
                lm_is_api_error := (lm_is_api_error m \<or> af_is_api_error f),
                lm_last_ordinal := sr_ordinal s\<rparr>))))"

fun collect_messages ::
  "stored_row list \<Rightarrow> nat list \<Rightarrow> logical_assistant_message list \<Rightarrow> (logical_message_key \<Rightarrow> nat option)
    \<Rightarrow> transcript_error + logical_assistant_message list" where
  "collect_messages rows [] messages positions = Inr messages"
| "collect_messages rows (i # is) messages positions =
     (let s = rows ! i in
      case kind_of s of
        Assistant f \<Rightarrow>
          bind_r (message_key s) (\<lambda>key_opt.
            case key_opt of
              None \<Rightarrow> collect_messages rows is messages positions
            | Some key \<Rightarrow>
                let (position, messages1, positions1) =
                      (case positions key of
                         Some p \<Rightarrow> (p, messages, positions)
                       | None \<Rightarrow> (length messages, messages @ [new_message key (sr_ordinal s)],
                                 positions(key \<mapsto> length messages)))
                in bind_r (merge_fragment key s f (messages1 ! position)) (\<lambda>m.
                     collect_messages rows is (messages1[position := m]) positions1))
      | _ \<Rightarrow> collect_messages rows is messages positions)"

definition logical_messages ::
  "stored_row list \<Rightarrow> nat list \<Rightarrow> bool \<Rightarrow> transcript_error + logical_assistant_message list" where
  "logical_messages rows included require_contiguity =
     bind_r (if require_contiguity then validate_logical_message_contiguity rows included else Inr ()) (\<lambda>_.
       collect_messages rows included [] Map.empty)"

section \<open>Usage\<close>

definition checked_add_usage :: "u64 \<Rightarrow> u64 \<Rightarrow> string \<Rightarrow> transcript_error + u64" where
  "checked_add_usage l r field =
     (if l + r \<le> u64_max \<and> l + r \<le> MAX_SAFE_JSON_INTEGER then Inr (l + r) else Inl (UsageOverflow field))"

definition add_tokens :: "token_usage \<Rightarrow> token_usage \<Rightarrow> transcript_error + token_usage" where
  "add_tokens t s =
     bind_r (checked_add_usage (tu_input t) (tu_input s) ''input_tokens'') (\<lambda>i.
     bind_r (checked_add_usage (tu_output t) (tu_output s) ''output_tokens'') (\<lambda>out.
     bind_r (checked_add_usage (tu_cache_creation t) (tu_cache_creation s) ''cache_creation_input_tokens'') (\<lambda>cc.
     bind_r (checked_add_usage (tu_cache_read t) (tu_cache_read s) ''cache_read_input_tokens'') (\<lambda>cr.
       Inr \<lparr>tu_input = i, tu_output = out, tu_cache_creation = cc, tu_cache_read = cr\<rparr>))))"

fun add_usages :: "logical_assistant_message list \<Rightarrow> usage_totals \<Rightarrow> transcript_error + usage_totals" where
  "add_usages [] totals = Inr totals"
| "add_usages (m # ms) totals =
     (case lm_usage m of
        None \<Rightarrow> add_usages ms totals
      | Some u \<Rightarrow>
          bind_r (checked_add_usage (ut_model_calls_with_usage totals) 1 ''model_calls_with_usage'') (\<lambda>calls.
          bind_r (add_tokens (ut_tokens totals) (us_tokens u)) (\<lambda>tokens.
            add_usages ms \<lparr>ut_tokens = tokens, ut_model_calls_with_usage = calls\<rparr>)))"

definition aggregate_usage :: "logical_assistant_message list \<Rightarrow> transcript_error + usage_totals" where
  "aggregate_usage messages = add_usages messages no_usage"

definition combine_usage :: "usage_totals \<Rightarrow> usage_totals \<Rightarrow> transcript_error + usage_totals" where
  "combine_usage mn side =
     bind_r (checked_add_usage (ut_model_calls_with_usage mn) (ut_model_calls_with_usage side)
               ''combined_model_calls_with_usage'') (\<lambda>calls.
     bind_r (add_tokens (ut_tokens mn) (ut_tokens side)) (\<lambda>tokens.
       Inr \<lparr>ut_tokens = tokens, ut_model_calls_with_usage = calls\<rparr>))"

section \<open>Tools\<close>

record tools_state =
  ts_tools :: "tool_record list"
  ts_positions :: "utext \<Rightarrow> nat option"
  ts_order :: u64

fun collect_calls :: "content_block list \<Rightarrow> tools_state \<Rightarrow> transcript_error + tools_state" where
  "collect_calls [] ts = Inr ts"
| "collect_calls (ToolUse ident name input # bs) ts =
     (case ts_positions ts ident of
        Some p \<Rightarrow>
          if to_name (ts_tools ts ! p) = name \<and> to_input (ts_tools ts ! p) = input then collect_calls bs ts
          else Inl (DuplicateToolCall ident)
      | None \<Rightarrow>
          collect_calls bs
            \<lparr>ts_tools = ts_tools ts @ [\<lparr>to_tool_use_id = ident, to_name = name, to_input = input,
                                       to_result = None, to_order = ts_order ts\<rparr>],
             ts_positions = (ts_positions ts)(ident \<mapsto> length (ts_tools ts)), ts_order = ts_order ts + 1\<rparr>)"
| "collect_calls (_ # bs) ts = collect_calls bs ts"

fun collect_results :: "tool_result_block list \<Rightarrow> tools_state \<Rightarrow> transcript_error + tools_state" where
  "collect_results [] ts = Inr ts"
| "collect_results (r # rs) ts =
     (case ts_positions ts (tr_tool_use_id r) of
        None \<Rightarrow> Inl (OrphanToolResult (tr_tool_use_id r))
      | Some p \<Rightarrow>
          (case to_result (ts_tools ts ! p) of
             Some existing \<Rightarrow>
               if existing = r then collect_results rs ts else Inl (DuplicateToolResult (tr_tool_use_id r))
           | None \<Rightarrow>
               collect_results rs (ts\<lparr>ts_tools := (ts_tools ts)[p := (ts_tools ts ! p)\<lparr>to_result := Some r\<rparr>]\<rparr>)))"

fun collect_tools :: "stored_row list \<Rightarrow> nat list \<Rightarrow> tools_state \<Rightarrow> transcript_error + tools_state" where
  "collect_tools rows [] ts = Inr ts"
| "collect_tools rows (i # is) ts =
     bind_r (case kind_of (rows ! i) of
               Assistant f \<Rightarrow> collect_calls (af_blocks f) ts
             | UserToolResults results \<Rightarrow> collect_results results ts
             | _ \<Rightarrow> Inr ts) (collect_tools rows is)"

definition tools :: "stored_row list \<Rightarrow> nat list \<Rightarrow> transcript_error + tool_record list" where
  "tools rows included =
     bind_r (collect_tools rows included \<lparr>ts_tools = [], ts_positions = Map.empty, ts_order = 0\<rparr>)
       (\<lambda>ts. Inr (ts_tools ts))"

section \<open>Status\<close>

text \<open>\<open>max_by_key\<close>: the last of equal maxima wins.\<close>

fun latest_message :: "logical_assistant_message list \<Rightarrow> logical_assistant_message option" where
  "latest_message [] = None"
| "latest_message (m # ms) =
     (case latest_message ms of
        None \<Rightarrow> Some m
      | Some l \<Rightarrow> if lm_last_ordinal m > lm_last_ordinal l then Some m else Some l)"

fun leaf_allows_terminal :: "row_kind \<Rightarrow> bool" where
  "leaf_allows_terminal (Assistant _) = True"
| "leaf_allows_terminal (System subtype) = (\<not> is_retry_in_flight_marker subtype)"
| "leaf_allows_terminal _ = False"

fun text_blocks :: "content_block list \<Rightarrow> utext list" where
  "text_blocks [] = []"
| "text_blocks (Text t # bs) = t # text_blocks bs"
| "text_blocks (_ # bs) = text_blocks bs"

definition outcome_of :: "logical_assistant_message \<Rightarrow> transcript_error + terminal_outcome option" where
  "outcome_of m =
     (if lm_is_api_error m then Inr (Some ApiError)
      else case lm_stop_reason m of
             Some EndTurn \<Rightarrow> Inr (Some Completed)
           | Some MaxTokens \<Rightarrow> Inr (Some OutMaxTokens)
           | Some Refusal \<Rightarrow> Inr (Some Refused)
           | Some StopSequence \<Rightarrow> Inr (Some Completed)
           | Some (UnknownStop v) \<Rightarrow>
               Inl (SchemaDrift (if lm_row_uuids m = [] then None else Some (last (lm_row_uuids m)))
                      ''$.message.stop_reason'' (SaysText ''unknown stop reason '' v ''''))
           | _ \<Rightarrow> Inr None)"

definition turn_status_of ::
  "stored_row list \<Rightarrow> logical_assistant_message list \<Rightarrow> nat \<Rightarrow> transcript_error + turn_status" where
  "turn_status_of rows messages leaf =
     (case latest_message messages of
        None \<Rightarrow> Inr (Running None)
      | Some m \<Rightarrow>
          if \<not> leaf_allows_terminal (kind_of (rows ! leaf)) then Inr (Running (lm_stop_reason m))
          else bind_r (outcome_of m) (\<lambda>out_opt.
            case out_opt of
              None \<Rightarrow> Inr (Running (lm_stop_reason m))
            | Some outcome \<Rightarrow>
                let blocks = text_blocks (lm_blocks m)
                in if blocks = [] \<and> (outcome = Completed \<or> outcome = OutMaxTokens)
                   then Inl (TerminalMessageMissingText (lm_key m))
                   else Inr (Terminal \<lparr>ft_outcome = outcome, ft_message_key = lm_key m,
                                       ft_stop_reason = lm_stop_reason m, ft_final_text = concat blocks,
                                       ft_final_text_blocks = blocks, ft_model = lm_model m\<rparr>)))"

section \<open>The analysis\<close>

definition unknown_warnings_after :: "stored_row list \<Rightarrow> u64 \<Rightarrow> engine_warning list" where
  "unknown_warnings_after rows ordinal =
     List.map_filter (\<lambda>s. if sr_ordinal s < ordinal then None
                           else case kind_of s of
                                  UnknownRow d \<Rightarrow> Some (WarnUnknownRow (sr_ordinal s) d)
                                | _ \<Rightarrow> None) rows"

definition validate_active_unknowns :: "stored_row list \<Rightarrow> nat list \<Rightarrow> transcript_error + unit" where
  "validate_active_unknowns rows path =
     check_each (\<lambda>i. case kind_of (rows ! i) of
         UnknownRow d \<Rightarrow>
           Inl (SchemaDrift (uuid_of (rows ! i)) ''$.type''
                  (SaysOption ''unknown row type '' d '' is on the active parent chain''))
       | _ \<Rightarrow> Inr ()) path"

definition on_path :: "stored_row list \<Rightarrow> string \<Rightarrow> nat list \<Rightarrow> nat" where
  "on_path rows subtype path =
     length (filter (\<lambda>i. kind_of (rows ! i) = System (Some (ascii subtype))) path)"

definition analyze :: "transcript_engine \<Rightarrow> transcript_error + transcript_analysis" where
  "analyze e =
     (let rows = te_rows e in
      case te_active_turn e of
        None \<Rightarrow> Inl NoTurnArmed
      | Some turn \<Rightarrow>
          (case at_acknowledgement turn of
             None \<Rightarrow>
               Inr \<lparr>ta_status = AwaitingPromptAcknowledgement, ta_acknowledgement = None, ta_active_chain = [],
                    ta_messages = [], ta_tools = [], ta_usage = no_usage, ta_sidechain_usage = no_usage,
                    ta_combined_usage = no_usage, ta_turn_duration_seen = False,
                    ta_stop_hook_summary_seen = False, ta_api_error_retries_seen = 0, ta_sidechain_rows = 0,
                    ta_warnings = unknown_warnings_after rows (at_armed_at_ordinal turn)\<rparr>
           | Some ack \<Rightarrow>
               bind_r (strict_active_indices e ack) (\<lambda>active.
               bind_r (validate_active_unknowns rows (ai_path active)) (\<lambda>_.
               bind_r (logical_messages rows (ai_included active) True) (\<lambda>messages.
               bind_r (aggregate_usage messages) (\<lambda>usage.
               bind_r (sidechain_indices e ack) (\<lambda>sidechain.
               bind_r (logical_messages rows sidechain False) (\<lambda>sidechain_messages.
               bind_r (aggregate_usage sidechain_messages) (\<lambda>sidechain_usage.
               bind_r (combine_usage usage sidechain_usage) (\<lambda>combined_usage.
               bind_r (tools rows (ai_included active)) (\<lambda>tool_records.
               bind_r (turn_status_of rows messages (ai_leaf_index active)) (\<lambda>status.
                 Inr \<lparr>ta_status = status, ta_acknowledgement = Some ack,
                      ta_active_chain = List.map_filter (\<lambda>i. uuid_of (rows ! i)) (ai_path active),
                      ta_messages = messages, ta_tools = tool_records, ta_usage = usage,
                      ta_sidechain_usage = sidechain_usage, ta_combined_usage = combined_usage,
                      ta_turn_duration_seen = (on_path rows ''turn_duration'' (ai_path active) > 0),
                      ta_stop_hook_summary_seen = (on_path rows ''stop_hook_summary'' (ai_path active) > 0),
                      ta_api_error_retries_seen = min (on_path rows ''api_error'' (ai_path active)) u64_max,
                      ta_sidechain_rows = sidechain_row_count e ack,
                      ta_warnings = unknown_warnings_after rows (at_armed_at_ordinal turn)\<rparr>))))))))))))"

end
