(* ===== verification/Acknowledgement.thy ===== *)
theory Acknowledgement
  imports Engine
begin

text \<open>
  The states of the transcript engine that its operations reach: the UUID index is exact, ordinals are
  positions, and an acknowledgement is the one typed main-chain prompt since the turn was armed.
\<close>

section \<open>The engine's operations as steps\<close>

definition engine_start :: "transcript_engine \<Rightarrow> bool" where
  "engine_start e \<longleftrightarrow> e = engine_new"

text \<open>Rows are counted below \<open>u64::MAX\<close>: a \<open>Vec\<close> cannot hold more.\<close>

inductive engine_step :: "(utext \<Rightarrow> utext) \<Rightarrow> transcript_engine \<Rightarrow> transcript_engine \<Rightarrow> bool" for nfc where
  arm: "arm_turn nfc prompt e = Inr e' \<Longrightarrow> engine_step nfc e e'"
| disarm: "disarm_turn e = Inr e' \<Longrightarrow> engine_step nfc e e'"
| ingest: "ingest nfc row e = (r, e') \<Longrightarrow> length (te_rows e) < u64_max \<Longrightarrow> engine_step nfc e e'"

abbreviation engine_reachable :: "(utext \<Rightarrow> utext) \<Rightarrow> transcript_engine \<Rightarrow> bool" where
  "engine_reachable nfc e \<equiv> (engine_step nfc)\<^sup>*\<^sup>* engine_new e"

section \<open>The invariant\<close>

definition index_exact :: "transcript_engine \<Rightarrow> bool" where
  "index_exact e \<longleftrightarrow>
     (\<forall>u i. te_by_uuid e u = Some i \<longleftrightarrow> i < length (te_rows e) \<and> uuid_of (te_rows e ! i) = Some u)"

definition ordinals_exact :: "transcript_engine \<Rightarrow> bool" where
  "ordinals_exact e \<longleftrightarrow>
     te_next_ordinal e = length (te_rows e) \<and> length (te_rows e) \<le> u64_max
     \<and> (\<forall>i < length (te_rows e). sr_ordinal (te_rows e ! i) = i)"

fun is_typed_user :: "row_kind \<Rightarrow> bool" where
  "is_typed_user (TypedUser _ _) = True"
| "is_typed_user _ = False"

definition typed_since :: "nat \<Rightarrow> stored_row list \<Rightarrow> nat set" where
  "typed_since n rows = {i. n \<le> i \<and> i < length rows \<and> scope_of (rows ! i) = Main \<and> is_typed_user (kind_of (rows ! i))}"

definition acknowledges :: "(utext \<Rightarrow> utext) \<Rightarrow> active_turn \<Rightarrow> stored_row \<Rightarrow> prompt_acknowledgement \<Rightarrow> bool" where
  "acknowledges nfc t s ack \<longleftrightarrow>
     uuid_of s = Some (pa_row_uuid ack) \<and> scope_of s = Main \<and> sr_ordinal s = pa_ordinal ack
     \<and> (\<exists>prompt. kind_of s = TypedUser prompt (pa_prompt_id ack)
          \<and> normalize_prompt nfc prompt = at_expected_prompt t)"

definition turn_exact :: "(utext \<Rightarrow> utext) \<Rightarrow> transcript_engine \<Rightarrow> active_turn \<Rightarrow> bool" where
  "turn_exact nfc e t \<longleftrightarrow>
     at_armed_at_ordinal t \<le> length (te_rows e)
     \<and> (case at_acknowledgement t of
          None \<Rightarrow> typed_since (at_armed_at_ordinal t) (te_rows e) = {}
        | Some ack \<Rightarrow>
            typed_since (at_armed_at_ordinal t) (te_rows e) = {pa_ordinal ack}
            \<and> acknowledges nfc t (te_rows e ! pa_ordinal ack) ack)"

definition engine_ok :: "(utext \<Rightarrow> utext) \<Rightarrow> transcript_engine \<Rightarrow> bool" where
  "engine_ok nfc e \<longleftrightarrow>
     index_exact e \<and> ordinals_exact e
     \<and> (case te_active_turn e of None \<Rightarrow> True | Some t \<Rightarrow> turn_exact nfc e t)"

lemma typed_since_append:
  "typed_since n (rows @ [s]) =
     typed_since n rows \<union> (if n \<le> length rows \<and> scope_of s = Main \<and> is_typed_user (kind_of s) then {length rows} else {})"
  by (auto simp: typed_since_def nth_append less_Suc_eq)

text \<open>A row that is no acknowledgement, or is one, leaves the turn exact.\<close>

lemma acknowledge_exact:
  assumes ack: "acknowledge nfc (length rows) row (te_active_turn e) = Inr (turn, acked)"
    and e: "case te_active_turn e of None \<Rightarrow> True | Some t \<Rightarrow> turn_exact nfc e t" and rows: "te_rows e = rows"
    and e': "te_rows e' = rows @ [\<lparr>sr_ordinal = length rows, sr_row = row\<rparr>]"
  shows "case turn of None \<Rightarrow> True | Some t \<Rightarrow> turn_exact nfc e' t"
proof (cases "te_active_turn e")
  case None
  with ack show ?thesis by (simp add: acknowledge_def)
next
  case (Some t)
  with e rows have t: "turn_exact nfc e t" by simp
  then have armed: "at_armed_at_ordinal t \<le> length rows" by (simp add: turn_exact_def rows)
  show ?thesis
  proof (cases "cf_scope (pr_common row) = Main \<and> is_typed_user (pr_kind row)")
    case True
    then obtain prompt prompt_id where k: "pr_kind row = TypedUser prompt prompt_id"
      by (cases "pr_kind row") auto
    from ack Some k True armed obtain u where
      "at_acknowledgement t = None" "normalize_prompt nfc prompt = at_expected_prompt t"
      "cf_uuid (pr_common row) = Some u"
      "turn = Some (t\<lparr>at_acknowledgement :=
          Some \<lparr>pa_row_uuid = u, pa_prompt_id = prompt_id, pa_ordinal = length rows\<rparr>\<rparr>)"
      by (auto simp: acknowledge_def Let_def split: if_splits option.splits)
    with t k True armed show ?thesis
      by (auto simp: turn_exact_def e' rows typed_since_append acknowledges_def)
  next
    case False
    then have turn: "turn = Some t"
      using ack Some by (auto simp: acknowledge_def split: row_kind.splits if_splits)
    have typed: "typed_since n (te_rows e') = typed_since n rows" for n
      using False by (auto simp: e' typed_since_append)
    have "pa_ordinal a < length rows" if "typed_since n rows = {pa_ordinal a}" for n a
      using that by (auto simp: typed_since_def)
    then show ?thesis
      using t armed unfolding turn turn_exact_def typed rows
      by (auto simp: e' nth_append split: option.splits)
  qed
qed

lemma index_exact_append:
  assumes "index_exact e" and "te_rows e' = te_rows e @ [s]"
    and fresh: "\<And>u. uuid_of s = Some u \<Longrightarrow> te_by_uuid e u = None"
    and "te_by_uuid e' = (case uuid_of s of None \<Rightarrow> te_by_uuid e | Some u \<Rightarrow> (te_by_uuid e)(u \<mapsto> length (te_rows e)))"
  shows "index_exact e'"
proof -
  have *: "te_by_uuid e u = Some i \<longleftrightarrow> i < length (te_rows e) \<and> uuid_of (te_rows e ! i) = Some u" for u i
    using assms(1) by (simp add: index_exact_def)
  have new: "uuid_of (te_rows e ! i) \<noteq> Some u" if "uuid_of s = Some u" "i < length (te_rows e)" for u i
    using * [of u i] fresh [OF that(1)] that(2) by simp
  show ?thesis
    unfolding index_exact_def assms(2,4)
    using * fresh new by (auto simp: nth_append less_Suc_eq split: option.splits if_splits)
qed

lemma ingest_cases:
  assumes "ingest nfc row e = (r, e')"
  obtains (same) "e' = e"
  | (added) turn acked where
      "acknowledge nfc (te_next_ordinal e) row (te_active_turn e) = Inr (turn, acked)"
      "\<And>u. cf_uuid (pr_common row) = Some u \<Longrightarrow> te_by_uuid e u = None"
      "te_active_turn e' = turn" "te_next_ordinal e' = sat_add64 (te_next_ordinal e) 1"
      "te_rows e' = te_rows e @ [\<lparr>sr_ordinal = te_next_ordinal e, sr_row = row\<rparr>]"
      "te_by_uuid e' = (case cf_uuid (pr_common row) of
           None \<Rightarrow> te_by_uuid e | Some u \<Rightarrow> (te_by_uuid e)(u \<mapsto> length (te_rows e)))"
proof (cases "Option.bind (cf_uuid (pr_common row)) (\<lambda>u. map_option (\<lambda>i. (u, i)) (te_by_uuid e u))")
  case None
  then have fresh: "\<And>u. cf_uuid (pr_common row) = Some u \<Longrightarrow> te_by_uuid e u = None" by auto
  show thesis
  proof (cases "acknowledge nfc (te_next_ordinal e) row (te_active_turn e)")
    case (Inl x)
    with assms None show thesis by (intro same) (simp add: ingest_def)
  next
    case (Inr p)
    then obtain turn acked where "acknowledge nfc (te_next_ordinal e) row (te_active_turn e) = Inr (turn, acked)"
      by (cases p) auto
    with assms None fresh show thesis by (intro added) (auto simp: ingest_def Let_def)
  qed
next
  case (Some p)
  with assms show thesis by (intro same) (auto simp: ingest_def split: prod.splits if_splits)
qed

lemma ingest_ok:
  assumes ok: "engine_ok nfc e" and "ingest nfc row e = (r, e')" and len: "length (te_rows e) < u64_max"
  shows "engine_ok nfc e'"
  using assms(2)
proof (cases rule: ingest_cases)
  case same
  with ok show ?thesis by simp
next
  case (added turn acked)
  from ok have ord: "te_next_ordinal e = length (te_rows e)" and ords: "ordinals_exact e" and idx: "index_exact e"
    and t: "case te_active_turn e of None \<Rightarrow> True | Some t \<Rightarrow> turn_exact nfc e t"
    by (simp_all add: engine_ok_def ordinals_exact_def)
  have "index_exact e'" using added by (intro index_exact_append [OF idx added(5)]) auto
  moreover have "ordinals_exact e'"
    using added ords len by (auto simp: ordinals_exact_def nth_append less_Suc_eq sat_add64_exact)
  moreover have "case turn of None \<Rightarrow> True | Some t \<Rightarrow> turn_exact nfc e' t"
    using acknowledge_exact [OF _ t refl] added ord by simp
  ultimately show ?thesis using added(3) by (simp add: engine_ok_def)
qed

lemma arm_ok: "engine_ok nfc e \<Longrightarrow> arm_turn nfc prompt e = Inr e' \<Longrightarrow> engine_ok nfc e'"
  by (auto simp: arm_turn_def engine_ok_def index_exact_def ordinals_exact_def turn_exact_def typed_since_def
      split: if_splits)

lemma disarm_ok: "engine_ok nfc e \<Longrightarrow> disarm_turn e = Inr e' \<Longrightarrow> engine_ok nfc e'"
  by (auto simp: disarm_turn_def engine_ok_def index_exact_def ordinals_exact_def split: if_splits)

interpretation engine_sys: transition_system engine_start "engine_step nfc" "engine_ok nfc" for nfc
proof
  show "engine_ok nfc e" if "engine_start e" for e
    using that by (simp add: engine_start_def engine_new_def engine_ok_def index_exact_def ordinals_exact_def)
  show "engine_ok nfc e'" if "engine_ok nfc e" "engine_step nfc e e'" for e e'
    using that(2,1) by cases (auto intro: arm_ok disarm_ok ingest_ok)
qed

lemma engine_reachable_ok: "engine_reachable nfc e \<Longrightarrow> engine_ok nfc e"
  by (rule engine_sys.inv_reachable) (simp_all add: engine_start_def)

section \<open>Properties\<close>

text \<open>C24: In every state the engine's operations reach, an acknowledged turn names the one typed
  main-chain prompt appended since the turn was armed, and that prompt's canonical form is the armed one; an
  unacknowledged turn has seen none. No earlier prompt and no other prompt can be mistaken for the turn's.\<close>

theorem acknowledgement_is_the_armed_prompt:
  assumes "engine_reachable nfc e" and "te_active_turn e = Some t"
  shows "case at_acknowledgement t of
           None \<Rightarrow> typed_since (at_armed_at_ordinal t) (te_rows e) = {}
         | Some ack \<Rightarrow>
             typed_since (at_armed_at_ordinal t) (te_rows e) = {pa_ordinal ack}
             \<and> uuid_of (te_rows e ! pa_ordinal ack) = Some (pa_row_uuid ack)
             \<and> (\<exists>prompt. kind_of (te_rows e ! pa_ordinal ack) = TypedUser prompt (pa_prompt_id ack)
                  \<and> normalize_prompt nfc prompt = at_expected_prompt t)"
  using engine_reachable_ok [OF assms(1)] assms(2)
  by (auto simp: engine_ok_def turn_exact_def acknowledges_def split: option.splits)

text \<open>A turn armed with \<open>hi\<close> after an older prompt, acknowledged by its own row.\<close>

definition sample_row :: "string \<Rightarrow> string option \<Rightarrow> row_scope \<Rightarrow> row_kind \<Rightarrow> parsed_row" where
  "sample_row u p sc k =
     \<lparr>pr_source = \<lparr>sl_line = 1, sl_byte_offset = 0\<rparr>,
      pr_common = \<lparr>cf_uuid = Some (ascii u), cf_parent_uuid = map_option ascii p, cf_session_id = None, cf_scope = sc\<rparr>,
      pr_kind = k, pr_raw = VString (ascii u)\<rparr>"

definition sample_prompt :: parsed_row where
  "sample_prompt = sample_row ''p'' None Main (TypedUser (ascii ''hi'') None)"

definition armed_with :: "utext \<Rightarrow> transcript_engine" where
  "armed_with prompt =
     engine_new\<lparr>te_active_turn :=
       Some \<lparr>at_expected_prompt = prompt, at_armed_at_ordinal = 0, at_acknowledgement = None\<rparr>\<rparr>"

fun feed :: "(utext \<Rightarrow> utext) \<Rightarrow> parsed_row list \<Rightarrow> transcript_engine \<Rightarrow> transcript_engine" where
  "feed nfc [] e = e"
| "feed nfc (row # rows) e = feed nfc rows (snd (ingest nfc row e))"

lemma normalize_hi: "normalize_prompt id (ascii ''hi'') = ascii ''hi''"
  by code_simp

lemma armed_reachable: "engine_reachable id (armed_with (ascii ''hi''))"
proof -
  have "arm_turn id (ascii ''hi'') engine_new = Inr (armed_with (ascii ''hi''))"
    by (simp add: arm_turn_def armed_with_def engine_new_def normalize_hi)
  then show ?thesis by (auto intro: engine_step.arm)
qed

lemma ingest_rows: "length (te_rows (snd (ingest nfc row e))) \<le> Suc (length (te_rows e))"
  by (cases "ingest nfc row e") (auto elim: ingest_cases)

lemma feed_reachable:
  "engine_reachable nfc e \<Longrightarrow> length (te_rows e) + length rows \<le> u64_max \<Longrightarrow> engine_reachable nfc (feed nfc rows e)"
proof (induction rows arbitrary: e)
  case (Cons row rows)
  let ?e = "snd (ingest nfc row e)"
  have "engine_step nfc e ?e"
    by (rule engine_step.ingest [of nfc row e "fst (ingest nfc row e)"]) (use Cons.prems(2) in simp_all)
  with Cons.prems(1) have "engine_reachable nfc ?e" by (rule rtranclp.rtrancl_into_rtrancl)
  moreover have "length (te_rows ?e) + length rows \<le> u64_max"
    using Cons.prems(2) ingest_rows [of nfc row e] by simp
  ultimately show ?case by (simp add: Cons.IH)
qed simp

definition acknowledged_turn :: active_turn where
  "acknowledged_turn =
     \<lparr>at_expected_prompt = ascii ''hi'', at_armed_at_ordinal = 0,
      at_acknowledgement = Some \<lparr>pa_row_uuid = ascii ''p'', pa_prompt_id = None, pa_ordinal = 0\<rparr>\<rparr>"

lemma acknowledged_turn_armed:
  "te_active_turn (feed id [sample_prompt] (armed_with (ascii ''hi''))) = Some acknowledged_turn"
  by (simp add: sample_prompt_def sample_row_def armed_with_def engine_new_def ingest_def acknowledge_def
      normalize_hi acknowledged_turn_def Let_def)

theorem acknowledgement_is_the_armed_prompt_witness:
  "let e = feed id [sample_prompt] (armed_with (ascii ''hi''))
   in case at_acknowledgement acknowledged_turn of
           None \<Rightarrow> typed_since (at_armed_at_ordinal acknowledged_turn) (te_rows e) = {}
         | Some ack \<Rightarrow>
             typed_since (at_armed_at_ordinal acknowledged_turn) (te_rows e) = {pa_ordinal ack}
             \<and> uuid_of (te_rows e ! pa_ordinal ack) = Some (pa_row_uuid ack)
             \<and> (\<exists>prompt. kind_of (te_rows e ! pa_ordinal ack) = TypedUser prompt (pa_prompt_id ack)
                  \<and> normalize_prompt id prompt = at_expected_prompt acknowledged_turn)"
  unfolding Let_def
  by (rule acknowledgement_is_the_armed_prompt [OF _ acknowledged_turn_armed])
     (rule feed_reachable [OF armed_reachable], simp add: armed_with_def engine_new_def u64_max_def)

end
