(* ===== verification/ActivePath.thy ===== *)
theory ActivePath
  imports Acknowledgement
begin

text \<open>
  The active path the engine computes: it starts at the acknowledged prompt, follows parent links, and holds every
  live main-chain row since the prompt. The worklist traversals only add rows; the walk and the count of
  the reachable rows make the path the whole of them.
\<close>

section \<open>Children\<close>

lemma children_of_append:
  "children_of rows (is @ [i]) =
     (case parent_of (rows ! i) of None \<Rightarrow> children_of rows is | Some p \<Rightarrow> push_child p i (children_of rows is))"
  by (cases "parent_of (rows ! i)") (simp_all add: children_of_def)

lemma children_of_Nil [simp]: "children_of rows [] = Map.empty"
  by (simp add: children_of_def)

lemma children_of_eq:
  "children_of rows is p =
     (let cs = filter (\<lambda>i. parent_of (rows ! i) = Some p) is in if cs = [] then None else Some cs)"
proof (induction "is" rule: rev_induct)
  case (snoc i "is")
  then show ?case
    by (cases "parent_of (rows ! i)") (auto simp: children_of_append push_child_def Let_def)
qed simp

lemma children_of_SomeD:
  "children_of rows is p = Some cs \<Longrightarrow> i \<in> set cs \<Longrightarrow> i \<in> set is \<and> parent_of (rows ! i) = Some p"
  by (auto simp: children_of_eq Let_def split: if_splits)

section \<open>Traversals add rows\<close>

lemma visit_grows: "fold (visit rows) is (seen, todo) = (seen', todo') \<Longrightarrow> seen \<subseteq> seen' \<and> seen' \<subseteq> seen \<union> {..<length rows}"
proof (induction "is" arbitrary: seen todo)
  case (Cons i "is")
  show ?case
  proof (cases "i < length rows \<and> i \<notin> seen")
    case True
    with Cons.prems Cons.IH [of "insert i seen"] show ?thesis by auto
  next
    case False
    then have "i \<in> seen \<or> i \<ge> length rows" by auto
    with Cons.prems Cons.IH [of seen] show ?thesis by simp
  qed
qed auto

lemma traverse_grows: "seen \<subseteq> traverse rows ch todo seen"
proof (induction rows ch todo seen rule: traverse.induct)
  case (2 rows ch u todo seen)
  show ?case
  proof (cases "ch u")
    case (Some "is")
    obtain seen' todo' where f: "fold (visit rows) is (seen, todo) = (seen', todo')" by fastforce
    from "2.IH"(2) [OF Some f [symmetric]] visit_grows [OF f] show ?thesis by (auto simp: Some f)
  qed (use "2.IH"(1) in simp)
qed simp

lemma admit_grows: "seen \<subseteq> admit_by_ancestry rows ack idx i seen"
  by (auto simp: admit_by_ancestry_def split: option.splits)

lemma fold_grows:
  assumes "\<And>x S. S \<subseteq> f x S"
  shows "S \<subseteq> fold f xs S"
proof (induction xs arbitrary: S)
  case (Cons x xs)
  from assms [of S x] Cons [of "f x S"] show ?case by auto
qed simp

lemma ack_reachable: "ack \<in> reachable_set rows ack u n"
proof -
  let ?seen1 = "traverse rows (children_of rows (graph_rows_of rows n)) [u] {ack}"
  have "{ack} \<subseteq> ?seen1" by (rule traverse_grows)
  also have "\<dots> \<subseteq> fold (admit_by_ancestry rows ack (all_uuid_to_index_of rows)) (graph_rows_of rows n) ?seen1"
    by (rule fold_grows) (rule admit_grows)
  also have "\<dots> \<subseteq> reachable_set rows ack u n" unfolding reachable_set_def Let_def by (rule traverse_grows)
  finally show ?thesis by simp
qed

section \<open>The walk\<close>

definition linked :: "stored_row list \<Rightarrow> nat \<Rightarrow> nat \<Rightarrow> bool" where
  "linked rows i j \<longleftrightarrow> uuid_of (rows ! i) \<noteq> None \<and> parent_of (rows ! j) = uuid_of (rows ! i)"

lemma check_each_Inr: "check_each f xs = Inr u \<longleftrightarrow> (\<forall>x \<in> set xs. f x = Inr ())"
  by (induction xs) (auto simp: bind_r_Inr)

lemma check_each_ok: "check_each f xs = Inr u \<Longrightarrow> x \<in> set xs \<Longrightarrow> f x = Inr ()"
  by (simp add: check_each_Inr)

lemma walk_spec:
  assumes "walk rows (children_of rows R) u V path = Inr path'"
    and "\<forall>i \<in> set R. i < length rows \<and> uuid_of (rows ! i) \<noteq> None"
    and "path \<noteq> []" and "uuid_of (rows ! last path) = Some u"
    and "distinct (map (\<lambda>i. uuid_of (rows ! i)) path)" and "set (map (\<lambda>i. uuid_of (rows ! i)) path) = Some ` V"
    and "successively (linked rows) path"
  shows "\<exists>ext. path' = path @ ext \<and> set ext \<subseteq> set R \<and> distinct (map (\<lambda>i. uuid_of (rows ! i)) path')
           \<and> successively (linked rows) path'"
  using assms
proof (induction rows "children_of rows R" u V path rule: walk.induct)
  case (1 rows u V path)
  show ?case
  proof (cases "children_of rows R u")
    case None
    with "1.prems" show ?thesis by (simp add: walk.simps)
  next
    case (Some cs)
    with "1.prems"(1) obtain nx where cs: "cs = [nx]"
      by (simp add: walk.simps split: list.splits)
    with Some have nx: "nx \<in> set R" "parent_of (rows ! nx) = Some u"
      using children_of_SomeD [of rows R u cs nx] by auto
    with "1.prems"(2) obtain v where v: "nx < length rows" "uuid_of (rows ! nx) = Some v" by auto
    with "1.prems"(1) Some cs have fresh: "v \<notin> V"
      and step: "walk rows (children_of rows R) v (insert v V) (path @ [nx]) = Inr path'"
      by (simp_all add: walk.simps [of rows _ u] split: if_splits)
    have "\<exists>ext. path' = (path @ [nx]) @ ext \<and> set ext \<subseteq> set R
        \<and> distinct (map (\<lambda>i. uuid_of (rows ! i)) path') \<and> successively (linked rows) path'"
    proof (rule "1.hyps" [OF Some cs refl _ fresh step "1.prems"(2)])
      show "successively (linked rows) (path @ [nx])"
        using "1.prems"(3,4,7) nx(2) by (simp add: successively_append_iff linked_def)
    qed (use v fresh "1.prems"(5,6) in auto)
    with nx(1) show ?thesis by auto
  qed
qed

section \<open>The path is the turn\<close>

definition live_since :: "stored_row list \<Rightarrow> nat \<Rightarrow> nat set" where
  "live_since rows n =
     {i. n \<le> i \<and> i < length rows \<and> scope_of (rows ! i) = Main \<and> is_live_semantic_row (kind_of (rows ! i))}"

lemma live_not_metadata: "is_live_semantic_row k \<Longrightarrow> \<not> is_metadata k"
  by (cases k) auto

lemma strict_active_indices_cases:
  assumes "strict_active_indices e ack = Inr ai"
  obtains ack_index seen R where
    "te_by_uuid e (pa_row_uuid ack) = Some ack_index"
    "seen = reachable_set (te_rows e) ack_index (pa_row_uuid ack) (pa_ordinal ack)"
    "R = main_rows (te_rows e) seen"
    "\<forall>i \<in> set R. check_reachable_row (te_rows e) ack_index (pa_ordinal ack) (all_uuid_to_index_of (te_rows e)) i = Inr ()"
    "\<forall>i \<in> set (graph_rows_of (te_rows e) (pa_ordinal ack)). check_connected (te_rows e) ack_index seen i = Inr ()"
    "walk (te_rows e) (children_of (te_rows e) (filter (\<lambda>i. i \<noteq> ack_index) R)) (pa_row_uuid ack) {pa_row_uuid ack} [ack_index]
       = Inr (ai_path ai)"
    "length (ai_path ai) = length R"
    "validate_strict_active_path (te_rows e) (ai_path ai) = Inr ()"
    "ai_included ai = ai_path ai" "ai_leaf_index ai = last (ai_path ai)"
proof -
  obtain ack_index where "te_by_uuid e (pa_row_uuid ack) = Some ack_index"
    using assms by (auto simp: strict_active_indices_def Let_def split: option.splits)
  with assms show thesis
    by (intro that [OF _ refl refl])
       (auto simp: strict_active_indices_def Let_def bind_r_Inr check_each_Inr split: if_splits)
qed

lemma main_rows_iff:
  "i \<in> set (main_rows rows seen) \<longleftrightarrow>
     i < length rows \<and> i \<in> seen \<and> scope_of (rows ! i) = Main \<and> \<not> is_metadata (kind_of (rows ! i))"
  by (auto simp: main_rows_def)

lemma distinct_main_rows: "distinct (main_rows rows seen)"
  by (simp add: main_rows_def)

lemma check_reachable_uuid:
  "check_reachable_row rows ack n idx i = Inr () \<Longrightarrow> i \<noteq> ack \<Longrightarrow> uuid_of (rows ! i) \<noteq> None"
  by (auto simp: check_reachable_row_def Let_def split: option.splits)

lemma check_connected_ok:
  "check_connected rows ack seen i = Inr () \<Longrightarrow> is_live_semantic_row (kind_of (rows ! i)) \<Longrightarrow> i = ack \<or> i \<in> seen"
  by (auto simp: check_connected_def split: if_splits)

definition whole_turn :: "stored_row list \<Rightarrow> prompt_acknowledgement \<Rightarrow> nat list \<Rightarrow> bool" where
  "whole_turn rows ack path \<longleftrightarrow>
     path \<noteq> [] \<and> hd path = pa_ordinal ack \<and> distinct path \<and> successively (linked rows) path
     \<and> (\<forall>i \<in> set path. i < length rows \<and> scope_of (rows ! i) = Main \<and> uuid_of (rows ! i) \<noteq> None)
     \<and> live_since rows (pa_ordinal ack) \<subseteq> set path"

lemma active_path_whole:
  assumes idx: "index_exact e" and ords: "ordinals_exact e" and t: "turn_exact nfc e t"
    and ack: "at_acknowledgement t = Some ack" and ai: "strict_active_indices e ack = Inr ai"
  shows "whole_turn (te_rows e) ack (ai_path ai)"
proof -
  let ?rows = "te_rows e" and ?a = "pa_ordinal ack"
  from t ack have "?a \<in> typed_since (at_armed_at_ordinal t) ?rows" "acknowledges nfc t (?rows ! ?a) ack"
    by (simp_all add: turn_exact_def)
  then have a: "?a < length ?rows" "scope_of (?rows ! ?a) = Main" "\<not> is_metadata (kind_of (?rows ! ?a))"
    "uuid_of (?rows ! ?a) = Some (pa_row_uuid ack)"
    by (auto simp: acknowledges_def typed_since_def)
  then have at_ack: "te_by_uuid e (pa_row_uuid ack) = Some ?a"
    using idx by (simp add: index_exact_def)
  from ai show ?thesis
  proof (cases rule: strict_active_indices_cases)
    case (1 ack_index seen R)
    with at_ack have ai: "ack_index = ?a" by simp
    let ?R = "filter (\<lambda>i. i \<noteq> ?a) R"
    have R: "i \<in> set R \<longleftrightarrow> i < length ?rows \<and> i \<in> seen \<and> scope_of (?rows ! i) = Main \<and> \<not> is_metadata (kind_of (?rows ! i))" for i
      by (simp add: 1 main_rows_iff)
    have aR: "?a \<in> set R" using a ack_reachable [of ?a ?rows] by (simp add: R 1(2) ai)
    have ok: "\<forall>i \<in> set ?R. i < length ?rows \<and> uuid_of (?rows ! i) \<noteq> None"
      using 1(4) check_reachable_uuid by (fastforce simp: R ai)
    obtain ext where ext: "ai_path ai = [?a] @ ext" "set ext \<subseteq> set ?R"
      "distinct (map (\<lambda>i. uuid_of (?rows ! i)) (ai_path ai))" "successively (linked ?rows) (ai_path ai)"
      using walk_spec [OF 1(6) [unfolded ai] ok] a(4) by auto
    then have d: "distinct (ai_path ai)" by (auto simp: distinct_map)
    have "set (ai_path ai) = set R"
    proof (rule card_subset_eq)
      show "set (ai_path ai) \<subseteq> set R" using ext(1,2) aR by auto
      show "card (set (ai_path ai)) = card (set R)"
        using d distinct_main_rows [of ?rows seen] 1(3,7) by (simp add: distinct_card)
    qed simp
    moreover have "live_since ?rows ?a \<subseteq> set R"
    proof
      fix i assume "i \<in> live_since ?rows ?a"
      then have i: "?a \<le> i" "i < length ?rows" "scope_of (?rows ! i) = Main" "is_live_semantic_row (kind_of (?rows ! i))"
        by (auto simp: live_since_def)
      then have "i \<in> set (graph_rows_of ?rows ?a)"
        using ords live_not_metadata by (auto simp: graph_rows_of_def in_graph_def ordinals_exact_def)
      with 1(5) check_connected_ok i(4) have "i = ?a \<or> i \<in> seen" unfolding ai by blast
      with i aR live_not_metadata show "i \<in> set R" by (auto simp: R)
    qed
    moreover have "\<forall>i \<in> set (ai_path ai). uuid_of (?rows ! i) \<noteq> None"
      using ext(1,2) ok a(4) by auto
    ultimately show ?thesis using ext d by (auto simp: whole_turn_def R)
  qed
qed

text \<open>What a successful analysis of an acknowledged turn went through.\<close>

lemma analyze_cases:
  assumes "analyze e = Inr a" and "ta_acknowledgement a = Some ack"
  obtains t ai side side_messages where
    "te_active_turn e = Some t" "at_acknowledgement t = Some ack" "strict_active_indices e ack = Inr ai"
    "validate_active_unknowns (te_rows e) (ai_path ai) = Inr ()"
    "logical_messages (te_rows e) (ai_included ai) True = Inr (ta_messages a)"
    "aggregate_usage (ta_messages a) = Inr (ta_usage a)"
    "sidechain_indices e ack = Inr side" "logical_messages (te_rows e) side False = Inr side_messages"
    "aggregate_usage side_messages = Inr (ta_sidechain_usage a)"
    "combine_usage (ta_usage a) (ta_sidechain_usage a) = Inr (ta_combined_usage a)"
    "tools (te_rows e) (ai_included ai) = Inr (ta_tools a)"
    "turn_status_of (te_rows e) (ta_messages a) (ai_leaf_index ai) = Inr (ta_status a)"
    "ta_active_chain a = List.map_filter (\<lambda>i. uuid_of (te_rows e ! i)) (ai_path ai)"
proof -
  from assms obtain t where t: "te_active_turn e = Some t"
    by (auto simp: analyze_def Let_def split: option.splits)
  show thesis
  proof (cases "at_acknowledgement t")
    case None
    with assms t show thesis by (auto simp: analyze_def Let_def)
  next
    case (Some ack')
    with assms t have "ack' = ack" by (auto simp: analyze_def Let_def bind_r_Inr)
    with assms t Some show thesis by (auto simp: analyze_def Let_def bind_r_Inr intro: that)
  qed
qed

lemma map_filter_uuids:
  "\<forall>i \<in> set path. uuid_of (rows ! i) \<noteq> None \<Longrightarrow>
     map Some (List.map_filter (\<lambda>i. uuid_of (rows ! i)) path) = map (\<lambda>i. uuid_of (rows ! i)) path"
  by (induction path) (auto simp: map_filter_simps split: option.splits)

text \<open>C23: An analysis that succeeds has accounted for the whole turn. The reported chain starts at the
  acknowledged prompt, each further row is the child of the row before it, no row repeats, all are main-chain rows, and
  every prompt, tool result and assistant row appended to the main chain since the prompt is on it: none is skipped
  and there is no second branch.\<close>

theorem active_chain_is_the_whole_turn:
  assumes "engine_reachable nfc e" and "analyze e = Inr a" and "ta_acknowledgement a = Some ack"
  shows "\<exists>path. map Some (ta_active_chain a) = map (\<lambda>i. uuid_of (te_rows e ! i)) path
      \<and> path \<noteq> [] \<and> hd path = pa_ordinal ack \<and> distinct path \<and> successively (linked (te_rows e)) path
      \<and> (\<forall>i \<in> set path. i < length (te_rows e) \<and> scope_of (te_rows e ! i) = Main)
      \<and> live_since (te_rows e) (pa_ordinal ack) \<subseteq> set path"
  using assms(2,3)
proof (cases rule: analyze_cases)
  case (1 t ai side side_messages)
  with engine_reachable_ok [OF assms(1)] have "whole_turn (te_rows e) ack (ai_path ai)"
    by (intro active_path_whole) (auto simp: engine_ok_def)
  then show ?thesis
    using 1(13) map_filter_uuids [of "ai_path ai" "te_rows e"] by (auto simp: whole_turn_def intro!: exI [of _ "ai_path ai"])
qed

section \<open>A sample turn\<close>

text \<open>The prompt, a tool call and its result, an answer in two rows, a retry before them, and the duration marker.\<close>

definition sample_fragment :: "content_block list \<Rightarrow> string \<Rightarrow> assistant_fragment" where
  "sample_fragment bs stop =
     \<lparr>af_message_id = Some (ascii ''m''), af_request_id = None, af_model = None, af_blocks = bs,
      af_stop_reason = Some (ascii stop), af_usage = None, af_is_api_error = False\<rparr>"

definition sample_call :: assistant_fragment where
  "sample_call =
     \<lparr>af_message_id = Some (ascii ''c''), af_request_id = None, af_model = None,
      af_blocks = [ToolUse (ascii ''t'') (ascii ''Read'') VNull], af_stop_reason = Some (ascii ''tool_use''),
      af_usage = None, af_is_api_error = False\<rparr>"

definition sample_result :: tool_result_block where
  "sample_result = \<lparr>tr_tool_use_id = ascii ''t'', tr_content = VNull, tr_is_error = None\<rparr>"

definition sample_rows :: "parsed_row list" where
  "sample_rows =
     [sample_prompt,
      sample_row ''c'' (Some ''p'') Main (Assistant sample_call),
      sample_row ''r'' (Some ''c'') Main (UserToolResults [sample_result]),
      sample_row ''e'' (Some ''r'') Main (System (Some (ascii ''api_error''))),
      sample_row ''a'' (Some ''e'') Main (Assistant (sample_fragment [Text (ascii ''o'')] ''end_turn'')),
      sample_row ''b'' (Some ''a'') Main (Assistant (sample_fragment [Text (ascii ''k'')] ''end_turn'')),
      sample_row ''d'' (Some ''b'') Main (System (Some (ascii ''turn_duration'')))]"

definition sample_engine :: transcript_engine where
  "sample_engine = feed id sample_rows (armed_with (ascii ''hi''))"

lemma sample_reachable: "engine_reachable id sample_engine"
  unfolding sample_engine_def
  by (rule feed_reachable [OF armed_reachable])
     (simp add: armed_with_def engine_new_def u64_max_def sample_rows_def)

definition sample_analysis :: transcript_analysis where
  "sample_analysis = projr (analyze sample_engine)"

definition sample_ack :: prompt_acknowledgement where
  "sample_ack = \<lparr>pa_row_uuid = ascii ''p'', pa_prompt_id = None, pa_ordinal = 0\<rparr>"

lemma sample_analyzed: "analyze sample_engine = Inr sample_analysis"
proof -
  have "is_ok (analyze sample_engine)" by code_simp
  then show ?thesis by (cases "analyze sample_engine") (simp_all add: sample_analysis_def)
qed

lemma sample_acked: "ta_acknowledgement sample_analysis = Some sample_ack"
  by code_simp

theorem active_chain_is_the_whole_turn_witness:
  "\<exists>path. map Some (ta_active_chain sample_analysis) = map (\<lambda>i. uuid_of (te_rows sample_engine ! i)) path
      \<and> path \<noteq> [] \<and> hd path = pa_ordinal sample_ack \<and> distinct path
      \<and> successively (linked (te_rows sample_engine)) path
      \<and> (\<forall>i \<in> set path. i < length (te_rows sample_engine) \<and> scope_of (te_rows sample_engine ! i) = Main)
      \<and> live_since (te_rows sample_engine) (pa_ordinal sample_ack) \<subseteq> set path"
  by (rule active_chain_is_the_whole_turn [OF sample_reachable sample_analyzed sample_acked])

end
