(* ===== verification/Answer.thy ===== *)
theory Answer
  imports ActivePath
begin

text \<open>
  What the engine reports of a finished turn: the logical messages are the assistant rows of the path grouped by
  identity, the answer is one whole message of them, tool calls are paired with their results, and token totals are
  exact sums.
\<close>

section \<open>Grouping by message\<close>

definition fragment_key :: "stored_row \<Rightarrow> logical_message_key option" where
  "fragment_key s = (case message_key s of Inr (Some k) \<Rightarrow> Some k | _ \<Rightarrow> None)"

definition fragment_blocks :: "stored_row \<Rightarrow> content_block list" where
  "fragment_blocks s = (case kind_of s of Assistant f \<Rightarrow> af_blocks f | _ \<Rightarrow> [])"

text \<open>The rows of a list that carry a message's fragments.\<close>

definition rows_of_message :: "stored_row list \<Rightarrow> logical_message_key \<Rightarrow> nat list \<Rightarrow> nat list" where
  "rows_of_message rows k is = filter (\<lambda>i. fragment_key (rows ! i) = Some k) is"

text \<open>The messages so far by key, through the position index; the index is exact.\<close>

definition message_at ::
  "logical_assistant_message list \<Rightarrow> (logical_message_key \<Rightarrow> nat option) \<Rightarrow> logical_message_key
    \<Rightarrow> logical_assistant_message option" where
  "message_at ms pos k = map_option (\<lambda>p. ms ! p) (pos k)"

definition positions_ok ::
  "logical_assistant_message list \<Rightarrow> (logical_message_key \<Rightarrow> nat option) \<Rightarrow> bool" where
  "positions_ok ms pos \<longleftrightarrow> (\<forall>k p. pos k = Some p \<longleftrightarrow> p < length ms \<and> lm_key (ms ! p) = k)"

lemma positions_okD: "positions_ok ms pos \<Longrightarrow> pos k = Some p \<longleftrightarrow> p < length ms \<and> lm_key (ms ! p) = k"
  by (simp add: positions_ok_def)

lemma positions_fresh: "positions_ok ms pos \<Longrightarrow> pos k = None \<Longrightarrow> p < length ms \<Longrightarrow> lm_key (ms ! p) \<noteq> k"
  using positions_okD [of ms pos k p] by simp

lemma positions_append:
  assumes "positions_ok ms pos" and "pos k = None" and "lm_key m = k"
  shows "positions_ok (ms @ [m]) (pos(k \<mapsto> length ms))"
  unfolding positions_ok_def
proof (intro allI)
  fix k' p
  show "(pos(k \<mapsto> length ms)) k' = Some p \<longleftrightarrow> p < length (ms @ [m]) \<and> lm_key ((ms @ [m]) ! p) = k'"
    using positions_okD [OF assms(1), of k' p] positions_fresh [OF assms(1,2), of p] assms(3)
    by (auto simp: nth_append less_Suc_eq)
qed

lemma positions_update:
  assumes "positions_ok ms pos" and "pos k = Some p" and "lm_key m = k"
  shows "positions_ok (ms[p := m]) pos"
  unfolding positions_ok_def
proof (intro allI)
  fix k' q
  show "pos k' = Some q \<longleftrightarrow> q < length (ms[p := m]) \<and> lm_key (ms[p := m] ! q) = k'"
    using positions_okD [OF assms(1), of k' q] positions_okD [OF assms(1), of k p] assms(2,3)
    by (cases "q = p") auto
qed

lemma message_at_update:
  assumes "positions_ok ms pos" and "pos k = Some p"
  shows "message_at (ms[p := m]) pos = (message_at ms pos)(k \<mapsto> m)"
proof (rule ext)
  fix k'
  show "message_at (ms[p := m]) pos k' = ((message_at ms pos)(k \<mapsto> m)) k'"
    using assms positions_okD [OF assms(1), of k' p] positions_okD [OF assms(1), of k p]
    by (cases "pos k'") (auto simp: message_at_def nth_list_update)
qed

lemma message_at_append:
  assumes "positions_ok ms pos"
  shows "message_at (ms @ [m]) (pos(k \<mapsto> length ms)) = (message_at ms pos)(k \<mapsto> m)"
proof (rule ext)
  fix k'
  show "message_at (ms @ [m]) (pos(k \<mapsto> length ms)) k' = ((message_at ms pos)(k \<mapsto> m)) k'"
  proof (cases "pos k'")
    case (Some p)
    with positions_okD [OF assms, of k' p] show ?thesis by (simp add: message_at_def nth_append)
  qed (simp add: message_at_def)
qed

text \<open>One row's effect on the messages by key.\<close>

definition merge_row ::
  "stored_row \<Rightarrow> (logical_message_key \<Rightarrow> logical_assistant_message option)
    \<Rightarrow> (logical_message_key \<Rightarrow> logical_assistant_message option) \<Rightarrow> bool" where
  "merge_row s M M' \<longleftrightarrow>
     (case kind_of s of
        Assistant f \<Rightarrow>
          (\<exists>k m m'. fragment_key s = Some k \<and> m = (case M k of None \<Rightarrow> new_message k (sr_ordinal s) | Some m \<Rightarrow> m)
             \<and> merge_fragment k s f m = Inr m' \<and> M' = M(k \<mapsto> m'))
      | _ \<Rightarrow> M' = M)"

lemma merge_fragment_key: "merge_fragment k s f m = Inr m' \<Longrightarrow> lm_key m' = lm_key m"
  by (auto simp: merge_fragment_def bind_r_Inr split: option.splits)

lemma message_key_assistant: "kind_of s = Assistant f \<Longrightarrow> message_key s \<noteq> Inr None"
  by (auto simp: message_key_def split: option.splits)

lemma collect_step:
  assumes "collect_messages rows (i # is) ms pos = Inr out" and "positions_ok ms pos"
  shows "\<exists>ms1 pos1. collect_messages rows is ms1 pos1 = Inr out \<and> positions_ok ms1 pos1
           \<and> merge_row (rows ! i) (message_at ms pos) (message_at ms1 pos1)"
proof (cases "kind_of (rows ! i)")
  case (Assistant f)
  from assms(1) Assistant obtain k where k: "message_key (rows ! i) = Inr (Some k)"
    using message_key_assistant [OF Assistant] by (auto simp: bind_r_Inr Let_def split: option.splits)
  then have fk: "fragment_key (rows ! i) = Some k" by (simp add: fragment_key_def)
  show ?thesis
  proof (cases "pos k")
    case None
    let ?new = "new_message k (sr_ordinal (rows ! i))" and ?pos = "pos(k \<mapsto> length ms)"
    from assms(1) Assistant k None obtain m where m: "merge_fragment k (rows ! i) f ?new = Inr m"
      and out: "collect_messages rows is ((ms @ [?new])[length ms := m]) ?pos = Inr out"
      by (auto simp: bind_r_Inr Let_def)
    from merge_fragment_key [OF m] have key: "lm_key m = k" by (simp add: new_message_def)
    have "(ms @ [?new])[length ms := m] = ms @ [m]" by simp
    with out positions_append [OF assms(2) None key] message_at_append [OF assms(2), of m k] m fk None Assistant
    show ?thesis by (auto simp: merge_row_def message_at_def [of ms pos k] intro!: exI [of _ "ms @ [m]"] exI [of _ ?pos])
  next
    case (Some p)
    from assms(1) Assistant k Some obtain m where m: "merge_fragment k (rows ! i) f (ms ! p) = Inr m"
      and out: "collect_messages rows is (ms[p := m]) pos = Inr out"
      by (auto simp: bind_r_Inr Let_def)
    have key: "lm_key m = k"
      using merge_fragment_key [OF m] positions_okD [OF assms(2), of k p] Some by simp
    from out positions_update [OF assms(2) Some key] message_at_update [OF assms(2) Some, of m] m fk Some Assistant
    show ?thesis by (auto simp: merge_row_def message_at_def [of ms pos k] intro!: exI [of _ "ms[p := m]"] exI [of _ pos])
  qed
qed (use assms in \<open>auto simp: merge_row_def\<close>)

text \<open>The message a key has collected from a list of rows.\<close>

definition collected :: "stored_row list \<Rightarrow> nat list \<Rightarrow> logical_message_key \<Rightarrow> logical_assistant_message option \<Rightarrow> bool" where
  "collected rows is k mo \<longleftrightarrow>
     (case mo of
        None \<Rightarrow> rows_of_message rows k is = []
      | Some m \<Rightarrow>
          lm_key m = k \<and> rows_of_message rows k is \<noteq> []
          \<and> lm_blocks m = concat (map (\<lambda>i. fragment_blocks (rows ! i)) (rows_of_message rows k is))
          \<and> lm_last_ordinal m = sr_ordinal (rows ! last (rows_of_message rows k is)))"

lemma rows_of_message_append:
  "rows_of_message rows k (is @ [i]) =
     rows_of_message rows k is @ (if fragment_key (rows ! i) = Some k then [i] else [])"
  by (simp add: rows_of_message_def)

lemma fragment_key_other: "(\<And>f. kind_of s \<noteq> Assistant f) \<Longrightarrow> fragment_key s = None"
  by (cases "kind_of s") (auto simp: fragment_key_def message_key_def)

lemma collected_skip:
  "fragment_key (rows ! i) \<noteq> Some k \<Longrightarrow> collected rows (done @ [i]) k mo = collected rows done k mo"
  by (cases mo) (simp_all add: collected_def rows_of_message_append)

lemma collected_merge:
  assumes "\<And>k. collected rows done k (M k)" and "merge_row (rows ! i) M M'"
  shows "collected rows (done @ [i]) k (M' k)"
proof (cases "\<exists>f. kind_of (rows ! i) = Assistant f")
  case True
  then obtain f where f: "kind_of (rows ! i) = Assistant f" ..
  with assms(2) obtain k' m m' where k': "fragment_key (rows ! i) = Some k'"
    "m = (case M k' of None \<Rightarrow> new_message k' (sr_ordinal (rows ! i)) | Some m \<Rightarrow> m)"
    "merge_fragment k' (rows ! i) f m = Inr m'" "M' = M(k' \<mapsto> m')"
    by (auto simp: merge_row_def)
  show ?thesis
  proof (cases "k = k'")
    case True
    have "lm_blocks m' = lm_blocks m @ af_blocks f" "lm_last_ordinal m' = sr_ordinal (rows ! i)" "lm_key m' = lm_key m"
      using k'(3) by (auto simp: merge_fragment_def bind_r_Inr split: option.splits)
    with True k' assms(1) [of k] f show ?thesis
      by (auto simp: collected_def rows_of_message_append new_message_def fragment_blocks_def split: option.splits)
  next
    case False
    with k' assms(1) [of k] show ?thesis by (simp add: collected_skip)
  qed
next
  case False
  then have "fragment_key (rows ! i) = None" by (intro fragment_key_other) blast
  moreover from False assms(2) have "M' = M" by (auto simp: merge_row_def split: row_kind.splits)
  ultimately show ?thesis using assms(1) [of k] by (simp add: collected_skip)
qed

lemma collect_messages_spec:
  assumes "collect_messages rows is ms pos = Inr out" and "positions_ok ms pos"
    and "\<And>k. collected rows done k (message_at ms pos k)"
  shows "\<exists>pos'. positions_ok out pos' \<and> (\<forall>k. collected rows (done @ is) k (message_at out pos' k))"
  using assms
proof (induction "is" arbitrary: ms pos "done")
  case (Cons i "is")
  from collect_step [OF Cons.prems(1,2)] obtain ms1 pos1 where
    s: "collect_messages rows is ms1 pos1 = Inr out" "positions_ok ms1 pos1"
       "merge_row (rows ! i) (message_at ms pos) (message_at ms1 pos1)" by blast
  from Cons.IH [OF s(1,2), of "done @ [i]"] collected_merge [OF Cons.prems(3) s(3)] show ?case by simp
qed auto

definition message_keys :: "stored_row list \<Rightarrow> nat list \<Rightarrow> logical_message_key set" where
  "message_keys rows is = {k. rows_of_message rows k is \<noteq> []}"

lemma logical_messages_spec:
  assumes "logical_messages rows is b = Inr ms"
  shows "m \<in> set ms \<Longrightarrow> collected rows is (lm_key m) (Some m)"
    and "lm_key ` set ms = message_keys rows is"
proof -
  from assms have run: "collect_messages rows is [] Map.empty = Inr ms"
    by (auto simp: logical_messages_def bind_r_Inr)
  have "positions_ok [] Map.empty" by (simp add: positions_ok_def)
  moreover have "collected rows [] k (message_at [] Map.empty k)" for k
    by (simp add: collected_def message_at_def rows_of_message_def)
  ultimately obtain pos where pos: "positions_ok ms pos" "\<And>k. collected rows is k (message_at ms pos k)"
    using collect_messages_spec [OF run, of "[]"] by auto
  have at: "message_at ms pos (lm_key m) = Some m" if m: "m \<in> set ms" for m
  proof -
    from m obtain p where "p < length ms" "ms ! p = m" by (auto simp: in_set_conv_nth)
    with positions_okD [OF pos(1), of "lm_key m" p] show ?thesis by (simp add: message_at_def)
  qed
  show "collected rows is (lm_key m) (Some m)" if "m \<in> set ms"
    using pos(2) [of "lm_key m"] at [OF that] by simp
  show "lm_key ` set ms = message_keys rows is"
  proof (rule set_eqI, rule iffI)
    fix k assume "k \<in> lm_key ` set ms"
    then obtain m where m: "m \<in> set ms" "k = lm_key m" by auto
    with pos(2) [of "lm_key m"] at [OF m(1)] show "k \<in> message_keys rows is"
      by (simp add: collected_def message_keys_def)
  next
    fix k assume "k \<in> message_keys rows is"
    then have "message_at ms pos k \<noteq> None" using pos(2) [of k] by (cases "message_at ms pos k") (simp_all add: message_keys_def collected_def)
    then obtain p where "pos k = Some p" by (auto simp: message_at_def)
    with positions_okD [OF pos(1), of k p] show "k \<in> lm_key ` set ms" by auto
  qed
qed

lemma latest_message_None: "latest_message ms = None \<longleftrightarrow> ms = []"
  by (cases ms) (auto split: option.splits)

lemma latest_message_Some:
  "latest_message ms = Some m \<Longrightarrow> m \<in> set ms \<and> (\<forall>m' \<in> set ms. lm_last_ordinal m' \<le> lm_last_ordinal m)"
proof (induction ms arbitrary: m)
  case (Cons x ms)
  then show ?case by (cases "latest_message ms") (auto simp: latest_message_None split: if_splits)
qed simp

section \<open>The answer\<close>

fun text_of_blocks :: "content_block list \<Rightarrow> utext" where
  "text_of_blocks [] = []"
| "text_of_blocks (Text t # bs) = t @ text_of_blocks bs"
| "text_of_blocks (_ # bs) = text_of_blocks bs"

lemma concat_text_blocks: "concat (text_blocks bs) = text_of_blocks bs"
  by (induction bs rule: text_blocks.induct) auto

lemma turn_status_Terminal:
  assumes "turn_status_of rows ms leaf = Inr (Terminal f)"
  obtains m where "latest_message ms = Some m" "leaf_allows_terminal (kind_of (rows ! leaf))"
    "outcome_of m = Inr (Some (ft_outcome f))" "ft_message_key f = lm_key m" "ft_stop_reason f = lm_stop_reason m"
    "ft_final_text f = text_of_blocks (lm_blocks m)"
    "ft_outcome f = Completed \<or> ft_outcome f = OutMaxTokens \<Longrightarrow> ft_final_text_blocks f \<noteq> []"
  using assms
  by (auto simp: turn_status_of_def bind_r_Inr Let_def concat_text_blocks split: option.splits if_splits)

definition whole_answer :: "transcript_engine \<Rightarrow> transcript_analysis \<Rightarrow> final_turn \<Rightarrow> bool" where
  "whole_answer e a f \<longleftrightarrow> (\<exists>ack path. ta_acknowledgement a = Some ack
      \<and> map Some (ta_active_chain a) = map (\<lambda>i. uuid_of (te_rows e ! i)) path
      \<and> live_since (te_rows e) (pa_ordinal ack) \<subseteq> set path
      \<and> leaf_allows_terminal (kind_of (te_rows e ! last path))
      \<and> ft_message_key f \<in> message_keys (te_rows e) path
      \<and> (\<forall>k \<in> message_keys (te_rows e) path.
           last (rows_of_message (te_rows e) k path) \<le> last (rows_of_message (te_rows e) (ft_message_key f) path))
      \<and> ft_final_text f =
          text_of_blocks (concat (map (\<lambda>i. fragment_blocks (te_rows e ! i))
                                    (rows_of_message (te_rows e) (ft_message_key f) path)))
      \<and> (ft_outcome f = Completed \<longrightarrow>
           ft_stop_reason f \<in> {Some EndTurn, Some StopSequence} \<and> ft_final_text_blocks f \<noteq> []))"

lemma answer_whole:
  assumes "engine_reachable nfc e" and "analyze e = Inr a" and "ta_status a = Terminal f"
  shows "whole_answer e a f"
proof -
  let ?rows = "te_rows e"
  from assms(2,3) obtain ack where ack: "ta_acknowledgement a = Some ack"
    by (auto simp: analyze_def Let_def bind_r_Inr split: option.splits)
  from assms(2) ack show ?thesis
  proof (cases rule: analyze_cases)
    case (1 t ai side side_messages)
    let ?path = "ai_path ai" and ?ms = "ta_messages a"
    have ok: "engine_ok nfc e" by (rule engine_reachable_ok [OF assms(1)])
    then have whole: "whole_turn ?rows ack ?path"
      using 1 by (intro active_path_whole) (auto simp: engine_ok_def)
    from 1(3) have inc: "ai_included ai = ?path" "ai_leaf_index ai = last ?path"
      by (auto elim: strict_active_indices_cases)
    from 1(12) [unfolded assms(3)] show ?thesis
    proof (cases rule: turn_status_Terminal)
      case (1 m)
      note spec = logical_messages_spec [OF \<open>logical_messages ?rows (ai_included ai) True = Inr ?ms\<close> [unfolded inc]]
      from latest_message_Some [OF 1(1)] have m: "m \<in> set ?ms" "\<forall>m' \<in> set ?ms. lm_last_ordinal m' \<le> lm_last_ordinal m"
        by auto
      have ord: "lm_last_ordinal m' = last (rows_of_message ?rows (lm_key m') ?path)" if "m' \<in> set ?ms" for m'
      proof -
        from spec(1) [OF that] have "rows_of_message ?rows (lm_key m') ?path \<noteq> []"
          "lm_last_ordinal m' = sr_ordinal (?rows ! last (rows_of_message ?rows (lm_key m') ?path))"
          by (simp_all add: collected_def)
        moreover have "last (rows_of_message ?rows (lm_key m') ?path) \<in> set ?path"
          using calculation(1) last_in_set unfolding rows_of_message_def by fastforce
        ultimately show ?thesis using ok whole by (auto simp: engine_ok_def ordinals_exact_def whole_turn_def)
      qed
      have latest: "\<forall>k \<in> message_keys ?rows ?path.
          last (rows_of_message ?rows k ?path) \<le> last (rows_of_message ?rows (lm_key m) ?path)"
        using ord m unfolding spec(2) [symmetric] by auto
      have whole_text: "ft_final_text f = text_of_blocks (concat (map (\<lambda>i. fragment_blocks (?rows ! i))
                                    (rows_of_message ?rows (lm_key m) ?path)))"
        using spec(1) [OF m(1)] 1(6) by (simp add: collected_def)
      have completed: "ft_outcome f = Completed \<longrightarrow> ft_stop_reason f \<in> {Some EndTurn, Some StopSequence}"
        using 1(3,5) by (auto simp: outcome_of_def split: if_splits option.splits stop_reason.splits)
      have key: "lm_key m \<in> message_keys ?rows ?path" using m(1) spec(2) by blast
      show ?thesis
        unfolding whole_answer_def
        by (rule exI [of _ ack], rule exI [of _ ?path])
           (use ack whole latest whole_text completed key 1(2,4,7) inc(2)
              \<open>ta_active_chain a = _\<close> map_filter_uuids [of ?path ?rows] in \<open>auto simp: whole_turn_def\<close>)
    qed
  qed
qed

text \<open>C22: A turn is reported over only on its own evidence, and its answer is whole. If the analysis says
  the turn ended, then the chain of the whole turn ends in an assistant row or a system row that is no retry
  record (so not in a retry, a tool result or a prompt); the answer is one message of that chain, no message of the
  chain was continued later than it, and its text is the text of all that message's rows on the chain, in
  order; and a completed answer stopped with \<open>end_turn\<close> or a stop sequence and is not without text.\<close>

theorem terminal_answer_is_whole:
  assumes "engine_reachable nfc e" and "analyze e = Inr a" and "ta_status a = Terminal f"
  shows "\<exists>ack path. ta_acknowledgement a = Some ack
      \<and> map Some (ta_active_chain a) = map (\<lambda>i. uuid_of (te_rows e ! i)) path
      \<and> live_since (te_rows e) (pa_ordinal ack) \<subseteq> set path
      \<and> leaf_allows_terminal (kind_of (te_rows e ! last path))
      \<and> ft_message_key f \<in> message_keys (te_rows e) path
      \<and> (\<forall>k \<in> message_keys (te_rows e) path.
           last (rows_of_message (te_rows e) k path) \<le> last (rows_of_message (te_rows e) (ft_message_key f) path))
      \<and> ft_final_text f =
          text_of_blocks (concat (map (\<lambda>i. fragment_blocks (te_rows e ! i))
                                    (rows_of_message (te_rows e) (ft_message_key f) path)))
      \<and> (ft_outcome f = Completed \<longrightarrow>
           ft_stop_reason f \<in> {Some EndTurn, Some StopSequence} \<and> ft_final_text_blocks f \<noteq> [])"
  using answer_whole [OF assms] unfolding whole_answer_def .

definition sample_final :: final_turn where
  "sample_final =
     \<lparr>ft_outcome = Completed, ft_message_key = MessageId (ascii ''m''), ft_stop_reason = Some EndTurn,
      ft_final_text = ascii ''ok'', ft_final_text_blocks = [ascii ''o'', ascii ''k''], ft_model = None\<rparr>"

lemma sample_terminal: "ta_status sample_analysis = Terminal sample_final"
  by code_simp

theorem terminal_answer_is_whole_witness:
  "let e = sample_engine; a = sample_analysis; f = sample_final in
   \<exists>ack path. ta_acknowledgement a = Some ack
      \<and> map Some (ta_active_chain a) = map (\<lambda>i. uuid_of (te_rows e ! i)) path
      \<and> live_since (te_rows e) (pa_ordinal ack) \<subseteq> set path
      \<and> leaf_allows_terminal (kind_of (te_rows e ! last path))
      \<and> ft_message_key f \<in> message_keys (te_rows e) path
      \<and> (\<forall>k \<in> message_keys (te_rows e) path.
           last (rows_of_message (te_rows e) k path) \<le> last (rows_of_message (te_rows e) (ft_message_key f) path))
      \<and> ft_final_text f =
          text_of_blocks (concat (map (\<lambda>i. fragment_blocks (te_rows e ! i))
                                    (rows_of_message (te_rows e) (ft_message_key f) path)))
      \<and> (ft_outcome f = Completed \<longrightarrow>
           ft_stop_reason f \<in> {Some EndTurn, Some StopSequence} \<and> ft_final_text_blocks f \<noteq> [])"
  unfolding Let_def
  by (rule terminal_answer_is_whole [OF sample_reachable sample_analyzed sample_terminal])

section \<open>Token totals\<close>

definition usage_sum :: "(token_usage \<Rightarrow> nat) \<Rightarrow> logical_assistant_message list \<Rightarrow> nat" where
  "usage_sum field ms = (\<Sum>m\<leftarrow>ms. case lm_usage m of None \<Rightarrow> 0 | Some u \<Rightarrow> field (us_tokens u))"

definition calls_with_usage :: "logical_assistant_message list \<Rightarrow> nat" where
  "calls_with_usage ms = length (filter (\<lambda>m. lm_usage m \<noteq> None) ms)"

definition add_totals :: "usage_totals \<Rightarrow> logical_assistant_message list \<Rightarrow> usage_totals" where
  "add_totals t ms =
     \<lparr>ut_tokens = \<lparr>tu_input = tu_input (ut_tokens t) + usage_sum tu_input ms,
                   tu_output = tu_output (ut_tokens t) + usage_sum tu_output ms,
                   tu_cache_creation = tu_cache_creation (ut_tokens t) + usage_sum tu_cache_creation ms,
                   tu_cache_read = tu_cache_read (ut_tokens t) + usage_sum tu_cache_read ms\<rparr>,
      ut_model_calls_with_usage = ut_model_calls_with_usage t + calls_with_usage ms\<rparr>"

definition safe_totals :: "usage_totals \<Rightarrow> bool" where
  "safe_totals t \<longleftrightarrow>
     (\<forall>n \<in> {tu_input (ut_tokens t), tu_output (ut_tokens t), tu_cache_creation (ut_tokens t),
             tu_cache_read (ut_tokens t), ut_model_calls_with_usage t}. n \<le> MAX_SAFE_JSON_INTEGER)"

lemma checked_add_usage_eq:
  "checked_add_usage l r field = (if l + r \<le> MAX_SAFE_JSON_INTEGER then Inr (l + r) else Inl (UsageOverflow field))"
  by (simp add: checked_add_usage_def MAX_SAFE_JSON_INTEGER_def u64_max_def)

lemma bind_checked_add:
  "bind_r (checked_add_usage l r field) f =
     (if l + r \<le> MAX_SAFE_JSON_INTEGER then f (l + r) else Inl (UsageOverflow field))"
  by (simp add: checked_add_usage_eq)

lemma usage_sum_simps [simp]:
  "usage_sum field [] = 0"
  "usage_sum field (m # ms) = (case lm_usage m of None \<Rightarrow> 0 | Some u \<Rightarrow> field (us_tokens u)) + usage_sum field ms"
  "calls_with_usage [] = 0"
  "calls_with_usage (m # ms) = (if lm_usage m = None then 0 else 1) + calls_with_usage ms"
  by (simp_all add: usage_sum_def calls_with_usage_def)

lemma add_usages_spec:
  assumes "safe_totals t"
  shows "case add_usages ms t of
           Inr u \<Rightarrow> u = add_totals t ms \<and> safe_totals u
         | Inl err \<Rightarrow> \<not> safe_totals (add_totals t ms) \<and> (\<exists>field. err = UsageOverflow field)"
  using assms
proof (induction ms arbitrary: t)
  case (Cons m ms)
  show ?case
  proof (cases "lm_usage m")
    case None
    then have "add_totals t (m # ms) = add_totals t ms" by (simp add: add_totals_def)
    with None Cons.IH [OF Cons.prems] show ?thesis by (cases "add_usages ms t") simp_all
  next
    case (Some u)
    define t' where "t' = add_totals t [m]"
    have sum: "add_totals t (m # ms) = add_totals t' ms"
      by (simp add: t'_def add_totals_def Some)
    show ?thesis
    proof (cases "safe_totals t'")
      case True
      then have eq: "add_usages (m # ms) t = add_usages ms t'"
        by (simp add: Some t'_def safe_totals_def add_totals_def checked_add_usage_eq add_tokens_def)
      show ?thesis unfolding sum eq by (rule Cons.IH [OF True])
    next
      case False
      then have "\<exists>field. add_usages (m # ms) t = Inl (UsageOverflow field)"
        by (simp add: Some t'_def safe_totals_def add_totals_def bind_checked_add add_tokens_def)
      moreover from False have "\<not> safe_totals (add_totals t' ms)" by (auto simp: safe_totals_def add_totals_def)
      ultimately show ?thesis unfolding sum by (auto simp del: add_usages.simps)
    qed
  qed
qed (simp add: add_totals_def)

text \<open>C30: Token totals are exact or refused. The totals of a list of messages are the exact sums of the token
  counts and the number of messages that carry usage, each within the protocol's safe-integer range; if any of these
  sums leaves the range the aggregation fails with an overflow error, so no total is ever wrapped or rounded.\<close>

theorem token_totals_exact_or_refused:
  "case aggregate_usage ms of
     Inr u \<Rightarrow> u = add_totals no_usage ms \<and> safe_totals u
   | Inl err \<Rightarrow> \<not> safe_totals (add_totals no_usage ms) \<and> (\<exists>field. err = UsageOverflow field)"
  unfolding aggregate_usage_def
  by (rule add_usages_spec) (simp add: safe_totals_def no_usage_def no_tokens_def)

end
