(* ===== verification/ToolPairing.thy ===== *)
theory ToolPairing
  imports Answer
begin

text \<open>
  The tool records of a turn: one record per call on the active path, each with the one result of its id.
\<close>

section \<open>Tools\<close>

text \<open>The tool calls and the tool results the rows of a list carry.\<close>

definition calls_in_blocks :: "content_block list \<Rightarrow> (utext \<times> utext \<times> jvalue) set" where
  "calls_in_blocks bs = {(ident, name, input). ToolUse ident name input \<in> set bs}"

lemma calls_in_blocks_Nil [simp]: "calls_in_blocks [] = {}"
  by (simp add: calls_in_blocks_def)

definition calls_on :: "stored_row list \<Rightarrow> nat list \<Rightarrow> (utext \<times> utext \<times> jvalue) set" where
  "calls_on rows is = (\<Union>i \<in> set is. calls_in_blocks (fragment_blocks (rows ! i)))"

definition results_in :: "stored_row \<Rightarrow> tool_result_block set" where
  "results_in s = (case kind_of s of UserToolResults rs \<Rightarrow> set rs | _ \<Rightarrow> {})"

definition results_on :: "stored_row list \<Rightarrow> nat list \<Rightarrow> tool_result_block set" where
  "results_on rows is = (\<Union>i \<in> set is. results_in (rows ! i))"

definition call_of :: "tool_record \<Rightarrow> utext \<times> utext \<times> jvalue" where
  "call_of t = (to_tool_use_id t, to_name t, to_input t)"

definition results_of :: "tool_record list \<Rightarrow> tool_result_block set" where
  "results_of ts = {r. \<exists>t \<in> set ts. to_result t = Some r}"

definition paired :: "tool_record list \<Rightarrow> bool" where
  "paired ts \<longleftrightarrow>
     distinct (map to_tool_use_id ts) \<and> (\<forall>i < length ts. to_order (ts ! i) = i)
     \<and> (\<forall>t \<in> set ts. \<forall>r. to_result t = Some r \<longrightarrow> tr_tool_use_id r = to_tool_use_id t)"

definition tools_ok :: "tools_state \<Rightarrow> bool" where
  "tools_ok ts \<longleftrightarrow>
     paired (ts_tools ts) \<and> ts_order ts = length (ts_tools ts)
     \<and> (\<forall>u p. ts_positions ts u = Some p \<longleftrightarrow> p < length (ts_tools ts) \<and> to_tool_use_id (ts_tools ts ! p) = u)"

lemma tools_okD:
  "tools_ok ts \<Longrightarrow> ts_positions ts u = Some p \<longleftrightarrow> p < length (ts_tools ts) \<and> to_tool_use_id (ts_tools ts ! p) = u"
  by (simp add: tools_ok_def)

lemma tools_ok_call:
  fixes name input
  assumes ok: "tools_ok ts" and fresh: "ts_positions ts ident = None"
  defines "t \<equiv> \<lparr>to_tool_use_id = ident, to_name = name, to_input = input, to_result = None, to_order = ts_order ts\<rparr>"
  shows "tools_ok \<lparr>ts_tools = ts_tools ts @ [t], ts_positions = (ts_positions ts)(ident \<mapsto> length (ts_tools ts)),
                   ts_order = ts_order ts + 1\<rparr>"
proof -
  have new: "to_tool_use_id (ts_tools ts ! p) \<noteq> ident" if "p < length (ts_tools ts)" for p
    using tools_okD [OF ok, of ident p] fresh that by simp
  then have "ident \<notin> to_tool_use_id ` set (ts_tools ts)" by (metis imageE in_set_conv_nth)
  moreover have "((ts_positions ts)(ident \<mapsto> length (ts_tools ts))) u = Some p
      \<longleftrightarrow> p < length (ts_tools ts @ [t]) \<and> to_tool_use_id ((ts_tools ts @ [t]) ! p) = u" for u p
    using tools_okD [OF ok, of u p] new [of p] by (auto simp: nth_append less_Suc_eq t_def)
  ultimately show ?thesis
    using ok by (auto simp: tools_ok_def paired_def nth_append less_Suc_eq t_def)
qed

lemma collect_calls_spec:
  assumes "collect_calls bs ts = Inr ts'" and "tools_ok ts"
  shows "tools_ok ts' \<and> call_of ` set (ts_tools ts') = call_of ` set (ts_tools ts) \<union> calls_in_blocks bs
       \<and> results_of (ts_tools ts') = results_of (ts_tools ts)"
  using assms
proof (induction bs ts rule: collect_calls.induct)
  case (2 ident name input bs ts)
  have blocks: "calls_in_blocks (ToolUse ident name input # bs) = insert (ident, name, input) (calls_in_blocks bs)"
    by (auto simp: calls_in_blocks_def)
  show ?case
  proof (cases "ts_positions ts ident")
    case None
    note new = tools_ok_call [OF "2.prems"(2) None, of name input]
    from "2.IH"(1) [OF None _ new] "2.prems"(1) None show ?thesis
      by (auto simp: blocks results_of_def call_of_def)
  next
    case (Some p)
    then have p: "p < length (ts_tools ts)" "to_tool_use_id (ts_tools ts ! p) = ident"
      using tools_okD [OF "2.prems"(2), of ident p] by auto
    from "2.prems"(1) Some have same: "to_name (ts_tools ts ! p) = name \<and> to_input (ts_tools ts ! p) = input"
      and rest: "collect_calls bs ts = Inr ts'" by (simp_all split: if_splits)
    have "(ident, name, input) \<in> call_of ` set (ts_tools ts)"
      using p same by (intro image_eqI [of _ _ "ts_tools ts ! p"]) (auto simp: call_of_def)
    with "2.IH"(2) [OF Some same rest "2.prems"(2)] show ?thesis by (simp add: blocks insert_absorb)
  qed
qed (auto simp: calls_in_blocks_def)

lemma map_update_same: "p < length l \<Longrightarrow> g t = g (l ! p) \<Longrightarrow> map g (l[p := t]) = map g l"
  by (simp add: map_update list_update_same_conv)

lemma tools_ok_result:
  assumes ok: "tools_ok ts" and p: "ts_positions ts (tr_tool_use_id r) = Some p"
  defines "ts' \<equiv> ts\<lparr>ts_tools := (ts_tools ts)[p := (ts_tools ts ! p)\<lparr>to_result := Some r\<rparr>]\<rparr>"
  assumes none: "to_result (ts_tools ts ! p) = None"
  shows "tools_ok ts' \<and> call_of ` set (ts_tools ts') = call_of ` set (ts_tools ts)
       \<and> results_of (ts_tools ts') = insert r (results_of (ts_tools ts))"
proof -
  let ?l = "ts_tools ts" and ?t = "(ts_tools ts ! p)\<lparr>to_result := Some r\<rparr>"
  have p': "p < length ?l" "to_tool_use_id (?l ! p) = tr_tool_use_id r" using tools_okD [OF ok] p by auto
  have ids: "map to_tool_use_id (?l[p := ?t]) = map to_tool_use_id ?l" by (rule map_update_same) (simp_all add: p')
  have ords: "map to_order (?l[p := ?t]) = map to_order ?l" by (rule map_update_same) (simp_all add: p')
  have calls: "map call_of (?l[p := ?t]) = map call_of ?l" by (rule map_update_same) (simp_all add: p' call_of_def)
  have nths: "to_tool_use_id (?l[p := ?t] ! q) = to_tool_use_id (?l ! q) \<and> to_order (?l[p := ?t] ! q) = to_order (?l ! q)"
    if "q < length ?l" for q using that p'(1) by (simp add: nth_list_update)
  have res: "results_of (?l[p := ?t]) = insert r (results_of ?l)"
  proof -
    have l: "?l = take p ?l @ ?l ! p # drop (Suc p) ?l" using p'(1) by (rule id_take_nth_drop)
    have "set (?l[p := ?t]) = set (take p ?l) \<union> {?t} \<union> set (drop (Suc p) ?l)"
      using p'(1) by (simp add: upd_conv_take_nth_drop Un_commute)
    moreover have "set ?l = set (take p ?l) \<union> {?l ! p} \<union> set (drop (Suc p) ?l)"
      by (subst l) (simp add: Un_commute)
    ultimately show ?thesis using none by (auto simp: results_of_def)
  qed
  have pr: "tr_tool_use_id s = to_tool_use_id t" if "t \<in> set (?l[p := ?t])" "to_result t = Some s" for t s
    using that ok p' unfolding tools_ok_def paired_def by (auto dest!: set_update_subset_insert [THEN subsetD])
  have tools': "ts_tools ts' = ?l[p := ?t]" "ts_positions ts' = ts_positions ts" "ts_order ts' = ts_order ts"
    by (simp_all add: ts'_def)
  have "paired (ts_tools ts')"
    unfolding paired_def tools' ids using ok nths pr by (simp add: tools_ok_def paired_def)
  moreover have "ts_positions ts u = Some q \<longleftrightarrow> q < length (?l[p := ?t]) \<and> to_tool_use_id (?l[p := ?t] ! q) = u" for u q
    using tools_okD [OF ok, of u q] nths [of q] by auto
  ultimately have "tools_ok ts'" using ok by (simp add: tools_ok_def tools')
  moreover have "call_of ` set (ts_tools ts') = call_of ` set ?l"
    using arg_cong [OF calls, of set] by (simp add: tools')
  ultimately show ?thesis using res by (simp add: tools')
qed

lemma collect_results_spec:
  assumes "collect_results rs ts = Inr ts'" and "tools_ok ts"
  shows "tools_ok ts' \<and> call_of ` set (ts_tools ts') = call_of ` set (ts_tools ts)
       \<and> results_of (ts_tools ts') = results_of (ts_tools ts) \<union> set rs"
  using assms
proof (induction rs ts rule: collect_results.induct)
  case (2 r rs ts)
  from "2.prems"(1) obtain p where p: "ts_positions ts (tr_tool_use_id r) = Some p"
    by (auto split: option.splits)
  show ?case
  proof (cases "to_result (ts_tools ts ! p)")
    case None
    from tools_ok_result [OF "2.prems"(2) p None] "2.IH"(1) [OF p None] "2.prems"(1) p None show ?thesis by simp
  next
    case (Some existing)
    with "2.prems"(1) p have same: "existing = r" and rest: "collect_results rs ts = Inr ts'"
      by (simp_all split: if_splits)
    have "p < length (ts_tools ts)" using tools_okD [OF "2.prems"(2)] p by auto
    with Some same have "r \<in> results_of (ts_tools ts)" by (auto simp: results_of_def intro!: bexI [of _ "ts_tools ts ! p"])
    with "2.IH"(2) [OF p Some same rest "2.prems"(2)] show ?thesis by auto
  qed
qed simp

lemma collect_tools_spec:
  assumes "collect_tools rows is ts = Inr ts'" and "tools_ok ts"
  shows "tools_ok ts' \<and> call_of ` set (ts_tools ts') = call_of ` set (ts_tools ts) \<union> calls_on rows is
       \<and> results_of (ts_tools ts') = results_of (ts_tools ts) \<union> results_on rows is"
  using assms
proof (induction "is" arbitrary: ts)
  case (Cons i "is")
  let ?s = "rows ! i"
  from Cons.prems(1) obtain ts1 where step: "(case kind_of ?s of
        Assistant f \<Rightarrow> collect_calls (af_blocks f) ts
      | UserToolResults results \<Rightarrow> collect_results results ts
      | _ \<Rightarrow> Inr ts) = Inr ts1" and rest: "collect_tools rows is ts1 = Inr ts'"
    by (auto simp: bind_r_Inr)
  have "tools_ok ts1 \<and> call_of ` set (ts_tools ts1) = call_of ` set (ts_tools ts) \<union> calls_in_blocks (fragment_blocks ?s)
      \<and> results_of (ts_tools ts1) = results_of (ts_tools ts) \<union> results_in ?s"
  proof (cases "kind_of ?s")
    case (Assistant f)
    with step collect_calls_spec [OF _ Cons.prems(2)] show ?thesis by (simp add: fragment_blocks_def results_in_def)
  next
    case (UserToolResults rs)
    with step collect_results_spec [OF _ Cons.prems(2)] show ?thesis
      by (simp add: fragment_blocks_def results_in_def)
  qed (use step Cons.prems(2) in \<open>simp_all add: fragment_blocks_def results_in_def\<close>)
  with Cons.IH [OF rest] show ?case by (auto simp: calls_on_def results_on_def)
qed (simp add: calls_on_def results_on_def)

text \<open>C28: Every tool call and every tool result of the turn is reported, each once. When the tool records of a
  path are built without error, they have distinct ids and are numbered in order; their calls are exactly the tool
  calls of the path's assistant rows, their results exactly the tool results of its user rows, and every result
  stands with the call of the same id. (A result without call, a second call or a second result that differs
  is an error.)\<close>

theorem tool_records_pair_every_call:
  assumes "tools rows path = Inr ts"
  shows "distinct (map to_tool_use_id ts) \<and> (\<forall>i < length ts. to_order (ts ! i) = i)
       \<and> call_of ` set ts = calls_on rows path
       \<and> {r. \<exists>t \<in> set ts. to_result t = Some r} = results_on rows path
       \<and> (\<forall>t \<in> set ts. \<forall>r. to_result t = Some r \<longrightarrow> tr_tool_use_id r = to_tool_use_id t)"
proof -
  let ?ts0 = "\<lparr>ts_tools = [], ts_positions = Map.empty, ts_order = 0\<rparr>"
  from assms obtain ts' where run: "collect_tools rows path ?ts0 = Inr ts'" and ts: "ts = ts_tools ts'"
    by (auto simp: tools_def bind_r_Inr)
  have "tools_ok ?ts0" by (simp add: tools_ok_def paired_def)
  from collect_tools_spec [OF run this] show ?thesis
    unfolding ts by (simp add: tools_ok_def paired_def results_of_def)
qed

definition sample_path :: "nat list" where
  "sample_path = [0, 1, 2, 3, 4, 5, 6]"

definition sample_tools :: "tool_record list" where
  "sample_tools =
     [\<lparr>to_tool_use_id = ascii ''t'', to_name = ascii ''Read'', to_input = VNull, to_result = Some sample_result,
       to_order = 0\<rparr>]"

theorem tool_records_pair_every_call_witness:
  "let ts = sample_tools; rows = te_rows sample_engine; path = sample_path in
   distinct (map to_tool_use_id ts) \<and> (\<forall>i < length ts. to_order (ts ! i) = i)
       \<and> call_of ` set ts = calls_on rows path
       \<and> {r. \<exists>t \<in> set ts. to_result t = Some r} = results_on rows path
       \<and> (\<forall>t \<in> set ts. \<forall>r. to_result t = Some r \<longrightarrow> tr_tool_use_id r = to_tool_use_id t)"
proof -
  have "tools (te_rows sample_engine) sample_path = Inr sample_tools" by code_simp
  then show ?thesis unfolding Let_def by (rule tool_records_pair_every_call)
qed

end
