(* ===== verification/Sidechains.thy ===== *)
theory Sidechains
  imports ActivePath
begin

text \<open>
  The sidechain rows the engine charges to a turn. \<open>is_descendant_cached\<close> climbs parent links with a cache that lives
  across rows; the reference is the climb itself, as an inductive predicate, and the theorem says that the cached scan
  selects exactly the rows whose climb ends at the prompt.
\<close>

section \<open>One step up and the whole climb\<close>

definition ascend :: "transcript_engine \<Rightarrow> utext \<Rightarrow> bool \<Rightarrow> utext \<Rightarrow> bool + utext option" where
  "ascend e root allow_sidechain c =
     (case te_by_uuid e c of
        None \<Rightarrow> Inl False
      | Some i \<Rightarrow>
          if i \<ge> length (te_rows e) then Inl False
          else if scope_of (te_rows e ! i) \<noteq> Main \<and> \<not> (allow_sidechain \<and> scope_of (te_rows e ! i) = Sidechain)
          then Inl False
          else if c = root then Inl True
          else Inr (parent_of (te_rows e ! i)))"

inductive climbs :: "transcript_engine \<Rightarrow> utext \<Rightarrow> bool \<Rightarrow> nat \<Rightarrow> utext option \<Rightarrow> bool \<Rightarrow> bool"
  for e root allow_sidechain where
  top: "climbs e root allow_sidechain 0 None False"
| stop: "ascend e root allow_sidechain c = Inl r \<Longrightarrow> climbs e root allow_sidechain 0 (Some c) r"
| up: "ascend e root allow_sidechain c = Inr p \<Longrightarrow> climbs e root allow_sidechain n p r
        \<Longrightarrow> climbs e root allow_sidechain (Suc n) (Some c) r"

inductive_cases climbs_NoneE: "climbs e root al n None r"
inductive_cases climbs_SomeE: "climbs e root al n (Some c) r"

lemma climbs_unique: "climbs e root al n c r \<Longrightarrow> climbs e root al m c s \<Longrightarrow> n = m \<and> r = s"
proof (induction arbitrary: m s rule: climbs.induct)
  case top
  then show ?case by (auto elim: climbs_NoneE)
next
  case (stop c r)
  from stop(2,1) show ?case by (auto elim: climbs_SomeE)
next
  case (up c p n r)
  from up.prems show ?case
  proof (rule climbs_SomeE)
    assume "ascend e root al c = Inl s"
    with up.hyps(1) show ?thesis by simp
  next
    fix p' n' assume "m = Suc n'" "ascend e root al c = Inr p'" "climbs e root al n' p' s"
    with up.hyps(1) up.IH [of n' s] show ?thesis by simp
  qed
qed

text \<open>The climb of the code, one step at a time.\<close>

lemma climb_None: "climb e root al cache None path visited = Inr (False, path)"
  by (simp add: climb.simps)

lemma climb_Some:
  "climb e root al cache (Some c) path visited =
     (case cache c of
        Some r \<Rightarrow> Inr (r, path)
      | None \<Rightarrow>
          if c \<in> visited then Inl (ParentCycle c)
          else (case ascend e root al c of
                  Inl r \<Rightarrow> Inr (r, path)
                | Inr p \<Rightarrow> climb e root al cache p (path @ [c]) (insert c visited)))"
  by (subst climb.simps) (auto simp: ascend_def split: option.splits)

definition cache_sound :: "transcript_engine \<Rightarrow> utext \<Rightarrow> bool \<Rightarrow> (utext \<Rightarrow> bool option) \<Rightarrow> bool" where
  "cache_sound e root al cache \<longleftrightarrow> (\<forall>c r. cache c = Some r \<longrightarrow> (\<exists>n. climbs e root al n (Some c) r))"

lemma climb_finds:
  assumes "climbs e root al n current r" and "cache_sound e root al cache"
    and "\<forall>v \<in> visited. \<forall>m s. climbs e root al m (Some v) s \<longrightarrow> n < m"
  shows "\<exists>p. climb e root al cache current path visited = Inr (r, p)"
  using assms
proof (induction arbitrary: path visited rule: climbs.induct)
  case top
  show ?case by (simp add: climb_None)
next
  case (stop c r)
  have run: "climbs e root al 0 (Some c) r" using stop(1) by (rule climbs.stop)
  show ?case
  proof (cases "cache c")
    case None
    with stop run show ?thesis by (auto simp: climb_Some)
  next
    case (Some s)
    with stop(2) climbs_unique [OF run] show ?thesis by (auto simp: climb_Some cache_sound_def)
  qed
next
  case (up c p n r)
  have run: "climbs e root al (Suc n) (Some c) r" using up(1,2) by (rule climbs.up)
  show ?case
  proof (cases "cache c")
    case None
    have "\<forall>v \<in> insert c visited. \<forall>m s. climbs e root al m (Some v) s \<longrightarrow> n < m"
    proof (intro ballI allI impI)
      fix v m s assume v: "v \<in> insert c visited" and m: "climbs e root al m (Some v) s"
      show "n < m"
      proof (cases "v = c")
        case True
        with climbs_unique [OF run, of m s] m show ?thesis by simp
      next
        case False
        with v m up(5) have "Suc n < m" by blast
        then show ?thesis by simp
      qed
    qed
    from up.IH [OF up(4) this, of "path @ [c]"] obtain p'
      where "climb e root al cache p (path @ [c]) (insert c visited) = Inr (r, p')" ..
    moreover have "c \<notin> visited" using up(5) run by blast
    ultimately show ?thesis using None up(1) by (simp add: climb_Some)
  next
    case (Some s)
    with up(4) climbs_unique [OF run] show ?thesis by (auto simp: climb_Some cache_sound_def)
  qed
qed

lemma climb_sound:
  assumes "climb e root al cache current path visited = Inr (r, p)" and "cache_sound e root al cache"
  shows "(\<exists>n. climbs e root al n current r)
       \<and> (\<exists>ext. p = path @ ext \<and> (\<forall>c \<in> set ext. \<exists>n. climbs e root al n (Some c) r))"
  using assms
proof (induction e root al cache current path visited rule: climb.induct)
  case (1 e root al cache current path visited)
  show ?case
  proof (cases current)
    case None
    with 1(2) show ?thesis by (auto simp: climb_None intro: climbs.top)
  next
    case (Some c)
    show ?thesis
    proof (cases "cache c")
      case (Some s)
      with \<open>current = Some c\<close> 1(2,3) show ?thesis by (auto simp: climb_Some cache_sound_def)
    next
      case None
      with \<open>current = Some c\<close> 1(2) have new: "c \<notin> visited" by (auto simp: climb_Some split: if_splits)
      show ?thesis
      proof (cases "ascend e root al c")
        case (Inl s)
        with \<open>current = Some c\<close> None new 1(2) show ?thesis by (auto simp: climb_Some intro: climbs.stop)
      next
        case (Inr q)
        with \<open>current = Some c\<close> None new 1(2)
        have rest: "climb e root al cache q (path @ [c]) (insert c visited) = Inr (r, p)" by (simp add: climb_Some)
        from Inr obtain i where i: "te_by_uuid e c = Some i" "\<not> length (te_rows e) \<le> i"
          "\<not> (scope_of (te_rows e ! i) \<noteq> Main \<and> \<not> (al \<and> scope_of (te_rows e ! i) = Sidechain))"
          "c \<noteq> root" "q = parent_of (te_rows e ! i)"
          by (auto simp: ascend_def split: option.splits if_splits)
        from 1(1) [OF \<open>current = Some c\<close> None new i(1-4)] rest i(5) 1(3)
        obtain n ext where "climbs e root al n q r" "p = path @ [c] @ ext"
          "\<forall>c \<in> set ext. \<exists>n. climbs e root al n (Some c) r" by auto
        with climbs.up [OF Inr] \<open>current = Some c\<close> show ?thesis
          by (auto intro!: exI [of _ "[c] @ ext"])
      qed
    qed
  qed
qed

lemma climb_error: "climb e root al cache current path visited = Inl err \<Longrightarrow> \<exists>c. err = ParentCycle c"
proof (induction e root al cache current path visited rule: climb.induct)
  case (1 e root al cache current path visited)
  from 1(2) show ?case
    by (subst (asm) climb.simps) (auto split: option.splits if_splits dest: 1(1))
qed

section \<open>The scan\<close>

definition descends :: "transcript_engine \<Rightarrow> utext \<Rightarrow> utext \<Rightarrow> bool" where
  "descends e root u \<longleftrightarrow> (\<exists>n. climbs e root True n (Some u) True)"

lemma cache_sound_fold:
  "\<forall>c \<in> set p. \<exists>n. climbs e root al n (Some c) r \<Longrightarrow> cache_sound e root al cache
     \<Longrightarrow> cache_sound e root al (fold (\<lambda>c m. m(c \<mapsto> r)) p cache)"
proof (induction p arbitrary: cache)
  case (Cons c p)
  from Cons.prems have "cache_sound e root al (cache(c \<mapsto> r))" by (simp add: cache_sound_def)
  with Cons.prems Cons.IH [of "cache(c \<mapsto> r)"] show ?case by (simp del: fun_upd_apply)
qed simp

lemma descendant_cached_spec:
  assumes "cache_sound e root True cache"
  shows "case is_descendant_cached e u root True cache of
           Inr (r, cache') \<Rightarrow> (r \<longleftrightarrow> descends e root u) \<and> cache_sound e root True cache'
         | Inl err \<Rightarrow> (\<exists>c. err = ParentCycle c) \<and> (\<nexists>n r. climbs e root True n (Some u) r)"
proof (cases "climb e root True cache (Some u) [] {}")
  case (Inl err)
  with climb_error [OF Inl] climb_finds [OF _ assms, of _ "Some u" _ "{}" "[]"] show ?thesis
    by (auto simp: is_descendant_cached_def)
next
  case (Inr rp)
  obtain r p where rp: "rp = (r, p)" by fastforce
  from climb_sound [OF Inr [unfolded rp] assms] obtain n where n: "climbs e root True n (Some u) r"
    and p: "\<forall>c \<in> set p. \<exists>n. climbs e root True n (Some c) r" by auto
  have "cache_sound e root True (fold (\<lambda>c m. m(c \<mapsto> r)) p cache)"
    using p assms by (rule cache_sound_fold)
  moreover have "r \<longleftrightarrow> descends e root u"
    using n climbs_unique [OF n, of _ True] unfolding descends_def by (cases r) auto
  ultimately show ?thesis using Inr rp by (simp add: is_descendant_cached_def)
qed

definition charged :: "transcript_engine \<Rightarrow> prompt_acknowledgement \<Rightarrow> nat \<Rightarrow> bool" where
  "charged e ack i \<longleftrightarrow>
     sr_ordinal (te_rows e ! i) \<ge> pa_ordinal ack \<and> scope_of (te_rows e ! i) = Sidechain
     \<and> is_assistant (kind_of (te_rows e ! i)) \<and> uuid_of (te_rows e ! i) \<noteq> None"

text \<open>What a scan of some rows may return.\<close>

definition scan_result ::
  "transcript_engine \<Rightarrow> prompt_acknowledgement \<Rightarrow> nat list \<Rightarrow> nat list \<Rightarrow> transcript_error + nat list \<Rightarrow> bool" where
  "scan_result e ack is acc res =
     (case res of
        Inr out \<Rightarrow>
          out = acc @ filter (\<lambda>i. charged e ack i
                               \<and> descends e (pa_row_uuid ack) (the (uuid_of (te_rows e ! i)))) is
      | Inl err \<Rightarrow>
          (\<exists>c. err = ParentCycle c)
          \<and> (\<exists>i \<in> set is. charged e ack i
               \<and> (\<nexists>n r. climbs e (pa_row_uuid ack) True n (uuid_of (te_rows e ! i)) r)))"

lemma scan_result_skip:
  "scan_result e ack is acc res
     \<Longrightarrow> \<not> (charged e ack i \<and> descends e (pa_row_uuid ack) (the (uuid_of (te_rows e ! i))))
     \<Longrightarrow> scan_result e ack (i # is) acc res"
  by (cases res) (auto simp: scan_result_def)

lemma scan_result_take:
  "scan_result e ack is (acc @ [i]) res
     \<Longrightarrow> charged e ack i \<and> descends e (pa_row_uuid ack) (the (uuid_of (te_rows e ! i)))
     \<Longrightarrow> scan_result e ack (i # is) acc res"
  by (cases res) (auto simp: scan_result_def)

lemma sidechain_scan_spec:
  "cache_sound e (pa_row_uuid ack) True cache \<Longrightarrow> scan_result e ack is acc (sidechain_scan e ack is cache acc)"
proof (induction "is" arbitrary: cache acc)
  case (Cons i "is")
  let ?s = "te_rows e ! i" and ?root = "pa_row_uuid ack"
  show ?case
  proof (cases "charged e ack i")
    case False
    then have "sidechain_scan e ack (i # is) cache acc = sidechain_scan e ack is cache acc"
      by (auto simp: charged_def Let_def split: option.splits)
    with Cons.IH [OF Cons.prems, of acc] scan_result_skip False show ?thesis by metis
  next
    case True
    then obtain u where u: "uuid_of ?s = Some u" by (auto simp: charged_def)
    with True have step: "sidechain_scan e ack (i # is) cache acc =
        bind_r (is_descendant_cached e u ?root True cache) (\<lambda>(r, cache').
          sidechain_scan e ack is cache' (if r then acc @ [i] else acc))"
      by (auto simp: charged_def Let_def)
    show ?thesis
    proof (cases "is_descendant_cached e u ?root True cache")
      case (Inl err)
      with descendant_cached_spec [OF Cons.prems, of u] have "\<exists>c. err = ParentCycle c"
        "\<nexists>n r. climbs e ?root True n (uuid_of ?s) r" by (simp_all add: u)
      with True show ?thesis unfolding step Inl by (auto simp: scan_result_def)
    next
      case (Inr rc)
      obtain r cache' where rc: "rc = (r, cache')" by fastforce
      with Inr descendant_cached_spec [OF Cons.prems, of u]
      have r: "r \<longleftrightarrow> descends e ?root u" "cache_sound e ?root True cache'" by simp_all
      show ?thesis
      proof (cases r)
        case True
        have "scan_result e ack (i # is) acc (sidechain_scan e ack is cache' (acc @ [i]))"
          by (rule scan_result_take [OF Cons.IH [OF r(2)]]) (use True r(1) u \<open>charged e ack i\<close> in simp)
        with True show ?thesis unfolding step Inr rc by simp
      next
        case False
        have "scan_result e ack (i # is) acc (sidechain_scan e ack is cache' acc)"
          by (rule scan_result_skip [OF Cons.IH [OF r(2)]]) (use False r(1) u in simp)
        with False show ?thesis unfolding step Inr rc by simp
      qed
    qed
  qed
qed (simp add: scan_result_def)

text \<open>C27: The sidechain rows charged to a turn are exactly its descendants. The scan, cache and all, returns
  in append order the assistant sidechain rows since the prompt whose parent links, through main-chain and sidechain
  rows only, lead to the prompt; it fails only with a cycle error, and only if some such row's parent links
  never end. The cache changes neither.\<close>

theorem sidechain_rows_are_the_descendants:
  "case sidechain_indices e ack of
     Inr out \<Rightarrow>
       out = filter (\<lambda>i. charged e ack i \<and> descends e (pa_row_uuid ack) (the (uuid_of (te_rows e ! i))))
               [0 ..< length (te_rows e)]
   | Inl err \<Rightarrow>
       (\<exists>c. err = ParentCycle c)
       \<and> (\<exists>i < length (te_rows e). charged e ack i
            \<and> (\<nexists>n r. climbs e (pa_row_uuid ack) True n (uuid_of (te_rows e ! i)) r))"
  using sidechain_scan_spec [of e ack Map.empty "[0 ..< length (te_rows e)]" "[]"]
  by (cases "sidechain_indices e ack") (auto simp: sidechain_indices_def cache_sound_def scan_result_def)

end
