(* ===== verification/Messages.thy ===== *)
theory Messages
  imports Transcript Class
begin

text \<open>
  The Anthropic Messages facade, \<open>src/bin/pmuxd/src/messages_http.rs\<close>: how a request body is rendered
  into the text typed into a cell, and how the cell's answer becomes a Messages response. A JSON
  document is a \<open>jvalue\<close>; its printing and parsing (\<open>serde_json\<close>) and SHA-256 (\<open>sha2\<close>) are the fields of
  the parameter \<open>libs\<close>.
\<close>

record libs =
  to_json :: "jvalue \<Rightarrow> utext"
  to_json_pretty :: "jvalue list \<Rightarrow> utext"
  from_json :: "utext \<Rightarrow> jvalue option"
  from_json_slice :: "bytes \<Rightarrow> utext + jvalue"
  sha256 :: "bytes \<Rightarrow> bytes"

section \<open>Text and JSON primitives\<close>

definition trim :: "utext \<Rightarrow> utext" where
  "trim t = trim_end_matches is_whitespace (dropWhile is_whitespace t)"

text \<open>\<open>str::split(c).next()\<close>: the text before the first \<open>c\<close>.\<close>

definition before_char :: "scalar \<Rightarrow> utext \<Rightarrow> utext" where
  "before_char c t = takeWhile (\<lambda>x. x \<noteq> c) t"

text \<open>\<open>slice::join\<close>.\<close>

fun join_text :: "utext \<Rightarrow> utext list \<Rightarrow> utext" where
  "join_text sep [] = []"
| "join_text sep [t] = t"
| "join_text sep (t # u # us) = t @ sep @ join_text sep (u # us)"

text \<open>\<open>Value::get\<close> with a key, and \<open>and_then(Value::as_str)\<close> after it; the \<open>json!\<close> macro on an object.\<close>

fun vget :: "jvalue \<Rightarrow> string \<Rightarrow> jvalue option" where
  "vget (VObject kvs) key = get kvs key"
| "vget _ key = None"

definition vget_str :: "jvalue \<Rightarrow> string \<Rightarrow> utext option" where
  "vget_str v key = Option.bind (vget v key) Transcript.as_str"

fun as_bool :: "jvalue \<Rightarrow> bool option" where
  "as_bool (VBool b) = Some b"
| "as_bool _ = None"

definition vobject :: "(string \<times> jvalue) list \<Rightarrow> jvalue" where
  "vobject kvs = VObject (fold (\<lambda>(k, v). ins_list (ascii k) v) kvs [])"

definition vtext :: "string \<Rightarrow> jvalue" where
  "vtext s = VString (ascii s)"

definition unwrap_or :: "'a \<Rightarrow> 'a option \<Rightarrow> 'a" where
  "unwrap_or d v = (case v of None \<Rightarrow> d | Some x \<Rightarrow> x)"

section \<open>The request body\<close>

definition TOOL_CALL_OPEN :: utext where "TOOL_CALL_OPEN = ascii ''<tool_call>''"
definition TOOL_CALL_CLOSE :: utext where "TOOL_CALL_CLOSE = ascii ''</tool_call>''"

definition EFFORT_SUFFIXES :: "(string \<times> effort_level) list" where
  "EFFORT_SUFFIXES =
     [(''-xhigh'', XHigh), (''-medium'', Medium), (''-high'', High), (''-low'', Low), (''-max'', Max)]"

definition split_model_and_effort :: "string \<Rightarrow> string \<times> effort_level option" where
  "split_model_and_effort model =
     unwrap_or (model, None)
       (find_map (\<lambda>(suffix, level).
           case strip_suffix suffix model of
             None \<Rightarrow> None
           | Some stem \<Rightarrow> if stem = [] then None else Some (stem, Some level))
         EFFORT_SUFFIXES)"

lemma size_member:
  "(k, v) \<in> set kvs \<Longrightarrow> size v < Suc (size_list (size_prod (\<lambda>x. 0) size) kvs)"
  by (induction kvs) auto

lemma size_item: "v \<in> set vs \<Longrightarrow> size v < Suc (size_list size vs)"
  by (induction vs) auto

function walk_for_type :: "string \<Rightarrow> jvalue \<Rightarrow> bool" where
  "walk_for_type ty (VObject kvs) =
     (Option.bind (get kvs ''type'') Transcript.as_str = Some (ascii ty)
      \<or> (\<exists>kv \<in> set kvs. walk_for_type ty (snd kv)))"
| "walk_for_type ty (VArray vs) = (\<exists>v \<in> set vs. walk_for_type ty v)"
| "walk_for_type ty VNull = False"
| "walk_for_type ty (VBool b) = False"
| "walk_for_type ty (VNumber n) = False"
| "walk_for_type ty (VString s) = False"
  by pat_completeness auto
termination
  by (relation "measure (\<lambda>(ty, v). size v)") (auto dest: size_member size_item)

definition reject_unsupported :: "jvalue \<Rightarrow> string + unit" where
  "reject_unsupported body =
     (if walk_for_type ''image'' body
      then Inl ''image content is not supported on the stateless token engine'' else Inr ())"

fun system_text :: "jvalue option \<Rightarrow> utext" where
  "system_text None = []"
| "system_text (Some VNull) = []"
| "system_text (Some (VString t)) = t"
| "system_text (Some (VArray blocks)) =
     join_text [10] (List.map_filter
       (\<lambda>block. if vget_str block ''type'' = Some (ascii ''text'') then vget_str block ''text''
                else Transcript.as_str block) blocks)"
| "system_text (Some other) = unwrap_or [] (Transcript.as_str other)"

fun tool_result_text :: "libs \<Rightarrow> jvalue option \<Rightarrow> utext" where
  "tool_result_text L (Some (VString t)) = t"
| "tool_result_text L (Some (VArray items)) =
     join_text [10] (List.map_filter (\<lambda>item. vget_str item ''text'') items)"
| "tool_result_text L (Some other) = to_json L other"
| "tool_result_text L None = []"

definition render_block :: "libs \<Rightarrow> jvalue \<Rightarrow> utext" where
  "render_block L block =
     (let ty = vget_str block ''type''
      in if ty = Some (ascii ''text'') then unwrap_or [] (vget_str block ''text'')
         else if ty = Some (ascii ''tool_use'') then
           ascii ''[tool_use id='' @ unwrap_or (ascii ''?'') (vget_str block ''id'') @
           ascii '' name='' @ unwrap_or (ascii ''?'') (vget_str block ''name'') @ ascii '']: '' @
           (case vget block ''input'' of Some input \<Rightarrow> to_json L input | None \<Rightarrow> ascii ''{}'')
         else if ty = Some (ascii ''tool_result'') then
           ascii ''[tool_result tool_use_id='' @ unwrap_or (ascii ''?'') (vget_str block ''tool_use_id'') @
           (if Option.bind (vget block ''is_error'') as_bool = Some True then ascii '' is_error=true'' else []) @
           ascii '']: '' @ tool_result_text L (vget block ''content'')
         else if ty = Some (ascii ''thinking'') then unwrap_or [] (vget_str block ''thinking'')
         else unwrap_or [] (vget_str block ''text''))"

fun render_content :: "libs \<Rightarrow> jvalue option \<Rightarrow> utext" where
  "render_content L None = []"
| "render_content L (Some VNull) = []"
| "render_content L (Some (VString t)) = t"
| "render_content L (Some (VArray blocks)) = join_text [10] (map (render_block L) blocks)"
| "render_content L (Some other) = to_json L other"

text \<open>The role of a message and the heading it is typed under.\<close>

definition role_of :: "jvalue \<Rightarrow> utext" where
  "role_of msg = unwrap_or (ascii ''user'') (vget_str msg ''role'')"

definition heading :: "utext \<Rightarrow> utext" where
  "heading role =
     (if role = ascii ''assistant'' then ascii ''ASSISTANT:''
      else if role = ascii ''system'' then ascii ''SYSTEM:'' else ascii ''USER:'') @ [10]"

definition render_message :: "libs \<Rightarrow> jvalue \<Rightarrow> utext" where
  "render_message L msg = heading (role_of msg) @ render_content L (vget msg ''content'') @ [10, 10]"

definition CLOSING :: utext where
  "CLOSING = ascii ''Continue as the assistant. Either answer in plain text or emit tool_call blocks.'' @ [10]"

definition tools_section :: "libs \<Rightarrow> jvalue list \<Rightarrow> utext" where
  "tools_section L tools =
     ascii ''TOOLS:'' @ [10] @ ascii ''You may call tools by emitting one or more blocks of the form'' @ [10] @
     TOOL_CALL_OPEN @
     ascii ''{'' @ [34] @ ascii ''name'' @ [34] @ ascii '':'' @ [34] @ ascii ''TOOL_NAME'' @ [34] @ ascii '','' @
     [34] @ ascii ''id'' @ [34] @ ascii '':'' @ [34] @ ascii ''toolu_...'' @ [34] @ ascii '','' @
     [34] @ ascii ''input'' @ [34] @ ascii '':{}}'' @
     TOOL_CALL_CLOSE @ [10] @
     ascii ''The payload is strict JSON: escape newlines inside strings as '' @ [92] @ ascii ''n.'' @ [10] @
     ascii ''Do not execute anything. The consumer will run the tool and send a tool_result.'' @ [10] @
     ascii ''If you can answer without a tool, answer in plain text and emit no tool_call blocks.'' @ [10] @
     ascii ''Available tools (JSON Schema):'' @ [10] @
     to_json_pretty L tools @ [10, 10]"

definition messages_of :: "jvalue \<Rightarrow> jvalue list option" where
  "messages_of body = Option.bind (vget body ''messages'') as_array"

definition flatten_prompt :: "libs \<Rightarrow> jvalue \<Rightarrow> string + utext" where
  "flatten_prompt L body =
     (let system = system_text (vget body ''system'');
          head = (if system = [] then [] else ascii ''SYSTEM:'' @ [10] @ system @ [10, 10]) @
                 (case Option.bind (vget body ''tools'') as_array of
                    None \<Rightarrow> []
                  | Some tools \<Rightarrow> if tools = [] then [] else tools_section L tools)
      in bind_r (ok_or_else ''messages is required'' (messages_of body)) (\<lambda>messages.
         Inr (head @ ascii ''HISTORY:'' @ [10] @ concat (map (render_message L) messages) @ CLOSING)))"

definition sanitize_char :: "scalar \<Rightarrow> utext" where
  "sanitize_char c =
     (if c = 9 then [32, 32, 32, 32] else if c = 10 then [10] else if is_control c then [] else [c])"

definition sanitize_prompt :: "utext \<Rightarrow> utext" where
  "sanitize_prompt p = concat (map sanitize_char p)"

section \<open>The completion\<close>

record tool_call =
  tc_id :: utext
  tc_name :: utext
  tc_input :: jvalue

record parsed_completion =
  pc_text :: utext
  pc_tool_calls :: "tool_call list"

definition hex_lower :: "nat \<Rightarrow> scalar" where
  "hex_lower d = (if d < 10 then 48 + d else 87 + d)"

text \<open>\<open>{:04x}\<close> of a code below 0x20.\<close>

definition u_escape :: "scalar \<Rightarrow> utext" where
  "u_escape c = [92, 117, 48, 48, hex_lower (c div 16), hex_lower (c mod 16)]"

fun escape_loop :: "bool \<Rightarrow> bool \<Rightarrow> utext \<Rightarrow> utext" where
  "escape_loop in_string escaped [] = []"
| "escape_loop in_string escaped (c # cs) =
     (if in_string then
        if escaped then c # escape_loop True False cs
        else if c = 92 then c # escape_loop True True cs
        else if c = 34 then c # escape_loop False False cs
        else if c = 10 then [92, 110] @ escape_loop True False cs
        else if c = 13 then [92, 114] @ escape_loop True False cs
        else if c = 9 then [92, 116] @ escape_loop True False cs
        else if c < 32 then u_escape c @ escape_loop True False cs
        else c # escape_loop True False cs
      else c # escape_loop (c = 34) escaped cs)"

definition escape_control_characters_in_strings :: "utext \<Rightarrow> utext" where
  "escape_control_characters_in_strings payload = escape_loop False False payload"

definition parse_tool_call_payload :: "libs \<Rightarrow> utext \<Rightarrow> jvalue option" where
  "parse_tool_call_payload L payload =
     (case from_json L payload of
        Some v \<Rightarrow> Some v
      | None \<Rightarrow>
          let escaped = escape_control_characters_in_strings payload
          in if escaped = payload then None else from_json L escaped)"

text \<open>The call a parsed block makes, the \<open>n\<close>-th of its answer; \<open>None\<close> for a block without a name.\<close>

definition tool_call_of :: "nat \<Rightarrow> jvalue \<Rightarrow> tool_call option" where
  "tool_call_of n v =
     (let name = unwrap_or [] (vget_str v ''name'')
      in if name = [] then None
         else Some \<lparr>tc_id = (case vget_str v ''id'' of
                               None \<Rightarrow> ascii (''toolu_'' @ to_string (n + 1))
                             | Some i \<Rightarrow> if i = [] then ascii (''toolu_'' @ to_string (n + 1)) else i),
                    tc_name = name,
                    tc_input = unwrap_or (vobject []) (vget v ''input'')\<rparr>)"

lemma split_once_Some: "split_once p s = Some (a, b) \<Longrightarrow> s = a @ p @ b"
  by (induction p s arbitrary: a b rule: split_once.induct)
    (auto simp: strip_prefix_Some split: list.splits option.splits)

lemma split_once_shorter: "split_once p s = Some (a, b) \<Longrightarrow> p \<noteq> [] \<Longrightarrow> length b < length s"
  by (drule split_once_Some) auto

function completion_loop :: "libs \<Rightarrow> utext \<Rightarrow> utext \<Rightarrow> tool_call list \<Rightarrow> utext \<times> tool_call list" where
  "completion_loop L remaining cursor calls =
     (case split_once TOOL_CALL_OPEN cursor of
        None \<Rightarrow> (remaining @ cursor, calls)
      | Some (start, after) \<Rightarrow>
          (case split_once TOOL_CALL_CLOSE after of
             None \<Rightarrow> (remaining @ start @ TOOL_CALL_OPEN @ after, calls)
           | Some (payload, rest) \<Rightarrow>
               let raw_block = TOOL_CALL_OPEN @ payload @ TOOL_CALL_CLOSE
               in case Option.bind (parse_tool_call_payload L (trim payload))
                         (tool_call_of (length calls)) of
                    None \<Rightarrow> completion_loop L (remaining @ start @ raw_block) rest calls
                  | Some call \<Rightarrow> completion_loop L (remaining @ start) rest (calls @ [call])))"
  by pat_completeness auto
termination
proof (relation "measure (\<lambda>(L, remaining, cursor, calls). length cursor)", goal_cases)
  case 1
  show ?case by simp
next
  case (2 L remaining cursor calls x start after y payload rest z)
  then show ?case
    using split_once_Some [of TOOL_CALL_OPEN cursor start after]
      split_once_Some [of TOOL_CALL_CLOSE after payload rest]
    by (auto simp: TOOL_CALL_OPEN_def ascii_def)
next
  case (3 L remaining cursor calls x start after y payload rest z call)
  then show ?case
    using split_once_Some [of TOOL_CALL_OPEN cursor start after]
      split_once_Some [of TOOL_CALL_CLOSE after payload rest]
    by (auto simp: TOOL_CALL_OPEN_def ascii_def)
qed

declare completion_loop.simps [simp del]

definition parse_completion :: "libs \<Rightarrow> utext \<Rightarrow> parsed_completion" where
  "parse_completion L t =
     (case completion_loop L [] t [] of
        (remaining, calls) \<Rightarrow> \<lparr>pc_text = trim remaining, pc_tool_calls = calls\<rparr>)"

end
