(* ===== verification/Conversation.thy ===== *)
theory Conversation
  imports Messages PoolOps
begin

text \<open>
  The lease book of the Messages facade, \<open>src/bin/pmuxd/src/conversation.rs\<close>: which conversation is
  pinned to which cell, and whether a request continues, replays or re-primes it. This theory has the
  request checks, the prefix classification and the book's critical sections; the asynchronous
  handlers that compose them with the pool are in \<open>Desk\<close>. A \<open>HashMap\<close> is an ordered map: nothing depends
  on the order of iteration. Conversation ids, digests and model names are byte strings.
\<close>

section \<open>Data\<close>

type_synonym headers = "(utext \<times> utext) list"

record conversation_config =
  cc_idle_ttl_ms :: u64
  cc_max_leases :: u32
  cc_allow_implicit :: bool

datatype lease_kind = Primed | Continued | Reprimed | Replayed

fun lease_kind_as_str :: "lease_kind \<Rightarrow> string" where
  "lease_kind_as_str Primed = ''primed''"
| "lease_kind_as_str Continued = ''continued''"
| "lease_kind_as_str Reprimed = ''reprimed''"
| "lease_kind_as_str Replayed = ''replayed''"

record lease_turn =
  lt_conversation_id :: string
  lt_cell :: string
  lt_kind :: lease_kind
  lt_idle_ttl_ms :: u64
  lt_requested_model :: utext
  lt_result :: stateless_result

record conversation_fingerprint =
  fp_model :: string
  fp_effort :: "effort_level option"
  fp_account :: string
  fp_system_tools :: string
  fp_messages :: "string list"

datatype prefix_decision = Continue nat | Replay | Reprime

section \<open>Classifying a request against a lease\<close>

text \<open>The class a fingerprint pins; an account name that does not parse falls back to the default.\<close>

definition fingerprint_class :: "conversation_fingerprint \<Rightarrow> model_effort_refusal + instance_class" where
  "fingerprint_class f =
     bind_r (resolve_pool_class (fp_model f) (fp_effort f)) (\<lambda>(cls, _).
       Inr (with_account cls (case account_parse (fp_account f) of Inl _ \<Rightarrow> account_default | Inr a \<Rightarrow> a)))"

definition pool_class_changed :: "conversation_fingerprint \<Rightarrow> conversation_fingerprint \<Rightarrow> bool" where
  "pool_class_changed previous new =
     (case (fingerprint_class previous, fingerprint_class new) of
        (Inr left, Inr right) \<Rightarrow> left \<noteq> right
      | _ \<Rightarrow> fp_model previous \<noteq> fp_model new \<or> fp_effort previous \<noteq> fp_effort new
             \<or> fp_account previous \<noteq> fp_account new)"

fun starts_with :: "'a list \<Rightarrow> 'a list \<Rightarrow> bool" where
  "starts_with xs [] = True"
| "starts_with [] (y # ys) = False"
| "starts_with (x # xs) (y # ys) = (x = y \<and> starts_with xs ys)"

definition classify_prefix ::
  "conversation_fingerprint \<Rightarrow> conversation_fingerprint \<Rightarrow> prefix_decision" where
  "classify_prefix previous new =
     (if pool_class_changed previous new then Reprime
      else if fp_system_tools previous \<noteq> fp_system_tools new then Reprime
      else if fp_messages new = fp_messages previous then Replay
      else if starts_with (fp_messages new) (fp_messages previous)
              \<and> length (fp_messages new) > length (fp_messages previous)
      then Continue (length (fp_messages previous))
      else Reprime)"

section \<open>Digests and headers\<close>

definition hex :: "bytes \<Rightarrow> string" where
  "hex bs = concat (map (\<lambda>b. [hex_digit (unat b div 16), hex_digit (unat b mod 16)]) bs)"

definition sha_hex :: "libs \<Rightarrow> utext \<Rightarrow> string" where
  "sha_hex L t = hex (sha256 L (utf8 t))"

definition tools_text :: "libs \<Rightarrow> jvalue \<Rightarrow> utext" where
  "tools_text L body = (case vget body ''tools'' of None \<Rightarrow> [] | Some tools \<Rightarrow> to_json L tools)"

text \<open>What a message's digest is taken of.\<close>

definition digest_text :: "libs \<Rightarrow> jvalue \<Rightarrow> utext" where
  "digest_text L msg = role_of msg @ [10] @ render_content L (vget msg ''content'')"

definition fingerprint_body_on ::
  "libs \<Rightarrow> jvalue \<Rightarrow> string \<Rightarrow> effort_level option \<Rightarrow> account_name \<Rightarrow> conversation_fingerprint" where
  "fingerprint_body_on L body model effort acct =
     \<lparr>fp_model = model, fp_effort = effort, fp_account = Class.as_str acct,
      fp_system_tools = hex (sha256 L (utf8 (system_text (vget body ''system'')) @ [0] @ utf8 (tools_text L body))),
      fp_messages = (case messages_of body of None \<Rightarrow> [] | Some items \<Rightarrow> map (\<lambda>m. sha_hex L (digest_text L m)) items)\<rparr>"

definition header :: "headers \<Rightarrow> string \<Rightarrow> utext option" where
  "header hs name =
     map_option snd (find (\<lambda>(key, _). eq_ignore_ascii_case (utf8_string key) name) hs)"

definition account_from_headers :: "headers \<Rightarrow> error_body + account_name" where
  "account_from_headers hs =
     (case header hs ''x-pmux-account'' of
        None \<Rightarrow> Inr account_default
      | Some raw \<Rightarrow>
          if raw = [] then Inr account_default
          else map_err (\<lambda>e. with_details (json_object [(''violation'', JString ''invalid_account_name'')])
                   (error_new InvalidConfig (show_account_name_error e)))
                 (account_parse (utf8_string raw)))"

definition explicit_conversation_id :: "headers \<Rightarrow> utext option" where
  "explicit_conversation_id hs =
     find_map (\<lambda>name.
         case header hs name of
           None \<Rightarrow> None
         | Some explicit \<Rightarrow> if trim explicit = [] then None else Some (trim explicit))
       [''x-pmux-conversation'', ''x-session-id'', ''x-session-affinity'']"

definition require_path_safe_conversation_id :: "utext \<Rightarrow> error_body + utext" where
  "require_path_safe_conversation_id raw =
     (let i = trim raw
      in if i = [] then Inl (error_new InvalidConfig ''conversation id must not be empty'')
         else if list_ex (\<lambda>c. c = 47 \<or> c = 63 \<or> c = 35) i \<or> list_ex is_whitespace i
         then Inl (error_new InvalidConfig ''conversation id is not path-safe'')
         else Inr i)"

definition missing_conversation_header :: error_body where
  "missing_conversation_header =
     advising (''set x-pmux-conversation to the harness session id, or start pmuxd with '' @
         ''--messages-allow-implicit for a single-session implicit hash'')
       (error_new InvalidConfig
         (''a conversation pin is required: send x-pmux-conversation (or x-session-id / '' @
          ''x-session-affinity) on every POST /v1/messages''))"

definition implicit_conversation_id ::
  "libs \<Rightarrow> jvalue \<Rightarrow> string \<Rightarrow> effort_level option \<Rightarrow> account_name \<Rightarrow> string" where
  "implicit_conversation_id L body model effort acct =
     (let first = (case messages_of body of Some (m # _) \<Rightarrow> digest_text L m | _ \<Rightarrow> []);
          token = (case effort of None \<Rightarrow> ''-'' | Some e \<Rightarrow> effort_as_str e)
      in sha_hex L (ascii model @ [10] @ ascii token @ [10] @ ascii (Class.as_str acct) @ [10] @
           system_text (vget body ''system'') @ [10] @ tools_text L body @ [10] @ first))"

definition conversation_id_from ::
  "libs \<Rightarrow> headers \<Rightarrow> jvalue \<Rightarrow> string \<Rightarrow> effort_level option \<Rightarrow> account_name \<Rightarrow> bool \<Rightarrow> error_body + string" where
  "conversation_id_from L hs body model effort acct allow_implicit =
     (case explicit_conversation_id hs of
        Some explicit \<Rightarrow>
          bind_r (require_path_safe_conversation_id explicit) (\<lambda>i. Inr (utf8_string i))
      | None \<Rightarrow>
          if allow_implicit then Inr (implicit_conversation_id L body model effort acct)
          else Inl missing_conversation_header)"

definition continuation_prompt :: "libs \<Rightarrow> jvalue \<Rightarrow> nat \<Rightarrow> string + utext" where
  "continuation_prompt L body from =
     bind_r (ok_or_else ''messages is required'' (messages_of body)) (\<lambda>messages.
       if length messages \<le> from then Inl ''continuation produced an empty prompt''
       else let prompt = sanitize_prompt (ascii ''HISTORY:'' @ [10] @
                  concat (map (render_message L) (drop from messages)) @ CLOSING)
            in if trim prompt = [] then Inl ''continuation produced an empty prompt'' else Inr prompt)"

definition effort_from_body :: "jvalue \<Rightarrow> error_body + effort_level option" where
  "effort_from_body body =
     (let named = Option.bind (Option.bind (vget body ''output_config'') (\<lambda>v. vget v ''effort'')) Transcript.as_str;
          raw = (case named of
                   Some t \<Rightarrow> Some t
                 | None \<Rightarrow>
                     (case Option.bind (vget body ''thinking'') (\<lambda>v. vget_str v ''type'') of
                        None \<Rightarrow> None
                      | Some kind \<Rightarrow> if kind = ascii ''disabled'' then None else Some (ascii ''high'')))
      in case raw of
           None \<Rightarrow> Inr None
         | Some t \<Rightarrow>
             (case find (\<lambda>e. ascii (effort_as_str e) = t) [Low, Medium, High, XHigh, Max] of
                Some e \<Rightarrow> Inr (Some e)
              | None \<Rightarrow> Inl (error_new InvalidConfig (''unsupported effort '' @ debug_str (utf8_string t)))))"

section \<open>A checked request\<close>

text \<open>What \<open>complete\<close> has once every check that needs no lock has passed.\<close>

record request =
  rq_conversation_id :: string
  rq_model :: string
  rq_requested_model :: utext
  rq_effort :: "effort_level option"
  rq_account :: account_name
  rq_next :: conversation_fingerprint
  rq_body :: jvalue
  rq_primer :: utext

definition unknown_account :: "pool_config \<Rightarrow> account_name \<Rightarrow> error_body" where
  "unknown_account pcfg acct =
     (let known = map (\<lambda>a. Class.as_str (acc_name a)) (accounts pcfg)
      in with_details (json_object
           [(''violation'', JString ''unknown_account''), (''account'', JString (Class.as_str acct)),
            (''configured'', JArray (map JString known))])
         (error_new InvalidConfig
           (''account '' @ debug_str (Class.as_str acct) @
            '' is not configured on this daemon; configured accounts: '' @ join_with '', '' known)))"

definition check_request ::
  "libs \<Rightarrow> conversation_config \<Rightarrow> pool_config \<Rightarrow> headers \<Rightarrow> jvalue \<Rightarrow> error_body + request" where
  "check_request L cfg pcfg hs body =
     bind_r (ok_or_else (error_new InvalidConfig ''model is required'') (vget_str body ''model'')) (\<lambda>raw_model.
     bind_r (effort_from_body body) (\<lambda>in_body.
     (case split_model_and_effort (utf8_string raw_model) of (stem, in_id) \<Rightarrow>
     bind_r (map_err refusal_into_error_body
         (resolve_pool_class stem (case in_id of Some e \<Rightarrow> Some e | None \<Rightarrow> in_body))) (\<lambda>(cls, resolved).
     bind_r (account_from_headers hs) (\<lambda>acct.
     if \<not> has_account pcfg acct then Inl (unknown_account pcfg acct)
     else
       let model = canonical_model (with_account cls acct); effort = r_effort_level resolved
       in bind_r (conversation_id_from L hs body model effort acct (cc_allow_implicit cfg)) (\<lambda>conv.
          bind_r (map_err (error_new InvalidConfig) (flatten_prompt L body)) (\<lambda>flat.
          Inr \<lparr>rq_conversation_id = conv, rq_model = model, rq_requested_model = raw_model,
               rq_effort = effort, rq_account = acct,
               rq_next = fingerprint_body_on L body model effort acct,
               rq_body = body, rq_primer = sanitize_prompt flat\<rparr>)))))))"

section \<open>The book\<close>

record lease =
  l_fingerprint :: conversation_fingerprint
  l_last_result :: stateless_result
  l_last_used :: u64
  l_in_flight :: bool
  l_cell :: string

record book_state =
  b_live :: "(string, lease) btree_map"
  b_reserved :: "string btree_set"

definition book_new :: book_state where
  "book_new = \<lparr>b_live = bm_empty, b_reserved = bm_empty\<rparr>"

definition occupied :: "book_state \<Rightarrow> nat" where
  "occupied b = bm_len (b_live b) + bm_len (b_reserved b)"

datatype planned_kind = PlanPrime | PlanContinue nat | PlanReprime

definition session_busy_in_flight :: error_body where
  "session_busy_in_flight = with_retryable True (error_new SessionBusy
     ''this conversation already has a turn in flight; nothing is queued'')"

definition session_busy_cap :: "u32 \<Rightarrow> error_body" where
  "session_busy_cap n = with_retryable True (error_new SessionBusy
     (''conversation lease cap is '' @ to_string n @
      ''; release an idle conversation or raise --pool-size''))"

definition pool_conversation_ids :: "pool_state \<Rightarrow> string list" where
  "pool_conversation_ids st = map cl_conversation_id (conversation_leases st)"

definition drop_orphans :: "string list \<Rightarrow> book_state \<Rightarrow> book_state" where
  "drop_orphans pool_ids b =
     b\<lparr>b_live := fold bm_remove
         (map fst (filter (\<lambda>(i, l). \<not> l_in_flight l \<and> i \<notin> set pool_ids) (entries (b_live b))))
         (b_live b)\<rparr>"

definition set_in_flight :: "bool \<Rightarrow> string \<Rightarrow> book_state \<Rightarrow> book_state" where
  "set_in_flight f conv b = b\<lparr>b_live := bm_modify conv (\<lambda>l. l\<lparr>l_in_flight := f\<rparr>) (b_live b)\<rparr>"

text \<open>
  The planning section of \<open>complete\<close>. The book stays locked across the pool's \<open>touch_conversation\<close> and
  \<open>protect_conversation\<close>, and no pool operation reads the book, so the section is one action on both.
\<close>

datatype plan_outcome = PlanRefused error_body | PlanReplayed lease_turn | PlanRun planned_kind

definition reserve_lease :: "conversation_config \<Rightarrow> string \<Rightarrow> book_state \<Rightarrow> plan_outcome \<times> book_state" where
  "reserve_lease cfg conv b =
     (if bm_contains (b_reserved b) conv then (PlanRefused session_busy_in_flight, b)
      else if cc_max_leases cfg \<le> u32_of_usize (occupied b)
      then (PlanRefused (session_busy_cap (cc_max_leases cfg)), b)
      else (PlanRun PlanPrime, b\<lparr>b_reserved := bs_insert conv (b_reserved b)\<rparr>))"

definition plan ::
  "conversation_config \<Rightarrow> u64 \<Rightarrow> string list \<Rightarrow> request \<Rightarrow> book_state \<Rightarrow> pool_state \<Rightarrow>
     plan_outcome \<times> book_state \<times> pool_state" where
  "plan cfg now pool_ids rq b0 st =
     (let b = drop_orphans pool_ids b0; conv = rq_conversation_id rq
      in case bm_get (b_live b) conv of
           None \<Rightarrow> (case reserve_lease cfg conv b of (out, b') \<Rightarrow> (out, b', st))
         | Some l \<Rightarrow>
             if l_in_flight l then (PlanRefused session_busy_in_flight, b, st)
             else (case classify_prefix (l_fingerprint l) (rq_next rq) of
               Replay \<Rightarrow>
                 (case touch_conversation now conv st of
                    (True, st') \<Rightarrow>
                      (PlanReplayed \<lparr>lt_conversation_id = conv, lt_cell = l_cell l, lt_kind = Replayed,
                          lt_idle_ttl_ms = cc_idle_ttl_ms cfg, lt_requested_model = rq_requested_model rq,
                          lt_result = l_last_result l\<rparr>,
                       b\<lparr>b_live := bm_modify conv (\<lambda>l. l\<lparr>l_last_used := now\<rparr>) (b_live b)\<rparr>, st')
                  | (False, st') \<Rightarrow>
                      (case reserve_lease cfg conv (b\<lparr>b_live := bm_remove conv (b_live b)\<rparr>) of
                         (out, b') \<Rightarrow> (out, b', st')))
             | Continue from \<Rightarrow>
                 (PlanRun (PlanContinue from), set_in_flight True conv b, protect_conversation conv st)
             | Reprime \<Rightarrow> (PlanRun PlanReprime, set_in_flight True conv b, st)))"

text \<open>The last section of \<open>execute\<close>, the section of \<open>recover_failed_turn\<close>, and the section of \<open>release\<close>.\<close>

definition commit_lease ::
  "u64 \<Rightarrow> string \<Rightarrow> conversation_fingerprint \<Rightarrow> stateless_result \<Rightarrow> string \<Rightarrow> book_state \<Rightarrow> book_state" where
  "commit_lease now conv f result cell b =
     b\<lparr>b_reserved := bm_remove conv (b_reserved b),
       b_live := bm_insert conv
         \<lparr>l_fingerprint = f, l_last_result = result, l_last_used = now, l_in_flight = False, l_cell = cell\<rparr>
         (b_live b)\<rparr>"

definition recover_locked :: "bool \<Rightarrow> string \<Rightarrow> book_state \<Rightarrow> book_state" where
  "recover_locked keep conv b =
     (if keep then set_in_flight False conv b
      else b\<lparr>b_reserved := bm_remove conv (b_reserved b), b_live := bm_remove conv (b_live b)\<rparr>)"

definition release_lease :: "string \<Rightarrow> book_state \<Rightarrow> error_body + book_state" where
  "release_lease conv b =
     (if bm_contains (b_reserved b) conv
         \<or> (case bm_get (b_live b) conv of None \<Rightarrow> False | Some l \<Rightarrow> l_in_flight l)
      then Inl session_busy_in_flight
      else Inr (b\<lparr>b_live := bm_remove conv (b_live b)\<rparr>))"

section \<open>What a turn types\<close>

definition validate_typed_prompt :: "(utext \<Rightarrow> utext) \<Rightarrow> utext \<Rightarrow> error_body + unit" where
  "validate_typed_prompt nfc prompt = bind_r (validate_prompt nfc prompt) (\<lambda>_. Inr ())"

definition request_for :: "request \<Rightarrow> utext \<Rightarrow> run_stateless_request" where
  "request_for rq prompt =
     \<lparr>req_model = rq_model rq, req_effort = rq_effort rq, req_prompt = prompt,
      req_account = (if is_default (rq_account rq) then None else Some (Class.as_str (rq_account rq))),
      req_deadline_unix_ms = None\<rparr>"

end
