(* ===== verification/Desk.thy ===== *)
theory Desk
  imports Conversation Isolation
begin

text \<open>
  The Messages facade over the running pool: the asynchronous handlers of \<open>ConversationBook\<close>
  (\<open>complete\<close>, \<open>execute\<close>, \<open>recover_failed_turn\<close>, \<open>release\<close>, \<open>sweep_expired\<close> in
  \<open>src/bin/pmuxd/src/conversation.rs\<close>), interleaved with each other and with the pool's tasks.

  A turn is suspended either before one of its own critical sections or inside a call of the pool; in
  the second case it carries the pool task it awaits. The pool of the composed system has the tasks of
  the background together with the calls of the turns. One ghost, read by no handler: what was typed
  into each slot's process since it was last proven empty. It grows and empties with \<open>heard\<close>.
\<close>

section \<open>Turns\<close>

text \<open>What a call types into the cell: the whole request, or its messages from an index on.\<close>

datatype say = Primer | Suffix nat

datatype turn =
    Listing request
  | Planning request "string list"
  | Dropping request planned_kind pc
  | Calling request planned_kind say pc
  | Unprotecting request planned_kind "error_body + lease_turn"
  | Recovering request planned_kind error_body
  | Recovered request planned_kind error_body bool
  | Forgetting request error_body pc
  | Answered "error_body + lease_turn"
  | Ending string
  | Ended string pc
  | Sweeping
  | Swept "string list"
  | Closed "error_body + unit"

text \<open>The pool task a turn awaits, and the turn with the task's next state.\<close>

fun calls :: "turn \<Rightarrow> pc list" where
  "calls (Dropping rq k p) = [p]"
| "calls (Calling rq k sy p) = [p]"
| "calls (Forgetting rq e p) = [p]"
| "calls (Ended conv p) = [p]"
| "calls _ = []"

fun with_call :: "pc \<Rightarrow> turn \<Rightarrow> turn" where
  "with_call q (Dropping rq k p) = Dropping rq k q"
| "with_call q (Calling rq k sy p) = Calling rq k sy q"
| "with_call q (Forgetting rq e p) = Forgetting rq e q"
| "with_call q (Ended conv p) = Ended conv q"
| "with_call q t = t"

type_synonym utterance = "(request \<times> say) option"

fun utterance_of :: "turn \<Rightarrow> utterance" where
  "utterance_of (Calling rq k sy p) = Some (rq, sy)"
| "utterance_of _ = None"

section \<open>The handlers\<close>

text \<open>The text a call types: the primer, or the continuation of \<open>continuation_prompt\<close>.\<close>

fun text_of :: "libs \<Rightarrow> request \<Rightarrow> say \<Rightarrow> error_body + utext" where
  "text_of L rq Primer = Inr (rq_primer rq)"
| "text_of L rq (Suffix from) = map_err (error_new InvalidConfig) (continuation_prompt L (rq_body rq) from)"

definition call_for :: "request \<Rightarrow> utext \<Rightarrow> say \<Rightarrow> pc" where
  "call_for rq prompt sy = AtRunSticky (rq_conversation_id rq) (request_for rq prompt) (sy \<noteq> Primer)"

text \<open>Validate what is to be typed, then go on with it; a refusal ends \<open>execute\<close>.\<close>

definition validated ::
  "libs \<Rightarrow> (utext \<Rightarrow> utext) \<Rightarrow> request \<Rightarrow> planned_kind \<Rightarrow> say \<Rightarrow> (utext \<Rightarrow> turn) \<Rightarrow> turn" where
  "validated L nfc rq k sy go =
     (case bind_r (text_of L rq sy) (\<lambda>prompt. bind_r (validate_typed_prompt nfc prompt) (\<lambda>_. Inr prompt)) of
        Inl e \<Rightarrow> Unprotecting rq k (Inl e)
      | Inr prompt \<Rightarrow> go prompt)"

fun execute :: "libs \<Rightarrow> (utext \<Rightarrow> utext) \<Rightarrow> request \<Rightarrow> planned_kind \<Rightarrow> turn" where
  "execute L nfc rq PlanPrime =
     validated L nfc rq PlanPrime Primer (\<lambda>prompt. Calling rq PlanPrime Primer (call_for rq prompt Primer))"
| "execute L nfc rq (PlanContinue from) =
     validated L nfc rq (PlanContinue from) (Suffix from)
       (\<lambda>prompt. Calling rq (PlanContinue from) (Suffix from) (call_for rq prompt (Suffix from)))"
| "execute L nfc rq PlanReprime =
     validated L nfc rq PlanReprime Primer
       (\<lambda>_. Dropping rq PlanReprime (AtEndConversation (rq_conversation_id rq)))"

definition kind_of_turn :: "planned_kind \<Rightarrow> say \<Rightarrow> lease_kind" where
  "kind_of_turn k sy = (if k = PlanPrime then Primed else if sy = Primer then Reprimed else Continued)"

definition lease_turn_of ::
  "conversation_config \<Rightarrow> request \<Rightarrow> planned_kind \<Rightarrow> say \<Rightarrow> stateless_result \<Rightarrow> string \<Rightarrow> lease_turn" where
  "lease_turn_of cfg rq k sy result cell =
     \<lparr>lt_conversation_id = rq_conversation_id rq, lt_cell = cell, lt_kind = kind_of_turn k sy,
      lt_idle_ttl_ms = cc_idle_ttl_ms cfg, lt_requested_model = rq_requested_model rq, lt_result = result\<rparr>"

text \<open>
  The error of a sticky call: a resumed lease the pool no longer has is primed again, from the whole
  request.
\<close>

definition call_failed ::
  "libs \<Rightarrow> (utext \<Rightarrow> utext) \<Rightarrow> request \<Rightarrow> planned_kind \<Rightarrow> say \<Rightarrow> error_body \<Rightarrow> turn" where
  "call_failed L nfc rq k sy e =
     (if sy \<noteq> Primer \<and> code e = SessionNotFound
      then validated L nfc rq k Primer (\<lambda>prompt. Calling rq k Primer (call_for rq prompt Primer))
      else Unprotecting rq k (Inl e))"

definition keeps_lease :: "planned_kind \<Rightarrow> error_body \<Rightarrow> string \<Rightarrow> pool_state \<Rightarrow> bool" where
  "keeps_lease k e conv st \<longleftrightarrow>
     (case k of PlanContinue _ \<Rightarrow> True | _ \<Rightarrow> False) \<and> code e = InvalidConfig
     \<and> conv \<in> set (pool_conversation_ids st)"

text \<open>The reply of a pool task that has ended.\<close>

definition reply_of :: "pc \<Rightarrow> reply option" where
  "reply_of p = (case p of Done r \<Rightarrow> Some r | _ \<Rightarrow> None)"

text \<open>The end of \<open>execute\<close>: a committed turn becomes the conversation's lease.\<close>

fun called ::
  "libs \<Rightarrow> (utext \<Rightarrow> utext) \<Rightarrow> conversation_config \<Rightarrow> u64 \<Rightarrow> request \<Rightarrow> planned_kind \<Rightarrow> say \<Rightarrow> reply \<Rightarrow>
     book_state \<Rightarrow> turn \<times> book_state" where
  "called L nfc cfg now rq k sy (StickyReply (Inr (result, cell))) b =
     (Unprotecting rq k (Inr (lease_turn_of cfg rq k sy result cell)),
      commit_lease now (rq_conversation_id rq) (rq_next rq) result cell b)"
| "called L nfc cfg now rq k sy (StickyReply (Inl e)) b = (call_failed L nfc rq k sy e, b)"
| "called L nfc cfg now rq k sy r b = (Calling rq k sy (Done r), b)"

text \<open>
  One critical section of a turn, with what it does to the book and to the pool. A turn that awaits a
  pool task that has not ended does nothing.
\<close>

fun turn_step ::
  "libs \<Rightarrow> (utext \<Rightarrow> utext) \<Rightarrow> conversation_config \<Rightarrow> u64 \<Rightarrow> turn \<Rightarrow> book_state \<Rightarrow> pool_state \<Rightarrow>
     turn \<times> book_state \<times> pool_state" where
  "turn_step L nfc cfg now (Listing rq) b st = (Planning rq (pool_conversation_ids st), b, st)"
| "turn_step L nfc cfg now (Planning rq ids) b st =
     (case plan cfg now ids rq b st of
        (PlanRefused e, b', st') \<Rightarrow> (Answered (Inl e), b', st')
      | (PlanReplayed lt, b', st') \<Rightarrow> (Answered (Inr lt), b', st')
      | (PlanRun k, b', st') \<Rightarrow> (execute L nfc rq k, b', st'))"
| "turn_step L nfc cfg now (Dropping rq k p) b st =
     (if reply_of p = None then (Dropping rq k p, b, st)
      else (Calling rq k Primer (call_for rq (rq_primer rq) Primer), b, st))"
| "turn_step L nfc cfg now (Calling rq k sy p) b st =
     (case reply_of p of
        None \<Rightarrow> (Calling rq k sy p, b, st)
      | Some r \<Rightarrow> (case called L nfc cfg now rq k sy r b of (t', b') \<Rightarrow> (t', b', st)))"
| "turn_step L nfc cfg now (Unprotecting rq k out) b st =
     (case out of Inr lt \<Rightarrow> Answered (Inr lt) | Inl e \<Rightarrow> Recovering rq k e,
      b, unprotect_conversation (rq_conversation_id rq) st)"
| "turn_step L nfc cfg now (Recovering rq k e) b st =
     (Recovered rq k e (keeps_lease k e (rq_conversation_id rq) st), b, st)"
| "turn_step L nfc cfg now (Recovered rq k e keep) b st =
     (if keep then Answered (Inl e) else Forgetting rq e (AtEndConversation (rq_conversation_id rq)),
      recover_locked keep (rq_conversation_id rq) b, st)"
| "turn_step L nfc cfg now (Forgetting rq e p) b st =
     (if reply_of p = None then Forgetting rq e p else Answered (Inl e), b, st)"
| "turn_step L nfc cfg now (Answered r) b st = (Answered r, b, st)"
| "turn_step L nfc cfg now (Ending conv) b st =
     (case release_lease conv b of
        Inl e \<Rightarrow> (Closed (Inl e), b, st)
      | Inr b' \<Rightarrow> (Ended conv (AtEndConversation conv), b', st))"
| "turn_step L nfc cfg now (Ended conv p) b st =
     (case reply_of p of Some (UnitReply r) \<Rightarrow> Closed r | _ \<Rightarrow> Ended conv p, b, st)"
| "turn_step L nfc cfg now Sweeping b st = (Swept (pool_conversation_ids st), b, st)"
| "turn_step L nfc cfg now (Swept ids) b st = (Closed (Inr ()), drop_orphans ids b, st)"
| "turn_step L nfc cfg now (Closed r) b st = (Closed r, b, st)"

section \<open>The composed system\<close>

record desk =
  d_world :: world
  d_tasks :: "pc list"
  d_book :: book_state
  d_turns :: "turn list"
  d_typed :: "slot_id \<Rightarrow> utterance list"

definition hear ::
  "utterance \<Rightarrow> world \<Rightarrow> world \<Rightarrow> (slot_id \<Rightarrow> utterance list) \<Rightarrow> slot_id \<Rightarrow> utterance list" where
  "hear u w w' typed s =
     (if heard w' s = heard w s then typed s else if heard w' s = [] then [] else typed s @ [u])"

text \<open>The calls that reach the pool other than through the book: it is the only client of \<open>run_sticky\<close>.\<close>

fun other_entry :: "pc \<Rightarrow> bool" where
  "other_entry (AtRunSticky conv req resume) = False"
| "other_entry p = Serving.entry p"

text \<open>A turn as it arrives: a request that passed its checks, a release, or the periodic sweep.\<close>

definition arrival :: "libs \<Rightarrow> conversation_config \<Rightarrow> pool_config \<Rightarrow> turn \<Rightarrow> bool" where
  "arrival L cfg pcfg t \<longleftrightarrow>
     (\<exists>hs body rq. check_request L cfg pcfg hs body = Inr rq \<and> t = Listing rq)
     \<or> (\<exists>conv. t = Ending conv) \<or> t = Sweeping"

inductive desk_step ::
  "libs \<Rightarrow> (utext \<Rightarrow> utext) \<Rightarrow> conversation_config \<Rightarrow> pool_config \<Rightarrow> desk \<Rightarrow> desk \<Rightarrow> bool"
  for L :: libs and nfc :: "utext \<Rightarrow> utext" and cfg :: conversation_config and pcfg :: pool_config where
  background:
    "d_tasks D = us @ [p] @ vs \<Longrightarrow> task_step pcfg nfc inp p (d_world D) = (w', ps) \<Longrightarrow>
     desk_step L nfc cfg pcfg D
       (D\<lparr>d_world := w', d_tasks := us @ ps @ vs, d_typed := hear None (d_world D) w' (d_typed D)\<rparr>)"
| call:
    "d_turns D = ts @ [t] @ ts' \<Longrightarrow> calls t = [p] \<Longrightarrow>
     task_step pcfg nfc inp p (d_world D) = (w', q # spawned) \<Longrightarrow>
     desk_step L nfc cfg pcfg D
       (D\<lparr>d_world := w', d_tasks := d_tasks D @ spawned, d_turns := ts @ [with_call q t] @ ts',
          d_typed := hear (utterance_of t) (d_world D) w' (d_typed D)\<rparr>)"
| section_of:
    "d_turns D = ts @ [t] @ ts' \<Longrightarrow>
     turn_step L nfc cfg now t (d_book D) (pool (d_world D)) = (t', b', st') \<Longrightarrow>
     desk_step L nfc cfg pcfg D
       (D\<lparr>d_world := with_pool (d_world D) st', d_book := b', d_turns := ts @ [t'] @ ts'\<rparr>)"
| task_arrives:
    "other_entry p \<Longrightarrow> desk_step L nfc cfg pcfg D (D\<lparr>d_tasks := d_tasks D @ [p]\<rparr>)"
| turn_arrives:
    "arrival L cfg pcfg t \<Longrightarrow> desk_step L nfc cfg pcfg D (D\<lparr>d_turns := d_turns D @ [t]\<rparr>)"
| elsewhere:
    "desk_step L nfc cfg pcfg D (D\<lparr>d_world := (d_world D)\<lparr>disk := d\<rparr>\<rparr>)"

inductive_cases desk_stepE: "desk_step L nfc cfg pcfg D D'"

text \<open>A daemon that has just started: an empty pool and an empty book.\<close>

definition desk_start :: "desk \<Rightarrow> bool" where
  "desk_start D \<longleftrightarrow> pool_start (d_world D, []) \<and> d_tasks D = [] \<and> d_book D = book_new \<and> d_turns D = []
     \<and> (\<forall>s. length (d_typed D s) = length (heard (d_world D) s))"

end
