(* ===== verification/History.thy ===== *)
theory History
  imports Desk "HOL-Library.Multiset"
begin

text \<open>
  What a cell has been told. The invariant of the composed system of \<open>Desk\<close>: at most one turn of a
  conversation is between its planning section and its last one (the third interpretation of the
  ownership contract), every lease in the book that the pool still binds to a slot describes exactly
  what was typed into that slot's process, and every call in progress is at a point where it may go on.
\<close>

section \<open>On whose behalf a pool task runs\<close>

fun client_callers :: "client \<Rightarrow> caller list" where
  "client_callers (Caller cl) = [cl]"
| "client_callers (Keeper k) = []"

fun after_callers :: "after \<Rightarrow> caller list" where
  "after_callers (ThenFailed cl e) = client_callers cl"
| "after_callers (ThenReclaim cl s waited) = [cl]"
| "after_callers _ = []"

fun pc_callers :: "pc \<Rightarrow> caller list" where
  "pc_callers (AtClaim conv j) = [Sticky conv j]"
| "pc_callers (AtResume conv j) = [Sticky conv j]"
| "pc_callers (AtAdmit cl) = [cl]"
| "pc_callers (AtReclaim cl s waited) = [cl]"
| "pc_callers (AtMint cl s) = client_callers cl"
| "pc_callers (AtMintRoots cl s spec sp) = client_callers cl"
| "pc_callers (AtMintMark cl s spec) = client_callers cl"
| "pc_callers (AtLaunch cl s spec) = client_callers cl"
| "pc_callers (AtLanded cl s spec h) = client_callers cl"
| "pc_callers (AtOrphan cl) = client_callers cl"
| "pc_callers (AtAbandonMint cl s survives e) = client_callers cl"
| "pc_callers (AtPublish cl s) = client_callers cl"
| "pc_callers (AtUnpublish s ts k) = after_callers k"
| "pc_callers (AtBind conv j s) = [Sticky conv j]"
| "pc_callers (AtHandle cl s) = [cl]"
| "pc_callers (AtTurn cl s h) = [cl]"
| "pc_callers (AtCommitRead cl s turn) = [cl]"
| "pc_callers (AtCommit cl s result cell) = [cl]"
| "pc_callers (AtQuarantine s k) = after_callers k"
| "pc_callers (AtDestroy s k) = after_callers k"
| "pc_callers (AtClose s td k) = after_callers k"
| "pc_callers (AtErase s td k) = after_callers k"
| "pc_callers (AtRelease s k) = after_callers k"
| "pc_callers (AtLeak s k) = after_callers k"
| "pc_callers _ = []"

fun starts_call :: "pc \<Rightarrow> bool" where
  "starts_call (AtRun req) = True"
| "starts_call (AtRunSticky conv req resume) = True"
| "starts_call _ = False"

text \<open>A task that goes on for callers that satisfy \<open>P\<close>, and the tasks it spawned, for nobody.\<close>

definition works_for :: "(caller \<Rightarrow> bool) \<Rightarrow> pc \<Rightarrow> bool" where
  "works_for P p \<longleftrightarrow> list_all P (pc_callers p) \<and> \<not> starts_call p"

fun bred :: "(caller \<Rightarrow> bool) \<Rightarrow> pc list \<Rightarrow> bool" where
  "bred P [] = False"
| "bred P (q # qs) \<longleftrightarrow> works_for P q \<and> list_all (\<lambda>q. works_for (\<lambda>_. False) q \<and> pc_claims q = []) qs"

lemma callers_next [simp]:
  "pc_callers (admission_failed cl e) = []" "pc_callers (mint_failed cl' e) = []" "pc_callers (kept k) = []"
  "pc_callers (checked_out cl s) = [cl]"
  "pc_callers (go_on a) = (case a of ThenReclaim cl s waited \<Rightarrow> [cl] | _ \<Rightarrow> [])"
  "\<not> starts_call (admission_failed cl e)" "\<not> starts_call (mint_failed cl' e)" "\<not> starts_call (kept k)"
  "\<not> starts_call (checked_out cl s)" "\<not> starts_call (go_on a)"
proof -
  have adm: "pc_callers (admission_failed cl e) = [] \<and> \<not> starts_call (admission_failed cl e)" for cl e
    by (cases cl) simp_all
  have mint: "pc_callers (mint_failed cl' e) = [] \<and> \<not> starts_call (mint_failed cl' e)" for cl' e
    by (cases "(cl', e)" rule: mint_failed.cases) (simp_all add: adm)
  have kept: "pc_callers (kept k) = [] \<and> \<not> starts_call (kept k)" for k by (cases k) simp_all
  have out: "pc_callers (checked_out cl s) = [cl] \<and> \<not> starts_call (checked_out cl s)" by (cases cl) simp_all
  have go: "pc_callers (go_on a) = (case a of ThenReclaim cl s waited \<Rightarrow> [cl] | _ \<Rightarrow> []) \<and> \<not> starts_call (go_on a)"
    by (cases a rule: go_on.cases) (simp_all add: mint kept)
  show "pc_callers (admission_failed cl e) = []" "pc_callers (mint_failed cl' e) = []" "pc_callers (kept k) = []"
    "pc_callers (checked_out cl s) = [cl]"
    "pc_callers (go_on a) = (case a of ThenReclaim cl s waited \<Rightarrow> [cl] | _ \<Rightarrow> [])"
    "\<not> starts_call (admission_failed cl e)" "\<not> starts_call (mint_failed cl' e)" "\<not> starts_call (kept k)"
    "\<not> starts_call (checked_out cl s)" "\<not> starts_call (go_on a)"
    using adm mint kept out go by blast+
qed

lemma callers_step:
  assumes "works_for P p"
  shows "bred P (snd (task_step cfg nfc inp p w))"
proof (cases p)
  case (AtPublish cl s)
  with assms show ?thesis
    by (cases cl) (auto simp: works_for_def split: prod.split option.split sum.split bool.split)
next
  case (AtBootNext left)
  with assms show ?thesis
    by (cases "(cfg, left, w)" rule: step_boot_next.cases) (auto simp: works_for_def split: prod.split option.split)
next
  case (AtCommit cl s result cell)
  with assms show ?thesis by (cases cl) (auto simp: works_for_def split: prod.split sum.split bool.split)
next
  case (AtSweepLeases now)
  have "list_all (\<lambda>q. works_for (\<lambda>_. False) q \<and> pc_claims q = []) (map AtClear vs)" for vs
    by (induction vs) (simp_all add: works_for_def)
  with AtSweepLeases show ?thesis by (simp add: step_sweep_leases_def works_for_def split: prod.split)
next
  case (AtCommitRead cl s turn)
  with assms show ?thesis
    by (cases cl) (auto simp: step_commit_read_def works_for_def Let_def split: sum.split option.split prod.split)
qed (use assms in \<open>auto simp: works_for_def
    step_claim_def step_resume_def step_admit_def step_reclaim_def step_mint_def step_mint_roots_def
    step_mint_mark_def step_launch_def step_landed_def step_abandon_mint_def step_handle_def step_turn_def
    step_destroy_def step_close_def step_erase_def step_clear_def step_clear_wait_def step_clear_read_def
    step_clear_publish_def step_recycle_def step_remint_def step_rewarm_def step_boot_def step_sweep_idle_def
    step_shutdown_def step_end_conversation_def Let_def
    split: sum.split prod.split option.split bool.split caller.split after.split admit_outcome.split
      admission.split\<close>)


text \<open>What a step does to \<open>heard\<close> and to the bindings of a conversation.\<close>

lemma heard_step:
  assumes "task_step cfg nfc inp p w = (w', ps)"
  shows "heard w' s = heard w s
    \<or> (\<exists>cl. p = AtHandle cl s \<and> heard w' s = heard w s @ [caller_tag cl])
    \<or> (\<exists>cl spec. p = AtMintMark cl s spec \<and> heard w' s = [])
    \<or> (\<exists>h. p = AtClearWait s h \<and> heard w' s = [])"
proof (cases p)
  case (AtPublish cl s)
  with assms show ?thesis by (cases cl) (auto split: prod.splits option.splits sum.splits bool.splits)
next
  case (AtBootNext left)
  with assms show ?thesis
    by (cases "(cfg, left, w)" rule: step_boot_next.cases) (auto split: prod.splits option.splits)
next
  case (AtCommit cl s result cell)
  with assms show ?thesis by (cases cl) (auto split: prod.splits sum.splits bool.splits)
qed (use assms in \<open>auto simp:
    step_claim_def step_resume_def step_admit_def step_reclaim_def step_mint_def step_mint_roots_def
    step_mint_mark_def step_launch_def step_landed_def step_abandon_mint_def step_handle_def step_turn_def
    step_commit_read_def step_destroy_def step_close_def step_erase_def step_clear_def step_clear_wait_def
    step_clear_read_def step_clear_publish_def step_recycle_def step_remint_def step_rewarm_def step_boot_def
    step_sweep_idle_def step_sweep_leases_def step_shutdown_def step_end_conversation_def Let_def
    split: sum.splits prod.splits option.splits caller.splits admit_outcome.splits bool.splits if_splits\<close>)

lemma serving_act:
  assumes "serving cfg (w, us @ [p] @ vs)" "cfg_served cfg" "task_step cfg nfc inp p w = (w', ps)"
  shows "serving cfg (w', us @ ps @ vs)"
  using step_serves [OF assms(1) pool_step.act [OF assms(3)]] .

lemma servingD:
  assumes "serving cfg (w, ts)" "cfg_served cfg"
  shows "pool_inv cfg (pool w)" "\<not> shutting_down (pool w)" "slots.owned cfg w ts" "convs.owned w ts"
    "list_all (pc_ok cfg) ts"
  using assms by (simp_all add: serving_def)

lemma serving_split:
  assumes "serving cfg (w, ts)" "p \<in> set ts"
  obtains us vs where "serving cfg (w, us @ [p] @ vs)" "ts = us @ [p] @ vs"
  using assms by (auto simp: in_set_conv_decomp)

lemma bound_step:
  assumes sv: "serving cfg (w, ts)" "cfg_served cfg" "p \<in> set ts" and out: "task_step cfg nfc inp p w = (w', ps)"
    and s: "s \<in> bound_to w' conv"
  shows "s \<in> bound_to w conv \<or> (\<exists>j. p = AtBind conv j s)"
proof -
  obtain us vs where sv': "serving cfg (w, us @ [p] @ vs)" and ts: "ts = us @ [p] @ vs"
    by (rule serving_split [OF sv(1,3)])
  note g = servingD [OF sv' sv(2)]
  have ok: "pc_ok cfg p" using g(5) by simp
  show ?thesis
  proof (cases "bookkeeping p")
    case False
    have "quiet (pool w) (pool w')"
      using step_quiet [OF g(1) owned_unheld [OF g(3)] owned_met(1) [OF g(3)] g(2) _ False pc_ok_sane [OF ok] out] sv(2)
      by (simp add: cfg_served_def)
    with s show ?thesis by (fastforce simp: quiet_def bound_to_def)
  next
    case True
    then show ?thesis
      using out s ok by (cases p) (auto simp: step_claim_def claim_begin_def claim_cancel_def claim_bind_def bm_modify_def
          bound_to_def split: sum.splits if_splits option.splits)
  qed
qed

lemma bound_state:
  "pool_inv cfg (pool w) \<Longrightarrow> s \<in> bound_to w conv \<Longrightarrow>
   \<exists>i. bm_get (instances (pool w)) s = Some i \<and> conversation_id i = Some conv \<and> holds_turn_or_lease (state i)"
  using pool_invD(1) by (fastforce simp: bound_to_def slot_ok_def holds_turn_or_lease_def)

lemma owner_expects:
  assumes "serving cfg (w, ts)" "cfg_served cfg" "p \<in> set ts" "(s, Q) \<in> set (pc_want cfg p)"
  obtains i where "bm_get (instances (pool w)) s = Some i" "Q i (running w s) (heard w s)"
proof -
  have "(s, Q) \<in> set (pcs_want cfg ts)" using assms(3,4) by (auto simp: pcs_want_def)
  then have "on_slot Q (slot_cell_of w s)"
    using servingD(3) [OF assms(1,2)] by (fastforce simp: slots.owned_def slots_met)
  then show thesis using that by (auto simp: on_slot_def slot_cell_of_def split: option.splits)
qed

text \<open>A task that does not work for a conversation leaves its binding, and what was typed there, alone.\<close>

lemma bound_frame:
  assumes sv: "serving cfg (w, ts)" "cfg_served cfg" "p \<in> set ts" and out: "task_step cfg nfc inp p w = (w', ps)"
    and other: "list_all (\<lambda>cl. caller_tag cl \<noteq> Some conv) (pc_callers p)" and s: "s \<in> bound_to w' conv"
  shows "s \<in> bound_to w conv \<and> heard w' s = heard w s"
proof -
  have b: "s \<in> bound_to w conv" using bound_step [OF sv out s] other by auto
  then obtain i where i: "bm_get (instances (pool w)) s = Some i" "conversation_id i = Some conv"
      "holds_turn_or_lease (state i)"
    using bound_state [OF servingD(1) [OF sv(1,2)]] by blast
  from heard_step [OF out, of s] show ?thesis
  proof (elim disjE exE conjE)
    fix cl assume p: "p = AtHandle cl s"
    obtain i' where "bm_get (instances (pool w)) s = Some i'" "e_fresh (j_class (caller_job cl)) (caller_tag cl) i' (running w s) (heard w s)"
      by (rule owner_expects [OF sv, of s]) (simp add: p)
    with i p other show ?thesis by (auto simp: expectations)
  next
    fix cl spec assume p: "p = AtMintMark cl s spec"
    obtain i' where "bm_get (instances (pool w)) s = Some i'" "e_warming cl i' (running w s) (heard w s)"
      by (rule owner_expects [OF sv, of s]) (simp add: p)
    with i show ?thesis by (auto simp: expectations holds_turn_or_lease_def)
  next
    fix h assume p: "p = AtClearWait s h"
    obtain i' where "bm_get (instances (pool w)) s = Some i'" "e_clearing i' (running w s) (heard w s)"
      by (rule owner_expects [OF sv, of s]) (simp add: p)
    with i show ?thesis by (auto simp: expectations holds_turn_or_lease_def)
  qed (use b in simp)
qed

text \<open>Nor does it touch a slot another task holds.\<close>

lemma held_frame:
  assumes sv: "serving cfg (w, us @ [p] @ vs)" "cfg_served cfg" and out: "task_step cfg nfc inp p w = (w', ps)"
    and q: "q \<in> set (us @ vs)" and s: "s \<in> fst ` set (pc_want cfg q)"
  shows "heard w' s = heard w s"
proof -
  have "slots.met cfg w (us @ [p] @ vs)" using servingD(3) [OF sv] by (simp add: slots.owned_def)
  then have "slots.held cfg us \<inter> slots.held cfg [p] = {}" "slots.held cfg [p] \<inter> slots.held cfg vs = {}"
    unfolding slots.met_append slots.held_append by blast+
  moreover have "s \<in> slots.held cfg us \<union> slots.held cfg vs"
    using q s unfolding slots_held pcs_want_def by auto
  ultimately have "s \<notin> fst ` set (pc_want cfg p)"
    by (auto simp: slots_held [of cfg "[p]"])
  with heard_step [OF out, of s] show ?thesis by auto
qed

section \<open>Who holds a conversation of the book\<close>

definition book_cell :: "book_state \<Rightarrow> string \<Rightarrow> bool \<times> lease option" where
  "book_cell b conv = (bm_contains (b_reserved b) conv, bm_get (b_live b) conv)"

definition book_free :: "string \<Rightarrow> bool \<times> lease option \<Rightarrow> bool" where
  "book_free conv c \<longleftrightarrow> \<not> fst c \<and> (\<forall>l. snd c = Some l \<longrightarrow> \<not> l_in_flight l)"

fun holds_row :: "request \<Rightarrow> planned_kind \<Rightarrow> bool \<times> lease option \<Rightarrow> bool" where
  "holds_row rq PlanPrime c \<longleftrightarrow> fst c \<and> snd c = None"
| "holds_row rq (PlanContinue n) c \<longleftrightarrow> \<not> fst c \<and>
     (\<exists>l. snd c = Some l \<and> l_in_flight l \<and> classify_prefix (l_fingerprint l) (rq_next rq) = Continue n)"
| "holds_row rq PlanReprime c \<longleftrightarrow> \<not> fst c \<and> (\<exists>l. snd c = Some l \<and> l_in_flight l)"

fun turn_want :: "turn \<Rightarrow> (string \<times> (bool \<times> lease option \<Rightarrow> bool)) list" where
  "turn_want (Dropping rq k p) = [(rq_conversation_id rq, holds_row rq k)]"
| "turn_want (Calling rq k sy p) = [(rq_conversation_id rq, holds_row rq k)]"
| "turn_want (Unprotecting rq k (Inl e)) = [(rq_conversation_id rq, holds_row rq k)]"
| "turn_want (Recovering rq k e) = [(rq_conversation_id rq, holds_row rq k)]"
| "turn_want (Recovered rq k e keep) = [(rq_conversation_id rq, holds_row rq k)]"
| "turn_want _ = []"

lemma holds_row_not_free: "holds_row rq k c \<Longrightarrow> \<not> book_free conv c"
  by (cases k) (auto simp: book_free_def)

interpretation book: ownership turn_want book_cell book_free
proof unfold_locales
  fix r P t c assume "(r, P) \<in> set (turn_want t)" "P c"
  then show "\<not> book_free r c"
    by (cases t rule: turn_want.cases) (auto dest: holds_row_not_free)
qed


section \<open>What a cell has been told\<close>

text \<open>The digests of the messages an utterance types.\<close>

fun tells :: "utterance \<Rightarrow> string list" where
  "tells (Some (rq, Primer)) = fp_messages (rq_next rq)"
| "tells (Some (rq, Suffix n)) = drop n (fp_messages (rq_next rq))"
| "tells None = []"

text \<open>Same pool class, same system prompt and tools.\<close>

definition same_setup :: "conversation_fingerprint \<Rightarrow> conversation_fingerprint \<Rightarrow> bool" where
  "same_setup f g \<longleftrightarrow> \<not> pool_class_changed f g \<and> fp_system_tools f = fp_system_tools g"

text \<open>
  One primer, then only continuations, all of the conversation and of one setup, that together typed
  every message of \<open>f\<close> once and in order.
\<close>

definition agrees :: "string \<Rightarrow> conversation_fingerprint \<Rightarrow> utterance list \<Rightarrow> bool" where
  "agrees conv f us \<longleftrightarrow>
     (\<exists>rq rest. us = Some (rq, Primer) # rest \<and> list_all (\<lambda>u. \<exists>rq' n. u = Some (rq', Suffix n)) rest)
     \<and> concat (map tells us) = fp_messages f
     \<and> (\<forall>rq sy. Some (rq, sy) \<in> set us \<longrightarrow> rq_conversation_id rq = conv \<and> same_setup (rq_next rq) f)"

lemma same_setup_refl [simp]: "same_setup f f"
  by (simp add: same_setup_def pool_class_changed_def split: sum.split)

lemma fingerprint_class_cong:
  "fp_model f = fp_model g \<Longrightarrow> fp_effort f = fp_effort g \<Longrightarrow> fp_account f = fp_account g \<Longrightarrow>
   fingerprint_class f = fingerprint_class g"
  by (simp add: fingerprint_class_def)

lemma pool_class_kept:
  "\<not> pool_class_changed f g \<longleftrightarrow>
     (\<exists>c. fingerprint_class f = Inr c \<and> fingerprint_class g = Inr c)
     \<or> fp_model f = fp_model g \<and> fp_effort f = fp_effort g \<and> fp_account f = fp_account g"
  using fingerprint_class_cong [of f g]
  by (auto simp: pool_class_changed_def split: sum.splits)

lemma same_setup_trans: "same_setup f g \<Longrightarrow> same_setup g h \<Longrightarrow> same_setup f h"
  unfolding same_setup_def pool_class_kept using fingerprint_class_cong [of f g] fingerprint_class_cong [of g h]
  by auto

lemma starts_with_prefix: "starts_with xs ys \<longleftrightarrow> (\<exists>zs. xs = ys @ zs)"
  by (induction xs ys rule: starts_with.induct) auto

lemma classify_Continue:
  assumes "classify_prefix f g = Continue n"
  shows "same_setup f g \<and> n = length (fp_messages f) \<and> fp_messages f @ drop n (fp_messages g) = fp_messages g"
  using assms by (auto simp: classify_prefix_def same_setup_def starts_with_prefix split: if_splits)

lemma agrees_primer: "agrees (rq_conversation_id rq) (rq_next rq) [Some (rq, Primer)]"
  by (auto simp: agrees_def)

lemma agrees_suffix:
  assumes "agrees (rq_conversation_id rq) f us" "classify_prefix f (rq_next rq) = Continue n"
  shows "agrees (rq_conversation_id rq) (rq_next rq) (us @ [Some (rq, Suffix n)])"
  using assms classify_Continue [OF assms(2)] same_setup_trans by (auto simp: agrees_def)

section \<open>The invariant\<close>

type_synonym typed = "slot_id \<Rightarrow> utterance list"

text \<open>If the pool still binds the conversation to a slot, the lease describes what was typed there.\<close>

definition row_ok :: "book_state \<Rightarrow> world \<Rightarrow> typed \<Rightarrow> string \<Rightarrow> bool" where
  "row_ok b w ty conv \<longleftrightarrow> (\<forall>l. bm_get (b_live b) conv = Some l \<longrightarrow>
     (\<forall>s \<in> bound_to w conv. agrees conv (l_fingerprint l) (ty s)))"

text \<open>A turn that may still keep its lease has typed nothing into it.\<close>

definition calm :: "book_state \<Rightarrow> world \<Rightarrow> typed \<Rightarrow> request \<Rightarrow> planned_kind \<Rightarrow> bool" where
  "calm b w ty rq k \<longleftrightarrow> (\<forall>n. k = PlanContinue n \<longrightarrow> row_ok b w ty (rq_conversation_id rq))"

fun reply_ok :: "book_state \<Rightarrow> world \<Rightarrow> typed \<Rightarrow> request \<Rightarrow> planned_kind \<Rightarrow> reply \<Rightarrow> bool" where
  "reply_ok b w ty rq k (StickyReply (Inr x)) \<longleftrightarrow>
     (\<forall>s \<in> bound_to w (rq_conversation_id rq). agrees (rq_conversation_id rq) (rq_next rq) (ty s))"
| "reply_ok b w ty rq k (StickyReply (Inl e)) \<longleftrightarrow> calm b w ty rq k"
| "reply_ok b w ty rq k r \<longleftrightarrow> False"

text \<open>A teardown inside a sticky call: of a turn that failed, or of an instance its claim cannot use.\<close>

definition teardown_ok :: "world \<Rightarrow> request \<Rightarrow> say \<Rightarrow> after \<Rightarrow> bool" where
  "teardown_ok w rq sy a \<longleftrightarrow>
     (\<exists>e. a = ThenReply (StickyReply (Inl e))) \<and> bound_to w (rq_conversation_id rq) = {}
     \<or> after_claims a = [rq_conversation_id rq] \<and> sy = Primer"

fun call_ok ::
  "libs \<Rightarrow> book_state \<Rightarrow> world \<Rightarrow> typed \<Rightarrow> request \<Rightarrow> planned_kind \<Rightarrow> say \<Rightarrow> pc \<Rightarrow> bool" where
  "call_ok L b w ty rq k sy (AtRunSticky c req resume) \<longleftrightarrow>
     c = rq_conversation_id rq \<and> resume = (sy \<noteq> Primer)
     \<and> (\<exists>prompt. text_of L rq sy = Inr prompt \<and> req = request_for rq prompt) \<and> calm b w ty rq k"
| "call_ok L b w ty rq k sy (AtResume c j) \<longleftrightarrow> sy \<noteq> Primer \<and> calm b w ty rq k"
| "call_ok L b w ty rq k sy (AtClaim c j) \<longleftrightarrow> sy = Primer \<and> calm b w ty rq k"
| "call_ok L b w ty rq k sy (AtHandle cl s) \<longleftrightarrow>
     (if sy = Primer then ty s = []
      else \<exists>l. bm_get (b_live b) (rq_conversation_id rq) = Some l
             \<and> agrees (rq_conversation_id rq) (l_fingerprint l) (ty s))"
| "call_ok L b w ty rq k sy (AtTurn cl s h) \<longleftrightarrow> agrees (rq_conversation_id rq) (rq_next rq) (ty s)"
| "call_ok L b w ty rq k sy (AtCommitRead cl s x) \<longleftrightarrow> agrees (rq_conversation_id rq) (rq_next rq) (ty s)"
| "call_ok L b w ty rq k sy (AtCommit cl s x c) \<longleftrightarrow> agrees (rq_conversation_id rq) (rq_next rq) (ty s)"
| "call_ok L b w ty rq k sy (AtQuarantine s a) \<longleftrightarrow>
     bound_to w (rq_conversation_id rq) \<subseteq> {s} \<and> (\<exists>e. a = ThenReply (StickyReply (Inl e)))
     \<or> after_claims a = [rq_conversation_id rq] \<and> sy = Primer"
| "call_ok L b w ty rq k sy (AtDestroy s a) \<longleftrightarrow> teardown_ok w rq sy a"
| "call_ok L b w ty rq k sy (AtClose s td a) \<longleftrightarrow> teardown_ok w rq sy a"
| "call_ok L b w ty rq k sy (AtErase s td a) \<longleftrightarrow> teardown_ok w rq sy a"
| "call_ok L b w ty rq k sy (AtRelease s a) \<longleftrightarrow> teardown_ok w rq sy a"
| "call_ok L b w ty rq k sy (AtLeak s a) \<longleftrightarrow> teardown_ok w rq sy a"
| "call_ok L b w ty rq k sy (Done r) \<longleftrightarrow> reply_ok b w ty rq k r"
| "call_ok L b w ty rq k sy q \<longleftrightarrow> pc_claims q = [rq_conversation_id rq] \<and> sy = Primer"

text \<open>The caller a call of the book works for, with the text it will type.\<close>

definition speaks :: "libs \<Rightarrow> (utext \<Rightarrow> utext) \<Rightarrow> request \<Rightarrow> say \<Rightarrow> caller \<Rightarrow> bool" where
  "speaks L nfc rq sy cl \<longleftrightarrow> (\<exists>j prompt. cl = Sticky (rq_conversation_id rq) j
     \<and> text_of L rq sy = Inr prompt \<and> validate_prompt nfc prompt = Inr (j_prompt j))"

fun turn_ok :: "libs \<Rightarrow> (utext \<Rightarrow> utext) \<Rightarrow> book_state \<Rightarrow> world \<Rightarrow> typed \<Rightarrow> turn \<Rightarrow> bool" where
  "turn_ok L nfc b w ty (Calling rq k sy q) \<longleftrightarrow>
     list_all (speaks L nfc rq sy) (pc_callers q) \<and> (\<forall>n. sy = Suffix n \<longrightarrow> k = PlanContinue n)
     \<and> call_ok L b w ty rq k sy q"
| "turn_ok L nfc b w ty (Dropping rq k q) \<longleftrightarrow> works_for (\<lambda>_. False) q \<and> k = PlanReprime"
| "turn_ok L nfc b w ty (Forgetting rq e q) \<longleftrightarrow> works_for (\<lambda>_. False) q"
| "turn_ok L nfc b w ty (Ended conv q) \<longleftrightarrow> works_for (\<lambda>_. False) q"
| "turn_ok L nfc b w ty (Unprotecting rq k (Inl e)) \<longleftrightarrow> calm b w ty rq k"
| "turn_ok L nfc b w ty (Recovering rq k e) \<longleftrightarrow> calm b w ty rq k"
| "turn_ok L nfc b w ty (Recovered rq k e keep) \<longleftrightarrow> calm b w ty rq k \<and> (keep \<longrightarrow> (\<exists>n. k = PlanContinue n))"
| "turn_ok L nfc b w ty t \<longleftrightarrow> True"

text \<open>A task of the background works for stateless callers only.\<close>

definition outsider :: "pc \<Rightarrow> bool" where
  "outsider p \<longleftrightarrow> list_all (\<lambda>cl. caller_tag cl = None) (pc_callers p) \<and> (\<forall>c req r. p \<noteq> AtRunSticky c req r)"

definition desk_good ::
  "libs \<Rightarrow> (utext \<Rightarrow> utext) \<Rightarrow> pool_config \<Rightarrow> world \<Rightarrow> pc list \<Rightarrow> book_state \<Rightarrow> turn list \<Rightarrow> typed \<Rightarrow> bool" where
  "desk_good L nfc pcfg w ps b ts ty \<longleftrightarrow>
     serving pcfg (w, ps @ concat (map calls ts)) \<and> book.owned b ts \<and> list_all outsider ps
     \<and> (\<forall>s. length (ty s) = length (heard w s))
     \<and> (\<forall>conv. book_free conv (book_cell b conv) \<longrightarrow> row_ok b w ty conv)
     \<and> list_all (turn_ok L nfc b w ty) ts"

definition desk_inv :: "libs \<Rightarrow> (utext \<Rightarrow> utext) \<Rightarrow> pool_config \<Rightarrow> desk \<Rightarrow> bool" where
  "desk_inv L nfc pcfg D \<longleftrightarrow>
     (cfg_served pcfg \<longrightarrow> desk_good L nfc pcfg (d_world D) (d_tasks D) (d_book D) (d_turns D) (d_typed D))"

lemma desk_goodD:
  assumes "desk_good L nfc pcfg w ps b ts ty"
  shows "serving pcfg (w, ps @ concat (map calls ts))" "book.owned b ts" "list_all outsider ps"
    "length (ty s) = length (heard w s)" "book_free conv (book_cell b conv) \<Longrightarrow> row_ok b w ty conv"
    "t \<in> set ts \<Longrightarrow> turn_ok L nfc b w ty t"
  using assms by (simp_all add: desk_good_def list_all_iff)

section \<open>Steps that leave a conversation alone\<close>

definition undisturbed :: "world \<Rightarrow> typed \<Rightarrow> world \<Rightarrow> typed \<Rightarrow> string \<Rightarrow> bool" where
  "undisturbed w ty w' ty' conv \<longleftrightarrow> (\<forall>s \<in> bound_to w' conv. s \<in> bound_to w conv \<and> ty' s = ty s)"

lemma row_ok_frame:
  "row_ok b w ty conv \<Longrightarrow> undisturbed w ty w' ty' conv \<Longrightarrow> bm_get (b_live b') conv = bm_get (b_live b) conv \<Longrightarrow>
   row_ok b' w' ty' conv"
  by (simp add: row_ok_def undisturbed_def)

lemma calm_frame:
  "calm b w ty rq k \<Longrightarrow> undisturbed w ty w' ty' (rq_conversation_id rq) \<Longrightarrow>
   bm_get (b_live b') (rq_conversation_id rq) = bm_get (b_live b) (rq_conversation_id rq) \<Longrightarrow> calm b' w' ty' rq k"
  by (auto simp: calm_def intro: row_ok_frame)

lemma call_ok_frame:
  assumes "call_ok L b w ty rq k sy q" and u: "undisturbed w ty w' ty' (rq_conversation_id rq)"
    and r: "bm_get (b_live b') (rq_conversation_id rq) = bm_get (b_live b) (rq_conversation_id rq)"
    and s: "\<And>s. s \<in> fst ` set (pc_want cfg q) \<Longrightarrow> ty' s = ty s"
  shows "call_ok L b' w' ty' rq k sy q"
proof (cases q)
  case (Done x)
  with assms(1) u r show ?thesis
    by (cases "(b, w, ty, rq, k, x)" rule: reply_ok.cases) (auto simp: undisturbed_def intro: calm_frame [OF _ u r])
qed (use assms calm_frame [OF _ u r] in \<open>auto simp: teardown_ok_def undisturbed_def\<close>)

text \<open>The ghost moves with \<open>heard\<close>.\<close>

lemma hear_same: "heard w' s = heard w s \<Longrightarrow> hear u w w' ty s = ty s"
  by (simp add: hear_def)

lemma hear_length:
  assumes "task_step cfg nfc inp p w = (w', ps)" "\<And>s. length (ty s) = length (heard w s)"
  shows "length (hear u w w' ty s) = length (heard w' s)"
  using heard_step [OF assms(1), of s] assms(2) [of s] by (auto simp: hear_def)

lemma act_undisturbed:
  assumes "serving cfg (w, ts)" "cfg_served cfg" "p \<in> set ts" "task_step cfg nfc inp p w = (w', ps)"
    "list_all (\<lambda>cl. caller_tag cl \<noteq> Some conv) (pc_callers p)"
  shows "undisturbed w ty w' (hear u w w' ty) conv"
  using bound_frame [OF assms] by (auto simp: undisturbed_def hear_same)

section \<open>A step of a call\<close>

lemma claims_call_ok:
  "pc_claims q = [rq_conversation_id rq] \<Longrightarrow> sy = Primer \<Longrightarrow> call_ok L b w ty rq k sy q"
  by (cases q) (auto simp: teardown_ok_def)

lemma spawned_claims: "list_all (\<lambda>q. works_for (\<lambda>_. False) q \<and> pc_claims q = []) qs \<Longrightarrow> pcs_claims qs = []"
  by (induction qs) simp_all

lemma step_head:
  assumes sv: "serving cfg (w, us @ [p] @ vs)" "cfg_served cfg" and out: "task_step cfg nfc inp p w = (w', q # qs)"
    and c: "\<not> bookkeeping p" "\<not> starts_call p"
  shows "pc_claims q = pc_claims p"
proof -
  note g = servingD [OF sv]
  have ok: "pc_ok cfg p" using g(5) by simp
  have "list_all sane (q # qs)" using step_contract [OF g(1-4) refl ok sv(2) out] by simp
  then have "pcs_claims (q # qs) = pc_claims p"
    using step_claims [OF c(1) pc_ok_sane [OF ok], of cfg nfc inp w] out by simp
  moreover have "works_for (\<lambda>_. True) p" using c(2) by (simp add: works_for_def list_all_iff)
  from callers_step [OF this, of cfg nfc inp w] have "pcs_claims qs = []" using out by (simp add: spawned_claims)
  ultimately show ?thesis by simp
qed

lemma sole_binding:
  assumes "serving cfg (w, ts)" "cfg_served cfg" "s \<in> bound_to w conv"
  shows "bound_to w conv \<subseteq> {s}"
  using owned_bound [OF servingD(4) [OF assms(1,2)], of conv] assms(3)
  by (auto simp: conv_free_def conv_cell_def)


lemma hear_id: "heard w' = heard w \<Longrightarrow> hear u w w' ty = ty"
  by (rule ext) (simp add: hear_def)

lemma call_teardown:
  assumes sv: "serving cfg (w, us @ [p] @ vs)" "cfg_served cfg" and out: "task_step cfg nfc inp p w = (w', q # qs)"
    and p: "p = AtDestroy s a \<or> p = AtClose s td a \<or> p = AtErase s td a \<or> p = AtRelease s a \<or> p = AtLeak s a"
    and ok: "teardown_ok w rq sy a"
  shows "call_ok L b w' ty' rq k sy q"
  using ok unfolding teardown_ok_def
proof (elim disjE conjE exE)
  fix e assume a: "a = ThenReply (StickyReply (Inl e))" and none: "bound_to w (rq_conversation_id rq) = {}"
  have "list_all (\<lambda>cl. caller_tag cl \<noteq> Some (rq_conversation_id rq)) (pc_callers p)" using p a by auto
  from act_undisturbed [OF sv(1,2) _ out this] have "bound_to w' (rq_conversation_id rq) = {}"
    using none by (fastforce simp: undisturbed_def)
  then have t: "teardown_ok w' rq sy a" "reply_ok b w' ty' rq k (StickyReply (Inl e))"
    using a by (auto simp: teardown_ok_def calm_def row_ok_def)
  from p show ?thesis
    using out t a by (auto simp: step_destroy_def step_close_def step_erase_def
        split: option.splits prod.splits sum.splits if_splits)
next
  assume "after_claims a = [rq_conversation_id rq]" "sy = Primer"
  moreover have "\<not> bookkeeping p" "\<not> starts_call p" "pc_claims p = after_claims a" using p by auto
  ultimately show ?thesis using step_head [OF sv out] by (simp add: claims_call_ok)
qed

lemma call_quarantine:
  assumes sv: "serving cfg (w, us @ [AtQuarantine s a] @ vs)" "cfg_served cfg"
    and out: "task_step cfg nfc inp (AtQuarantine s a) w = (w', q # qs)"
    and ok: "call_ok L b w ty rq k sy (AtQuarantine s a)"
  shows "call_ok L b w' ty' rq k sy q"
proof -
  have q: "q = AtDestroy s a" "qs = []" using out by simp_all
  from ok consider (failed) e where "bound_to w (rq_conversation_id rq) \<subseteq> {s}" "a = ThenReply (StickyReply (Inl e))"
    | (claims) "after_claims a = [rq_conversation_id rq]" "sy = Primer" by auto
  then show ?thesis
  proof cases
    case failed
    have "bound_to w' (rq_conversation_id rq) = {}"
    proof (rule ccontr)
      assume "bound_to w' (rq_conversation_id rq) \<noteq> {}"
      then obtain s' where s': "s' \<in> bound_to w' (rq_conversation_id rq)" by blast
      with bound_step [OF sv(1,2) _ out s'] failed(1) have s: "s' = s" by auto
      have sv': "serving cfg (w', us @ [q] @ vs)" using serving_act [OF sv out] q by simp
      obtain i where "bm_get (instances (pool w')) s = Some i" "e_destroying i (running w' s) (heard w' s)"
        by (rule owner_expects [OF sv' sv(2), of q s e_destroying]) (simp_all add: q)
      with bound_state [OF servingD(1) [OF sv' sv(2)] s'] s show False
        by (auto simp: expectations holds_turn_or_lease_def)
    qed
    with failed show ?thesis by (simp add: q teardown_ok_def)
  next
    case claims
    then show ?thesis by (simp add: q teardown_ok_def)
  qed
qed

lemma call_begin:
  assumes "p = AtRunSticky c req r \<or> p = AtClaim c j \<or> p = AtResume c j"
    and sv: "serving cfg (w, us @ [p] @ vs)" "cfg_served cfg"
    and out: "task_step cfg nfc inp p w = (w', q # qs)" and ok: "call_ok L b w ty rq k sy p"
    and sp: "list_all (speaks L nfc rq sy) (pc_callers p)"
    and row: "holds_row rq k (book_cell b (rq_conversation_id rq))"
    and suf: "\<And>n. sy = Suffix n \<Longrightarrow> k = PlanContinue n"
  shows "call_ok L b w' (hear u w w' ty) rq k sy q"
  using assms(1)
proof (elim disjE)
  assume p: "p = AtRunSticky c req r"
  have w': "w' = w" using out p by simp
  show ?thesis
    using out ok p w' by (auto simp: step_run_sticky_def hear_id split: if_splits sum.splits)
next
  assume p: "p = AtClaim c j"
  have c: "c = rq_conversation_id rq" using sp p by (auto simp: speaks_def)
  show ?thesis
    using out ok p c by (auto simp: step_claim_def hear_id split: sum.splits)
next
  assume p: "p = AtResume c j"
  have c: "c = rq_conversation_id rq" using sp p by (auto simp: speaks_def)
  have h: "heard w' = heard w" using out p by (auto simp: step_resume_def split: sum.splits prod.splits)
  obtain n where n: "sy = Suffix n" "k = PlanContinue n" using ok p suf by (cases sy) auto
  obtain l where l: "bm_get (b_live b) c = Some l" using row n c by (auto simp: book_cell_def)
  have ro: "row_ok b w ty c" using ok p n c by (auto simp: calm_def)
  show ?thesis
  proof (cases "resume_lease cfg c (j_class j) (pool w)")
    case (Inl e)
    then show ?thesis using out ok p by (auto simp: step_resume_def hear_id)
  next
    case (Inr x)
    obtain s st where x: "x = (s, st)" by (cases x)
    have "s \<in> bound_to w c" using resume_lease_Inr [OF Inr [unfolded x]] by (auto simp: bound_to_def)
    then have "agrees c (l_fingerprint l) (ty s)" using ro l by (simp add: row_ok_def)
    then show ?thesis using out p Inr x n l c h by (auto simp: step_resume_def hear_id)
  qed
qed

lemma call_bind:
  assumes sv: "serving cfg (w, us @ [AtBind c j s] @ vs)" "cfg_served cfg"
    and out: "task_step cfg nfc inp (AtBind c j s) w = (w', q # qs)"
    and ok: "call_ok L b w ty rq k sy (AtBind c j s)"
    and len: "length (ty s) = length (heard w s)"
  shows "call_ok L b w' (hear u w w' ty) rq k sy q"
proof -
  obtain i where "e_fresh (j_class j) None i (running w s) (heard w s)"
    by (rule owner_expects [OF sv, of "AtBind c j s" s "e_fresh (j_class j) None"]) simp_all
  then have "ty s = []" using len by (simp add: expectations)
  then show ?thesis using out ok by (auto simp: hear_id)
qed

lemma call_handle:
  assumes sv: "serving cfg (w, us @ [AtHandle cl s] @ vs)" "cfg_served cfg"
    and out: "task_step cfg nfc inp (AtHandle cl s) w = (w', q # qs)"
    and ok: "call_ok L b w ty rq k sy (AtHandle cl s)" and sp: "speaks L nfc rq sy cl"
    and row: "holds_row rq k (book_cell b (rq_conversation_id rq))"
    and suf: "\<And>n. sy = Suffix n \<Longrightarrow> k = PlanContinue n"
  shows "call_ok L b w' (hear (Some (rq, sy)) w w' ty) rq k sy q"
proof -
  obtain j where cl: "cl = Sticky (rq_conversation_id rq) j" using sp by (auto simp: speaks_def)
  obtain i where i: "bm_get (instances (pool w)) s = Some i" "e_fresh (j_class (caller_job cl)) (caller_tag cl) i (running w s) (heard w s)"
    by (rule owner_expects [OF sv, of "AtHandle cl s" s "e_fresh (j_class (caller_job cl)) (caller_tag cl)"]) simp_all
  then have s: "s \<in> bound_to w (rq_conversation_id rq)" by (auto simp: bound_to_def expectations cl)
  show ?thesis
  proof (cases "handle_of s (pool w)")
    case None
    then show ?thesis using out cl sole_binding [OF sv s] by (auto simp: step_handle_def)
  next
    case (Some h)
    have "agrees (rq_conversation_id rq) (rq_next rq) (ty s @ [Some (rq, sy)])"
    proof (cases sy)
      case Primer
      then show ?thesis using ok agrees_primer by simp
    next
      case (Suffix n)
      obtain l where l: "bm_get (b_live b) (rq_conversation_id rq) = Some l"
        "agrees (rq_conversation_id rq) (l_fingerprint l) (ty s)"
        using ok Suffix by auto
      moreover have "classify_prefix (l_fingerprint l) (rq_next rq) = Continue n"
        using row suf [OF Suffix] l(1) by (auto simp: book_cell_def)
      ultimately show ?thesis using Suffix by (simp add: agrees_suffix)
    qed
    then show ?thesis using out Some cl by (auto simp: step_handle_def hear_def)
  qed
qed

lemma call_serve:
  assumes "p = AtTurn cl s h \<or> p = AtCommitRead cl s x \<or> p = AtCommit cl s y z"
    and sv: "serving cfg (w, us @ [p] @ vs)" "cfg_served cfg"
    and out: "task_step cfg nfc inp p w = (w', q # qs)" and ok: "call_ok L b w ty rq k sy p"
    and sp: "speaks L nfc rq sy cl"
  shows "call_ok L b w' (hear u w w' ty) rq k sy q"
proof -
  obtain j where cl: "cl = Sticky (rq_conversation_id rq) j" using sp by (auto simp: speaks_def)
  obtain i where i: "bm_get (instances (pool w)) s = Some i"
      "e_checked_out (j_class (caller_job cl)) (caller_tag cl) i (running w s) (heard w s)"
    by (rule owner_expects [OF sv, of p s "e_checked_out (j_class (caller_job cl)) (caller_tag cl)"]) (use assms(1) in auto)
  then have s: "s \<in> bound_to w (rq_conversation_id rq)" by (auto simp: bound_to_def expectations cl)
  have st: "state i = CheckedOut" "conversation_id i = Some (rq_conversation_id rq)"
    using i(2) by (simp_all add: expectations cl)
  have a: "agrees (rq_conversation_id rq) (rq_next rq) (ty s)" using assms(1) ok by auto
  note g = servingD [OF sv]
  from assms(1) show ?thesis
  proof (elim disjE)
    assume p: "p = AtTurn cl s h"
    have "w' = w" using out p by (auto simp: step_turn_def split: sum.splits)
    then show ?thesis
      using out p a cl sole_binding [OF sv s] by (auto simp: step_turn_def hear_id split: sum.splits)
  next
    assume p: "p = AtCommitRead cl s x"
    obtain h' where "handle i = Some h'"
      using pool_invD(1) [OF g(1) i(1)] st by (auto simp: slot_ok_def instance_ok_def)
    then show ?thesis
      using out p a cl i(1) by (auto simp: step_commit_read_def handle_of_def sticky_read_def hear_id Let_def)
  next
    assume p: "p = AtCommit cl s y z"
    obtain st' i' where c: "commit_sticky_locked cfg (in_now inp) s (rq_conversation_id rq) (pool w) = (Inr False, st')"
      "local_to s (pool w) st'" "bm_get (instances st') s = Some i'" "conversation_id i' = Some (rq_conversation_id rq)"
      by (rule commit_sticky_granted [OF g(1) i(1) st g(2)])
    then have w': "w' = with_pool w st'" and q: "q = Done (StickyReply (Inr (y, z)))"
      using out p cl by auto
    have s': "s \<in> bound_to w' (rq_conversation_id rq)" using c w' by (auto simp: bound_to_def)
    have "bound_to w' (rq_conversation_id rq) \<subseteq> {s}" using sole_binding [OF serving_act [OF sv out] sv(2) s'] .
    moreover have "hear u w w' ty = ty" using w' by (simp add: hear_id)
    ultimately show ?thesis using a q by auto
  qed
qed


lemma call_cancel:
  assumes sv: "serving cfg (w, us @ [AtCancelClaim c e] @ vs)" "cfg_served cfg"
    and out: "task_step cfg nfc inp (AtCancelClaim c e) w = (w', q # qs)"
    and ok: "call_ok L b w ty rq k sy (AtCancelClaim c e)"
  shows "call_ok L b w' ty' rq k sy q"
proof -
  have c: "c = rq_conversation_id rq" using ok by simp
  have "bound_to w c = {}"
    using owned_met(2) [OF servingD(4) [OF sv]] by (simp add: convs_met claimed_def conv_cell_def)
  then have "bound_to w' c = {}"
    using out by (auto simp: bound_to_def claim_cancel_def)
  then show ?thesis using out c by (auto simp: calm_def row_ok_def)
qed

lemma speaks_step:
  assumes out: "task_step cfg nfc inp p w = (w', q # qs)" and ok: "call_ok L b w ty rq k sy p"
    and sp: "list_all (speaks L nfc rq sy) (pc_callers p)"
  shows "list_all (speaks L nfc rq sy) (pc_callers q)"
proof (cases "starts_call p")
  case False
  then have "works_for (speaks L nfc rq sy) p" using sp by (simp add: works_for_def)
  from callers_step [OF this, of cfg nfc inp w] show ?thesis using out by (simp add: works_for_def)
next
  case True
  with ok obtain c req r where p: "p = AtRunSticky c req r" by (cases p) auto
  with ok out show ?thesis
    by (auto simp: step_run_sticky_def speaks_def request_for_def prepare_def bind_r_Inr
        split: if_splits sum.splits)
qed

lemma call_step:
  assumes sv: "serving cfg (w, us @ [p] @ vs)" "cfg_served cfg" and out: "task_step cfg nfc inp p w = (w', q # qs)"
    and ok: "turn_ok L nfc b w ty (Calling rq k sy p)"
    and row: "holds_row rq k (book_cell b (rq_conversation_id rq))"
    and len: "\<And>s. length (ty s) = length (heard w s)"
  shows "turn_ok L nfc b w' (hear (Some (rq, sy)) w w' ty) (Calling rq k sy q)"
proof -
  have c: "call_ok L b w ty rq k sy p" and sp: "list_all (speaks L nfc rq sy) (pc_callers p)"
    and suf: "\<And>n. sy = Suffix n \<Longrightarrow> k = PlanContinue n"
    using ok by simp_all
  have "call_ok L b w' (hear (Some (rq, sy)) w w' ty) rq k sy q"
  proof (cases "bookkeeping p \<or> starts_call p \<or> pc_claims p \<noteq> [rq_conversation_id rq]")
    case False
    then have "sy = Primer \<or> (\<exists>s a. p = AtQuarantine s a) \<or> (\<exists>s td a. p = AtDestroy s a \<or> p = AtClose s td a
        \<or> p = AtErase s td a \<or> p = AtRelease s a \<or> p = AtLeak s a)"
      using c by (cases p) auto
    then show ?thesis
    proof (elim disjE exE)
      assume "sy = Primer"
      then show ?thesis using step_head [OF sv out] False by (simp add: claims_call_ok)
    next
      fix s a assume "p = AtQuarantine s a"
      then show ?thesis using call_quarantine sv out c by blast
    qed (use call_teardown [OF sv out] c in auto)
  next
    case True
    show ?thesis
    proof (cases p)
      case (AtRunSticky x1 x2 x3)
      show ?thesis by (rule call_begin [OF _ sv out c sp row suf]) (simp add: AtRunSticky)
    next
      case (AtClaim x1 x2)
      show ?thesis by (rule call_begin [OF _ sv out c sp row suf]) (simp add: AtClaim)
    next
      case (AtResume x1 x2)
      show ?thesis by (rule call_begin [OF _ sv out c sp row suf]) (simp add: AtResume)
    next
      case (AtCancelClaim x1 x2)
      then show ?thesis using call_cancel sv out c by blast
    next
      case (AtBind x1 x2 x3)
      then show ?thesis using call_bind [of cfg w us x1 x2 x3 vs nfc inp w' q qs L b ty] sv out c len by simp
    next
      case (AtHandle x1 x2)
      then show ?thesis using call_handle [OF _ sv(2) _ _ _ row suf] sv out c sp by simp
    next
      case (AtTurn x1 x2 x3)
      then show ?thesis using call_serve [OF _ sv out c] sp by simp
    next
      case (AtCommitRead x1 x2 x3)
      then show ?thesis using call_serve [OF _ sv out c] sp by simp
    next
      case (AtCommit x1 x2 x3 x4)
      then show ?thesis using call_serve [OF _ sv out c] sp by simp
    next
      case (AtQuarantine s a)
      then show ?thesis using call_quarantine sv out c by blast
    next
      case (Done r)
      then show ?thesis using out c by (auto simp: hear_id)
    qed (use True c call_teardown [OF sv out] in auto)
  qed
  then show ?thesis using speaks_step [OF out c sp] suf by simp
qed


section \<open>The order of the tasks does not matter\<close>

context ownership
begin

lemma mset_wants: "mset ts = mset ts' \<Longrightarrow> mset (wants ts) = mset (wants ts')"
proof -
  have "mset (wants us) = sum_mset (image_mset (\<lambda>t. mset (want t)) (mset us))" for us
    by (induction us) (simp_all add: wants_def)
  then show "mset ts = mset ts' \<Longrightarrow> mset (wants ts) = mset (wants ts')" by simp
qed

lemma owned_mset:
  assumes "mset ts = mset ts'" "owned w ts"
  shows "owned w ts'"
proof -
  have m: "mset (map fst (wants ts)) = mset (map fst (wants ts'))" "set (wants ts) = set (wants ts')"
    using mset_wants [OF assms(1)] by (auto dest: mset_eq_setD)
  have "distinct (map fst (wants ts)) = distinct (map fst (wants ts'))"
    by (rule mset_eq_imp_distinct_iff [OF m(1)])
  then show ?thesis using assms(2) m(2) by (simp add: owned_def met_def held_def)
qed

lemma owned_same_want: "want t = want t' \<Longrightarrow> owned w (us @ [t] @ vs) = owned w (us @ [t'] @ vs)"
  by (simp add: owned_def met_def held_def wants_def)

lemma owned_idle: "want p = [] \<Longrightarrow> owned w (us @ [p] @ vs) = owned w (us @ vs)"
  by (simp add: owned_def met_def held_def wants_def)

end

lemma serving_mset:
  assumes "serving cfg (w, ts)" "mset ts = mset ts'"
  shows "serving cfg (w, ts')"
  using assms slots.owned_mset [OF assms(2)] convs.owned_mset [OF assms(2)] mset_eq_setD [OF assms(2)]
  by (auto simp: serving_def list_all_iff)

definition idle_task :: "pool_config \<Rightarrow> pc \<Rightarrow> bool" where
  "idle_task cfg p \<longleftrightarrow> pc_want cfg p = [] \<and> pc_claims p = [] \<and> pc_ok cfg p"

lemma serving_idle: "idle_task cfg p \<Longrightarrow> serving cfg (w, us @ [p] @ vs) = serving cfg (w, us @ vs)"
  using slots.owned_idle [of cfg p] convs.owned_idle [of p]
  by (simp add: serving_def idle_task_def slot_want_def conv_want_def)

lemma serving_idles: "list_all (idle_task cfg) ps \<Longrightarrow> serving cfg (w, us @ ps @ vs) = serving cfg (w, us @ vs)"
proof (induction ps)
  case (Cons p ps)
  then show ?case using serving_idle [of cfg p w us "ps @ vs"] by simp
qed simp

section \<open>A pool task acts\<close>

lemma turn_ok_frame:
  assumes "turn_ok L nfc b w ty t"
    and u: "\<And>conv P. (conv, P) \<in> set (turn_want t) \<Longrightarrow>
      undisturbed w ty w' ty' conv \<and> bm_get (b_live b') conv = bm_get (b_live b) conv"
    and s: "\<And>p s. p \<in> set (calls t) \<Longrightarrow> s \<in> fst ` set (pc_want cfg p) \<Longrightarrow> ty' s = ty s"
  shows "turn_ok L nfc b' w' ty' t"
proof (cases t rule: turn_want.cases)
  case (2 rq k sy q)
  have "call_ok L b' w' ty' rq k sy q"
    by (rule call_ok_frame [of L b w ty rq k sy q w' ty' b' cfg]) (use 2 assms in auto)
  then show ?thesis using 2 assms(1) by simp
qed (use assms in \<open>auto intro: calm_frame\<close>)

text \<open>The conversations a turn holds in the book.\<close>

definition turn_convs :: "turn \<Rightarrow> string set" where
  "turn_convs t = fst ` set (turn_want t)"

lemma act_turn_ok:
  assumes sv: "serving cfg (w, us @ [p] @ vs)" "cfg_served cfg" and out: "task_step cfg nfc' inp p w = (w', ps)"
    and ok: "turn_ok L nfc b w ty t" and cs: "set (calls t) \<subseteq> set (us @ vs)"
    and other: "\<And>conv. conv \<in> turn_convs t \<Longrightarrow> list_all (\<lambda>cl. caller_tag cl \<noteq> Some conv) (pc_callers p)"
  shows "turn_ok L nfc b w' (hear u w w' ty) t"
proof (rule turn_ok_frame [OF ok])
  fix conv P assume "(conv, P) \<in> set (turn_want t)"
  then have "list_all (\<lambda>cl. caller_tag cl \<noteq> Some conv) (pc_callers p)"
    using other by (force simp: turn_convs_def)
  then show "undisturbed w ty w' (hear u w w' ty) conv \<and> bm_get (b_live b) conv = bm_get (b_live b) conv"
    using act_undisturbed [OF sv(1,2) _ out] by simp
next
  fix q s assume "q \<in> set (calls t)" "s \<in> fst ` set (pc_want cfg q)"
  then show "hear u w w' ty s = ty s"
    using held_frame [OF sv out, of q s] cs by (auto intro: hear_same)
qed

lemma act_row_ok:
  assumes "serving cfg (w, us @ [p] @ vs)" "cfg_served cfg" "task_step cfg nfc' inp p w = (w', ps)"
    "row_ok b w ty conv" "list_all (\<lambda>cl. caller_tag cl \<noteq> Some conv) (pc_callers p)"
  shows "row_ok b w' (hear u w w' ty) conv"
  using row_ok_frame [OF assms(4) act_undisturbed [OF assms(1,2) _ assms(3,5)]] by simp

lemma outsider_step:
  assumes "task_step cfg nfc inp p w = (w', ps)" "outsider p"
  shows "list_all outsider ps"
proof (cases "starts_call p")
  case False
  then have "works_for (\<lambda>cl. caller_tag cl = None) p" using assms(2) by (simp add: works_for_def outsider_def)
  from callers_step [OF this, of cfg nfc inp w] obtain q qs where
    "ps = q # qs" "works_for (\<lambda>cl. caller_tag cl = None) q" "list_all (works_for (\<lambda>_. False)) qs"
    using assms(1) by (cases ps) (auto simp: list_all_iff)
  then show ?thesis by (auto simp: works_for_def outsider_def list_all_iff)
next
  case True
  with assms show ?thesis by (cases p) (auto simp: outsider_def step_run_def split: sum.splits)
qed

lemma spawned_outsider:
  "list_all (\<lambda>q. works_for (\<lambda>_. False) q \<and> pc_claims q = []) qs \<Longrightarrow> list_all outsider qs"
  by (auto simp: list_all_iff outsider_def works_for_def)


lemma outsider_tags: "outsider p \<Longrightarrow> list_all (\<lambda>cl. caller_tag cl \<noteq> Some conv) (pc_callers p)"
  by (auto simp: outsider_def list_all_iff)

lemma background_keeps:
  assumes g: "desk_good L nfc pcfg w (us @ [p] @ vs) b ts ty" and cfg: "cfg_served pcfg"
    and out: "task_step pcfg nfc inp p w = (w', ps)"
  shows "desk_good L nfc pcfg w' (us @ ps @ vs) b ts (hear None w w' ty)"
proof -
  note i = desk_goodD [OF g]
  have sv: "serving pcfg (w, us @ [p] @ (vs @ concat (map calls ts)))" using i(1) by simp
  have o: "outsider p" using i(3) by simp
  have "turn_ok L nfc b w' (hear None w w' ty) t" if t: "t \<in> set ts" for t
    by (rule act_turn_ok [OF sv cfg out i(6) [OF t]]) (use t outsider_tags [OF o] in auto)
  moreover have "row_ok b w' (hear None w w' ty) conv" if "book_free conv (book_cell b conv)" for conv
    using act_row_ok [OF sv cfg out i(5) [OF that] outsider_tags [OF o]] .
  moreover have "length (hear None w w' ty s) = length (heard w' s)" for s
    by (rule hear_length [OF out i(4)])
  ultimately show ?thesis
    using i(2,3) serving_act [OF sv cfg out] outsider_step [OF out o]
    by (auto simp: desk_good_def list_all_iff)
qed

lemma turn_convs_disjoint:
  assumes "book.owned b (us @ [t] @ vs)" "t' \<in> set (us @ vs)"
  shows "turn_convs t \<inter> turn_convs t' = {}"
proof -
  have "book.held us \<inter> book.held [t] = {}" "book.held [t] \<inter> book.held vs = {}"
    using assms(1) unfolding book.owned_def book.met_append book.held_append by blast+
  moreover have "turn_convs t = book.held [t]" "turn_convs t' \<subseteq> book.held us \<union> book.held vs"
    using assms(2) by (auto simp: turn_convs_def book.held_def book.wants_def)
  ultimately show ?thesis by blast
qed

lemma turn_convs_busy:
  assumes "book.owned b (us @ [t] @ vs)" "conv \<in> turn_convs t"
  shows "\<not> book_free conv (book_cell b conv)"
proof -
  have "conv \<in> book.held (us @ [t] @ vs)" using assms(2) by (auto simp: turn_convs_def book.held_def book.wants_def)
  then show ?thesis using assms(1) book.met_not_free unfolding book.owned_def by blast
qed

text \<open>On whose behalf a turn's call runs, and what becomes of it.\<close>

lemma call_tags:
  assumes "turn_ok L nfc b w ty t" "calls t = [p]" "conv \<notin> turn_convs t"
  shows "list_all (\<lambda>cl. caller_tag cl \<noteq> Some conv) (pc_callers p)"
  using assms by (cases t) (auto simp: list_all_iff speaks_def works_for_def turn_convs_def)

lemma call_keeps:
  assumes g: "desk_good L nfc pcfg w ps b (us @ [t] @ vs) ty" and cfg: "cfg_served pcfg" and p: "calls t = [p]"
    and out: "task_step pcfg nfc inp p w = (w', q # qs)"
  shows "desk_good L nfc pcfg w' (ps @ qs) b (us @ [with_call q t] @ vs) (hear (utterance_of t) w w' ty)"
proof -
  note i = desk_goodD [OF g]
  let ?ty = "hear (utterance_of t) w w' ty" and ?cu = "concat (map calls us)" and ?cv = "concat (map calls vs)"
  have sv: "serving pcfg (w, (ps @ ?cu) @ [p] @ ?cv)" using i(1) p by simp
  have t: "turn_ok L nfc b w ty t" using i(6) by simp
  have others: "turn_ok L nfc b w' ?ty t'" if t': "t' \<in> set (us @ vs)" for t'
  proof (rule act_turn_ok [OF sv cfg out])
    show "turn_ok L nfc b w ty t'" using i(6) t' by simp
    show "set (calls t') \<subseteq> set ((ps @ ?cu) @ ?cv)" using t' by auto
    show "list_all (\<lambda>cl. caller_tag cl \<noteq> Some conv) (pc_callers p)" if "conv \<in> turn_convs t'" for conv
      using call_tags [OF t p] turn_convs_disjoint [OF i(2) t'] that by blast
  qed
  have "turn_ok L nfc b w' ?ty (with_call q t) \<and> turn_want (with_call q t) = turn_want t \<and> calls (with_call q t) = [q]"
  proof (cases t)
    case (Calling rq k sy p')
    have "holds_row rq k (book_cell b (rq_conversation_id rq))"
      using i(2) Calling by (auto simp: book.owned_def book.met_def book.wants_def)
    then have "turn_ok L nfc b w' (hear (Some (rq, sy)) w w' ty) (Calling rq k sy q)"
      using call_step [OF sv cfg out, of L b ty rq k sy] i(4) t p Calling by simp
    with Calling show ?thesis by simp
  qed (use p t out callers_step [of "\<lambda>_. False" p pcfg nfc inp w] in auto)
  moreover have "row_ok b w' ?ty conv" if f: "book_free conv (book_cell b conv)" for conv
    by (rule act_row_ok [OF sv cfg out i(5) [OF f] call_tags [OF t p]]) (use turn_convs_busy [OF i(2)] f in blast)
  moreover have "length (?ty s) = length (heard w' s)" for s by (rule hear_length [OF out i(4)])
  moreover have "serving pcfg (w', (ps @ qs) @ ?cu @ [q] @ ?cv)"
    by (rule serving_mset [OF serving_act [OF sv cfg out]]) simp
  moreover have "list_all outsider qs"
  proof -
    have "bred (\<lambda>_. True) (q # qs)" if "\<not> starts_call p"
      using callers_step [of "\<lambda>_. True" p pcfg nfc inp w] that out by (simp add: works_for_def list_all_iff)
    moreover have "qs = []" if "starts_call p" using out that by (cases p) auto
    ultimately show ?thesis by (cases "starts_call p") (auto simp: spawned_outsider)
  qed
  moreover have "list_all (turn_ok L nfc b w' ?ty) (us @ vs)" using others by (simp add: list_all_iff)
  ultimately show ?thesis
    using i(2,3) book.owned_same_want [of "with_call q t" t b us vs] by (simp add: desk_good_def)
qed

end
