(* ===== verification/Leases.thy ===== *)
theory Leases
  imports History
begin

text \<open>
  The critical sections of the lease book keep the invariant of \<open>History\<close>, so it holds in every
  reachable state of the composed system: what the book promises its clients.
\<close>

section \<open>What a section does to the book\<close>

lemma fold_remove: "bm_get (fold bm_remove ks m) k = (if k \<in> set ks then None else bm_get m k)"
  by (induction ks arbitrary: m) auto

lemma drop_orphans_fields [simp]:
  "b_reserved (drop_orphans ids b) = b_reserved b"
  "bm_get (b_live (drop_orphans ids b)) conv =
     (case bm_get (b_live b) conv of
        None \<Rightarrow> None | Some l \<Rightarrow> if \<not> l_in_flight l \<and> conv \<notin> set ids then None else Some l)"
proof -
  show "b_reserved (drop_orphans ids b) = b_reserved b" by (simp add: drop_orphans_def)
  have "conv \<in> set (map fst (filter (\<lambda>(i, l). \<not> l_in_flight l \<and> i \<notin> set ids) (entries (b_live b))))
      \<longleftrightarrow> (\<exists>l. bm_get (b_live b) conv = Some l \<and> \<not> l_in_flight l \<and> conv \<notin> set ids)"
    by (force simp: set_entries [symmetric] image_iff)
  then show "bm_get (b_live (drop_orphans ids b)) conv =
     (case bm_get (b_live b) conv of
        None \<Rightarrow> None | Some l \<Rightarrow> if \<not> l_in_flight l \<and> conv \<notin> set ids then None else Some l)"
    by (auto simp: drop_orphans_def fold_remove split: option.split)
qed

text \<open>A cell after a section that touched only free conversations: at most its lease was dropped.\<close>

definition tidied :: "bool \<times> lease option \<Rightarrow> bool \<times> lease option \<Rightarrow> bool" where
  "tidied c c' \<longleftrightarrow> fst c' = fst c \<and>
     (case snd c of
        None \<Rightarrow> snd c' = None
      | Some l \<Rightarrow> snd c' = Some l
          \<or> \<not> l_in_flight l \<and> (case snd c' of None \<Rightarrow> True
              | Some l' \<Rightarrow> \<not> l_in_flight l' \<and> l_fingerprint l' = l_fingerprint l))"

lemma tidied_refl [simp]: "tidied c c"
  by (simp add: tidied_def split: option.split)

lemma tidied_orphans: "tidied (book_cell b conv) (book_cell (drop_orphans ids b) conv)"
  by (auto simp: tidied_def book_cell_def split: option.splits)

lemma tidied_free: "tidied c c' \<Longrightarrow> c' = c \<or> book_free conv c' = book_free conv c"
  by (cases c; cases c') (auto simp: tidied_def book_free_def split: option.splits)

definition planned_cell :: "request \<Rightarrow> planned_kind \<Rightarrow> bool \<times> lease option \<Rightarrow> bool \<times> lease option \<Rightarrow> bool" where
  "planned_cell rq k c c' \<longleftrightarrow>
     (case k of
        PlanPrime \<Rightarrow> book_free (rq_conversation_id rq) c \<and> c' = (True, None)
      | PlanContinue n \<Rightarrow> (\<exists>l. snd c = Some l \<and> \<not> l_in_flight l \<and> c' = (fst c, Some (l\<lparr>l_in_flight := True\<rparr>))
          \<and> classify_prefix (l_fingerprint l) (rq_next rq) = Continue n)
      | PlanReprime \<Rightarrow> (\<exists>l. snd c = Some l \<and> \<not> l_in_flight l \<and> c' = (fst c, Some (l\<lparr>l_in_flight := True\<rparr>))))"

lemma reserve_lease_cell:
  assumes "reserve_lease cfg conv b = (out, b')"
  shows "out = PlanRun PlanPrime \<and> \<not> bm_contains (b_reserved b) conv
      \<and> (\<forall>c. book_cell b' c = (c = conv \<or> bm_contains (b_reserved b) c, bm_get (b_live b) c))
    \<or> b' = b \<and> (\<exists>e. out = PlanRefused e)"
  using assms by (auto simp: reserve_lease_def book_cell_def split: if_splits)

text \<open>What planning a request does to the cell of its conversation, and to those of the others.\<close>

definition plan_effect :: "request \<Rightarrow> book_state \<Rightarrow> plan_outcome \<Rightarrow> book_state \<Rightarrow> bool" where
  "plan_effect rq b out b' \<longleftrightarrow>
     (\<forall>conv. conv \<noteq> rq_conversation_id rq \<longrightarrow> tidied (book_cell b conv) (book_cell b' conv))
     \<and> (case out of
          PlanRun k \<Rightarrow> planned_cell rq k (book_cell b (rq_conversation_id rq)) (book_cell b' (rq_conversation_id rq))
        | _ \<Rightarrow> tidied (book_cell b (rq_conversation_id rq)) (book_cell b' (rq_conversation_id rq)))"

lemma tidied_gone: "tidied c c' \<Longrightarrow> c' = (False, None) \<Longrightarrow> book_free conv c"
  by (auto simp: tidied_def book_free_def split: option.splits)

lemma plan_reserve:
  assumes r: "reserve_lease cfg (rq_conversation_id rq) B = (out, b')"
    and t: "\<And>c. tidied (book_cell b c) (book_cell B c)" and n: "bm_get (b_live B) (rq_conversation_id rq) = None"
  shows "plan_effect rq b out b'"
  using reserve_lease_cell [OF r]
proof (elim disjE conjE exE)
  assume out: "out = PlanRun PlanPrime" and fresh: "\<not> bm_contains (b_reserved B) (rq_conversation_id rq)"
    and c: "\<forall>c. book_cell b' c = (c = rq_conversation_id rq \<or> bm_contains (b_reserved B) c, bm_get (b_live B) c)"
  have "book_cell B (rq_conversation_id rq) = (False, None)" using fresh n by (simp add: book_cell_def)
  from tidied_gone [OF t this] have "planned_cell rq PlanPrime (book_cell b (rq_conversation_id rq)) (book_cell b' (rq_conversation_id rq))"
    using c n by (simp add: planned_cell_def)
  moreover have "book_cell b' conv = book_cell B conv" if "conv \<noteq> rq_conversation_id rq" for conv
    using c that by (simp add: book_cell_def)
  ultimately show ?thesis using out t by (simp add: plan_effect_def)
next
  fix e assume "b' = B" "out = PlanRefused e"
  then show ?thesis using t by (simp add: plan_effect_def)
qed

lemma plan_does:
  assumes out: "plan cfg now ids rq b st = (out, b', st')"
  shows "plan_effect rq b out b'"
proof -
  define B where "B = drop_orphans ids b"
  define X where "X = rq_conversation_id rq"
  have t: "tidied (book_cell b c) (book_cell B c)" for c by (simp add: B_def tidied_orphans)
  note p = out [unfolded plan_def Let_def, folded B_def X_def]
  show ?thesis
  proof (cases "bm_get (b_live B) X")
    case None
    then have "reserve_lease cfg X B = (out, b')" using p by (simp split: prod.splits)
    then show ?thesis using plan_reserve [OF _ t] None by (simp add: X_def)
  next
    case (Some l)
    then have l: "bm_get (b_live b) X = Some l" by (auto simp: B_def split: option.splits if_splits)
    show ?thesis
    proof (cases "l_in_flight l")
      case True
      then show ?thesis using p t Some by (auto simp: plan_effect_def)
    next
      case False
      have keep: "plan_effect rq b o' b''"
        if "\<And>c. c \<noteq> X \<Longrightarrow> book_cell b'' c = book_cell B c"
          "case o' of PlanRun k \<Rightarrow> planned_cell rq k (book_cell b X) (book_cell b'' X)
             | _ \<Rightarrow> tidied (book_cell b X) (book_cell b'' X)" for o' b''
        using that t unfolding plan_effect_def X_def by simp
      show ?thesis
      proof (cases "classify_prefix (l_fingerprint l) (rq_next rq)")
        case (Continue n)
        have "out = PlanRun (PlanContinue n)" "b' = set_in_flight True X B" using p Some False Continue by auto
        then show ?thesis
          using l Some False Continue
          by (intro keep) (auto simp: set_in_flight_def book_cell_def planned_cell_def bm_modify_def B_def)
      next
        case Reprime
        have "out = PlanRun PlanReprime" "b' = set_in_flight True X B" using p Some False Reprime by auto
        then show ?thesis
          using l Some False
          by (intro keep) (auto simp: set_in_flight_def book_cell_def planned_cell_def bm_modify_def B_def)
      next
        case Replay
        obtain hit st1 where tc: "touch_conversation now X st = (hit, st1)" by fastforce
        show ?thesis
        proof (cases hit)
          case True
          obtain lt where "out = PlanReplayed lt"
            "b' = B\<lparr>b_live := bm_modify X (\<lambda>l. l\<lparr>l_last_used := now\<rparr>) (b_live B)\<rparr>"
            using p Some False Replay tc True by auto
          then show ?thesis
            using l Some False
            by (intro keep) (auto simp: book_cell_def bm_modify_def tidied_def B_def)
        next
          case hit: False
          let ?B = "B\<lparr>b_live := bm_remove X (b_live B)\<rparr>"
          have "tidied (book_cell b c) (book_cell ?B c)" for c
          proof (cases "c = X")
            case True
            then show ?thesis using l False by (simp add: tidied_def book_cell_def B_def)
          next
            case False
            then show ?thesis using t [of c] by (simp add: book_cell_def)
          qed
          moreover have "reserve_lease cfg X ?B = (out, b')"
            using p Some False Replay tc hit by (simp split: prod.splits)
          ultimately show ?thesis using plan_reserve [of cfg rq ?B out b' b] by (simp add: X_def)
        qed
      qed
    qed
  qed
qed


section \<open>Every section keeps its side of the contract\<close>

context ownership
begin

lemma wants_one [simp]: "wants [t] = want t"
  by (simp add: wants_def)

lemma held_member: "t \<in> set ts \<Longrightarrow> (r, P) \<in> set (want t) \<Longrightarrow> r \<in> held ts"
proof -
  assume "t \<in> set ts" "(r, P) \<in> set (want t)"
  then have "(r, P) \<in> set (wants ts)" by (auto simp: wants_def)
  then show "r \<in> held ts" unfolding held_def by (rule rev_image_eqI) simp
qed

lemma hands_none:
  assumes "want t = []" "want t' = []" "\<And>r. cell w' r = cell w r \<or> free r (cell w r) \<and> free r (cell w' r)"
  shows "hands w t w' [t']"
  using assms by (simp add: hands_def met_def held_def)

lemma hands_begin:
  assumes "want t = []" "want t' = [(r, P)]" "P (cell w' r)" "free r (cell w r)"
    "\<And>r'. r' \<noteq> r \<Longrightarrow> cell w' r' = cell w r' \<or> free r' (cell w r') \<and> free r' (cell w' r')"
  shows "hands w t w' [t']"
  using assms by (auto simp: hands_def met_def held_def)

lemma hands_stay:
  assumes "want t' = want t" "met w [t]" "w' = w"
  shows "hands w t w' [t']"
  using assms by (simp add: hands_def met_def held_def)

lemma hands_end:
  assumes "want t = [(r, P)]" "want t' = []" "free r (cell w' r)" "\<And>r'. r' \<noteq> r \<Longrightarrow> cell w' r' = cell w r'"
  shows "hands w t w' [t']"
  using assms by (auto simp: hands_def met_def held_def)

end

lemma unreserved:
  assumes "book.owned b ts" "bm_get (b_live b) conv = Some l" "\<not> l_in_flight l"
  shows "book_free conv (book_cell b conv)"
proof (rule ccontr)
  assume "\<not> book_free conv (book_cell b conv)"
  then have "conv \<in> book.held ts" using assms(1) by (auto simp: book.owned_def)
  then obtain P where P: "(conv, P) \<in> set (book.wants ts)" by (auto simp: book.held_def)
  then have "P (book_cell b conv)" using assms(1) by (auto simp: book.owned_def book.met_def)
  moreover obtain t where "(conv, P) \<in> set (turn_want t)" using P by (auto simp: book.wants_def)
  ultimately obtain rq k where "holds_row rq k (book_cell b conv)" by (cases t rule: turn_want.cases) auto
  then show False using assms(2,3) by (cases k) (auto simp: book_cell_def)
qed

lemma tidied_same_or_free:
  "tidied c c' \<Longrightarrow> \<not> fst c \<or> snd c = None \<Longrightarrow> c' = c \<or> book_free conv c \<and> book_free conv c'"
  by (cases c; cases c') (auto simp: tidied_def book_free_def split: option.splits)

lemma owned_tidy:
  assumes own: "book.owned b ts" and t: "tidied (book_cell b conv) (book_cell b' conv)"
  shows "book_cell b' conv = book_cell b conv \<or> book_free conv (book_cell b conv) \<and> book_free conv (book_cell b' conv)"
proof (cases "\<exists>l. bm_get (b_live b) conv = Some l \<and> \<not> l_in_flight l")
  case True
  then have "\<not> fst (book_cell b conv)" using unreserved [OF own] by (auto simp: book_free_def)
  then show ?thesis using tidied_same_or_free [OF t] by blast
next
  case False
  then show ?thesis
    using t by (cases "book_cell b' conv") (auto simp: tidied_def book_cell_def split: option.splits)
qed

lemma plan_hands:
  assumes own: "book.owned b ts" and e: "plan_effect rq b out b'"
    and t': "turn_want t' = (case out of PlanRun k \<Rightarrow> [(rq_conversation_id rq, holds_row rq k)] | _ \<Rightarrow> [])"
  shows "book.hands b (Planning rq ids) b' [t']"
proof (cases "\<exists>k. out = PlanRun k")
  case True
  then obtain k where k: "out = PlanRun k" by blast
  let ?X = "rq_conversation_id rq"
  have p: "planned_cell rq k (book_cell b ?X) (book_cell b' ?X)" using e k by (simp add: plan_effect_def)
  have free: "book_free ?X (book_cell b ?X)"
  proof (cases k)
    case PlanPrime
    then show ?thesis using p by (simp add: planned_cell_def)
  qed (use p unreserved [OF own, of ?X] in \<open>auto simp: planned_cell_def book_cell_def [of b]\<close>)
  show ?thesis
  proof (rule book.hands_begin [of _ _ ?X "holds_row rq k"])
    show "holds_row rq k (book_cell b' ?X)"
      using p free by (cases k) (auto simp: planned_cell_def book_free_def)
    show "book_cell b' r = book_cell b r \<or> book_free r (book_cell b r) \<and> book_free r (book_cell b' r)" if "r \<noteq> ?X" for r
      using owned_tidy [OF own, of r] e that by (simp add: plan_effect_def)
  qed (use t' k free in simp_all)
next
  case False
  show ?thesis
  proof (rule book.hands_none)
    show "book_cell b' r = book_cell b r \<or> book_free r (book_cell b r) \<and> book_free r (book_cell b' r)" for r
      using owned_tidy [OF own, of r b'] e False by (cases "r = rq_conversation_id rq"; cases out) (auto simp: plan_effect_def)
  qed (use t' False in \<open>auto split: plan_outcome.split\<close>)
qed


lemma tidied_row:
  assumes t: "tidied (book_cell b conv) (book_cell b' conv)" and f: "book_free conv (book_cell b' conv)"
    and r: "book_free conv (book_cell b conv) \<Longrightarrow> row_ok b w ty conv"
  shows "row_ok b' w ty conv"
proof (cases "bm_get (b_live b') conv")
  case (Some l')
  then obtain l where l: "bm_get (b_live b) conv = Some l" "l_fingerprint l' = l_fingerprint l"
    using t by (auto simp: tidied_def book_cell_def split: option.splits)
  have "book_free conv (book_cell b conv)"
    using t f Some l(1) by (auto simp: tidied_def book_cell_def book_free_def)
  from r [OF this] show ?thesis using Some l by (simp add: row_ok_def)
qed (simp add: row_ok_def)

text \<open>A validated turn, and what \<open>execute\<close> and a failed call become.\<close>

definition rests :: "libs \<Rightarrow> (utext \<Rightarrow> utext) \<Rightarrow> book_state \<Rightarrow> world \<Rightarrow> typed \<Rightarrow> request \<Rightarrow> planned_kind \<Rightarrow> turn \<Rightarrow> bool" where
  "rests L nfc b w ty rq k t \<longleftrightarrow> turn_ok L nfc b w ty t \<and> turn_want t = [(rq_conversation_id rq, holds_row rq k)]"

lemma validated_rests:
  assumes "calm b w ty rq k" "\<And>prompt. text_of L rq sy = Inr prompt \<Longrightarrow> rests L nfc b w ty rq k (go prompt)"
  shows "rests L nfc b w ty rq k (validated L nfc rq k sy go)"
  using assms by (auto simp: validated_def rests_def bind_r_def split: sum.splits)

lemma calling_rests:
  assumes "calm b w ty rq k" "text_of L rq sy = Inr prompt" "\<And>n. sy = Suffix n \<Longrightarrow> k = PlanContinue n"
  shows "rests L nfc b w ty rq k (Calling rq k sy (call_for rq prompt sy))"
  using assms by (simp add: rests_def call_for_def)

lemma execute_rests: "calm b w ty rq k \<Longrightarrow> rests L nfc b w ty rq k (execute L nfc rq k)"
  by (cases k) (auto intro!: validated_rests calling_rests simp: rests_def [of _ _ _ _ _ _ _ "Dropping _ _ _"] works_for_def)

lemma call_failed_rests:
  "calm b w ty rq k \<Longrightarrow> rests L nfc b w ty rq k (call_failed L nfc rq k sy e)"
  using validated_rests [of b w ty rq k L Primer nfc] calling_rests [of b w ty rq k L Primer]
  by (simp add: call_failed_def rests_def [of _ _ _ _ _ _ _ "Unprotecting _ _ _"])

lemma plan_calm:
  assumes e: "plan_effect rq b (PlanRun k) b'" and own: "book.owned b ts"
    and r: "\<And>conv. book_free conv (book_cell b conv) \<Longrightarrow> row_ok b w ty conv"
  shows "calm b' w ty rq k"
proof -
  have p: "planned_cell rq k (book_cell b (rq_conversation_id rq)) (book_cell b' (rq_conversation_id rq))"
    using e by (simp add: plan_effect_def)
  have "row_ok b' w ty (rq_conversation_id rq)" if k: "k = PlanContinue n" for n
  proof -
    from p k obtain l where l: "bm_get (b_live b) (rq_conversation_id rq) = Some l" "\<not> l_in_flight l"
      "bm_get (b_live b') (rq_conversation_id rq) = Some (l\<lparr>l_in_flight := True\<rparr>)"
      by (auto simp: planned_cell_def book_cell_def)
    from r [OF unreserved [OF own l(1,2)]] show ?thesis using l by (simp add: row_ok_def)
  qed
  then show ?thesis by (simp add: calm_def)
qed

text \<open>The contract of a section: its side of the ownership, its own next state, and the free leases.\<close>

definition section_ok :: "libs \<Rightarrow> (utext \<Rightarrow> utext) \<Rightarrow> world \<Rightarrow> typed \<Rightarrow> turn \<Rightarrow> book_state \<Rightarrow> turn \<Rightarrow> book_state \<Rightarrow> bool" where
  "section_ok L nfc w ty t b t' b' \<longleftrightarrow> book.hands b t b' [t'] \<and> turn_ok L nfc b' w ty t'
     \<and> (\<forall>conv. book_free conv (book_cell b' conv) \<longrightarrow> row_ok b' w ty conv)"

lemma section_stay:
  assumes g: "desk_good L nfc pcfg w ps b (us @ [t] @ vs) ty" and t': "turn_want t' = turn_want t" "turn_ok L nfc b w ty t'"
  shows "section_ok L nfc w ty t b t' b"
proof -
  have "book.met b [t]" using desk_goodD(2) [OF g] unfolding book.owned_def book.met_append by blast
  then show ?thesis using book.hands_stay [OF t'(1)] t'(2) desk_goodD(5) [OF g] by (simp add: section_ok_def)
qed

lemma section_end:
  assumes g: "desk_good L nfc pcfg w ps b (us @ [t] @ vs) ty"
    and "turn_want t = [(conv, P)]" "turn_want t' = []" "turn_ok L nfc b' w ty t'"
    "book_free conv (book_cell b' conv)" and c: "\<And>c. c \<noteq> conv \<Longrightarrow> book_cell b' c = book_cell b c"
    and r: "row_ok b' w ty conv"
  shows "section_ok L nfc w ty t b t' b'"
proof -
  have "row_ok b' w ty c" if "book_free c (book_cell b' c)" for c
  proof (cases "c = conv")
    case False
    then show ?thesis
      using that desk_goodD(5) [OF g, of c] c [OF False] by (simp add: row_ok_def book_cell_def)
  qed (use r in simp)
  then show ?thesis using assms book.hands_end [of t conv P t' b' b] by (simp add: section_ok_def)
qed

lemma section_tidy:
  assumes g: "desk_good L nfc pcfg w ps b (us @ [t] @ vs) ty"
    and t: "turn_want t = []" "turn_want t' = []" "turn_ok L nfc b' w ty t'"
    and c: "\<And>c. tidied (book_cell b c) (book_cell b' c)"
  shows "section_ok L nfc w ty t b t' b'"
proof -
  have "row_ok b' w ty c" if "book_free c (book_cell b' c)" for c
    by (rule tidied_row [OF c that]) (rule desk_goodD(5) [OF g])
  then show ?thesis
    using t book.hands_none [OF t(1,2)] owned_tidy [OF desk_goodD(2) [OF g] c] by (simp add: section_ok_def)
qed

lemma section_plan:
  assumes g: "desk_good L nfc pcfg w ps b (us @ [Planning rq ids] @ vs) ty"
    and out: "plan cfg now ids rq b (pool w) = (o', b', st')"
    and t': "t' = (case o' of PlanRefused e \<Rightarrow> Answered (Inl e) | PlanReplayed lt \<Rightarrow> Answered (Inr lt)
      | PlanRun k \<Rightarrow> execute L nfc rq k)"
  shows "section_ok L nfc w ty (Planning rq ids) b t' b'"
proof -
  note i = desk_goodD [OF g] and e = plan_does [OF out]
  have run: "rests L nfc b' w ty rq k (execute L nfc rq k)" if "o' = PlanRun k" for k
    using execute_rests [OF plan_calm [OF e [unfolded that] i(2,5)]] .
  have want: "turn_want t' = (case o' of PlanRun k \<Rightarrow> [(rq_conversation_id rq, holds_row rq k)] | _ \<Rightarrow> [])"
    and ok: "turn_ok L nfc b' w ty t'"
    using run t' by (auto simp: rests_def split: plan_outcome.split)
  have "row_ok b' w ty c" if f: "book_free c (book_cell b' c)" for c
  proof (rule tidied_row [OF _ f])
    show "tidied (book_cell b c) (book_cell b' c)"
    proof (cases "c = rq_conversation_id rq \<and> (\<exists>k. o' = PlanRun k)")
      case True
      then obtain k where "planned_cell rq k (book_cell b c) (book_cell b' c)"
        using e by (auto simp: plan_effect_def)
      then show ?thesis using f by (cases k) (auto simp: planned_cell_def book_free_def)
    next
      case False
      then show ?thesis using e by (cases "c = rq_conversation_id rq"; cases o') (auto simp: plan_effect_def)
    qed
  qed (rule i(5))
  then show ?thesis using plan_hands [OF i(2) e want] ok by (simp add: section_ok_def)
qed

lemma section_called:
  assumes g: "desk_good L nfc pcfg w ps b (us @ [Calling rq k sy (Done r)] @ vs) ty"
    and out: "called L nfc cfg now rq k sy r b = (t', b')"
  shows "section_ok L nfc w ty (Calling rq k sy (Done r)) b t' b'"
proof -
  have ok: "turn_ok L nfc b w ty (Calling rq k sy (Done r))" by (rule desk_goodD(6) [OF g]) simp
  then consider (sent) result cell where "r = StickyReply (Inr (result, cell))" | (failed) e where "r = StickyReply (Inl e)"
    by (cases "(b, w, ty, rq, k, r)" rule: reply_ok.cases) auto
  then show ?thesis
  proof cases
    case sent
    then show ?thesis
      using out ok by (intro section_end [OF g]) (auto simp: commit_lease_def book_cell_def book_free_def row_ok_def)
  next
    case failed
    have "rests L nfc b w ty rq k (call_failed L nfc rq k sy e)" using ok failed by (intro call_failed_rests) simp
    then show ?thesis using out failed section_stay [OF g, of t'] by (simp add: rests_def)
  qed
qed

text \<open>Every section keeps its contract.\<close>

lemma reply_of_Some: "reply_of p = Some r \<longleftrightarrow> p = Done r"
  by (cases p) (simp_all add: reply_of_def)

lemma section_step:
  assumes g: "desk_good L nfc pcfg w ps b (us @ [t] @ vs) ty"
    and out: "turn_step L nfc cfg now t b (pool w) = (t', b', st')"
  shows "section_ok L nfc w ty t b t' b'"
proof -
  have ok: "turn_ok L nfc b w ty t" by (rule desk_goodD(6) [OF g]) simp
  note stay = section_stay [OF g] and fin = section_end [OF g] and tidy = section_tidy [OF g]
  show ?thesis
  proof (cases t)
    case (Listing rq)
    then show ?thesis using out stay [of t'] by auto
  next
    case (Planning rq ids)
    obtain o' b1 st1 where pl: "plan cfg now ids rq b (pool w) = (o', b1, st1)" by (metis prod_cases3)
    have "b1 = b' \<and> t' = (case o' of PlanRefused e \<Rightarrow> Answered (Inl e) | PlanReplayed lt \<Rightarrow> Answered (Inr lt)
        | PlanRun k \<Rightarrow> execute L nfc rq k)"
      using out Planning pl by (cases o') simp_all
    then show ?thesis using section_plan [OF g [unfolded Planning] pl] Planning by simp
  next
    case (Dropping rq k p)
    have k: "k = PlanReprime" using ok Dropping by simp
    have c: "rests L nfc b w ty rq k (Calling rq k Primer (call_for rq (rq_primer rq) Primer))"
      using k by (intro calling_rests) (simp_all add: calm_def)
    show ?thesis
      using out Dropping c ok stay [of t'] by (auto simp: rests_def split: if_splits)
  next
    case (Calling rq k sy p)
    show ?thesis
    proof (cases "reply_of p")
      case None
      then show ?thesis using out Calling ok stay [of t'] by auto
    next
      case (Some r)
      then have p: "p = Done r" by (simp add: reply_of_Some)
      have "called L nfc cfg now rq k sy r b = (t', b')"
        using out Calling Some by (auto split: prod.splits)
      then show ?thesis using section_called g Calling p by blast
    qed
  next
    case (Unprotecting rq k x)
    then show ?thesis using out ok stay [of t'] by (cases x) auto
  next
    case (Recovering rq k e)
    then show ?thesis using out ok stay [of t'] by (auto simp: keeps_lease_def split: planned_kind.splits)
  next
    case (Recovered rq k e keep)
    have want: "turn_want t = [(rq_conversation_id rq, holds_row rq k)]" using Recovered by simp
    have row: "holds_row rq k (book_cell b (rq_conversation_id rq))"
      using desk_goodD(2) [OF g] Recovered by (auto simp: book.owned_def book.met_def book.wants_def)
    show ?thesis
    proof (cases keep)
      case True
      then obtain n where k: "k = PlanContinue n" using ok Recovered by auto
      then obtain l where l: "bm_get (b_live b) (rq_conversation_id rq) = Some l"
          "\<not> bm_contains (b_reserved b) (rq_conversation_id rq)"
        using row by (auto simp: book_cell_def)
      have "row_ok b w ty (rq_conversation_id rq)" using ok Recovered k by (simp add: calm_def)
      then show ?thesis
        using out Recovered True l
        by (intro fin [OF want]) (auto simp: recover_locked_def set_in_flight_def bm_modify_def book_cell_def book_free_def row_ok_def)
    next
      case False
      then show ?thesis
        using out Recovered
        by (intro fin [OF want]) (auto simp: recover_locked_def book_cell_def book_free_def row_ok_def works_for_def)
    qed
  next
    case (Forgetting rq e p)
    then show ?thesis using out ok stay [of t'] by (auto split: if_splits)
  next
    case (Ending conv)
    then show ?thesis
      using out by (intro tidy) (auto simp: release_lease_def tidied_def book_cell_def works_for_def
          split: if_splits sum.splits option.splits)
  next
    case (Ended conv p)
    then show ?thesis using out ok stay [of t'] by (auto split: option.splits reply.splits)
  next
    case Sweeping
    then show ?thesis using out stay [of t'] by auto
  next
    case (Swept ids)
    then show ?thesis using out by (intro tidy) (auto simp: tidied_orphans)
  qed (use out ok stay [of t'] in auto)
qed


section \<open>The composed system keeps its invariant\<close>

lemma plan_pool:
  "plan cfg now ids rq b st = (o', b', st') \<Longrightarrow>
   st' = st \<or> st' = snd (touch_conversation now (rq_conversation_id rq) st) \<or> st' = protect_conversation (rq_conversation_id rq) st"
  by (auto simp: plan_def Let_def split: option.splits prod.splits prefix_decision.splits bool.splits if_splits)

lemma section_pool:
  assumes "turn_step L nfc cfg now t b st = (t', b', st')"
  obtains "st' = st" | now' conv where "st' = snd (touch_conversation now' conv st)"
    | conv where "st' = protect_conversation conv st" | conv where "st' = unprotect_conversation conv st"
proof (cases t)
  case (Planning rq ids)
  then show thesis
    using assms that plan_pool [of cfg now ids rq b st] by (auto split: prod.splits plan_outcome.splits)
next
  case (Calling rq k sy p)
  then show thesis using assms that(1) by (auto split: option.splits prod.splits)
next
  case (Ended conv p)
  then show thesis using assms that(1) by simp
qed (use assms that in \<open>auto split: if_splits sum.splits\<close>)

lemma touch_bound: "bound_to (with_pool w (snd (touch_conversation now c (pool w)))) conv = bound_to w conv"
proof -
  have "find (\<lambda>(s, i). conversation_id i = Some c \<and> state i = Leased) (entries (instances (pool w))) = Some (s, i) \<Longrightarrow>
      bm_get (instances (pool w)) s = Some i" for s i
    by (auto dest!: find_entries_Some)
  then show ?thesis
    by (auto simp: touch_conversation_def bound_to_def split: option.splits prod.splits if_splits)
qed

lemma section_world:
  assumes "turn_step L nfc cfg now t b (pool w) = (t', b', st')"
  shows "bound_to (with_pool w st') conv = bound_to w conv" "serving pcfg (w, ts) \<Longrightarrow> serving pcfg (with_pool w st', ts)"
proof -
  have "bound_to (with_pool w st') conv = bound_to w conv \<and> (serving pcfg (w, ts) \<longrightarrow> serving pcfg (with_pool w st', ts))"
    using assms
  proof (rule section_pool)
    assume "st' = pool w"
    then show ?thesis by (simp add: with_pool_def)
  next
    fix now' c assume st: "st' = snd (touch_conversation now' c (pool w))"
    then show ?thesis using touch_bound step_serves [OF _ pool_step.touch] by blast
  next
    fix c assume st: "st' = protect_conversation c (pool w)"
    then show ?thesis
      using step_serves [OF _ pool_step.protect] by (auto simp: bound_to_def protect_conversation_def)
  next
    fix c assume st: "st' = unprotect_conversation c (pool w)"
    then show ?thesis
      using step_serves [OF _ pool_step.unprotect] by (auto simp: bound_to_def unprotect_conversation_def)
  qed
  then show "bound_to (with_pool w st') conv = bound_to w conv"
    "serving pcfg (w, ts) \<Longrightarrow> serving pcfg (with_pool w st', ts)" by blast+
qed

lemma idle_calls [simp]:
  "idle_task pcfg (Done r)" "idle_task pcfg (AtEndConversation conv)" "idle_task pcfg (call_for rq prompt sy)"
  by (simp_all add: idle_task_def call_for_def)

lemma validated_calls:
  "(\<And>prompt. list_all (idle_task pcfg) (calls (go prompt))) \<Longrightarrow>
   list_all (idle_task pcfg) (calls (validated L nfc rq k sy go))"
  by (auto simp: validated_def split: sum.split)

lemma execute_calls: "list_all (idle_task pcfg) (calls (execute L nfc rq k))"
  by (cases k) (auto intro!: validated_calls)

lemma section_calls:
  assumes "turn_step L nfc cfg now t b st = (t', b', st')"
  shows "calls t' = calls t \<or> list_all (idle_task pcfg) (calls t) \<and> list_all (idle_task pcfg) (calls t')"
proof (cases t)
  case (Planning rq ids)
  then show ?thesis using assms execute_calls by (auto split: prod.splits plan_outcome.splits)
next
  case (Calling rq k sy p)
  show ?thesis
  proof (cases "reply_of p")
    case None
    then show ?thesis using assms Calling by simp
  next
    case (Some r)
    have "list_all (idle_task pcfg) (calls (call_failed L nfc rq k sy e))" for e
      by (auto simp: call_failed_def intro!: validated_calls)
    then have "list_all (idle_task pcfg) (calls (fst (called L nfc cfg now rq k sy r b)))"
      by (cases "(L, nfc, cfg, now, rq, k, sy, r, b)" rule: called.cases) auto
    moreover have "fst (called L nfc cfg now rq k sy r b) = t'" using assms Calling Some by (auto split: prod.splits)
    ultimately show ?thesis using Calling Some by (simp add: reply_of_Some)
  qed
next
  case (Dropping rq k p)
  then show ?thesis using assms by (cases "reply_of p") (auto simp: reply_of_Some)
next
  case (Forgetting rq k p)
  then show ?thesis using assms by (cases "reply_of p") (auto simp: reply_of_Some)
next
  case (Ended conv p)
  then show ?thesis using assms by (cases "reply_of p") (auto simp: reply_of_Some split: reply.splits)
qed (use assms in \<open>auto split: if_splits sum.splits\<close>)

lemma section_keeps:
  assumes g: "desk_good L nfc pcfg w ps b (us @ [t] @ vs) ty"
    and out: "turn_step L nfc cfg now t b (pool w) = (t', b', st')"
  shows "desk_good L nfc pcfg (with_pool w st') ps b' (us @ [t'] @ vs) ty"
proof -
  note i = desk_goodD [OF g] and s = section_step [OF g out]
  let ?w = "with_pool w st'" and ?cu = "concat (map calls us)" and ?cv = "concat (map calls vs)"
  have u: "undisturbed w ty ?w ty conv" for conv by (simp add: undisturbed_def section_world(1) [OF out])
  have h: "book.hands b t b' [t']" using s by (simp add: section_ok_def)
  have "turn_ok L nfc b' ?w ty x" if x: "x \<in> set (us @ vs)" for x
  proof (rule turn_ok_frame)
    show "turn_ok L nfc b w ty x" by (rule i(6)) (use x in auto)
    fix conv P assume "(conv, P) \<in> set (turn_want x)"
    then have "conv \<in> book.held us \<union> book.held vs" using x book.held_member by auto
    then show "undisturbed w ty ?w ty conv \<and> bm_get (b_live b') conv = bm_get (b_live b) conv"
      using u book.others_untouched [OF i(2) h] by (auto simp: book_cell_def)
  qed simp
  moreover have "turn_ok L nfc b' ?w ty t'"
    by (rule turn_ok_frame [of L nfc b' w ty t']) (use s u in \<open>simp_all add: section_ok_def\<close>)
  moreover have "row_ok b' ?w ty conv" if "book_free conv (book_cell b' conv)" for conv
    using s that row_ok_frame [OF _ u, of b' conv b'] by (simp add: section_ok_def)
  moreover have "book.owned b' (us @ [t'] @ vs)" by (rule book.owned_step [OF i(2) h])
  moreover have "serving pcfg (?w, ps @ ?cu @ calls t' @ ?cv)"
  proof -
    have "serving pcfg (?w, (ps @ ?cu) @ calls t @ ?cv)" using section_world(2) [OF out i(1)] by simp
    then show ?thesis
      using section_calls [OF out, of pcfg] serving_idles [of pcfg "calls t" ?w "ps @ ?cu" ?cv]
        serving_idles [of pcfg "calls t'" ?w "ps @ ?cu" ?cv] by auto
  qed
  ultimately show ?thesis
    using i(3,4) by (simp add: desk_good_def list_all_iff)
qed

lemma arrival_keeps:
  assumes "desk_good L nfc pcfg w ps b ts ty"
  shows "other_entry p \<Longrightarrow> desk_good L nfc pcfg w (ps @ [p]) b ts ty"
    "arrival L cfg pcfg t \<Longrightarrow> desk_good L nfc pcfg w ps b (ts @ [t]) ty"
proof -
  assume p: "other_entry p"
  then have "idle_task pcfg p" "outsider p" by (cases p; simp add: idle_task_def outsider_def)+
  then show "desk_good L nfc pcfg w (ps @ [p]) b ts ty"
    using assms serving_idle [of pcfg p w ps] by (simp add: desk_good_def)
next
  assume "arrival L cfg pcfg t"
  then have "calls t = []" "turn_want t = []" "turn_ok L nfc b w ty t" by (auto simp: arrival_def)
  then show "desk_good L nfc pcfg w ps b (ts @ [t]) ty"
    using assms book.owned_idle [of t b ts "[]"] by (simp add: desk_good_def)
qed

lemma elsewhere_keeps:
  assumes g: "desk_good L nfc pcfg w ps b ts ty"
  shows "desk_good L nfc pcfg (w\<lparr>disk := d\<rparr>) ps b ts ty"
proof -
  note i = desk_goodD [OF g]
  have u: "undisturbed w ty (w\<lparr>disk := d\<rparr>) ty conv" for conv by (simp add: undisturbed_def bound_to_def)
  have "turn_ok L nfc b (w\<lparr>disk := d\<rparr>) ty t" if "t \<in> set ts" for t
    by (rule turn_ok_frame [OF i(6) [OF that]]) (simp_all add: u)
  moreover have "row_ok b (w\<lparr>disk := d\<rparr>) ty conv" if "book_free conv (book_cell b conv)" for conv
    using row_ok_frame [OF i(5) [OF that] u] by simp
  ultimately show ?thesis
    using i(2,3,4) step_serves [OF i(1) pool_step.outside] by (simp add: desk_good_def list_all_iff)
qed

lemma desk_step_keeps:
  assumes "desk_inv L nfc pcfg D" "desk_step L nfc cfg pcfg D D'"
  shows "desk_inv L nfc pcfg D'"
  unfolding desk_inv_def
proof
  assume cfg: "cfg_served pcfg"
  then have g: "desk_good L nfc pcfg (d_world D) (d_tasks D) (d_book D) (d_turns D) (d_typed D)"
    using assms(1) by (simp add: desk_inv_def)
  from assms(2) show "desk_good L nfc pcfg (d_world D') (d_tasks D') (d_book D') (d_turns D') (d_typed D')"
  proof cases
    case (background us p vs inp w' ps)
    then show ?thesis using background_keeps [OF _ cfg] g by simp
  next
    case (call ts t ts' p inp w' q spawned)
    then show ?thesis using call_keeps [OF _ cfg] g by simp
  next
    case (section_of ts t ts' now t' b' st')
    then show ?thesis using section_keeps g by simp
  next
    case (task_arrives p)
    then show ?thesis using arrival_keeps(1) g by simp
  next
    case (turn_arrives t)
    then show ?thesis using arrival_keeps(2) g by simp
  next
    case (elsewhere d)
    then show ?thesis using elsewhere_keeps g by simp
  qed
qed

lemma desk_start_inv: "desk_start D \<Longrightarrow> desk_inv L nfc pcfg D"
  using start_serves [of "(d_world D, [])" pcfg]
  by (auto simp: desk_start_def desk_inv_def desk_good_def book.owned_def book.met_def book.held_def book.wants_def
      book_free_def book_cell_def book_new_def row_ok_def bm_contains_def)

interpretation desk_sys: transition_system desk_start "desk_step L nfc cfg pcfg" "desk_inv L nfc pcfg" for L nfc cfg pcfg
  by unfold_locales (auto intro: desk_start_inv desk_step_keeps)


definition desk_reachable ::
  "libs \<Rightarrow> (utext \<Rightarrow> utext) \<Rightarrow> conversation_config \<Rightarrow> pool_config \<Rightarrow> desk \<Rightarrow> bool" where
  "desk_reachable L nfc cfg pcfg D \<longleftrightarrow> (\<exists>D0. desk_start D0 \<and> (desk_step L nfc cfg pcfg)\<^sup>*\<^sup>* D0 D)"

lemma reachable_good:
  assumes "desk_reachable L nfc cfg pcfg D" "cfg_served pcfg"
  shows "desk_good L nfc pcfg (d_world D) (d_tasks D) (d_book D) (d_turns D) (d_typed D)"
  using assms desk_sys.inv_reachable [of _ L nfc cfg pcfg D] by (auto simp: desk_reachable_def desk_inv_def)

section \<open>The lease cap\<close>

lemma bm_len_fold_remove: "bm_len (fold bm_remove ks m) \<le> bm_len m"
proof (induction ks arbitrary: m)
  case (Cons k ks)
  have "bm_len (bm_remove k m) \<le> bm_len m" by (simp add: bm_len_remove)
  with Cons [of "bm_remove k m"] show ?case by simp
qed simp

lemma bm_len_modify [simp]: "bm_len (bm_modify k f m) = bm_len m"
  by (simp add: bm_modify_def bm_len_insert bm_contains_def split: option.split)

lemma occupied_drop: "occupied (drop_orphans ids b) \<le> occupied b"
  by (simp add: occupied_def drop_orphans_def bm_len_fold_remove)

lemma occupied_forget: "occupied (b\<lparr>b_live := bm_remove conv (b_live b)\<rparr>) \<le> occupied b"
  by (simp add: occupied_def bm_len_remove)

lemma occupied_reserve:
  assumes "reserve_lease cfg conv b = (o', b')" "occupied b \<le> cc_max_leases cfg" "cc_max_leases cfg \<le> u32_max"
  shows "occupied b' \<le> cc_max_leases cfg"
proof (cases "b' = b")
  case False
  then have "\<not> cc_max_leases cfg \<le> u32_of_usize (occupied b)"
    and b': "b' = b\<lparr>b_reserved := bs_insert conv (b_reserved b)\<rparr>"
    using assms(1) by (auto simp: reserve_lease_def split: if_splits)
  then have "occupied b < cc_max_leases cfg" using assms(2,3) by (simp add: u32_of_usize_def)
  then show ?thesis by (simp add: b' occupied_def bs_insert_def bm_len_insert)
qed (use assms in simp)

lemma occupied_plan:
  assumes out: "plan cfg now ids rq b st = (o', b', st')" and cap: "occupied b \<le> cc_max_leases cfg"
    and u32: "cc_max_leases cfg \<le> u32_max"
  shows "occupied b' \<le> cc_max_leases cfg"
proof -
  let ?B = "drop_orphans ids b" and ?X = "rq_conversation_id rq"
  have B: "occupied ?B \<le> cc_max_leases cfg" using occupied_drop [of ids b] cap by simp
  moreover have "occupied (set_in_flight f c ?B) = occupied ?B" for f c by (simp add: occupied_def set_in_flight_def)
  moreover have "occupied (?B\<lparr>b_live := bm_modify ?X f (b_live ?B)\<rparr>) = occupied ?B" for f by (simp add: occupied_def)
  moreover have "occupied (?B\<lparr>b_live := bm_remove ?X (b_live ?B)\<rparr>) \<le> cc_max_leases cfg"
    using occupied_forget [of ?X ?B] B by simp
  ultimately show ?thesis
    using out unfolding plan_def Let_def
    by (auto dest: occupied_reserve [OF _ _ u32] simp del: drop_orphans_fields
        split: option.splits prod.splits prefix_decision.splits bool.splits if_splits)
qed

lemma occupied_commit:
  assumes "holds_row rq k (book_cell b conv)"
  shows "occupied (commit_lease now conv f r c b) = occupied b"
proof -
  have "bm_contains (b_reserved b) conv \<noteq> bm_contains (b_live b) conv"
    using assms by (cases k) (auto simp: book_cell_def bm_contains_def)
  moreover have "bm_contains (b_reserved b) conv \<Longrightarrow> 0 < bm_len (b_reserved b)"
    by (metis bm_contains_def bm_len_0_iff gr0I)
  ultimately show ?thesis
    by (cases "bm_contains (b_reserved b) conv")
      (auto simp: occupied_def commit_lease_def bm_len_insert bm_len_remove)
qed

lemma occupied_section:
  assumes g: "desk_good L nfc pcfg w ps b (us @ [t] @ vs) ty"
    and out: "turn_step L nfc cfg now t b st = (t', b', st')" and cap: "occupied b \<le> cc_max_leases cfg"
    and u32: "cc_max_leases cfg \<le> u32_max"
  shows "occupied b' \<le> cc_max_leases cfg"
proof (cases t)
  case (Planning rq ids)
  then show ?thesis
    using out occupied_plan [of cfg now ids rq b st] cap u32 by (auto split: prod.splits plan_outcome.splits)
next
  case (Calling rq k sy p)
  have row: "holds_row rq k (book_cell b (rq_conversation_id rq))"
    using desk_goodD(2) [OF g] Calling by (auto simp: book.owned_def book.met_def book.wants_def)
  have "occupied (snd (called L nfc cfg now rq k sy r b)) = occupied b" for r
    by (cases "(L, nfc, cfg, now, rq, k, sy, r, b)" rule: called.cases) (auto simp: occupied_commit [OF row])
  then show ?thesis using out Calling cap by (auto split: option.splits prod.splits) (metis snd_conv)
next
  case (Recovered rq k e keep)
  have "occupied (recover_locked keep c b) \<le> occupied b" for c
    by (auto simp: recover_locked_def set_in_flight_def occupied_def bm_len_remove)
  then show ?thesis using out Recovered cap order_trans by auto
next
  case (Ending conv)
  then show ?thesis
    using out cap occupied_forget [of conv b] by (auto simp: release_lease_def split: sum.splits if_splits)
next
  case (Swept ids)
  then show ?thesis using out cap occupied_drop [of ids b] by auto
qed (use out cap in \<open>auto split: if_splits\<close>)

definition capped :: "libs \<Rightarrow> (utext \<Rightarrow> utext) \<Rightarrow> conversation_config \<Rightarrow> pool_config \<Rightarrow> desk \<Rightarrow> bool" where
  "capped L nfc cfg pcfg D \<longleftrightarrow> desk_inv L nfc pcfg D
     \<and> (cfg_served pcfg \<longrightarrow> cc_max_leases cfg \<le> u32_max \<longrightarrow> occupied (d_book D) \<le> cc_max_leases cfg)"

lemma capped_step:
  assumes "capped L nfc cfg pcfg D" "desk_step L nfc cfg pcfg D D'"
  shows "capped L nfc cfg pcfg D'"
proof -
  have inv: "desk_inv L nfc pcfg D" using assms(1) by (simp add: capped_def)
  have "occupied (d_book D') \<le> cc_max_leases cfg" if cfg: "cfg_served pcfg" and u32: "cc_max_leases cfg \<le> u32_max"
  proof -
    have cap: "occupied (d_book D) \<le> cc_max_leases cfg" using assms(1) cfg u32 by (simp add: capped_def)
    from assms(2) show ?thesis
    proof cases
      case (section_of ts t ts' now t' b' st')
      have "desk_good L nfc pcfg (d_world D) (d_tasks D) (d_book D) (ts @ [t] @ ts') (d_typed D)"
        using inv cfg section_of(2) by (simp add: desk_inv_def)
      from occupied_section [OF this section_of(3) cap u32] section_of(1) show ?thesis by simp
    qed (use cap in simp_all)
  qed
  then show ?thesis using desk_step_keeps [OF inv assms(2)] by (simp add: capped_def)
qed

interpretation capped_sys: transition_system desk_start "desk_step L nfc cfg pcfg" "capped L nfc cfg pcfg"
  for L nfc cfg pcfg
proof unfold_locales
  show "capped L nfc cfg pcfg D" if "desk_start D" for D
    using that desk_start_inv by (auto simp: capped_def desk_start_def book_new_def occupied_def)
qed (rule capped_step)

end
