(* ===== verification/Wording.thy ===== *)
theory Wording
  imports Leases
begin

text \<open>
  The lease book compares digests (\<open>fingerprint_body_on\<close>, \<open>classify_prefix\<close> in
  \<open>src/bin/pmuxd/src/conversation.rs\<close>); a cell is typed messages. This theory relates the two in every
  reachable state of the composed system: what a running process was given is spelled from requests that
  passed their checks, and where the digests tell messages apart, equal digests are equal messages.
\<close>

section \<open>What the digests stand for\<close>

text \<open>
  A request's fingerprint lists the digests of its own messages, and its primer
  is rendered from them: so a digest the cell was told is the digest of a message that was typed.
\<close>

definition messages_in :: "request \<Rightarrow> jvalue list" where
  "messages_in rq = (case messages_of (rq_body rq) of None \<Rightarrow> [] | Some items \<Rightarrow> items)"

fun told_messages :: "utterance \<Rightarrow> jvalue list" where
  "told_messages (Some (rq, Primer)) = messages_in rq"
| "told_messages (Some (rq, Suffix n)) = drop n (messages_in rq)"
| "told_messages None = []"

text \<open>The part of a typed prompt that spells messages, and a prompt that spells the given ones.\<close>

definition history_text :: "libs \<Rightarrow> jvalue list \<Rightarrow> utext" where
  "history_text L ms = ascii ''HISTORY:'' @ [10] @ concat (map (render_message L) ms) @ CLOSING"

definition spelled_by :: "libs \<Rightarrow> utterance \<Rightarrow> bool" where
  "spelled_by L u \<longleftrightarrow> (\<forall>rq sy. u = Some (rq, sy) \<longrightarrow>
     (\<exists>head. text_of L rq sy = Inr (sanitize_prompt (head @ history_text L (told_messages u)))))"

text \<open>A message as it is typed: its role and its rendered content.\<close>

definition wording :: "libs \<Rightarrow> jvalue \<Rightarrow> utext \<times> utext" where
  "wording L m = (role_of m, render_content L (vget m ''content''))"

text \<open>
  Messages whose digests tell them apart: no two of their texts collide under the hash, and no role holds
  the newline that separates it from the content.
\<close>

definition unambiguous :: "libs \<Rightarrow> jvalue list \<Rightarrow> bool" where
  "unambiguous L ms \<longleftrightarrow>
     (\<forall>a \<in> set ms. \<forall>b \<in> set ms.
        sha_hex L (digest_text L a) = sha_hex L (digest_text L b) \<longrightarrow> digest_text L a = digest_text L b)
     \<and> (\<forall>m \<in> set ms. 10 \<notin> set (role_of m))"

definition genuine :: "libs \<Rightarrow> request \<Rightarrow> bool" where
  "genuine L rq \<longleftrightarrow> fp_messages (rq_next rq) = map (\<lambda>m. sha_hex L (digest_text L m)) (messages_in rq)
     \<and> (\<exists>head. rq_primer rq = sanitize_prompt (head @ history_text L (messages_in rq)))"

lemma flatten_history:
  assumes "flatten_prompt L body = Inr flat" "messages_of body = Some ms"
  shows "\<exists>head. flat = head @ history_text L ms"
  using assms by (auto simp: flatten_prompt_def history_text_def Let_def ok_or_else_def)

lemma flatten_messages: "flatten_prompt L body = Inr flat \<Longrightarrow> \<exists>ms. messages_of body = Some ms"
  by (auto simp: flatten_prompt_def Let_def result_simps ok_or_else_def split: option.splits)

lemma check_request_made:
  assumes "check_request L cfg pcfg hs body = Inr rq"
  shows "\<exists>flat model effort acct. flatten_prompt L body = Inr flat \<and> rq_primer rq = sanitize_prompt flat
    \<and> rq_body rq = body \<and> rq_next rq = fingerprint_body_on L body model effort acct"
  using assms by (fastforce simp: check_request_def Let_def result_simps case_prod_beta split: if_splits)

lemma check_request_genuine:
  assumes "check_request L cfg pcfg hs body = Inr rq"
  shows "genuine L rq"
proof -
  from check_request_made [OF assms] obtain flat model effort acct where
    r: "flatten_prompt L body = Inr flat" "rq_primer rq = sanitize_prompt flat" "rq_body rq = body"
      "rq_next rq = fingerprint_body_on L body model effort acct" by blast
  obtain ms where ms: "messages_of body = Some ms" using flatten_messages [OF r(1)] by blast
  from flatten_history [OF r(1) ms] r ms show ?thesis
    by (auto simp: genuine_def messages_in_def fingerprint_body_on_def)
qed

text \<open>The request a turn works for, and what it types.\<close>

fun request_of :: "turn \<Rightarrow> request option" where
  "request_of (Listing rq) = Some rq"
| "request_of (Planning rq ids) = Some rq"
| "request_of (Dropping rq k p) = Some rq"
| "request_of (Calling rq k sy p) = Some rq"
| "request_of (Unprotecting rq k out) = Some rq"
| "request_of (Recovering rq k e) = Some rq"
| "request_of (Recovered rq k e keep) = Some rq"
| "request_of (Forgetting rq e p) = Some rq"
| "request_of t = None"

fun worded :: "libs \<Rightarrow> utterance \<Rightarrow> bool" where
  "worded L (Some (rq, sy)) \<longleftrightarrow> genuine L rq \<and> (\<exists>prompt. text_of L rq sy = Inr prompt)"
| "worded L None \<longleftrightarrow> True"

definition sincere :: "libs \<Rightarrow> turn \<Rightarrow> bool" where
  "sincere L t \<longleftrightarrow> (\<forall>rq. request_of t = Some rq \<longrightarrow> genuine L rq) \<and> worded L (utterance_of t)"

lemma continuation_history:
  assumes "continuation_prompt L body from = Inr p"
  shows "\<exists>ms. messages_of body = Some ms \<and> p = sanitize_prompt (history_text L (drop from ms))"
proof (cases "messages_of body")
  case (Some ms)
  then show ?thesis
    using assms by (simp add: continuation_prompt_def history_text_def Let_def split: if_splits)
qed (use assms in \<open>simp add: continuation_prompt_def\<close>)

lemma worded_spelled: "worded L u \<Longrightarrow> spelled_by L u"
proof -
  have "\<exists>head. text_of L rq sy = Inr (sanitize_prompt (head @ history_text L (told_messages (Some (rq, sy)))))"
    if w: "worded L (Some (rq, sy))" for rq sy
  proof (cases sy)
    case (Suffix n)
    with w obtain p where p: "continuation_prompt L (rq_body rq) n = Inr p" by (auto simp: map_err_Inr)
    from continuation_history [OF p] Suffix p show ?thesis
      by (intro exI [of _ "[]"]) (auto simp: messages_in_def)
  qed (use w in \<open>auto simp: genuine_def\<close>)
  then show "worded L u \<Longrightarrow> spelled_by L u" by (auto simp: spelled_by_def)
qed

lemma worded_tells: "worded L u \<Longrightarrow> tells u = map (\<lambda>m. sha_hex L (digest_text L m)) (told_messages u)"
  by (cases u rule: tells.cases) (auto simp: genuine_def drop_map)

lemma with_call_sincere: "sincere L t \<Longrightarrow> sincere L (with_call q t)"
  by (cases t) (auto simp: sincere_def)

lemma validated_sincere:
  assumes "genuine L rq" "\<And>prompt. text_of L rq sy = Inr prompt \<Longrightarrow> sincere L (go prompt)"
  shows "sincere L (validated L nfc rq k sy go)"
  using assms by (auto simp: validated_def sincere_def bind_r_def split: sum.splits)

lemma section_sincere:
  assumes "sincere L t" "turn_step L nfc cfg now t b st = (t', b', st')"
  shows "sincere L t'"
proof -
  have ex: "sincere L (execute L nfc rq k)" if "genuine L rq" for rq k
    by (cases k; simp; rule validated_sincere [OF that]; simp add: sincere_def that)
  have failed: "sincere L (call_failed L nfc rq k sy e)" if "genuine L rq" for rq k sy e
  proof -
    have "sincere L (validated L nfc rq k Primer (\<lambda>prompt. Calling rq k Primer (call_for rq prompt Primer)))"
      by (rule validated_sincere [OF that]) (simp add: sincere_def that)
    then show ?thesis using that by (simp add: call_failed_def) (simp add: sincere_def)
  qed
  have called: "sincere L (fst (called L nfc cfg now rq k sy r b))" if "sincere L (Calling rq k sy p)" for rq k sy r p
    using that failed by (cases "(L, nfc, cfg, now, rq, k, sy, r, b)" rule: called.cases) (auto simp: sincere_def)
  show ?thesis
  proof (cases t)
    case (Planning rq ids)
    then show ?thesis using assms ex by (auto simp: sincere_def split: prod.splits plan_outcome.splits)
  next
    case (Calling rq k sy p)
    with assms(1) called [of rq k sy p] have "sincere L (fst (called L nfc cfg now rq k sy r b))" for r by simp
    then show ?thesis
      using assms Calling by (auto split: option.splits prod.splits) (metis fst_conv)
  qed (use assms in \<open>auto simp: sincere_def split: if_splits sum.splits option.splits reply.splits\<close>)
qed

section \<open>What a process was given\<close>

definition sincere_desk :: "libs \<Rightarrow> desk \<Rightarrow> bool" where
  "sincere_desk L D \<longleftrightarrow> list_all (sincere L) (d_turns D) \<and> (\<forall>s. list_all (worded L) (d_typed D s))"

text \<open>A daemon that has just started has typed nothing: whatever the ghost records is not from the book.\<close>

definition clean_start :: "desk \<Rightarrow> bool" where
  "clean_start D \<longleftrightarrow> desk_start D \<and> (\<forall>s. set (d_typed D s) \<subseteq> {None})"

lemma hear_worded: "worded L u \<Longrightarrow> list_all (worded L) (ty s) \<Longrightarrow> list_all (worded L) (hear u w w' ty s)"
  by (simp add: hear_def)

lemma sincere_step:
  assumes "sincere_desk L D" "desk_step L nfc cfg pcfg D D'"
  shows "sincere_desk L D'"
  using assms(2)
proof cases
  case (background us p vs inp w' ps)
  then show ?thesis using assms(1) hear_worded [of L None] by (simp add: sincere_desk_def)
next
  case (call ts t ts' p inp w' q spawned)
  then have "worded L (utterance_of t)" using assms(1) by (simp add: sincere_desk_def sincere_def)
  with call assms(1) with_call_sincere [of L t q] show ?thesis by (simp add: sincere_desk_def hear_worded)
next
  case (section_of ts t ts' now t' b' st')
  then show ?thesis using assms(1) section_sincere [OF _ section_of(3)] by (simp add: sincere_desk_def)
next
  case (turn_arrives t)
  then have "sincere L t" using check_request_genuine by (auto simp: arrival_def sincere_def)
  then show ?thesis using turn_arrives assms(1) by (simp add: sincere_desk_def)
qed (use assms(1) in \<open>simp_all add: sincere_desk_def\<close>)

interpretation sincere_sys: transition_system clean_start "desk_step L nfc cfg pcfg" "sincere_desk L"
  for L nfc cfg pcfg
proof unfold_locales
  show "sincere_desk L D" if "clean_start D" for D
  proof -
    have "worded L u" if "u \<in> set (d_typed D s)" for u s
      using \<open>clean_start D\<close> that by (cases u) (auto simp: clean_start_def)
    then show ?thesis using that by (auto simp: clean_start_def desk_start_def sincere_desk_def list_all_iff)
  qed
qed (rule sincere_step)

text \<open>
  The ghost steers nothing: a run goes the same way from a clean start. The two ghosts differ only in slots
  that still carry what they started with.
\<close>

definition same_but_start :: "typed \<Rightarrow> typed \<Rightarrow> typed \<Rightarrow> bool" where
  "same_but_start g ty ty' \<longleftrightarrow>
     (\<forall>s. ty s = ty' s \<or> (\<exists>ys. ty s = g s @ ys \<and> ty' s = replicate (length (g s)) None @ ys))"

lemma hear_same_but_start:
  assumes "same_but_start g ty ty'"
  shows "same_but_start g (hear u w w' ty) (hear u w w' ty')"
  unfolding same_but_start_def
proof
  fix s
  consider "ty s = ty' s" | ys where "ty s = g s @ ys" "ty' s = replicate (length (g s)) None @ ys"
    using assms by (auto simp: same_but_start_def)
  then show "hear u w w' ty s = hear u w w' ty' s
    \<or> (\<exists>ys. hear u w w' ty s = g s @ ys \<and> hear u w w' ty' s = replicate (length (g s)) None @ ys)"
  proof cases
    case (2 ys)
    then show ?thesis by (auto simp: hear_def)
  qed (simp add: hear_def)
qed

lemma ghost_steers_nothing:
  assumes "desk_step L nfc cfg pcfg D E" "same_but_start g (d_typed D) ty"
  shows "\<exists>ty'. desk_step L nfc cfg pcfg (D\<lparr>d_typed := ty\<rparr>) (E\<lparr>d_typed := ty'\<rparr>) \<and> same_but_start g (d_typed E) ty'"
  using assms(1)
proof cases
  case (background us p vs inp w' ps)
  let ?ty = "hear None (d_world D) w' ty"
  have "desk_step L nfc cfg pcfg (D\<lparr>d_typed := ty\<rparr>) (E\<lparr>d_typed := ?ty\<rparr>)"
    using desk_step.background [of "D\<lparr>d_typed := ty\<rparr>" us p vs pcfg nfc inp w' ps L cfg] background by simp
  then show ?thesis using hear_same_but_start [OF assms(2)] background(1) by auto
next
  case (call ts t ts' p inp w' q spawned)
  let ?ty = "hear (utterance_of t) (d_world D) w' ty"
  have "desk_step L nfc cfg pcfg (D\<lparr>d_typed := ty\<rparr>) (E\<lparr>d_typed := ?ty\<rparr>)"
    using desk_step.call [of "D\<lparr>d_typed := ty\<rparr>" ts t ts' p pcfg nfc inp w' q spawned L cfg] call by simp
  then show ?thesis using hear_same_but_start [OF assms(2)] call(1) by auto
next
  case (section_of ts t ts' now t' b' st')
  then show ?thesis
    using desk_step.section_of [of "D\<lparr>d_typed := ty\<rparr>" ts t ts' L nfc cfg now t' b' st' pcfg] assms(2)
    by (cases D; intro exI [of _ ty]) simp
next
  case (task_arrives p)
  then show ?thesis
    using desk_step.task_arrives [of p L nfc cfg pcfg "D\<lparr>d_typed := ty\<rparr>"] assms(2)
    by (cases D; intro exI [of _ ty]) simp
next
  case (turn_arrives t)
  then show ?thesis
    using desk_step.turn_arrives [of L cfg pcfg t nfc "D\<lparr>d_typed := ty\<rparr>"] assms(2)
    by (cases D; intro exI [of _ ty]) simp
next
  case (elsewhere d)
  then show ?thesis
    using desk_step.elsewhere [of L nfc cfg pcfg "D\<lparr>d_typed := ty\<rparr>" d] assms(2)
    by (cases D; intro exI [of _ ty]) simp
qed

lemma clean_run:
  assumes "desk_reachable L nfc cfg pcfg D"
  obtains g ty where "same_but_start g (d_typed D) ty" "sincere_desk L (D\<lparr>d_typed := ty\<rparr>)"
    "desk_reachable L nfc cfg pcfg (D\<lparr>d_typed := ty\<rparr>)"
proof -
  from assms obtain D0 where start: "desk_start D0" and run: "(desk_step L nfc cfg pcfg)\<^sup>*\<^sup>* D0 D"
    by (auto simp: desk_reachable_def)
  let ?g = "d_typed D0" and ?ty = "\<lambda>s. replicate (length (d_typed D0 s)) None"
  have clean: "clean_start (D0\<lparr>d_typed := ?ty\<rparr>)" using start by (auto simp: clean_start_def desk_start_def)
  from run have "\<exists>ty. (desk_step L nfc cfg pcfg)\<^sup>*\<^sup>* (D0\<lparr>d_typed := ?ty\<rparr>) (D\<lparr>d_typed := ty\<rparr>)
      \<and> same_but_start ?g (d_typed D) ty"
  proof (induction rule: rtranclp_induct)
    case base
    then show ?case by (intro exI [of _ ?ty]) (simp add: same_but_start_def)
  next
    case (step D E)
    then show ?case using ghost_steers_nothing [OF step.hyps(2)] by (meson rtranclp.rtrancl_into_rtrancl)
  qed
  then obtain ty where "(desk_step L nfc cfg pcfg)\<^sup>*\<^sup>* (D0\<lparr>d_typed := ?ty\<rparr>) (D\<lparr>d_typed := ty\<rparr>)"
    "same_but_start ?g (d_typed D) ty" by blast
  moreover from this(1) have "sincere_desk L (D\<lparr>d_typed := ty\<rparr>)" by (rule sincere_sys.inv_reachable [OF clean])
  ultimately show thesis using that [of ?g ty] clean by (auto simp: desk_reachable_def clean_start_def)
qed

text \<open>A call that is about to type continues what the process was given.\<close>

lemma call_agrees:
  assumes "cfg_served pcfg" "desk_reachable L nfc cfg pcfg D"
    "Calling rq k sy (AtHandle (Sticky conv j) s) \<in> set (d_turns D)"
  shows "agrees conv (rq_next rq) (d_typed D s @ [Some (rq, sy)])"
proof -
  note i = desk_goodD [OF reachable_good [OF assms(2,1)]]
  have ok: "turn_ok L nfc (d_book D) (d_world D) (d_typed D) (Calling rq k sy (AtHandle (Sticky conv j) s))"
    by (rule i(6) [OF assms(3)])
  have conv: "conv = rq_conversation_id rq" using ok by (auto simp: speaks_def)
  have row: "holds_row rq k (book_cell (d_book D) conv)"
    using book.held_member [OF assms(3)] i(2) assms(3) conv
    by (auto simp: book.owned_def book.met_def book.wants_def)
  show ?thesis
  proof (cases sy)
    case Primer
    then show ?thesis using ok agrees_primer conv by simp
  next
    case (Suffix n)
    then obtain l where l: "bm_get (b_live (d_book D)) conv = Some l" "agrees conv (l_fingerprint l) (d_typed D s)"
      using ok conv by auto
    moreover have "classify_prefix (l_fingerprint l) (rq_next rq) = Continue n"
      using row ok Suffix l(1) by (auto simp: book_cell_def)
    ultimately show ?thesis using Suffix conv by (simp add: agrees_suffix)
  qed
qed

text \<open>So what the process was given was all typed by the book, from requests that passed their checks.\<close>

lemma call_worded:
  assumes "cfg_served pcfg" "desk_reachable L nfc cfg pcfg D"
    "Calling rq k sy (AtHandle (Sticky conv j) s) \<in> set (d_turns D)"
  shows "list_all (worded L) (d_typed D s @ [Some (rq, sy)])"
proof -
  obtain g ty where c: "same_but_start g (d_typed D) ty" "sincere_desk L (D\<lparr>d_typed := ty\<rparr>)"
    "desk_reachable L nfc cfg pcfg (D\<lparr>d_typed := ty\<rparr>)" by (rule clean_run [OF assms(2)])
  have "agrees conv (rq_next rq) (ty s @ [Some (rq, sy)])"
    using call_agrees [OF assms(1) c(3), of rq k sy conv j s] assms(3) by simp
  then have "ty s \<noteq> None # xs" for xs by (auto simp: agrees_def)
  then have "d_typed D s = ty s" using c(1) by (auto simp: same_but_start_def dest!: spec [of _ s]) (cases "g s"; auto)
  moreover have "sincere L (Calling rq k sy (AtHandle (Sticky conv j) s))" "list_all (worded L) (ty s)"
    using c(2) assms(3) by (simp_all add: sincere_desk_def list_all_iff)
  ultimately show ?thesis by (simp add: sincere_def)
qed

section \<open>From digests to messages\<close>

lemma first_separator:
  "xs @ c # ys = xs' @ c # ys' \<Longrightarrow> c \<notin> set xs \<Longrightarrow> c \<notin> set xs' \<Longrightarrow> xs = xs' \<and> ys = ys'"
proof (induction xs arbitrary: xs')
  case Nil
  then show ?case by (cases xs') auto
next
  case (Cons x xs)
  then show ?case by (cases xs') auto
qed

lemma unambiguous_wording:
  assumes "unambiguous L ms" "a \<in> set ms" "b \<in> set ms" "sha_hex L (digest_text L a) = sha_hex L (digest_text L b)"
  shows "wording L a = wording L b"
proof -
  have "digest_text L a = digest_text L b" "10 \<notin> set (role_of a)" "10 \<notin> set (role_of b)"
    using assms by (auto simp: unambiguous_def)
  then show ?thesis
    using first_separator [of "role_of a" 10] by (simp add: wording_def digest_text_def)
qed

lemma same_digests_same_wording:
  assumes "map (\<lambda>m. sha_hex L (digest_text L m)) xs = map (\<lambda>m. sha_hex L (digest_text L m)) ys"
    "unambiguous L (xs @ ys)"
  shows "map (wording L) xs = map (wording L) ys"
proof (rule nth_equalityI)
  show len: "length (map (wording L) xs) = length (map (wording L) ys)" using map_eq_imp_length_eq [OF assms(1)] by simp
  fix i assume "i < length (map (wording L) xs)"
  then have i: "i < length xs" "i < length ys" using len by simp_all
  moreover have "sha_hex L (digest_text L (xs ! i)) = sha_hex L (digest_text L (ys ! i))"
    using arg_cong [OF assms(1), of "\<lambda>l. l ! i"] i by simp
  ultimately show "map (wording L) xs ! i = map (wording L) ys ! i"
    using unambiguous_wording [OF assms(2), of "xs ! i" "ys ! i"] by simp
qed

lemma concat_tells:
  "list_all (worded L) us \<Longrightarrow>
     concat (map tells us) = map (\<lambda>m. sha_hex L (digest_text L m)) (concat (map told_messages us))"
  by (induction us) (simp_all add: worded_tells)

lemma agreed_messages:
  assumes "list_all (worded L) (us @ [Some (rq, sy)])" "agrees conv (rq_next rq) (us @ [Some (rq, sy)])"
  shows "map (\<lambda>m. sha_hex L (digest_text L m)) (concat (map told_messages (us @ [Some (rq, sy)])))
       = map (\<lambda>m. sha_hex L (digest_text L m)) (messages_in rq)"
proof -
  have "genuine L rq" using assms(1) by simp
  then show ?thesis using concat_tells [OF assms(1)] assms(2) unfolding agrees_def genuine_def by metis
qed

text \<open>Without that the digests are not enough: a newline in a role moves text between role and content.\<close>

lemma digest_text_is_ambiguous:
  assumes "role_of a = ascii ''user'' @ [10] @ x" "vget a ''content'' = Some (VString y)"
    "role_of b = ascii ''user''" "vget b ''content'' = Some (VString (x @ [10] @ y))"
  shows "digest_text L a = digest_text L b \<and> render_message L a \<noteq> render_message L b"
  using assms by (simp add: digest_text_def render_message_def heading_def ascii_def)

end
