(* ===== verification/Sticky.thy ===== *)
theory Sticky
  imports Wording
begin

text \<open>
  What the Messages facade promises a conversation, over every interleaving of its turns with the
  pool: the theorems that span \<open>src/bin/pmuxd/src/conversation.rs\<close> and \<open>src/crates/service/src/pool/mod.rs\<close>,
  with concrete runs of the model.
\<close>

section \<open>What the facade promises\<close>

text \<open>C6: A sticky conversation is typed once. Whatever the interleaving of requests, releases, sweeps and
  pool tasks, when a turn of the lease book is about to be given to a process, the instance is checked
  out to that conversation and of the class the request asks for, and what the process has been given
  since it was last proven empty, followed by this turn, is one primer and then only continuations, all
  of this conversation, of one pool class and of one fingerprint of system prompt and tools. Each of them
  typed a prompt that spells a stretch of its own request's messages, and the SHA-256 digests of the
  messages so spelled are, one after another, exactly those of the messages of this request. Digests are
  all the book compares, so the messages themselves are fixed by them only as far as they can be: if no two
  of the digested texts collide under the hash and no role holds the newline that separates it from the
  content, the cell was told every message of the request (its role and rendered content) exactly once
  and in order. The prompt it types is the one rendered from the request.\<close>
theorem a_cell_is_told_each_message_once:
  assumes "cfg_served pcfg" "desk_reachable L nfc cfg pcfg D"
    "Calling rq k sy (AtHandle (Sticky conv j) s) \<in> set (d_turns D)"
  shows "conv = rq_conversation_id rq
    \<and> (\<exists>i. bm_get (instances (pool (d_world D))) s = Some i \<and> conversation_id i = Some conv
         \<and> state i = CheckedOut \<and> inst_class i = j_class j)
    \<and> agrees conv (rq_next rq) (d_typed D s @ [Some (rq, sy)])
    \<and> list_all (spelled_by L) (d_typed D s @ [Some (rq, sy)])
    \<and> map (\<lambda>m. sha_hex L (digest_text L m)) (concat (map told_messages (d_typed D s @ [Some (rq, sy)])))
        = map (\<lambda>m. sha_hex L (digest_text L m)) (messages_in rq)
    \<and> (unambiguous L (concat (map told_messages (d_typed D s @ [Some (rq, sy)])) @ messages_in rq) \<longrightarrow>
         map (wording L) (concat (map told_messages (d_typed D s @ [Some (rq, sy)]))) = map (wording L) (messages_in rq))
    \<and> (\<exists>prompt. text_of L rq sy = Inr prompt \<and> validate_prompt nfc prompt = Inr (j_prompt j))"
proof -
  note g = reachable_good [OF assms(2,1)]
  note i = desk_goodD [OF g]
  have ok: "turn_ok L nfc (d_book D) (d_world D) (d_typed D) (Calling rq k sy (AtHandle (Sticky conv j) s))"
    by (rule i(6) [OF assms(3)])
  have p: "AtHandle (Sticky conv j) s \<in> set (d_tasks D @ concat (map calls (d_turns D)))"
    using assms(3) by force
  obtain x where x: "bm_get (instances (pool (d_world D))) s = Some x" "e_fresh (j_class j) (Some conv) x (running (d_world D) s) (heard (d_world D) s)"
    by (rule owner_expects [OF i(1) assms(1) p, of s "e_fresh (j_class j) (Some conv)"]) simp
  have conv: "conv = rq_conversation_id rq" using ok by (auto simp: speaks_def)
  note a = call_agrees [OF assms] and w = call_worded [OF assms]
  have "list_all (spelled_by L) (d_typed D s @ [Some (rq, sy)])"
    using w worded_spelled unfolding list_all_iff by blast
  with a agreed_messages [OF w a] same_digests_same_wording [OF agreed_messages [OF w a]] conv x ok show ?thesis
    by (auto simp: expectations speaks_def simp del: map_append concat_append list_all_append)
qed

text \<open>C7: A lease describes its cell. In every reachable state, a lease of the book whose turn is not in
  flight and whose conversation the pool still binds to an instance records exactly what that
  instance's process was told: so a request that matches it is answered from the lease, or continued,
  without the cell having seen more or less than the client believes.\<close>
theorem a_lease_describes_its_cell:
  assumes "cfg_served pcfg" "desk_reachable L nfc cfg pcfg D"
    "bm_get (b_live (d_book D)) conv = Some l" "\<not> l_in_flight l"
    "bm_get (instances (pool (d_world D))) s = Some i" "conversation_id i = Some conv"
  shows "agrees conv (l_fingerprint l) (d_typed D s)"
proof -
  note g = desk_goodD [OF reachable_good [OF assms(2,1)]]
  have "row_ok (d_book D) (d_world D) (d_typed D) conv" by (rule g(5) [OF unreserved [OF g(2) assms(3,4)]])
  moreover have "s \<in> bound_to (d_world D) conv" using assms(5,6) by (auto simp: bound_to_def)
  ultimately show ?thesis using assms(3) by (simp add: row_ok_def)
qed

text \<open>C8: The book never holds more conversations than its cap: leases and reservations together stay
  within \<open>max_leases\<close> in every reachable state, and at most one turn at a time works on a conversation
  between its planning section and its last one.\<close>
theorem leases_stay_within_the_cap:
  assumes "cfg_served pcfg" "cc_max_leases cfg \<le> u32_max" "desk_reachable L nfc cfg pcfg D"
  shows "occupied (d_book D) \<le> cc_max_leases cfg
    \<and> (\<forall>a < length (d_turns D). \<forall>b < length (d_turns D). a \<noteq> b \<longrightarrow>
         turn_convs (d_turns D ! a) \<inter> turn_convs (d_turns D ! b) = {})"
proof -
  have "occupied (d_book D) \<le> cc_max_leases cfg"
    using assms capped_sys.inv_reachable [of _ L nfc cfg pcfg D] by (auto simp: desk_reachable_def capped_def)
  moreover have "turn_convs (d_turns D ! a) \<inter> turn_convs (d_turns D ! b) = {}"
    if ab: "a < length (d_turns D)" "b < length (d_turns D)" "a \<noteq> b" for a b
  proof -
    have own: "book.owned (d_book D) (take a (d_turns D) @ [d_turns D ! a] @ drop (Suc a) (d_turns D))"
      using desk_goodD(2) [OF reachable_good [OF assms(3,1)]] id_take_nth_drop [OF ab(1)] by simp
    have "d_turns D ! b \<in> set (take a (d_turns D) @ drop (Suc a) (d_turns D))"
    proof (cases "b < a")
      case True
      then have "take a (d_turns D) ! b = d_turns D ! b" "b < length (take a (d_turns D))" using ab by simp_all
      then show ?thesis by (metis in_set_conv_decomp nth_mem Un_iff set_append)
    next
      case False
      then have "drop (Suc a) (d_turns D) ! (b - Suc a) = d_turns D ! b" "b - Suc a < length (drop (Suc a) (d_turns D))"
        using ab by simp_all
      then show ?thesis by (metis nth_mem Un_iff set_append)
    qed
    from turn_convs_disjoint [OF own this] show ?thesis .
  qed
  ultimately show ?thesis by blast
qed

section \<open>Concrete runs\<close>

text \<open>One move of the composed system: a task or a call acts, a turn runs a section, something arrives.\<close>

datatype move = Act nat input | Ask nat input | Section nat u64 | Post headers jvalue | Tick | Release string

fun make :: "libs \<Rightarrow> (utext \<Rightarrow> utext) \<Rightarrow> conversation_config \<Rightarrow> pool_config \<Rightarrow> move \<Rightarrow> desk \<Rightarrow> desk" where
  "make L nfc cfg pcfg (Act n inp) D =
     (if n < length (d_tasks D)
      then (case task_step pcfg nfc inp (d_tasks D ! n) (d_world D) of
              (w', ps) \<Rightarrow> D\<lparr>d_world := w', d_tasks := take n (d_tasks D) @ ps @ drop (Suc n) (d_tasks D),
                             d_typed := hear None (d_world D) w' (d_typed D)\<rparr>)
      else D)"
| "make L nfc cfg pcfg (Ask n inp) D =
     (if n < length (d_turns D)
      then (case calls (d_turns D ! n) of
              [p] \<Rightarrow>
                (case task_step pcfg nfc inp p (d_world D) of
                   (w', q # spawned) \<Rightarrow>
                     D\<lparr>d_world := w', d_tasks := d_tasks D @ spawned,
                       d_turns := take n (d_turns D) @ [with_call q (d_turns D ! n)] @ drop (Suc n) (d_turns D),
                       d_typed := hear (utterance_of (d_turns D ! n)) (d_world D) w' (d_typed D)\<rparr>
                 | _ \<Rightarrow> D)
            | _ \<Rightarrow> D)
      else D)"
| "make L nfc cfg pcfg (Section n now) D =
     (if n < length (d_turns D)
      then (case turn_step L nfc cfg now (d_turns D ! n) (d_book D) (pool (d_world D)) of
              (t', b', st') \<Rightarrow>
                D\<lparr>d_world := with_pool (d_world D) st', d_book := b',
                  d_turns := take n (d_turns D) @ [t'] @ drop (Suc n) (d_turns D)\<rparr>)
      else D)"
| "make L nfc cfg pcfg (Post hs body) D =
     (case check_request L cfg pcfg hs body of
        Inl e \<Rightarrow> D
      | Inr rq \<Rightarrow> D\<lparr>d_turns := d_turns D @ [Listing rq]\<rparr>)"
| "make L nfc cfg pcfg Tick D = D\<lparr>d_turns := d_turns D @ [Sweeping]\<rparr>"
| "make L nfc cfg pcfg (Release conv) D = D\<lparr>d_turns := d_turns D @ [Ending conv]\<rparr>"

lemma split_nth: "n < length xs \<Longrightarrow> xs = take n xs @ [xs ! n] @ drop (Suc n) xs"
  using id_take_nth_drop by simp

lemma make_steps: "(desk_step L nfc cfg pcfg)\<^sup>*\<^sup>* D (make L nfc cfg pcfg m D)"
proof (cases m)
  case (Act n inp)
  show ?thesis
  proof (cases "n < length (d_tasks D)")
    case True
    obtain w' ps where "task_step pcfg nfc inp (d_tasks D ! n) (d_world D) = (w', ps)" by fastforce
    with Act True desk_step.background [OF split_nth [OF True] this] show ?thesis by (simp add: r_into_rtranclp)
  qed (simp add: Act)
next
  case (Ask n inp)
  show ?thesis
  proof (cases "n < length (d_turns D) \<and> (\<exists>p. calls (d_turns D ! n) = [p])")
    case True
    then obtain p where p: "calls (d_turns D ! n) = [p]" and n: "n < length (d_turns D)" by blast
    obtain w' ps where out: "task_step pcfg nfc inp p (d_world D) = (w', ps)" by fastforce
    show ?thesis
    proof (cases ps)
      case (Cons q spawned)
      with out have out': "task_step pcfg nfc inp p (d_world D) = (w', q # spawned)" by simp
      show ?thesis
        using Ask n p out' desk_step.call [OF split_nth [OF n] p out'] by (simp add: r_into_rtranclp)
    qed (use Ask n p out in simp)
  next
    case False
    have "calls t = [] \<or> (\<exists>p. calls t = [p])" for t by (cases t) simp_all
    with False show ?thesis using Ask by (cases "n < length (d_turns D)") (auto split: list.split)
  qed
next
  case (Section n now)
  show ?thesis
  proof (cases "n < length (d_turns D)")
    case True
    obtain t' b' st' where "turn_step L nfc cfg now (d_turns D ! n) (d_book D) (pool (d_world D)) = (t', b', st')"
      by (metis prod_cases3)
    with Section True desk_step.section_of [OF split_nth [OF True] this] show ?thesis by (simp add: r_into_rtranclp)
  qed (simp add: Section)
next
  case (Post hs body)
  show ?thesis
  proof (cases "check_request L cfg pcfg hs body")
    case (Inr rq)
    then have "arrival L cfg pcfg (Listing rq)" by (auto simp: arrival_def)
    from desk_step.turn_arrives [OF this] Post Inr show ?thesis by (simp add: r_into_rtranclp)
  qed (simp add: Post)
next
  case Tick
  have "arrival L cfg pcfg Sweeping" by (simp add: arrival_def)
  from desk_step.turn_arrives [OF this] Tick show ?thesis by (simp add: r_into_rtranclp)
next
  case (Release conv)
  have "arrival L cfg pcfg (Ending conv)" by (simp add: arrival_def)
  from desk_step.turn_arrives [OF this] Release show ?thesis by (simp add: r_into_rtranclp)
qed

text \<open>A harness that talks in \<open>chat\<close>: libraries that print nothing and hash by identity.\<close>

definition sample_libs :: libs where
  "sample_libs = \<lparr>to_json = (\<lambda>_. []), to_json_pretty = (\<lambda>_. []), from_json = (\<lambda>_. None),
     from_json_slice = (\<lambda>_. Inl []), sha256 = id\<rparr>"

definition sample_book :: conversation_config where
  "sample_book = \<lparr>cc_idle_ttl_ms = 300, cc_max_leases = 2, cc_allow_implicit = False\<rparr>"

definition pinned :: headers where
  "pinned = [(ascii ''X-Session-Id'', ascii ''chat'')]"

definition said :: "string \<Rightarrow> string \<Rightarrow> jvalue" where
  "said role content = vobject [(''role'', vtext role), (''content'', vtext content)]"

definition body_of :: "jvalue list \<Rightarrow> jvalue" where
  "body_of ms = vobject [(''model'', vtext ''haiku''), (''messages'', VArray ms)]"

definition first_body :: jvalue where
  "first_body = body_of [said ''user'' ''a'']"

definition second_body :: jvalue where
  "second_body = body_of [said ''user'' ''a'', said ''assistant'' ''b'', said ''user'' ''c'']"

definition idle_desk :: desk where
  "idle_desk = \<lparr>d_world = fst sample_start, d_tasks = [], d_book = book_new, d_turns = [], d_typed = (\<lambda>_. [])\<rparr>"

definition play :: "move list \<Rightarrow> desk" where
  "play ms = fold (make sample_libs id sample_book sample_cfg) ms idle_desk"

lemma play_reachable: "desk_reachable sample_libs id sample_book sample_cfg (play ms)"
proof -
  have "desk_start idle_desk" by (auto simp: desk_start_def idle_desk_def sample_start_def pool_start_def)
  moreover have "(desk_step sample_libs id sample_book sample_cfg)\<^sup>*\<^sup>* D (fold (make sample_libs id sample_book sample_cfg) ms D)" for D
    by (induction ms arbitrary: D) (auto intro: rtranclp_trans make_steps)
  ultimately show ?thesis by (auto simp: desk_reachable_def play_def)
qed

text \<open>The ghost steers nothing, so a run can be evaluated without it.\<close>

definition without_ghost :: "desk \<Rightarrow> desk" where
  "without_ghost D = D\<lparr>d_typed := (\<lambda>_. [])\<rparr>"

definition lean_play :: "move list \<Rightarrow> desk" where
  "lean_play ms = fold (\<lambda>m D. without_ghost (make sample_libs id sample_book sample_cfg m D)) ms idle_desk"

lemma make_without_ghost:
  "without_ghost (make L nfc cfg pcfg m (without_ghost D)) = without_ghost (make L nfc cfg pcfg m D)"
  by (cases m) (auto simp: without_ghost_def split: prod.split list.split sum.split)

lemma play_lean:
  "d_turns (play ms) = d_turns (lean_play ms)" "d_book (play ms) = d_book (lean_play ms)"
  "d_world (play ms) = d_world (lean_play ms)"
proof -
  have "without_ghost (fold (make sample_libs id sample_book sample_cfg) ms D) =
    fold (\<lambda>m D. without_ghost (make sample_libs id sample_book sample_cfg m D)) ms (without_ghost D)" for D
    by (induction ms arbitrary: D) (simp_all add: make_without_ghost)
  from this [of idle_desk] have "without_ghost (play ms) = lean_play ms"
    by (simp add: play_def lean_play_def) (simp add: without_ghost_def idle_desk_def)
  from this [symmetric] show "d_turns (play ms) = d_turns (lean_play ms)" "d_book (play ms) = d_book (lean_play ms)"
    "d_world (play ms) = d_world (lean_play ms)"
    by (simp_all add: without_ghost_def)
qed

text \<open>The first turn to its answer, and the second, which continues it, up to its turn.\<close>

definition first_turn :: "move list" where
  "first_turn = [Post pinned first_body, Section 0 5, Section 0 5] @ replicate 14 (Ask 0 sample_input) @ [Section 0 5, Section 0 5]"

definition second_turn :: "move list" where
  "second_turn = [Post pinned second_body, Section 1 6, Section 1 6, Ask 1 sample_input, Ask 1 sample_input]"

definition told_desk :: desk where
  "told_desk = play (first_turn @ second_turn)"

definition leased_desk :: desk where
  "leased_desk = play first_turn"

definition continuing :: "turn \<Rightarrow> bool" where
  "continuing t = (case t of Calling rq k sy p \<Rightarrow>
     (case sy of Primer \<Rightarrow> False | Suffix n \<Rightarrow>
        (case p of AtHandle cl s \<Rightarrow> (case cl of Sticky conv j \<Rightarrow> n = 1 \<and> s = 0 | _ \<Rightarrow> False) | _ \<Rightarrow> False)) | _ \<Rightarrow> False)"

lemma continuing_iff: "continuing t \<longleftrightarrow> (\<exists>rq k conv j. t = Calling rq k (Suffix 1) (AtHandle (Sticky conv j) 0))"
  by (auto simp: continuing_def split: turn.splits say.splits pc.splits caller.splits)

text \<open>Of the ghost a run needs only the messages told to the first slot.\<close>

definition told :: "desk \<Rightarrow> jvalue list" where
  "told D = concat (map told_messages (d_typed D 0))"

fun says :: "move \<Rightarrow> desk \<Rightarrow> utterance" where
  "says (Ask n inp) D = (if n < length (d_turns D) then utterance_of (d_turns D ! n) else None)"
| "says m D = None"

definition told_next :: "world \<Rightarrow> world \<Rightarrow> utterance \<Rightarrow> jvalue list \<Rightarrow> jvalue list" where
  "told_next w w' u l =
     (if heard w' 0 = heard w 0 then l else if heard w' 0 = [] then [] else l @ told_messages u)"

definition telling :: "move \<Rightarrow> desk \<times> jvalue list \<Rightarrow> desk \<times> jvalue list" where
  "telling m x = (case x of (D, l) \<Rightarrow>
     (case without_ghost (make sample_libs id sample_book sample_cfg m D) of
        D' \<Rightarrow> (D', told_next (d_world D) (d_world D') (says m D) l)))"

definition told_play :: "move list \<Rightarrow> desk \<times> jvalue list" where
  "told_play ms = fold telling ms (idle_desk, [])"

lemma make_told:
  "told (make L nfc cfg pcfg m D) = told_next (d_world D) (d_world (make L nfc cfg pcfg m D)) (says m D) (told D)"
  by (cases m) (auto simp: told_def told_next_def hear_def split: prod.split list.split sum.split)

lemma telling_step:
  "telling m (without_ghost D, told D) =
     (without_ghost (make sample_libs id sample_book sample_cfg m D), told (make sample_libs id sample_book sample_cfg m D))"
proof -
  let ?D = "make sample_libs id sample_book sample_cfg m D"
  have "d_world (without_ghost ?D) = d_world ?D" "d_world (without_ghost D) = d_world D"
    "says m (without_ghost D) = says m D"
    by (simp_all add: without_ghost_def) (cases m; simp)
  then show ?thesis by (simp add: telling_def make_without_ghost make_told)
qed

lemma play_told: "d_turns (play ms) = d_turns (fst (told_play ms))" "told (play ms) = snd (told_play ms)"
proof -
  have "fold telling ms (without_ghost D, told D) =
    (without_ghost (fold (make sample_libs id sample_book sample_cfg) ms D), told (fold (make sample_libs id sample_book sample_cfg) ms D))" for D
    by (induction ms arbitrary: D) (simp_all add: telling_step)
  moreover have "without_ghost idle_desk = idle_desk" "told idle_desk = []"
    by (simp_all add: without_ghost_def told_def idle_desk_def)
  ultimately have "told_play ms = (without_ghost (play ms), told (play ms))"
    unfolding told_play_def play_def by metis
  then show "d_turns (play ms) = d_turns (fst (told_play ms))" "told (play ms) = snd (told_play ms)"
    by (simp_all add: without_ghost_def)
qed

definition chat_messages :: "jvalue list" where
  "chat_messages = [said ''user'' ''a'', said ''assistant'' ''b'', said ''user'' ''c'']"

lemma chat_unambiguous: "unambiguous sample_libs chat_messages"
  by code_simp

lemma unambiguous_subset: "unambiguous L ms \<Longrightarrow> set ms' \<subseteq> set ms \<Longrightarrow> unambiguous L ms'"
  by (simp add: unambiguous_def subset_iff)

definition continues_chat :: "desk \<times> jvalue list \<Rightarrow> bool" where
  "continues_chat x = (case x of (D, l) \<Rightarrow> l = take 1 chat_messages \<and> list_ex (\<lambda>t. continuing t
     \<and> (case utterance_of t of None \<Rightarrow> False | Some (rq, sy) \<Rightarrow> messages_in rq = chat_messages)) (d_turns D))"

theorem a_cell_is_told_each_message_once_witness:
  "\<exists>rq k conv j. Calling rq k (Suffix 1) (AtHandle (Sticky conv j) 0) \<in> set (d_turns told_desk)
     \<and> agrees conv (rq_next rq) (d_typed told_desk 0 @ [Some (rq, Suffix 1)])
     \<and> messages_in rq = chat_messages \<and> told told_desk = take 1 chat_messages
     \<and> map (wording sample_libs) (concat (map told_messages (d_typed told_desk 0 @ [Some (rq, Suffix 1)])))
         = map (wording sample_libs) (messages_in rq)"
proof -
  have c: "continues_chat (told_play (first_turn @ second_turn))" by code_simp
  obtain D l where tp: "told_play (first_turn @ second_turn) = (D, l)" by fastforce
  have D: "d_turns told_desk = d_turns D" "told told_desk = l"
    unfolding told_desk_def by (simp_all only: play_told tp fst_conv snd_conv)
  from c tp D obtain rq k conv j where t: "Calling rq k (Suffix 1) (AtHandle (Sticky conv j) 0) \<in> set (d_turns told_desk)"
    and ms: "messages_in rq = chat_messages" "told told_desk = take 1 chat_messages"
    by (auto simp: continues_chat_def list_ex_iff continuing_iff)
  have "unambiguous sample_libs (concat (map told_messages (d_typed told_desk 0 @ [Some (rq, Suffix 1)])) @ messages_in rq)"
    using ms by (intro unambiguous_subset [OF chat_unambiguous]) (auto simp: told_def chat_messages_def)
  then show ?thesis
    using a_cell_is_told_each_message_once [OF sample_cfg_served play_reachable t [unfolded told_desk_def]] t ms
    unfolding told_desk_def by blast
qed

theorem a_lease_describes_its_cell_witness:
  "\<exists>l. bm_get (b_live (d_book leased_desk)) ''chat'' = Some l \<and> length (fp_messages (l_fingerprint l)) = 1
     \<and> agrees ''chat'' (l_fingerprint l) (d_typed leased_desk 0)"
proof -
  have "map_option (\<lambda>l. l_in_flight l \<or> length (fp_messages (l_fingerprint l)) \<noteq> 1)
      (bm_get (b_live (d_book leased_desk)) ''chat'') = Some False"
    unfolding leased_desk_def play_lean by code_simp
  then obtain l where l: "bm_get (b_live (d_book leased_desk)) ''chat'' = Some l" "\<not> l_in_flight l" "length (fp_messages (l_fingerprint l)) = 1"
    by auto
  have "map_option conversation_id (bm_get (instances (pool (d_world leased_desk))) 0) = Some (Some ''chat'')"
    unfolding leased_desk_def play_lean by code_simp
  then obtain i where i: "bm_get (instances (pool (d_world leased_desk))) 0 = Some i" "conversation_id i = Some ''chat''"
    by auto
  from a_lease_describes_its_cell [OF sample_cfg_served play_reachable l(1,2) [unfolded leased_desk_def] i [unfolded leased_desk_def]] l
  show ?thesis unfolding leased_desk_def by blast
qed

theorem leases_stay_within_the_cap_witness: "occupied (d_book leased_desk) \<le> 2"
  using leases_stay_within_the_cap [OF sample_cfg_served _ play_reachable [of first_turn]]
  by (simp add: leased_desk_def sample_book_def u32_max_def)

section \<open>A sweep can forget a live lease\<close>

text \<open>
  \<open>sweep_expired\<close> (and \<open>complete\<close>) list the pool's leases before they lock the book. A conversation that is
  primed in between is dropped as an orphan although its instance is leased; its next request is then
  refused as busy, and the refusal releases the instance.
\<close>

definition swept_too_late :: "move list" where
  "swept_too_late = [Post pinned first_body, Section 0 5, Section 0 5, Ask 0 sample_input, Ask 0 sample_input,
     Tick, Section 1 5] @ replicate 12 (Ask 0 sample_input) @ [Section 0 5, Section 0 5, Section 1 5]"

definition forgotten :: "desk \<Rightarrow> bool" where
  "forgotten D \<longleftrightarrow> bm_get (b_live (d_book D)) ''chat'' = None
     \<and> map_option (\<lambda>i. (state i, conversation_id i)) (bm_get (instances (pool (d_world D))) 0) = Some (Leased, Some ''chat'')"

lemma sweep_forgets_a_live_lease: "forgotten (play swept_too_late)"
proof -
  have "forgotten (lean_play swept_too_late)" by code_simp
  then show ?thesis by (simp only: forgotten_def play_lean)
qed

lemma next_request_is_refused:
  assumes "forgotten D"
  shows "\<exists>e. claim_begin ''chat'' (pool (d_world D)) = Inl e \<and> code e = SessionBusy"
  using assms by (auto simp: forgotten_def claim_begin_def list_ex_iff set_bm_values holds_turn_or_lease_def)

end
