(* ===== verification/Http.thy ===== *)
theory Http
  imports Conversation
begin

text \<open>
  The HTTP face of the Messages facade, the rest of \<open>src/bin/pmuxd/src/messages_http.rs\<close>: reading a request,
  routing it, and rendering the answer. The sockets are inputs: a connection is the list of what its reads
  return. \<open>handle_connection\<close> is split at the two calls of the book it awaits: \<open>route\<close> up to them,
  \<open>released\<close> and \<open>completed\<close> after them.
\<close>

definition MAX_BODY_BYTES :: nat where
  "MAX_BODY_BYTES = 2 * 1024 * 1024"

section \<open>Reading a request\<close>

text \<open>The outcome of one \<open>timed_read\<close>: an error, or the bytes read, none of them at the end of the stream.\<close>

type_synonym reads = "(string + bytes) list"

definition find_double_crlf :: "bytes \<Rightarrow> nat option" where
  "find_double_crlf buf = map_option (\<lambda>(a, b). length a) (split_once [13, 10, 13, 10] buf)"

text \<open>\<open>None\<close>: the connection is still waiting for its next read.\<close>

fun read_headers :: "bytes \<Rightarrow> reads \<Rightarrow> (string + bytes \<times> bytes \<times> reads) option" where
  "read_headers buf [] = None"
| "read_headers buf (Inl e # rs) = Some (Inl e)"
| "read_headers buf (Inr got # rs) =
     (if got = [] then Some (Inl ''client closed during headers'')
      else let buf' = buf @ got
           in case find_double_crlf buf' of
                Some index \<Rightarrow> Some (Inr (take (index + 4) buf', drop (index + 4) buf', rs))
              | None \<Rightarrow> if length buf' > 64 * 1024 then Some (Inl ''headers too large'') else read_headers buf' rs)"

fun read_body :: "nat \<Rightarrow> bytes \<Rightarrow> reads \<Rightarrow> (string + bytes) option" where
  "read_body n body [] = (if length body < n then None else Some (Inr (take n body)))"
| "read_body n body (r # rs) =
     (if length body < n then
        (case r of
           Inl e \<Rightarrow> Some (Inl e)
         | Inr got \<Rightarrow> if got = [] then Some (Inl ''client closed before Content-Length'')
                     else read_body n (body @ got) rs)
      else Some (Inr (take n body)))"

text \<open>\<open>str::split\<close> at CRLF, and the next word of \<open>split_whitespace\<close> with what follows it.\<close>

function lines_of :: "utext \<Rightarrow> utext list" where
  "lines_of t = (case split_once [13, 10] t of None \<Rightarrow> [t] | Some (a, b) \<Rightarrow> a # lines_of b)"
  by pat_completeness auto
termination
  by (relation "measure length") (auto dest: split_once_shorter)

declare lines_of.simps [simp del]

definition next_word :: "utext \<Rightarrow> utext \<times> utext" where
  "next_word t = (let u = dropWhile is_whitespace t
     in (takeWhile (\<lambda>c. \<not> is_whitespace c) u, dropWhile (\<lambda>c. \<not> is_whitespace c) u))"

fun parse_headers :: "utext list \<Rightarrow> headers" where
  "parse_headers [] = []"
| "parse_headers (line # rest) =
     (if line = [] then []
      else case split_once [58] line of
        None \<Rightarrow> parse_headers rest
      | Some (name, val) \<Rightarrow> (trim name, trim val) # parse_headers rest)"

definition parse_request_line_and_headers :: "utext \<Rightarrow> string + utext \<times> utext \<times> headers" where
  "parse_request_line_and_headers t =
     (case lines_of t of
        [] \<Rightarrow> Inl ''malformed request line''
      | request_line # rest \<Rightarrow>
          (case next_word request_line of (method, after) \<Rightarrow>
           case next_word after of (path, _) \<Rightarrow>
             if method = [] \<or> path = [] then Inl ''malformed request line''
             else Inr (method, path, parse_headers rest)))"

section \<open>Routing\<close>

definition has_any_auth :: "headers \<Rightarrow> bool" where
  "has_any_auth hs = list_ex (\<lambda>(name, val). trim val \<noteq> []
     \<and> (eq_ignore_ascii_case (utf8_string name) ''x-api-key'' \<or> eq_ignore_ascii_case (utf8_string name) ''authorization'')) hs"

definition is_messages_path :: "utext \<Rightarrow> bool" where
  "is_messages_path path \<longleftrightarrow>
     before_char 63 path \<in> set [ascii ''/v1/messages'', ascii ''/messages'', ascii ''/v1/v1/messages'']"

definition is_models_path :: "utext \<Rightarrow> bool" where
  "is_models_path path \<longleftrightarrow>
     before_char 63 path \<in> set [ascii ''/v1/models'', ascii ''/models'', ascii ''/v1/v1/models'']"

definition is_capabilities_path :: "utext \<Rightarrow> bool" where
  "is_capabilities_path path \<longleftrightarrow>
     before_char 63 path \<in> set [ascii ''/v1/capabilities'', ascii ''/capabilities'', ascii ''/v1/v1/capabilities'']"

definition release_conversation_id :: "utext \<Rightarrow> utext \<Rightarrow> utext option" where
  "release_conversation_id method path =
     (if method \<noteq> ascii ''POST'' \<and> method \<noteq> ascii ''DELETE'' then None
      else find_map (\<lambda>prefix.
             Option.bind (strip_prefix prefix (before_char 63 path)) (\<lambda>rest.
             Option.bind (strip_suffix (ascii ''/release'') rest) (\<lambda>i.
             if is_ok (require_path_safe_conversation_id i) then Some i else None)))
           [ascii ''/v1/conversations/'', ascii ''/v1/v1/conversations/''])"

definition messages_model_ids :: "string list" where
  "messages_model_ids = concat (map (\<lambda>e.
     if efforts e = [] then [canonical e] else map (\<lambda>a. canonical e @ ''-'' @ argv a) (efforts e)) MODEL_TABLE)"

definition models_document :: jvalue where
  "models_document = vobject
     [(''object'', vtext ''list''),
      (''data'', VArray (map (\<lambda>i. vobject [(''type'', vtext ''model''), (''id'', vtext i)]) messages_model_ids)),
      (''has_more'', VBool False)]"

definition capabilities_document :: "bool \<Rightarrow> jvalue" where
  "capabilities_document allow_implicit = vobject
     [(''pin_headers'', VArray (map vtext [''x-pmux-conversation'', ''x-session-id'', ''x-session-affinity''])),
      (''account_header'', vtext ''x-pmux-account''),
      (''release'', vtext ''POST /v1/conversations/{id}/release''),
      (''stream'', vtext ''post_commit''),
      (''images'', VBool False), (''cache_control_on_tools'', VBool False), (''temperature'', VBool False),
      (''effort'', vtext ''model_id_suffix_or_output_config''),
      (''effort_sources'', VArray
         [vtext ''model_id_suffix'', vtext ''output_config.effort'',
          VString (ascii ''thinking.type != disabled '' @ [8594] @ ascii '' high'')]),
      (''implicit_conversation'', VBool allow_implicit),
      (''models'', vtext ''GET /v1/models'')]"

section \<open>Responses\<close>

text \<open>An \<open>ErrorBody\<close> keeps the details of the wire protocol, so its document is a \<open>json\<close>.\<close>

datatype response_body = Document jvalue | Dispatch json | Events utext

record response =
  r_status :: nat
  r_content_type :: string
  r_body :: response_body
  r_extra :: "(string \<times> string) list"

definition json_response :: "nat \<Rightarrow> jvalue \<Rightarrow> response" where
  "json_response status v =
     \<lparr>r_status = status, r_content_type = ''application/json'', r_body = Document v, r_extra = []\<rparr>"

definition error_document :: "string \<Rightarrow> utext \<Rightarrow> jvalue" where
  "error_document ty m = vobject
     [(''type'', vtext ''error''), (''error'', vobject [(''type'', vtext ty), (''message'', VString m)])]"

definition NOT_FOUND_MESSAGE :: string where
  "NOT_FOUND_MESSAGE =
     ''GET /v1/models, GET /v1/capabilities, POST /v1/messages, or POST /v1/conversations/{id}/release''"

definition dispatch_error_status :: "error_body \<Rightarrow> nat" where
  "dispatch_error_status e = (if code e = SessionBusy then 409 else 400)"

definition dispatch_error_body :: "error_body \<Rightarrow> json" where
  "dispatch_error_body e = json_object
     [(''type'', JString ''error''),
      (''error'', json_object
         [(''type'', JString ''api_error''), (''message'', JString (message e)),
          (''details'', details e), (''retryable'', JBool (retryable e))])]"

definition dispatch_error :: "error_body \<Rightarrow> response" where
  "dispatch_error e =
     \<lparr>r_status = dispatch_error_status e, r_content_type = ''application/json'',
      r_body = Dispatch (dispatch_error_body e), r_extra = []\<rparr>"

text \<open>What a connection does once its headers are read.\<close>

datatype dispatch =
    Respond response
  | Abort string
  | Waiting
  | AskRelease utext
  | AskComplete headers jvalue bool

text \<open>\<open>str::parse::<usize>\<close>: an optional plus sign, then decimal digits of a value that fits.\<close>

definition parse_usize :: "utext \<Rightarrow> nat option" where
  "parse_usize t =
     (let ds = (case t of c # cs \<Rightarrow> if c = 43 \<and> cs \<noteq> [] then cs else t | [] \<Rightarrow> [])
      in if list_all (\<lambda>c. 48 \<le> c \<and> c \<le> 57) ds then parse_u64 ds else None)"

definition content_length :: "headers \<Rightarrow> nat" where
  "content_length hs =
     unwrap_or 0 (Option.bind (header hs ''content-length'') parse_usize)"

definition route_body :: "libs \<Rightarrow> headers \<Rightarrow> bytes \<Rightarrow> dispatch" where
  "route_body L hs body =
     (case from_json_slice L body of
        Inl e \<Rightarrow> Respond (json_response 400 (error_document ''invalid_request_error'' e))
      | Inr request_json \<Rightarrow>
          (case reject_unsupported request_json of
             Inl m \<Rightarrow> Respond (json_response 400 (error_document ''invalid_request_error'' (ascii m)))
           | Inr _ \<Rightarrow>
               AskComplete hs request_json (unwrap_or False (Option.bind (vget request_json ''stream'') as_bool))))"

definition route :: "libs \<Rightarrow> bool \<Rightarrow> utext \<Rightarrow> bytes \<Rightarrow> reads \<Rightarrow> dispatch" where
  "route L allows_implicit header_text rest rs =
     (case parse_request_line_and_headers header_text of
        Inl e \<Rightarrow> Abort e
      | Inr (method, path, hs) \<Rightarrow>
          if \<not> has_any_auth hs \<and> method \<noteq> ascii ''OPTIONS'' then
            Respond (json_response 401
              (error_document ''authentication_error'' (ascii ''x-api-key or Authorization required'')))
          else case release_conversation_id method path of
            Some conv \<Rightarrow> AskRelease conv
          | None \<Rightarrow>
              if method = ascii ''GET'' \<and> is_models_path path then Respond (json_response 200 models_document)
              else if method = ascii ''GET'' \<and> is_capabilities_path path
              then Respond (json_response 200 (capabilities_document allows_implicit))
              else if method \<noteq> ascii ''POST'' \<or> \<not> is_messages_path path
              then Respond (json_response 404 (error_document ''not_found_error'' (ascii NOT_FOUND_MESSAGE)))
              else let n = content_length hs
                   in if n = 0 \<or> n > MAX_BODY_BYTES
                      then Respond (json_response 413
                        (error_document ''invalid_request_error'' (ascii ''body length out of range'')))
                      else case read_body n rest rs of
                        None \<Rightarrow> Waiting
                      | Some (Inl e) \<Rightarrow> Abort e
                      | Some (Inr body) \<Rightarrow> route_body L hs body)"

definition released :: "utext \<Rightarrow> error_body + unit \<Rightarrow> response" where
  "released conv r =
     (case r of
        Inl e \<Rightarrow> dispatch_error e
      | Inr _ \<Rightarrow> json_response 200 (vobject [(''released'', VBool True), (''conversation'', VString conv)]))"

section \<open>The Messages response\<close>

fun stop_reason_name :: "Wire.stop_reason option \<Rightarrow> string" where
  "stop_reason_name None = ''end_turn''"
| "stop_reason_name (Some r) =
     (case sr_kind r of stop_reason_kind.MaxTokens \<Rightarrow> ''max_tokens'' | stop_reason_kind.Refusal \<Rightarrow> ''refusal'' | _ \<Rightarrow> ''end_turn'')"

definition vnum :: "u64 \<Rightarrow> jvalue" where
  "vnum n = VNumber (PosInt n)"

definition completion_stop_reason :: "stateless_result \<Rightarrow> parsed_completion \<Rightarrow> string" where
  "completion_stop_reason result completion =
     (if pc_tool_calls completion \<noteq> [] then ''tool_use'' else stop_reason_name (res_stop_reason result))"

definition content_of :: "parsed_completion \<Rightarrow> jvalue list" where
  "content_of completion =
     (let uses = map (\<lambda>c. vobject [(''type'', vtext ''tool_use''), (''id'', VString (tc_id c)),
                        (''name'', VString (tc_name c)), (''input'', tc_input c)]) (pc_tool_calls completion)
      in uses @ (if pc_text completion \<noteq> [] \<or> uses = []
                 then [vobject [(''type'', vtext ''text''), (''text'', VString (pc_text completion))]] else []))"

text \<open>\<open>message_id\<close> reads the clock; the id is an argument.\<close>

definition anthropic_message ::
  "utext \<Rightarrow> utext \<Rightarrow> stateless_result \<Rightarrow> parsed_completion \<Rightarrow> jvalue" where
  "anthropic_message msg_id model result completion =
     (let u = main (res_usage result)
      in vobject
        [(''id'', VString msg_id), (''type'', vtext ''message''), (''role'', vtext ''assistant''),
         (''model'', VString model), (''content'', VArray (content_of completion)),
         (''stop_reason'', vtext (completion_stop_reason result completion)), (''stop_sequence'', VNull),
         (''usage'', vobject
            [(''input_tokens'', vnum (input_tokens u)), (''output_tokens'', vnum (output_tokens u)),
             (''cache_creation_input_tokens'', vnum (cache_creation_input_tokens u)),
             (''cache_read_input_tokens'', vnum (cache_read_input_tokens u))])])"

definition sse_event :: "libs \<Rightarrow> string \<Rightarrow> jvalue \<Rightarrow> utext" where
  "sse_event L event data =
     ascii ''event: '' @ ascii event @ [10] @ ascii ''data: '' @ to_json L data @ [10, 10]"

text \<open>The three events of one content block.\<close>

definition block_events :: "nat \<Rightarrow> jvalue \<Rightarrow> jvalue \<Rightarrow> (string \<times> jvalue) list" where
  "block_events index content_block delta =
     [(''content_block_start'', vobject [(''type'', vtext ''content_block_start''), (''index'', vnum index),
         (''content_block'', content_block)]),
      (''content_block_delta'', vobject [(''type'', vtext ''content_block_delta''), (''index'', vnum index),
         (''delta'', delta)]),
      (''content_block_stop'', vobject [(''type'', vtext ''content_block_stop''), (''index'', vnum index)])]"

definition tool_events :: "libs \<Rightarrow> nat \<Rightarrow> tool_call \<Rightarrow> (string \<times> jvalue) list" where
  "tool_events L index c =
     block_events index
       (vobject [(''type'', vtext ''tool_use''), (''id'', VString (tc_id c)), (''name'', VString (tc_name c)),
          (''input'', vobject [])])
       (vobject [(''type'', vtext ''input_json_delta''), (''partial_json'', VString (to_json L (tc_input c)))])"

definition sse_events :: "libs \<Rightarrow> jvalue \<Rightarrow> parsed_completion \<Rightarrow> (string \<times> jvalue) list" where
  "sse_events L msg completion =
     (let usage = unwrap_or (vobject [(''input_tokens'', vnum 0), (''output_tokens'', vnum 0),
            (''cache_creation_input_tokens'', vnum 0), (''cache_read_input_tokens'', vnum 0)]) (vget msg ''usage'');
          count = (\<lambda>key. unwrap_or (vnum 0) (vget usage key));
          calls = pc_tool_calls completion
      in [(''message_start'', vobject [(''type'', vtext ''message_start''), (''message'', vobject
             [(''id'', VString (unwrap_or (ascii ''msg_0'') (vget_str msg ''id''))), (''type'', vtext ''message''),
              (''role'', vtext ''assistant''), (''content'', VArray []),
              (''model'', unwrap_or (vtext '''') (vget msg ''model'')),
              (''stop_reason'', VNull), (''stop_sequence'', VNull),
              (''usage'', vobject
                 [(''input_tokens'', count ''input_tokens''), (''output_tokens'', vnum 1),
                  (''cache_creation_input_tokens'', count ''cache_creation_input_tokens''),
                  (''cache_read_input_tokens'', count ''cache_read_input_tokens'')])])])] @
         concat (map (\<lambda>(index, c). tool_events L index c) (enumerate 0 calls)) @
         (if pc_text completion \<noteq> [] \<or> calls = []
          then block_events (length calls) (vobject [(''type'', vtext ''text''), (''text'', vtext '''')])
            (vobject [(''type'', vtext ''text_delta''), (''text'', VString (pc_text completion))])
          else []) @
         [(''message_delta'', vobject [(''type'', vtext ''message_delta''),
             (''delta'', vobject [(''stop_reason'', VString (unwrap_or (ascii ''end_turn'') (vget_str msg ''stop_reason''))),
                (''stop_sequence'', VNull)]),
             (''usage'', vobject [(''output_tokens'', count ''output_tokens'')])]),
          (''message_stop'', vobject [(''type'', vtext ''message_stop'')])])"

definition encode_sse :: "libs \<Rightarrow> jvalue \<Rightarrow> parsed_completion \<Rightarrow> utext" where
  "encode_sse L msg completion = concat (map (\<lambda>(event, data). sse_event L event data) (sse_events L msg completion))"

definition lease_headers :: "lease_turn \<Rightarrow> (string \<times> string) list" where
  "lease_headers lt =
     [(''x-pmux-conversation'', lt_conversation_id lt), (''x-pmux-cell'', lt_cell lt),
      (''x-pmux-lease'', lease_kind_as_str (lt_kind lt)), (''x-pmux-idle-ttl-ms'', to_string (lt_idle_ttl_ms lt))]"

definition completed :: "libs \<Rightarrow> utext \<Rightarrow> bool \<Rightarrow> error_body + lease_turn \<Rightarrow> response" where
  "completed L msg_id stream_wanted r =
     (case r of
        Inl e \<Rightarrow> dispatch_error e
      | Inr lt \<Rightarrow>
          let completion = parse_completion L (res_text (lt_result lt));
              msg = anthropic_message msg_id (lt_requested_model lt) (lt_result lt) completion
          in if stream_wanted
             then \<lparr>r_status = 200, r_content_type = ''text/event-stream'',
                   r_body = Events (encode_sse L msg completion), r_extra = lease_headers lt\<rparr>
             else \<lparr>r_status = 200, r_content_type = ''application/json'', r_body = Document msg,
                   r_extra = lease_headers lt\<rparr>)"


section \<open>Every pin can be released\<close>

lemma next_word_word:
  assumes "list_all (\<lambda>c. \<not> is_whitespace c) wd" "wd \<noteq> []" "is_whitespace c"
  shows "next_word (wd @ c # rest) = (wd, c # rest)"
proof -
  obtain a as where w: "wd = a # as" using assms(2) by (cases wd) auto
  have "dropWhile is_whitespace (wd @ c # rest) = wd @ c # rest" using assms(1) w by simp
  moreover have "takeWhile (\<lambda>c. \<not> is_whitespace c) (wd @ c # rest) = wd"
    "dropWhile (\<lambda>c. \<not> is_whitespace c) (wd @ c # rest) = c # rest"
    using assms(1,3) by (auto simp: list_all_iff takeWhile_append takeWhile_tail dropWhile_append3 intro: dropWhile_append)
  ultimately show ?thesis by (simp add: next_word_def)
qed

lemma next_word_space: "is_whitespace c \<Longrightarrow> next_word (c # rest) = next_word rest"
  by (simp add: next_word_def)

lemma strip_suffix_append: "strip_suffix p (s @ p) = Some s"
  by (simp add: strip_suffix_def strip_prefix_Some map_option_case split: option.split)

lemma trim_id:
  assumes "list_all (\<lambda>c. \<not> is_whitespace c) t"
  shows "trim t = t"
proof -
  have id: "dropWhile is_whitespace xs = xs" if "list_all (\<lambda>c. \<not> is_whitespace c) xs" for xs
    using that by (cases xs) auto
  have "dropWhile is_whitespace (rev t) = rev t" by (rule id) (use assms in \<open>simp add: list_all_iff\<close>)
  then show ?thesis by (simp add: trim_def trim_end_matches_def id [OF assms])
qed

lemma path_safe_ok:
  assumes "require_path_safe_conversation_id raw = Inr i"
  shows "i \<noteq> []" "list_all (\<lambda>c. c \<noteq> 47 \<and> c \<noteq> 63 \<and> c \<noteq> 35 \<and> \<not> is_whitespace c) i"
    "require_path_safe_conversation_id i = Inr i"
proof -
  show i: "i \<noteq> []" and safe: "list_all (\<lambda>c. c \<noteq> 47 \<and> c \<noteq> 63 \<and> c \<noteq> 35 \<and> \<not> is_whitespace c) i"
    using assms by (auto simp: require_path_safe_conversation_id_def Let_def list_ex_iff list_all_iff split: if_splits)
  have "trim i = i" using safe by (intro trim_id) (simp add: list_all_iff)
  then show "require_path_safe_conversation_id i = Inr i"
    using i safe by (auto simp: require_path_safe_conversation_id_def list_ex_iff list_all_iff)
qed

lemma split_once_first: "c \<notin> set a \<Longrightarrow> split_once (c # p) (a @ (c # p) @ b) = Some (a, b)"
proof (induction a)
  case Nil
  have "strip_prefix (c # p) (c # p @ b) = Some b" by (simp add: strip_prefix_Some)
  then show ?case by simp
next
  case (Cons d a)
  then have "strip_prefix (c # p) (d # a @ (c # p) @ b) = None" by simp
  moreover have "split_once (c # p) (a @ (c # p) @ b) = Some (a, b)" using Cons by simp
  ultimately show ?case by (simp only: append_Cons split_once.simps option.case) simp
qed

lemma lines_of_first:
  assumes "13 \<notin> set line"
  shows "lines_of (line @ [13, 10] @ others) = line # lines_of others"
  using split_once_first [OF assms, of "[10]" others] by (subst lines_of.simps) simp

definition release_path :: "utext \<Rightarrow> utext" where
  "release_path i = ascii ''/v1/conversations/'' @ i @ ascii ''/release''"

lemma release_path_safe:
  assumes "list_all (\<lambda>c. c \<noteq> 47 \<and> c \<noteq> 63 \<and> c \<noteq> 35 \<and> \<not> is_whitespace c) i"
  shows "list_all (\<lambda>c. c \<noteq> 63 \<and> \<not> is_whitespace c) (release_path i)" "release_path i \<noteq> []"
  using assms by (auto simp: release_path_def ascii_def list_all_iff is_whitespace_def)

lemma release_path_routes:
  assumes "require_path_safe_conversation_id raw = Inr i"
  shows "release_conversation_id (ascii ''POST'') (release_path i) = Some i"
proof -
  note s = path_safe_ok [OF assms]
  have "before_char 63 (release_path i) = release_path i"
    using release_path_safe(1) [OF s(2)] by (auto simp: before_char_def list_all_iff takeWhile_eq_all_conv)
  moreover have "strip_prefix (ascii ''/v1/conversations/'') (release_path i) = Some (i @ ascii ''/release'')"
    by (simp add: release_path_def strip_prefix_Some)
  ultimately show ?thesis
    using s(3) by (simp add: release_conversation_id_def strip_suffix_append)
qed

lemma utf8_string_ascii:
  assumes "list_all (\<lambda>c. of_char c < (128 :: nat)) t"
  shows "utf8_string (ascii t) = t"
  using assms
proof (induction t)
  case (Cons c t)
  have "unat (word_of_nat (of_char c) :: 8 word) = of_char c"
    using Cons.prems by (simp add: unat_of_nat take_bit_eq_mod unsigned_of_nat)
  with Cons show ?case
    by (simp add: utf8_string_def ascii_def utf8_def utf8_char_def)
qed (simp add: utf8_string_def ascii_def utf8_def)

lemma hex_digits_plain:
  assumes "c \<in> set (hex bs)"
  shows "of_char c < (128 :: nat) \<and> of_char c \<noteq> (47 :: nat) \<and> of_char c \<noteq> (63 :: nat) \<and> of_char c \<noteq> (35 :: nat)
    \<and> \<not> is_whitespace (of_char c)"
proof -
  obtain d where d: "d < 16" "c = hex_digit d"
  proof -
    have "unat (b :: 8 word) div 16 < 16" for b using unsigned_less [of b, where 'a = nat] by simp
    moreover obtain b where "c = hex_digit (unat b div 16) \<or> c = hex_digit (unat (b :: 8 word) mod 16)"
      using assms by (auto simp: hex_def)
    ultimately show ?thesis using that [of "unat b div 16"] that [of "unat b mod 16"] by auto
  qed
  then have "d \<in> set [0..<16]" by simp
  then show ?thesis unfolding d(2) by (auto simp: hex_digit_def is_whitespace_def upt_rec)
qed

text \<open>C32: Every conversation a client can pin, it can release. Whatever the id of a conversation came from,
  a header or the hash of its first message, a request to its release path is routed to the release of
  exactly that conversation: nothing in the id is lost to the request line, the query or the path.\<close>
theorem every_pin_can_be_released:
  assumes "conversation_id_from L hs body model effort acct implicit = Inr conv"
    and "\<And>bs. length (sha256 L bs) = 32" and "has_any_auth (parse_headers (lines_of others))"
  shows "\<exists>i. conv = utf8_string i \<and>
    route L implicit (ascii ''POST '' @ release_path i @ ascii '' HTTP/1.1'' @ [13, 10] @ others) rest rs = AskRelease i"
proof -
  obtain raw i where i: "require_path_safe_conversation_id raw = Inr i" "conv = utf8_string i"
  proof (cases "explicit_conversation_id hs")
    case (Some raw)
    then show ?thesis using assms(1) that by (auto simp: conversation_id_from_def bind_r_Inr)
  next
    case None
    then obtain t where conv: "conv = sha_hex L t"
      using assms(1) by (auto simp: conversation_id_from_def implicit_conversation_id_def Let_def split: if_splits)
    let ?i = "ascii conv"
    have plain: "list_all (\<lambda>c. of_char c < (128 :: nat)) conv"
      using hex_digits_plain by (auto simp: conv sha_hex_def list_all_iff)
    have ws: "list_all (\<lambda>c. \<not> is_whitespace c) ?i" "\<not> list_ex (\<lambda>c. c = 47 \<or> c = 63 \<or> c = 35) ?i"
      using hex_digits_plain by (auto simp: conv sha_hex_def list_all_iff list_ex_iff ascii_def)
    have ne: "conv \<noteq> []"
      using assms(2) [of "utf8 t"] by (cases "sha256 L (utf8 t)") (auto simp: conv sha_hex_def hex_def)
    have "require_path_safe_conversation_id ?i = Inr ?i"
    proof -
      have "?i \<noteq> []" using ne by (simp add: ascii_def)
      moreover have "\<not> list_ex is_whitespace ?i" using ws(1) by (simp add: list_all_iff list_ex_iff)
      ultimately show ?thesis
        using ws(2) by (simp add: require_path_safe_conversation_id_def Let_def trim_id [OF ws(1)])
    qed
    then show ?thesis using that [of ?i ?i] utf8_string_ascii [OF plain] by simp
  qed
  note s = path_safe_ok [OF i(1)] and p = release_path_safe [OF path_safe_ok(2) [OF i(1)]]
  let ?line = "ascii ''POST '' @ release_path i @ ascii '' HTTP/1.1''"
  have "\<not> is_whitespace c" if "c \<in> set (release_path i)" for c using p(1) that by (simp add: list_all_iff)
  from this [of 13] have "13 \<notin> set (release_path i)" by (auto simp: is_whitespace_def)
  then have "13 \<notin> set ?line" by (simp add: ascii_def)
  then have lines: "lines_of (?line @ [13, 10] @ others) = ?line # lines_of others" by (rule lines_of_first)
  have "next_word (ascii ''POST'' @ 32 # (release_path i @ 32 # ascii ''HTTP/1.1'')) =
      (ascii ''POST'', 32 # (release_path i @ 32 # ascii ''HTTP/1.1''))"
    by (rule next_word_word) (simp_all add: ascii_def is_whitespace_def)
  moreover have "next_word (release_path i @ 32 # ascii ''HTTP/1.1'') = (release_path i, 32 # ascii ''HTTP/1.1'')"
    by (rule next_word_word) (use p in \<open>simp_all add: list_all_iff\<close>, simp add: is_whitespace_def)
  moreover have "?line = ascii ''POST'' @ 32 # (release_path i @ 32 # ascii ''HTTP/1.1'')" by (simp add: ascii_def)
  ultimately have "parse_request_line_and_headers (?line @ [13, 10] @ others) =
      Inr (ascii ''POST'', release_path i, parse_headers (lines_of others))"
    using lines p(2) by (simp add: parse_request_line_and_headers_def next_word_space is_whitespace_def ascii_def)
  then show ?thesis
    using i(2) assms(3) release_path_routes [OF i(1)] by (auto simp: route_def intro!: exI [of _ i])
qed


definition plain_libs :: libs where
  "plain_libs = \<lparr>to_json = (\<lambda>_. []), to_json_pretty = (\<lambda>_. []), from_json = (\<lambda>_. None),
     from_json_slice = (\<lambda>_. Inl []), sha256 = (\<lambda>_. replicate 32 0)\<rparr>"

theorem every_pin_can_be_released_witness:
  "\<exists>i. ''chat'' = utf8_string i \<and>
    route plain_libs False (ascii ''POST '' @ release_path i @ ascii '' HTTP/1.1'' @ [13, 10] @ ascii ''x-api-key: k'') [] []
      = AskRelease i"
proof (rule every_pin_can_be_released)
  show "conversation_id_from plain_libs [(ascii ''x-session-id'', ascii ''chat'')] VNull [] None account_default False = Inr ''chat''"
    by code_simp
  show "length (sha256 plain_libs bs) = 32" for bs by (simp add: plain_libs_def)
  show "has_any_auth (parse_headers (lines_of (ascii ''x-api-key: k'')))" by code_simp
qed

end
