(* ===== verification/Completion.thy ===== *)
theory Completion
  imports Messages
begin

text \<open>
  What \<open>parse_completion\<close> of \<open>src/bin/pmuxd/src/messages_http.rs\<close> makes of an answer, against a reference
  that first cuts the answer into prose and tool-call blocks.
\<close>

section \<open>Cutting an answer into pieces\<close>

datatype piece = Prose utext | Block utext

fun source_of :: "piece \<Rightarrow> utext" where
  "source_of (Prose t) = t"
| "source_of (Block payload) = TOOL_CALL_OPEN @ payload @ TOOL_CALL_CLOSE"

function pieces :: "utext \<Rightarrow> piece list" where
  "pieces t =
     (case split_once TOOL_CALL_OPEN t of
        None \<Rightarrow> [Prose t]
      | Some (start, after) \<Rightarrow>
          (case split_once TOOL_CALL_CLOSE after of
             None \<Rightarrow> [Prose t]
           | Some (payload, rest) \<Rightarrow> Prose start # Block payload # pieces rest))"
  by pat_completeness auto
termination
  by (relation "measure length") (auto dest!: split_once_Some simp: TOOL_CALL_OPEN_def ascii_def)

declare pieces.simps [simp del]

text \<open>The call a block makes, the \<open>n\<close>-th of the answer.\<close>

definition call_in :: "libs \<Rightarrow> nat \<Rightarrow> utext \<Rightarrow> tool_call option" where
  "call_in L n payload = Option.bind (parse_tool_call_payload L (trim payload)) (tool_call_of n)"

fun calls_in :: "libs \<Rightarrow> nat \<Rightarrow> piece list \<Rightarrow> tool_call list" where
  "calls_in L n [] = []"
| "calls_in L n (Prose t # ps) = calls_in L n ps"
| "calls_in L n (Block payload # ps) =
     (case call_in L n payload of None \<Rightarrow> calls_in L n ps | Some c \<Rightarrow> c # calls_in L (Suc n) ps)"

text \<open>What is left for the reader: the prose, and every block that makes no call.\<close>

fun left_in :: "libs \<Rightarrow> nat \<Rightarrow> piece list \<Rightarrow> utext" where
  "left_in L n [] = []"
| "left_in L n (Prose t # ps) = t @ left_in L n ps"
| "left_in L n (Block payload # ps) =
     (case call_in L n payload of
        None \<Rightarrow> source_of (Block payload) @ left_in L n ps
      | Some c \<Rightarrow> left_in L (Suc n) ps)"

lemma completion_loop_pieces:
  "completion_loop L remaining t calls =
     (remaining @ left_in L (length calls) (pieces t), calls @ calls_in L (length calls) (pieces t))"
proof (induction L remaining t calls rule: completion_loop.induct)
  case (1 L remaining t calls)
  show ?case
  proof (cases "split_once TOOL_CALL_OPEN t")
    case None
    then show ?thesis by (subst completion_loop.simps, subst (1 2) pieces.simps) simp
  next
    case (Some sa)
    obtain start after where sa: "sa = (start, after)" by (cases sa)
    have t: "t = start @ TOOL_CALL_OPEN @ after" using split_once_Some [OF Some [unfolded sa]] .
    show ?thesis
    proof (cases "split_once TOOL_CALL_CLOSE after")
      case None
      then show ?thesis
        using Some sa t by (subst completion_loop.simps, subst (1 2) pieces.simps) simp
    next
      case close: (Some pr)
      obtain payload rest where pr: "pr = (payload, rest)" by (cases pr)
      have p: "pieces t = Prose start # Block payload # pieces rest"
        using Some sa close pr by (subst pieces.simps) simp
      show ?thesis
      proof (cases "call_in L (length calls) payload")
        case None
        then show ?thesis
          using "1.IH"(1) [OF Some sa [symmetric] close pr [symmetric] refl] Some sa close pr p
          by (subst completion_loop.simps) (simp add: call_in_def)
      next
        case call: (Some c)
        then show ?thesis
          using "1.IH"(2) [OF Some sa [symmetric] close pr [symmetric] refl] Some sa close pr p
          by (subst completion_loop.simps) (simp add: call_in_def)
      qed
    qed
  qed
qed

section \<open>The cut is lossless and complete\<close>

definition occurs :: "'a list \<Rightarrow> 'a list \<Rightarrow> bool" where
  "occurs p t \<longleftrightarrow> (\<exists>a b. t = a @ p @ b)"

definition has_block :: "utext \<Rightarrow> bool" where
  "has_block t \<longleftrightarrow> (\<exists>a payload b. t = a @ TOOL_CALL_OPEN @ payload @ TOOL_CALL_CLOSE @ b)"

lemma split_once_least:
  assumes "split_once p (a @ p @ b) = r"
  shows "\<exists>x y. r = Some (x, y) \<and> length x \<le> length a"
  using assms
proof (induction a arbitrary: r)
  case Nil
  have "strip_prefix p (p @ b) = Some b" by (simp add: strip_prefix_Some)
  with Nil show ?case by (cases "p @ b") auto
next
  case (Cons c a)
  then obtain x y where "split_once p (a @ p @ b) = Some (x, y)" "length x \<le> length a" by blast
  with Cons.prems show ?case by (auto split: option.splits)
qed

lemma split_once_None: "split_once p t = None \<Longrightarrow> \<not> occurs p t"
  using split_once_least [of p _ _ None] by (auto simp: occurs_def)

lemma split_once_before:
  assumes "split_once p t = Some (x, y)" "t = a @ p @ b"
  shows "length x \<le> length a"
  using split_once_least [of p a b "Some (x, y)"] assms by auto

lemma before_has_none:
  assumes "split_once p t = Some (x, y)" "p \<noteq> []"
  shows "\<not> occurs p x"
proof
  assume "occurs p x"
  then obtain a b where "x = a @ p @ b" by (auto simp: occurs_def)
  moreover have "t = x @ p @ y" using split_once_Some [OF assms(1)] .
  ultimately have "length x \<le> length a" using split_once_before [OF assms(1), of a "b @ p @ y"] by simp
  with \<open>x = a @ p @ b\<close> assms(2) show False by simp
qed

lemma unfinished_has_no_block:
  assumes "split_once TOOL_CALL_OPEN t = Some (start, after)" "split_once TOOL_CALL_CLOSE after = None"
  shows "\<not> has_block t"
proof
  assume "has_block t"
  then obtain a payload b where t: "t = a @ TOOL_CALL_OPEN @ payload @ TOOL_CALL_CLOSE @ b" by (auto simp: has_block_def)
  have len: "length start \<le> length a" by (rule split_once_before [OF assms(1) t])
  have "after = drop (length start + length TOOL_CALL_OPEN) t"
    using split_once_Some [OF assms(1)] by simp
  also have "\<dots> = drop (length start + length TOOL_CALL_OPEN) (a @ TOOL_CALL_OPEN) @ payload @ TOOL_CALL_CLOSE @ b"
    using len by (simp add: t)
  finally have "occurs TOOL_CALL_CLOSE after" unfolding occurs_def by (metis append.assoc)
  with split_once_None [OF assms(2)] show False by simp
qed

lemma tool_call_marks [simp]: "TOOL_CALL_OPEN \<noteq> []" "TOOL_CALL_CLOSE \<noteq> []"
  by (simp_all add: TOOL_CALL_OPEN_def TOOL_CALL_CLOSE_def ascii_def)

lemma has_block_open: "has_block t \<Longrightarrow> occurs TOOL_CALL_OPEN t"
  unfolding has_block_def occurs_def by (metis append.assoc)

lemma pieces_lossless:
  "concat (map source_of (pieces t)) = t
   \<and> (\<forall>s. Prose s \<in> set (pieces t) \<longrightarrow> \<not> has_block s)
   \<and> (\<forall>payload. Block payload \<in> set (pieces t) \<longrightarrow> \<not> occurs TOOL_CALL_CLOSE payload)"
proof (induction t rule: pieces.induct)
  case (1 t)
  show ?case
  proof (cases "split_once TOOL_CALL_OPEN t")
    case None
    then show ?thesis
      using split_once_None [OF None] has_block_open by (subst (1 2 3) pieces.simps) auto
  next
    case (Some sa)
    obtain start after where sa: "sa = (start, after)" by (cases sa)
    have t: "t = start @ TOOL_CALL_OPEN @ after" using split_once_Some [OF Some [unfolded sa]] .
    show ?thesis
    proof (cases "split_once TOOL_CALL_CLOSE after")
      case None
      then show ?thesis
        using Some sa unfinished_has_no_block by (subst (1 2 3) pieces.simps) auto
    next
      case close: (Some pr)
      obtain payload rest where pr: "pr = (payload, rest)" by (cases pr)
      have "pieces t = Prose start # Block payload # pieces rest"
        using Some sa close pr by (subst pieces.simps) simp
      moreover have "after = payload @ TOOL_CALL_CLOSE @ rest" using split_once_Some [OF close [unfolded pr]] .
      moreover have "\<not> has_block start" using before_has_none [OF Some [unfolded sa]] has_block_open by auto
      moreover have "\<not> occurs TOOL_CALL_CLOSE payload" using before_has_none [OF close [unfolded pr]] by simp
      ultimately show ?thesis using "1.IH" [OF Some sa [symmetric] close pr [symmetric]] t by auto
    qed
  qed
qed

text \<open>C31: Nothing a model says is lost on the way to a Messages response. An answer is cut, from left to right
  and without loss, into prose that holds no complete tool-call block and into blocks; the response's
  tool calls are those the blocks make, in order, and its text is the prose together with every block
  that makes no call, verbatim, up to surrounding whitespace.\<close>
theorem completion_keeps_every_piece:
  "concat (map source_of (pieces t)) = t
   \<and> list_all (case_piece (\<lambda>s. \<not> has_block s) (\<lambda>payload. \<not> occurs TOOL_CALL_CLOSE payload)) (pieces t)
   \<and> parse_completion L t =
       \<lparr>pc_text = trim (left_in L 0 (pieces t)), pc_tool_calls = calls_in L 0 (pieces t)\<rparr>"
proof -
  have "list_all (case_piece (\<lambda>s. \<not> has_block s) (\<lambda>payload. \<not> occurs TOOL_CALL_CLOSE payload)) (pieces t)"
    using pieces_lossless [of t] by (auto simp: list_all_iff split: piece.splits)
  then show ?thesis
    using pieces_lossless [of t] completion_loop_pieces [of L "[]" t "[]"] by (simp add: parse_completion_def)
qed

section \<open>Numbered calls\<close>

text \<open>
  A block without an id is numbered by its position among the calls, which does not look at the ids the
  other blocks chose: two calls of one answer can carry the same id.
\<close>

definition two_calls :: libs where
  "two_calls = \<lparr>to_json = (\<lambda>_. []), to_json_pretty = (\<lambda>_. []),
     from_json = (\<lambda>t. Some (vobject (if t = ascii ''a'' then [(''name'', vtext ''read''), (''id'', vtext ''toolu_2'')]
        else [(''name'', vtext ''write'')]))),
     from_json_slice = (\<lambda>_. Inl []), sha256 = id\<rparr>"

lemma tool_call_ids_can_repeat:
  "map tc_id (pc_tool_calls (parse_completion two_calls
     (ascii ''<tool_call>a</tool_call><tool_call>b</tool_call>''))) = [ascii ''toolu_2'', ascii ''toolu_2'']"
  by code_simp

end
