(* ===== verification/SessionTypes.thy ===== *)
theory SessionTypes
  imports Transcript Wire
begin

text \<open>
  The data of the durable-session surface of the protocol (\<open>src/crates/protocol/src/v1.rs\<close>): session
  states, turn requests and results, events and their batches. A UUID is its canonical hyphenated
  text. Constructor names that other enums of the protocol also use carry a prefix (\<open>S\<close> for session
  states, \<open>Ev\<close> for event payloads, \<open>K\<close> for kinds of needed input).
\<close>

type_synonym uuid = string
type_synonym session_id = uuid
type_synonym turn_id = uuid
type_synonym generation_id = uuid
type_synonym timestamp_ms = u64

definition PROTOCOL_VERSION :: nat where "PROTOCOL_VERSION = 1"

definition MAX_NATIVE_FRAME_BYTES :: nat where
  "MAX_NATIVE_FRAME_BYTES = 8 * 1024 * 1024"

definition MAX_SUBSCRIBE_WAIT_MS :: u64 where "MAX_SUBSCRIBE_WAIT_MS = 30000"

definition MAX_SUBSCRIBE_EVENTS :: u32 where "MAX_SUBSCRIBE_EVENTS = 512"

section \<open>Sessions\<close>

datatype session_cell = Full | Minified

datatype session_state =
    SCreating | SBooting | SReady | SSubmitting | SAwaitingPromptAck | SRunning | SNeedsInput
  | STerminalCandidate | SDraining | SCancelling | STainted | SClosing | SClosed | SFailed

datatype needs_input_kind = KTrust | KLogin | KPermission | KUpdate | KQuota | KUnknownModal

record needs_input =
  ni_kind :: needs_input_kind
  ni_message :: string
  ni_details :: json

datatype terminal_profile = Transparent | RmuxStandard

datatype input_transport = Auto | Sdk | AttachedStream

record compatibility_report =
  cr_claude_version :: string
  cr_os :: string
  cr_arch :: string
  cr_terminal_profile :: terminal_profile
  cr_input_transport :: input_transport
  cr_tested :: bool
  cr_unpromoted :: bool
  cr_transcript_drain_ms :: u64

record session_agent_pin =
  pin_agent_id :: uuid
  pin_version :: u64
  pin_config_digest :: string

datatype turn_outcome = OCompleted | OCancelled | OFailed

record turn_summary =
  ts_turn_id :: turn_id
  ts_outcome :: turn_outcome
  ts_completed_at_ms :: timestamp_ms
  ts_final_sequence :: u64

record session_snapshot =
  sn_session_id :: session_id
  sn_generation_id :: generation_id
  sn_transcript_session_id :: session_id
  sn_cell :: session_cell
  sn_state :: session_state
  sn_cwd :: string
  sn_active_turn_id :: "turn_id option"
  sn_claude_version :: "string option"
  sn_compatibility :: compatibility_report
  sn_created_at_ms :: timestamp_ms
  sn_updated_at_ms :: timestamp_ms
  sn_idle_deadline_ms :: "timestamp_ms option"
  sn_resumable :: bool
  sn_last_sequence :: u64
  sn_last_turn :: "turn_summary option"
  sn_needs_input :: "needs_input option"
  sn_agent :: "session_agent_pin option"

record session_handle =
  sh_session_id :: session_id
  sh_generation_id :: generation_id
  sh_state :: session_state
  sh_compatibility :: compatibility_report
  sh_created_at_ms :: timestamp_ms
  sh_last_sequence :: u64
  sh_agent :: "session_agent_pin option"

section \<open>Turns\<close>

datatype disconnect_action = OnContinue | OnCancelTurn | OnCloseSession

record turn_lease_policy =
  lp_on_disconnect :: disconnect_action
  lp_heartbeat_timeout_ms :: "u64 option"

record turn_request =
  tq_turn_id :: turn_id
  tq_prompt :: utext
  tq_deadline_unix_ms :: "timestamp_ms option"
  tq_lease :: turn_lease_policy

record turn_accepted =
  ta_session_id :: session_id
  ta_generation_id :: generation_id
  ta_turn_id :: turn_id
  ta_replayed :: bool
  ta_state :: session_state
  ta_next_sequence :: u64

datatype message_block =
    BText utext
  | BToolUse utext utext jvalue
  | BToolResult utext jvalue bool
  | BUnknown utext jvalue

datatype tool_status = ToolRequested | ToolCompleted | ToolFailed | ToolCancelled

record wire_tool_record =
  wt_tool_use_id :: utext
  wt_name :: utext
  wt_input :: jvalue
  wt_output :: "jvalue option"
  wt_status :: tool_status
  wt_started_at_ms :: "timestamp_ms option"
  wt_completed_at_ms :: "timestamp_ms option"

record turn_timings =
  tt_submitted_at_ms :: timestamp_ms
  tt_prompt_acknowledged_at_ms :: "timestamp_ms option"
  tt_terminal_candidate_at_ms :: "timestamp_ms option"
  tt_completed_at_ms :: timestamp_ms
  tt_drain_ms :: "u64 option"
  tt_last_transcript_activity_at_ms :: "timestamp_ms option"
  tt_stop_hook_at_ms :: "timestamp_ms option"
  tt_turn_duration_observed_at_ms :: "timestamp_ms option"
  tt_post_turn_duration_row_observed_at_ms :: "timestamp_ms option"

datatype completion_authority = FromTranscript

record completion_provenance =
  cp_authority :: completion_authority
  cp_prompt_acknowledged :: bool
  cp_terminal_message_observed :: bool
  cp_terminal_prompt_observed :: bool
  cp_terminal_quiet_observed :: bool
  cp_transcript_drained :: bool
  cp_lifecycle_hook_observed :: bool

record protocol_warning =
  pw_code :: string
  pw_message :: string
  pw_details :: json

record turn_result =
  tr_session_id :: session_id
  tr_generation_id :: generation_id
  tr_turn_id :: turn_id
  tr_outcome :: turn_outcome
  tr_text :: utext
  tr_final_blocks :: "message_block list"
  tr_tools :: "wire_tool_record list"
  tr_model :: "utext option"
  tr_stop_reason :: "Wire.stop_reason option"
  tr_usage :: usage_breakdown
  tr_sidechain_rows :: u64
  tr_timings :: turn_timings
  tr_warnings :: "protocol_warning list"
  tr_claude_version :: string
  tr_compatibility :: compatibility_report
  tr_completion :: completion_provenance
  tr_final_sequence :: u64

datatype cancel_outcome = CancelDone | AlreadyTerminal | CancelRecoveryFailed

record cancel_turn_result =
  ct_session_id :: session_id
  ct_generation_id :: generation_id
  ct_turn_id :: turn_id
  ct_outcome :: cancel_outcome
  ct_session_state :: session_state

datatype close_policy = Graceful | Force

record close_session_result =
  cs_session_id :: session_id
  cs_generation_id :: generation_id
  cs_already_closed :: bool
  cs_process_reaped :: bool

record clear_session_result =
  cl_session_id :: session_id
  cl_generation_id :: generation_id
  cl_transcript_session_id :: session_id
  cl_rotated :: bool
  cl_state :: session_state

section \<open>Events\<close>

record session_state_changed =
  sc_previous :: session_state
  sc_current :: session_state
  sc_reason :: "string option"

record prompt_acknowledged =
  pa_prompt_uuid :: utext
  pa_prompt_id :: "utext option"
  pa_transcript_offset :: u64

datatype message_scope = ScopeMain | ScopeSidechain | ScopeTeam | ScopeMetadata

record logical_message =
  lm_message_id :: utext
  lm_request_id :: "utext option"
  lm_scope :: message_scope
  lm_blocks :: "message_block list"
  lm_model :: "utext option"
  lm_stop_reason :: "Wire.stop_reason option"
  lm_usage :: "Wire.token_usage option"
  lm_terminal :: bool

record tool_started =
  to_tool_use_id :: utext
  to_name :: utext
  to_input :: jvalue

record tool_completed =
  td_tool_use_id :: utext
  td_output :: jvalue
  td_is_error :: bool

datatype rate_limit_status = RateAllowed | RateRejected | RateUnknown

record rate_limit_event =
  rl_status :: rate_limit_status
  rl_resets_at_ms :: "timestamp_ms option"
  rl_message :: "string option"

record terminal_candidate =
  tc_message_id :: utext
  tc_stop_reason :: "Wire.stop_reason option"

record turn_cancelled_event =
  te_outcome :: cancel_outcome
  te_recovered_to_ready :: bool

record replay_gap =
  rg_requested_after :: u64
  rg_oldest_available :: u64
  rg_next_sequence :: u64
  rg_snapshot :: session_snapshot

datatype event_payload =
    EvSessionStateChanged session_state_changed
  | EvPromptAcknowledged prompt_acknowledged
  | EvLogicalMessage logical_message
  | EvToolStarted tool_started
  | EvToolCompleted tool_completed
  | EvRateLimit rate_limit_event
  | EvNeedsInput needs_input
  | EvTerminalCandidate terminal_candidate
  | EvTurnCompleted turn_result
  | EvTurnCancelled turn_cancelled_event
  | EvTurnFailed error_body
  | EvWarning protocol_warning
  | EvReplayGap replay_gap
  | EvHeartbeat session_state

record event_envelope =
  ev_schema_version :: nat
  ev_session_id :: session_id
  ev_generation_id :: generation_id
  ev_turn_id :: "turn_id option"
  ev_sequence :: u64
  ev_timestamp_ms :: timestamp_ms
  ev_event :: event_payload

record event_batch =
  eb_events :: "event_envelope list"
  eb_next_sequence :: u64
  eb_replay_gap :: "replay_gap option"

record subscribe_events_request =
  se_session_id :: session_id
  se_generation_id :: generation_id
  se_after_sequence :: u64
  se_wait_ms :: u64
  se_max_events :: u32

section \<open>Names\<close>

text \<open>\<open>{:?}\<close> of the two enums whose names reach error texts, and the wire names of needed input.\<close>

fun debug_state :: "session_state \<Rightarrow> string" where
  "debug_state SCreating = ''Creating''"
| "debug_state SBooting = ''Booting''"
| "debug_state SReady = ''Ready''"
| "debug_state SSubmitting = ''Submitting''"
| "debug_state SAwaitingPromptAck = ''AwaitingPromptAck''"
| "debug_state SRunning = ''Running''"
| "debug_state SNeedsInput = ''NeedsInput''"
| "debug_state STerminalCandidate = ''TerminalCandidate''"
| "debug_state SDraining = ''Draining''"
| "debug_state SCancelling = ''Cancelling''"
| "debug_state STainted = ''Tainted''"
| "debug_state SClosing = ''Closing''"
| "debug_state SClosed = ''Closed''"
| "debug_state SFailed = ''Failed''"

fun debug_kind :: "needs_input_kind \<Rightarrow> string" where
  "debug_kind KTrust = ''Trust''"
| "debug_kind KLogin = ''Login''"
| "debug_kind KPermission = ''Permission''"
| "debug_kind KUpdate = ''Update''"
| "debug_kind KQuota = ''Quota''"
| "debug_kind KUnknownModal = ''UnknownModal''"

fun kind_name :: "needs_input_kind \<Rightarrow> string" where
  "kind_name KTrust = ''trust''"
| "kind_name KLogin = ''login''"
| "kind_name KPermission = ''permission''"
| "kind_name KUpdate = ''update''"
| "kind_name KQuota = ''quota''"
| "kind_name KUnknownModal = ''unknown_modal''"

fun profile_name :: "terminal_profile \<Rightarrow> string" where
  "profile_name Transparent = ''transparent''"
| "profile_name RmuxStandard = ''rmux_standard''"

fun transport_name :: "input_transport \<Rightarrow> string" where
  "transport_name Auto = ''auto''"
| "transport_name Sdk = ''sdk''"
| "transport_name AttachedStream = ''attached_stream''"

fun debug_code :: "error_code \<Rightarrow> string" where
  "debug_code InvalidConfig = ''InvalidConfig''"
| "debug_code UnsupportedFeature = ''UnsupportedFeature''"
| "debug_code UnsupportedClaudeVersion = ''UnsupportedClaudeVersion''"
| "debug_code ClaudeNotFound = ''ClaudeNotFound''"
| "debug_code RmuxUnavailable = ''RmuxUnavailable''"
| "debug_code RmuxIncompatible = ''RmuxIncompatible''"
| "debug_code PersistenceDisabled = ''PersistenceDisabled''"
| "debug_code TranscriptUnavailable = ''TranscriptUnavailable''"
| "debug_code error_code.SchemaDrift = ''SchemaDrift''"
| "debug_code PromptNotAcknowledged = ''PromptNotAcknowledged''"
| "debug_code ResultTooLarge = ''ResultTooLarge''"
| "debug_code TurnHistoryCapacityExceeded = ''TurnHistoryCapacityExceeded''"
| "debug_code SessionBusy = ''SessionBusy''"
| "debug_code IdConflict = ''IdConflict''"
| "debug_code IdCollision = ''IdCollision''"
| "debug_code SessionNotFound = ''SessionNotFound''"
| "debug_code StaleSessionGeneration = ''StaleSessionGeneration''"
| "debug_code NeedsTrust = ''NeedsTrust''"
| "debug_code NeedsLogin = ''NeedsLogin''"
| "debug_code NeedsPermission = ''NeedsPermission''"
| "debug_code NeedsUpdate = ''NeedsUpdate''"
| "debug_code NeedsInput = ''NeedsInput''"
| "debug_code RateLimited = ''RateLimited''"
| "debug_code AuthenticationFailed = ''AuthenticationFailed''"
| "debug_code BillingFailed = ''BillingFailed''"
| "debug_code PermissionDenied = ''PermissionDenied''"
| "debug_code TurnTimeout = ''TurnTimeout''"
| "debug_code Cancelled = ''Cancelled''"
| "debug_code RecoveryFailed = ''RecoveryFailed''"
| "debug_code ClaudeExited = ''ClaudeExited''"
| "debug_code DaemonLost = ''DaemonLost''"
| "debug_code ReplayGap = ''ReplayGap''"
| "debug_code ProtocolVersionMismatch = ''ProtocolVersionMismatch''"
| "debug_code Internal = ''Internal''"

section \<open>The wire domain\<close>

text \<open>
  \<open>serde_json\<close> as the actor uses it: the length of the JSON text of a value, \<open>usize::MAX\<close> where it cannot be
  serialized. \<open>z_batch\<close>, \<open>z_result_response\<close> and \<open>z_error_response\<close> are lengths of whole response envelopes;
  \<open>z_record\<close> is \<open>size_of::<TurnRecord>()\<close>, which the compiler fixes.
\<close>

record sizes =
  z_event :: "event_envelope \<Rightarrow> nat"
  z_batch :: "event_batch \<Rightarrow> nat"
  z_result :: "turn_result \<Rightarrow> nat"
  z_result_response :: "turn_result \<Rightarrow> nat"
  z_error :: "error_body \<Rightarrow> nat"
  z_error_response :: "error_body \<Rightarrow> nat"
  z_record :: nat

definition usize_max :: nat where
  "usize_max = u64_max"

definition safe_opt :: "u64 option \<Rightarrow> bool" where
  "safe_opt v \<longleftrightarrow> (case v of None \<Rightarrow> True | Some n \<Rightarrow> n \<le> MAX_SAFE_JSON_INTEGER)"

text \<open>\<open>validate_v1_serializable\<close> of a turn request, of a subscription and of a compatibility report.\<close>

definition turn_request_serializable :: "turn_request \<Rightarrow> bool" where
  "turn_request_serializable t \<longleftrightarrow>
     safe_opt (tq_deadline_unix_ms t) \<and> safe_opt (lp_heartbeat_timeout_ms (tq_lease t))"

definition subscription_serializable :: "subscribe_events_request \<Rightarrow> bool" where
  "subscription_serializable r \<longleftrightarrow>
     se_after_sequence r \<le> MAX_SAFE_JSON_INTEGER \<and> se_wait_ms r \<le> MAX_SAFE_JSON_INTEGER"

definition compatibility_serializable :: "compatibility_report \<Rightarrow> bool" where
  "compatibility_serializable r \<longleftrightarrow>
     cr_input_transport r = Sdk \<and> 1 \<le> cr_transcript_drain_ms r \<and> cr_transcript_drain_ms r \<le> 60000"

fun json_serializable :: "json \<Rightarrow> bool" where
  "json_serializable (JNum n) = (n \<le> MAX_SAFE_JSON_INTEGER)"
| "json_serializable (JArray vs) = list_all json_serializable vs"
| "json_serializable (JObject kvs) = list_all (\<lambda>(k, v). json_serializable v) kvs"
| "json_serializable _ = True"

end
