(* ===== verification/Actor.thy ===== *)
theory Actor
  imports SessionTypes Composer
begin

text \<open>
  The actor that owns one durable session (\<open>src/crates/service/src/v1/actor.rs\<close>). It is a single task that
  takes one message at a time from its mailbox, so each handler is a function from the actor to its
  reply and the next actor; \<open>actor_step\<close> is one turn of its loop.

  What the actor reads from outside is an argument of the message: the answers of the terminal, of the
  clear boundary and of the transcript. The two clocks are fields, read in order: the \<open>n\<close>-th reading is
  the clock at \<open>n\<close>. Three ghost fields are read by no handler: the events ever emitted, what the handlers
  set in motion, and whether an \<open>expect\<close> failed.
\<close>

unbundle bit_operations_syntax

section \<open>Threading an actor through fallible calls\<close>

text \<open>The \<open>?\<close> operator in a method of the actor: the state goes on whether or not the call failed.\<close>

definition and_then :: "('s \<Rightarrow> ('e + 'a) \<times> 's) \<Rightarrow> ('a \<Rightarrow> 's \<Rightarrow> ('e + 'b) \<times> 's) \<Rightarrow> 's \<Rightarrow> ('e + 'b) \<times> 's" where
  "and_then f g s = (case f s of (Inl e, s') \<Rightarrow> (Inl e, s') | (Inr x, s') \<Rightarrow> g x s')"

definition refused :: "'e \<Rightarrow> 's \<Rightarrow> ('e + 'a) \<times> 's" where
  "refused e s = (Inl e, s)"

section \<open>The actor\<close>

definition DEFAULT_IDLE_TTL_MS :: u64 where "DEFAULT_IDLE_TTL_MS = 30 * 60 * 1000"
definition DEFAULT_TURN_HISTORY_CAPACITY :: nat where "DEFAULT_TURN_HISTORY_CAPACITY = 128"
definition DEFAULT_TURN_HISTORY_BYTE_CAPACITY :: nat where
  "DEFAULT_TURN_HISTORY_BYTE_CAPACITY = 64 * 1024 * 1024"
definition DEFAULT_REPLAY_BYTE_CAPACITY :: nat where "DEFAULT_REPLAY_BYTE_CAPACITY = 16 * 1024 * 1024"
definition TERMINAL_FAILURE_RESERVE_BYTES :: nat where "TERMINAL_FAILURE_RESERVE_BYTES = 4 * 1024"
definition EVENT_ARRAY_FIELD_OVERHEAD_BYTES :: nat where
  "EVENT_ARRAY_FIELD_OVERHEAD_BYTES = length ([CHR 0x22] @ ''events'' @ [CHR 0x22] @ '':['') + length ''],''"
definition MAX_EVENT_SEQUENCE :: u64 where "MAX_EVENT_SEQUENCE = MAX_SAFE_JSON_INTEGER - 1"
definition CLOSE_SEQUENCE_RESERVE :: u64 where "CLOSE_SEQUENCE_RESERVE = 2"
definition TERMINAL_SEQUENCE_EVENTS :: u64 where "TERMINAL_SEQUENCE_EVENTS = 2"

record actor_config =
  ac_replay_capacity :: nat
  ac_replay_byte_capacity :: nat
  ac_default_event_batch_size :: nat
  ac_poll_interval_ms :: u64
  ac_cancel_recovery_timeout_ms :: u64
  ac_attach_reconciliation_timeout_ms :: u64
  ac_default_turn_timeout_ms :: u64
  ac_idle_ttl_ms :: u64
  ac_turn_history_capacity :: nat
  ac_turn_history_byte_capacity :: nat
  ac_max_frame_bytes :: nat
  ac_event_sequence_ceiling :: u64

definition actor_config_default :: actor_config where
  "actor_config_default =
     \<lparr>ac_replay_capacity = 256, ac_replay_byte_capacity = DEFAULT_REPLAY_BYTE_CAPACITY,
      ac_default_event_batch_size = 128, ac_poll_interval_ms = 20, ac_cancel_recovery_timeout_ms = 5000,
      ac_attach_reconciliation_timeout_ms = 75000, ac_default_turn_timeout_ms = 10 * 60 * 1000,
      ac_idle_ttl_ms = DEFAULT_IDLE_TTL_MS, ac_turn_history_capacity = DEFAULT_TURN_HISTORY_CAPACITY,
      ac_turn_history_byte_capacity = DEFAULT_TURN_HISTORY_BYTE_CAPACITY,
      ac_max_frame_bytes = MAX_NATIVE_FRAME_BYTES, ac_event_sequence_ceiling = MAX_EVENT_SEQUENCE\<rparr>"

datatype stored_turn_terminal = StoredResult turn_result | StoredFailed error_body

datatype attach_completion = AttachUnused | PotentiallyMutated

datatype attach_reconciliation = AttachReady | AttachNeedsInput needs_input

text \<open>A cancel request waits on a channel of its own; the ticket names it.\<close>

type_synonym ticket = nat

record active_turn =
  at_turn_id :: turn_id
  at_cancel_waiters :: "ticket list"

record turn_record =
  rec_prompt_fingerprint :: "64 word"
  rec_normalized_prompt :: utext
  rec_submitted_at_ms :: timestamp_ms
  rec_terminal :: "stored_turn_terminal option"

record replay_record =
  rp_event :: event_envelope
  rp_encoded_bytes :: nat

datatype effect =
    StartTurn turn_request timestamp_ms session_cell session_id
  | AbortTurn turn_id
  | RecoverCancelled turn_id
  | ReconcileAttach uuid
  | AnswerCancel ticket "error_body + cancel_turn_result"

record actor =
  a_session_id :: session_id
  a_transcript_session_id :: session_id
  a_generation_id :: generation_id
  a_cwd :: string
  a_compatibility :: compatibility_report
  a_dangerous_permission_bypass :: bool
  a_resumable :: bool
  a_config :: actor_config
  a_idle_ttl_ms :: u64
  a_state :: session_state
  a_created_at_ms :: timestamp_ms
  a_updated_at_ms :: timestamp_ms
  a_needs_input :: "needs_input option"
  a_needs_input_resume :: "session_state option"
  a_last_turn :: "turn_summary option"
  a_active :: "active_turn option"
  a_turns :: "(turn_id, turn_record) btree_map"
  a_turn_history_bytes :: nat
  a_replay :: "replay_record list"
  a_replay_bytes :: nat
  a_next_sequence :: u64
  a_sequence :: u64
  a_process_reaped :: bool
  a_writable_attach :: "uuid option"
  a_writable_attach_release_pending :: bool
  a_cell :: session_cell
  a_agent :: "session_agent_pin option"
  a_clock :: "nat \<Rightarrow> timestamp_ms"
  a_instants :: "nat \<Rightarrow> nat"
  a_reads :: nat
  a_emitted :: "event_envelope list"
  a_effects :: "effect list"
  a_panicked :: bool

definition panic :: "actor \<Rightarrow> actor" where
  "panic a = a\<lparr>a_panicked := True\<rparr>"

definition set_off :: "effect \<Rightarrow> actor \<Rightarrow> actor" where
  "set_off e a = a\<lparr>a_effects := a_effects a @ [e]\<rparr>"

section \<open>Clocks, limits and sizes\<close>

definition diagnostic_u64 :: "u64 \<Rightarrow> json" where
  "diagnostic_u64 n = (if n \<le> MAX_SAFE_JSON_INTEGER then JNum n else JString (to_string n))"

definition diagnostic_usize :: "nat \<Rightarrow> json" where
  "diagnostic_usize n = diagnostic_u64 n"

definition checked_actor_timestamp :: "timestamp_ms \<Rightarrow> string \<Rightarrow> error_body + timestamp_ms" where
  "checked_actor_timestamp t resource =
     (if t \<le> MAX_SAFE_JSON_INTEGER then Inr t
      else Inl (with_details (json_object
                 [(''resource'', JString resource), (''maximum'', JNum MAX_SAFE_JSON_INTEGER)])
               (error_new RecoveryFailed
                  ''actor timestamp is outside protocol-v1's safe-integer domain'')))"

definition checked_idle_deadline :: "timestamp_ms \<Rightarrow> u64 \<Rightarrow> error_body + timestamp_ms" where
  "checked_idle_deadline updated ttl =
     (if updated + ttl \<le> u64_max \<and> updated + ttl \<le> MAX_SAFE_JSON_INTEGER then Inr (updated + ttl)
      else Inl (with_details (json_object
                 [(''updated_at_ms'', diagnostic_u64 updated), (''idle_ttl_ms'', diagnostic_u64 ttl),
                  (''maximum'', JNum MAX_SAFE_JSON_INTEGER)])
               (error_new InvalidConfig
                  ''idle deadline is outside protocol-v1's safe-integer domain'')))"

definition now_ms :: "actor \<Rightarrow> timestamp_ms \<times> actor" where
  "now_ms a = (a_clock a (a_reads a), a\<lparr>a_reads := Suc (a_reads a)\<rparr>)"

definition checked_now_ms :: "string \<Rightarrow> actor \<Rightarrow> (error_body + timestamp_ms) \<times> actor" where
  "checked_now_ms resource a =
     (case now_ms a of (t, a') \<Rightarrow>
        (bind_r (checked_actor_timestamp t resource) (\<lambda>ts.
         bind_r (checked_idle_deadline ts (a_idle_ttl_ms a)) (\<lambda>_. Inr ts)), a'))"

record turn_deadline =
  dl_unix_ms :: timestamp_ms
  dl_monotonic :: "nat option"

definition deadline_expired :: "turn_deadline \<Rightarrow> actor \<Rightarrow> bool \<times> actor" where
  "deadline_expired d a =
     (case dl_monotonic d of
        None \<Rightarrow> (case now_ms a of (t, a') \<Rightarrow> (dl_unix_ms d \<le> t, a'))
      | Some m \<Rightarrow>
          (if m \<le> a_instants a (a_reads a) then (True, a\<lparr>a_reads := Suc (a_reads a)\<rparr>)
           else case now_ms (a\<lparr>a_reads := Suc (a_reads a)\<rparr>) of (t, a') \<Rightarrow> (dl_unix_ms d \<le> t, a')))"

definition checked_turn_deadline_unix_ms ::
  "timestamp_ms option \<Rightarrow> timestamp_ms \<Rightarrow> u64 \<Rightarrow> error_body + timestamp_ms" where
  "checked_turn_deadline_unix_ms requested submitted default_timeout =
     (case requested of
        Some r \<Rightarrow> (if r \<le> MAX_SAFE_JSON_INTEGER then Inr r
                   else Inl (error_new InvalidConfig
                     ''turn deadline is outside protocol-v1's safe-integer domain''))
      | None \<Rightarrow> (if submitted + default_timeout \<le> u64_max \<and> submitted + default_timeout \<le> MAX_SAFE_JSON_INTEGER
                 then Inr (submitted + default_timeout)
                 else Inl (error_new InvalidConfig
                   ''default turn deadline is outside protocol-v1's safe-integer domain'')))"

definition turn_timeout_error :: error_body where
  "turn_timeout_error = error_new TurnTimeout ''turn deadline elapsed''"

definition frame_limit :: "actor \<Rightarrow> nat" where
  "frame_limit a = min (ac_max_frame_bytes (a_config a)) MAX_NATIVE_FRAME_BYTES"

definition event_sequence_ceiling :: "actor \<Rightarrow> u64" where
  "event_sequence_ceiling a = min (ac_event_sequence_ceiling (a_config a)) MAX_EVENT_SEQUENCE"

definition remaining_sequence_slots :: "actor \<Rightarrow> u64" where
  "remaining_sequence_slots a =
     (if a_next_sequence a \<le> event_sequence_ceiling a
      then event_sequence_ceiling a - a_next_sequence a + 1 else 0)"

definition sequence_capacity_error :: "u64 \<Rightarrow> actor \<Rightarrow> error_body" where
  "sequence_capacity_error required a =
     with_details (json_object
       [(''resource'', JString ''event_sequence''), (''next_sequence'', JNum (a_next_sequence a)),
        (''maximum_event_sequence'', JNum (event_sequence_ceiling a)),
        (''remaining_events'', JNum (remaining_sequence_slots a)), (''required_events'', JNum required)])
     (error_new RecoveryFailed
        ''session event-sequence capacity is exhausted; close and explicitly resume'')"

definition ensure_sequence_slots :: "u64 \<Rightarrow> actor \<Rightarrow> (error_body + unit) \<times> actor" where
  "ensure_sequence_slots required =
     and_then (checked_now_ms ''event_timestamp'') (\<lambda>_ a.
       if remaining_sequence_slots a < required then refused (sequence_capacity_error required a) a
       else (Inr (), a))"

definition single_event_response_bytes :: "sizes \<Rightarrow> event_envelope \<Rightarrow> nat" where
  "single_event_response_bytes Z ev =
     z_batch Z \<lparr>eb_events = [ev], eb_next_sequence = MAX_SAFE_JSON_INTEGER, eb_replay_gap = None\<rparr>"

definition empty_event_batch_response_bytes :: "sizes \<Rightarrow> u64 \<Rightarrow> nat" where
  "empty_event_batch_response_bytes Z next =
     z_batch Z \<lparr>eb_events = [], eb_next_sequence = next, eb_replay_gap = None\<rparr>"

section \<open>Events\<close>

fun event_payload_name :: "event_payload \<Rightarrow> string" where
  "event_payload_name (EvSessionStateChanged _) = ''session_state_changed''"
| "event_payload_name (EvPromptAcknowledged _) = ''prompt_acknowledged''"
| "event_payload_name (EvLogicalMessage _) = ''logical_message''"
| "event_payload_name (EvToolStarted _) = ''tool_started''"
| "event_payload_name (EvToolCompleted _) = ''tool_completed''"
| "event_payload_name (EvRateLimit _) = ''rate_limit''"
| "event_payload_name (EvNeedsInput _) = ''needs_input''"
| "event_payload_name (EvTerminalCandidate _) = ''terminal_candidate''"
| "event_payload_name (EvTurnCompleted _) = ''turn_completed''"
| "event_payload_name (EvTurnCancelled _) = ''turn_cancelled''"
| "event_payload_name (EvTurnFailed _) = ''turn_failed''"
| "event_payload_name (EvWarning _) = ''warning''"
| "event_payload_name (EvReplayGap _) = ''replay_gap''"
| "event_payload_name (EvHeartbeat _) = ''heartbeat''"

definition envelope :: "actor \<Rightarrow> turn_id option \<Rightarrow> timestamp_ms \<Rightarrow> event_payload \<Rightarrow> event_envelope" where
  "envelope a turn ts payload =
     \<lparr>ev_schema_version = PROTOCOL_VERSION, ev_session_id = a_session_id a, ev_generation_id = a_generation_id a, ev_turn_id = turn,
      ev_sequence = a_next_sequence a, ev_timestamp_ms = ts, ev_event = payload\<rparr>"

text \<open>An event that does not fit a frame is replaced by a warning that says so.\<close>

definition bounded_event ::
  "sizes \<Rightarrow> actor \<Rightarrow> turn_id option \<Rightarrow> timestamp_ms \<Rightarrow> event_payload \<Rightarrow> error_body + event_envelope" where
  "bounded_event Z a turn ts payload =
     (let ev = envelope a turn ts payload; actual = single_event_response_bytes Z ev
      in if actual = usize_max then
           Inl (error_new RecoveryFailed ''event payload cannot be serialized within the protocol-v1 domain'')
         else if actual \<le> frame_limit a then Inr ev
         else if MAX_SAFE_JSON_INTEGER < actual then
           Inl (error_new RecoveryFailed ''event size cannot be represented within the protocol-v1 domain'')
         else
           let warning = envelope a turn ts (EvWarning
                 \<lparr>pw_code = ''event_payload_too_large'',
                  pw_message = ''event payload was omitted because it exceeds the native frame limit'',
                  pw_details = json_object
                    [(''event_type'', JString (event_payload_name payload)), (''actual_bytes'', JNum actual),
                     (''maximum_bytes'', diagnostic_usize (frame_limit a))]\<rparr>);
               bounded = single_event_response_bytes Z warning
           in if bounded = usize_max \<or> frame_limit a < bounded then
                Inl (with_details (json_object
                      [(''actual_bytes'', diagnostic_usize bounded),
                       (''maximum_bytes'', diagnostic_usize (frame_limit a))])
                    (error_new ResultTooLarge
                      ''bounded event warning exceeds the configured native frame limit''))
              else Inr warning)"

fun trim_replay :: "actor_config \<Rightarrow> replay_record list \<Rightarrow> nat \<Rightarrow> replay_record list \<times> nat" where
  "trim_replay c [] bytes = ([], bytes)"
| "trim_replay c (r # rs) bytes =
     (if ac_replay_capacity c < length (r # rs) \<or> ac_replay_byte_capacity c < bytes
      then trim_replay c rs (sat_sub bytes (rp_encoded_bytes r))
      else (r # rs, bytes))"

definition publish_event :: "event_envelope \<Rightarrow> nat \<Rightarrow> actor \<Rightarrow> actor" where
  "publish_event ev encoded a =
     (case trim_replay (a_config a) (a_replay a @ [\<lparr>rp_event = ev, rp_encoded_bytes = encoded\<rparr>])
             (a_replay_bytes a + encoded) of (replay, bytes) \<Rightarrow>
        a\<lparr>a_updated_at_ms := ev_timestamp_ms ev, a_replay := replay, a_replay_bytes := bytes,
          a_next_sequence := ev_sequence ev + 1, a_sequence := ev_sequence ev,
          a_emitted := a_emitted a @ [ev]\<rparr>)"

definition emit :: "sizes \<Rightarrow> turn_id option \<Rightarrow> event_payload \<Rightarrow> actor \<Rightarrow> (error_body + u64) \<times> actor" where
  "emit Z turn payload =
     and_then (checked_now_ms ''event_timestamp'') (\<lambda>ts a.
       if event_sequence_ceiling a < a_next_sequence a then refused (sequence_capacity_error 1 a) a
       else if u64_max < a_next_sequence a + 1 then
         refused (error_new RecoveryFailed ''event sequence cannot advance without overflow'') a
       else case bounded_event Z a turn ts payload of
         Inl e \<Rightarrow> refused e a
       | Inr ev \<Rightarrow>
           let encoded = z_event Z ev
           in if encoded = usize_max then
                refused (error_new RecoveryFailed
                  ''bounded event payload cannot be serialized within the protocol-v1 domain'') a
              else if usize_max < a_replay_bytes a + encoded then
                refused (error_new RecoveryFailed ''event replay byte accounting overflowed'') a
              else (Inr (a_next_sequence a), publish_event ev encoded a))"

section \<open>States\<close>

definition is_valid_session_transition :: "session_state \<Rightarrow> session_state \<Rightarrow> bool" where
  "is_valid_session_transition previous current \<longleftrightarrow>
     (case previous of
        SCreating \<Rightarrow> current \<in> {SBooting}
      | SBooting \<Rightarrow> current \<in> {SReady, SNeedsInput, SFailed, SClosing}
      | SReady \<Rightarrow> current \<in> {SSubmitting, SNeedsInput, STainted, SClosing}
      | SSubmitting \<Rightarrow> current \<in> {SAwaitingPromptAck, SNeedsInput, SCancelling, SFailed, SClosing}
      | SAwaitingPromptAck \<Rightarrow> current \<in> {SRunning, SNeedsInput, SCancelling, SFailed, SClosing}
      | SRunning \<Rightarrow> current \<in> {SNeedsInput, STerminalCandidate, SCancelling, SFailed, SClosing}
      | STerminalCandidate \<Rightarrow> current \<in> {SNeedsInput, SDraining, SCancelling, SFailed, SClosing}
      | SDraining \<Rightarrow> current \<in> {SReady, SNeedsInput, SCancelling, SFailed, SClosing}
      | SNeedsInput \<Rightarrow> current \<in> {SReady, SAwaitingPromptAck, SRunning, STerminalCandidate, SDraining,
                         SCancelling, STainted, SFailed, SClosing}
      | SCancelling \<Rightarrow> current \<in> {SReady, STainted, SClosing}
      | STainted \<Rightarrow> current \<in> {SClosing}
      | SFailed \<Rightarrow> current \<in> {SClosing}
      | SClosing \<Rightarrow> current \<in> {SClosed, SFailed}
      | SClosed \<Rightarrow> False)"

definition transition ::
  "sizes \<Rightarrow> session_state \<Rightarrow> string option \<Rightarrow> turn_id option \<Rightarrow> actor \<Rightarrow> (error_body + unit) \<times> actor" where
  "transition Z current reason turn a =
     (let previous = a_state a
      in if previous = current then (Inr (), a)
         else if \<not> is_valid_session_transition previous current then
           refused (error_new Internal (''invalid session transition '' @ debug_state previous @ '' -> '' @
             debug_state current)) a
         else and_then (emit Z turn (EvSessionStateChanged
                  \<lparr>sc_previous = previous, sc_current = current, sc_reason = reason\<rparr>))
                (\<lambda>_ a'. (Inr (),
                   (if previous = SNeedsInput
                    then a'\<lparr>a_needs_input := None, a_needs_input_resume := None\<rparr> else a')
                     \<lparr>a_state := current\<rparr>)) a)"

text \<open>\<open>let _ = self.transition(...)\<close>.\<close>

definition try_transition ::
  "sizes \<Rightarrow> session_state \<Rightarrow> string option \<Rightarrow> turn_id option \<Rightarrow> actor \<Rightarrow> actor" where
  "try_transition Z current reason turn a = snd (transition Z current reason turn a)"

definition set_needs_input ::
  "sizes \<Rightarrow> needs_input \<Rightarrow> session_state \<Rightarrow> turn_id option \<Rightarrow> actor \<Rightarrow> (error_body + unit) \<times> actor" where
  "set_needs_input Z ni resume turn a0 =
     (let changed = a_needs_input a0 \<noteq> Some ni; transition_needed = a_state a0 \<noteq> SNeedsInput
      in and_then (ensure_sequence_slots
             (of_bool transition_needed + of_bool changed + CLOSE_SEQUENCE_RESERVE))
         (\<lambda>_. and_then
           (\<lambda>a. if transition_needed
                then transition Z SNeedsInput (Some ''interactive_input_required'') turn a else (Inr (), a))
           (\<lambda>_ a. let a' = a\<lparr>a_needs_input := Some ni, a_needs_input_resume := Some resume\<rparr>
                  in if changed then and_then (emit Z turn (EvNeedsInput ni)) (\<lambda>_ a. (Inr (), a)) a'
                     else (Inr (), a'))) a0)"

definition resolve_needs_input :: "sizes \<Rightarrow> session_state \<Rightarrow> turn_id option \<Rightarrow> actor \<Rightarrow> actor" where
  "resolve_needs_input Z fallback turn a =
     (if a_needs_input a = None \<or> a_state a \<noteq> SNeedsInput then a
      else try_transition Z
             (case a_needs_input_resume a of Some s \<Rightarrow> s | None \<Rightarrow> fallback)
             (Some ''interactive_input_resolved'') turn a)"

section \<open>Stored outcomes\<close>

definition turn_result_wire_bytes :: "sizes \<Rightarrow> turn_result \<Rightarrow> nat" where
  "turn_result_wire_bytes Z r =
     (let worst = r\<lparr>tr_final_sequence := MAX_SAFE_JSON_INTEGER\<rparr>
      in max (z_result_response Z worst)
           (single_event_response_bytes Z
             \<lparr>ev_schema_version = PROTOCOL_VERSION, ev_session_id = tr_session_id worst,
              ev_generation_id = tr_generation_id worst, ev_turn_id = Some (tr_turn_id worst),
              ev_sequence = MAX_EVENT_SEQUENCE, ev_timestamp_ms = MAX_SAFE_JSON_INTEGER,
              ev_event = EvTurnCompleted worst\<rparr>))"

definition terminal_error_wire_bytes ::
  "sizes \<Rightarrow> session_id \<Rightarrow> generation_id \<Rightarrow> turn_id \<Rightarrow> error_body \<Rightarrow> nat" where
  "terminal_error_wire_bytes Z sid gen turn e =
     max (z_error_response Z e)
       (single_event_response_bytes Z
         \<lparr>ev_schema_version = PROTOCOL_VERSION, ev_session_id = sid, ev_generation_id = gen,
          ev_turn_id = Some turn, ev_sequence = MAX_EVENT_SEQUENCE,
          ev_timestamp_ms = MAX_SAFE_JSON_INTEGER, ev_event = EvTurnFailed e\<rparr>)"

fun stored_terminal_bytes :: "sizes \<Rightarrow> stored_turn_terminal \<Rightarrow> nat" where
  "stored_terminal_bytes Z (StoredResult r) = z_result Z r"
| "stored_terminal_bytes Z (StoredFailed e) = z_error Z e"

definition turn_history_capacity_error :: "string \<Rightarrow> nat \<Rightarrow> actor \<Rightarrow> error_body" where
  "turn_history_capacity_error msg additional a =
     with_details (json_object
       [(''retained_turns'', diagnostic_usize (bm_len (a_turns a))),
        (''maximum_turns'', diagnostic_usize (ac_turn_history_capacity (a_config a))),
        (''retained_bytes'', diagnostic_usize (a_turn_history_bytes a)),
        (''additional_bytes'', diagnostic_usize additional),
        (''maximum_bytes'', diagnostic_usize (ac_turn_history_byte_capacity (a_config a)))])
     (error_new TurnHistoryCapacityExceeded msg)"

definition try_store_terminal_with_bytes ::
  "turn_id \<Rightarrow> stored_turn_terminal \<Rightarrow> nat \<Rightarrow> actor \<Rightarrow> (error_body + unit) \<times> actor" where
  "try_store_terminal_with_bytes turn terminal encoded a =
     (if encoded = usize_max then
        refused (error_new RecoveryFailed
          ''terminal outcome cannot be serialized within the protocol-v1 domain'') a
      else
        let additional = sat_sub encoded TERMINAL_FAILURE_RESERVE_BYTES
        in if usize_max < a_turn_history_bytes a + additional
              \<or> ac_turn_history_byte_capacity (a_config a) < a_turn_history_bytes a + additional
           then refused (turn_history_capacity_error
                  ''the exact terminal outcome does not fit the per-session turn history'' additional a) a
           else case bm_get (a_turns a) turn of
             None \<Rightarrow> refused (error_new Internal ''terminal outcome has no reserved TurnId record'') a
           | Some r \<Rightarrow>
               if rec_terminal r \<noteq> None then
                 refused (error_new Internal ''terminal outcome was already recorded'') a
               else (Inr (), a\<lparr>a_turns := bm_insert turn (r\<lparr>rec_terminal := Some terminal\<rparr>) (a_turns a),
                               a_turn_history_bytes :=
                                 min (a_turn_history_bytes a + additional) usize_max\<rparr>))"

definition try_store_terminal ::
  "sizes \<Rightarrow> turn_id \<Rightarrow> stored_turn_terminal \<Rightarrow> actor \<Rightarrow> (error_body + unit) \<times> actor" where
  "try_store_terminal Z turn terminal =
     try_store_terminal_with_bytes turn terminal (stored_terminal_bytes Z terminal)"

definition bounded_terminal_error :: "sizes \<Rightarrow> turn_id \<Rightarrow> error_body \<Rightarrow> actor \<Rightarrow> error_body" where
  "bounded_terminal_error Z turn e a =
     (let actual = terminal_error_wire_bytes Z (a_session_id a) (a_generation_id a) turn e
      in if actual = usize_max then
           error_new RecoveryFailed ''terminal error cannot be serialized within the protocol-v1 domain''
         else if actual \<le> frame_limit a then e
         else with_details (json_object
                [(''actual_bytes'', diagnostic_usize actual),
                 (''maximum_bytes'', diagnostic_usize (frame_limit a)),
                 (''original_code'', JString (debug_code (code e)))])
              (error_new ResultTooLarge ''terminal error exceeds the native frame limit''))"

text \<open>The second attempt is an \<open>expect\<close>: each accepted turn reserves space for a compact failure.\<close>

definition store_bounded_failure :: "sizes \<Rightarrow> turn_id \<Rightarrow> error_body \<Rightarrow> actor \<Rightarrow> error_body \<times> actor" where
  "store_bounded_failure Z turn e a =
     (let e1 = bounded_terminal_error Z turn e a
      in case try_store_terminal Z turn (StoredFailed e1) a of
           (Inr _, a') \<Rightarrow> (e1, a')
         | (Inl capacity, a') \<Rightarrow>
             let e2 = bounded_terminal_error Z turn capacity a'
             in case try_store_terminal Z turn (StoredFailed e2) a' of
                  (Inr _, a'') \<Rightarrow> (e2, a'')
                | (Inl _, a'') \<Rightarrow> (e2, panic a''))"

definition replace_terminal_with_failure :: "sizes \<Rightarrow> turn_id \<Rightarrow> error_body \<Rightarrow> actor \<Rightarrow> error_body \<times> actor" where
  "replace_terminal_with_failure Z turn e a =
     store_bounded_failure Z turn e
       (case bm_get (a_turns a) turn of
          None \<Rightarrow> a
        | Some r \<Rightarrow>
            (case rec_terminal r of
               None \<Rightarrow> a
             | Some previous \<Rightarrow>
                 a\<lparr>a_turns := bm_insert turn (r\<lparr>rec_terminal := None\<rparr>) (a_turns a),
                   a_turn_history_bytes := sat_sub (a_turn_history_bytes a)
                     (sat_sub (stored_terminal_bytes Z previous) TERMINAL_FAILURE_RESERVE_BYTES)\<rparr>))"

section \<open>Writable attachments\<close>

definition release_attach_after_proven_turn :: "actor \<Rightarrow> actor" where
  "release_attach_after_proven_turn a =
     (if a_writable_attach_release_pending a
      then case a_writable_attach a of None \<Rightarrow> a | Some attach_id \<Rightarrow> set_off (ReconcileAttach attach_id) a
      else a)"

definition release_attach_after_failed_turn :: "actor \<Rightarrow> actor" where
  "release_attach_after_failed_turn a =
     (if a_writable_attach_release_pending a
      then (case checked_now_ms ''session_timestamp''
                   (a\<lparr>a_writable_attach := None, a_writable_attach_release_pending := False\<rparr>) of
              (Inr t, a') \<Rightarrow> a'\<lparr>a_updated_at_ms := t\<rparr>
            | (Inl _, a') \<Rightarrow> a')
      else a)"

definition refuse_writable_attach_on_minified_cell :: "session_cell \<Rightarrow> error_body + unit" where
  "refuse_writable_attach_on_minified_cell cell =
     (if cell \<noteq> Minified then Inr ()
      else Inl (with_details (json_object
             [(''field'', JString ''writable''),
              (''violation'', JString ''writable_attach_forbidden_on_minified_cell''),
              (''recommendation'',
               JString ''remint the cell; writable attach and run_turn are not a product'')])
           (error_new UnsupportedFeature ''a minified cell does not grant writable terminal attachments'')))"

definition reserve_writable_attach :: "uuid \<Rightarrow> actor \<Rightarrow> (error_body + unit) \<times> actor" where
  "reserve_writable_attach attach_id a =
     (case refuse_writable_attach_on_minified_cell (a_cell a) of
        Inl e \<Rightarrow> refused e a
      | Inr _ \<Rightarrow>
          if a_writable_attach a \<noteq> None then
            refused (with_retryable True (error_new SessionBusy
              ''session already has a writable terminal attachment'')) a
          else if a_state a \<notin> {SReady, SNeedsInput} then
            refused (with_retryable
                (a_state a \<in> {SCreating, SBooting, SSubmitting, SAwaitingPromptAck, SRunning,
                               STerminalCandidate, SDraining, SCancelling})
              (error_new SessionBusy
                (''writable attach is unavailable while session is '' @ debug_state (a_state a)))) a
          else and_then (checked_now_ms ''session_timestamp'') (\<lambda>t a.
            (Inr (), a\<lparr>a_writable_attach := Some attach_id, a_writable_attach_release_pending := False,
                       a_updated_at_ms := t\<rparr>)) a)"

definition release_writable_attach ::
  "uuid \<Rightarrow> attach_completion \<Rightarrow> actor \<Rightarrow> (error_body + unit) \<times> actor" where
  "release_writable_attach attach_id completion a0 =
     (case a_writable_attach a0 of
        None \<Rightarrow> (Inr (), a0)
      | Some current \<Rightarrow>
          if current \<noteq> attach_id then
            refused (error_new IdConflict
              ''writable attach reservation does not match the active attachment'') a0
          else and_then (checked_now_ms ''session_timestamp'') (\<lambda>t a.
            (Inr (),
             if completion = AttachUnused then
               a\<lparr>a_writable_attach := None, a_writable_attach_release_pending := False, a_updated_at_ms := t\<rparr>
             else if a_active a \<noteq> None then
               a\<lparr>a_writable_attach_release_pending := True, a_updated_at_ms := t\<rparr>
             else
               set_off (ReconcileAttach attach_id)
                 (a\<lparr>a_writable_attach_release_pending := True, a_updated_at_ms := t\<rparr>))) a0)"

definition finish_attach_reconciliation ::
  "sizes \<Rightarrow> uuid \<Rightarrow> error_body + attach_reconciliation \<Rightarrow> actor \<Rightarrow> actor" where
  "finish_attach_reconciliation Z attach_id result a0 =
     (if a_writable_attach a0 \<noteq> Some attach_id \<or> \<not> a_writable_attach_release_pending a0 then a0
      else case checked_now_ms ''session_timestamp'' a0 of
        (Inl _, a) \<Rightarrow> a
      | (Inr t, a1) \<Rightarrow>
          let a = a1\<lparr>a_writable_attach := None, a_writable_attach_release_pending := False,
                     a_updated_at_ms := t\<rparr>
          in case result of
               Inr AttachReady \<Rightarrow> resolve_needs_input Z SReady None a
             | Inr (AttachNeedsInput ni) \<Rightarrow>
                 (case set_needs_input Z ni SReady None a of
                    (Inr _, a') \<Rightarrow> a'
                  | (Inl e, a') \<Rightarrow> try_transition Z STainted (Some (message e)) None a')
             | Inl e \<Rightarrow> try_transition Z STainted (Some (message e)) None a)"

section \<open>The end of a turn\<close>

definition answer_waiters :: "ticket list \<Rightarrow> error_body + cancel_turn_result \<Rightarrow> actor \<Rightarrow> actor" where
  "answer_waiters waiters answer a = a\<lparr>a_effects := a_effects a @ map (\<lambda>w. AnswerCancel w answer) waiters\<rparr>"

text \<open>
  A turn that is dropped drops the channels its cancel requests wait on, which their handles read as a lost
  actor.
\<close>

definition daemon_lost :: error_body where
  "daemon_lost = with_retryable True (error_new DaemonLost ''session actor is unavailable'')"

definition drop_active :: "actor \<Rightarrow> actor" where
  "drop_active a =
     (case a_active a of
        None \<Rightarrow> a
      | Some act \<Rightarrow> answer_waiters (at_cancel_waiters act) (Inl daemon_lost) (a\<lparr>a_active := None\<rparr>))"

definition poison_after_unpublishable_terminal :: "sizes \<Rightarrow> turn_id \<Rightarrow> error_body \<Rightarrow> actor \<Rightarrow> actor" where
  "poison_after_unpublishable_terminal Z turn e a =
     (let a' = snd (replace_terminal_with_failure Z turn e a)
      in (release_attach_after_failed_turn
            (a'\<lparr>a_state := STainted, a_needs_input := None, a_needs_input_resume := None\<rparr>))
           \<lparr>a_last_turn := None\<rparr>)"

definition summary_of :: "turn_id \<Rightarrow> turn_outcome \<Rightarrow> timestamp_ms \<Rightarrow> u64 \<Rightarrow> turn_summary" where
  "summary_of turn outcome completed_at final =
     \<lparr>ts_turn_id = turn, ts_outcome = outcome, ts_completed_at_ms = completed_at, ts_final_sequence = final\<rparr>"

definition finish_completed_with_error ::
  "sizes \<Rightarrow> turn_id \<Rightarrow> timestamp_ms \<Rightarrow> error_body \<Rightarrow> actor \<Rightarrow> actor" where
  "finish_completed_with_error Z turn completed_at e a =
     (let checked = checked_actor_timestamp completed_at ''turn_completed_at'';
          e1 = (case checked of Inr _ \<Rightarrow> e | Inl te \<Rightarrow> te)
      in case store_bounded_failure Z turn e1 a of (e2, a1) \<Rightarrow>
           (let final = a_next_sequence a1
            in case emit Z (Some turn) (EvTurnFailed e2) a1 of
                 (Inl ee, a2) \<Rightarrow> poison_after_unpublishable_terminal Z turn ee a2
               | (Inr _, a2) \<Rightarrow>
                   a2\<lparr>a_last_turn := (case checked of
                        Inr t \<Rightarrow> Some (summary_of turn OFailed t final) | Inl _ \<Rightarrow> None)\<rparr>))"

text \<open>What refuses to store a completed result: the deadline, the wire domain, the frame, the history.\<close>

definition complete_active :: "sizes \<Rightarrow> turn_id \<Rightarrow> turn_result \<Rightarrow> turn_deadline \<Rightarrow> actor \<Rightarrow> actor" where
  "complete_active Z turn result0 deadline a0 =
     (case transition Z SReady None (Some turn) (drop_active a0) of
        (Inl e, a) \<Rightarrow> poison_after_unpublishable_terminal Z turn e a
      | (Inr _, a1) \<Rightarrow>
          let a2 = release_attach_after_proven_turn a1;
              result = result0\<lparr>tr_final_sequence := a_next_sequence a2\<rparr>;
              completed_at = tt_completed_at_ms (tr_timings result);
              wire = turn_result_wire_bytes Z result;
              stored_bytes = stored_terminal_bytes Z (StoredResult result)
          in case deadline_expired deadline a2 of
               (True, a3) \<Rightarrow>
                 (case now_ms a3 of (t, a4) \<Rightarrow> finish_completed_with_error Z turn t turn_timeout_error a4)
             | (False, a3) \<Rightarrow>
                 if wire = usize_max then
                   finish_completed_with_error Z turn completed_at
                     (error_new RecoveryFailed
                        ''turn result cannot be serialized within the protocol-v1 domain'') a3
                 else if frame_limit a3 < wire then
                   finish_completed_with_error Z turn completed_at
                     (with_details (json_object
                        [(''actual_bytes'', diagnostic_usize wire),
                         (''maximum_bytes'', diagnostic_usize (frame_limit a3))])
                      (error_new ResultTooLarge ''exact turn result exceeds the native frame limit'')) a3
                 else case try_store_terminal_with_bytes turn (StoredResult result) stored_bytes a3 of
                   (Inl e, a4) \<Rightarrow> finish_completed_with_error Z turn completed_at e a4
                 | (Inr _, a4) \<Rightarrow>
                     (case emit Z (Some turn) (EvTurnCompleted result) a4 of
                        (Inl e, a5) \<Rightarrow> poison_after_unpublishable_terminal Z turn e a5
                      | (Inr _, a5) \<Rightarrow>
                          a5\<lparr>a_last_turn := Some (summary_of turn (tr_outcome result) completed_at
                                (tr_final_sequence result))\<rparr>))"

definition timeout_completed_at_commit :: "sizes \<Rightarrow> turn_id \<Rightarrow> actor \<Rightarrow> actor" where
  "timeout_completed_at_commit Z turn a0 =
     (case transition Z SReady None (Some turn) (drop_active a0) of
        (Inl e, a) \<Rightarrow> poison_after_unpublishable_terminal Z turn e a
      | (Inr _, a1) \<Rightarrow>
          (case now_ms (release_attach_after_proven_turn a1) of (t, a2) \<Rightarrow>
             finish_completed_with_error Z turn t turn_timeout_error a2))"

definition cancel_result :: "turn_id \<Rightarrow> cancel_outcome \<Rightarrow> actor \<Rightarrow> cancel_turn_result" where
  "cancel_result turn outcome a =
     \<lparr>ct_session_id = a_session_id a, ct_generation_id = a_generation_id a, ct_turn_id = turn,
      ct_outcome = outcome, ct_session_state = a_state a\<rparr>"

definition fail_active :: "sizes \<Rightarrow> turn_id \<Rightarrow> error_body \<Rightarrow> bool \<Rightarrow> actor \<Rightarrow> actor" where
  "fail_active Z turn e0 reaped a0 =
     (case a_active a0 of
        None \<Rightarrow> panic a0
      | Some act \<Rightarrow>
          let a1 = a0\<lparr>a_active := None, a_process_reaped := (a_process_reaped a0 \<or> reaped)\<rparr>
          in case checked_now_ms ''turn_completed_at'' a1 of (completed_at, a2) \<Rightarrow>
             (case store_bounded_failure Z turn e0 a2 of (e, a3) \<Rightarrow>
                (let target = (if a_state a3 = SCancelling then STainted else SFailed)
                 in case transition Z target (Some (message e)) (Some turn) a3 of (moved, a4) \<Rightarrow>
                    (let a5 = release_attach_after_failed_turn a4; final = a_next_sequence a5
                     in case (case moved of
                               Inl te \<Rightarrow> (Inl te, a5)
                             | Inr _ \<Rightarrow> emit Z (Some turn) (EvTurnFailed e) a5) of
                          (Inl pe, a6) \<Rightarrow>
                            (let a7 = poison_after_unpublishable_terminal Z turn pe a6
                             in answer_waiters (at_cancel_waiters act)
                                  (Inr (cancel_result turn CancelRecoveryFailed a7)) a7)
                        | (Inr _, a6) \<Rightarrow>
                            (let a7 = a6\<lparr>a_last_turn := (case completed_at of
                                   Inr t \<Rightarrow> Some (summary_of turn OFailed t final) | Inl _ \<Rightarrow> None)\<rparr>
                             in answer_waiters (at_cancel_waiters act)
                                  (Inr (cancel_result turn CancelRecoveryFailed a7)) a7)))))"

section \<open>Cancellation\<close>

definition compatibility_warnings :: "compatibility_report \<Rightarrow> protocol_warning list" where
  "compatibility_warnings r =
     (if cr_tested r then []
      else let (c, m) =
             (if cr_unpromoted r
              then (''unpromoted_compatibility_profile'',
                    ''this daemon runs --allow-unpromoted-claude: no measurement backs this cell'')
              else (''untested_compatibility_profile'',
                    ''this turn used an explicit allow_untested compatibility override''))
           in [\<lparr>pw_code = c, pw_message = m, pw_details = json_object
                 [(''claude_version'', JString (cr_claude_version r)), (''os'', JString (cr_os r)),
                  (''arch'', JString (cr_arch r)),
                  (''terminal_profile'', JString (profile_name (cr_terminal_profile r))),
                  (''input_transport'', JString (transport_name (cr_input_transport r))),
                  (''tested'', JBool False), (''unpromoted'', JBool (cr_unpromoted r)),
                  (''transcript_drain_ms'', JNum (cr_transcript_drain_ms r))]\<rparr>])"

definition permission_bypass_warnings :: "bool \<Rightarrow> protocol_warning list" where
  "permission_bypass_warnings bypass =
     (if \<not> bypass then []
      else [\<lparr>pw_code = ''dangerous_permission_bypass'',
             pw_message = ''this session launched Claude with --dangerously-skip-permissions'',
             pw_details = JNull\<rparr>])"

definition cancelled_timings :: "timestamp_ms \<Rightarrow> timestamp_ms \<Rightarrow> turn_timings" where
  "cancelled_timings submitted completed =
     \<lparr>tt_submitted_at_ms = submitted, tt_prompt_acknowledged_at_ms = None,
      tt_terminal_candidate_at_ms = None, tt_completed_at_ms = completed, tt_drain_ms = None,
      tt_last_transcript_activity_at_ms = None, tt_stop_hook_at_ms = None,
      tt_turn_duration_observed_at_ms = None, tt_post_turn_duration_row_observed_at_ms = None\<rparr>"

definition usage_default :: usage_breakdown where
  "usage_default = \<lparr>main = token_usage_default, sidechain = token_usage_default,
     combined = token_usage_default, cost_usd = None\<rparr>"

definition cancelled_turn_result :: "turn_id \<Rightarrow> timestamp_ms \<Rightarrow> timestamp_ms \<Rightarrow> u64 \<Rightarrow> actor \<Rightarrow> turn_result" where
  "cancelled_turn_result turn submitted completed final a =
     \<lparr>tr_session_id = a_session_id a, tr_generation_id = a_generation_id a, tr_turn_id = turn,
      tr_outcome = OCancelled, tr_text = [], tr_final_blocks = [], tr_tools = [], tr_model = None,
      tr_stop_reason = None, tr_usage = usage_default, tr_sidechain_rows = 0,
      tr_timings = cancelled_timings submitted completed,
      tr_warnings = compatibility_warnings (a_compatibility a)
        @ permission_bypass_warnings (a_dangerous_permission_bypass a),
      tr_claude_version = cr_claude_version (a_compatibility a), tr_compatibility = a_compatibility a,
      tr_completion = \<lparr>cp_authority = FromTranscript, cp_prompt_acknowledged = False,
        cp_terminal_message_observed = False, cp_terminal_prompt_observed = True,
        cp_terminal_quiet_observed = True, cp_transcript_drained = True,
        cp_lifecycle_hook_observed = False\<rparr>,
      tr_final_sequence = final\<rparr>"

definition cancel_unpublished :: "sizes \<Rightarrow> turn_id \<Rightarrow> ticket list \<Rightarrow> error_body \<Rightarrow> actor \<Rightarrow> actor" where
  "cancel_unpublished Z turn waiters e a =
     (let a' = poison_after_unpublishable_terminal Z turn e a
      in answer_waiters waiters (Inr (cancel_result turn CancelRecoveryFailed a')) a')"

text \<open>
  The outcome a finished cancellation stores: with its final sequence and its summary's outcome, or the
  error that kept the failure of storing it from being published.
\<close>

definition store_cancelled ::
  "sizes \<Rightarrow> turn_id \<Rightarrow> bool \<Rightarrow> timestamp_ms \<Rightarrow> u64 \<Rightarrow> actor \<Rightarrow> (error_body + u64 \<times> turn_outcome) \<times> actor" where
  "store_cancelled Z turn recovered completed_at final a =
     (if recovered then
        let submitted = (case bm_get (a_turns a) turn of
              None \<Rightarrow> completed_at | Some r \<Rightarrow> rec_submitted_at_ms r)
        in case try_store_terminal Z turn
                  (StoredResult (cancelled_turn_result turn submitted completed_at final a)) a of
             (Inr _, a') \<Rightarrow> (Inr (final, OCancelled), a')
           | (Inl e, a') \<Rightarrow>
               (case store_bounded_failure Z turn e a' of (e', a'') \<Rightarrow>
                  (let final' = a_next_sequence a''
                   in and_then (emit Z (Some turn) (EvTurnFailed e'))
                        (\<lambda>_ a. (Inr (final', OFailed), a)) a''))
      else
        (Inr (final, OFailed), snd (store_bounded_failure Z turn
           (error_new RecoveryFailed ''Claude did not recover to a ready prompt after cancellation'') a)))"

definition finish_cancel ::
  "sizes \<Rightarrow> turn_id \<Rightarrow> cancel_outcome \<Rightarrow> bool \<Rightarrow> timestamp_ms \<Rightarrow> bool \<Rightarrow> actor \<Rightarrow> actor" where
  "finish_cancel Z turn outcome recovered completed_at reaped a0 =
     (case checked_actor_timestamp completed_at ''turn_completed_at'' of
        Inl e \<Rightarrow> fail_active Z turn e reaped a0
      | Inr _ \<Rightarrow>
        (case a_active a0 of
           None \<Rightarrow> panic a0
         | Some act \<Rightarrow>
          (let a1 = a0\<lparr>a_active := None, a_process_reaped := (a_process_reaped a0 \<or> reaped)\<rparr>;
               target = (if recovered \<and> \<not> a_writable_attach_release_pending a1 then SReady else STainted);
               waiters = at_cancel_waiters act
           in case transition Z target None (Some turn) a1 of
                (Inl e, a2) \<Rightarrow> cancel_unpublished Z turn waiters e a2
              | (Inr _, a2) \<Rightarrow>
                 (let a3 = release_attach_after_failed_turn a2; final = a_next_sequence a3
                  in case emit Z (Some turn) (EvTurnCancelled
                            \<lparr>te_outcome = outcome, te_recovered_to_ready = recovered\<rparr>) a3 of
                       (Inl e, a4) \<Rightarrow> cancel_unpublished Z turn waiters e a4
                     | (Inr _, a4) \<Rightarrow>
                        (case store_cancelled Z turn recovered completed_at final a4 of
                           (Inl e, a5) \<Rightarrow> cancel_unpublished Z turn waiters e a5
                         | (Inr (final', terminal_outcome), a5) \<Rightarrow>
                             (let a6 = a5\<lparr>a_last_turn :=
                                    Some (summary_of turn terminal_outcome completed_at final')\<rparr>
                              in answer_waiters waiters (Inr (cancel_result turn outcome a6)) a6))))))"

definition cancel :: "sizes \<Rightarrow> turn_id \<Rightarrow> ticket \<Rightarrow> actor \<Rightarrow> actor" where
  "cancel Z turn reply a0 =
     (if (case bm_get (a_turns a0) turn of None \<Rightarrow> False | Some r \<Rightarrow> rec_terminal r \<noteq> None) then
        answer_waiters [reply] (Inr (cancel_result turn AlreadyTerminal a0)) a0
      else case a_active a0 of
        None \<Rightarrow> answer_waiters [reply] (Inl (error_new IdConflict ''turn is not active in this session'')) a0
      | Some act \<Rightarrow>
          if at_turn_id act \<noteq> turn then
            answer_waiters [reply] (Inl (error_new IdConflict ''turn_id does not match the active turn'')) a0
          else
            let begin_recovery = a_state a0 \<noteq> SCancelling
            in case (if begin_recovery
                     then and_then (ensure_sequence_slots
                              (1 + TERMINAL_SEQUENCE_EVENTS + CLOSE_SEQUENCE_RESERVE))
                            (\<lambda>_. transition Z SCancelling None (Some turn)) a0
                     else (Inr (), a0)) of
                 (Inl e, a) \<Rightarrow> answer_waiters [reply] (Inl e) a
               | (Inr _, a) \<Rightarrow>
                   (case a_active a of
                      None \<Rightarrow> panic a
                    | Some act' \<Rightarrow>
                        (let a' = set_off (AbortTurn turn)
                               (a\<lparr>a_active := Some (act'\<lparr>at_cancel_waiters := at_cancel_waiters act' @ [reply]\<rparr>)\<rparr>)
                         in if begin_recovery then set_off (RecoverCancelled turn) a' else a')))"

section \<open>Submission\<close>

fun needs_input_error_code :: "needs_input_kind \<Rightarrow> error_code" where
  "needs_input_error_code KTrust = NeedsTrust"
| "needs_input_error_code KLogin = NeedsLogin"
| "needs_input_error_code KPermission = NeedsPermission"
| "needs_input_error_code KUpdate = NeedsUpdate"
| "needs_input_error_code KQuota = RateLimited"
| "needs_input_error_code KUnknownModal = NeedsInput"

fun needs_input_recommendation :: "needs_input_kind \<Rightarrow> string" where
  "needs_input_recommendation KTrust =
     ''Claude is holding its workspace-trust modal. The pool must mint a pre-trusted empty cwd; '' @
     ''remint the cell. pmux will not answer the modal.''"
| "needs_input_recommendation KLogin =
     ''Claude is not authenticated in this configuration root. Run `claude` against the pool '' @
     ''Claude once and log in. pmux will not answer the modal.''"
| "needs_input_recommendation KPermission =
     ''Claude is holding a permission prompt. A minified cell denies tools; remint the cell. '' @
     ''pmux will not answer the modal.''"
| "needs_input_recommendation KUpdate =
     ''Claude is holding an update prompt. Update the pool's `--pool-claude` executable and '' @
     ''remint. pmux will not answer the modal.''"
| "needs_input_recommendation KQuota =
     ''Claude reports the account is out of quota. Wait for the window to reset or use a '' @
     ''different account; pmux cannot clear this from here.''"
| "needs_input_recommendation KUnknownModal =
     ''Claude is holding a modal pmux does not recognize. Remint the cell. pmux will not answer '' @
     ''the modal.''"

definition actor_prompt_fingerprint :: "utext \<Rightarrow> 64 word" where
  "actor_prompt_fingerprint prompt =
     fold (\<lambda>b hash. (hash XOR ucast b) * 0x00000100000001b3) (utf8 prompt) 0xcbf29ce484222325"

definition not_ready_message :: "actor \<Rightarrow> string" where
  "not_ready_message a =
     (case a_needs_input a of
        Some ni \<Rightarrow> ''session is not ready: '' @ debug_state (a_state a) @ '' ('' @ debug_kind (ni_kind ni) @
          '': '' @ ni_message ni @ '')''
      | None \<Rightarrow> ''session is not ready: '' @ debug_state (a_state a))"

definition not_ready_error :: "actor \<Rightarrow> error_body" where
  "not_ready_error a =
     (let (c, retry) = (case a_state a of
            SNeedsInput \<Rightarrow> (case a_needs_input a of
                None \<Rightarrow> NeedsInput | Some ni \<Rightarrow> needs_input_error_code (ni_kind ni), True)
          | STainted \<Rightarrow> (RecoveryFailed, False)
          | SClosed \<Rightarrow> (SessionNotFound, False)
          | SClosing \<Rightarrow> (SessionNotFound, False)
          | SFailed \<Rightarrow> (TranscriptUnavailable, False)
          | _ \<Rightarrow> (SessionBusy, True));
          e = with_retryable retry (error_new c (not_ready_message a))
      in case a_needs_input a of
           None \<Rightarrow> e
         | Some ni \<Rightarrow> with_details (json_object
             [(''violation'', JString ''session_not_ready''),
              (''state'', JString (debug_state (a_state a))),
              (''needs_input_kind'', JString (kind_name (ni_kind ni))),
              (''needs_input_message'', JString (ni_message ni)),
              (''recommendation'', JString (needs_input_recommendation (ni_kind ni)))]) e)"

definition accepted :: "turn_id \<Rightarrow> bool \<Rightarrow> u64 \<Rightarrow> actor \<Rightarrow> turn_accepted" where
  "accepted turn replayed next a =
     \<lparr>ta_session_id = a_session_id a, ta_generation_id = a_generation_id a, ta_turn_id = turn,
      ta_replayed = replayed, ta_state = a_state a, ta_next_sequence = next\<rparr>"

text \<open>A turn id that was used before: the same prompt is answered from the record, another is refused.\<close>

definition replay_turn :: "sizes \<Rightarrow> turn_id \<Rightarrow> turn_record \<Rightarrow> actor \<Rightarrow> (error_body + turn_accepted) \<times> actor" where
  "replay_turn Z turn r a0 =
     (let from = a_next_sequence a0
      in case rec_terminal r of
           None \<Rightarrow> (Inr (accepted turn True from a0), a0)
         | Some terminal \<Rightarrow>
             and_then (ensure_sequence_slots (1 + CLOSE_SEQUENCE_RESERVE)) (\<lambda>_.
             and_then (emit Z (Some turn) (case terminal of
                 StoredResult res \<Rightarrow> EvTurnCompleted (res\<lparr>tr_final_sequence := from\<rparr>)
               | StoredFailed e \<Rightarrow> EvTurnFailed e)) (\<lambda>_ a.
             (Inr (accepted turn True from a), a))) a0)"

text \<open>Reserve the id and its bytes, become busy, and set the turn in motion.\<close>

definition start_turn ::
  "sizes \<Rightarrow> turn_request \<Rightarrow> utext \<Rightarrow> timestamp_ms \<Rightarrow> actor \<Rightarrow> (error_body + turn_accepted) \<times> actor" where
  "start_turn Z t prompt submitted a =
     (let bytes = min (min (z_record Z + byte_len prompt) usize_max + TERMINAL_FAILURE_RESERVE_BYTES) usize_max
      in if ac_turn_history_capacity (a_config a) \<le> bm_len (a_turns a) then
           refused (turn_history_capacity_error ''the per-session TurnId capacity is exhausted'' 0 a) a
         else if usize_max < a_turn_history_bytes a + bytes
              \<or> ac_turn_history_byte_capacity (a_config a) < a_turn_history_bytes a + bytes then
           refused (turn_history_capacity_error
             ''the per-session turn history byte capacity is exhausted'' bytes a) a
         else
           and_then (transition Z SSubmitting None (Some (tq_turn_id t))) (\<lambda>_ a'.
             let b = set_off (StartTurn t submitted (a_cell a') (a_transcript_session_id a')) a'
             in case a_active b of
                  None \<Rightarrow> refused daemon_lost (panic b)
                | Some act \<Rightarrow> (Inr (accepted (at_turn_id act) False (a_next_sequence b) b), b))
           (a\<lparr>a_turn_history_bytes := a_turn_history_bytes a + bytes,
              a_turns := bm_insert (tq_turn_id t)
                \<lparr>rec_prompt_fingerprint = actor_prompt_fingerprint prompt, rec_normalized_prompt = prompt,
                 rec_submitted_at_ms = submitted, rec_terminal = None\<rparr> (a_turns a),
              a_active := Some \<lparr>at_turn_id = tq_turn_id t, at_cancel_waiters = []\<rparr>\<rparr>))"

definition admit_turn ::
  "sizes \<Rightarrow> turn_request \<Rightarrow> utext \<Rightarrow> actor \<Rightarrow> (error_body + turn_accepted) \<times> actor" where
  "admit_turn Z t prompt =
     and_then (checked_now_ms ''turn_submitted_at'') (\<lambda>submitted a.
       case checked_turn_deadline_unix_ms (tq_deadline_unix_ms t) submitted
              (ac_default_turn_timeout_ms (a_config a)) of
         Inl e \<Rightarrow> refused e a
       | Inr deadline \<Rightarrow>
           if deadline \<le> submitted then refused (error_new TurnTimeout ''turn deadline already elapsed'') a
           else case a_active a of
             Some act \<Rightarrow>
               refused (with_retryable True (error_new SessionBusy
                 (''session already has active turn '' @ at_turn_id act))) a
           | None \<Rightarrow>
               if a_writable_attach a \<noteq> None then
                 refused (with_retryable True (error_new SessionBusy
                   ''a writable terminal attachment currently owns interactive input'')) a
               else if a_state a \<noteq> SReady then refused (not_ready_error a) a
               else and_then (ensure_sequence_slots (1 + TERMINAL_SEQUENCE_EVENTS + CLOSE_SEQUENCE_RESERVE))
                      (\<lambda>_. start_turn Z t prompt submitted) a)"

definition submit ::
  "sizes \<Rightarrow> (utext \<Rightarrow> utext) \<Rightarrow> turn_request \<Rightarrow> actor \<Rightarrow> (error_body + turn_accepted) \<times> actor" where
  "submit Z nfc t a =
     (if \<not> turn_request_serializable t then
        refused (error_new InvalidConfig ''turn request is outside the protocol-v1 wire domain'') a
      else if lp_on_disconnect (tq_lease t) \<noteq> OnContinue \<or> lp_heartbeat_timeout_ms (tq_lease t) \<noteq> None then
        refused (error_new UnsupportedFeature
          ''disconnect actions and heartbeat leases require a future leased connection API'') a
      else case validate_prompt nfc (tq_prompt t) of
        Inl e \<Rightarrow> refused e a
      | Inr prompt \<Rightarrow>
          (case bm_get (a_turns a) (tq_turn_id t) of
             Some r \<Rightarrow>
               if rec_prompt_fingerprint r \<noteq> actor_prompt_fingerprint prompt
                  \<or> rec_normalized_prompt r \<noteq> prompt
               then refused (error_new IdConflict ''turn_id was already used with a different prompt'') a
               else replay_turn Z (tq_turn_id t) r a
           | None \<Rightarrow> admit_turn Z t prompt a))"

end
