(* ===== verification/ActorLoop.thy ===== *)
theory ActorLoop
  imports Actor
begin

text \<open>
  The rest of the session actor: closing, clearing, what the turn worker reports, reading the event log,
  and the loop that takes one message after another (\<open>src/crates/service/src/v1/actor.rs\<close>).
\<close>

section \<open>Closing\<close>

definition close_result :: "bool \<Rightarrow> bool \<Rightarrow> actor \<Rightarrow> close_session_result" where
  "close_result already reaped a =
     \<lparr>cs_session_id = a_session_id a, cs_generation_id = a_generation_id a, cs_already_closed = already,
      cs_process_reaped = reaped\<rparr>"

definition abandon_active :: "actor \<Rightarrow> actor" where
  "abandon_active a =
     (case a_active a of
        None \<Rightarrow> a
      | Some act \<Rightarrow>
          answer_waiters (at_cancel_waiters act)
            (Inl (error_new Cancelled ''session closed while cancellation was pending''))
            (set_off (AbortTurn (at_turn_id act)) (a\<lparr>a_active := None\<rparr>)))"

text \<open>\<open>closed\<close> is what the terminal answers: whether the process was reaped.\<close>

definition close ::
  "sizes \<Rightarrow> error_body + bool \<Rightarrow> actor \<Rightarrow> (error_body + close_session_result) \<times> actor" where
  "close Z closed a0 =
     (if a_state a0 = SClosed then (Inr (close_result True (a_process_reaped a0) a0), a0)
      else
        and_then (transition Z SClosing None None) (\<lambda>_ a.
          if a_process_reaped a then
            and_then (transition Z SClosed None None) (\<lambda>_ a. (Inr (close_result False True a), a)) a
          else case closed of
            Inr reaped \<Rightarrow>
              (let a' = a\<lparr>a_process_reaped := reaped\<rparr>
               in if reaped
                  then and_then (transition Z SClosed None None) (\<lambda>_ a. (Inr (close_result False reaped a), a)) a'
                  else (Inr (close_result False reaped a'), a'))
          | Inl e \<Rightarrow> refused e (try_transition Z SFailed (Some (message e)) None a))
        (abandon_active (a0\<lparr>a_writable_attach := None, a_writable_attach_release_pending := False\<rparr>)))"

definition expire_idle ::
  "sizes \<Rightarrow> timestamp_ms \<Rightarrow> error_body + bool \<Rightarrow> actor \<Rightarrow> (error_body + close_session_result option) \<times> actor" where
  "expire_idle Z now closed a =
     (case checked_idle_deadline (a_updated_at_ms a) (a_idle_ttl_ms a) of
        Inl e \<Rightarrow> refused e a
      | Inr deadline \<Rightarrow>
          if a_state a \<notin> {SReady, SNeedsInput} \<or> a_active a \<noteq> None \<or> a_writable_attach a \<noteq> None
             \<or> now < deadline
          then (Inr None, a)
          else and_then (close Z closed) (\<lambda>r a. (Inr (Some r), a)) a)"

section \<open>The minified cell\<close>

definition require_tested_for_minified_cell :: "compatibility_report \<Rightarrow> error_body + unit" where
  "require_tested_for_minified_cell r =
     (if cr_tested r \<or> cr_unpromoted r then Inr ()
      else Inl (with_details (json_object
             [(''claude_version'', JString (cr_claude_version r)), (''os'', JString (cr_os r)),
              (''arch'', JString (cr_arch r)),
              (''recommendation'', JString (''measure this os/arch with tools/dev/drain_n50.py, '' @
                 ''tools/dev/operator_eval.py and tools/dev/living_pmux_run.py, then promote it with '' @
                 ''tools/dev/promote.py (tools/dev/README.md)''))])
           (error_new UnsupportedClaudeVersion
              ''the minified cell requires a tested compatibility profile'')))"

definition select_minified_cell :: "actor \<Rightarrow> (error_body + unit) \<times> actor" where
  "select_minified_cell a =
     (case require_tested_for_minified_cell (a_compatibility a) of
        Inl e \<Rightarrow> refused e a
      | Inr _ \<Rightarrow>
          if a_active a \<noteq> None then
            refused (with_retryable True (error_new SessionBusy
              ''the cell cannot change while a turn is active'')) a
          else if a_writable_attach a \<noteq> None then
            refused (with_retryable True (error_new SessionBusy
              ''the cell cannot change while a writable terminal attachment is held'')) a
          else and_then (checked_now_ms ''session_timestamp'') (\<lambda>t a.
                 (Inr (), a\<lparr>a_cell := Minified, a_updated_at_ms := t\<rparr>)) a)"

definition cleared_result :: "actor \<Rightarrow> clear_session_result" where
  "cleared_result a =
     \<lparr>cl_session_id = a_session_id a, cl_generation_id = a_generation_id a,
      cl_transcript_session_id = a_transcript_session_id a, cl_rotated = True, cl_state = a_state a\<rparr>"

definition poison_after_failed_rebind :: "sizes \<Rightarrow> error_body \<Rightarrow> actor \<Rightarrow> error_body \<times> actor" where
  "poison_after_failed_rebind Z e a =
     (case transition Z STainted (Some (message e)) None a of
        (Inr _, a') \<Rightarrow> (e, a')
      | (Inl _, a') \<Rightarrow> (e, a'\<lparr>a_state := STainted\<rparr>))"

definition CLEAR_NOT_SUBMITTED :: string where "CLEAR_NOT_SUBMITTED = ''clear_not_submitted''"

definition clear_was_not_submitted :: "json \<Rightarrow> bool" where
  "clear_was_not_submitted d \<longleftrightarrow> json_get d CLEAR_NOT_SUBMITTED = Some (JBool True)"

text \<open>\<open>rebound\<close> is the clear boundary's answer, \<open>armed\<close> the transcript's to arming on the new id.\<close>

definition clear_and_rebind ::
  "sizes \<Rightarrow> error_body + session_id \<Rightarrow> error_body + unit \<Rightarrow> session_id option \<Rightarrow> actor \<Rightarrow>
     (error_body + clear_session_result) \<times> actor" where
  "clear_and_rebind Z rebound armed expected a =
     (if (case expected of None \<Rightarrow> False | Some x \<Rightarrow> x \<noteq> a_transcript_session_id a) then
        refused (with_details (json_object
            [(''field'', JString ''expected_transcript_session_id''),
             (''violation'', JString ''stale_transcript_fence'')])
          (error_new IdConflict ''the clear names a transcript this session is not bound to'')) a
      else if a_cell a \<noteq> Minified then
        refused (error_new UnsupportedFeature
          ''clearing between turns is a minified-cell operation and this session is not one'') a
      else if a_active a \<noteq> None then
        refused (with_retryable True (error_new SessionBusy
          ''a turn is active and its transcript must not be abandoned underneath it'')) a
      else if a_state a \<noteq> SReady then
        refused (with_retryable
            (a_state a \<in> {SCreating, SBooting, SNeedsInput, SSubmitting, SAwaitingPromptAck, SRunning,
                           STerminalCandidate, SDraining, SCancelling})
          (error_new SessionBusy (''session is not ready to be cleared: '' @ debug_state (a_state a)))) a
      else case rebound of
        Inl e \<Rightarrow>
          (if clear_was_not_submitted (details e) then refused e a
           else case poison_after_failed_rebind Z e a of (e', a') \<Rightarrow> refused e' a')
      | Inr new \<Rightarrow>
          (case armed of
             Inl e \<Rightarrow> (case poison_after_failed_rebind Z e a of (e', a') \<Rightarrow> refused e' a')
           | Inr _ \<Rightarrow>
               and_then (checked_now_ms ''session_timestamp'') (\<lambda>t a.
                   let a' = a\<lparr>a_updated_at_ms := t\<rparr> in (Inr (cleared_result a'), a'))
                 (a\<lparr>a_transcript_session_id := new\<rparr>)))"

section \<open>What the workers report\<close>

datatype worker_update =
    WState turn_id session_state
  | WEvent turn_id event_payload
  | WNeedsInput turn_id "needs_input option" session_state
  | WCompleted turn_id turn_result turn_deadline
  | WFailed turn_id error_body bool
  | WCancelled turn_id cancel_outcome bool timestamp_ms bool
  | WAttachReconciled uuid "error_body + attach_reconciliation"

fun turn_of_update :: "worker_update \<Rightarrow> turn_id option" where
  "turn_of_update (WState t s) = Some t"
| "turn_of_update (WEvent t p) = Some t"
| "turn_of_update (WNeedsInput t n s) = Some t"
| "turn_of_update (WCompleted t r d) = Some t"
| "turn_of_update (WFailed t e p) = Some t"
| "turn_of_update (WCancelled t oc rc c p) = Some t"
| "turn_of_update (WAttachReconciled u r) = None"

fun required_sequence_slots :: "worker_update \<Rightarrow> u64" where
  "required_sequence_slots (WNeedsInput t (Some ni) s) = 2 + TERMINAL_SEQUENCE_EVENTS + CLOSE_SEQUENCE_RESERVE"
| "required_sequence_slots (WNeedsInput t None s) = 1 + TERMINAL_SEQUENCE_EVENTS + CLOSE_SEQUENCE_RESERVE"
| "required_sequence_slots (WState t s) = 1 + TERMINAL_SEQUENCE_EVENTS + CLOSE_SEQUENCE_RESERVE"
| "required_sequence_slots (WEvent t p) = 1 + TERMINAL_SEQUENCE_EVENTS + CLOSE_SEQUENCE_RESERVE"
| "required_sequence_slots _ = TERMINAL_SEQUENCE_EVENTS + CLOSE_SEQUENCE_RESERVE"

fun ends_cancellation :: "worker_update \<Rightarrow> bool" where
  "ends_cancellation (WCancelled t oc rc c p) = True"
| "ends_cancellation (WFailed t e p) = True"
| "ends_cancellation _ = False"

fun apply_update :: "sizes \<Rightarrow> worker_update \<Rightarrow> actor \<Rightarrow> actor" where
  "apply_update Z (WState t s) a =
     (if a_state a = SCancelling then a
      else if a_state a = SNeedsInput \<and> a_needs_input a \<noteq> None then a\<lparr>a_needs_input_resume := Some s\<rparr>
      else try_transition Z s None (Some t) a)"
| "apply_update Z (WEvent t p) a =
     (case emit Z (Some t) p a of (Inr _, a') \<Rightarrow> a' | (Inl e, a') \<Rightarrow> fail_active Z t e False a')"
| "apply_update Z (WNeedsInput t n s) a =
     (case n of
        None \<Rightarrow> resolve_needs_input Z s (Some t) a
      | Some ni \<Rightarrow>
          (case set_needs_input Z ni s (Some t) a of
             (Inr _, a') \<Rightarrow> a' | (Inl e, a') \<Rightarrow> fail_active Z t e False a'))"
| "apply_update Z (WCompleted t r d) a =
     (case deadline_expired d a of
        (True, a') \<Rightarrow> timeout_completed_at_commit Z t a'
      | (False, a') \<Rightarrow> complete_active Z t r d a')"
| "apply_update Z (WFailed t e p) a = fail_active Z t e p a"
| "apply_update Z (WCancelled t oc rc c p) a = finish_cancel Z t oc rc c p a"
| "apply_update Z (WAttachReconciled u r) a = a"

definition handle_turn_update :: "sizes \<Rightarrow> turn_id \<Rightarrow> worker_update \<Rightarrow> actor \<Rightarrow> actor" where
  "handle_turn_update Z t u a =
     (if map_option at_turn_id (a_active a) \<noteq> Some t then a
      else if a_state a = SCancelling \<and> \<not> ends_cancellation u then a
      else case ensure_sequence_slots (required_sequence_slots u) a of
        (Inl e, a') \<Rightarrow> fail_active Z t e False a'
      | (Inr _, a') \<Rightarrow> apply_update Z u a')"

definition handle_worker :: "sizes \<Rightarrow> worker_update \<Rightarrow> actor \<Rightarrow> actor" where
  "handle_worker Z u a =
     (case u of
        WAttachReconciled attach_id result \<Rightarrow> finish_attach_reconciliation Z attach_id result a
      | _ \<Rightarrow> (case turn_of_update u of None \<Rightarrow> a | Some t \<Rightarrow> handle_turn_update Z t u a))"

text \<open>The screen a session waits on before its first turn, polled while it needs input.\<close>

datatype screen = ScreenReady | ScreenNeedsInput needs_input | ScreenOther

definition poll_startup_screen :: "sizes \<Rightarrow> string + screen \<Rightarrow> actor \<Rightarrow> actor" where
  "poll_startup_screen Z observed a =
     (case observed of
        Inr ScreenReady \<Rightarrow> resolve_needs_input Z SReady None a
      | Inr (ScreenNeedsInput ni) \<Rightarrow>
          (case set_needs_input Z ni SReady None a of
             (Inr _, a') \<Rightarrow> a'
           | (Inl e, a') \<Rightarrow> try_transition Z SFailed (Some (message e)) None a')
      | Inr ScreenOther \<Rightarrow> a
      | Inl msg \<Rightarrow>
          try_transition Z SFailed (Some msg) None
            (a\<lparr>a_needs_input := None, a_needs_input_resume := None\<rparr>))"

section \<open>Reading the log\<close>

text \<open>
  Two \<open>expect\<close>s of \<open>snapshot\<close>: the idle deadline of a session that can expire is a \<open>u64\<close>, and a number precedes the
  next one. There is no snapshot when one of them fails.
\<close>

definition can_expire :: "actor \<Rightarrow> bool" where
  "can_expire a \<longleftrightarrow> a_state a \<in> {SReady, SNeedsInput} \<and> a_active a = None \<and> a_writable_attach a = None"

definition snapshot :: "actor \<Rightarrow> session_snapshot option" where
  "snapshot a =
     (if can_expire a \<and> u64_max < a_updated_at_ms a + a_idle_ttl_ms a \<or> a_next_sequence a < 1 then None
      else Some
     \<lparr>sn_session_id = a_session_id a, sn_generation_id = a_generation_id a,
      sn_transcript_session_id = a_transcript_session_id a, sn_cell = a_cell a, sn_state = a_state a,
      sn_cwd = a_cwd a, sn_active_turn_id = map_option at_turn_id (a_active a),
      sn_claude_version = Some (cr_claude_version (a_compatibility a)),
      sn_compatibility = a_compatibility a, sn_created_at_ms = a_created_at_ms a,
      sn_updated_at_ms = a_updated_at_ms a,
      sn_idle_deadline_ms =
        (if can_expire a then Some (a_updated_at_ms a + a_idle_ttl_ms a) else None),
      sn_resumable = a_resumable a, sn_last_sequence = a_next_sequence a - 1,
      sn_last_turn = a_last_turn a, sn_needs_input = a_needs_input a, sn_agent = a_agent a\<rparr>)"

definition ensure_event_batch_fits :: "sizes \<Rightarrow> event_batch \<Rightarrow> actor \<Rightarrow> error_body + event_batch" where
  "ensure_event_batch_fits Z batch a =
     (let actual = z_batch Z batch
      in if actual = usize_max then
           Inl (error_new RecoveryFailed ''event batch cannot be serialized within the protocol-v1 domain'')
         else if actual \<le> frame_limit a then Inr batch
         else Inl (with_details (json_object
                [(''actual_bytes'', diagnostic_usize actual),
                 (''maximum_bytes'', diagnostic_usize (frame_limit a))])
              (error_new ResultTooLarge ''event batch exceeds the native frame limit'')))"

definition replay_page_range :: "u64 \<Rightarrow> nat \<Rightarrow> u64 \<Rightarrow> nat \<Rightarrow> nat \<times> nat" where
  "replay_page_range oldest len after limit =
     (let start = min len (if after + 1 \<le> u64_max \<and> oldest \<le> after + 1 then after + 1 - oldest else len)
      in (start, min len (min (start + max 1 limit) usize_max)))"

definition EventPageOverflow :: error_body where
  "EventPageOverflow = error_new RecoveryFailed ''event page byte accounting overflowed''"

definition CursorOverflow :: error_body where
  "CursorOverflow = error_new RecoveryFailed ''event cursor cannot advance without overflow''"

text \<open>The events that fit a frame, taken from the front of the page; \<open>any\<close> says whether one was taken.\<close>

fun fitting_event_page ::
  "sizes \<Rightarrow> nat \<Rightarrow> bool \<Rightarrow> nat \<Rightarrow> replay_record list \<Rightarrow> error_body + event_envelope list" where
  "fitting_event_page Z limit any bytes [] = Inr []"
| "fitting_event_page Z limit any bytes (r # rs) =
     (let array = bytes + of_bool any + rp_encoded_bytes r; next = ev_sequence (rp_event r) + 1;
          total = empty_event_batch_response_bytes Z next + array
      in if usize_max < array then Inl EventPageOverflow
         else if u64_max < next then Inl CursorOverflow
         else if usize_max < total then
           Inl (error_new RecoveryFailed ''event page envelope accounting overflowed'')
         else if limit < total then Inr []
         else bind_r (fitting_event_page Z limit True array rs) (\<lambda>es. Inr (rp_event r # es)))"

definition oldest_available :: "actor \<Rightarrow> u64" where
  "oldest_available a = (case a_replay a of [] \<Rightarrow> a_next_sequence a | r # _ \<Rightarrow> ev_sequence (rp_event r))"

definition next_cursor :: "u64 \<Rightarrow> event_envelope list \<Rightarrow> actor \<Rightarrow> error_body + u64" where
  "next_cursor after events a =
     (if events \<noteq> [] then
        (if u64_max < ev_sequence (last events) + 1 then Inl CursorOverflow
         else Inr (ev_sequence (last events) + 1))
      else if after < a_next_sequence a then
        (if u64_max < after + 1 \<or> MAX_SAFE_JSON_INTEGER < after + 1 then Inl (sequence_capacity_error 1 a)
         else Inr (after + 1))
      else Inr (a_next_sequence a))"

definition event_page :: "sizes \<Rightarrow> u64 \<Rightarrow> u32 \<Rightarrow> actor \<Rightarrow> error_body + event_batch" where
  "event_page Z after max_events a =
     (let limit = (if max_events = 0 then ac_default_event_batch_size (a_config a) else max_events);
          (start, stop) = replay_page_range (oldest_available a) (length (a_replay a)) after limit
      in bind_r (fitting_event_page Z (frame_limit a) False EVENT_ARRAY_FIELD_OVERHEAD_BYTES
                   (take (stop - start) (drop start (a_replay a)))) (\<lambda>events.
         if start < stop \<and> events = [] then
           Inl (error_new RecoveryFailed ''retained event cannot fit without skipping its replay cursor'')
         else bind_r (next_cursor after events a) (\<lambda>next.
           ensure_event_batch_fits Z
             \<lparr>eb_events = events, eb_next_sequence = next, eb_replay_gap = None\<rparr> a)))"

text \<open>A cursor behind the ring is answered with a snapshot; without one the caller loses the actor.\<close>

definition behind_the_ring :: "u64 \<Rightarrow> actor \<Rightarrow> bool" where
  "behind_the_ring after a \<longleftrightarrow> after < a_next_sequence a \<and> after < sat_sub (oldest_available a) 1"

definition event_batch :: "sizes \<Rightarrow> u64 \<Rightarrow> u32 \<Rightarrow> actor \<Rightarrow> error_body + event_batch" where
  "event_batch Z after max_events a =
     (if a_next_sequence a \<le> after then
        Inl (with_details (json_object
               [(''requested_after'', diagnostic_u64 after), (''last_sequence'', JNum (a_next_sequence a - 1))])
             (error_new InvalidConfig ''event cursor is ahead of the session's published history''))
      else if behind_the_ring after a then
        (case snapshot a of
           None \<Rightarrow> Inl daemon_lost
         | Some s \<Rightarrow>
             ensure_event_batch_fits Z
               \<lparr>eb_events = [], eb_next_sequence = a_next_sequence a,
                eb_replay_gap = Some \<lparr>rg_requested_after = after, rg_oldest_available = oldest_available a,
                  rg_next_sequence = a_next_sequence a, rg_snapshot = s\<rparr>\<rparr> a)
      else event_page Z after max_events a)"

section \<open>The loop\<close>

record actor_init =
  in_session_id :: session_id
  in_generation_id :: generation_id
  in_cwd :: string
  in_compatibility :: compatibility_report
  in_dangerous_permission_bypass :: bool
  in_resumable :: bool
  in_cell :: session_cell
  in_agent :: "session_agent_pin option"
  in_idle_ttl_ms :: "u64 option"
  in_initial_needs_input :: "needs_input option"

definition fresh_actor ::
  "actor_init \<Rightarrow> actor_config \<Rightarrow> (nat \<Rightarrow> timestamp_ms) \<Rightarrow> (nat \<Rightarrow> nat) \<Rightarrow> timestamp_ms \<Rightarrow> actor" where
  "fresh_actor i cfg clk instants now =
     \<lparr>a_session_id = in_session_id i, a_transcript_session_id = in_session_id i,
      a_generation_id = in_generation_id i, a_cwd = in_cwd i, a_compatibility = in_compatibility i,
      a_dangerous_permission_bypass = in_dangerous_permission_bypass i, a_resumable = in_resumable i,
      a_config = cfg,
      a_idle_ttl_ms = (case in_idle_ttl_ms i of None \<Rightarrow> ac_idle_ttl_ms cfg | Some t \<Rightarrow> t),
      a_state = SCreating, a_created_at_ms = now, a_updated_at_ms = now, a_needs_input = None,
      a_needs_input_resume = None, a_last_turn = None, a_active = None, a_turns = bm_empty,
      a_turn_history_bytes = 0, a_replay = [], a_replay_bytes = 0, a_next_sequence = 1, a_sequence = 0,
      a_process_reaped = False, a_writable_attach = None, a_writable_attach_release_pending = False,
      a_cell = in_cell i, a_agent = in_agent i, a_clock = clk, a_instants = instants, a_reads = 1,
      a_emitted = [], a_effects = [], a_panicked = False\<rparr>"

definition session_handle_of :: "actor \<Rightarrow> session_handle" where
  "session_handle_of a =
     \<lparr>sh_session_id = a_session_id a, sh_generation_id = a_generation_id a, sh_state = a_state a,
      sh_compatibility = a_compatibility a, sh_created_at_ms = a_created_at_ms a,
      sh_last_sequence = a_next_sequence a - 1, sh_agent = a_agent a\<rparr>"

definition spawn_actor ::
  "sizes \<Rightarrow> actor_init \<Rightarrow> actor_config \<Rightarrow> (nat \<Rightarrow> timestamp_ms) \<Rightarrow> (nat \<Rightarrow> nat) \<Rightarrow>
     error_body + actor \<times> session_handle" where
  "spawn_actor Z i cfg clk instants =
     bind_r (checked_actor_timestamp (clk 0) ''event_timestamp'') (\<lambda>now.
       let a0 = fresh_actor i cfg clk instants now
       in bind_r (checked_idle_deadline now (a_idle_ttl_ms a0)) (\<lambda>_.
            case and_then (transition Z SBooting (Some ''actor_registered'') None) (\<lambda>_.
                   case in_initial_needs_input i of
                     Some ni \<Rightarrow> set_needs_input Z ni SReady None
                   | None \<Rightarrow> transition Z SReady (Some ''backend_ready'') None) a0 of
              (Inl e, _) \<Rightarrow> Inl e
            | (Inr _, a) \<Rightarrow> Inr (if a_next_sequence a < 1 then panic a else a, session_handle_of a)))"

datatype actor_message =
    Submit turn_request
  | Cancel turn_id ticket
  | Snapshot
  | Events u64 u32
  | StoredTurn turn_id
  | Close close_policy "error_body + bool"
  | ReserveWritableAttach uuid
  | ReleaseWritableAttach uuid attach_completion
  | ExpireIdle timestamp_ms "error_body + bool"
  | SelectMinifiedCell
  | ClearAndRebind "session_id option" "error_body + session_id" "error_body + unit"
  | Worker worker_update
  | ScreenTick "string + screen"

datatype actor_reply =
    NoReply
  | SubmitReply "error_body + turn_accepted"
  | SnapshotReply session_snapshot
  | EventsReply "error_body + event_batch"
  | StoredReply "stored_turn_terminal option"
  | CloseReply "error_body + close_session_result"
  | AttachReply "error_body + unit"
  | ExpireReply "error_body + close_session_result option"
  | SelectReply "error_body + unit"
  | ClearReply "error_body + clear_session_result"

fun handle_message :: "sizes \<Rightarrow> (utext \<Rightarrow> utext) \<Rightarrow> actor_message \<Rightarrow> actor \<Rightarrow> actor_reply \<times> actor" where
  "handle_message Z nfc (Submit t) a = map_prod SubmitReply id (submit Z nfc t a)"
| "handle_message Z nfc (Cancel t w) a = (NoReply, cancel Z t w a)"
| "handle_message Z nfc Snapshot a =
     (case snapshot a of None \<Rightarrow> (NoReply, panic a) | Some s \<Rightarrow> (SnapshotReply s, a))"
| "handle_message Z nfc (Events after n) a =
     (EventsReply (event_batch Z after n a), if behind_the_ring after a \<and> snapshot a = None then panic a else a)"
| "handle_message Z nfc (StoredTurn t) a =
     (StoredReply (Option.bind (bm_get (a_turns a) t) rec_terminal), a)"
| "handle_message Z nfc (Close policy closed) a = map_prod CloseReply id (close Z closed a)"
| "handle_message Z nfc (ReserveWritableAttach u) a = map_prod AttachReply id (reserve_writable_attach u a)"
| "handle_message Z nfc (ReleaseWritableAttach u c) a =
     map_prod AttachReply id (release_writable_attach u c a)"
| "handle_message Z nfc (ExpireIdle now closed) a = map_prod ExpireReply id (expire_idle Z now closed a)"
| "handle_message Z nfc SelectMinifiedCell a = map_prod SelectReply id (select_minified_cell a)"
| "handle_message Z nfc (ClearAndRebind expected rebound armed) a =
     map_prod ClearReply id (clear_and_rebind Z rebound armed expected a)"
| "handle_message Z nfc (Worker u) a = (NoReply, handle_worker Z u a)"
| "handle_message Z nfc (ScreenTick s) a =
     (NoReply, if a_active a = None \<and> a_state a = SNeedsInput \<and> a_writable_attach a = None
               then poll_startup_screen Z s a else a)"

text \<open>The loop ends once the session is closed; a turn that was active then is aborted.\<close>

definition actor_step :: "sizes \<Rightarrow> (utext \<Rightarrow> utext) \<Rightarrow> actor_message \<Rightarrow> actor \<Rightarrow> actor" where
  "actor_step Z nfc m a =
     (if a_state a = SClosed then a
      else let a' = snd (handle_message Z nfc m a)
           in if a_state a' = SClosed
              then (case a_active a' of
                      None \<Rightarrow> a'
                    | Some act \<Rightarrow> drop_active (set_off (AbortTurn (at_turn_id act)) a'))
              else a')"

definition actor_run :: "sizes \<Rightarrow> (utext \<Rightarrow> utext) \<Rightarrow> actor_message list \<Rightarrow> actor \<Rightarrow> actor" where
  "actor_run Z nfc ms a = fold (actor_step Z nfc) ms a"

end
