(* ===== verification/TurnProof.thy ===== *)
theory TurnProof
  imports Answer ActorLoop
begin

text \<open>
  What a turn worker reads and what it makes of it: the evidence types of
  \<open>src/crates/service/src/v1/backend.rs\<close>, the ten checks of \<open>v1/minified.rs\<close>, and the part of
  \<open>v1/actor.rs\<close> that turns an analysis into a result. What is not read here is the parameter \<open>foreign\<close>: the text
  of a \<open>TranscriptError\<close>, the \<open>Debug\<close> form of a warning, and whether a float is within the wire domain.
\<close>

section \<open>Evidence\<close>

record terminal_evidence =
  te_ready_prompt :: bool
  te_quiet :: bool
  te_lifecycle_expected :: bool
  te_lifecycle_hook_observed :: bool
  te_lifecycle_hook_at_ms :: "u64 option"

record transcript_position =
  tp_generation :: u64
  tp_offset :: u64

record transcript_arm =
  arm_position :: transcript_position
  arm_historical_rows :: "parsed_row list"

record transcript_drain_evidence =
  dr_at_eof :: bool
  dr_has_partial_line :: bool
  dr_stable_for_ms :: u64

record transcript_batch =
  tb_position :: transcript_position
  tb_rows :: "parsed_row list"
  tb_drain :: transcript_drain_evidence

record screen_shape =
  ss_revision_nonzero :: bool
  ss_rows :: nat
  ss_cols :: nat
  ss_cursor_present :: bool
  ss_cursor_visible :: bool
  ss_line_count :: nat
  ss_non_empty_line_count :: nat
  ss_contains_prompt_glyph :: bool

datatype recognised_screen = NoFrameYet | ComposerHoldingText

datatype terminal_screen_observation =
    ObservedReady
  | ObservedNeedsInput needs_input
  | Recognised recognised_screen
  | Unrecognised screen_shape

datatype interrupt_recovery = RecoveredToReady | InterruptFailed

definition into_protocol :: "error_body \<Rightarrow> error_body" where
  "into_protocol e = (if json_serializable (details e) then e else e\<lparr>details := JNull\<rparr>)"

definition satisfies :: "transcript_drain_evidence \<Rightarrow> u64 \<Rightarrow> bool" where
  "satisfies d required_stable_ms \<longleftrightarrow>
     dr_at_eof d \<and> \<not> dr_has_partial_line d \<and> required_stable_ms \<le> dr_stable_for_ms d"

definition TURN_DURATION_DRAIN_FLOOR_MS :: u64 where "TURN_DURATION_DRAIN_FLOOR_MS = 250"

definition graduated_drain_ms :: "u64 \<Rightarrow> bool \<Rightarrow> u64" where
  "graduated_drain_ms configured seen =
     (if seen \<and> TURN_DURATION_DRAIN_FLOOR_MS < configured then TURN_DURATION_DRAIN_FLOOR_MS else configured)"

definition UNRECOGNISED_SCREEN_VETO_MS :: u64 where "UNRECOGNISED_SCREEN_VETO_MS = 30000"

definition shape_to_json :: "screen_shape \<Rightarrow> json" where
  "shape_to_json s = json_object
     [(''revision_nonzero'', JBool (ss_revision_nonzero s)), (''rows'', JNum (ss_rows s)),
      (''cols'', JNum (ss_cols s)), (''cursor_present'', JBool (ss_cursor_present s)),
      (''cursor_visible'', JBool (ss_cursor_visible s)),
      (''line_count'', diagnostic_u64 (ss_line_count s)),
      (''non_empty_line_count'', diagnostic_u64 (ss_non_empty_line_count s)),
      (''contains_prompt_glyph'', JBool (ss_contains_prompt_glyph s))]"

definition unrecognised_screen_veto :: "screen_shape \<Rightarrow> u64 \<Rightarrow> error_body" where
  "unrecognised_screen_veto shape held_ms =
     advising
       (''Claude rendered something pmux has no rule for and stopped producing transcript rows. '' @
        ''Remint the cell. If this screen is legitimate, it is a rendering pmux must be taught '' @
        ''rather than one it should wait out.'')
       (with_details (json_object
           [(''violation'', JString ''unrecognised_screen_veto''), (''held_ms'', diagnostic_u64 held_ms),
            (''veto_after_ms'', diagnostic_u64 UNRECOGNISED_SCREEN_VETO_MS), (''screen'', shape_to_json shape)])
         (error_new NeedsInput
            ''Claude held a screen pmux does not recognize and the transcript stopped advancing''))"

definition validate_position :: "transcript_position \<Rightarrow> transcript_batch \<Rightarrow> error_body + unit" where
  "validate_position previous batch =
     (if tp_generation (tb_position batch) \<noteq> tp_generation previous then
        Inl (error_new TranscriptUnavailable ''transcript file generation changed during an active turn'')
      else if tp_offset (tb_position batch) < tp_offset previous then
        Inl (error_new error_code.SchemaDrift ''transcript cursor moved backwards during an active turn'')
      else Inr ())"

section \<open>The minified cell's checks\<close>

definition MINIFIED_FAST_PATH_DRAIN_FLOOR_MS :: u64 where "MINIFIED_FAST_PATH_DRAIN_FLOOR_MS = 50"

definition minified_drain_ms :: "u64 \<Rightarrow> bool \<Rightarrow> u64" where
  "minified_drain_ms full admissible =
     (if admissible \<and> MINIFIED_FAST_PATH_DRAIN_FLOOR_MS < full then MINIFIED_FAST_PATH_DRAIN_FLOOR_MS else full)"

datatype fast_path_refusal =
    ToolRecordsPresent nat
  | ToolUseBlockPresent nat utext
  | SidechainActivity usage_totals
  | ApiErrorRetriesSeen u64
  | EngineWarningsPresent nat
  | StopHookObserved
  | TurnDurationMarkerAbsent
  | StopReasonNotEndTurn "Transcript.stop_reason option"
  | NeedsInputObserved
  | LateAnalysisChangingRow timestamp_ms
  | TurnNotTerminal

fun tool_use_name :: "content_block \<Rightarrow> utext option" where
  "tool_use_name (Transcript.ToolUse i name input) = Some name"
| "tool_use_name _ = None"

definition tool_use_blocks :: "logical_assistant_message list \<Rightarrow> (nat \<times> utext) list" where
  "tool_use_blocks ms = concat (map (\<lambda>(i, m).
     map (\<lambda>name. (i, name)) (List.map_filter tool_use_name (logical_assistant_message.lm_blocks m))) (enumerate 0 ms))"

definition evaluate_minified_fast_path ::
  "transcript_analysis \<Rightarrow> turn_timings \<Rightarrow> bool \<Rightarrow> fast_path_refusal list" where
  "evaluate_minified_fast_path a timings needs_input_observed =
     (if ta_tools a \<noteq> [] then [ToolRecordsPresent (length (ta_tools a))] else [])
     @ (case tool_use_blocks (ta_messages a) of [] \<Rightarrow> [] | (i, name) # _ \<Rightarrow> [ToolUseBlockPresent i name])
     @ (if ta_sidechain_usage a \<noteq> no_usage then [SidechainActivity (ta_sidechain_usage a)] else [])
     @ (if ta_api_error_retries_seen a \<noteq> 0 then [ApiErrorRetriesSeen (ta_api_error_retries_seen a)] else [])
     @ (if ta_warnings a \<noteq> [] then [EngineWarningsPresent (length (ta_warnings a))] else [])
     @ (if ta_stop_hook_summary_seen a then [StopHookObserved] else [])
     @ (if \<not> ta_turn_duration_seen a then [TurnDurationMarkerAbsent] else [])
     @ (case ta_status a of
          Terminal f \<Rightarrow>
            if ft_stop_reason f \<noteq> Some Transcript.EndTurn then [StopReasonNotEndTurn (ft_stop_reason f)] else []
        | _ \<Rightarrow> [TurnNotTerminal])
     @ (if needs_input_observed then [NeedsInputObserved] else [])
     @ (case tt_post_turn_duration_row_observed_at_ms timings of
          None \<Rightarrow> [] | Some t \<Rightarrow> [LateAnalysisChangingRow t])"

section \<open>Arrival order\<close>

record arrival_order =
  ao_marker_observed :: bool
  ao_turn_duration_observed_at_ms :: "timestamp_ms option"
  ao_post_turn_duration_row_observed_at_ms :: "timestamp_ms option"

definition arrival_default :: arrival_order where
  "arrival_default = \<lparr>ao_marker_observed = False, ao_turn_duration_observed_at_ms = None,
     ao_post_turn_duration_row_observed_at_ms = None\<rparr>"

definition publishable_instant :: "timestamp_ms \<Rightarrow> timestamp_ms option" where
  "publishable_instant t = (if t \<le> MAX_SAFE_JSON_INTEGER then Some t else None)"

definition observe_read :: "timestamp_ms \<Rightarrow> parsed_row list \<Rightarrow> arrival_order \<Rightarrow> arrival_order" where
  "observe_read now rows ao =
     (if ao_marker_observed ao then
        if ao_turn_duration_observed_at_ms ao \<noteq> None \<and> ao_post_turn_duration_row_observed_at_ms ao = None
           \<and> list_ex is_analysis_changing rows
        then ao\<lparr>ao_post_turn_duration_row_observed_at_ms := publishable_instant now\<rparr>
        else ao
      else if list_ex is_turn_duration_marker rows
      then ao\<lparr>ao_marker_observed := True, ao_turn_duration_observed_at_ms := publishable_instant now\<rparr>
      else ao)"

section \<open>From an analysis to the wire\<close>

record foreign =
  fo_transcript_error :: "transcript_error \<Rightarrow> string"
  fo_warning :: "engine_warning \<Rightarrow> string"
  fo_float_safe :: "nat \<Rightarrow> bool"

definition text_string :: "utext \<Rightarrow> string" where
  "text_string t = map (\<lambda>b. char_of (unat b)) (utf8 t)"

definition map_usage :: "Transcript.token_usage \<Rightarrow> Wire.token_usage" where
  "map_usage u = \<lparr>input_tokens = tu_input u, output_tokens = tu_output u,
     cache_creation_input_tokens = tu_cache_creation u, cache_read_input_tokens = tu_cache_read u\<rparr>"

fun map_stop_reason :: "Transcript.stop_reason \<Rightarrow> Wire.stop_reason" where
  "map_stop_reason Transcript.EndTurn = \<lparr>sr_kind = Wire.EndTurn, sr_raw = None\<rparr>"
| "map_stop_reason Transcript.MaxTokens = \<lparr>sr_kind = Wire.MaxTokens, sr_raw = None\<rparr>"
| "map_stop_reason Transcript.StopSequence = \<lparr>sr_kind = Wire.StopSequence, sr_raw = None\<rparr>"
| "map_stop_reason StopToolUse = \<lparr>sr_kind = Wire.ToolUse, sr_raw = None\<rparr>"
| "map_stop_reason Transcript.PauseTurn = \<lparr>sr_kind = Wire.PauseTurn, sr_raw = None\<rparr>"
| "map_stop_reason Transcript.Refusal = \<lparr>sr_kind = Wire.Refusal, sr_raw = None\<rparr>"
| "map_stop_reason (UnknownStop v) = \<lparr>sr_kind = Wire.Unknown, sr_raw = Some (text_string v)\<rparr>"

fun map_message_block :: "content_block \<Rightarrow> message_block option" where
  "map_message_block (Transcript.Text t) = Some (BText t)"
| "map_message_block (Transcript.Thinking t) = None"
| "map_message_block (Transcript.ToolUse i name input) = Some (BToolUse i name input)"
| "map_message_block (UnknownBlock declared raw) =
     Some (BUnknown (case declared of None \<Rightarrow> ascii ''unknown'' | Some d \<Rightarrow> d) raw)"

fun logical_key_string :: "logical_message_key \<Rightarrow> utext" where
  "logical_key_string (MessageId v) = v"
| "logical_key_string (RequestId v) = v"
| "logical_key_string (RowUuid v) = v"

definition map_logical_message :: "logical_assistant_message \<Rightarrow> logical_message" where
  "map_logical_message m =
     (let (mid, rid) = (case lm_key m of
            MessageId i \<Rightarrow> (i, None)
          | RequestId i \<Rightarrow> (ascii ''request:'' @ i, Some i)
          | RowUuid u \<Rightarrow> (u, None))
      in \<lparr>lm_message_id = mid, lm_request_id = rid, lm_scope = ScopeMain,
          lm_blocks = List.map_filter map_message_block (logical_assistant_message.lm_blocks m),
          lm_model = logical_assistant_message.lm_model m,
          lm_stop_reason = map_option map_stop_reason (logical_assistant_message.lm_stop_reason m),
          lm_usage = map_option (\<lambda>u. map_usage (us_tokens u)) (logical_assistant_message.lm_usage m),
          lm_terminal = (lm_is_api_error m
            \<or> logical_assistant_message.lm_stop_reason m \<in>
                {Some Transcript.EndTurn, Some Transcript.MaxTokens, Some Transcript.StopSequence, Some Transcript.Refusal})\<rparr>)"

definition result_is_error :: "tool_result_block \<Rightarrow> bool" where
  "result_is_error r = (case tr_is_error r of None \<Rightarrow> False | Some b \<Rightarrow> b)"

definition map_tool_record :: "tool_record \<Rightarrow> wire_tool_record" where
  "map_tool_record t =
     \<lparr>wt_tool_use_id = tool_record.to_tool_use_id t, wt_name = tool_record.to_name t,
      wt_input = tool_record.to_input t, wt_output = map_option tr_content (to_result t),
      wt_status = (case to_result t of
         None \<Rightarrow> ToolRequested | Some r \<Rightarrow> if result_is_error r then ToolFailed else tool_status.ToolCompleted),
      wt_started_at_ms = None, wt_completed_at_ms = None\<rparr>"

fun warning_code :: "engine_warning \<Rightarrow> string" where
  "warning_code (WarnUnknownRow n d) = ''unknown_transcript_row''"
| "warning_code (WarnUnknownContentBlock k d) = ''unknown_content_block''"
| "warning_code (WarnConflictingUsage k) = ''conflicting_usage''"
| "warning_code (WarnOrphanToolResult t) = ''orphan_tool_result''"

definition map_warning :: "foreign \<Rightarrow> engine_warning \<Rightarrow> protocol_warning" where
  "map_warning F x = \<lparr>pw_code = warning_code x, pw_message = fo_warning F x, pw_details = JNull\<rparr>"

definition unserializable_transcript_payload_error :: error_body where
  "unserializable_transcript_payload_error =
     error_new RecoveryFailed ''transcript-derived output cannot be serialized within protocol v1''"

definition map_transcript_error :: "foreign \<Rightarrow> transcript_error \<Rightarrow> error_body" where
  "map_transcript_error F e =
     with_details (json_object [(''source'', JString ''pseudomux_claude'')])
       (error_new (case e of
            UnexpectedTypedPrompt _ _ \<Rightarrow> PromptNotAcknowledged
          | MultiplePromptAcknowledgements \<Rightarrow> PromptNotAcknowledged
          | NoTurnArmed \<Rightarrow> Internal
          | TurnAlreadyArmed \<Rightarrow> Internal
          | _ \<Rightarrow> error_code.SchemaDrift) (fo_transcript_error F e))"

text \<open>What the serializers of protocol v1 refuse: integers outside the safe range.\<close>

fun value_safe :: "foreign \<Rightarrow> jvalue \<Rightarrow> bool" where
  "value_safe F (VNumber (PosInt n)) = (n \<le> MAX_SAFE_JSON_INTEGER)"
| "value_safe F (VNumber (NegInt i)) = (- int MAX_SAFE_JSON_INTEGER \<le> i)"
| "value_safe F (VNumber (Float x)) = fo_float_safe F x"
| "value_safe F (VArray vs) = list_all (value_safe F) vs"
| "value_safe F (VObject kvs) = list_all (\<lambda>(k, v). value_safe F v) kvs"
| "value_safe F _ = True"

fun block_safe :: "foreign \<Rightarrow> message_block \<Rightarrow> bool" where
  "block_safe F (BText t) = True"
| "block_safe F (BToolUse i name input) = value_safe F input"
| "block_safe F (BToolResult i c e) = value_safe F c"
| "block_safe F (BUnknown t d) = value_safe F d"

definition usage_safe :: "Wire.token_usage \<Rightarrow> bool" where
  "usage_safe u \<longleftrightarrow> list_all (\<lambda>n. n \<le> MAX_SAFE_JSON_INTEGER)
     [input_tokens u, output_tokens u, cache_creation_input_tokens u, cache_read_input_tokens u]"

fun payload_safe :: "foreign \<Rightarrow> event_payload \<Rightarrow> bool" where
  "payload_safe F (EvLogicalMessage m) =
     (list_all (block_safe F) (lm_blocks m) \<and> (case lm_usage m of None \<Rightarrow> True | Some u \<Rightarrow> usage_safe u))"
| "payload_safe F (EvToolStarted t) = value_safe F (to_input t)"
| "payload_safe F (EvToolCompleted t) = value_safe F (td_output t)"
| "payload_safe F (EvWarning w) = json_serializable (pw_details w)"
| "payload_safe F _ = True"

definition tool_record_safe :: "foreign \<Rightarrow> wire_tool_record \<Rightarrow> bool" where
  "tool_record_safe F t \<longleftrightarrow> value_safe F (wt_input t) \<and> (case wt_output t of None \<Rightarrow> True | Some v \<Rightarrow> value_safe F v)
     \<and> safe_opt (wt_started_at_ms t) \<and> safe_opt (wt_completed_at_ms t)"

definition timings_safe :: "turn_timings \<Rightarrow> bool" where
  "timings_safe t \<longleftrightarrow> tt_submitted_at_ms t \<le> MAX_SAFE_JSON_INTEGER
     \<and> tt_completed_at_ms t \<le> MAX_SAFE_JSON_INTEGER
     \<and> list_all safe_opt [tt_prompt_acknowledged_at_ms t, tt_terminal_candidate_at_ms t, tt_drain_ms t,
          tt_last_transcript_activity_at_ms t, tt_stop_hook_at_ms t, tt_turn_duration_observed_at_ms t,
          tt_post_turn_duration_row_observed_at_ms t]"

definition result_safe :: "foreign \<Rightarrow> turn_result \<Rightarrow> bool" where
  "result_safe F r \<longleftrightarrow> list_all (block_safe F) (tr_final_blocks r) \<and> list_all (tool_record_safe F) (tr_tools r)
     \<and> usage_safe (main (tr_usage r)) \<and> usage_safe (sidechain (tr_usage r)) \<and> usage_safe (combined (tr_usage r))
     \<and> tr_sidechain_rows r \<le> MAX_SAFE_JSON_INTEGER \<and> timings_safe (tr_timings r)
     \<and> list_all (\<lambda>w. json_serializable (pw_details w)) (tr_warnings r)
     \<and> compatibility_serializable (tr_compatibility r) \<and> tr_final_sequence r \<le> MAX_SAFE_JSON_INTEGER"

section \<open>The result\<close>

record result_context =
  rc_session_id :: session_id
  rc_generation_id :: generation_id
  rc_turn_id :: turn_id
  rc_submitted_at_ms :: timestamp_ms
  rc_prompt_acknowledged_at_ms :: "timestamp_ms option"
  rc_terminal_candidate_at_ms :: "timestamp_ms option"
  rc_completed_at_ms :: timestamp_ms
  rc_drain_stable_for_ms :: u64
  rc_compatibility :: compatibility_report
  rc_dangerous_permission_bypass :: bool
  rc_evidence :: terminal_evidence
  rc_arrival_order :: arrival_order

definition plain_warning :: "string \<Rightarrow> string \<Rightarrow> json \<Rightarrow> protocol_warning" where
  "plain_warning c m d = \<lparr>pw_code = c, pw_message = m, pw_details = d\<rparr>"

definition result_warnings :: "foreign \<Rightarrow> result_context \<Rightarrow> transcript_analysis \<Rightarrow> protocol_warning list" where
  "result_warnings F c a =
     map (map_warning F) (ta_warnings a)
     @ compatibility_warnings (rc_compatibility c)
     @ permission_bypass_warnings (rc_dangerous_permission_bypass c)
     @ (if te_lifecycle_expected (rc_evidence c) \<and> \<not> te_lifecycle_hook_observed (rc_evidence c)
        then [plain_warning ''lifecycle_hook_missing''
                ''Hybrid lifecycle hook was not observed before transcript completion'' JNull] else [])
     @ (if ta_stop_hook_summary_seen a \<and> \<not> te_lifecycle_expected (rc_evidence c)
        then [plain_warning ''caller_stop_hook_observed''
                ''a caller-installed Claude Stop hook ran during this turn'' JNull] else [])
     @ (if 0 < ta_api_error_retries_seen a
        then [plain_warning ''claude_api_retry_observed''
                ''Claude retried the model request after a transport error during this turn''
                (json_object [(''api_error_rows'', JNum (ta_api_error_retries_seen a))])] else [])"

definition result_timings :: "result_context \<Rightarrow> turn_timings" where
  "result_timings c =
     \<lparr>tt_submitted_at_ms = rc_submitted_at_ms c,
      tt_prompt_acknowledged_at_ms = rc_prompt_acknowledged_at_ms c,
      tt_terminal_candidate_at_ms = rc_terminal_candidate_at_ms c,
      tt_completed_at_ms = rc_completed_at_ms c, tt_drain_ms = Some (rc_drain_stable_for_ms c),
      tt_last_transcript_activity_at_ms =
        (if rc_drain_stable_for_ms c \<le> rc_completed_at_ms c
         then Some (rc_completed_at_ms c - rc_drain_stable_for_ms c) else None),
      tt_stop_hook_at_ms = te_lifecycle_hook_at_ms (rc_evidence c),
      tt_turn_duration_observed_at_ms = ao_turn_duration_observed_at_ms (rc_arrival_order c),
      tt_post_turn_duration_row_observed_at_ms = ao_post_turn_duration_row_observed_at_ms (rc_arrival_order c)\<rparr>"

definition build_turn_result ::
  "foreign \<Rightarrow> result_context \<Rightarrow> transcript_analysis \<Rightarrow> final_turn \<Rightarrow> turn_result" where
  "build_turn_result F c a final_turn =
     \<lparr>tr_session_id = rc_session_id c, tr_generation_id = rc_generation_id c, tr_turn_id = rc_turn_id c,
      tr_outcome = (if ft_outcome final_turn = ApiError then OFailed else OCompleted),
      tr_text = ft_final_text final_turn, tr_final_blocks = map BText (ft_final_text_blocks final_turn),
      tr_tools = map map_tool_record (ta_tools a), tr_model = ft_model final_turn,
      tr_stop_reason = map_option map_stop_reason (ft_stop_reason final_turn),
      tr_usage = \<lparr>main = map_usage (ut_tokens (ta_usage a)), sidechain = map_usage (ut_tokens (ta_sidechain_usage a)),
        combined = map_usage (ut_tokens (ta_combined_usage a)), cost_usd = None\<rparr>,
      tr_sidechain_rows = ta_sidechain_rows a, tr_timings = result_timings c,
      tr_warnings = result_warnings F c a, tr_claude_version = cr_claude_version (rc_compatibility c),
      tr_compatibility = rc_compatibility c,
      tr_completion = \<lparr>cp_authority = FromTranscript, cp_prompt_acknowledged = (ta_acknowledgement a \<noteq> None),
        cp_terminal_message_observed = True, cp_terminal_prompt_observed = te_ready_prompt (rc_evidence c),
        cp_terminal_quiet_observed = te_quiet (rc_evidence c), cp_transcript_drained = True,
        cp_lifecycle_hook_observed = te_lifecycle_hook_observed (rc_evidence c)\<rparr>,
      tr_final_sequence = 0\<rparr>"

end
