(* ===== verification/Worker.thy ===== *)
theory Worker
  imports TurnProof
begin

text \<open>
  The tasks beside a session actor (\<open>src/crates/service/src/v1/actor.rs\<close>): the worker of a turn, the recovery
  after a cancel and the reconciliation after a detach. A task is a function of the answers it gets; what it
  sends to the actor is its result. Every await of the worker races its future against the deadline and
  the abort signal, and every read of the clock is an answer of its own.
\<close>

section \<open>Acts\<close>

text \<open>What has been sent so far, and what the worker goes on with; nothing once it has returned.\<close>

type_synonym 'a act = "worker_update list \<times> 'a option"

definition goes_on :: "'a \<Rightarrow> 'a act" where "goes_on x = ([], Some x)"

definition ended_with :: "worker_update list \<Rightarrow> 'a act" where "ended_with us = (us, None)"

definition andw :: "'a act \<Rightarrow> ('a \<Rightarrow> 'b act) \<Rightarrow> 'b act" where
  "andw x f = (case x of
     (us, None) \<Rightarrow> (us, None)
   | (us, Some a) \<Rightarrow> (case f a of (vs, r) \<Rightarrow> (us @ vs, r)))"

definition tell :: "worker_update list \<Rightarrow> unit act" where "tell us = (us, Some ())"

datatype 'a raced = Elapsed | Signalled | Answered 'a

record 'a awaited =
  aw_expired_before :: bool
  aw_race :: "'a raced"
  aw_expired_after :: bool

datatype 'a turn_await = AwReady 'a | AwAborted | AwTimedOut

definition await_turn_step :: "'a awaited \<Rightarrow> 'a turn_await" where
  "await_turn_step w =
     (if aw_expired_before w then AwTimedOut
      else case aw_race w of
        Elapsed \<Rightarrow> AwTimedOut
      | Signalled \<Rightarrow> AwAborted
      | Answered x \<Rightarrow> if aw_expired_after w then AwTimedOut else AwReady x)"

section \<open>The worker\<close>

record worker_setup =
  ws_session_id :: session_id
  ws_generation_id :: generation_id
  ws_cell :: session_cell
  ws_turn :: turn_request
  ws_submitted_at_ms :: timestamp_ms
  ws_default_turn_timeout_ms :: u64
  ws_compatibility :: compatibility_report
  ws_dangerous_permission_bypass :: bool

record worker =
  w_engine :: transcript_engine
  w_position :: transcript_position
  w_emitted_ack :: bool
  w_emitted_messages :: "logical_message_key list"
  w_started_tools :: "utext list"
  w_completed_tools :: "utext list"
  w_emitted_warnings :: "string list"
  w_terminal_candidate_at_ms :: "timestamp_ms option"
  w_prompt_acknowledged_at_ms :: "timestamp_ms option"
  w_arrival_order :: arrival_order
  w_resume_state :: session_state
  w_active_needs_input :: "needs_input option"
  w_needs_input_observed :: bool
  w_consecutive_other_screens :: nat
  w_unrecognised_screen_since :: "u64 option"

abbreviation turn_of :: "worker_setup \<Rightarrow> turn_id" where
  "turn_of S \<equiv> tq_turn_id (ws_turn S)"

definition worker_timeout :: "worker_setup \<Rightarrow> 'a act" where
  "worker_timeout S = ended_with [WFailed (turn_of S) turn_timeout_error False]"

definition worker_fail :: "worker_setup \<Rightarrow> bool \<Rightarrow> error_body \<Rightarrow> 'a act" where
  "worker_fail S reaped e = ended_with [WFailed (turn_of S) e reaped]"

definition fail_driver :: "worker_setup \<Rightarrow> bool \<Rightarrow> error_body \<Rightarrow> 'a act" where
  "fail_driver S reaped e =
     (if code e = TurnTimeout then worker_timeout S else worker_fail S reaped (into_protocol e))"

definition awaiting :: "worker_setup \<Rightarrow> bool \<Rightarrow> (error_body + 'a) awaited \<Rightarrow> 'a act" where
  "awaiting S reaped aw =
     (case await_turn_step aw of
        AwReady (Inr x) \<Rightarrow> goes_on x
      | AwReady (Inl e) \<Rightarrow> fail_driver S reaped e
      | AwAborted \<Rightarrow> ended_with []
      | AwTimedOut \<Rightarrow> worker_timeout S)"

definition sleeping :: "worker_setup \<Rightarrow> unit awaited \<Rightarrow> 'a \<Rightarrow> 'a act" where
  "sleeping S aw x =
     (case await_turn_step aw of
        AwReady _ \<Rightarrow> goes_on x | AwAborted \<Rightarrow> ended_with [] | AwTimedOut \<Rightarrow> worker_timeout S)"

definition unless_expired :: "worker_setup \<Rightarrow> bool \<Rightarrow> 'a act \<Rightarrow> 'a act" where
  "unless_expired S expired x = (if expired then worker_timeout S else x)"

definition or_fail :: "worker_setup \<Rightarrow> bool \<Rightarrow> error_body + 'a \<Rightarrow> 'a act" where
  "or_fail S reaped r = (case r of Inl e \<Rightarrow> worker_fail S reaped e | Inr x \<Rightarrow> goes_on x)"

fun ingest_all ::
  "foreign \<Rightarrow> (utext \<Rightarrow> utext) \<Rightarrow> parsed_row list \<Rightarrow> transcript_engine \<Rightarrow> error_body + transcript_engine" where
  "ingest_all F nfc [] e = Inr e"
| "ingest_all F nfc (row # rows) e =
     (case ingest nfc row e of
        (Inl err, _) \<Rightarrow> Inl (map_transcript_error F err)
      | (Inr _, e') \<Rightarrow> ingest_all F nfc rows e')"

section \<open>Starting\<close>

text \<open>\<open>sa_instant_in\<close> is the monotonic instant so many milliseconds from now, if the platform can represent it.\<close>

record start_answers =
  sa_now :: timestamp_ms
  sa_instant_in :: "u64 \<Rightarrow> nat option"
  sa_running :: bool
  sa_arm :: "(error_body + transcript_arm) awaited"
  sa_expired :: bool
  sa_submitted :: "(error_body + unit) awaited"
  sa_reaped :: bool

definition turn_deadline_new :: "worker_setup \<Rightarrow> start_answers \<Rightarrow> error_body + turn_deadline" where
  "turn_deadline_new S i =
     bind_r (checked_turn_deadline_unix_ms (tq_deadline_unix_ms (ws_turn S)) (ws_submitted_at_ms S)
               (ws_default_turn_timeout_ms S)) (\<lambda>unix_ms.
       Inr \<lparr>dl_unix_ms = unix_ms, dl_monotonic = sa_instant_in i (sat_sub unix_ms (sa_now i))\<rparr>)"

definition worker_new :: "transcript_engine \<Rightarrow> transcript_position \<Rightarrow> worker" where
  "worker_new e pos =
     \<lparr>w_engine = e, w_position = pos, w_emitted_ack = False, w_emitted_messages = [], w_started_tools = [],
      w_completed_tools = [], w_emitted_warnings = [], w_terminal_candidate_at_ms = None,
      w_prompt_acknowledged_at_ms = None, w_arrival_order = arrival_default,
      w_resume_state = SAwaitingPromptAck, w_active_needs_input = None, w_needs_input_observed = False,
      w_consecutive_other_screens = 0, w_unrecognised_screen_since = None\<rparr>"

definition worker_start ::
  "foreign \<Rightarrow> (utext \<Rightarrow> utext) \<Rightarrow> worker_setup \<Rightarrow> start_answers \<Rightarrow> (turn_deadline \<times> worker) act" where
  "worker_start F nfc S i =
     andw (or_fail S (sa_reaped i) (turn_deadline_new S i)) (\<lambda>deadline.
     if \<not> sa_running i then ended_with []
     else andw (awaiting S (sa_reaped i) (sa_arm i)) (\<lambda>arm.
     andw (or_fail S (sa_reaped i) (ingest_all F nfc (arm_historical_rows arm) engine_new)) (\<lambda>e.
     andw (or_fail S (sa_reaped i) (case arm_turn nfc (tq_prompt (ws_turn S)) e of
             Inl err \<Rightarrow> Inl (map_transcript_error F err) | Inr e' \<Rightarrow> Inr e')) (\<lambda>armed.
     unless_expired S (sa_expired i)
       (andw (awaiting S (sa_reaped i) (sa_submitted i)) (\<lambda>_.
        andw (tell [WState (turn_of S) SAwaitingPromptAck]) (\<lambda>_.
        goes_on (deadline, worker_new armed (arm_position arm)))))))))"

section \<open>One round of the loop\<close>

record round =
  rd_expired :: bool
  rd_running :: bool
  rd_screen :: "(error_body + terminal_screen_observation) awaited"
  rd_screen_now :: timestamp_ms
  rd_batch :: "(error_body + transcript_batch) awaited"
  rd_read_now :: timestamp_ms
  rd_ack_now :: timestamp_ms
  rd_candidate_now :: timestamp_ms
  rd_evidence :: "(error_body + terminal_evidence) awaited"
  rd_confirmation :: "(error_body + transcript_batch) awaited"
  rd_confirm_now :: timestamp_ms
  rd_commit_expired :: bool
  rd_completed_now :: timestamp_ms
  rd_send_expired :: bool
  rd_sleep :: "unit awaited"
  rd_reaped :: bool

text \<open>A second screen in a row that is neither ready nor blocking takes back the needs-input report.\<close>

definition note_other_screen :: "worker_setup \<Rightarrow> worker \<Rightarrow> worker act" where
  "note_other_screen S w =
     (if w_active_needs_input w = None then goes_on (w\<lparr>w_consecutive_other_screens := 0\<rparr>)
      else let n = min 255 (w_consecutive_other_screens w + 1)
           in if 2 \<le> n then
                andw (tell [WNeedsInput (turn_of S) None (w_resume_state w)]) (\<lambda>_.
                goes_on (w\<lparr>w_active_needs_input := None, w_consecutive_other_screens := 0\<rparr>))
              else goes_on (w\<lparr>w_consecutive_other_screens := n\<rparr>))"

fun note_screen :: "worker_setup \<Rightarrow> round \<Rightarrow> terminal_screen_observation \<Rightarrow> worker \<Rightarrow> worker act" where
  "note_screen S i (ObservedNeedsInput ni) w =
     (let w' = w\<lparr>w_consecutive_other_screens := 0, w_unrecognised_screen_since := None, w_needs_input_observed := True\<rparr>
      in if w_active_needs_input w = Some ni then goes_on w'
         else andw (tell [WNeedsInput (turn_of S) (Some ni) (w_resume_state w)]) (\<lambda>_.
              goes_on (w'\<lparr>w_active_needs_input := Some ni\<rparr>)))"
| "note_screen S i ObservedReady w =
     (let w' = w\<lparr>w_consecutive_other_screens := 0, w_unrecognised_screen_since := None\<rparr>
      in if w_active_needs_input w = None then goes_on w'
         else andw (tell [WNeedsInput (turn_of S) None (w_resume_state w)]) (\<lambda>_.
              goes_on (w'\<lparr>w_active_needs_input := None\<rparr>)))"
| "note_screen S i (Recognised s) w = note_other_screen S (w\<lparr>w_unrecognised_screen_since := None\<rparr>)"
| "note_screen S i (Unrecognised shape) w =
     (let now = rd_screen_now i;
          since = (case w_unrecognised_screen_since w of None \<Rightarrow> now | Some t \<Rightarrow> t);
          held = now - since
      in if UNRECOGNISED_SCREEN_VETO_MS \<le> held
         then worker_fail S (rd_reaped i) (unrecognised_screen_veto shape held)
         else note_other_screen S (w\<lparr>w_unrecognised_screen_since := Some since\<rparr>))"

definition read_batch ::
  "foreign \<Rightarrow> (utext \<Rightarrow> utext) \<Rightarrow> worker_setup \<Rightarrow> bool \<Rightarrow> timestamp_ms \<Rightarrow> transcript_batch \<Rightarrow> worker \<Rightarrow> worker act" where
  "read_batch F nfc S reaped now batch w =
     (case validate_position (w_position w) batch of
        Inl e \<Rightarrow> fail_driver S reaped e
      | Inr _ \<Rightarrow>
          andw (or_fail S reaped (ingest_all F nfc (tb_rows batch) (w_engine w))) (\<lambda>e.
          goes_on (w\<lparr>w_position := tb_position batch, w_engine := e,
                   w_arrival_order := observe_read now (tb_rows batch) (w_arrival_order w)\<rparr>)))"

definition transcript_offset_of :: "utext \<Rightarrow> transcript_engine \<Rightarrow> u64" where
  "transcript_offset_of u e =
     (case find (\<lambda>s. uuid_of s = Some u) (te_rows e) of
        None \<Rightarrow> 0 | Some s \<Rightarrow> sl_byte_offset (pr_source (sr_row s)))"

definition note_acknowledgement :: "worker_setup \<Rightarrow> round \<Rightarrow> transcript_analysis \<Rightarrow> worker \<Rightarrow> worker act" where
  "note_acknowledgement S i a w =
     (case ta_acknowledgement a of
        None \<Rightarrow> goes_on w
      | Some ack \<Rightarrow>
          if w_emitted_ack w then goes_on w
          else andw (or_fail S (rd_reaped i) (checked_actor_timestamp (rd_ack_now i) ''prompt_acknowledged_at'')) (\<lambda>now.
               andw (tell [WEvent (turn_of S) (EvPromptAcknowledged
                       \<lparr>pa_prompt_uuid = pa_row_uuid ack, pa_prompt_id = prompt_acknowledgement.pa_prompt_id ack,
                        pa_transcript_offset = transcript_offset_of (pa_row_uuid ack) (w_engine w)\<rparr>),
                     WState (turn_of S) SRunning]) (\<lambda>_.
               goes_on (w\<lparr>w_emitted_ack := True, w_prompt_acknowledged_at_ms := Some now, w_resume_state := SRunning\<rparr>))))"

definition transcript_event :: "foreign \<Rightarrow> worker_setup \<Rightarrow> bool \<Rightarrow> event_payload \<Rightarrow> unit act" where
  "transcript_event F S reaped payload =
     (if payload_safe F payload then tell [WEvent (turn_of S) payload]
      else worker_fail S reaped unserializable_transcript_payload_error)"

fun message_deltas ::
  "foreign \<Rightarrow> worker_setup \<Rightarrow> bool \<Rightarrow> logical_message_key list \<Rightarrow> logical_assistant_message list \<Rightarrow>
     logical_message_key list act" where
  "message_deltas F S reaped seen [] = goes_on seen"
| "message_deltas F S reaped seen (m # ms) =
     (if (logical_assistant_message.lm_stop_reason m \<noteq> None \<or> lm_is_api_error m) \<and> lm_key m \<notin> set seen
      then andw (transcript_event F S reaped (EvLogicalMessage (map_logical_message m)))
             (\<lambda>_. message_deltas F S reaped (lm_key m # seen) ms)
      else message_deltas F S reaped seen ms)"

definition tool_event_once ::
  "foreign \<Rightarrow> worker_setup \<Rightarrow> bool \<Rightarrow> utext \<Rightarrow> event_payload \<Rightarrow> utext list \<Rightarrow> utext list act" where
  "tool_event_once F S reaped u payload seen =
     (if u \<in> set seen then goes_on seen
      else andw (transcript_event F S reaped payload) (\<lambda>_. goes_on (u # seen)))"

fun tool_deltas ::
  "foreign \<Rightarrow> worker_setup \<Rightarrow> bool \<Rightarrow> utext list \<times> utext list \<Rightarrow> tool_record list \<Rightarrow> (utext list \<times> utext list) act" where
  "tool_deltas F S reaped (started, completed) [] = goes_on (started, completed)"
| "tool_deltas F S reaped (started, completed) (t # ts) =
     andw (tool_event_once F S reaped (tool_record.to_tool_use_id t)
             (EvToolStarted \<lparr>to_tool_use_id = tool_record.to_tool_use_id t, to_name = tool_record.to_name t,
                to_input = tool_record.to_input t\<rparr>) started) (\<lambda>started'.
     andw (case to_result t of
             None \<Rightarrow> goes_on completed
           | Some r \<Rightarrow> tool_event_once F S reaped (tool_record.to_tool_use_id t)
               (EvToolCompleted \<lparr>td_tool_use_id = tool_record.to_tool_use_id t, td_output = tr_content r,
                  td_is_error = result_is_error r\<rparr>) completed) (\<lambda>completed'.
     tool_deltas F S reaped (started', completed') ts))"

fun warning_deltas ::
  "foreign \<Rightarrow> worker_setup \<Rightarrow> bool \<Rightarrow> string list \<Rightarrow> engine_warning list \<Rightarrow> string list act" where
  "warning_deltas F S reaped seen [] = goes_on seen"
| "warning_deltas F S reaped seen (x # xs) =
     (if fo_warning F x \<in> set seen then warning_deltas F S reaped seen xs
      else andw (transcript_event F S reaped (EvWarning (map_warning F x)))
             (\<lambda>_. warning_deltas F S reaped (fo_warning F x # seen) xs))"

definition emit_analysis_deltas ::
  "foreign \<Rightarrow> worker_setup \<Rightarrow> bool \<Rightarrow> transcript_analysis \<Rightarrow> worker \<Rightarrow> worker act" where
  "emit_analysis_deltas F S reaped a w =
     andw (message_deltas F S reaped (w_emitted_messages w) (ta_messages a)) (\<lambda>messages.
     andw (tool_deltas F S reaped (w_started_tools w, w_completed_tools w) (ta_tools a)) (\<lambda>(started, completed).
     andw (warning_deltas F S reaped (w_emitted_warnings w) (ta_warnings a)) (\<lambda>warnings.
     goes_on (w\<lparr>w_emitted_messages := messages, w_started_tools := started, w_completed_tools := completed,
              w_emitted_warnings := warnings\<rparr>))))"

definition note_candidate :: "worker_setup \<Rightarrow> round \<Rightarrow> final_turn \<Rightarrow> worker \<Rightarrow> worker act" where
  "note_candidate S i f w =
     (if w_terminal_candidate_at_ms w \<noteq> None then goes_on w
      else andw (or_fail S (rd_reaped i) (checked_actor_timestamp (rd_candidate_now i) ''terminal_candidate_at'')) (\<lambda>now.
           andw (tell [WState (turn_of S) STerminalCandidate,
                 WEvent (turn_of S) (EvTerminalCandidate
                   \<lparr>tc_message_id = logical_key_string (ft_message_key f),
                    tc_stop_reason = map_option map_stop_reason (ft_stop_reason f)\<rparr>),
                 WState (turn_of S) SDraining]) (\<lambda>_.
           goes_on (w\<lparr>w_terminal_candidate_at_ms := Some now, w_resume_state := SDraining\<rparr>))))"

section \<open>The completion gate\<close>

definition worker_context ::
  "worker_setup \<Rightarrow> worker \<Rightarrow> terminal_evidence \<Rightarrow> transcript_batch \<Rightarrow> timestamp_ms \<Rightarrow> result_context" where
  "worker_context S w evidence confirmation completed_at =
     \<lparr>rc_session_id = ws_session_id S, rc_generation_id = ws_generation_id S, rc_turn_id = turn_of S,
      rc_submitted_at_ms = ws_submitted_at_ms S,
      rc_prompt_acknowledged_at_ms = w_prompt_acknowledged_at_ms w,
      rc_terminal_candidate_at_ms = w_terminal_candidate_at_ms w, rc_completed_at_ms = completed_at,
      rc_drain_stable_for_ms = dr_stable_for_ms (tb_drain confirmation),
      rc_compatibility = ws_compatibility S,
      rc_dangerous_permission_bypass = ws_dangerous_permission_bypass S, rc_evidence = evidence,
      rc_arrival_order = w_arrival_order w\<rparr>"

definition full_drain :: "worker_setup \<Rightarrow> transcript_analysis \<Rightarrow> u64" where
  "full_drain S a = graduated_drain_ms (cr_transcript_drain_ms (ws_compatibility S)) (ta_turn_duration_seen a)"

definition offered_drain :: "worker_setup \<Rightarrow> transcript_analysis \<Rightarrow> u64" where
  "offered_drain S a = minified_drain_ms (full_drain S a) (ws_cell S = Minified)"

text \<open>After the confirming read came back unchanged: what the cell earned, and the last look at the deadline.\<close>

definition commit ::
  "foreign \<Rightarrow> worker_setup \<Rightarrow> turn_deadline \<Rightarrow> round \<Rightarrow> transcript_analysis \<Rightarrow> final_turn \<Rightarrow> terminal_evidence \<Rightarrow>
     transcript_batch \<Rightarrow> worker \<Rightarrow> worker act" where
  "commit F S deadline i a f evidence confirmation w =
     unless_expired S (rd_commit_expired i)
       (andw (or_fail S (rd_reaped i) (checked_actor_timestamp (rd_completed_now i) ''turn_completed_at'')) (\<lambda>completed_at.
        let r = build_turn_result F (worker_context S w evidence confirmation completed_at) a f;
            refusals = evaluate_minified_fast_path a (tr_timings r) (w_needs_input_observed w)
        in if ws_cell S = Minified
              \<and> \<not> satisfies (tb_drain confirmation) (minified_drain_ms (full_drain S a) (refusals = []))
           then goes_on w
           else if \<not> result_safe F r then worker_fail S (rd_reaped i) unserializable_transcript_payload_error
           else unless_expired S (rd_send_expired i) (ended_with [WCompleted (turn_of S) r deadline])))"

definition confirm ::
  "foreign \<Rightarrow> (utext \<Rightarrow> utext) \<Rightarrow> worker_setup \<Rightarrow> turn_deadline \<Rightarrow> round \<Rightarrow> transcript_analysis \<Rightarrow> final_turn \<Rightarrow>
     terminal_evidence \<Rightarrow> transcript_batch \<Rightarrow> worker \<Rightarrow> worker act" where
  "confirm F nfc S deadline i a f evidence confirmation w =
     andw (read_batch F nfc S (rd_reaped i) (rd_confirm_now i) confirmation w) (\<lambda>w'.
       if tb_position confirmation \<noteq> w_position w \<or> tb_rows confirmation \<noteq> []
          \<or> \<not> satisfies (tb_drain confirmation) (offered_drain S a)
       then goes_on w'
       else commit F S deadline i a f evidence confirmation w')"

definition gate ::
  "foreign \<Rightarrow> (utext \<Rightarrow> utext) \<Rightarrow> worker_setup \<Rightarrow> turn_deadline \<Rightarrow> round \<Rightarrow> transcript_batch \<Rightarrow> transcript_analysis \<Rightarrow>
     final_turn \<Rightarrow> worker \<Rightarrow> worker act" where
  "gate F nfc S deadline i batch a f w =
     (if w_active_needs_input w \<noteq> None then sleeping S (rd_sleep i) w
      else andw (awaiting S (rd_reaped i) (rd_evidence i)) (\<lambda>evidence.
        if te_ready_prompt evidence \<and> te_quiet evidence \<and> satisfies (tb_drain batch) (offered_drain S a)
        then andw (awaiting S (rd_reaped i) (rd_confirmation i)) (\<lambda>confirmation.
               confirm F nfc S deadline i a f evidence confirmation w)
        else sleeping S (rd_sleep i) w))"

definition worker_round ::
  "foreign \<Rightarrow> (utext \<Rightarrow> utext) \<Rightarrow> worker_setup \<Rightarrow> turn_deadline \<Rightarrow> round \<Rightarrow> worker \<Rightarrow> worker act" where
  "worker_round F nfc S deadline i w0 =
     unless_expired S (rd_expired i)
       (if \<not> rd_running i then ended_with []
        else
          andw (awaiting S (rd_reaped i) (rd_screen i)) (\<lambda>seen.
          andw (note_screen S i seen w0) (\<lambda>w1.
          andw (awaiting S (rd_reaped i) (rd_batch i)) (\<lambda>batch.
          andw (read_batch F nfc S (rd_reaped i) (rd_read_now i) batch
                  (if tb_rows batch = [] then w1 else w1\<lparr>w_unrecognised_screen_since := None\<rparr>)) (\<lambda>w2.
          andw (or_fail S (rd_reaped i) (case analyze (w_engine w2) of
                  Inl e \<Rightarrow> Inl (map_transcript_error F e) | Inr a \<Rightarrow> Inr a)) (\<lambda>a.
          andw (note_acknowledgement S i a w2) (\<lambda>w3.
          andw (emit_analysis_deltas F S (rd_reaped i) a w3) (\<lambda>w4.
          case ta_status a of
            Terminal f \<Rightarrow> andw (note_candidate S i f w4) (gate F nfc S deadline i batch a f)
          | _ \<Rightarrow> sleeping S (rd_sleep i) w4))))))))"

fun worker_rounds ::
  "foreign \<Rightarrow> (utext \<Rightarrow> utext) \<Rightarrow> worker_setup \<Rightarrow> turn_deadline \<Rightarrow> round list \<Rightarrow> worker \<Rightarrow> worker act" where
  "worker_rounds F nfc S deadline [] w = goes_on w"
| "worker_rounds F nfc S deadline (i # is) w =
     andw (worker_round F nfc S deadline i w) (worker_rounds F nfc S deadline is)"

definition worker_run ::
  "foreign \<Rightarrow> (utext \<Rightarrow> utext) \<Rightarrow> worker_setup \<Rightarrow> start_answers \<Rightarrow> round list \<Rightarrow> worker act" where
  "worker_run F nfc S i rounds =
     andw (worker_start F nfc S i) (\<lambda>(deadline, w). worker_rounds F nfc S deadline rounds w)"

section \<open>After a cancel\<close>

text \<open>One read of a settling transcript: the deadline before it, what it answers in time, the deadline after it.\<close>

record settle_read =
  st_expired :: bool
  st_batch :: "(error_body + transcript_batch) option"
  st_late :: bool

text \<open>No value stands for a loop that is still waiting.\<close>

fun stabilize :: "u64 \<Rightarrow> settle_read list \<Rightarrow> transcript_position \<Rightarrow> bool option" where
  "stabilize required [] pos = None"
| "stabilize required (i # is) pos =
     (if st_expired i then Some False
      else case st_batch i of
        Some (Inr batch) \<Rightarrow>
          if isl (validate_position pos batch) then Some False
          else if tb_position batch = pos \<and> tb_rows batch = [] \<and> satisfies (tb_drain batch) required then Some True
          else if st_late i then Some False
          else stabilize required is (tb_position batch)
      | _ \<Rightarrow> Some False)"

definition stabilize_cancelled_transcript ::
  "u64 \<Rightarrow> (error_body + transcript_arm) option \<Rightarrow> settle_read list \<Rightarrow> bool option" where
  "stabilize_cancelled_transcript required arm is =
     (case arm of Some (Inr x) \<Rightarrow> stabilize required is (arm_position x) | _ \<Rightarrow> Some False)"

definition cancel_recovery ::
  "turn_id \<Rightarrow> (error_body + interrupt_recovery) option \<Rightarrow> bool option \<Rightarrow> timestamp_ms \<Rightarrow> bool \<Rightarrow> worker_update option" where
  "cancel_recovery turn interrupt quieted now reaped =
     (case interrupt of
        Some (Inl e) \<Rightarrow> Some (WFailed turn (into_protocol e) reaped)
      | Some (Inr RecoveredToReady) \<Rightarrow>
          map_option (\<lambda>ok. if ok then WCancelled turn CancelDone True now False
                           else WCancelled turn CancelRecoveryFailed False now reaped) quieted
      | _ \<Rightarrow> Some (WCancelled turn CancelRecoveryFailed False now reaped))"

section \<open>After a detach\<close>

record reconcile_read =
  rr_batch :: "error_body + transcript_batch"
  rr_evidence :: "error_body + terminal_evidence"
  rr_final :: "error_body + transcript_batch"
  rr_screen :: "error_body + terminal_screen_observation"

definition still_drained :: "u64 \<Rightarrow> transcript_position \<Rightarrow> transcript_batch \<Rightarrow> bool" where
  "still_drained required cursor batch \<longleftrightarrow>
     tb_position batch = cursor \<and> tb_rows batch = [] \<and> satisfies (tb_drain batch) required"

fun reconcile ::
  "u64 \<Rightarrow> transcript_position \<Rightarrow> reconcile_read list \<Rightarrow> (error_body + attach_reconciliation) option" where
  "reconcile required cursor [] = None"
| "reconcile required cursor (i # is) =
     (case rr_batch i of
        Inl e \<Rightarrow> Some (Inl e)
      | Inr batch \<Rightarrow>
          if tb_position batch \<noteq> cursor \<or> tb_rows batch \<noteq> [] then
            Some (Inl (error_new RecoveryFailed
              ''transcript changed after writable-attach reconciliation was armed''))
          else if \<not> satisfies (tb_drain batch) required then reconcile required cursor is
          else (case rr_evidence i of
            Inl e \<Rightarrow> Some (Inl e)
          | Inr evidence \<Rightarrow>
              if te_ready_prompt evidence \<and> te_quiet evidence then
                (case rr_final i of
                   Inl e \<Rightarrow> Some (Inl e)
                 | Inr final \<Rightarrow>
                     if still_drained required cursor final then Some (Inr AttachReady)
                     else Some (Inl (error_new RecoveryFailed
                       ''transcript changed during writable-attach terminal reconciliation'')))
              else (case rr_screen i of
                Inl e \<Rightarrow> Some (Inl e)
              | Inr (ObservedNeedsInput ni) \<Rightarrow> Some (Inr (AttachNeedsInput ni))
              | Inr _ \<Rightarrow> reconcile required cursor is)))"

text \<open>\<open>arm\<close> and the reads are what came back before the timeout, \<open>late_screen\<close> the look after it.\<close>

definition attach_reconciled ::
  "uuid \<Rightarrow> u64 \<Rightarrow> (error_body + transcript_arm) option \<Rightarrow> reconcile_read list \<Rightarrow>
     error_body + terminal_screen_observation \<Rightarrow> worker_update" where
  "attach_reconciled attach_id required arm is late_screen =
     WAttachReconciled attach_id
       (case (case arm of
                None \<Rightarrow> None
              | Some (Inl e) \<Rightarrow> Some (Inl e)
              | Some (Inr x) \<Rightarrow> reconcile required (arm_position x) is) of
          Some (Inr outcome) \<Rightarrow> Inr outcome
        | Some (Inl e) \<Rightarrow> Inl (into_protocol e)
        | None \<Rightarrow>
            (case late_screen of
               Inr (ObservedNeedsInput ni) \<Rightarrow> Inr (AttachNeedsInput ni)
             | _ \<Rightarrow> Inl (error_new RecoveryFailed
                 (''writable attachment did not reconcile to ready+quiet with an exact drained '' @
                  ''transcript cursor''))))"

end
