(* ===== verification/WorkerProof.thy ===== *)
theory WorkerProof
  imports Worker
begin

text \<open>
  What a turn worker proves before it reports a turn complete, and that it reports an end at most once.
  An act meets a contract in the manner of a Hoare triple: what it goes on with satisfies \<open>Q\<close>, and
  every completion among its reports satisfies \<open>P\<close>; \<open>meets_andw\<close> composes two acts.
\<close>

section \<open>Acts\<close>

lemma andw_simps [simp]:
  "andw (goes_on x) f = f x" "andw (ended_with us) f = ended_with us"
  by (auto simp: andw_def goes_on_def ended_with_def split: prod.splits)

text \<open>A report that is about the worker's turn and does not end it.\<close>

fun ends_turn :: "worker_update \<Rightarrow> bool" where
  "ends_turn (WCompleted t r d) = True"
| "ends_turn (WFailed t e b) = True"
| "ends_turn (WCancelled t oc rc c b) = True"
| "ends_turn _ = False"

definition own :: "worker_setup \<Rightarrow> worker_update \<Rightarrow> bool" where
  "own S u \<longleftrightarrow> turn_of_update u = Some (turn_of S) \<and> \<not> ends_turn u"

lemma own_reports [simp]:
  "own S (WState (turn_of S) s)" "own S (WEvent (turn_of S) p)" "own S (WNeedsInput (turn_of S) n st)"
  by (simp_all add: own_def)

definition meets ::
  "worker_setup \<Rightarrow> (turn_result \<Rightarrow> turn_deadline \<Rightarrow> bool) \<Rightarrow> 'a act \<Rightarrow> ('a \<Rightarrow> bool) \<Rightarrow> bool" where
  "meets S P x Q \<longleftrightarrow> (\<forall>a. snd x = Some a \<longrightarrow> Q a \<and> list_all (own S) (fst x))
     \<and> (\<forall>t r d. WCompleted t r d \<in> set (fst x) \<longrightarrow> P r d)
     \<and> list_all (own S) (butlast (fst x)) \<and> (\<forall>u \<in> set (fst x). turn_of_update u = Some (turn_of S))"

lemma meets_andw:
  assumes "meets S P x Q" "\<And>a. Q a \<Longrightarrow> meets S P (f a) R"
  shows "meets S P (andw x f) R"
proof (cases "snd x")
  case None
  then show ?thesis using assms(1) by (cases x) (simp add: meets_def andw_def)
next
  case (Some a)
  then have x: "x = (fst x, Some a)" by (cases x) simp
  have "Q a" using assms(1) Some by (simp add: meets_def)
  then have f: "meets S P (f a) R" by (rule assms(2))
  have "andw x f = (fst x @ fst (f a), snd (f a))" by (subst x) (simp add: andw_def split: prod.splits)
  then show ?thesis
    using assms(1) Some f by (auto simp: meets_def butlast_append list_all_iff dest: in_set_butlastD)
qed

lemma meets_weaken: "meets S P x Q \<Longrightarrow> (\<And>a. Q a \<Longrightarrow> R a) \<Longrightarrow> (\<And>r d. P r d \<Longrightarrow> P' r d) \<Longrightarrow> meets S P' x R"
  by (fastforce simp: meets_def)

lemma meets_goes_on: "meets S P (goes_on x) Q = Q x"
  by (simp add: meets_def goes_on_def)

lemma meets_tell: "list_all (own S) us \<Longrightarrow> meets S P (tell us) (\<lambda>_. True)"
  by (cases us rule: rev_cases) (auto simp: meets_def tell_def own_def list_all_iff)

lemma meets_ended: "us = [] \<or> (\<exists>e b. us = [WFailed (turn_of S) e b]) \<Longrightarrow> meets S P (ended_with us) Q"
  by (auto simp: meets_def ended_with_def)

lemma meets_timeout: "meets S P (worker_timeout S) Q"
  unfolding worker_timeout_def by (rule meets_ended) blast

lemma meets_fail: "meets S P (worker_fail S b e) Q"
  unfolding worker_fail_def by (rule meets_ended) blast

lemma meets_driver: "meets S P (fail_driver S b e) Q"
  by (simp add: fail_driver_def meets_timeout meets_fail)

lemmas meets_stops = meets_timeout meets_fail meets_driver meets_ended

lemma meets_awaiting: "meets S P (awaiting S b aw) (\<lambda>x. await_turn_step aw = AwReady (Inr x))"
  by (auto simp: awaiting_def meets_stops meets_goes_on split: turn_await.splits sum.splits)

lemma meets_sleeping: "Q x \<Longrightarrow> meets S P (sleeping S aw x) Q"
  by (auto simp: sleeping_def meets_stops meets_goes_on split: turn_await.splits)

lemma meets_unless: "(\<not> expired \<Longrightarrow> meets S P x Q) \<Longrightarrow> meets S P (unless_expired S expired x) Q"
  by (simp add: unless_expired_def meets_timeout)

lemma meets_or_fail: "meets S P (or_fail S b r) (\<lambda>x. r = Inr x)"
  by (auto simp: or_fail_def meets_stops meets_goes_on split: sum.splits)

lemma told: "meets S P (f ()) Q \<Longrightarrow> list_all (own S) us \<Longrightarrow> meets S P (andw (tell us) f) Q"
  by (rule meets_andw [OF meets_tell]) simp_all

section \<open>What a worker keeps\<close>

definition armed_for :: "(utext \<Rightarrow> utext) \<Rightarrow> utext \<Rightarrow> transcript_engine \<Rightarrow> bool" where
  "armed_for nfc prompt e \<longleftrightarrow> (length (te_rows e) \<le> u64_max \<longrightarrow> engine_reachable nfc e)
     \<and> (\<exists>t. te_active_turn e = Some t \<and> at_expected_prompt t = normalize_prompt nfc prompt)"

lemma acknowledge_keeps_prompt:
  "acknowledge nfc n row (Some t) = Inr (turn, acked) \<Longrightarrow>
     \<exists>t'. turn = Some t' \<and> at_expected_prompt t' = at_expected_prompt t"
  by (auto simp: acknowledge_def Let_def split: row_kind.splits if_splits option.splits)

lemma ingest_keeps_prompt:
  assumes "ingest nfc row e = (r, e')" "te_active_turn e = Some t"
  shows "\<exists>t'. te_active_turn e' = Some t' \<and> at_expected_prompt t' = at_expected_prompt t"
  using assms(1)
proof (cases rule: ingest_cases)
  case (added turn acked)
  then show ?thesis using acknowledge_keeps_prompt [of nfc "te_next_ordinal e" row t turn acked] assms(2) by simp
qed (use assms(2) in auto)

lemma ingest_bounded:
  assumes "ingest nfc row e = (r, e')" "length (te_rows e) \<le> u64_max \<longrightarrow> engine_reachable nfc e"
  shows "length (te_rows e') \<le> u64_max \<longrightarrow> engine_reachable nfc e'"
proof
  assume bound: "length (te_rows e') \<le> u64_max"
  show "engine_reachable nfc e'"
    using assms(1)
  proof (cases rule: ingest_cases)
    case same
    then show ?thesis using assms(2) bound by simp
  next
    case (added turn acked)
    then have "length (te_rows e) < u64_max" using bound by simp
    then show ?thesis
      using assms(2) engine_step.ingest [OF assms(1)] by (simp add: rtranclp.rtrancl_into_rtrancl)
  qed
qed

lemma ingest_rows_bounded:
  assumes "ingest_all F nfc rows e = Inr e'" "length (te_rows e) \<le> u64_max \<longrightarrow> engine_reachable nfc e"
  shows "length (te_rows e') \<le> u64_max \<longrightarrow> engine_reachable nfc e'"
  using assms
proof (induction rows arbitrary: e)
  case (Cons row rows)
  obtain r e1 where one: "ingest nfc row e = (r, e1)" by (cases "ingest nfc row e")
  then have rest: "ingest_all F nfc rows e1 = Inr e'" using Cons.prems(1) by (auto split: sum.splits)
  show ?case by (rule Cons.IH [OF rest ingest_bounded [OF one Cons.prems(2)]])
qed simp

lemma ingest_rows_armed:
  assumes "ingest_all F nfc rows e = Inr e'" "armed_for nfc prompt e"
  shows "armed_for nfc prompt e'"
proof -
  have "\<exists>t. te_active_turn e' = Some t \<and> at_expected_prompt t = normalize_prompt nfc prompt"
    using assms(1) assms(2) [unfolded armed_for_def, THEN conjunct2]
  proof (induction rows arbitrary: e)
    case (Cons row rows)
    obtain r e1 where one: "ingest nfc row e = (r, e1)" by (cases "ingest nfc row e")
    obtain t where t: "te_active_turn e = Some t" "at_expected_prompt t = normalize_prompt nfc prompt"
      using Cons.prems(2) by blast
    show ?case
      using Cons.IH [of e1] Cons.prems(1) one ingest_keeps_prompt [OF one t(1)] t(2) by (auto split: sum.splits)
  qed simp
  then show ?thesis
    using ingest_rows_bounded [OF assms(1)] assms(2) by (simp add: armed_for_def)
qed

definition shows_modal :: "round \<Rightarrow> bool" where
  "shows_modal i = (case await_turn_step (rd_screen i) of AwReady (Inr (ObservedNeedsInput _)) \<Rightarrow> True | _ \<Rightarrow> False)"

definition still_armed :: "(utext \<Rightarrow> utext) \<Rightarrow> worker_setup \<Rightarrow> bool \<Rightarrow> worker \<Rightarrow> bool" where
  "still_armed nfc S modal w \<longleftrightarrow> armed_for nfc (tq_prompt (ws_turn S)) (w_engine w) \<and> (modal \<longrightarrow> w_needs_input_observed w)"

lemma start_keeps: "meets S P (worker_start F nfc S i) (\<lambda>(d, w). still_armed nfc S False w)"
  unfolding worker_start_def
proof (intro meets_andw [OF meets_or_fail], split if_split, intro conjI impI)
  fix d
  show "meets S P (ended_with []) (\<lambda>(d, w). still_armed nfc S False w)" by (simp add: meets_ended)
  show "meets S P (andw (awaiting S (sa_reaped i) (sa_arm i)) (\<lambda>arm.
     andw (or_fail S (sa_reaped i) (ingest_all F nfc (arm_historical_rows arm) engine_new)) (\<lambda>e.
     andw (or_fail S (sa_reaped i) (case arm_turn nfc (tq_prompt (ws_turn S)) e of
             Inl err \<Rightarrow> Inl (map_transcript_error F err) | Inr e' \<Rightarrow> Inr e')) (\<lambda>armed.
     unless_expired S (sa_expired i)
       (andw (awaiting S (sa_reaped i) (sa_submitted i)) (\<lambda>_.
        andw (tell [WState (turn_of S) SAwaitingPromptAck]) (\<lambda>_.
        goes_on (d, worker_new armed (arm_position arm)))))))))
      (\<lambda>(d, w). still_armed nfc S False w)"
  proof (rule meets_andw [OF meets_awaiting], rule meets_andw [OF meets_or_fail], rule meets_andw [OF meets_or_fail],
      rule meets_unless, rule meets_andw [OF meets_awaiting], rule told)
    fix arm e armed
    assume e: "ingest_all F nfc (arm_historical_rows arm) engine_new = Inr e"
      and armed: "(case arm_turn nfc (tq_prompt (ws_turn S)) e of
             Inl err \<Rightarrow> Inl (map_transcript_error F err) | Inr e' \<Rightarrow> Inr e') = Inr armed"
    then have arm: "arm_turn nfc (tq_prompt (ws_turn S)) e = Inr armed" by (auto split: sum.splits)
    have "length (te_rows e) \<le> u64_max \<longrightarrow> engine_reachable nfc e"
      by (rule ingest_rows_bounded [OF e]) simp
    then have "armed_for nfc (tq_prompt (ws_turn S)) armed"
      using arm engine_step.arm [OF arm]
      by (auto simp: armed_for_def arm_turn_def split: if_splits intro: rtranclp.rtrancl_into_rtrancl)
    then show "meets S P (goes_on (d, worker_new armed (arm_position arm))) (\<lambda>(d, w). still_armed nfc S False w)"
      by (simp add: meets_goes_on still_armed_def worker_new_def)
  qed simp
qed

definition same_reading :: "worker \<Rightarrow> worker \<Rightarrow> bool" where
  "same_reading w w' \<longleftrightarrow> w_engine w' = w_engine w \<and> w_position w' = w_position w
     \<and> (w_needs_input_observed w \<longrightarrow> w_needs_input_observed w')"

lemma screen_keeps:
  assumes "await_turn_step (rd_screen i) = AwReady (Inr seen)"
  shows "meets S P (note_screen S i seen w) (\<lambda>w'. same_reading w w' \<and> (shows_modal i \<longrightarrow> w_needs_input_observed w'))"
  using assms
  by (cases seen)
    (auto simp: Let_def note_other_screen_def same_reading_def shows_modal_def meets_goes_on meets_fail intro!: told)

lemma read_keeps:
  "meets S P (read_batch F nfc S b now batch w)
    (\<lambda>w'. ingest_all F nfc (tb_rows batch) (w_engine w) = Inr (w_engine w') \<and> w_position w' = tb_position batch
       \<and> w_needs_input_observed w' = w_needs_input_observed w)"
proof (cases "validate_position (w_position w) batch")
  case (Inl e)
  then show ?thesis by (simp add: read_batch_def meets_driver)
next
  case (Inr u)
  show ?thesis
    unfolding read_batch_def Inr sum.case by (rule meets_andw [OF meets_or_fail]) (simp add: meets_goes_on)
qed

lemma ack_keeps: "meets S P (note_acknowledgement S i a w) (same_reading w)"
proof (cases "ta_acknowledgement a")
  case (Some ack)
  have "meets S P (andw (or_fail S (rd_reaped i) (checked_actor_timestamp (rd_ack_now i) ''prompt_acknowledged_at'')) (\<lambda>now.
      andw (tell [WEvent (turn_of S) p, WState (turn_of S) SRunning]) (\<lambda>_. goes_on (f now)))) (same_reading w)"
    if "\<And>now. same_reading w (f now)" for f p
    by (rule meets_andw [OF meets_or_fail], rule told) (simp_all add: meets_goes_on that)
  then show ?thesis
    using Some by (simp add: note_acknowledgement_def meets_goes_on same_reading_def)
qed (simp add: note_acknowledgement_def meets_goes_on same_reading_def)

lemma transcript_event_told: "meets S P (transcript_event F S b p) (\<lambda>_. True)"
  by (simp add: transcript_event_def meets_fail meets_tell)

lemma messages_told: "meets S P (message_deltas F S b seen ms) (\<lambda>_. True)"
  by (induction ms arbitrary: seen) (simp_all add: meets_goes_on meets_andw [OF transcript_event_told])

lemma tool_event_told: "meets S P (tool_event_once F S b u p seen) (\<lambda>_. True)"
  by (simp add: tool_event_once_def meets_goes_on meets_andw [OF transcript_event_told])

lemma tools_told: "meets S P (tool_deltas F S b (xs, ys) ts) (\<lambda>_. True)"
proof (induction ts arbitrary: xs ys)
  case (Cons t ts)
  show ?case
    unfolding tool_deltas.simps
    by (rule meets_andw [OF tool_event_told], rule meets_andw [where Q = "\<lambda>_. True"])
      (auto simp: meets_goes_on tool_event_told Cons.IH split: option.splits)
qed (simp add: meets_goes_on)

lemma warnings_told: "meets S P (warning_deltas F S b seen ws) (\<lambda>_. True)"
  by (induction ws arbitrary: seen) (simp_all add: meets_goes_on meets_andw [OF transcript_event_told])

lemma deltas_keep: "meets S P (emit_analysis_deltas F S b a w) (same_reading w)"
  unfolding emit_analysis_deltas_def
  by (rule meets_andw [OF messages_told], rule meets_andw [OF tools_told], clarify, rule meets_andw [OF warnings_told])
    (simp add: meets_goes_on same_reading_def)

lemma candidate_keeps: "meets S P (note_candidate S i f w) (same_reading w)"
proof (cases "w_terminal_candidate_at_ms w")
  case None
  show ?thesis
    unfolding note_candidate_def
    by (simp add: None) (rule meets_andw [OF meets_or_fail], rule told, simp_all add: meets_goes_on same_reading_def)
qed (simp add: note_candidate_def meets_goes_on same_reading_def)


section \<open>What is proven when a turn is reported complete\<close>

text \<open>
  The proof of a completion: the terminal showed a ready and quiet prompt, then a further read of the
  transcript moved nothing and found it drained for as long as the turn owes, and the analysis of
  everything read says the turn is over. A minified cell owes less only if no modal was seen and every one
  of its checks passed.
\<close>

definition owed :: "worker_setup \<Rightarrow> bool \<Rightarrow> transcript_analysis \<Rightarrow> turn_result \<Rightarrow> u64" where
  "owed S modal a r = minified_drain_ms (full_drain S a)
     (ws_cell S = Minified \<and> \<not> modal \<and> evaluate_minified_fast_path a (tr_timings r) False = [])"

definition proven ::
  "foreign \<Rightarrow> worker_setup \<Rightarrow> turn_deadline \<Rightarrow> bool \<Rightarrow> round \<Rightarrow> transcript_engine \<Rightarrow> transcript_position \<Rightarrow>
     turn_result \<Rightarrow> turn_deadline \<Rightarrow> bool" where
  "proven F S deadline modal i e pos r d \<longleftrightarrow> d = deadline \<and> tr_turn_id r = turn_of S \<and> result_safe F r
     \<and> (\<exists>ev c a f. await_turn_step (rd_evidence i) = AwReady (Inr ev) \<and> te_ready_prompt ev \<and> te_quiet ev
          \<and> await_turn_step (rd_confirmation i) = AwReady (Inr c) \<and> tb_position c = pos \<and> tb_rows c = []
          \<and> analyze e = Inr a \<and> ta_status a = Terminal f \<and> satisfies (tb_drain c) (owed S modal a r)
          \<and> tr_text r = ft_final_text f \<and> tr_tools r = map map_tool_record (ta_tools a)
          \<and> combined (tr_usage r) = map_usage (ut_tokens (ta_combined_usage a)))"

lemma fast_path_modal: "evaluate_minified_fast_path a t b = [] \<Longrightarrow> \<not> b \<and> evaluate_minified_fast_path a t False = []"
  by (auto simp: evaluate_minified_fast_path_def split: if_splits)

lemma fast_path_clear: "evaluate_minified_fast_path a t False = [] \<Longrightarrow> \<not> b \<Longrightarrow> evaluate_minified_fast_path a t b = []"
  by (simp add: evaluate_minified_fast_path_def)

lemma minified_drain_cases: "minified_drain_ms full b = (if b then min full MINIFIED_FAST_PATH_DRAIN_FLOOR_MS else full)"
  by (simp add: minified_drain_ms_def)

lemma drain_owed:
  assumes "satisfies d (offered_drain S a)" "modal \<longrightarrow> b"
    and "ws_cell S = Minified \<longrightarrow>
      satisfies d (minified_drain_ms (full_drain S a) (evaluate_minified_fast_path a (tr_timings r) b = []))"
  shows "satisfies d (owed S modal a r)"
proof (cases "ws_cell S")
  case Full
  then show ?thesis using assms(1) by (simp add: owed_def offered_drain_def)
next
  case Minified
  then show ?thesis
    using assms fast_path_modal [of a "tr_timings r" b]
    by (auto simp: owed_def offered_drain_def minified_drain_cases satisfies_def split: if_splits)
qed

lemma commit_proven:
  assumes "modal \<longrightarrow> w_needs_input_observed w" "analyze (w_engine w) = Inr a" "ta_status a = Terminal f"
    "await_turn_step (rd_evidence i) = AwReady (Inr ev)" "te_ready_prompt ev" "te_quiet ev"
    "await_turn_step (rd_confirmation i) = AwReady (Inr c)" "tb_position c = w_position w" "tb_rows c = []"
    "satisfies (tb_drain c) (offered_drain S a)"
  shows "meets S (proven F S deadline modal i (w_engine w) (w_position w)) (commit F S deadline i a f ev c w) (\<lambda>w'. w' = w)"
  unfolding commit_def
proof (rule meets_unless, rule meets_andw [OF meets_or_fail])
  fix completed_at
  let ?r = "build_turn_result F (worker_context S w ev c completed_at) a f"
  let ?earned = "minified_drain_ms (full_drain S a)
    (evaluate_minified_fast_path a (tr_timings ?r) (w_needs_input_observed w) = [])"
  have "proven F S deadline modal i (w_engine w) (w_position w) ?r deadline"
    if "result_safe F ?r" "ws_cell S = Minified \<longrightarrow> satisfies (tb_drain c) ?earned"
    unfolding proven_def
    using that(1) assms drain_owed [OF assms(10,1) that(2)] by (auto simp: build_turn_result_def worker_context_def)
  then show "meets S (proven F S deadline modal i (w_engine w) (w_position w))
      (let r = ?r; refusals = evaluate_minified_fast_path a (tr_timings r) (w_needs_input_observed w)
        in if ws_cell S = Minified
              \<and> \<not> satisfies (tb_drain c) (minified_drain_ms (full_drain S a) (refusals = []))
           then goes_on w
           else if \<not> result_safe F r then worker_fail S (rd_reaped i) unserializable_transcript_payload_error
           else unless_expired S (rd_send_expired i) (ended_with [WCompleted (turn_of S) r deadline]))
      (\<lambda>w'. w' = w)"
    by (auto simp: Let_def meets_goes_on meets_stops unless_expired_def) (simp_all add: meets_def ended_with_def)
qed

text \<open>What a worker goes on with after reading: the engine is fed and nothing observed is forgotten.\<close>

definition fed :: "foreign \<Rightarrow> (utext \<Rightarrow> utext) \<Rightarrow> bool \<Rightarrow> transcript_engine \<Rightarrow> worker \<Rightarrow> bool" where
  "fed F nfc modal e w \<longleftrightarrow> (\<exists>rows. ingest_all F nfc rows e = Inr (w_engine w)) \<and> (modal \<longrightarrow> w_needs_input_observed w)"

lemma ingest_rows_append:
  "ingest_all F nfc (xs @ ys) e = bind_r (ingest_all F nfc xs e) (ingest_all F nfc ys)"
  by (induction xs arbitrary: e) (auto simp: bind_r_def split: prod.splits sum.splits)

lemma fed_more:
  "fed F nfc modal e w \<Longrightarrow> ingest_all F nfc rows (w_engine w) = Inr (w_engine w') \<Longrightarrow>
     w_needs_input_observed w' = w_needs_input_observed w \<Longrightarrow> fed F nfc modal e w'"
  by (auto simp: fed_def) (metis bind_r_Inr ingest_rows_append)+

lemma fed_same: "fed F nfc modal e w \<Longrightarrow> same_reading w w' \<Longrightarrow> fed F nfc modal e w'"
  by (auto simp: fed_def same_reading_def)

lemma confirm_proven:
  assumes "fed F nfc modal e0 w" "analyze (w_engine w) = Inr a" "ta_status a = Terminal f"
    "await_turn_step (rd_evidence i) = AwReady (Inr ev)" "te_ready_prompt ev" "te_quiet ev"
    "await_turn_step (rd_confirmation i) = AwReady (Inr c)"
  shows "meets S (proven F S deadline modal i (w_engine w) (w_position w)) (confirm F nfc S deadline i a f ev c w)
    (fed F nfc modal e0)"
  unfolding confirm_def
proof (rule meets_andw [OF read_keeps], split if_split, intro conjI impI)
  fix w' :: worker
  assume w': "ingest_all F nfc (tb_rows c) (w_engine w) = Inr (w_engine w') \<and> w_position w' = tb_position c
    \<and> w_needs_input_observed w' = w_needs_input_observed w"
  then have fed': "fed F nfc modal e0 w'" using fed_more [OF assms(1)] by blast
  then show "meets S (proven F S deadline modal i (w_engine w) (w_position w)) (goes_on w') (fed F nfc modal e0)"
    by (simp add: meets_goes_on)
  assume "\<not> (tb_position c \<noteq> w_position w \<or> tb_rows c \<noteq> [] \<or> \<not> satisfies (tb_drain c) (offered_drain S a))"
  then have same: "tb_position c = w_position w" "tb_rows c = []" "satisfies (tb_drain c) (offered_drain S a)"
    "w_engine w' = w_engine w" "w_position w' = w_position w"
    using w' by auto
  have modal: "modal \<longrightarrow> w_needs_input_observed w'" using fed' by (simp add: fed_def)
  show "meets S (proven F S deadline modal i (w_engine w) (w_position w)) (commit F S deadline i a f ev c w') (fed F nfc modal e0)"
    using commit_proven [OF modal, where a = a and f = f and i = i and ev = ev and c = c and S = S and F = F and deadline = deadline] assms same fed' by (auto elim!: meets_weaken)
qed

lemma gate_proven:
  assumes "fed F nfc modal e0 w" "analyze (w_engine w) = Inr a" "ta_status a = Terminal f"
  shows "meets S (proven F S deadline modal i (w_engine w) (w_position w)) (gate F nfc S deadline i batch a f w)
    (fed F nfc modal e0)"
proof (cases "w_active_needs_input w")
  case None
  have "meets S (proven F S deadline modal i (w_engine w) (w_position w))
      (if te_ready_prompt ev \<and> te_quiet ev \<and> satisfies (tb_drain batch) (offered_drain S a)
       then andw (awaiting S (rd_reaped i) (rd_confirmation i)) (\<lambda>c. confirm F nfc S deadline i a f ev c w)
       else sleeping S (rd_sleep i) w) (fed F nfc modal e0)"
    if "await_turn_step (rd_evidence i) = AwReady (Inr ev)" for ev
    using confirm_proven [OF assms that] assms(1) by (auto intro!: meets_andw [OF meets_awaiting] meets_sleeping)
  then show ?thesis unfolding gate_def using None by (auto intro!: meets_andw [OF meets_awaiting])
qed (simp add: gate_def meets_sleeping assms(1))

lemma meets_same:
  assumes "meets S P x (same_reading w)" "fed F nfc modal e0 w"
  shows "meets S P x (\<lambda>w'. fed F nfc modal e0 w' \<and> w_engine w' = w_engine w \<and> w_position w' = w_position w)"
  using assms(1) by (rule meets_weaken) (use fed_same [OF assms(2)] in \<open>auto simp: same_reading_def\<close>)

lemma analysed_proven:
  assumes "fed F nfc modal e0 w"
  shows "meets S (proven F S deadline modal i (w_engine w) (w_position w))
    (andw (or_fail S (rd_reaped i) (case analyze (w_engine w) of
        Inl e \<Rightarrow> Inl (map_transcript_error F e) | Inr a \<Rightarrow> Inr a)) (\<lambda>a.
     andw (note_acknowledgement S i a w) (\<lambda>w3.
     andw (emit_analysis_deltas F S (rd_reaped i) a w3) (\<lambda>w4.
     case ta_status a of
       Terminal f \<Rightarrow> andw (note_candidate S i f w4) (gate F nfc S deadline i batch a f)
     | _ \<Rightarrow> sleeping S (rd_sleep i) w4)))) (fed F nfc modal e0)"
    (is "meets S ?P _ _")
proof (rule meets_andw [OF meets_or_fail])
  fix a
  assume "(case analyze (w_engine w) of Inl e \<Rightarrow> Inl (map_transcript_error F e) | Inr a \<Rightarrow> Inr a) = Inr a"
  then have a: "analyze (w_engine w) = Inr a" by (auto split: sum.splits)
  have finish: "meets S ?P (case ta_status a of
        Terminal f \<Rightarrow> andw (note_candidate S i f w4) (gate F nfc S deadline i batch a f)
      | _ \<Rightarrow> sleeping S (rd_sleep i) w4) (fed F nfc modal e0)"
    if w4: "fed F nfc modal e0 w4" "w_engine w4 = w_engine w" "w_position w4 = w_position w" for w4
  proof (cases "ta_status a")
    case (Terminal f)
    have "meets S ?P (gate F nfc S deadline i batch a f w5) (fed F nfc modal e0)"
      if "fed F nfc modal e0 w5" "w_engine w5 = w_engine w" "w_position w5 = w_position w" for w5
      using gate_proven [OF that(1) _ Terminal, where S = S and deadline = deadline and i = i and batch = batch] a that by simp
    then show ?thesis
      using Terminal w4 by (auto intro!: meets_andw [OF meets_same [OF candidate_keeps w4(1)]])
  qed (simp_all add: meets_sleeping w4)
  show "meets S ?P (andw (note_acknowledgement S i a w) (\<lambda>w3.
      andw (emit_analysis_deltas F S (rd_reaped i) a w3) (\<lambda>w4.
      case ta_status a of
        Terminal f \<Rightarrow> andw (note_candidate S i f w4) (gate F nfc S deadline i batch a f)
      | _ \<Rightarrow> sleeping S (rd_sleep i) w4))) (fed F nfc modal e0)"
    by (rule meets_andw [OF meets_same [OF ack_keeps assms]], elim conjE,
        rule meets_andw [OF meets_same [OF deltas_keep]], assumption, elim conjE, rule finish) simp_all
qed


definition round_proof ::
  "foreign \<Rightarrow> (utext \<Rightarrow> utext) \<Rightarrow> worker_setup \<Rightarrow> turn_deadline \<Rightarrow> bool \<Rightarrow> round \<Rightarrow> worker \<Rightarrow> turn_result \<Rightarrow>
     turn_deadline \<Rightarrow> bool" where
  "round_proof F nfc S deadline modal i w r d \<longleftrightarrow>
     (\<exists>b e. await_turn_step (rd_batch i) = AwReady (Inr b) \<and> ingest_all F nfc (tb_rows b) (w_engine w) = Inr e
        \<and> proven F S deadline modal i e (tb_position b) r d)"

lemma round_proven:
  assumes "fed F nfc modal e0 w0"
  shows "meets S (round_proof F nfc S deadline (modal \<or> shows_modal i) i w0) (worker_round F nfc S deadline i w0)
    (fed F nfc (modal \<or> shows_modal i) e0)"
    (is "meets S ?P _ (fed F nfc ?modal e0)")
  unfolding worker_round_def
proof (rule meets_unless, split if_split, intro conjI impI)
  show "meets S ?P (ended_with []) (fed F nfc ?modal e0)" by (simp add: meets_ended)
  show "meets S ?P (andw (awaiting S (rd_reaped i) (rd_screen i)) (\<lambda>seen.
          andw (note_screen S i seen w0) (\<lambda>w1.
          andw (awaiting S (rd_reaped i) (rd_batch i)) (\<lambda>batch.
          andw (read_batch F nfc S (rd_reaped i) (rd_read_now i) batch
                  (if tb_rows batch = [] then w1 else w1\<lparr>w_unrecognised_screen_since := None\<rparr>)) (\<lambda>w2.
          andw (or_fail S (rd_reaped i) (case analyze (w_engine w2) of
                  Inl e \<Rightarrow> Inl (map_transcript_error F e) | Inr a \<Rightarrow> Inr a)) (\<lambda>a.
          andw (note_acknowledgement S i a w2) (\<lambda>w3.
          andw (emit_analysis_deltas F S (rd_reaped i) a w3) (\<lambda>w4.
          case ta_status a of
            Terminal f \<Rightarrow> andw (note_candidate S i f w4) (gate F nfc S deadline i batch a f)
          | _ \<Rightarrow> sleeping S (rd_sleep i) w4))))))))
      (fed F nfc ?modal e0)"
  proof (rule meets_andw [OF meets_awaiting], rule meets_andw [OF screen_keeps], assumption,
      rule meets_andw [OF meets_awaiting], rule meets_andw [OF read_keeps], elim conjE)
    fix w1 w2 :: worker and batch :: transcript_batch
    let ?w1 = "if tb_rows batch = [] then w1 else w1\<lparr>w_unrecognised_screen_since := None\<rparr>"
    assume w1: "same_reading w0 w1" "shows_modal i \<longrightarrow> w_needs_input_observed w1"
      and b: "await_turn_step (rd_batch i) = AwReady (Inr batch)"
      and w2: "ingest_all F nfc (tb_rows batch) (w_engine ?w1) = Inr (w_engine w2)" "w_position w2 = tb_position batch"
        "w_needs_input_observed w2 = w_needs_input_observed ?w1"
    have "fed F nfc ?modal e0 ?w1" using fed_same [OF assms w1(1)] w1(2) by (auto simp: fed_def)
    from fed_more [OF this w2(1,3)] have fed2: "fed F nfc ?modal e0 w2" .
    have e: "ingest_all F nfc (tb_rows batch) (w_engine w0) = Inr (w_engine w2)"
      using w2(1) w1(1) by (simp add: same_reading_def split: if_splits)
    show "meets S ?P (andw (or_fail S (rd_reaped i) (case analyze (w_engine w2) of
                  Inl e \<Rightarrow> Inl (map_transcript_error F e) | Inr a \<Rightarrow> Inr a)) (\<lambda>a.
          andw (note_acknowledgement S i a w2) (\<lambda>w3.
          andw (emit_analysis_deltas F S (rd_reaped i) a w3) (\<lambda>w4.
          case ta_status a of
            Terminal f \<Rightarrow> andw (note_candidate S i f w4) (gate F nfc S deadline i batch a f)
          | _ \<Rightarrow> sleeping S (rd_sleep i) w4)))) (fed F nfc ?modal e0)"
      by (rule meets_weaken [OF analysed_proven [OF fed2]]) (use b e w2(2) in \<open>auto simp: round_proof_def\<close>)
  qed
qed

lemma in_andw:
  assumes "u \<in> set (fst (andw x f))"
  obtains "u \<in> set (fst x)" | us a where "x = (us, Some a)" "u \<in> set (fst (f a))"
  using assms by (cases x; cases "snd x") (auto simp: andw_def split: prod.splits)

lemma rounds_proven:
  assumes "fed F nfc modal e0 w" "WCompleted t r d \<in> set (fst (worker_rounds F nfc S deadline rounds w))"
  shows "\<exists>pre i suf us w1. rounds = pre @ i # suf \<and> worker_rounds F nfc S deadline pre w = (us, Some w1)
    \<and> fed F nfc (modal \<or> list_ex shows_modal pre) e0 w1
    \<and> round_proof F nfc S deadline (modal \<or> list_ex shows_modal (pre @ [i])) i w1 r d"
  using assms
proof (induction rounds arbitrary: modal w)
  case (Cons i rounds)
  note contract = round_proven [OF Cons.prems(1), where S = S and deadline = deadline and i = i]
  from Cons.prems(2) [unfolded worker_rounds.simps] show ?case
  proof (cases rule: in_andw)
    case 1
    then have "round_proof F nfc S deadline (modal \<or> shows_modal i) i w r d"
      using contract unfolding meets_def by blast
    then show ?thesis
      using Cons.prems(1) by (intro exI [of _ "[]"] exI [of _ i] exI [of _ rounds]) (simp add: goes_on_def)
  next
    case (2 us w')
    then have "fed F nfc (modal \<or> shows_modal i) e0 w'" using contract by (simp add: meets_def)
    from Cons.IH [OF this 2(2)] obtain pre j suf vs w1 where
      IH: "rounds = pre @ j # suf" "worker_rounds F nfc S deadline pre w' = (vs, Some w1)"
      "fed F nfc ((modal \<or> shows_modal i) \<or> list_ex shows_modal pre) e0 w1"
      "round_proof F nfc S deadline ((modal \<or> shows_modal i) \<or> list_ex shows_modal (pre @ [j])) j w1 r d"
      by blast
    have "worker_rounds F nfc S deadline (i # pre) w = (us @ vs, Some w1)"
      using 2(1) IH(2) by (simp add: andw_def)
    then show ?thesis
      using IH by (intro exI [of _ "i # pre"] exI [of _ j] exI [of _ suf]) (auto simp: disj_assoc)
  qed
qed (simp add: goes_on_def)

lemma start_silent: "WCompleted t r d \<notin> set (fst (worker_start F nfc S i))"
  using start_keeps [where P = "\<lambda>_ _. False"] by (auto simp: meets_def)

lemma fed_armed: "fed F nfc modal e0 w \<Longrightarrow> armed_for nfc prompt e0 \<Longrightarrow> armed_for nfc prompt (w_engine w)"
  by (auto simp: fed_def intro: ingest_rows_armed)

lemma run_proven:
  assumes "WCompleted t r d \<in> set (fst (worker_run F nfc S i rounds))"
  obtains deadline w0 pre j suf us vs w1 where
    "worker_start F nfc S i = (us, Some (deadline, w0))" "rounds = pre @ j # suf"
    "worker_rounds F nfc S deadline pre w0 = (vs, Some w1)"
    "armed_for nfc (tq_prompt (ws_turn S)) (w_engine w1)"
    "round_proof F nfc S deadline (list_ex shows_modal (pre @ [j])) j w1 r d"
  using assms unfolding worker_run_def
proof (cases rule: in_andw)
  case 1
  then show ?thesis using start_silent by blast
next
  case (2 us x)
  obtain deadline w0 where x: "x = (deadline, w0)" by (cases x)
  have "still_armed nfc S False w0"
    using start_keeps [where P = "\<lambda>_ _. True" and F = F and nfc = nfc and S = S and i = i] 2(1) x by (auto simp: meets_def)
  then have armed: "armed_for nfc (tq_prompt (ws_turn S)) (w_engine w0)" by (simp add: still_armed_def)
  have "fed F nfc False (w_engine w0) w0" unfolding fed_def by (auto intro: exI [of _ "[]"])
  from rounds_proven [OF this, of t r d S deadline rounds] 2(2) x obtain pre j suf vs w1 where
    "rounds = pre @ j # suf" "worker_rounds F nfc S deadline pre w0 = (vs, Some w1)"
    "fed F nfc (list_ex shows_modal pre) (w_engine w0) w1"
    "round_proof F nfc S deadline (list_ex shows_modal (pre @ [j])) j w1 r d"
    by auto
  then show ?thesis using that 2(1) x fed_armed armed by blast
qed

section \<open>The reports of a run\<close>

definition orderly :: "worker_setup \<Rightarrow> 'a act \<Rightarrow> bool" where
  "orderly S x \<longleftrightarrow> list_all (\<lambda>u. turn_of_update u = Some (turn_of S)) (fst x) \<and> list_all (own S) (butlast (fst x))
     \<and> (snd x = None \<or> list_all (own S) (fst x))"

lemma meets_orderly: "meets S P x Q \<Longrightarrow> orderly S x"
  by (auto simp: meets_def orderly_def list_all_iff)

lemma rounds_meet:
  assumes "fed F nfc modal e0 w"
  shows "meets S (\<lambda>_ _. True) (worker_rounds F nfc S deadline rounds w) (\<lambda>_. True)"
  using assms
proof (induction rounds arbitrary: modal w)
  case (Cons i rounds)
  show ?case
    unfolding worker_rounds.simps
    by (rule meets_andw [OF meets_weaken [OF round_proven [OF Cons.prems]]])
      (use Cons.IH in \<open>auto intro: TrueI\<close>)
qed (simp add: meets_goes_on)

lemma run_meets: "meets S (\<lambda>_ _. True) (worker_run F nfc S i rounds) (\<lambda>_. True)"
  unfolding worker_run_def
proof (rule meets_andw [OF start_keeps], clarify)
  fix d w
  have "fed F nfc False (w_engine w) w" unfolding fed_def by (auto intro: exI [of _ "[]"])
  then show "meets S (\<lambda>_ _. True) (worker_rounds F nfc S d rounds w) (\<lambda>_. True)" by (rule rounds_meet)
qed

lemmas run_orderly = meets_orderly [OF run_meets]

lemma own_completed [simp]: "\<not> own S (WCompleted t r d)" "\<not> own S (WFailed t e b)"
  by (simp_all add: own_def)

text \<open>The prompt acknowledged in the transcript is the prompt that was submitted.\<close>

definition acknowledged_as :: "(utext \<Rightarrow> utext) \<Rightarrow> utext \<Rightarrow> transcript_engine \<Rightarrow> transcript_analysis \<Rightarrow> bool" where
  "acknowledged_as nfc prompt e a \<longleftrightarrow> (\<exists>ack typed. ta_acknowledgement a = Some ack
     \<and> kind_of (te_rows e ! pa_ordinal ack) = TypedUser typed (prompt_acknowledgement.pa_prompt_id ack)
     \<and> normalize_prompt nfc typed = normalize_prompt nfc prompt)"

lemma terminal_acknowledged:
  assumes "armed_for nfc prompt e" "length (te_rows e) \<le> u64_max" "analyze e = Inr a" "ta_status a = Terminal f"
  shows "acknowledged_as nfc prompt e a"
proof -
  have ok: "engine_ok nfc e" using engine_reachable_ok assms(1,2) by (auto simp: armed_for_def)
  from assms(3,4) obtain ack where ack: "ta_acknowledgement a = Some ack"
    by (auto simp: analyze_def Let_def bind_r_Inr split: option.splits)
  from assms(3) ack show ?thesis
  proof (cases rule: analyze_cases)
    case (1 t ai side side_messages)
    then have "turn_exact nfc e t" using ok by (simp add: engine_ok_def)
    then show ?thesis
      using 1(1,2) ack assms(1) by (auto simp: turn_exact_def acknowledges_def acknowledged_as_def armed_for_def)
  qed
qed

section \<open>Properties\<close>

text \<open>C12: A turn is reported complete only when it is proven complete. If a worker reports a completion, then in
  one of its rounds, after the rounds before it ran as the model runs them, the terminal showed a ready and quiet prompt, a
  further read of the transcript returned no row at the position already read, and the transcript had been drained for
  as long as the turn owes, which is less than the full drain only for a minified cell that showed no modal and passed
  all of its checks. The reported text is the final text of the analysis of everything read, the turn and the deadline
  are the worker's own, the acknowledged prompt is the submitted one up to normalisation, and the answer is the whole
  last message of the turn.\<close>

theorem completed_turn_is_proven:
  assumes "WCompleted t r d \<in> set (fst (worker_run F nfc S start rounds))"
  shows "t = turn_of S \<and> tr_turn_id r = t
    \<and> (\<exists>us w0 pre i post vs w b e ev c a f.
        worker_start F nfc S start = (us, Some (d, w0)) \<and> rounds = pre @ i # post
        \<and> worker_rounds F nfc S d pre w0 = (vs, Some w)
        \<and> await_turn_step (rd_batch i) = AwReady (Inr b) \<and> ingest_all F nfc (tb_rows b) (w_engine w) = Inr e
        \<and> await_turn_step (rd_evidence i) = AwReady (Inr ev) \<and> te_ready_prompt ev \<and> te_quiet ev
        \<and> await_turn_step (rd_confirmation i) = AwReady (Inr c) \<and> tb_position c = tb_position b \<and> tb_rows c = []
        \<and> satisfies (tb_drain c) (owed S (list_ex shows_modal (pre @ [i])) a r)
        \<and> analyze e = Inr a \<and> ta_status a = Terminal f \<and> tr_text r = ft_final_text f
        \<and> (length (te_rows e) \<le> u64_max \<longrightarrow>
             acknowledged_as nfc (tq_prompt (ws_turn S)) e a \<and> whole_answer e a f))"
proof -
  from run_orderly [of S F nfc start rounds] assms have t: "t = turn_of S"
    by (auto simp: orderly_def list_all_iff)
  from assms show ?thesis
  proof (rule run_proven)
    fix deadline w0 pre j suf us vs w1
    assume run: "worker_start F nfc S start = (us, Some (deadline, w0))" "rounds = pre @ j # suf"
      "worker_rounds F nfc S deadline pre w0 = (vs, Some w1)"
      and armed: "armed_for nfc (tq_prompt (ws_turn S)) (w_engine w1)"
      and proof': "round_proof F nfc S deadline (list_ex shows_modal (pre @ [j])) j w1 r d"
    from proof' obtain b e where b: "await_turn_step (rd_batch j) = AwReady (Inr b)"
      "ingest_all F nfc (tb_rows b) (w_engine w1) = Inr e"
      "proven F S deadline (list_ex shows_modal (pre @ [j])) j e (tb_position b) r d"
      unfolding round_proof_def by blast
    have armed_e: "armed_for nfc (tq_prompt (ws_turn S)) e" by (rule ingest_rows_armed [OF b(2) armed])
    have end_of: "acknowledged_as nfc (tq_prompt (ws_turn S)) e a \<and> whole_answer e a f"
      if "analyze e = Inr a" "ta_status a = Terminal f" "length (te_rows e) \<le> u64_max" for a f
      using terminal_acknowledged [OF armed_e that(3,1,2)] answer_whole [OF _ that(1,2)] armed_e that(3)
      by (auto simp: armed_for_def)
    show ?thesis using t run b end_of unfolding proven_def by blast
  qed
qed

text \<open>A worker of a full cell that reads the prompt in one round and the rest of the turn in the next.\<close>

definition sample_foreign :: foreign where
  "sample_foreign = \<lparr>fo_transcript_error = (\<lambda>_. ''transcript''), fo_warning = (\<lambda>_. ''warning''), fo_float_safe = (\<lambda>_. True)\<rparr>"

definition sample_setup :: worker_setup where
  "sample_setup =
     \<lparr>ws_session_id = ''s'', ws_generation_id = ''g'', ws_cell = Full,
      ws_turn = \<lparr>tq_turn_id = ''t1'', tq_prompt = ascii ''hi'', tq_deadline_unix_ms = None,
                 tq_lease = \<lparr>lp_on_disconnect = OnContinue, lp_heartbeat_timeout_ms = None\<rparr>\<rparr>,
      ws_submitted_at_ms = 10, ws_default_turn_timeout_ms = 60000,
      ws_compatibility = \<lparr>cr_claude_version = ''2.1.0'', cr_os = ''linux'', cr_arch = ''x86_64'',
        cr_terminal_profile = Transparent, cr_input_transport = Sdk, cr_tested = True, cr_unpromoted = False,
        cr_transcript_drain_ms = 100\<rparr>,
      ws_dangerous_permission_bypass = False\<rparr>"

definition in_time :: "'a \<Rightarrow> 'a awaited" where
  "in_time x = \<lparr>aw_expired_before = False, aw_race = Answered x, aw_expired_after = False\<rparr>"

definition sample_begin :: start_answers where
  "sample_begin =
     \<lparr>sa_now = 10, sa_instant_in = Some, sa_running = True,
      sa_arm = in_time (Inr \<lparr>arm_position = \<lparr>tp_generation = 1, tp_offset = 0\<rparr>, arm_historical_rows = []\<rparr>),
      sa_expired = False, sa_submitted = in_time (Inr ()), sa_reaped = False\<rparr>"

definition sample_batch :: "nat \<Rightarrow> nat \<Rightarrow> parsed_row list \<Rightarrow> transcript_batch" where
  "sample_batch offset quiet rows =
     \<lparr>tb_position = \<lparr>tp_generation = 1, tp_offset = offset\<rparr>, tb_rows = rows,
      tb_drain = \<lparr>dr_at_eof = True, dr_has_partial_line = False, dr_stable_for_ms = quiet\<rparr>\<rparr>"

definition sample_round :: "nat \<Rightarrow> parsed_row list \<Rightarrow> round" where
  "sample_round offset rows =
     \<lparr>rd_expired = False, rd_running = True, rd_screen = in_time (Inr ObservedReady), rd_screen_now = 20,
      rd_batch = in_time (Inr (sample_batch offset 5000 rows)), rd_read_now = 20, rd_ack_now = 20, rd_candidate_now = 20,
      rd_evidence = in_time (Inr \<lparr>te_ready_prompt = True, te_quiet = True, te_lifecycle_expected = False,
        te_lifecycle_hook_observed = False, te_lifecycle_hook_at_ms = None\<rparr>),
      rd_confirmation = in_time (Inr (sample_batch offset 5000 [])), rd_confirm_now = 30, rd_commit_expired = False,
      rd_completed_now = 30, rd_send_expired = False, rd_sleep = in_time (), rd_reaped = False\<rparr>"

definition sample_worker :: "worker act" where
  "sample_worker = worker_run sample_foreign id sample_setup sample_begin
     [sample_round 1 (take 1 sample_rows), sample_round 7 (drop 1 sample_rows)]"

lemma sample_reported:
  "(case last (fst sample_worker) of WCompleted t r d \<Rightarrow> tr_text r = ascii ''ok'' | _ \<Rightarrow> False)
     \<and> length (fst sample_worker) = 11"
  by code_simp

theorem completed_turn_is_proven_witness:
  "\<exists>r d. last (fst sample_worker) = WCompleted ''t1'' r d \<and> tr_turn_id r = ''t1'' \<and> tr_text r = ascii ''ok''
     \<and> (\<exists>e a f. analyze e = Inr a \<and> ta_status a = Terminal f \<and> ft_final_text f = ascii ''ok''
          \<and> (length (te_rows e) \<le> u64_max \<longrightarrow> acknowledged_as id (ascii ''hi'') e a \<and> whole_answer e a f))"
proof -
  obtain t r d where reported: "last (fst sample_worker) = WCompleted t r d" "tr_text r = ascii ''ok''"
    using sample_reported by (auto split: worker_update.splits)
  have "fst sample_worker \<noteq> []" using sample_reported by auto
  then have "WCompleted t r d \<in> set (fst sample_worker)" using reported(1) last_in_set by metis
  note proved = completed_turn_is_proven [OF this [unfolded sample_worker_def]]
  have "turn_of sample_setup = ''t1''" "tq_prompt (ws_turn sample_setup) = ascii ''hi''"
    by (simp_all add: sample_setup_def)
  then show ?thesis using proved reported by metis
qed

text \<open>C13: A worker ends its turn at most once. Whatever it is answered, every report is about its own turn, no report but
  the last one ends the turn, and a worker that still runs has reported no end.\<close>

theorem worker_ends_its_turn_once:
  "list_all (\<lambda>u. turn_of_update u = Some (turn_of S)) (fst (worker_run F nfc S start rounds))
   \<and> list_all (\<lambda>u. \<not> ends_turn u) (butlast (fst (worker_run F nfc S start rounds)))
   \<and> (snd (worker_run F nfc S start rounds) = None
      \<or> list_all (\<lambda>u. \<not> ends_turn u) (fst (worker_run F nfc S start rounds)))"
  using run_orderly [of S F nfc start rounds] by (auto simp: orderly_def own_def list_all_iff)

section \<open>Ready again after a cancel or a detach\<close>

definition position_after :: "transcript_position \<Rightarrow> settle_read list \<Rightarrow> transcript_position" where
  "position_after pos reads = fold (\<lambda>i p. case st_batch i of Some (Inr b) \<Rightarrow> tb_position b | _ \<Rightarrow> p) reads pos"

lemma stabilize_settled:
  "stabilize required is pos = Some True \<Longrightarrow>
     \<exists>pre i post b. is = pre @ i # post \<and> \<not> st_expired i \<and> st_batch i = Some (Inr b)
       \<and> still_drained required (position_after pos pre) b"
proof (induction "is" arbitrary: pos)
  case (Cons i "is")
  then obtain b where b: "st_batch i = Some (Inr b)" "\<not> st_expired i"
    by (auto split: if_splits option.splits sum.splits)
  show ?case
  proof (cases "still_drained required pos b")
    case True
    then show ?thesis using b by (intro exI [of _ "[]"]) (simp add: position_after_def)
  next
    case False
    then have "stabilize required is (tb_position b) = Some True"
      using Cons.prems b by (simp add: still_drained_def split: if_splits)
    from Cons.IH [OF this] obtain pre j post c where
      "is = pre @ j # post" "\<not> st_expired j" "st_batch j = Some (Inr c)"
      "still_drained required (position_after (tb_position b) pre) c"
      by blast
    then show ?thesis using b by (intro exI [of _ "i # pre"]) (simp add: position_after_def)
  qed
qed simp

definition unready :: "u64 \<Rightarrow> transcript_position \<Rightarrow> reconcile_read \<Rightarrow> bool" where
  "unready required cursor i \<longleftrightarrow> (\<exists>b. rr_batch i = Inr b \<and> tb_position b = cursor \<and> tb_rows b = []
     \<and> (satisfies (tb_drain b) required \<longrightarrow>
          (\<exists>ev. rr_evidence i = Inr ev \<and> \<not> (te_ready_prompt ev \<and> te_quiet ev))))"

definition ready_between :: "u64 \<Rightarrow> transcript_position \<Rightarrow> reconcile_read \<Rightarrow> bool" where
  "ready_between required cursor i \<longleftrightarrow> (\<exists>b ev c. rr_batch i = Inr b \<and> still_drained required cursor b
     \<and> rr_evidence i = Inr ev \<and> te_ready_prompt ev \<and> te_quiet ev \<and> rr_final i = Inr c \<and> still_drained required cursor c)"

lemma reconcile_ready:
  "reconcile required cursor is = Some (Inr AttachReady) \<Longrightarrow>
     \<exists>pre i post. is = pre @ i # post \<and> list_all (unready required cursor) pre \<and> ready_between required cursor i"
proof (induction "is")
  case (Cons i "is")
  show ?case
  proof (cases "ready_between required cursor i")
    case True
    then show ?thesis by (intro exI [of _ "[]"]) simp
  next
    case False
    with Cons.prems have "unready required cursor i" "reconcile required cursor is = Some (Inr AttachReady)"
      by (auto simp: unready_def ready_between_def still_drained_def
            split: sum.splits if_splits terminal_screen_observation.splits)
    moreover from Cons.IH [OF this(2)] obtain pre j post where
      "is = pre @ j # post" "list_all (unready required cursor) pre" "ready_between required cursor j"
      by blast
    ultimately show ?thesis by (intro exI [of _ "i # pre"] exI [of _ j] exI [of _ post]) simp
  qed
qed simp

text \<open>C14: A session is called ready again only over a silent transcript. A cancel is reported as recovered only if the
  interrupt brought the terminal back and, in time, a read returned no row at the position reached by the reads
  before it with the transcript drained as long as required. A detached session is reported ready only if
  reads on both sides of a ready and quiet prompt returned no row at the position armed at, drained as long as required,
  and no read before them moved from that position.\<close>

theorem ready_again_only_when_drained:
  "(cancel_recovery turn interrupt (stabilize_cancelled_transcript required arm reads) now reaped
      = Some (WCancelled turn oc True at p) \<longrightarrow>
      oc = CancelDone \<and> interrupt = Some (Inr RecoveredToReady)
      \<and> (\<exists>x pre i post b. arm = Some (Inr x) \<and> reads = pre @ i # post \<and> \<not> st_expired i \<and> st_batch i = Some (Inr b)
           \<and> still_drained required (position_after (arm_position x) pre) b))
   \<and> (attach_reconciled u required arm looks late = WAttachReconciled u (Inr AttachReady) \<longrightarrow>
      (\<exists>x pre i post. arm = Some (Inr x) \<and> looks = pre @ i # post
         \<and> list_all (unready required (arm_position x)) pre \<and> ready_between required (arm_position x) i))"
proof (intro conjI impI)
  assume a: "cancel_recovery turn interrupt (stabilize_cancelled_transcript required arm reads) now reaped
      = Some (WCancelled turn oc True at p)"
  then show "oc = CancelDone" "interrupt = Some (Inr RecoveredToReady)"
    by (auto simp: cancel_recovery_def split: option.splits sum.splits interrupt_recovery.splits if_splits)
  from a have "stabilize_cancelled_transcript required arm reads = Some True"
    by (auto simp: cancel_recovery_def split: option.splits sum.splits interrupt_recovery.splits if_splits)
  then obtain x where "arm = Some (Inr x)" "stabilize required reads (arm_position x) = Some True"
    by (auto simp: stabilize_cancelled_transcript_def split: option.splits sum.splits)
  then show "\<exists>x pre i post b. arm = Some (Inr x) \<and> reads = pre @ i # post \<and> \<not> st_expired i \<and> st_batch i = Some (Inr b)
      \<and> still_drained required (position_after (arm_position x) pre) b"
    using stabilize_settled by blast
next
  assume "attach_reconciled u required arm looks late = WAttachReconciled u (Inr AttachReady)"
  then obtain x where "arm = Some (Inr x)" "reconcile required (arm_position x) looks = Some (Inr AttachReady)"
    by (auto simp: attach_reconciled_def split: option.splits sum.splits terminal_screen_observation.splits)
  then show "\<exists>x pre i post. arm = Some (Inr x) \<and> looks = pre @ i # post
      \<and> list_all (unready required (arm_position x)) pre \<and> ready_between required (arm_position x) i"
    using reconcile_ready by blast
qed

definition sample_armed :: "(error_body + transcript_arm) option" where
  "sample_armed = Some (Inr \<lparr>arm_position = \<lparr>tp_generation = 1, tp_offset = 4\<rparr>, arm_historical_rows = []\<rparr>)"

definition sample_reads :: "settle_read list" where
  "sample_reads = map (\<lambda>b. \<lparr>st_expired = False, st_batch = Some (Inr b), st_late = False\<rparr>)
     [sample_batch 7 0 sample_rows, sample_batch 7 50 [], sample_batch 7 150 []]"

definition sample_looks :: "reconcile_read list" where
  "sample_looks =
     [\<lparr>rr_batch = Inr (sample_batch 4 150 []),
       rr_evidence = Inr \<lparr>te_ready_prompt = True, te_quiet = True, te_lifecycle_expected = False,
         te_lifecycle_hook_observed = False, te_lifecycle_hook_at_ms = None\<rparr>,
       rr_final = Inr (sample_batch 4 150 []), rr_screen = Inr ObservedReady\<rparr>]"

lemmas sample_settling = sample_armed_def sample_reads_def sample_looks_def sample_batch_def

theorem ready_again_only_when_drained_witness:
  "(\<exists>pre i post b. sample_reads = pre @ i # post \<and> \<not> st_expired i \<and> st_batch i = Some (Inr b)
      \<and> still_drained 100 (position_after \<lparr>tp_generation = 1, tp_offset = 4\<rparr> pre) b)
   \<and> (\<exists>pre i post. sample_looks = pre @ i # post
      \<and> list_all (unready 100 \<lparr>tp_generation = 1, tp_offset = 4\<rparr>) pre
      \<and> ready_between 100 \<lparr>tp_generation = 1, tp_offset = 4\<rparr> i)"
proof -
  have "cancel_recovery ''t'' (Some (Inr RecoveredToReady)) (stabilize_cancelled_transcript 100 sample_armed sample_reads)
      5 False = Some (WCancelled ''t'' CancelDone True 5 False)"
    by (simp add: cancel_recovery_def stabilize_cancelled_transcript_def sample_settling validate_position_def satisfies_def)
  moreover have "attach_reconciled ''u'' 100 sample_armed sample_looks (Inr ObservedReady)
      = WAttachReconciled ''u'' (Inr AttachReady)"
    by (simp add: attach_reconciled_def still_drained_def sample_settling satisfies_def)
  ultimately show ?thesis
    using ready_again_only_when_drained [of "''t''" "Some (Inr RecoveredToReady)" 100 sample_armed sample_reads 5 False
        CancelDone 5 False "''u''" sample_looks "Inr ObservedReady"]
    by (simp add: sample_armed_def)
qed

end
