(* ===== verification/ActorLog.thy ===== *)
theory ActorLog
  imports ActorLoop "HOL-Library.Sublist"
begin

text \<open>
  The event log of a session. Every handler of the actor changes the log in two ways only: it publishes
  one more event, or it stamps the session with a checked time. The locale \<open>log_property\<close> states what a
  predicate needs to survive these two, and carries it through every handler to \<open>actor_step\<close>; it is
  interpreted for the shape of the log and for its being append-only.
\<close>

section \<open>What a handler may do to the log\<close>

definition log_view where
  "log_view a = (a_session_id a, a_generation_id a, a_config a, a_idle_ttl_ms a, a_updated_at_ms a, a_replay a,
     a_replay_bytes a, a_next_sequence a, a_sequence a, a_emitted a)"

definition timely :: "actor \<Rightarrow> timestamp_ms \<Rightarrow> bool" where
  "timely a t \<longleftrightarrow> t + a_idle_ttl_ms a \<le> MAX_SAFE_JSON_INTEGER"

definition publishable :: "sizes \<Rightarrow> actor \<Rightarrow> event_envelope \<Rightarrow> bool" where
  "publishable Z a ev \<longleftrightarrow> ev_sequence ev = a_next_sequence a \<and> a_next_sequence a \<le> event_sequence_ceiling a
     \<and> timely a (ev_timestamp_ms ev) \<and> single_event_response_bytes Z ev \<le> frame_limit a
     \<and> z_event Z ev < usize_max"

lemma checked_now_ms_cases:
  assumes "checked_now_ms resource a = (r, a')"
  shows "a' = a\<lparr>a_reads := Suc (a_reads a)\<rparr> \<and> (\<forall>t. r = Inr t \<longrightarrow> timely a t)"
  using assms
  by (auto simp: checked_now_ms_def now_ms_def checked_actor_timestamp_def checked_idle_deadline_def timely_def
      split: if_splits)

lemma ensure_slots_cases:
  assumes "ensure_sequence_slots n a = (r, a')"
  shows "a' = a\<lparr>a_reads := Suc (a_reads a)\<rparr>
    \<and> (\<forall>u. r = Inr u \<longrightarrow> n \<le> remaining_sequence_slots a)"
  using assms
  by (auto simp: ensure_sequence_slots_def and_then_def refused_def remaining_sequence_slots_def
      event_sequence_ceiling_def split: prod.splits sum.splits if_splits dest!: checked_now_ms_cases)

lemma bounded_event_cases:
  assumes "bounded_event Z a turn ts payload = Inr ev"
  shows "ev_sequence ev = a_next_sequence a \<and> ev_timestamp_ms ev = ts \<and> ev_turn_id ev = turn
    \<and> single_event_response_bytes Z ev \<le> frame_limit a"
  using assms by (auto simp: bounded_event_def envelope_def Let_def split: if_splits)

text \<open>An \<open>emit\<close> that succeeds publishes one publishable event; one that fails changes nothing but the clock.\<close>

lemma emit_cases:
  assumes "emit Z turn payload a = (r, a')"
  obtains e where "r = Inl e" "a' = a\<lparr>a_reads := Suc (a_reads a)\<rparr>"
  | ev where "r = Inr (a_next_sequence a)" "publishable Z a ev" "ev_turn_id ev = turn"
      "a' = publish_event ev (z_event Z ev) (a\<lparr>a_reads := Suc (a_reads a)\<rparr>)"
      "a_replay_bytes a + z_event Z ev \<le> usize_max"
proof -
  obtain now where c: "checked_now_ms ''event_timestamp'' a = (now, a\<lparr>a_reads := Suc (a_reads a)\<rparr>)"
    by (metis checked_now_ms_cases surj_pair)
  let ?a = "a\<lparr>a_reads := Suc (a_reads a)\<rparr>"
  note cases = assms [unfolded emit_def and_then_def c]
  show ?thesis
  proof (cases now)
    case (Inl e)
    then show ?thesis using cases that(1) by auto
  next
    case (Inr ts)
    then have t: "timely a ts" using checked_now_ms_cases [OF c] by simp
    show ?thesis
    proof (cases "\<exists>ev. bounded_event Z ?a turn ts payload = Inr ev \<and> a_next_sequence a \<le> event_sequence_ceiling a
        \<and> z_event Z ev \<noteq> usize_max \<and> a_replay_bytes a + z_event Z ev \<le> usize_max \<and> r = Inr (a_next_sequence a)
        \<and> a' = publish_event ev (z_event Z ev) ?a")
      case True
      then obtain ev where ev: "bounded_event Z ?a turn ts payload = Inr ev"
        "a_next_sequence a \<le> event_sequence_ceiling a" "z_event Z ev \<noteq> usize_max"
        "a_replay_bytes a + z_event Z ev \<le> usize_max" "r = Inr (a_next_sequence a)"
        "a' = publish_event ev (z_event Z ev) ?a" by blast
      have "publishable Z a ev"
        using bounded_event_cases [OF ev(1)] ev t
        by (auto simp: publishable_def timely_def frame_limit_def event_sequence_ceiling_def)
      then show ?thesis using that(2) ev bounded_event_cases [OF ev(1)] by blast
    next
      case False
      then have "\<exists>e. r = Inl e \<and> a' = ?a"
        using cases Inr
        by (auto simp: refused_def Let_def event_sequence_ceiling_def not_less split: if_splits sum.splits)
      then show ?thesis using that(1) by blast
    qed
  qed
qed

section \<open>The contract\<close>

locale log_property =
  fixes P :: "actor \<Rightarrow> bool" and Z :: sizes
  assumes view: "log_view a = log_view a' \<Longrightarrow> P a \<Longrightarrow> P a'"
    and touch: "P a \<Longrightarrow> timely a t \<Longrightarrow> P (a\<lparr>a_updated_at_ms := t\<rparr>)"
    and publish: "P a \<Longrightarrow> publishable Z a ev \<Longrightarrow> P (publish_event ev (z_event Z ev) a)"
begin

lemma other_fields [simp]:
  "P (a\<lparr>a_reads := n\<rparr>) = P a" "P (a\<lparr>a_state := s\<rparr>) = P a" "P (a\<lparr>a_active := act\<rparr>) = P a"
  "P (a\<lparr>a_needs_input := ni\<rparr>) = P a" "P (a\<lparr>a_needs_input_resume := rs\<rparr>) = P a"
  "P (a\<lparr>a_last_turn := lt\<rparr>) = P a" "P (a\<lparr>a_turns := ts\<rparr>) = P a"
  "P (a\<lparr>a_turn_history_bytes := n\<rparr>) = P a" "P (a\<lparr>a_process_reaped := b\<rparr>) = P a"
  "P (a\<lparr>a_writable_attach := wa\<rparr>) = P a" "P (a\<lparr>a_writable_attach_release_pending := b\<rparr>) = P a"
  "P (a\<lparr>a_cell := c\<rparr>) = P a" "P (a\<lparr>a_transcript_session_id := sid\<rparr>) = P a"
  "P (a\<lparr>a_effects := es\<rparr>) = P a" "P (a\<lparr>a_panicked := b\<rparr>) = P a"
  by (rule iffI; erule view [rotated]; simp add: log_view_def)+

lemma touched: "P a \<Longrightarrow> timely a t \<Longrightarrow> P (a\<lparr>a_writable_attach := wa, a_writable_attach_release_pending := b, a_updated_at_ms := t\<rparr>)"
  using touch [of "a\<lparr>a_writable_attach := wa, a_writable_attach_release_pending := b\<rparr>" t]
  by (simp add: timely_def)

lemma keeps_now: "checked_now_ms resource a = (r, a') \<Longrightarrow> P a \<Longrightarrow> P a'"
  by (auto dest!: checked_now_ms_cases)

lemma keeps_ensure: "ensure_sequence_slots n a = (r, a') \<Longrightarrow> P a \<Longrightarrow> P a'"
  by (auto dest!: ensure_slots_cases)

lemma keeps_emit: "emit Z turn payload a = (r, a') \<Longrightarrow> P a \<Longrightarrow> P a'"
proof (erule emit_cases)
  fix ev
  assume a: "P a" "publishable Z a ev"
    and a': "a' = publish_event ev (z_event Z ev) (a\<lparr>a_reads := Suc (a_reads a)\<rparr>)"
  have "publishable Z (a\<lparr>a_reads := Suc (a_reads a)\<rparr>) ev"
    using a(2) by (simp add: publishable_def timely_def event_sequence_ceiling_def frame_limit_def)
  then show "P a'" using a(1) unfolding a' by (intro publish) simp_all
qed simp

lemma keeps_transition: "transition Z s reason turn a = (r, a') \<Longrightarrow> P a \<Longrightarrow> P a'"
  by (auto simp: transition_def and_then_def refused_def Let_def split: if_splits prod.splits sum.splits
      dest: keeps_emit)

lemma keeps_try_transition: "P a \<Longrightarrow> P (try_transition Z s reason turn a)"
  by (simp add: try_transition_def) (metis keeps_transition prod.collapse)

lemma keeps_set_needs_input: "set_needs_input Z ni s turn a = (r, a') \<Longrightarrow> P a \<Longrightarrow> P a'"
  by (auto simp: set_needs_input_def and_then_def Let_def split: if_splits prod.splits sum.splits
      dest!: keeps_emit keeps_ensure keeps_transition)

lemma keeps_resolve: "P a \<Longrightarrow> P (resolve_needs_input Z s turn a)"
  by (auto simp: resolve_needs_input_def intro: keeps_try_transition)

lemma keeps_set_off [simp]: "P (set_off e a) = P a"
  by (simp add: set_off_def)

lemma keeps_answer [simp]: "P (answer_waiters ws r a) = P a"
  by (simp add: answer_waiters_def)

lemma keeps_drop [simp]: "P (drop_active a) = P a"
  by (simp add: drop_active_def split: option.splits)

lemma keeps_panic [simp]: "P (panic a) = P a"
  by (simp add: panic_def)

lemma keeps_store_bytes: "try_store_terminal_with_bytes turn t n a = (r, a') \<Longrightarrow> P a \<Longrightarrow> P a'"
  by (auto simp: try_store_terminal_with_bytes_def refused_def Let_def split: if_splits option.splits)

lemma keeps_store: "try_store_terminal Z' turn t a = (r, a') \<Longrightarrow> P a \<Longrightarrow> P a'"
  unfolding try_store_terminal_def by (rule keeps_store_bytes)

lemma keeps_store_failure: "store_bounded_failure Z' turn e a = (r, a') \<Longrightarrow> P a \<Longrightarrow> P a'"
  by (auto simp: store_bounded_failure_def Let_def split: prod.splits sum.splits dest!: keeps_store)

lemma keeps_stored_failure: "P a \<Longrightarrow> P (snd (store_bounded_failure Z' turn e a))"
  by (metis keeps_store_failure prod.collapse)

lemma keeps_replace: "replace_terminal_with_failure Z' turn e a = (r, a') \<Longrightarrow> P a \<Longrightarrow> P a'"
  unfolding replace_terminal_with_failure_def
  by (erule keeps_store_failure) (auto split: option.splits)

lemma keeps_release_proven: "P a \<Longrightarrow> P (release_attach_after_proven_turn a)"
  by (auto simp: release_attach_after_proven_turn_def split: option.splits)

lemma keeps_release_failed: "P a \<Longrightarrow> P (release_attach_after_failed_turn a)"
  by (auto simp: release_attach_after_failed_turn_def timely_def split: prod.splits sum.splits
      dest!: checked_now_ms_cases intro!: touch)

lemma keeps_poison: "P a \<Longrightarrow> P (poison_after_unpublishable_terminal Z turn e a)"
  by (simp add: poison_after_unpublishable_terminal_def Let_def)
    (metis keeps_release_failed keeps_replace other_fields(2,4,5) prod.collapse)

lemma keeps_finish_error: "P a \<Longrightarrow> P (finish_completed_with_error Z turn t e a)"
  by (auto simp: finish_completed_with_error_def Let_def split: prod.splits sum.splits
      dest!: keeps_store_failure keeps_emit intro: keeps_poison)

lemma keeps_now_raw: "now_ms a = (t, a') \<Longrightarrow> P a \<Longrightarrow> P a'"
  by (auto simp: now_ms_def)

lemma keeps_expired: "deadline_expired d a = (b, a') \<Longrightarrow> P a \<Longrightarrow> P a'"
  by (auto simp: deadline_expired_def now_ms_def split: option.splits if_splits)

lemma keeps_complete: "P a \<Longrightarrow> P (complete_active Z turn r d a)"
  by (auto simp: complete_active_def Let_def split: prod.splits sum.splits bool.splits
      dest!: keeps_transition keeps_store_bytes keeps_emit keeps_expired keeps_now_raw
      intro: keeps_poison keeps_finish_error keeps_release_proven)

lemma keeps_timeout: "P a \<Longrightarrow> P (timeout_completed_at_commit Z turn a)"
  by (auto simp: timeout_completed_at_commit_def split: prod.splits sum.splits
      dest!: keeps_transition keeps_now_raw intro: keeps_poison keeps_finish_error keeps_release_proven)

lemma keeps_fail_active: "P a \<Longrightarrow> P (fail_active Z turn e reaped a)"
  by (auto simp: fail_active_def Let_def split: prod.splits sum.splits option.splits
      dest!: keeps_transition keeps_emit keeps_now keeps_store_failure
      intro: keeps_poison keeps_release_failed)

lemma keeps_store_cancelled: "store_cancelled Z turn b t n a = (r, a') \<Longrightarrow> P a \<Longrightarrow> P a'"
  by (auto simp: store_cancelled_def and_then_def Let_def split: if_splits prod.splits sum.splits
      dest!: keeps_store keeps_emit keeps_store_failure intro: keeps_stored_failure)

lemma keeps_unpublished: "P a \<Longrightarrow> P (cancel_unpublished Z turn ws e a)"
  by (simp add: cancel_unpublished_def Let_def keeps_poison)

lemma keeps_finish_cancel: "P a \<Longrightarrow> P (finish_cancel Z turn oc b t reaped a)"
  by (auto simp: finish_cancel_def Let_def split: prod.splits sum.splits option.splits
      dest!: keeps_transition keeps_emit keeps_store_cancelled
      intro: keeps_unpublished keeps_release_failed keeps_fail_active)

lemma keeps_reserve: "reserve_writable_attach u a = (r, a') \<Longrightarrow> P a \<Longrightarrow> P a'"
  by (auto simp: reserve_writable_attach_def and_then_def refused_def timely_def
      split: prod.splits sum.splits if_splits dest!: checked_now_ms_cases intro!: touched)

lemma keeps_release_attach: "release_writable_attach u c a = (r, a') \<Longrightarrow> P a \<Longrightarrow> P a'"
  by (auto simp: release_writable_attach_def and_then_def refused_def timely_def
      split: prod.splits sum.splits option.splits if_splits dest!: checked_now_ms_cases intro!: touched touch)

lemma keeps_reconciled: "P a \<Longrightarrow> P (finish_attach_reconciliation Z u res a)"
proof -
  assume a: "P a"
  have moved: "P (try_transition Z STainted m None b)" if "P b" for m b using that by (rule keeps_try_transition)
  show ?thesis
    using a by (auto simp: finish_attach_reconciliation_def Let_def timely_def
        split: prod.splits sum.splits attach_reconciliation.splits
        dest!: checked_now_ms_cases keeps_set_needs_input
        intro!: moved keeps_resolve touched)
qed

lemma keeps_cancel: "P a \<Longrightarrow> P (cancel Z turn w a)"
  by (auto simp: cancel_def and_then_def Let_def split: prod.splits sum.splits option.splits if_splits
      dest!: keeps_ensure keeps_transition)

lemma keeps_replay_turn: "replay_turn Z turn rec a = (r, a') \<Longrightarrow> P a \<Longrightarrow> P a'"
  by (auto simp: replay_turn_def and_then_def Let_def split: prod.splits sum.splits option.splits
      dest!: keeps_ensure keeps_emit)

lemma keeps_start_turn: "start_turn Z t prompt s a = (r, a') \<Longrightarrow> P a \<Longrightarrow> P a'"
  by (auto simp: start_turn_def and_then_def refused_def Let_def split: prod.splits sum.splits option.splits if_splits
      dest!: keeps_transition)

lemma keeps_admit: "admit_turn Z t prompt a = (r, a') \<Longrightarrow> P a \<Longrightarrow> P a'"
  by (auto simp: admit_turn_def and_then_def refused_def split: prod.splits sum.splits option.splits if_splits
      dest!: keeps_now keeps_ensure keeps_start_turn)

lemma keeps_submit: "submit Z nfc t a = (r, a') \<Longrightarrow> P a \<Longrightarrow> P a'"
  by (auto simp: submit_def refused_def split: sum.splits option.splits if_splits
      dest: keeps_admit keeps_replay_turn)

lemma keeps_abandon [simp]: "P (abandon_active a) = P a"
  by (auto simp: abandon_active_def split: option.splits)

lemma keeps_close: "close Z closed a = (r, a') \<Longrightarrow> P a \<Longrightarrow> P a'"
  by (auto simp: close_def and_then_def refused_def Let_def split: prod.splits sum.splits if_splits
      dest!: keeps_transition intro: keeps_try_transition)

lemma keeps_expire: "expire_idle Z now closed a = (r, a') \<Longrightarrow> P a \<Longrightarrow> P a'"
  by (auto simp: expire_idle_def and_then_def refused_def split: prod.splits sum.splits if_splits
      dest!: keeps_close)

lemma keeps_select: "select_minified_cell a = (r, a') \<Longrightarrow> P a \<Longrightarrow> P a'"
  using touch [of "a\<lparr>a_reads := Suc (a_reads a), a_cell := Minified\<rparr>"]
  by (auto simp: select_minified_cell_def and_then_def refused_def timely_def
      split: prod.splits sum.splits if_splits dest!: checked_now_ms_cases)

lemma keeps_rebind_poison: "poison_after_failed_rebind Z e a = (r, a') \<Longrightarrow> P a \<Longrightarrow> P a'"
  by (auto simp: poison_after_failed_rebind_def split: prod.splits sum.splits dest!: keeps_transition)

lemma keeps_clear: "clear_and_rebind Z rebound armed expected a = (r, a') \<Longrightarrow> P a \<Longrightarrow> P a'"
  by (auto simp: clear_and_rebind_def and_then_def refused_def Let_def timely_def
      split: prod.splits sum.splits if_splits dest!: keeps_rebind_poison checked_now_ms_cases intro!: touch)

lemma keeps_update: "P a \<Longrightarrow> P (apply_update Z u a)"
  by (cases u)
    (auto split: prod.splits sum.splits option.splits bool.splits
      dest!: keeps_emit keeps_set_needs_input keeps_expired
      intro: keeps_try_transition keeps_fail_active keeps_resolve keeps_timeout keeps_complete keeps_finish_cancel)

lemma keeps_turn_update: "P a \<Longrightarrow> P (handle_turn_update Z t u a)"
  by (auto simp: handle_turn_update_def split: prod.splits sum.splits dest!: keeps_ensure
      intro: keeps_fail_active keeps_update)

lemma keeps_worker: "P a \<Longrightarrow> P (handle_worker Z u a)"
  by (auto simp: handle_worker_def split: worker_update.splits option.splits
      intro: keeps_turn_update keeps_reconciled)

lemma keeps_poll: "P a \<Longrightarrow> P (poll_startup_screen Z s a)"
  by (auto simp: poll_startup_screen_def split: sum.splits screen.splits prod.splits
      dest!: keeps_set_needs_input intro: keeps_resolve keeps_try_transition)

lemma keeps_message: "handle_message Z nfc m a = (r, a') \<Longrightarrow> P a \<Longrightarrow> P a'"
  by (cases m)
    (auto simp: map_prod_def split: prod.splits if_splits option.splits
      dest: keeps_submit keeps_close keeps_reserve keeps_release_attach keeps_expire keeps_select keeps_clear
      intro: keeps_cancel keeps_worker keeps_poll)

theorem keeps_step: "P a \<Longrightarrow> P (actor_step Z nfc m a)"
proof -
  assume "P a"
  then have "P (snd (handle_message Z nfc m a))" by (metis keeps_message prod.collapse)
  then show ?thesis using \<open>P a\<close> by (auto simp: actor_step_def Let_def split: option.splits)
qed

end

section \<open>The shape of the log\<close>

text \<open>
  Events are numbered from one without a gap; the replay ring is a suffix of them, with exact byte
  counts, within both of its capacities; every event fits a frame; the published cursor is the last
  number; and the session's time leaves room for its idle deadline.
\<close>

definition log_ok :: "sizes \<Rightarrow> actor \<Rightarrow> bool" where
  "log_ok Z a \<longleftrightarrow>
     1 \<le> a_next_sequence a \<and> a_next_sequence a \<le> event_sequence_ceiling a + 1
     \<and> a_sequence a = a_next_sequence a - 1
     \<and> map ev_sequence (a_emitted a) = [1..<a_next_sequence a]
     \<and> (\<forall>ev \<in> set (a_emitted a). single_event_response_bytes Z ev \<le> frame_limit a \<and> z_event Z ev < usize_max)
     \<and> suffix (map rp_event (a_replay a)) (a_emitted a)
     \<and> (\<forall>r \<in> set (a_replay a). rp_encoded_bytes r = z_event Z (rp_event r))
     \<and> a_replay_bytes a = sum_list (map rp_encoded_bytes (a_replay a))
     \<and> length (a_replay a) \<le> ac_replay_capacity (a_config a)
     \<and> a_replay_bytes a \<le> ac_replay_byte_capacity (a_config a)
     \<and> timely a (a_updated_at_ms a)"

lemma trim_replay_spec:
  assumes "trim_replay c rs n = (rs', n')" "n = sum_list (map rp_encoded_bytes rs)"
  shows "suffix rs' rs \<and> n' = sum_list (map rp_encoded_bytes rs') \<and> length rs' \<le> ac_replay_capacity c
    \<and> n' \<le> ac_replay_byte_capacity c"
  using assms
proof (induction c rs n rule: trim_replay.induct)
  case (2 c r rs n)
  show ?case
  proof (cases "ac_replay_capacity c < length (r # rs) \<or> ac_replay_byte_capacity c < n")
    case True
    then have "suffix rs' rs \<and> n' = sum_list (map rp_encoded_bytes rs') \<and> length rs' \<le> ac_replay_capacity c
        \<and> n' \<le> ac_replay_byte_capacity c"
      using 2 by simp
    then show ?thesis by (simp add: suffix_ConsI)
  next
    case False
    then show ?thesis using 2(2,3) by auto
  qed
qed simp

lemma publish_log_ok:
  assumes a: "log_ok Z a" and ev: "publishable Z a ev"
  shows "log_ok Z (publish_event ev (z_event Z ev) a)"
proof -
  let ?new = "\<lparr>rp_event = ev, rp_encoded_bytes = z_event Z ev\<rparr>"
  obtain rs n where t: "trim_replay (a_config a) (a_replay a @ [?new]) (a_replay_bytes a + z_event Z ev) = (rs, n)"
    by (cases "trim_replay (a_config a) (a_replay a @ [?new]) (a_replay_bytes a + z_event Z ev)")
  have kept: "suffix rs (a_replay a @ [?new])" "n = sum_list (map rp_encoded_bytes rs)"
    "length rs \<le> ac_replay_capacity (a_config a)" "n \<le> ac_replay_byte_capacity (a_config a)"
    using trim_replay_spec [OF t] a by (simp_all add: log_ok_def)
  have exact: "\<forall>r \<in> set rs. rp_encoded_bytes r = z_event Z (rp_event r)"
    using a set_mono_suffix [OF kept(1)] by (auto simp: log_ok_def)
  have "suffix (map rp_event rs) (map rp_event (a_replay a) @ [ev])"
    using map_mono_suffix [OF kept(1), of rp_event] by simp
  then have ring: "suffix (map rp_event rs) (a_emitted a @ [ev])"
    using a suffix_order.trans [of "map rp_event rs" "map rp_event (a_replay a) @ [ev]" "a_emitted a @ [ev]"]
    by (auto simp: log_ok_def suffix_def)
  have num: "map ev_sequence (a_emitted a @ [ev]) = [1..<Suc (a_next_sequence a)]"
    using a ev by (auto simp: log_ok_def publishable_def)
  let ?b = "publish_event ev (z_event Z ev) a"
  have b: "?b = a\<lparr>a_updated_at_ms := ev_timestamp_ms ev, a_replay := rs, a_replay_bytes := n,
      a_next_sequence := a_next_sequence a + 1, a_sequence := a_next_sequence a, a_emitted := a_emitted a @ [ev]\<rparr>"
    using ev by (simp add: publish_event_def t publishable_def)
  have fits: "\<forall>e \<in> set (a_emitted a @ [ev]). single_event_response_bytes Z e \<le> frame_limit a \<and> z_event Z e < usize_max"
    using a ev by (simp add: log_ok_def publishable_def)
  have "frame_limit ?b = frame_limit a" "event_sequence_ceiling ?b = event_sequence_ceiling a"
    by (simp_all add: b frame_limit_def event_sequence_ceiling_def)
  moreover have "a_next_sequence a \<le> event_sequence_ceiling a" "timely ?b (ev_timestamp_ms ev)"
    using ev by (simp_all add: publishable_def timely_def b)
  ultimately show ?thesis
    using fits ring num kept exact unfolding log_ok_def by (simp add: b)
qed

lemma log_ok_view: "log_view a = log_view a' \<Longrightarrow> log_ok Z a \<Longrightarrow> log_ok Z a'"
  by (simp add: log_view_def log_ok_def event_sequence_ceiling_def frame_limit_def timely_def)

interpretation shape: log_property "log_ok Z" Z for Z
proof (unfold_locales, goal_cases)
  case (1 a a')
  then show ?case by (rule log_ok_view)
next
  case (2 a t)
  then show ?case by (simp add: log_ok_def event_sequence_ceiling_def frame_limit_def timely_def)
next
  case (3 a ev)
  then show ?case by (rule publish_log_ok)
qed

interpretation append_only: log_property "\<lambda>a. prefix es (a_emitted a)" Z for es Z
  by unfold_locales
    (auto simp: log_view_def publish_event_def prefix_def split: prod.splits)

section \<open>A session that has started\<close>

definition actor_start :: "sizes \<Rightarrow> actor \<Rightarrow> bool" where
  "actor_start Z a \<longleftrightarrow> (\<exists>i cfg clk instants h. spawn_actor Z i cfg clk instants = Inr (a, h))"

lemma fresh_log_ok:
  assumes "checked_idle_deadline now (a_idle_ttl_ms (fresh_actor i cfg clk instants now)) = Inr d"
  shows "log_ok Z (fresh_actor i cfg clk instants now)"
  using assms by (auto simp: log_ok_def fresh_actor_def timely_def checked_idle_deadline_def split: if_splits)

lemma and_then_Inr: "and_then f g s = (Inr y, s') \<longleftrightarrow> (\<exists>x s1. f s = (Inr x, s1) \<and> g x s1 = (Inr y, s'))"
  by (auto simp: and_then_def split: prod.splits sum.splits)

lemma snapshot_taken: "log_ok Z a \<Longrightarrow> \<exists>s. snapshot a = Some s"
  by (simp add: snapshot_def log_ok_def timely_def MAX_SAFE_JSON_INTEGER_def u64_max_def)

lemma spawn_cases:
  assumes "spawn_actor Z i cfg clk instants = Inr (a, h)"
  obtains now d mid where "checked_idle_deadline now (a_idle_ttl_ms (fresh_actor i cfg clk instants now)) = Inr d"
    "transition Z SBooting (Some ''actor_registered'') None (fresh_actor i cfg clk instants now) = (Inr (), mid)"
    "in_initial_needs_input i = None \<and> transition Z SReady (Some ''backend_ready'') None mid = (Inr (), a)
     \<or> (\<exists>ni. in_initial_needs_input i = Some ni \<and> set_needs_input Z ni SReady None mid = (Inr (), a))"
proof -
  let ?next = "\<lambda>_. case in_initial_needs_input i of
            Some ni \<Rightarrow> set_needs_input Z ni SReady None
          | None \<Rightarrow> transition Z SReady (Some ''backend_ready'') None"
  obtain now d where now: "checked_idle_deadline now (a_idle_ttl_ms (fresh_actor i cfg clk instants now)) = Inr d"
    and spawn: "(case and_then (transition Z SBooting (Some ''actor_registered'') None) ?next (fresh_actor i cfg clk instants now) of
        (Inl e, _) \<Rightarrow> Inl e
      | (Inr _, b) \<Rightarrow> Inr (if a_next_sequence b < 1 then panic b else b, session_handle_of b)) = Inr (a, h)"
    using assms by (auto simp: spawn_actor_def bind_r_Inr Let_def)
  obtain x b where x: "and_then (transition Z SBooting (Some ''actor_registered'') None) ?next
        (fresh_actor i cfg clk instants now) = (x, b)"
    by fastforce
  then have run: "and_then (transition Z SBooting (Some ''actor_registered'') None) ?next
        (fresh_actor i cfg clk instants now) = (Inr (), b)"
    and a: "a = (if a_next_sequence b < 1 then panic b else b)"
    using spawn by (cases x; simp)+
  obtain mid where mid: "transition Z SBooting (Some ''actor_registered'') None (fresh_actor i cfg clk instants now) = (Inr (), mid)"
    and ready: "?next () mid = (Inr (), b)"
    using run by (auto simp: and_then_Inr)
  have "log_ok Z mid" by (rule shape.keeps_transition [OF mid fresh_log_ok [OF now]])
  then have "log_ok Z b"
    using ready by (auto split: option.splits dest: shape.keeps_transition shape.keeps_set_needs_input)
  then have "a = b" using a by (simp add: log_ok_def)
  then show ?thesis using that [OF now mid] ready by (auto split: option.splits)
qed

lemma start_log_ok: "actor_start Z a \<Longrightarrow> log_ok Z a"
  unfolding actor_start_def
  by (auto elim!: spawn_cases dest: shape.keeps_transition shape.keeps_set_needs_input fresh_log_ok)

lemma run_log_ok: "log_ok Z a \<Longrightarrow> log_ok Z (actor_run Z nfc ms a)"
  by (induction ms arbitrary: a) (simp_all add: actor_run_def shape.keeps_step)

lemma started_log: "actor_start Z a0 \<Longrightarrow> a = actor_run Z nfc ms a0 \<Longrightarrow> log_ok Z a"
  by (simp add: run_log_ok start_log_ok)

end
