(* ===== verification/Subscription.thy ===== *)
theory Subscription
  imports ActorLog
begin

text \<open>
  What a subscriber of a session sees. A poll returns a page of the retained events, or says that events
  were lost; \<open>page_spec\<close> is what a page has to be. JSON is written by \<open>serde_json\<close>, of which the actor's
  byte accounting relies on two facts: how the length of an array is made up of its elements, and that a
  longer number is no shorter.
\<close>

section \<open>The JSON the accounting relies on\<close>

definition json_lengths :: "sizes \<Rightarrow> bool" where
  "json_lengths Z \<longleftrightarrow>
     (\<forall>es n. es \<noteq> [] \<and> n \<le> MAX_SAFE_JSON_INTEGER \<and> (\<forall>e \<in> set es. z_event Z e < usize_max) \<longrightarrow>
        z_batch Z \<lparr>eb_events = es, eb_next_sequence = n, eb_replay_gap = None\<rparr> =
          empty_event_batch_response_bytes Z n + EVENT_ARRAY_FIELD_OVERHEAD_BYTES
          + sum_list (map (z_event Z) es) + (length es - 1))
     \<and> (\<forall>m n. m \<le> n \<and> n \<le> MAX_SAFE_JSON_INTEGER \<longrightarrow>
          empty_event_batch_response_bytes Z m \<le> empty_event_batch_response_bytes Z n)"

lemma batch_length:
  assumes "json_lengths Z" "es \<noteq> []" "n \<le> MAX_SAFE_JSON_INTEGER" "\<forall>e \<in> set es. z_event Z e < usize_max"
  shows "z_batch Z \<lparr>eb_events = es, eb_next_sequence = n, eb_replay_gap = None\<rparr> =
    empty_event_batch_response_bytes Z n + EVENT_ARRAY_FIELD_OVERHEAD_BYTES
    + sum_list (map (z_event Z) es) + (length es - 1)"
  using assms unfolding json_lengths_def by blast

lemma empty_mono:
  assumes "json_lengths Z" "m \<le> n" "n \<le> MAX_SAFE_JSON_INTEGER"
  shows "empty_event_batch_response_bytes Z m \<le> empty_event_batch_response_bytes Z n"
  using assms unfolding json_lengths_def by blast

section \<open>The retained events\<close>

lemma log_bounds:
  assumes "log_ok Z a"
  shows "1 \<le> a_next_sequence a" "a_next_sequence a \<le> MAX_SAFE_JSON_INTEGER"
    "length (a_emitted a) = a_next_sequence a - 1"
proof -
  show "1 \<le> a_next_sequence a" "a_next_sequence a \<le> MAX_SAFE_JSON_INTEGER"
    using assms
    by (auto simp: log_ok_def event_sequence_ceiling_def MAX_EVENT_SEQUENCE_def MAX_SAFE_JSON_INTEGER_def)
  show "length (a_emitted a) = a_next_sequence a - 1"
    using assms by (metis length_map length_upt log_ok_def)
qed

lemma emitted_sequence:
  assumes "log_ok Z a" "i < length (a_emitted a)"
  shows "ev_sequence (a_emitted a ! i) = i + 1"
proof -
  have "map ev_sequence (a_emitted a) = [1..<a_next_sequence a]" using assms(1) by (simp add: log_ok_def)
  then have "map ev_sequence (a_emitted a) ! i = [1..<a_next_sequence a] ! i" by simp
  moreover have "length (a_emitted a) = a_next_sequence a - 1"
    using assms(1) by (metis length_map length_upt log_ok_def)
  ultimately show ?thesis using assms(2) by simp
qed

lemma retained:
  assumes "log_ok Z a"
  obtains k where "map rp_event (a_replay a) = drop k (a_emitted a)" "k \<le> length (a_emitted a)"
    "oldest_available a = k + 1" "length (a_emitted a) = a_next_sequence a - 1"
    "length (a_replay a) = length (a_emitted a) - k"
proof -
  have len: "length (a_emitted a) = a_next_sequence a - 1"
    using assms by (metis length_map length_upt log_ok_def)
  obtain pre where pre: "a_emitted a = pre @ map rp_event (a_replay a)"
    using assms by (auto simp: log_ok_def suffix_def)
  have "oldest_available a = length pre + 1"
  proof (cases "a_replay a")
    case Nil
    then show ?thesis using pre len assms by (simp add: oldest_available_def log_ok_def)
  next
    case (Cons r rs)
    have "ev_sequence (a_emitted a ! length pre) = length pre + 1"
      by (rule emitted_sequence [OF assms]) (simp add: pre Cons)
    moreover have "a_emitted a ! length pre = rp_event r"
      by (simp add: pre Cons)
    ultimately show ?thesis by (simp add: oldest_available_def Cons)
  qed
  moreover have "map rp_event (a_replay a) = drop (length pre) (a_emitted a)"
    "length (a_replay a) = length (a_emitted a) - length pre" "length pre \<le> length (a_emitted a)"
    by (simp_all add: pre)
  ultimately show ?thesis using that len by blast
qed

section \<open>Pages\<close>

text \<open>
  The page that fits is a prefix of the records; the bytes counted are those of the batch; and the first
  record always fits, because each was checked against a frame when it was emitted.
\<close>

definition exact_record :: "sizes \<Rightarrow> nat \<Rightarrow> replay_record \<Rightarrow> bool" where
  "exact_record Z limit r \<longleftrightarrow> rp_encoded_bytes r = z_event Z (rp_event r) \<and> z_event Z (rp_event r) < usize_max
     \<and> single_event_response_bytes Z (rp_event r) \<le> limit \<and> ev_sequence (rp_event r) < MAX_SAFE_JSON_INTEGER"

lemma single_event:
  assumes "json_lengths Z" "exact_record Z limit r"
  shows "empty_event_batch_response_bytes Z (ev_sequence (rp_event r) + 1) + EVENT_ARRAY_FIELD_OVERHEAD_BYTES
    + z_event Z (rp_event r) \<le> limit"
proof -
  have "single_event_response_bytes Z (rp_event r) =
      empty_event_batch_response_bytes Z MAX_SAFE_JSON_INTEGER + EVENT_ARRAY_FIELD_OVERHEAD_BYTES + z_event Z (rp_event r)"
    using batch_length [OF assms(1), of "[rp_event r]" MAX_SAFE_JSON_INTEGER] assms(2)
    by (simp add: single_event_response_bytes_def exact_record_def)
  moreover have "empty_event_batch_response_bytes Z (ev_sequence (rp_event r) + 1)
      \<le> empty_event_batch_response_bytes Z MAX_SAFE_JSON_INTEGER"
    by (rule empty_mono [OF assms(1)]) (use assms(2) in \<open>simp_all add: exact_record_def\<close>)
  ultimately show ?thesis using assms(2) by (simp add: exact_record_def)
qed

definition batch_bytes :: "sizes \<Rightarrow> event_envelope list \<Rightarrow> nat" where
  "batch_bytes Z es = empty_event_batch_response_bytes Z (ev_sequence (last es) + 1)
     + EVENT_ARRAY_FIELD_OVERHEAD_BYTES + sum_list (map (z_event Z) es) + (length es - 1)"

lemma fitting_page:
  assumes "json_lengths Z" "\<forall>r \<in> set rs. exact_record Z limit r" "limit \<le> MAX_NATIVE_FRAME_BYTES"
    "any \<longleftrightarrow> taken \<noteq> []"
    "bytes = EVENT_ARRAY_FIELD_OVERHEAD_BYTES + sum_list (map (z_event Z) taken) + (length taken - 1)"
    "taken \<noteq> [] \<longrightarrow> bytes \<le> limit"
  shows "\<exists>m \<le> length rs. fitting_event_page Z limit any bytes rs = Inr (map rp_event (take m rs))
    \<and> (rs \<noteq> [] \<and> taken = [] \<longrightarrow> 0 < m)
    \<and> (0 < m \<longrightarrow> batch_bytes Z (taken @ map rp_event (take m rs)) \<le> limit)"
  using assms
proof (induction rs arbitrary: any bytes taken)
  case (Cons r rs)
  let ?array = "bytes + of_bool any + rp_encoded_bytes r" and ?next = "ev_sequence (rp_event r) + 1"
  let ?total = "empty_event_batch_response_bytes Z ?next + ?array"
  have r: "exact_record Z limit r" using Cons.prems(2) by simp
  have one: "empty_event_batch_response_bytes Z ?next + EVENT_ARRAY_FIELD_OVERHEAD_BYTES + z_event Z (rp_event r) \<le> limit"
    by (rule single_event [OF Cons.prems(1) r])
  have array: "?array = EVENT_ARRAY_FIELD_OVERHEAD_BYTES + sum_list (map (z_event Z) (taken @ [rp_event r]))
      + (length (taken @ [rp_event r]) - 1)"
    using r Cons.prems(4,5) by (cases taken) (simp_all add: exact_record_def)
  have bytes: "bytes \<le> limit" using Cons.prems(5,6) one by (cases "taken = []") auto
  have small: "\<not> usize_max < ?array" "\<not> u64_max < ?next" "\<not> usize_max < ?total"
    using r bytes one Cons.prems(3)
    by (auto simp: exact_record_def usize_max_def u64_max_def MAX_NATIVE_FRAME_BYTES_def MAX_SAFE_JSON_INTEGER_def of_bool_def)
  show ?case
  proof (cases "limit < ?total")
    case True
    then have "taken \<noteq> []" using one Cons.prems(4,5) r by (auto simp: exact_record_def)
    then show ?thesis using True small by (intro exI [of _ 0]) (simp add: Let_def)
  next
    case False
    obtain m where m: "m \<le> length rs"
      "fitting_event_page Z limit True ?array rs = Inr (map rp_event (take m rs))"
      "0 < m \<longrightarrow> batch_bytes Z ((taken @ [rp_event r]) @ map rp_event (take m rs)) \<le> limit"
      using Cons.IH [of True "taken @ [rp_event r]" ?array] Cons.prems(1-3) array False by auto
    have "batch_bytes Z (taken @ rp_event r # map rp_event (take m rs)) \<le> limit"
      using m(3) array False by (cases "m = 0") (simp_all add: batch_bytes_def)
    then show ?thesis using m small False by (intro exI [of _ "Suc m"]) (simp add: Let_def)
  qed
qed simp

lemma page_range:
  assumes "k \<le> after" "after - k \<le> len" "after < MAX_SAFE_JSON_INTEGER"
  obtains stop where "replay_page_range (k + 1) len after limit = (after - k, stop)" "stop \<le> len"
    "after - k < len \<Longrightarrow> after - k < stop"
proof
  let ?stop = "min len (min (after - k + max 1 limit) usize_max)"
  show "replay_page_range (k + 1) len after limit = (after - k, ?stop)"
    using assms
    by (simp add: replay_page_range_def Let_def u64_max_def MAX_SAFE_JSON_INTEGER_def min_absorb2)
  show "?stop \<le> len" by simp
  show "after - k < ?stop" if "after - k < len"
    using that assms(3) by (auto simp: usize_max_def u64_max_def MAX_SAFE_JSON_INTEGER_def)
qed

lemma retained_exact:
  assumes "log_ok Z a" "r \<in> set (a_replay a)"
  shows "exact_record Z (frame_limit a) r"
proof -
  have r: "rp_event r \<in> set (a_emitted a)"
    using assms set_mono_suffix [of "map rp_event (a_replay a)" "a_emitted a"] by (auto simp: log_ok_def)
  then obtain i where "i < length (a_emitted a)" "rp_event r = a_emitted a ! i" by (metis in_set_conv_nth)
  moreover have "length (a_emitted a) < MAX_SAFE_JSON_INTEGER"
    using log_bounds [OF assms(1)] by (simp add: MAX_SAFE_JSON_INTEGER_def)
  ultimately have "ev_sequence (rp_event r) < MAX_SAFE_JSON_INTEGER"
    using emitted_sequence [OF assms(1)] by simp
  then show ?thesis using assms r by (simp add: exact_record_def log_ok_def)
qed

text \<open>A batch of consecutive events fits, the empty one because every emitted event did.\<close>

lemma slice_fits:
  assumes ok: "json_lengths Z" "log_ok Z a" "a_emitted a \<noteq> []" "after + m < a_next_sequence a"
    and es: "es = take m (drop after (a_emitted a))" "0 < m \<longrightarrow> batch_bytes Z es \<le> frame_limit a"
  shows "z_batch Z \<lparr>eb_events = es, eb_next_sequence = after + m + 1, eb_replay_gap = None\<rparr> \<le> frame_limit a"
proof -
  note nx = log_bounds(2) [OF ok(2)] and len = log_bounds(3) [OF ok(2)]
  show ?thesis
  proof (cases "m = 0")
    case True
    obtain ev where ev: "ev \<in> set (a_emitted a)" using ok(3) by (cases "a_emitted a") auto
    have "empty_event_batch_response_bytes Z (after + 1) \<le> empty_event_batch_response_bytes Z MAX_SAFE_JSON_INTEGER"
      using ok(4) nx by (intro empty_mono [OF ok(1)]) simp_all
    moreover have "empty_event_batch_response_bytes Z MAX_SAFE_JSON_INTEGER \<le> single_event_response_bytes Z ev"
      using batch_length [OF ok(1), of "[ev]" MAX_SAFE_JSON_INTEGER] ev ok(2)
      by (simp add: single_event_response_bytes_def log_ok_def)
    moreover have "single_event_response_bytes Z ev \<le> frame_limit a" using ok(2) ev by (simp add: log_ok_def)
    ultimately show ?thesis using True es(1) by (simp add: empty_event_batch_response_bytes_def)
  next
    case False
    have l: "length es = m" using ok(4) len es(1) by simp
    then have ne: "es \<noteq> []" using False by auto
    have "ev_sequence (last es) = after + m"
      using l False ok(4) len emitted_sequence [OF ok(2), of "after + m - 1"] ne
      by (simp add: es(1) last_conv_nth)
    moreover have "\<forall>e \<in> set es. z_event Z e < usize_max"
      using ok(2) unfolding es(1) by (meson in_set_dropD in_set_takeD log_ok_def)
    ultimately have "z_batch Z \<lparr>eb_events = es, eb_next_sequence = after + m + 1, eb_replay_gap = None\<rparr> = batch_bytes Z es"
      using batch_length [OF ok(1) ne, of "after + m + 1"] ok(4) nx by (simp add: batch_bytes_def)
    then show ?thesis using es(2) False by simp
  qed
qed

lemma cursor_advances:
  assumes "log_ok Z a" "after + m < a_next_sequence a" "es = take m (drop after (a_emitted a))"
  shows "next_cursor after es a = Inr (after + m + 1)"
proof -
  note nx = log_bounds(2) [OF assms(1)] and len = log_bounds(3) [OF assms(1)]
  show ?thesis
  proof (cases "m = 0")
    case True
    then show ?thesis using assms nx by (simp add: next_cursor_def u64_max_def MAX_SAFE_JSON_INTEGER_def)
  next
    case False
    have "length es = m" using assms(2,3) len by simp
    then have ne: "es \<noteq> []" "ev_sequence (last es) = after + m"
      using False assms(2) len emitted_sequence [OF assms(1), of "after + m - 1"]
      by (auto simp: assms(3) last_conv_nth)
    then show ?thesis using assms(2) nx by (simp add: next_cursor_def u64_max_def MAX_SAFE_JSON_INTEGER_def)
  qed
qed

lemma page_is_next_slice:
  assumes ok: "json_lengths Z" "log_ok Z a" "a_emitted a \<noteq> []"
    and cursor: "oldest_available a \<le> after + 1" "after < a_next_sequence a"
  obtains m where "event_batch Z after n a =
      Inr \<lparr>eb_events = take m (drop after (a_emitted a)), eb_next_sequence = after + m + 1, eb_replay_gap = None\<rparr>"
    "after + m \<le> length (a_emitted a)" "after < length (a_emitted a) \<longrightarrow> 0 < m"
proof -
  obtain k where k: "map rp_event (a_replay a) = drop k (a_emitted a)" "k \<le> length (a_emitted a)"
    "oldest_available a = k + 1" "length (a_emitted a) = a_next_sequence a - 1"
    "length (a_replay a) = length (a_emitted a) - k"
    by (rule retained [OF ok(2)])
  have bounds: "k \<le> after" "after - k \<le> length (a_replay a)" "after < MAX_SAFE_JSON_INTEGER"
    using cursor k log_bounds(1,2) [OF ok(2)] by auto
  let ?limit = "if n = 0 then ac_default_event_batch_size (a_config a) else n"
  obtain stop where stop: "replay_page_range (oldest_available a) (length (a_replay a)) after ?limit = (after - k, stop)"
    "stop \<le> length (a_replay a)" "after - k < length (a_replay a) \<Longrightarrow> after - k < stop"
    using page_range [OF bounds, of ?limit] k(3) by metis
  let ?rs = "take (stop - (after - k)) (drop (after - k) (a_replay a))"
  have events_of: "map rp_event ?rs = take (stop - (after - k)) (drop after (a_emitted a))"
    using k(1) bounds(1) by (simp add: take_map [symmetric] drop_map [symmetric])
  have "\<forall>r \<in> set ?rs. exact_record Z (frame_limit a) r"
    using retained_exact [OF ok(2)] by (meson in_set_dropD in_set_takeD)
  then obtain m where m: "m \<le> length ?rs"
    "fitting_event_page Z (frame_limit a) False EVENT_ARRAY_FIELD_OVERHEAD_BYTES ?rs = Inr (map rp_event (take m ?rs))"
    "?rs \<noteq> [] \<longrightarrow> 0 < m" "0 < m \<longrightarrow> batch_bytes Z (map rp_event (take m ?rs)) \<le> frame_limit a"
    using fitting_page [OF ok(1), of ?rs "frame_limit a" False "[]"] by (auto simp: frame_limit_def)
  define es where "es = take m (drop after (a_emitted a))"
  have es: "map rp_event (take m ?rs) = es"
  proof -
    have "map rp_event (take m ?rs) = take m (map rp_event ?rs)" by (rule take_map [symmetric])
    then show ?thesis using m(1) unfolding events_of es_def by (simp add: min_absorb1)
  qed
  have len: "after + m \<le> length (a_emitted a)" "m \<le> stop - (after - k)"
    using m(1) k bounds stop(2) by auto
  have some: "after - k < stop \<longrightarrow> 0 < m" using m(3) stop(2) by auto
  have more: "after < length (a_emitted a) \<longrightarrow> 0 < m"
    using some stop(3) k(5) bounds(1) diff_less_mono [of after "length (a_emitted a)" k] by auto
  have lt: "after + m < a_next_sequence a" using len k(4) cursor(2) by simp
  have "frame_limit a < usize_max"
    by (simp add: frame_limit_def MAX_NATIVE_FRAME_BYTES_def usize_max_def u64_max_def min.strict_coboundedI2)
  moreover have "z_batch Z \<lparr>eb_events = es, eb_next_sequence = after + m + 1, eb_replay_gap = None\<rparr> \<le> frame_limit a"
    by (rule slice_fits [OF ok lt es_def]) (use m(4) es in simp)
  moreover have "after - k < stop \<longrightarrow> es \<noteq> []"
    using some len k(4) by (auto simp: es_def)
  ultimately have "event_page Z after n a =
      Inr \<lparr>eb_events = es, eb_next_sequence = after + m + 1, eb_replay_gap = None\<rparr>"
    using m(2) es cursor_advances [OF ok(2) lt es_def] stop(1)
    by (simp add: event_page_def ensure_event_batch_fits_def Let_def)
  then have "event_batch Z after n a = Inr \<lparr>eb_events = es, eb_next_sequence = after + m + 1, eb_replay_gap = None\<rparr>"
    using cursor by (auto simp: event_batch_def behind_the_ring_def)
  then show ?thesis using that len(1) more unfolding es_def by blast
qed

section \<open>A subscriber\<close>

text \<open>
  A subscriber follows the log while the session goes on: between its polls the actor takes any messages.
  It keeps a cursor, moves it by what a page says, and keeps it when a poll fails or reports a gap. A
  closed session answers no poll.
\<close>

datatype client_move = Deliver actor_message | Poll u32

definition poll_step :: "sizes \<Rightarrow> u32 \<Rightarrow> actor \<Rightarrow> u64 \<times> event_envelope list \<Rightarrow> u64 \<times> event_envelope list" where
  "poll_step Z n a c =
     (case c of (after, got) \<Rightarrow>
        if a_state a = SClosed then (after, got)
        else case event_batch Z after n a of
          Inl e \<Rightarrow> (after, got)
        | Inr b \<Rightarrow> if eb_replay_gap b \<noteq> None then (after, got)
                   else (eb_next_sequence b - 1, got @ eb_events b))"

fun client_step ::
  "sizes \<Rightarrow> (utext \<Rightarrow> utext) \<Rightarrow> client_move \<Rightarrow> actor \<times> u64 \<times> event_envelope list \<Rightarrow>
     actor \<times> u64 \<times> event_envelope list" where
  "client_step Z nfc (Deliver m) (a, c) = (actor_step Z nfc m a, c)"
| "client_step Z nfc (Poll n) (a, c) = (a, poll_step Z n a c)"

definition following :: "sizes \<Rightarrow> u64 \<Rightarrow> actor \<times> u64 \<times> event_envelope list \<Rightarrow> bool" where
  "following Z c0 s = (case s of (a, after, got) \<Rightarrow>
     log_ok Z a \<and> a_emitted a \<noteq> [] \<and> c0 \<le> after \<and> got = take (after - c0) (drop c0 (a_emitted a))
     \<and> (after = c0 \<or> after \<le> length (a_emitted a)))"

lemma poll_answers:
  assumes "json_lengths Z" "log_ok Z a" "a_emitted a \<noteq> []" "event_batch Z after n a = Inr b" "eb_replay_gap b = None"
  shows "\<exists>m. eb_events b = take m (drop after (a_emitted a)) \<and> eb_next_sequence b = after + m + 1
    \<and> after + m \<le> length (a_emitted a)"
proof -
  have lt: "after < a_next_sequence a" and old: "oldest_available a \<le> after + 1"
    using assms(4,5) by (auto simp: event_batch_def behind_the_ring_def ensure_event_batch_fits_def Let_def split: if_splits option.splits)
  show ?thesis
    by (rule page_is_next_slice [OF assms(1-3) old lt, of n]) (use assms(4) in auto)
qed

lemma following_step:
  assumes "json_lengths Z" "following Z c0 s"
  shows "following Z c0 (client_step Z nfc mv s)"
proof (cases s)
  case (fields a after got)
  have a: "log_ok Z a" "a_emitted a \<noteq> []" "c0 \<le> after" "got = take (after - c0) (drop c0 (a_emitted a))"
    "after = c0 \<or> after \<le> length (a_emitted a)"
    using assms(2) by (simp_all add: following_def fields)
  show ?thesis
  proof (cases mv)
    case (Deliver m)
    obtain es where es: "a_emitted (actor_step Z nfc m a) = a_emitted a @ es"
      using append_only.keeps_step [of "a_emitted a" a Z nfc m] by (auto simp: prefix_def)
    have "take (after - c0) (drop c0 (a_emitted a @ es)) = take (after - c0) (drop c0 (a_emitted a))"
      using a(5) by auto
    then show ?thesis
      using a es shape.keeps_step [OF a(1)] by (auto simp: following_def fields Deliver)
  next
    case (Poll n)
    show ?thesis
    proof (cases "\<exists>b. event_batch Z after n a = Inr b \<and> eb_replay_gap b = None \<and> a_state a \<noteq> SClosed")
      case True
      then obtain b where b: "event_batch Z after n a = Inr b" "eb_replay_gap b = None" "a_state a \<noteq> SClosed" by blast
      obtain m where m: "eb_events b = take m (drop after (a_emitted a))" "eb_next_sequence b = after + m + 1"
        "after + m \<le> length (a_emitted a)"
        using poll_answers [OF assms(1) a(1,2) b(1,2)] by blast
      have "take (after + m - c0) (drop c0 (a_emitted a)) =
          take (after - c0) (drop c0 (a_emitted a)) @ take m (drop after (a_emitted a))"
        using a(3) take_add [of "after - c0" m "drop c0 (a_emitted a)"] by (simp add: add.commute)
      then show ?thesis using a b m by (simp add: following_def fields Poll poll_step_def)
    next
      case False
      then have "poll_step Z n a (after, got) = (after, got)"
        by (auto simp: poll_step_def split: sum.splits)
      then show ?thesis using assms(2) by (simp add: fields Poll)
    qed
  qed
qed

lemma following_run:
  assumes "json_lengths Z" "following Z c0 s"
  shows "following Z c0 (fold (client_step Z nfc) mvs s)"
  using assms(2) by (induction mvs arbitrary: s) (simp_all add: following_step [OF assms(1)])

lemma start_emits:
  assumes "actor_start Z a"
  shows "a_emitted a \<noteq> []"
proof -
  obtain i cfg clk instants h where "spawn_actor Z i cfg clk instants = Inr (a, h)"
    using assms by (auto simp: actor_start_def)
  then show ?thesis
  proof (rule spawn_cases)
    fix now d mid
    let ?fresh = "fresh_actor i cfg clk instants now"
    assume boot: "transition Z SBooting (Some ''actor_registered'') None ?fresh = (Inr (), mid)"
      and rest: "in_initial_needs_input i = None \<and> transition Z SReady (Some ''backend_ready'') None mid = (Inr (), a)
        \<or> (\<exists>ni. in_initial_needs_input i = Some ni \<and> set_needs_input Z ni SReady None mid = (Inr (), a))"
    have "\<exists>ev. a_emitted mid = [ev]"
      using boot
      by (auto simp: transition_def fresh_actor_def is_valid_session_transition_def and_then_Inr publish_event_def
          split: prod.splits elim!: emit_cases)
    then have "prefix (a_emitted mid) (a_emitted a) \<and> a_emitted mid \<noteq> []"
      using rest append_only.keeps_transition [of Z _ _ _ mid _ a "a_emitted mid"]
        append_only.keeps_set_needs_input [of Z _ _ _ mid _ a "a_emitted mid"] by auto
    then show ?thesis by auto
  qed
qed

text \<open>C11: A subscriber receives the log of a session, each event once and in order, whatever happens between
  its polls. Events are numbered from one without gaps, what a subscriber has collected is exactly the
  stretch of the log from where it started up to its cursor, and a poll whose next event is still retained
  returns at least one event more.\<close>
theorem subscriber_receives_the_log:
  assumes "json_lengths Z" "actor_start Z a0" "fold (client_step Z nfc) moves (a0, c, []) = (a, after, got)"
  shows "map ev_sequence (a_emitted a) = [1..<a_next_sequence a] \<and> c \<le> after
    \<and> got = take (after - c) (drop c (a_emitted a))
    \<and> (oldest_available a \<le> after + 1 \<and> after + 1 < a_next_sequence a \<longrightarrow>
         (\<forall>n. \<exists>b. event_batch Z after n a = Inr b \<and> eb_replay_gap b = None \<and> eb_events b \<noteq> []))"
proof -
  have "following Z c (a0, c, [])"
    using start_log_ok [OF assms(2)] start_emits [OF assms(2)] by (simp add: following_def)
  from following_run [OF assms(1) this, of nfc moves] have f: "following Z c (a, after, got)"
    by (simp add: assms(3))
  then have a: "log_ok Z a" "a_emitted a \<noteq> []" by (simp_all add: following_def)
  have "\<exists>b. event_batch Z after n a = Inr b \<and> eb_replay_gap b = None \<and> eb_events b \<noteq> []"
    if "oldest_available a \<le> after + 1" "after + 1 < a_next_sequence a" for n
  proof (rule page_is_next_slice [OF assms(1) a that(1), of n])
    show "after < a_next_sequence a" using that(2) by simp
  qed (use that(2) log_bounds(3) [OF a(1)] in auto)
  then show ?thesis using f by (simp add: following_def log_ok_def)
qed

section \<open>A concrete session\<close>

definition sample_sizes :: sizes where
  "sample_sizes =
     \<lparr>z_event = (\<lambda>_. 1),
      z_batch = (\<lambda>b. if eb_events b = [] then 100
                    else 100 + EVENT_ARRAY_FIELD_OVERHEAD_BYTES + length (eb_events b) + (length (eb_events b) - 1)),
      z_result = (\<lambda>_. 200), z_result_response = (\<lambda>_. 250), z_error = (\<lambda>_. 80), z_error_response = (\<lambda>_. 120),
      z_record = 64\<rparr>"

lemma sample_lengths: "json_lengths sample_sizes"
  by (auto simp: json_lengths_def sample_sizes_def empty_event_batch_response_bytes_def sum_list_triv)

definition sample_report :: compatibility_report where
  "sample_report = \<lparr>cr_claude_version = ''2.1.0'', cr_os = ''linux'', cr_arch = ''x86_64'',
     cr_terminal_profile = Transparent, cr_input_transport = Sdk, cr_tested = True, cr_unpromoted = False,
     cr_transcript_drain_ms = 100\<rparr>"

definition sample_init :: actor_init where
  "sample_init = \<lparr>in_session_id = ''s'', in_generation_id = ''g'', in_cwd = ''/w'', in_compatibility = sample_report,
     in_dangerous_permission_bypass = False, in_resumable = True, in_cell = Full, in_agent = None,
     in_idle_ttl_ms = None, in_initial_needs_input = None\<rparr>"

definition sample_spawn :: "error_body + actor \<times> session_handle" where
  "sample_spawn = spawn_actor sample_sizes sample_init actor_config_default (\<lambda>n. 1000 + n) id"

definition sample_actor :: actor where
  "sample_actor = fst (projr sample_spawn)"

lemma sample_start: "actor_start sample_sizes sample_actor"
proof -
  have "\<not> isl sample_spawn" by code_simp
  then have "sample_spawn = Inr (sample_actor, snd (projr sample_spawn))"
    by (cases sample_spawn) (simp_all add: sample_actor_def)
  then show ?thesis unfolding actor_start_def sample_spawn_def by blast
qed

definition sample_request :: turn_request where
  "sample_request = \<lparr>tq_turn_id = ''t1'', tq_prompt = ascii ''hello'', tq_deadline_unix_ms = None,
     tq_lease = \<lparr>lp_on_disconnect = OnContinue, lp_heartbeat_timeout_ms = None\<rparr>\<rparr>"

definition sample_follow :: "actor \<times> u64 \<times> event_envelope list" where
  "sample_follow = fold (client_step sample_sizes id) [Poll 1, Deliver (Submit sample_request), Poll 0]
     (sample_actor, 0, [])"

theorem subscriber_receives_the_log_witness:
  "snd (snd sample_follow) = take 3 (a_emitted (fst sample_follow)) \<and> map ev_sequence (snd (snd sample_follow)) = [1, 2, 3]"
proof -
  have "fold (client_step sample_sizes id) [Poll 1, Deliver (Submit sample_request), Poll 0] (sample_actor, 0, [])
      = (fst sample_follow, fst (snd sample_follow), snd (snd sample_follow))"
    by (simp add: sample_follow_def)
  from subscriber_receives_the_log [OF sample_lengths sample_start this]
  have "snd (snd sample_follow) = take (fst (snd sample_follow)) (a_emitted (fst sample_follow))" by simp
  moreover have "fst (snd sample_follow) = 3" "map ev_sequence (snd (snd sample_follow)) = [1, 2, 3]" by code_simp+
  ultimately show ?thesis by simp
qed

end
