(* ===== verification/ActorTurns.thy ===== *)
theory ActorTurns
  imports ActorLog "HOL-Library.Multiset"
begin

text \<open>
  The turns of a session: their records, the byte budget they share, and who is answered. A handler
  either leaves the turns alone, or starts one, or settles the active one; \<open>settled\<close> is the contract of
  the paths that end a turn, and every one of them meets it.
\<close>

section \<open>The view\<close>

fun about_turns :: "effect \<Rightarrow> bool" where
  "about_turns (ReconcileAttach _) = False"
| "about_turns _ = True"

definition turn_effects :: "actor \<Rightarrow> effect list" where
  "turn_effects a = filter about_turns (a_effects a)"

definition turn_view where
  "turn_view a = (a_config a, a_turns a, a_turn_history_bytes a, a_active a, turn_effects a, a_panicked a)"

lemma turn_view_fields:
  assumes "turn_view a' = turn_view a"
  shows "a_config a' = a_config a" "a_turns a' = a_turns a" "a_turn_history_bytes a' = a_turn_history_bytes a"
    "a_active a' = a_active a" "turn_effects a' = turn_effects a" "a_panicked a' = a_panicked a"
  using assms by (simp_all add: turn_view_def)

lemma other_turn_view [simp]:
  "turn_view (a\<lparr>a_reads := n\<rparr>) = turn_view a" "turn_view (a\<lparr>a_state := s\<rparr>) = turn_view a"
  "turn_view (a\<lparr>a_needs_input := ni\<rparr>) = turn_view a" "turn_view (a\<lparr>a_needs_input_resume := rs\<rparr>) = turn_view a"
  "turn_view (a\<lparr>a_last_turn := lt\<rparr>) = turn_view a" "turn_view (a\<lparr>a_updated_at_ms := t\<rparr>) = turn_view a"
  "turn_view (a\<lparr>a_process_reaped := b\<rparr>) = turn_view a" "turn_view (a\<lparr>a_writable_attach := wa\<rparr>) = turn_view a"
  "turn_view (a\<lparr>a_writable_attach_release_pending := b\<rparr>) = turn_view a" "turn_view (a\<lparr>a_cell := c\<rparr>) = turn_view a"
  "turn_view (a\<lparr>a_transcript_session_id := sid\<rparr>) = turn_view a"
  "turn_view (publish_event ev n a) = turn_view a" "turn_view (set_off (ReconcileAttach u) a) = turn_view a"
  by (auto simp: turn_view_def turn_effects_def publish_event_def set_off_def split: prod.splits)

section \<open>Handlers that leave the turns alone\<close>

lemma quiet_now: "checked_now_ms resource a = (r, a') \<Longrightarrow> turn_view a' = turn_view a"
  by (auto dest: checked_now_ms_cases)

lemma quiet_ensure: "ensure_sequence_slots n a = (r, a') \<Longrightarrow> turn_view a' = turn_view a"
  by (auto dest: ensure_slots_cases)

lemma quiet_emit: "emit Z turn payload a = (r, a') \<Longrightarrow> turn_view a' = turn_view a"
  by (auto elim: emit_cases)

lemma quiet_transition: "transition Z s reason turn a = (r, a') \<Longrightarrow> turn_view a' = turn_view a"
  by (auto simp: transition_def and_then_def refused_def Let_def split: if_splits prod.splits sum.splits
      dest: quiet_emit)

lemma quiet_try: "turn_view (try_transition Z s reason turn a) = turn_view a"
  by (metis quiet_transition try_transition_def prod.collapse)

lemma quiet_needs_input: "set_needs_input Z ni s turn a = (r, a') \<Longrightarrow> turn_view a' = turn_view a"
  by (auto simp: set_needs_input_def and_then_def Let_def split: if_splits prod.splits sum.splits
      dest!: quiet_emit quiet_ensure quiet_transition)

lemma quiet_resolve: "turn_view (resolve_needs_input Z s turn a) = turn_view a"
  by (simp add: resolve_needs_input_def quiet_try)

lemma quiet_release_proven: "turn_view (release_attach_after_proven_turn a) = turn_view a"
  by (simp add: release_attach_after_proven_turn_def split: option.splits)

lemma quiet_release_failed: "turn_view (release_attach_after_failed_turn a) = turn_view a"
  by (auto simp: release_attach_after_failed_turn_def split: prod.splits sum.splits dest!: quiet_now)

lemma quiet_raw_now: "now_ms a = (t, a') \<Longrightarrow> turn_view a' = turn_view a"
  by (auto simp: now_ms_def)

lemma quiet_expired: "deadline_expired d a = (b, a') \<Longrightarrow> turn_view a' = turn_view a"
  by (auto simp: deadline_expired_def now_ms_def split: option.splits if_splits)

lemmas quiet = quiet_now quiet_ensure quiet_emit quiet_transition quiet_needs_input quiet_raw_now quiet_expired

section \<open>The byte budget\<close>

definition turn_base :: "sizes \<Rightarrow> utext \<Rightarrow> nat" where
  "turn_base Z prompt = min (min (z_record Z + byte_len prompt) usize_max + TERMINAL_FAILURE_RESERVE_BYTES) usize_max"

definition turn_extra :: "sizes \<Rightarrow> turn_record \<Rightarrow> nat" where
  "turn_extra Z r = (case rec_terminal r of
     None \<Rightarrow> 0 | Some t \<Rightarrow> stored_terminal_bytes Z t - TERMINAL_FAILURE_RESERVE_BYTES)"

definition turn_bytes :: "sizes \<Rightarrow> turn_record \<Rightarrow> nat" where
  "turn_bytes Z r = turn_base Z (rec_normalized_prompt r) + turn_extra Z r"

definition history_sum :: "sizes \<Rightarrow> (turn_id, turn_record) btree_map \<Rightarrow> nat" where
  "history_sum Z m = (\<Sum>t | bm_get m t \<noteq> None. turn_bytes Z (the (bm_get m t)))"

lemma history_sum_rest:
  assumes "t \<notin> D"
  shows "(\<Sum>x \<in> D. turn_bytes Z (the (bm_get (bm_insert t r m) x))) = (\<Sum>x \<in> D. turn_bytes Z (the (bm_get m x)))"
  by (rule sum.cong) (use assms in auto)

lemma history_sum_new:
  assumes "bm_get m t = None"
  shows "history_sum Z (bm_insert t r m) = history_sum Z m + turn_bytes Z r"
proof -
  let ?D = "{x. bm_get m x \<noteq> None}"
  have D: "finite ?D" "t \<notin> ?D" using assms bm.finite_dom [of m] by auto
  have dom: "{x. bm_get (bm_insert t r m) x \<noteq> None} = insert t ?D" by auto
  show ?thesis unfolding history_sum_def dom sum.insert [OF D] history_sum_rest [OF D(2)] by simp
qed

lemma history_sum_change:
  assumes "bm_get m t = Some r0"
  shows "history_sum Z (bm_insert t r m) + turn_bytes Z r0 = history_sum Z m + turn_bytes Z r"
proof -
  let ?D = "{x. bm_get m x \<noteq> None}"
  have D: "finite ?D" "t \<in> ?D" using assms bm.finite_dom [of m] by auto
  have dom: "{x. bm_get (bm_insert t r m) x \<noteq> None} = ?D" using assms by auto
  have rest: "t \<notin> ?D - {t}" by simp
  show ?thesis
    unfolding history_sum_def dom sum.remove [OF D] history_sum_rest [OF rest] by (simp add: assms)
qed

definition history_ok :: "sizes \<Rightarrow> actor \<Rightarrow> bool" where
  "history_ok Z a \<longleftrightarrow> a_turn_history_bytes a = history_sum Z (a_turns a)
     \<and> a_turn_history_bytes a \<le> ac_turn_history_byte_capacity (a_config a) \<and> a_turn_history_bytes a \<le> usize_max
     \<and> bm_len (a_turns a) \<le> ac_turn_history_capacity (a_config a)"

lemma history_ok_view: "turn_view a' = turn_view a \<Longrightarrow> history_ok Z a' = history_ok Z a"
  by (simp add: history_ok_def turn_view_def)

text \<open>
  Each accepted turn reserves \<open>TERMINAL_FAILURE_RESERVE_BYTES\<close>; the two errors a store can fail with are
  written by \<open>serde_json\<close> in at most that many.
\<close>

definition compact_failures :: "sizes \<Rightarrow> bool" where
  "compact_failures Z \<longleftrightarrow> (\<forall>a turn n.
     z_error Z (bounded_terminal_error Z turn (turn_history_capacity_error
       ''the exact terminal outcome does not fit the per-session turn history'' n a) a) \<le> TERMINAL_FAILURE_RESERVE_BYTES
     \<and> z_error Z (bounded_terminal_error Z turn (error_new RecoveryFailed
       ''terminal outcome cannot be serialized within the protocol-v1 domain'') a) \<le> TERMINAL_FAILURE_RESERVE_BYTES)"

section \<open>Settling a turn\<close>

definition open_turn :: "actor \<Rightarrow> turn_id \<Rightarrow> bool" where
  "open_turn a t \<longleftrightarrow> (\<exists>r. bm_get (a_turns a) t = Some r \<and> rec_terminal r = None)"

definition settled :: "sizes \<Rightarrow> turn_id \<Rightarrow> actor \<Rightarrow> actor \<Rightarrow> bool" where
  "settled Z turn a a' \<longleftrightarrow> history_ok Z a' \<and> a_panicked a' = a_panicked a \<and> a_config a' = a_config a
     \<and> a_active a' = a_active a \<and> turn_effects a' = turn_effects a
     \<and> (\<exists>r x. bm_get (a_turns a) turn = Some r
          \<and> (\<forall>t. bm_get (a_turns a') t = (if t = turn then Some (r\<lparr>rec_terminal := Some x\<rparr>) else bm_get (a_turns a) t)))"

lemma settled_view:
  assumes "turn_view a1 = turn_view a" "turn_view a1' = turn_view a'"
  shows "settled Z turn a1 a1' = settled Z turn a a'"
  using assms by (simp add: settled_def turn_view_def history_ok_def)

lemma settled_from: "settled Z turn a1 a' \<Longrightarrow> turn_view a1 = turn_view a \<Longrightarrow> settled Z turn a a'"
  using settled_view [of a1 a a' a' Z turn] by simp

lemma settled_to: "settled Z turn a a1 \<Longrightarrow> turn_view a' = turn_view a1 \<Longrightarrow> settled Z turn a a'"
  using settled_view [of a a a' a1 Z turn] by simp

lemma settled_again:
  assumes "settled Z turn a a1" "settled Z turn a1 a2"
  shows "settled Z turn a a2"
proof -
  obtain r x where r: "bm_get (a_turns a) turn = Some r"
    "\<forall>t. bm_get (a_turns a1) t = (if t = turn then Some (r\<lparr>rec_terminal := Some x\<rparr>) else bm_get (a_turns a) t)"
    using assms(1) by (auto simp: settled_def)
  obtain r' y where r': "bm_get (a_turns a1) turn = Some r'"
    "\<forall>t. bm_get (a_turns a2) t = (if t = turn then Some (r'\<lparr>rec_terminal := Some y\<rparr>) else bm_get (a_turns a1) t)"
    using assms(2) by (auto simp: settled_def)
  have "r' = r\<lparr>rec_terminal := Some x\<rparr>" using r(2) r'(1) by simp
  then have "\<forall>t. bm_get (a_turns a2) t = (if t = turn then Some (r\<lparr>rec_terminal := Some y\<rparr>) else bm_get (a_turns a) t)"
    using r(2) r'(2) by simp
  then show ?thesis using assms r(1) by (auto simp: settled_def)
qed

lemma settled_history: "settled Z turn a a' \<Longrightarrow> history_ok Z a'"
  by (simp add: settled_def)

lemma settled_known: "settled Z turn a a' \<Longrightarrow> bm_get (a_turns a') turn \<noteq> None"
  by (auto simp: settled_def)

lemma store_settles:
  assumes "try_store_terminal_with_bytes turn x (stored_terminal_bytes Z x) a = (r, a')"
    and "history_ok Z a" "open_turn a turn"
  shows "r = Inr () \<and> settled Z turn a a'
    \<or> a' = a \<and> (r = Inl (error_new RecoveryFailed ''terminal outcome cannot be serialized within the protocol-v1 domain'')
        \<or> (\<exists>n. r = Inl (turn_history_capacity_error
              ''the exact terminal outcome does not fit the per-session turn history'' n a)))"
proof -
  obtain rec where rec: "bm_get (a_turns a) turn = Some rec" "rec_terminal rec = None"
    using assms(3) by (auto simp: open_turn_def)
  let ?new = "rec\<lparr>rec_terminal := Some x\<rparr>" and ?more = "stored_terminal_bytes Z x - TERMINAL_FAILURE_RESERVE_BYTES"
  have sum: "history_sum Z (bm_insert turn ?new (a_turns a)) = history_sum Z (a_turns a) + ?more"
    using history_sum_change [OF rec(1), of Z ?new] rec(2) by (simp add: turn_bytes_def turn_extra_def)
  have len: "bm_len (bm_insert turn ?new (a_turns a)) = bm_len (a_turns a)"
    using rec(1) by (simp add: bm_len_insert bm_contains_def)
  have "settled Z turn a (a\<lparr>a_turns := bm_insert turn ?new (a_turns a),
      a_turn_history_bytes := min (a_turn_history_bytes a + ?more) usize_max\<rparr>)"
    if "\<not> usize_max < a_turn_history_bytes a + ?more"
      "\<not> ac_turn_history_byte_capacity (a_config a) < a_turn_history_bytes a + ?more"
    using assms(2) rec(1) that sum len
    by (auto simp: settled_def history_ok_def turn_effects_def intro!: exI [of _ rec] exI [of _ x])
  then show ?thesis
    using assms(1) rec
    by (auto simp: try_store_terminal_with_bytes_def refused_def Let_def split: if_splits)
qed

lemma compact_stores:
  assumes "z_error Z e \<le> TERMINAL_FAILURE_RESERVE_BYTES" "history_ok Z a" "open_turn a turn"
    "try_store_terminal Z turn (StoredFailed e) a = (r, a')"
  shows "r = Inr () \<and> settled Z turn a a'"
proof -
  have "z_error Z e \<noteq> usize_max"
    using assms(1) by (auto simp: TERMINAL_FAILURE_RESERVE_BYTES_def usize_max_def u64_max_def)
  then have "r = Inr ()"
    using assms by (auto simp: try_store_terminal_def try_store_terminal_with_bytes_def history_ok_def open_turn_def
        refused_def Let_def split: if_splits option.splits)
  then show ?thesis using store_settles [of turn "StoredFailed e" Z a r a'] assms by (auto simp: try_store_terminal_def)
qed

lemma failure_settles:
  assumes "compact_failures Z" "store_bounded_failure Z turn e a = (e', a')" "history_ok Z a" "open_turn a turn"
  shows "settled Z turn a a'"
proof -
  let ?e1 = "bounded_terminal_error Z turn e a"
  obtain r1 a1 where one: "try_store_terminal Z turn (StoredFailed ?e1) a = (r1, a1)"
    by (cases "try_store_terminal Z turn (StoredFailed ?e1) a")
  note first = store_settles [OF one [unfolded try_store_terminal_def] assms(3,4)]
  show ?thesis
  proof (cases "r1 = Inr ()")
    case True
    then show ?thesis using assms(2) one first by (auto simp: store_bounded_failure_def Let_def)
  next
    case False
    then have same: "a1 = a" using first by auto
    obtain f where f: "r1 = Inl f" using False by (cases r1) auto
    let ?e2 = "bounded_terminal_error Z turn f a"
    obtain r2 a2 where two: "try_store_terminal Z turn (StoredFailed ?e2) a = (r2, a2)"
      by (cases "try_store_terminal Z turn (StoredFailed ?e2) a")
    have "z_error Z ?e2 \<le> TERMINAL_FAILURE_RESERVE_BYTES"
      using assms(1) first f unfolding compact_failures_def by auto
    note second = compact_stores [OF this assms(3,4) two]
    then show ?thesis
      using assms(2) one two f same by (auto simp: store_bounded_failure_def Let_def)
  qed
qed

lemma replace_settles:
  assumes "compact_failures Z" "replace_terminal_with_failure Z turn e a = (e', a')" "history_ok Z a"
    "bm_get (a_turns a) turn \<noteq> None"
  shows "settled Z turn a a'"
proof -
  obtain r where r: "bm_get (a_turns a) turn = Some r" using assms(4) by auto
  show ?thesis
  proof (cases "rec_terminal r")
    case None
    then show ?thesis
      using failure_settles [OF assms(1), of turn e a e' a'] assms(2,3) r
      by (simp add: replace_terminal_with_failure_def open_turn_def)
  next
    case (Some x)
    let ?more = "stored_terminal_bytes Z x - TERMINAL_FAILURE_RESERVE_BYTES"
    let ?b = "a\<lparr>a_turns := bm_insert turn (r\<lparr>rec_terminal := None\<rparr>) (a_turns a),
      a_turn_history_bytes := a_turn_history_bytes a - ?more\<rparr>"
    have "history_sum Z (bm_insert turn (r\<lparr>rec_terminal := None\<rparr>) (a_turns a)) + ?more = history_sum Z (a_turns a)"
      using history_sum_change [OF r, of Z "r\<lparr>rec_terminal := None\<rparr>"] Some by (simp add: turn_bytes_def turn_extra_def)
    then have b: "history_ok Z ?b" "open_turn ?b turn"
      using assms(3) r by (auto simp: history_ok_def open_turn_def bm_len_insert bm_contains_def)
    have "store_bounded_failure Z turn e ?b = (e', a')"
      using assms(2) r Some by (simp add: replace_terminal_with_failure_def)
    from failure_settles [OF assms(1) this b] show ?thesis
      using r by (auto simp: settled_def turn_effects_def)
  qed
qed

lemma poison_settles:
  assumes "compact_failures Z" "history_ok Z a" "bm_get (a_turns a) turn \<noteq> None"
  shows "settled Z turn a (poison_after_unpublishable_terminal Z turn e a)"
proof -
  obtain e' a' where p: "replace_terminal_with_failure Z turn e a = (e', a')"
    by (cases "replace_terminal_with_failure Z turn e a")
  have "turn_view (poison_after_unpublishable_terminal Z turn e a) = turn_view a'"
    by (simp add: poison_after_unpublishable_terminal_def Let_def p quiet_release_failed)
  then show ?thesis using settled_to [OF replace_settles [OF assms(1) p assms(2,3)]] by simp
qed

section \<open>Every end of a turn settles it\<close>

lemma open_view: "turn_view a' = turn_view a \<Longrightarrow> open_turn a' t = open_turn a t"
  by (simp add: open_turn_def turn_view_def)

lemma view_ok:
  assumes "turn_view b = turn_view a" "history_ok Z a" "open_turn a t"
  shows "history_ok Z b" "open_turn b t"
  using history_ok_view [OF assms(1)] open_view [OF assms(1)] assms(2,3) by simp_all

lemma open_known: "open_turn a t \<Longrightarrow> bm_get (a_turns a) t \<noteq> None"
  by (auto simp: open_turn_def)

lemma poison_after_settled:
  assumes "compact_failures Z" "settled Z turn a a1" "turn_view a2 = turn_view a1"
  shows "settled Z turn a (poison_after_unpublishable_terminal Z turn e a2)"
proof -
  have two: "settled Z turn a a2" by (rule settled_to [OF assms(2,3)])
  show ?thesis
    by (rule settled_again [OF two poison_settles [OF assms(1) settled_history [OF two] settled_known [OF two]]])
qed

lemma finish_error_settles:
  assumes "compact_failures Z" "history_ok Z a" "open_turn a turn"
  shows "settled Z turn a (finish_completed_with_error Z turn t e a)"
proof -
  let ?e1 = "case checked_actor_timestamp t ''turn_completed_at'' of Inr _ \<Rightarrow> e | Inl te \<Rightarrow> te"
  obtain e2 a1 where one: "store_bounded_failure Z turn ?e1 a = (e2, a1)"
    by (cases "store_bounded_failure Z turn ?e1 a")
  have s: "settled Z turn a a1" by (rule failure_settles [OF assms(1) one assms(2,3)])
  obtain r a2 where two: "emit Z (Some turn) (EvTurnFailed e2) a1 = (r, a2)"
    by (cases "emit Z (Some turn) (EvTurnFailed e2) a1")
  note q = quiet_emit [OF two]
  show ?thesis
  proof (cases r)
    case (Inl ee)
    then show ?thesis
      using poison_after_settled [OF assms(1) s q] one two by (simp add: finish_completed_with_error_def Let_def)
  next
    case (Inr x)
    then show ?thesis
      using settled_to [OF s, of "a2\<lparr>a_last_turn := _\<rparr>"] q one two
      by (simp add: finish_completed_with_error_def Let_def)
  qed
qed

lemma finish_error_after:
  assumes "compact_failures Z" "history_ok Z a" "open_turn a turn" "turn_view b = turn_view a"
  shows "settled Z turn a (finish_completed_with_error Z turn t e b)"
  by (rule settled_from [OF finish_error_settles [OF assms(1) view_ok [OF assms(4,2,3)]] assms(4)])

lemma poison_after:
  assumes "compact_failures Z" "history_ok Z a" "open_turn a turn" "turn_view b = turn_view a"
  shows "settled Z turn a (poison_after_unpublishable_terminal Z turn e b)"
  by (rule settled_from [OF poison_settles [OF assms(1) view_ok(1) open_known [OF view_ok(2)]] assms(4)])
    (rule assms(4,2,3))+

lemma complete_settles:
  assumes "compact_failures Z" "history_ok Z a0" "open_turn a0 turn"
  shows "settled Z turn (drop_active a0) (complete_active Z turn res d a0)"
proof -
  let ?b = "drop_active a0"
  have b: "history_ok Z ?b" "open_turn ?b turn"
    using assms(2,3) by (simp_all add: drop_active_def answer_waiters_def history_ok_def open_turn_def split: option.splits)
  obtain moved a1 where one: "transition Z SReady None (Some turn) ?b = (moved, a1)"
    by (cases "transition Z SReady None (Some turn) ?b")
  note q1 = quiet_transition [OF one]
  show ?thesis
  proof (cases moved)
    case (Inl e)
    then show ?thesis using poison_after [OF assms(1) b q1] one by (simp add: complete_active_def)
  next
    case (Inr u)
    let ?a2 = "release_attach_after_proven_turn a1"
    let ?r = "res\<lparr>tr_final_sequence := a_next_sequence ?a2\<rparr>"
    obtain late a3 where two: "deadline_expired d ?a2 = (late, a3)" by (cases "deadline_expired d ?a2")
    have q3: "turn_view a3 = turn_view ?b"
      using quiet_expired [OF two] q1 by (simp add: quiet_release_proven)
    note ok3 = view_ok [OF q3 b]
    obtain r4 a4 where four:
      "try_store_terminal_with_bytes turn (StoredResult ?r) (stored_terminal_bytes Z (StoredResult ?r)) a3 = (r4, a4)"
      by (cases "try_store_terminal_with_bytes turn (StoredResult ?r) (stored_terminal_bytes Z (StoredResult ?r)) a3")
    obtain r5 a5 where five: "emit Z (Some turn) (EvTurnCompleted ?r) a4 = (r5, a5)"
      by (cases "emit Z (Some turn) (EvTurnCompleted ?r) a4")
    obtain t6 a6 where six: "now_ms a3 = (t6, a6)" by (cases "now_ms a3")
    have q6: "turn_view a6 = turn_view ?b" using quiet_raw_now [OF six] q3 by simp
    note store = store_settles [OF four ok3]
    have stored: "settled Z turn ?b a4" if "r4 = Inr ()"
      using store that settled_from [OF _ q3] by auto
    have unstored: "turn_view a4 = turn_view ?b" if "r4 = Inl e" for e
      using store that q3 by auto
    have done_: "settled Z turn ?b (a5\<lparr>a_last_turn := lt\<rparr>)" if "r4 = Inr ()" for lt
      by (rule settled_to [OF stored [OF that]]) (simp add: quiet_emit [OF five])
    have "complete_active Z turn res d a0 \<in>
        {finish_completed_with_error Z turn t6 turn_timeout_error a6}
        \<union> {finish_completed_with_error Z turn (tt_completed_at_ms (tr_timings ?r)) e a3 | e. True}
        \<union> {finish_completed_with_error Z turn (tt_completed_at_ms (tr_timings ?r)) e a4 | e. r4 = Inl e}
        \<union> {poison_after_unpublishable_terminal Z turn e a5 | e. r4 = Inr ()}
        \<union> {a5\<lparr>a_last_turn := lt\<rparr> | lt. r4 = Inr ()}"
      using one Inr two four five six
      by (auto simp: complete_active_def Let_def split: sum.splits bool.splits)
    then show ?thesis
      using finish_error_after [OF assms(1) b q6] finish_error_after [OF assms(1) b q3]
        finish_error_after [OF assms(1) b unstored] poison_after_settled [OF assms(1) stored quiet_emit [OF five]]
        done_ by auto
  qed
qed

lemma timeout_settles:
  assumes "compact_failures Z" "history_ok Z a0" "open_turn a0 turn"
  shows "settled Z turn (drop_active a0) (timeout_completed_at_commit Z turn a0)"
proof -
  let ?b = "drop_active a0"
  have b: "history_ok Z ?b" "open_turn ?b turn"
    using assms(2,3) by (simp_all add: drop_active_def answer_waiters_def history_ok_def open_turn_def split: option.splits)
  obtain moved a1 where one: "transition Z SReady None (Some turn) ?b = (moved, a1)"
    by (cases "transition Z SReady None (Some turn) ?b")
  obtain t a2 where two: "now_ms (release_attach_after_proven_turn a1) = (t, a2)"
    by (cases "now_ms (release_attach_after_proven_turn a1)")
  have q: "turn_view a1 = turn_view ?b" "turn_view a2 = turn_view ?b"
    using quiet_transition [OF one] quiet_raw_now [OF two] by (simp_all add: quiet_release_proven)
  then show ?thesis
    using poison_after [OF assms(1) b q(1)] finish_error_after [OF assms(1) b q(2)] one two
    by (auto simp: timeout_completed_at_commit_def split: sum.splits)
qed

lemma settled_answer:
  "settled Z turn a a' \<Longrightarrow> settled Z turn (answer_waiters ws ans a) (answer_waiters ws ans a')"
  by (auto simp: settled_def answer_waiters_def turn_effects_def history_ok_def)

text \<open>The contract of an ending: the active turn is settled and its cancel requests are answered.\<close>

definition ended :: "sizes \<Rightarrow> turn_id \<Rightarrow> active_turn \<Rightarrow> actor \<Rightarrow> actor \<Rightarrow> bool" where
  "ended Z turn act a a' \<longleftrightarrow>
     (\<exists>ans. settled Z turn (answer_waiters (at_cancel_waiters act) ans (a\<lparr>a_active := None\<rparr>)) a')"

lemma endedI:
  assumes "settled Z turn (a\<lparr>a_active := None\<rparr>) a1"
  shows "ended Z turn act a (answer_waiters (at_cancel_waiters act) ans a1)"
  using settled_answer [OF assms] by (auto simp: ended_def)

lemma ended_drop:
  assumes "settled Z turn (drop_active a) a'" "a_active a = Some act"
  shows "ended Z turn act a a'"
  using assms by (auto simp: ended_def drop_active_def)

lemma fail_active_ends:
  assumes "compact_failures Z" "history_ok Z a0" "open_turn a0 turn" "a_active a0 = Some act"
  shows "ended Z turn act a0 (fail_active Z turn e0 reaped a0)"
proof -
  let ?b = "a0\<lparr>a_active := None\<rparr>"
  let ?a1 = "a0\<lparr>a_active := None, a_process_reaped := (a_process_reaped a0 \<or> reaped)\<rparr>"
  have b: "history_ok Z ?b" "open_turn ?b turn" using assms(2,3) by (simp_all add: history_ok_def open_turn_def)
  obtain completed a2 where two: "checked_now_ms ''turn_completed_at'' ?a1 = (completed, a2)"
    by (cases "checked_now_ms ''turn_completed_at'' ?a1")
  have q2: "turn_view a2 = turn_view ?b"
    using quiet_now [OF two] by (simp add: turn_view_def turn_effects_def)
  obtain e a3 where three: "store_bounded_failure Z turn e0 a2 = (e, a3)" by (cases "store_bounded_failure Z turn e0 a2")
  have s3: "settled Z turn ?b a3"
    by (rule settled_from [OF failure_settles [OF assms(1) three view_ok [OF q2 b]] q2])
  let ?target = "if a_state a3 = SCancelling then STainted else SFailed"
  obtain moved a4 where four: "transition Z ?target (Some (message e)) (Some turn) a3 = (moved, a4)"
    by (cases "transition Z ?target (Some (message e)) (Some turn) a3")
  let ?a5 = "release_attach_after_failed_turn a4"
  have q5: "turn_view ?a5 = turn_view a3" using quiet_transition [OF four] by (simp add: quiet_release_failed)
  obtain r6 a6 where six: "emit Z (Some turn) (EvTurnFailed e) ?a5 = (r6, a6)"
    by (cases "emit Z (Some turn) (EvTurnFailed e) ?a5")
  have q6: "turn_view a6 = turn_view a3" using quiet_emit [OF six] q5 by simp
  have last: "settled Z turn ?b (a6\<lparr>a_last_turn := lt\<rparr>)" for lt
    by (rule settled_to [OF s3]) (simp add: q6)
  have "\<exists>a7 ans. fail_active Z turn e0 reaped a0 = answer_waiters (at_cancel_waiters act) ans a7
      \<and> (a7 \<in> {poison_after_unpublishable_terminal Z turn x ?a5 | x. True}
         \<union> {poison_after_unpublishable_terminal Z turn x a6 | x. True} \<union> {a6\<lparr>a_last_turn := lt\<rparr> | lt. True})"
    using assms(4) two three four six
    by (auto simp: fail_active_def Let_def split: sum.splits)
  then show ?thesis
    using poison_after_settled [OF assms(1) s3 q5] poison_after_settled [OF assms(1) s3 q6] last
    by (auto intro!: endedI)
qed

lemma store_cancelled_settles:
  assumes "compact_failures Z" "history_ok Z a" "open_turn a turn"
    "store_cancelled Z turn recovered t final a = (r, a')"
  shows "settled Z turn a a'"
proof (cases recovered)
  case False
  then obtain x where "store_bounded_failure Z turn
      (error_new RecoveryFailed ''Claude did not recover to a ready prompt after cancellation'') a = (x, a')"
    using assms(4) by (cases "store_bounded_failure Z turn
      (error_new RecoveryFailed ''Claude did not recover to a ready prompt after cancellation'') a")
      (auto simp: store_cancelled_def)
  then show ?thesis by (rule failure_settles [OF assms(1) _ assms(2,3)])
next
  case True
  let ?x = "StoredResult (cancelled_turn_result turn
      (case bm_get (a_turns a) turn of None \<Rightarrow> t | Some r \<Rightarrow> rec_submitted_at_ms r) t final a)"
  obtain r1 a1 where one: "try_store_terminal Z turn ?x a = (r1, a1)" by (cases "try_store_terminal Z turn ?x a")
  note store = store_settles [OF one [unfolded try_store_terminal_def] assms(2,3)]
  show ?thesis
  proof (cases r1)
    case (Inr u)
    then show ?thesis using store one assms(4) True by (auto simp: store_cancelled_def Let_def)
  next
    case (Inl e)
    then have same: "a1 = a" using store by auto
    obtain e2 a2 where two: "store_bounded_failure Z turn e a = (e2, a2)" by (cases "store_bounded_failure Z turn e a")
    obtain r3 a3 where three: "emit Z (Some turn) (EvTurnFailed e2) a2 = (r3, a3)"
      by (cases "emit Z (Some turn) (EvTurnFailed e2) a2")
    have "a' = a3"
      using one two three same Inl assms(4) True
      by (auto simp: store_cancelled_def and_then_def Let_def split: sum.splits)
    then show ?thesis
      using settled_to [OF failure_settles [OF assms(1) two assms(2,3)] quiet_emit [OF three]] by simp
  qed
qed

lemma finish_cancel_ends:
  assumes "compact_failures Z" "history_ok Z a0" "open_turn a0 turn" "a_active a0 = Some act"
  shows "ended Z turn act a0 (finish_cancel Z turn oc recovered t reaped a0)"
proof (cases "checked_actor_timestamp t ''turn_completed_at''")
  case (Inl e)
  then show ?thesis using fail_active_ends [OF assms] by (simp add: finish_cancel_def)
next
  case (Inr u)
  let ?b = "a0\<lparr>a_active := None\<rparr>" and ?ws = "at_cancel_waiters act"
  let ?a1 = "a0\<lparr>a_active := None, a_process_reaped := (a_process_reaped a0 \<or> reaped)\<rparr>"
  let ?target = "if recovered \<and> \<not> a_writable_attach_release_pending a0 then SReady else STainted"
  have b: "history_ok Z ?b" "open_turn ?b turn" using assms(2,3) by (simp_all add: history_ok_def open_turn_def)
  obtain moved a2 where two: "transition Z ?target None (Some turn) ?a1 = (moved, a2)"
    by (cases "transition Z ?target None (Some turn) ?a1")
  have q2: "turn_view a2 = turn_view ?b"
    using quiet_transition [OF two] by (simp add: turn_view_def turn_effects_def)
  let ?a3 = "release_attach_after_failed_turn a2"
  obtain r4 a4 where four: "emit Z (Some turn) (EvTurnCancelled \<lparr>te_outcome = oc, te_recovered_to_ready = recovered\<rparr>) ?a3 = (r4, a4)"
    by (cases "emit Z (Some turn) (EvTurnCancelled \<lparr>te_outcome = oc, te_recovered_to_ready = recovered\<rparr>) ?a3")
  have q4: "turn_view a4 = turn_view ?b" using quiet_emit [OF four] q2 by (simp add: quiet_release_failed)
  obtain r5 a5 where five: "store_cancelled Z turn recovered t (a_next_sequence ?a3) a4 = (r5, a5)"
    by (cases "store_cancelled Z turn recovered t (a_next_sequence ?a3) a4")
  have s5: "settled Z turn ?b a5"
    by (rule settled_from [OF store_cancelled_settles [OF assms(1) view_ok [OF q4 b] five] q4])
  have last: "settled Z turn ?b (a5\<lparr>a_last_turn := lt\<rparr>)" for lt by (rule settled_to [OF s5]) simp
  have "\<exists>a7 ans. finish_cancel Z turn oc recovered t reaped a0 = answer_waiters ?ws ans a7
      \<and> (a7 \<in> {poison_after_unpublishable_terminal Z turn x a2 | x. True}
         \<union> {poison_after_unpublishable_terminal Z turn x a4 | x. True}
         \<union> {poison_after_unpublishable_terminal Z turn x a5 | x. True} \<union> {a5\<lparr>a_last_turn := lt\<rparr> | lt. True})"
    using assms(4) Inr two four five
    by (auto simp: finish_cancel_def cancel_unpublished_def Let_def split: sum.splits prod.splits)
  then show ?thesis
    using poison_after [OF assms(1) b q2] poison_after [OF assms(1) b q4]
      poison_after_settled [OF assms(1) s5 refl] last
    by (auto intro!: endedI)
qed


section \<open>What a message does to the turns\<close>

definition settling :: "sizes \<Rightarrow> actor \<Rightarrow> actor \<Rightarrow> bool" where
  "settling Z a a' \<longleftrightarrow> (\<exists>act. a_active a = Some act \<and> ended Z (at_turn_id act) act a a')"

lemma ended_from: "ended Z turn act b a' \<Longrightarrow> turn_view b = turn_view a \<Longrightarrow> ended Z turn act a a'"
  by (auto simp: ended_def settled_def turn_view_def turn_effects_def answer_waiters_def)

definition abandoned :: "error_body \<Rightarrow> actor \<Rightarrow> actor" where
  "abandoned e a =
     (case a_active a of
        None \<Rightarrow> a
      | Some act \<Rightarrow> answer_waiters (at_cancel_waiters act) (Inl e)
          (set_off (AbortTurn (at_turn_id act)) (a\<lparr>a_active := None\<rparr>)))"

text \<open>
  The turns of an actor change in six ways. The list holds the cancel requests that arrived with the
  message: at most one.
\<close>

inductive turn_change :: "sizes \<Rightarrow> ticket list \<Rightarrow> actor \<Rightarrow> actor \<Rightarrow> bool" for Z where
  unchanged: "turn_view a' = turn_view a \<Longrightarrow> turn_change Z [] a a'"
| answered: "turn_view a' = turn_view (answer_waiters [w] ans a) \<Longrightarrow> turn_change Z [w] a a'"
| waiting: "a_active a = Some act \<Longrightarrow> es \<in> {[], [RecoverCancelled (at_turn_id act)]} \<Longrightarrow>
    turn_view a' = turn_view (a\<lparr>a_active := Some (act\<lparr>at_cancel_waiters := at_cancel_waiters act @ [w]\<rparr>),
      a_effects := a_effects a @ AbortTurn (at_turn_id act) # es\<rparr>) \<Longrightarrow> turn_change Z [w] a a'"
| ending: "settling Z a a' \<Longrightarrow> turn_change Z [] a a'"
| dropped: "turn_view a' = turn_view (abandoned e a) \<Longrightarrow> turn_change Z [] a a'"
| started: "a_active a = None \<Longrightarrow> bm_get (a_turns a) (tq_turn_id t) = None \<Longrightarrow> rec_terminal r = None \<Longrightarrow>
    n = a_turn_history_bytes a + turn_bytes Z r \<Longrightarrow>
    n \<le> usize_max \<Longrightarrow> n \<le> ac_turn_history_byte_capacity (a_config a) \<Longrightarrow>
    bm_len (a_turns a) < ac_turn_history_capacity (a_config a) \<Longrightarrow> es \<in> {[], [StartTurn t at c sid]} \<Longrightarrow>
    turn_view a' = turn_view (a\<lparr>a_turn_history_bytes := n, a_turns := bm_insert (tq_turn_id t) r (a_turns a),
      a_active := Some \<lparr>at_turn_id = tq_turn_id t, at_cancel_waiters = []\<rparr>,
      a_effects := a_effects a @ es\<rparr>) \<Longrightarrow> turn_change Z [] a a'"

lemmas turns_unchanged = turn_change.unchanged

lemma change_from:
  assumes "turn_change Z ws b a'" "turn_view b = turn_view a"
  shows "turn_change Z ws a a'"
  using assms(1)
proof cases
  case unchanged
  then show ?thesis using assms(2) by (simp add: turn_change.unchanged)
next
  case (answered w ans)
  then show ?thesis
    using assms(2) turn_change.answered [of a' w ans a Z] by (simp add: turn_view_def turn_effects_def answer_waiters_def)
next
  case (waiting act es w)
  then show ?thesis
    using assms(2) turn_change.waiting [of a act es a' w Z] by (simp add: turn_view_def turn_effects_def)
next
  case ending
  then have "settling Z a a'" using assms(2) turn_view_fields(4) [OF assms(2)] by (auto simp: settling_def intro: ended_from)
  then show ?thesis using ending by (simp add: turn_change.ending)
next
  case (dropped e)
  have "turn_view (abandoned e b) = turn_view (abandoned e a)"
    using assms(2)
    by (auto simp: abandoned_def turn_view_def turn_effects_def answer_waiters_def set_off_def split: option.splits)
  then show ?thesis using dropped turn_change.dropped [of a' e a Z] by simp
next
  case (started t r n es at c sid)
  then show ?thesis
    using assms(2) turn_change.started [of a t r n Z es at c sid a'] by (simp add: turn_view_def turn_effects_def)
qed

lemma active_ends:
  assumes "compact_failures Z" "history_ok Z a" "a_active a = Some act" "open_turn a (at_turn_id act)"
    "turn_view b = turn_view a"
  shows "settling Z a (fail_active Z (at_turn_id act) e reaped b)"
    "settling Z a (finish_cancel Z (at_turn_id act) oc recovered t reaped b)"
    "settling Z a (complete_active Z (at_turn_id act) res d b)"
    "settling Z a (timeout_completed_at_commit Z (at_turn_id act) b)"
proof -
  note ok = view_ok [OF assms(5,2,4)]
  have act: "a_active b = Some act" using turn_view_fields(4) [OF assms(5)] assms(3) by simp
  have *: "settling Z a x" if "ended Z (at_turn_id act) act b x" for x
    using ended_from [OF that assms(5)] assms(3) by (auto simp: settling_def)
  show "settling Z a (fail_active Z (at_turn_id act) e reaped b)"
    by (rule * [OF fail_active_ends [OF assms(1) ok act]])
  show "settling Z a (finish_cancel Z (at_turn_id act) oc recovered t reaped b)"
    by (rule * [OF finish_cancel_ends [OF assms(1) ok act]])
  show "settling Z a (complete_active Z (at_turn_id act) res d b)"
    by (rule * [OF ended_drop [OF complete_settles [OF assms(1) ok] act]])
  show "settling Z a (timeout_completed_at_commit Z (at_turn_id act) b)"
    by (rule * [OF ended_drop [OF timeout_settles [OF assms(1) ok] act]])
qed


lemma update_changes:
  assumes "compact_failures Z" "history_ok Z a" "a_active a = Some act" "open_turn a (at_turn_id act)"
    "turn_view b = turn_view a" "turn_of_update u = Some (at_turn_id act)"
  shows "turn_change Z [] a (apply_update Z u b)"
proof -
  let ?t = "at_turn_id act"
  have fails: "turn_change Z [] a (fail_active Z ?t e reaped c)" if "turn_view c = turn_view b" for e reaped c
    using active_ends(1) [OF assms(1-4)] that assms(5) by (simp add: turn_change.ending)
  have quiets: "turn_change Z [] a c" if "turn_view c = turn_view b" for c
    using that assms(5) by (simp add: turns_unchanged)
  show ?thesis
  proof (cases u)
    case (WCompleted t r d)
    obtain late c where c: "deadline_expired d b = (late, c)" by (cases "deadline_expired d b")
    have "turn_view c = turn_view a" using quiet_expired [OF c] assms(5) by simp
    note ends = active_ends(3,4) [OF assms(1-4) this]
    show ?thesis using assms(6) ends WCompleted c by (cases late) (simp_all add: turn_change.ending)
  next
    case (WCancelled t oc rc c p)
    then show ?thesis using assms(6) active_ends(2) [OF assms(1-5)] by (simp add: turn_change.ending)
  qed (use assms(6) in \<open>auto split: prod.splits sum.splits option.splits dest!: quiet_emit quiet_needs_input
      intro: fails quiets simp: quiet_try quiet_resolve\<close>)
qed

lemma turn_update_changes:
  assumes "compact_failures Z" "history_ok Z a" "\<forall>act. a_active a = Some act \<longrightarrow> open_turn a (at_turn_id act)"
    "turn_of_update u = Some t"
  shows "turn_change Z [] a (handle_turn_update Z t u a)"
proof (cases "map_option at_turn_id (a_active a) = Some t")
  case False
  then show ?thesis by (simp add: handle_turn_update_def turns_unchanged)
next
  case True
  then obtain act where act: "a_active a = Some act" "t = at_turn_id act" by auto
  have open_act: "open_turn a (at_turn_id act)" using assms(3) act by simp
  obtain r b where b: "ensure_sequence_slots (required_sequence_slots u) a = (r, b)"
    by (cases "ensure_sequence_slots (required_sequence_slots u) a")
  note q = quiet_ensure [OF b]
  show ?thesis
    using update_changes [OF assms(1,2) act(1) open_act q] active_ends(1) [OF assms(1,2) act(1) open_act q]
      assms(4) act b True
    by (auto simp: handle_turn_update_def turns_unchanged turn_change.ending split: sum.splits)
qed

lemma reconciled_quiet: "turn_view (finish_attach_reconciliation Z u res a) = turn_view a"
  by (auto simp: finish_attach_reconciliation_def Let_def quiet_try quiet_resolve
      split: prod.splits sum.splits attach_reconciliation.splits dest!: quiet_now quiet_needs_input)

lemma worker_changes:
  assumes "compact_failures Z" "history_ok Z a" "\<forall>act. a_active a = Some act \<longrightarrow> open_turn a (at_turn_id act)"
  shows "turn_change Z [] a (handle_worker Z u a)"
  using turn_update_changes [OF assms, of u]
  by (cases u) (auto simp: handle_worker_def reconciled_quiet turns_unchanged)

lemma poll_quiet: "turn_view (poll_startup_screen Z s a) = turn_view a"
  by (auto simp: poll_startup_screen_def quiet_try quiet_resolve split: sum.splits screen.splits prod.splits
      dest!: quiet_needs_input)

lemma attach_quiet:
  "reserve_writable_attach u a = (r, a') \<Longrightarrow> turn_view a' = turn_view a"
  "release_writable_attach u c a = (r', a') \<Longrightarrow> turn_view a' = turn_view a"
  by (auto simp: reserve_writable_attach_def release_writable_attach_def and_then_def refused_def
      split: prod.splits sum.splits option.splits if_splits dest!: quiet_now)

lemma cell_quiet:
  "select_minified_cell a = (r, a') \<Longrightarrow> turn_view a' = turn_view a"
  "clear_and_rebind Z rebound armed expected a = (r', a') \<Longrightarrow> turn_view a' = turn_view a"
  by (auto simp: select_minified_cell_def clear_and_rebind_def poison_after_failed_rebind_def and_then_def refused_def
      Let_def split: prod.splits sum.splits option.splits if_splits dest!: quiet_now quiet_transition)

lemma closing_quiet:
  assumes "close Z closed a = (r, a')" "a_state a \<noteq> SClosed"
  shows "turn_view a' = turn_view (abandon_active (a\<lparr>a_writable_attach := None, a_writable_attach_release_pending := False\<rparr>))"
  using assms
  by (auto simp: close_def and_then_def refused_def Let_def quiet_try split: prod.splits sum.splits if_splits
      dest!: quiet_transition)

lemma close_changes:
  assumes "close Z closed a = (r, a')"
  shows "turn_change Z [] a a'"
proof (cases "a_state a = SClosed")
  case True
  then show ?thesis using assms by (simp add: close_def turns_unchanged)
next
  case False
  let ?b = "a\<lparr>a_writable_attach := None, a_writable_attach_release_pending := False\<rparr>"
  have "abandon_active ?b = abandoned (error_new Cancelled ''session closed while cancellation was pending'') ?b"
    by (simp add: abandon_active_def abandoned_def split: option.splits)
  then have "turn_change Z [] ?b a'" using closing_quiet [OF assms False] by (simp add: turn_change.dropped)
  then show ?thesis by (rule change_from) simp
qed

lemma expire_changes: "expire_idle Z now closed a = (r, a') \<Longrightarrow> turn_change Z [] a a'"
  by (auto simp: expire_idle_def and_then_def refused_def turns_unchanged
      split: prod.splits sum.splits if_splits dest!: close_changes)

lemma cancel_changes: "turn_change Z [w] a (cancel Z turn w a)"
proof -
  define now where "now = (if a_state a \<noteq> SCancelling
     then and_then (ensure_sequence_slots (1 + TERMINAL_SEQUENCE_EVENTS + CLOSE_SEQUENCE_RESERVE))
            (\<lambda>_. transition Z SCancelling None (Some turn)) a
     else (Inr (), a))"
  obtain r b where b: "now = (r, b)" by (cases now)
  have q: "turn_view b = turn_view a"
    using b unfolding now_def
    by (auto simp: and_then_def split: if_splits prod.splits sum.splits dest!: quiet_ensure quiet_transition)
  have answer: "turn_change Z [w] a (answer_waiters [w] ans c)" if "turn_view c = turn_view a" for ans c
    using that by (auto intro!: turn_change.answered simp: turn_view_def turn_effects_def answer_waiters_def)
  have wait: "turn_change Z [w] a (set_off (AbortTurn turn)
        (b\<lparr>a_active := Some (act\<lparr>at_cancel_waiters := at_cancel_waiters act @ [w]\<rparr>)\<rparr>))"
      "turn_change Z [w] a (set_off (RecoverCancelled turn) (set_off (AbortTurn turn)
        (b\<lparr>a_active := Some (act\<lparr>at_cancel_waiters := at_cancel_waiters act @ [w]\<rparr>)\<rparr>)))"
    if "a_active a = Some act" "at_turn_id act = turn" for act
    using q that turn_change.waiting [of a act "[]" _ w Z] turn_change.waiting [of a act "[RecoverCancelled turn]" _ w Z]
    by (auto simp: set_off_def turn_view_def turn_effects_def)
  show ?thesis
    using answer [OF q] answer [OF refl] wait b [unfolded now_def] turn_view_fields(4) [OF q]
    unfolding cancel_def Let_def by (auto split: option.splits sum.splits prod.splits)
qed


lemma start_turn_changes:
  assumes "start_turn Z t prompt at a = (r, a')" "a_active a = None" "bm_get (a_turns a) (tq_turn_id t) = None"
  shows "turn_change Z [] a a'"
proof (cases "ac_turn_history_capacity (a_config a) \<le> bm_len (a_turns a)
    \<or> usize_max < a_turn_history_bytes a + turn_base Z prompt
    \<or> ac_turn_history_byte_capacity (a_config a) < a_turn_history_bytes a + turn_base Z prompt")
  case True
  then show ?thesis
    using assms(1) by (auto simp: start_turn_def refused_def Let_def turn_base_def turns_unchanged split: if_splits)
next
  case False
  let ?r = "\<lparr>rec_prompt_fingerprint = actor_prompt_fingerprint prompt, rec_normalized_prompt = prompt,
    rec_submitted_at_ms = at, rec_terminal = None\<rparr>"
  let ?n = "a_turn_history_bytes a + turn_base Z prompt"
  let ?b = "a\<lparr>a_turn_history_bytes := ?n, a_turns := bm_insert (tq_turn_id t) ?r (a_turns a),
    a_active := Some \<lparr>at_turn_id = tq_turn_id t, at_cancel_waiters = []\<rparr>\<rparr>"
  obtain moved c where c: "transition Z SSubmitting None (Some (tq_turn_id t)) ?b = (moved, c)"
    by (cases "transition Z SSubmitting None (Some (tq_turn_id t)) ?b")
  have start: "start_turn Z t prompt at a = and_then (transition Z SSubmitting None (Some (tq_turn_id t)))
      (\<lambda>_ a'. let b = set_off (StartTurn t at (a_cell a') (a_transcript_session_id a')) a'
         in case a_active b of
              None \<Rightarrow> refused daemon_lost (panic b)
            | Some act \<Rightarrow> (Inr (accepted (at_turn_id act) False (a_next_sequence b) b), b)) ?b"
    using False unfolding start_turn_def Let_def turn_base_def by simp
  have rest: "a' = c \<or> a' = set_off (StartTurn t at (a_cell c) (a_transcript_session_id c)) c"
    using assms(1) c turn_view_fields(4) [OF quiet_transition [OF c]]
    unfolding start by (auto simp: and_then_def Let_def set_off_def split: sum.splits)
  have begin_with: "turn_change Z [] a a'"
    if "es \<in> {[], [StartTurn t at cell sid]}" "turn_view a' = turn_view (?b\<lparr>a_effects := a_effects a @ es\<rparr>)"
    for es cell sid
    using turn_change.started [OF assms(2,3), of ?r ?n Z es at cell sid a'] that False
    by (simp add: turn_bytes_def turn_extra_def)
  show ?thesis
    using rest
  proof
    assume "a' = c"
    then show ?thesis using begin_with [of "[]"] quiet_transition [OF c] by (simp add: turn_view_def turn_effects_def)
  next
    assume "a' = set_off (StartTurn t at (a_cell c) (a_transcript_session_id c)) c"
    then show ?thesis
      using begin_with [of "[StartTurn t at (a_cell c) (a_transcript_session_id c)]"] quiet_transition [OF c]
      by (simp add: turn_view_def turn_effects_def set_off_def)
  qed
qed

lemma admit_changes:
  assumes "admit_turn Z t prompt a = (r, a')" "bm_get (a_turns a) (tq_turn_id t) = None"
  shows "turn_change Z [] a a'"
proof -
  obtain now b where b: "checked_now_ms ''turn_submitted_at'' a = (now, b)"
    by (cases "checked_now_ms ''turn_submitted_at'' a")
  let ?n = "1 + TERMINAL_SEQUENCE_EVENTS + CLOSE_SEQUENCE_RESERVE"
  obtain slots c where c: "ensure_sequence_slots ?n b = (slots, c)" by (cases "ensure_sequence_slots ?n b")
  have q: "turn_view b = turn_view a" "turn_view c = turn_view a" using quiet_now [OF b] quiet_ensure [OF c] by simp_all
  note fields = turn_view_fields [OF q(2)] turn_view_fields(4) [OF q(1)]
  have "turn_view a' = turn_view a
      \<or> (\<exists>at. a_active a = None \<and> start_turn Z t prompt at c = (r, a'))"
    using assms(1) b c q fields
    by (auto simp: admit_turn_def and_then_def refused_def split: prod.splits sum.splits option.splits if_splits)
  then show ?thesis
    using change_from [OF start_turn_changes q(2)] fields assms(2) by (auto simp: turns_unchanged)
qed

lemma submit_changes: "submit Z nfc t a = (r, a') \<Longrightarrow> turn_change Z [] a a'"
  by (auto simp: submit_def replay_turn_def and_then_def refused_def Let_def turns_unchanged
      split: sum.splits option.splits if_splits prod.splits dest!: quiet_ensure quiet_emit dest: admit_changes)

fun cancels :: "actor_message \<Rightarrow> ticket list" where
  "cancels (Cancel t w) = [w]"
| "cancels _ = []"

lemma message_changes:
  assumes "compact_failures Z" "history_ok Z a" "\<forall>act. a_active a = Some act \<longrightarrow> open_turn a (at_turn_id act)"
    "log_ok Z a" "handle_message Z nfc m a = (r, a')"
  shows "turn_change Z (cancels m) a a'"
  using assms(5) snapshot_taken [OF assms(4)]
  by (cases m)
    (auto simp: map_prod_def cancel_changes worker_changes [OF assms(1-3)] turns_unchanged poll_quiet
      attach_quiet cell_quiet split: prod.splits if_splits
      dest: submit_changes close_changes expire_changes cell_quiet attach_quiet)


section \<open>The invariant\<close>

fun answer_of :: "effect \<Rightarrow> ticket list" where
  "answer_of (AnswerCancel w ans) = [w]"
| "answer_of _ = []"

fun start_of :: "effect \<Rightarrow> turn_id list" where
  "start_of (StartTurn t at c sid) = [tq_turn_id t]"
| "start_of _ = []"

text \<open>The cancel requests answered, those that wait, and the turns a worker was started for, in order.\<close>

definition answers :: "actor \<Rightarrow> ticket list" where
  "answers a = concat (map answer_of (a_effects a))"

definition waiters :: "actor \<Rightarrow> ticket list" where
  "waiters a = (case a_active a of None \<Rightarrow> [] | Some act \<Rightarrow> at_cancel_waiters act)"

definition starts :: "actor \<Rightarrow> turn_id list" where
  "starts a = concat (map start_of (a_effects a))"

lemma concat_turns: "(\<And>e. \<not> about_turns e \<Longrightarrow> f e = []) \<Longrightarrow> concat (map f (filter about_turns es)) = concat (map f es)"
  by (induction es) simp_all

lemma not_about_turns: "\<not> about_turns e \<longleftrightarrow> (\<exists>u. e = ReconcileAttach u)"
  by (cases e) simp_all

lemma view_lists:
  "answers a = concat (map answer_of (turn_effects a))" "starts a = concat (map start_of (turn_effects a))"
  by (auto simp: answers_def starts_def turn_effects_def not_about_turns intro!: concat_turns [symmetric])

definition turns_ok :: "sizes \<Rightarrow> ticket list \<Rightarrow> actor \<Rightarrow> bool" where
  "turns_ok Z ws a \<longleftrightarrow> history_ok Z a \<and> \<not> a_panicked a
     \<and> (\<forall>act. a_active a = Some act \<longrightarrow> open_turn a (at_turn_id act))
     \<and> (\<forall>t. open_turn a t \<longrightarrow> map_option at_turn_id (a_active a) = Some t \<or> AbortTurn t \<in> set (turn_effects a))
     \<and> distinct (starts a) \<and> (\<forall>t \<in> set (starts a). bm_get (a_turns a) t \<noteq> None)
     \<and> mset ws = mset (answers a) + mset (waiters a)"

lemma turns_ok_view: "turn_view a' = turn_view a \<Longrightarrow> turns_ok Z ws a' = turns_ok Z ws a"
  by (simp add: turns_ok_def turn_view_def history_ok_def open_turn_def view_lists waiters_def)

lemma answer_lists [simp]:
  "answers (answer_waiters ws ans a) = answers a @ ws" "starts (answer_waiters ws ans a) = starts a"
  by (induction ws) (simp_all add: answers_def starts_def answer_waiters_def)

lemma set_off_lists [simp]:
  "answers (set_off e a) = answers a @ answer_of e" "starts (set_off e a) = starts a @ start_of e"
  by (simp_all add: answers_def starts_def set_off_def)

lemma idle_lists [simp]:
  "answers (a\<lparr>a_active := x\<rparr>) = answers a" "starts (a\<lparr>a_active := x\<rparr>) = starts a"
  by (simp_all add: answers_def starts_def)

lemma ending_keeps:
  assumes "turns_ok Z ws a" "settling Z a a'"
  shows "turns_ok Z ws a'"
proof -
  obtain act ans where act: "a_active a = Some act"
    and s: "settled Z (at_turn_id act) (answer_waiters (at_cancel_waiters act) ans (a\<lparr>a_active := None\<rparr>)) a'"
    using assms(2) by (auto simp: settling_def ended_def)
  let ?b = "answer_waiters (at_cancel_waiters act) ans (a\<lparr>a_active := None\<rparr>)"
  have eff: "turn_effects a' = turn_effects ?b" "a_active a' = None" "a_panicked a' = a_panicked a" "history_ok Z a'"
    using s by (simp_all add: settled_def answer_waiters_def)
  have same: "a_turns ?b = a_turns a" by (simp add: answer_waiters_def)
  obtain r x where r: "bm_get (a_turns a) (at_turn_id act) = Some r"
    "\<And>t. bm_get (a_turns a') t = (if t = at_turn_id act then Some (r\<lparr>rec_terminal := Some x\<rparr>) else bm_get (a_turns a) t)"
    using s unfolding settled_def same by blast
  have lists: "answers a' = answers a @ at_cancel_waiters act" "starts a' = starts a" "waiters a' = []"
    using eff(1,2) by (simp_all add: view_lists(1,2) [of a'] view_lists(1,2) [of ?b, symmetric] waiters_def)
  have opened: "open_turn a' t \<longleftrightarrow> open_turn a t \<and> t \<noteq> at_turn_id act" for t
    by (simp add: open_turn_def r(2))
  have aborted: "set (turn_effects a) \<subseteq> set (turn_effects a')"
    unfolding eff(1) by (auto simp: turn_effects_def answer_waiters_def)
  show ?thesis
    using assms(1) act eff(2-4) lists opened aborted r unfolding turns_ok_def by (auto simp: waiters_def)
qed

lemma abandoned_keeps:
  assumes "turns_ok Z ws a"
  shows "turns_ok Z ws (abandoned e a)"
proof (cases "a_active a")
  case None
  then show ?thesis using assms by (simp add: abandoned_def)
next
  case (Some act)
  let ?b = "answer_waiters (at_cancel_waiters act) (Inl e) (set_off (AbortTurn (at_turn_id act)) (a\<lparr>a_active := None\<rparr>))"
  have "set (turn_effects ?b) = insert (AbortTurn (at_turn_id act)) (set (turn_effects a)
      \<union> (\<lambda>w. AnswerCancel w (Inl e)) ` set (at_cancel_waiters act))"
    by (auto simp: turn_effects_def answer_waiters_def set_off_def)
  moreover have "history_ok Z ?b = history_ok Z a" "a_active ?b = None" "a_turns ?b = a_turns a" "a_panicked ?b = a_panicked a"
    by (simp_all add: history_ok_def answer_waiters_def set_off_def)
  ultimately show ?thesis
    using assms Some unfolding turns_ok_def by (auto simp: abandoned_def open_turn_def waiters_def)
qed

lemma waiting_keeps:
  assumes "turns_ok Z ws a" "a_active a = Some act" "es \<in> {[], [RecoverCancelled (at_turn_id act)]}"
  shows "turns_ok Z (ws @ [w]) (a\<lparr>a_active := Some (act\<lparr>at_cancel_waiters := at_cancel_waiters act @ [w]\<rparr>),
      a_effects := a_effects a @ AbortTurn (at_turn_id act) # es\<rparr>)"
  using assms
  by (auto simp: turns_ok_def open_turn_def waiters_def answers_def starts_def history_ok_def turn_effects_def)

lemma started_keeps:
  assumes "turns_ok Z ws a" "a_active a = None" "bm_get (a_turns a) (tq_turn_id t) = None" "rec_terminal r = None"
    "n = a_turn_history_bytes a + turn_bytes Z r" "n \<le> usize_max" "n \<le> ac_turn_history_byte_capacity (a_config a)"
    "bm_len (a_turns a) < ac_turn_history_capacity (a_config a)" "es \<in> {[], [StartTurn t at c sid]}"
  shows "turns_ok Z ws (a\<lparr>a_turn_history_bytes := n, a_turns := bm_insert (tq_turn_id t) r (a_turns a),
      a_active := Some \<lparr>at_turn_id = tq_turn_id t, at_cancel_waiters = []\<rparr>, a_effects := a_effects a @ es\<rparr>)"
    (is "turns_ok Z ws ?b")
proof -
  have "history_sum Z (bm_insert (tq_turn_id t) r (a_turns a)) = history_sum Z (a_turns a) + turn_bytes Z r"
    by (rule history_sum_new [OF assms(3)])
  then have hist: "history_ok Z ?b"
    using assms by (simp add: turns_ok_def history_ok_def bm_len_insert bm_contains_def)
  have "tq_turn_id t \<notin> set (starts a)" using assms(1,3) by (auto simp: turns_ok_def)
  then have lists: "distinct (starts ?b)" "set (starts ?b) \<subseteq> insert (tq_turn_id t) (set (starts a))"
    "answers ?b = answers a" "waiters ?b = waiters a"
    using assms by (auto simp: turns_ok_def starts_def answers_def waiters_def)
  have opened: "open_turn ?b x \<longleftrightarrow> open_turn a x \<or> x = tq_turn_id t" for x
    using assms(3,4) by (auto simp: open_turn_def)
  show ?thesis
    using assms(1,2) hist lists opened unfolding turns_ok_def by (auto simp: turn_effects_def)
qed

lemma change_keeps:
  assumes "turn_change Z xs a a'" "turns_ok Z ws a"
  shows "turns_ok Z (ws @ xs) a'"
  using assms(1)
proof cases
  case unchanged
  then show ?thesis using turns_ok_view [OF unchanged(2)] assms(2) by simp
next
  case (answered w ans)
  have "turns_ok Z (ws @ [w]) (answer_waiters [w] ans a)"
    using assms(2)
    by (auto simp: turns_ok_def waiters_def history_ok_def open_turn_def answers_def starts_def turn_effects_def
        answer_waiters_def)
  then show ?thesis using turns_ok_view [OF answered(2)] answered(1) by simp
next
  case (waiting act es w)
  then show ?thesis using turns_ok_view [OF waiting(4)] waiting_keeps [OF assms(2) waiting(2,3)] by simp
next
  case ending
  then show ?thesis using ending_keeps [OF assms(2)] by simp
next
  case (dropped e)
  then show ?thesis using turns_ok_view [OF dropped(2)] abandoned_keeps [OF assms(2)] by simp
next
  case (started t r n es at c sid)
  then show ?thesis using turns_ok_view [OF started(10)] started_keeps [OF assms(2) started(2-9)] by simp
qed


section \<open>Runs\<close>

lemma change_final:
  assumes "turn_change Z xs a a'" "turns_ok Z ws a" "bm_get (a_turns a) t = Some r" "rec_terminal r \<noteq> None"
  shows "bm_get (a_turns a') t = Some r"
  using assms(1)
proof cases
  case ending
  then obtain act ans where act: "a_active a = Some act"
    and s: "settled Z (at_turn_id act) (answer_waiters (at_cancel_waiters act) ans (a\<lparr>a_active := None\<rparr>)) a'"
    by (auto simp: settling_def ended_def)
  have "open_turn a (at_turn_id act)" using assms(2) act by (simp add: turns_ok_def)
  then have "t \<noteq> at_turn_id act" using assms(3,4) by (auto simp: open_turn_def)
  then show ?thesis using s assms(3) by (auto simp: settled_def answer_waiters_def)
next
  case (dropped e)
  then show ?thesis
    using assms(3) turn_view_fields(2) [OF dropped(2)]
    by (simp add: abandoned_def answer_waiters_def set_off_def split: option.splits)
qed (use assms(3) in \<open>auto simp: answer_waiters_def dest!: turn_view_fields(2)\<close>)

text \<open>The cancel requests of a run that reach the actor: none does once the loop has ended.\<close>

fun received :: "sizes \<Rightarrow> (utext \<Rightarrow> utext) \<Rightarrow> actor_message list \<Rightarrow> actor \<Rightarrow> ticket list" where
  "received Z nfc [] a = []"
| "received Z nfc (m # ms) a =
     (if a_state a = SClosed then [] else cancels m) @ received Z nfc ms (actor_step Z nfc m a)"

lemma step_changes:
  assumes "compact_failures Z" "turns_ok Z ws a" "log_ok Z a"
  obtains b where "turn_change Z (if a_state a = SClosed then [] else cancels m) a b"
    "turn_change Z [] b (actor_step Z nfc m a)"
proof (cases "a_state a = SClosed")
  case True
  then show ?thesis using that [of a] by (simp add: actor_step_def turns_unchanged)
next
  case False
  obtain r b where b: "handle_message Z nfc m a = (r, b)" by (cases "handle_message Z nfc m a")
  have "turn_change Z (cancels m) a b"
    using message_changes [OF assms(1) _ _ assms(3) b] assms(2) by (simp add: turns_ok_def)
  moreover have "drop_active (set_off (AbortTurn (at_turn_id act)) b) = abandoned daemon_lost b"
    if "a_active b = Some act" for act
    using that by (simp add: drop_active_def abandoned_def set_off_def answer_waiters_def)
  then have "turn_change Z [] b (actor_step Z nfc m a)"
    using False b turn_change.dropped [of _ daemon_lost b Z]
    by (auto simp: actor_step_def Let_def turns_unchanged split: option.splits)
  ultimately show ?thesis using that False by simp
qed

lemma step_keeps:
  assumes "compact_failures Z" "turns_ok Z ws a" "log_ok Z a"
  shows "turns_ok Z (ws @ (if a_state a = SClosed then [] else cancels m)) (actor_step Z nfc m a)"
proof -
  obtain b where b: "turn_change Z (if a_state a = SClosed then [] else cancels m) a b"
    "turn_change Z [] b (actor_step Z nfc m a)"
    using step_changes [OF assms] .
  show ?thesis using change_keeps [OF b(2) change_keeps [OF b(1) assms(2)]] by simp
qed

lemma step_final:
  assumes "compact_failures Z" "turns_ok Z ws a" "log_ok Z a" "bm_get (a_turns a) t = Some r" "rec_terminal r \<noteq> None"
  shows "bm_get (a_turns (actor_step Z nfc m a)) t = Some r"
proof -
  obtain b where b: "turn_change Z (if a_state a = SClosed then [] else cancels m) a b"
    "turn_change Z [] b (actor_step Z nfc m a)"
    using step_changes [OF assms(1-3)] .
  show ?thesis
    by (rule change_final [OF b(2) change_keeps [OF b(1) assms(2)] change_final [OF b(1) assms(2,4,5)] assms(5)])
qed

lemma run_keeps:
  assumes "compact_failures Z" "turns_ok Z ws a" "log_ok Z a"
  shows "turns_ok Z (ws @ received Z nfc ms a) (actor_run Z nfc ms a)"
  using assms(2,3)
proof (induction ms arbitrary: ws a)
  case (Cons m ms)
  show ?case
    using Cons.IH [OF step_keeps [OF assms(1) Cons.prems] shape.keeps_step [OF Cons.prems(2)]] by (simp add: actor_run_def)
qed (simp add: actor_run_def)

lemma run_final:
  assumes "compact_failures Z" "turns_ok Z ws a" "log_ok Z a" "bm_get (a_turns a) t = Some r" "rec_terminal r \<noteq> None"
  shows "bm_get (a_turns (actor_run Z nfc ms a)) t = Some r"
  using assms(2-4)
proof (induction ms arbitrary: ws a)
  case (Cons m ms)
  show ?case
    using Cons.IH [OF step_keeps [OF assms(1) Cons.prems(1,2)] shape.keeps_step [OF Cons.prems(2)]
        step_final [OF assms(1) Cons.prems assms(5)]]
    by (simp add: actor_run_def)
qed (simp add: actor_run_def)

lemma closed_step:
  "(a_state a = SClosed \<longrightarrow> a_active a = None) \<Longrightarrow>
     a_state (actor_step Z nfc m a) = SClosed \<longrightarrow> a_active (actor_step Z nfc m a) = None"
  by (auto simp: actor_step_def Let_def drop_active_def answer_waiters_def split: option.splits)

lemma closed_run:
  "(a_state a = SClosed \<longrightarrow> a_active a = None) \<Longrightarrow>
     a_state (actor_run Z nfc ms a) = SClosed \<longrightarrow> a_active (actor_run Z nfc ms a) = None"
  by (induction ms arbitrary: a) (simp_all add: actor_run_def closed_step)

lemma start_turns:
  assumes "actor_start Z a"
  shows "turns_ok Z [] a" "a_active a = None"
proof -
  obtain i cfg clk instants h where "spawn_actor Z i cfg clk instants = Inr (a, h)"
    using assms by (auto simp: actor_start_def)
  then obtain now mid where "turn_view mid = turn_view (fresh_actor i cfg clk instants now)" "turn_view a = turn_view mid"
    by (auto elim!: spawn_cases dest!: quiet_transition quiet_needs_input)
  then have q: "turn_view a = turn_view (fresh_actor i cfg clk instants now)" by simp
  have "turns_ok Z [] (fresh_actor i cfg clk instants now)"
    by (simp add: turns_ok_def fresh_actor_def history_ok_def history_sum_def open_turn_def answers_def starts_def
        waiters_def)
  then show "turns_ok Z [] a" using turns_ok_view [OF q] by simp
  show "a_active a = None" using turn_view_fields(4) [OF q] by (simp add: fresh_actor_def)
qed

lemma session_turns:
  assumes "compact_failures Z" "actor_start Z a0"
  shows "turns_ok Z (received Z nfc ms a0) (actor_run Z nfc ms a0)"
  using run_keeps [OF assms(1) start_turns(1) [OF assms(2)] start_log_ok [OF assms(2)]] by simp

end
