(* ===== verification/SessionTurns.thy ===== *)
theory SessionTurns
  imports Subscription ActorTurns
begin

text \<open>
  What a session promises about its turns, over any sequence of messages from the moment it starts: an id
  runs at most once and its outcome is final, a cancel request is answered exactly once, and what a
  session keeps in memory is bounded.
\<close>

text \<open>C9: A turn id is run at most once in a session and its outcome never changes. A worker is started at most
  once for an id, however often the id is submitted; a turn that has an outcome keeps exactly that record
  whatever is received afterwards; and a turn without one is the active turn or has had its worker told to
  abort.\<close>
theorem a_turn_runs_once:
  assumes "compact_failures Z" "actor_start Z a0" "a = actor_run Z nfc ms a0"
  shows "distinct (starts a) \<and> (\<forall>t \<in> set (starts a). bm_get (a_turns a) t \<noteq> None)
    \<and> (\<forall>t r. bm_get (a_turns a) t = Some r \<and> rec_terminal r \<noteq> None \<longrightarrow>
         (\<forall>later. bm_get (a_turns (actor_run Z nfc later a)) t = Some r))
    \<and> (\<forall>t r. bm_get (a_turns a) t = Some r \<and> rec_terminal r = None \<longrightarrow>
         map_option at_turn_id (a_active a) = Some t \<or> AbortTurn t \<in> set (a_effects a))"
proof -
  have ok: "turns_ok Z (received Z nfc ms a0) a" using session_turns [OF assms(1,2)] by (simp add: assms(3))
  have "set (turn_effects a) \<subseteq> set (a_effects a)" by (auto simp: turn_effects_def)
  then show ?thesis using ok run_final [OF assms(1) ok started_log [OF assms(2,3)]] by (fastforce simp: turns_ok_def open_turn_def)
qed

text \<open>C10: A cancel request is answered exactly once. The requests a session has received are the answers it has
  sent and the requests that still wait, as multisets; a request waits only while a turn without an outcome
  is active, and none waits once the session is closed.\<close>
theorem every_cancel_is_answered_once:
  assumes "compact_failures Z" "actor_start Z a0" "a = actor_run Z nfc ms a0"
  shows "mset (received Z nfc ms a0) = mset (answers a) + mset (waiters a)
    \<and> (waiters a \<noteq> [] \<longrightarrow> (\<exists>act. a_active a = Some act \<and> open_turn a (at_turn_id act)))
    \<and> (a_state a = SClosed \<longrightarrow> waiters a = [])"
proof -
  have ok: "turns_ok Z (received Z nfc ms a0) a" using session_turns [OF assms(1,2)] by (simp add: assms(3))
  have "a_state a = SClosed \<longrightarrow> a_active a = None"
    unfolding assms(3) by (rule closed_run) (simp add: start_turns(2) [OF assms(2)])
  then show ?thesis using ok by (auto simp: turns_ok_def waiters_def split: option.splits)
qed

text \<open>C18: What a session keeps in memory is bounded. The turns and their bytes stay within the configured history,
  the byte count is exactly what the records account for, the replay ring stays within its two capacities, and
  none of the eight \<open>expect\<close>s of the actor has failed: the one when it is spawned, those on the active turn
  when it is submitted, cancelled, completed and recovered, the one on the room reserved for a failure, and the two of
  a snapshot.\<close>
theorem session_memory_is_bounded:
  assumes "compact_failures Z" "actor_start Z a0" "a = actor_run Z nfc ms a0"
  shows "bm_len (a_turns a) \<le> ac_turn_history_capacity (a_config a)
    \<and> a_turn_history_bytes a \<le> ac_turn_history_byte_capacity (a_config a)
    \<and> a_turn_history_bytes a = history_sum Z (a_turns a)
    \<and> length (a_replay a) \<le> ac_replay_capacity (a_config a)
    \<and> a_replay_bytes a \<le> ac_replay_byte_capacity (a_config a)
    \<and> a_replay_bytes a = sum_list (map (\<lambda>r. z_event Z (rp_event r)) (a_replay a))
    \<and> \<not> a_panicked a"
proof -
  have ok: "turns_ok Z (received Z nfc ms a0) a" using session_turns [OF assms(1,2)] by (simp add: assms(3))
  have log: "log_ok Z a" by (rule started_log [OF assms(2,3)])
  then have "sum_list (map rp_encoded_bytes (a_replay a)) = sum_list (map (\<lambda>r. z_event Z (rp_event r)) (a_replay a))"
    by (intro arg_cong [where f = sum_list] map_cong) (auto simp: log_ok_def)
  then show ?thesis using ok log unfolding turns_ok_def history_ok_def log_ok_def by simp
qed

section \<open>A concrete session\<close>

lemma sample_compact: "compact_failures sample_sizes"
  by (simp add: compact_failures_def sample_sizes_def TERMINAL_FAILURE_RESERVE_BYTES_def)

text \<open>A turn is submitted, cancelled twice, recovered, and submitted again.\<close>

definition sample_messages :: "actor_message list" where
  "sample_messages = [Submit sample_request, Cancel ''t1'' 1, Cancel ''t1'' 2,
     Worker (WCancelled ''t1'' CancelDone True 2000 False), Submit sample_request]"


definition sample_cancelled :: actor where
  "sample_cancelled = actor_run sample_sizes id (butlast sample_messages) sample_actor"

definition sample_outcome :: "stored_turn_terminal option" where
  "sample_outcome = Option.bind (bm_get (a_turns sample_cancelled) ''t1'') rec_terminal"

theorem a_turn_runs_once_witness:
  "starts sample_cancelled = [''t1''] \<and> sample_outcome \<noteq> None
   \<and> Option.bind (bm_get (a_turns (actor_run sample_sizes id [Submit sample_request] sample_cancelled)) ''t1'')
       rec_terminal = sample_outcome"
proof -
  note once = a_turn_runs_once [OF sample_compact sample_start sample_cancelled_def]
  have stored: "sample_outcome \<noteq> None" by code_simp
  then obtain r where r: "bm_get (a_turns sample_cancelled) ''t1'' = Some r" "rec_terminal r \<noteq> None"
    by (cases "bm_get (a_turns sample_cancelled) ''t1''") (auto simp: sample_outcome_def)
  then have "bm_get (a_turns (actor_run sample_sizes id [Submit sample_request] sample_cancelled)) ''t1'' = Some r"
    using once by blast
  moreover have "starts sample_cancelled = [''t1'']" by code_simp
  ultimately show ?thesis using stored r by (simp add: sample_outcome_def)
qed

definition sample_waiting :: actor where
  "sample_waiting = actor_run sample_sizes id (take 3 sample_messages) sample_actor"

theorem every_cancel_is_answered_once_witness:
  "mset [1, 2] = mset (answers sample_waiting) + mset (waiters sample_waiting) \<and> waiters sample_waiting = [1, 2]
   \<and> answers (actor_run sample_sizes id sample_messages sample_actor) = [1, 2]"
proof -
  have "received sample_sizes id (take 3 sample_messages) sample_actor = [1, 2]" by code_simp
  moreover have "waiters sample_waiting = [1, 2]" by code_simp
  moreover have "answers (actor_run sample_sizes id sample_messages sample_actor) = [1, 2]" by code_simp
  ultimately show ?thesis
    using every_cancel_is_answered_once [OF sample_compact sample_start sample_waiting_def] by simp
qed

theorem session_memory_is_bounded_witness:
  "a_turn_history_bytes sample_cancelled = history_sum sample_sizes (a_turns sample_cancelled)
   \<and> bm_len (a_turns sample_cancelled) = 1 \<and> \<not> a_panicked sample_cancelled"
proof -
  have "bm_len (a_turns sample_cancelled) = 1" by code_simp
  then show ?thesis
    using session_memory_is_bounded [OF sample_compact sample_start sample_cancelled_def] by simp
qed


section \<open>A refused turn that stays\<close>

text \<open>
  A turn whose first event cannot be stamped is refused, yet its id is taken and it stays the active turn
  although no worker was started for it: the next turn finds the session busy.
\<close>

definition skewed_actor :: actor where
  "skewed_actor = fst (projr (spawn_actor sample_sizes sample_init actor_config_default
     (\<lambda>n. if n = 5 then MAX_SAFE_JSON_INTEGER + 1 else 1000 + n) id))"

lemma refused_turn_stays_active:
  "isl (fst (submit sample_sizes id sample_request skewed_actor))
   \<and> (let a = snd (submit sample_sizes id sample_request skewed_actor)
      in map_option at_turn_id (a_active a) = Some ''t1'' \<and> starts a = [] \<and> a_state a = SReady
         \<and> code (projl (fst (submit sample_sizes id (sample_request\<lparr>tq_turn_id := ''t2''\<rparr>) a))) = SessionBusy)"
  by code_simp

end
