(* ===== verification/Registry.thy ===== *)
theory Registry
  imports SessionTurns
begin

text \<open>
  The registry of sessions (\<open>src/crates/service/src/v1/registry.rs\<close>) and the handle through which it
  reaches a session's actor (\<open>SessionActorHandle\<close> in \<open>v1/actor.rs\<close>). A session belongs to a caller or to
  the pool; the methods a wire client has reach the former only.
\<close>

section \<open>The handle\<close>

text \<open>
  A command is sent to the actor's queue and its answer awaited; both fail once the loop has ended. A
  cancel request is answered later, under its ticket.
\<close>

definition ask ::
  "sizes \<Rightarrow> (utext \<Rightarrow> utext) \<Rightarrow> actor_message \<Rightarrow> actor \<Rightarrow> (error_body + actor_reply) \<times> actor" where
  "ask Z nfc m a =
     (if a_state a = SClosed then (Inl daemon_lost, a)
      else (Inr (fst (handle_message Z nfc m a)), actor_step Z nfc m a))"

text \<open>
  A long poll. \<open>before\<close> is what the actor handles between the first poll and the look at the published
  sequence, \<open>during\<close> what it handles until the wait ends; the channel of the sequence closes with the loop.
\<close>

definition ask_events ::
  "sizes \<Rightarrow> (utext \<Rightarrow> utext) \<Rightarrow> actor_message list \<Rightarrow> actor_message list \<Rightarrow> u64 \<Rightarrow> u64 \<Rightarrow> u32 \<Rightarrow> actor \<Rightarrow>
     (error_body + actor_reply) \<times> actor" where
  "ask_events Z nfc before during after wait n a =
     (case ask Z nfc (Events after n) a of
        (Inr (EventsReply (Inr batch)), a1) \<Rightarrow>
          if wait = 0 \<or> eb_events batch \<noteq> [] \<or> eb_replay_gap batch \<noteq> None then (Inr (EventsReply (Inr batch)), a1)
          else
            (let a2 = actor_run Z nfc before a1; a3 = actor_run Z nfc during a2
             in if after < a_sequence a2 \<or> a_sequence a3 \<noteq> a_sequence a2 \<or> a_state a3 = SClosed
                then ask Z nfc (Events after n) a3
                else (Inr (EventsReply (Inr batch)), a3))
      | answer \<Rightarrow> answer)"

section \<open>The registry\<close>

datatype session_owner = Caller | Pool

record session_registration =
  sr_owner :: session_owner
  sr_init :: actor_init

record session_registry =
  rs_actors :: "session_id \<rightharpoonup> session_owner \<times> actor"
  rs_config :: actor_config

definition registry_new :: "actor_config \<Rightarrow> session_registry" where
  "registry_new cfg = \<lparr>rs_actors = Map.empty, rs_config = cfg\<rparr>"

definition stale_generation :: "session_id \<Rightarrow> generation_id \<Rightarrow> error_body" where
  "stale_generation sid requested =
     with_details (json_object [(''requested_generation_id'', JString requested)])
       (error_new StaleSessionGeneration
          (''session '' @ sid @ '' no longer refers to the requested process generation''))"

definition not_registered :: "session_id \<Rightarrow> error_body" where
  "not_registered sid = error_new SessionNotFound (''session '' @ sid @ '' is not registered'')"

definition actor_owned ::
  "session_id \<Rightarrow> generation_id \<Rightarrow> session_owner \<Rightarrow> session_registry \<Rightarrow> error_body + actor" where
  "actor_owned sid gen expected r =
     (case rs_actors r sid of
        None \<Rightarrow> Inl (not_registered sid)
      | Some (owner, a) \<Rightarrow>
          if owner \<noteq> expected then Inl (not_registered sid)
          else if a_generation_id a \<noteq> gen then Inl (stale_generation sid gen)
          else Inr a)"

definition validate_v1_terminal_support :: "terminal_profile \<Rightarrow> input_transport \<Rightarrow> error_body + unit" where
  "validate_v1_terminal_support profile transport =
     (if profile = RmuxStandard then
        Inl (error_new UnsupportedFeature
          ''rmux-standard terminal identity is reserved and is not implemented in protocol v1'')
      else if transport = AttachedStream then
        Inl (error_new UnsupportedFeature
          ''attached-stream prompt injection is reserved and is not implemented in protocol v1'')
      else Inr ())"

definition validate_registration_domain :: "actor_init \<Rightarrow> error_body + unit" where
  "validate_registration_domain i =
     (if \<not> compatibility_serializable (in_compatibility i) then
        Inl (error_new InvalidConfig ''session compatibility is outside the protocol-v1 wire domain'')
      else bind_r (validate_v1_terminal_support (cr_terminal_profile (in_compatibility i))
                     (cr_input_transport (in_compatibility i))) (\<lambda>_.
        if \<not> safe_opt (in_idle_ttl_ms i) then
          Inl (error_new InvalidConfig ''session idle TTL is outside the protocol-v1 safe-integer domain'')
        else case in_initial_needs_input i of
          None \<Rightarrow> Inr ()
        | Some ni \<Rightarrow>
            if json_serializable (ni_details ni) then Inr ()
            else Inl (error_new InvalidConfig
              ''initial needs-input state is outside the protocol-v1 wire domain'')))"

text \<open>\<open>proven\<close> is the transcript's answer to \<open>assert_empty_at_launch\<close>, asked of a minified cell only.\<close>

definition register ::
  "sizes \<Rightarrow> (nat \<Rightarrow> timestamp_ms) \<Rightarrow> (nat \<Rightarrow> nat) \<Rightarrow> error_body + unit \<Rightarrow> session_registration \<Rightarrow>
     session_registry \<Rightarrow> (error_body + session_handle) \<times> session_registry" where
  "register Z clk instants proven reg r =
     (let i = sr_init reg; sid = in_session_id i
      in case bind_r (validate_registration_domain i) (\<lambda>_.
                if in_cell i = Minified
                then bind_r (require_tested_for_minified_cell (in_compatibility i)) (\<lambda>_. proven)
                else Inr ()) of
           Inl e \<Rightarrow> (Inl e, r)
         | Inr _ \<Rightarrow>
             if rs_actors r sid \<noteq> None then
               (Inl (error_new IdCollision (''session '' @ sid @ '' is already registered'')), r)
             else (case spawn_actor Z i (rs_config r) clk instants of
                Inl e \<Rightarrow> (Inl e, r)
              | Inr (a, h) \<Rightarrow> (Inr h, r\<lparr>rs_actors := (rs_actors r)(sid \<mapsto> (sr_owner reg, a))\<rparr>)))"

definition unregister :: "session_id \<Rightarrow> generation_id \<Rightarrow> session_registry \<Rightarrow> (error_body + unit) \<times> session_registry" where
  "unregister sid gen r =
     (case rs_actors r sid of
        None \<Rightarrow> (Inr (), r)
      | Some (_, a) \<Rightarrow>
          if a_generation_id a \<noteq> gen then (Inl (stale_generation sid gen), r)
          else (Inr (), r\<lparr>rs_actors := (rs_actors r)(sid := None)\<rparr>))"

definition with_owned ::
  "session_owner \<Rightarrow> session_id \<Rightarrow> generation_id \<Rightarrow> (actor \<Rightarrow> (error_body + actor_reply) \<times> actor) \<Rightarrow>
     session_registry \<Rightarrow> (error_body + actor_reply) \<times> session_registry" where
  "with_owned owner sid gen f r =
     (case actor_owned sid gen owner r of
        Inl e \<Rightarrow> (Inl e, r)
      | Inr a \<Rightarrow> (case f a of (reply, a') \<Rightarrow> (reply, r\<lparr>rs_actors := (rs_actors r)(sid \<mapsto> (owner, a'))\<rparr>)))"

definition validate_event_subscription_request :: "subscribe_events_request \<Rightarrow> error_body + unit" where
  "validate_event_subscription_request q =
     (if \<not> subscription_serializable q then
        Inl (error_new InvalidConfig ''event subscription cannot be represented within protocol v1'')
      else if MAX_SUBSCRIBE_WAIT_MS < se_wait_ms q \<or> MAX_SUBSCRIBE_EVENTS < se_max_events q then
        Inl (error_new InvalidConfig ''event subscription exceeds the public wait or batch bound'')
      else Inr ())"

text \<open>The session-addressed methods, each with the answers the terminal gives while it runs.\<close>

datatype session_call =
    RunTurn turn_request
  | CancelTurn turn_id ticket
  | InspectSession
  | CloseSession close_policy "error_body + bool"
  | ReserveAttach uuid
  | ReleaseAttach uuid attach_completion
  | LookUpTurn turn_id
  | ExpireSession timestamp_ms "error_body + bool"

fun call_message :: "session_call \<Rightarrow> actor_message" where
  "call_message (RunTurn t) = Submit t"
| "call_message (CancelTurn t w) = Cancel t w"
| "call_message InspectSession = Snapshot"
| "call_message (CloseSession policy closed) = Close policy closed"
| "call_message (ReserveAttach u) = ReserveWritableAttach u"
| "call_message (ReleaseAttach u c) = ReleaseWritableAttach u c"
| "call_message (LookUpTurn t) = StoredTurn t"
| "call_message (ExpireSession now closed) = ExpireIdle now closed"

definition session_method ::
  "sizes \<Rightarrow> (utext \<Rightarrow> utext) \<Rightarrow> session_id \<Rightarrow> generation_id \<Rightarrow> session_call \<Rightarrow> session_registry \<Rightarrow>
     (error_body + actor_reply) \<times> session_registry" where
  "session_method Z nfc sid gen c = with_owned Caller sid gen (ask Z nfc (call_message c))"

definition registry_events ::
  "sizes \<Rightarrow> (utext \<Rightarrow> utext) \<Rightarrow> actor_message list \<Rightarrow> actor_message list \<Rightarrow> subscribe_events_request \<Rightarrow>
     session_registry \<Rightarrow> (error_body + actor_reply) \<times> session_registry" where
  "registry_events Z nfc before during q r =
     (case validate_event_subscription_request q of
        Inl e \<Rightarrow> (Inl e, r)
      | Inr _ \<Rightarrow> with_owned Caller (se_session_id q) (se_generation_id q)
          (ask_events Z nfc before during (se_after_sequence q) (se_wait_ms q) (se_max_events q)) r)"

text \<open>The pool's own methods, and what its workers and screens report to an actor it has.\<close>

definition pool_method ::
  "sizes \<Rightarrow> (utext \<Rightarrow> utext) \<Rightarrow> session_id \<Rightarrow> generation_id \<Rightarrow> actor_message \<Rightarrow> session_registry \<Rightarrow>
     (error_body + actor_reply) \<times> session_registry" where
  "pool_method Z nfc sid gen m = with_owned Pool sid gen (ask Z nfc m)"

definition registry_report ::
  "sizes \<Rightarrow> (utext \<Rightarrow> utext) \<Rightarrow> session_id \<Rightarrow> actor_message \<Rightarrow> session_registry \<Rightarrow> session_registry" where
  "registry_report Z nfc sid m r =
     (case rs_actors r sid of
        None \<Rightarrow> r
      | Some (owner, a) \<Rightarrow> r\<lparr>rs_actors := (rs_actors r)(sid \<mapsto> (owner, actor_step Z nfc m a))\<rparr>)"


section \<open>Every session stays sound\<close>

interpretation named: log_property "\<lambda>a. a_session_id a = sid \<and> a_generation_id a = gen" Z for sid gen Z
  by unfold_locales (auto simp: log_view_def publish_event_def split: prod.splits)

definition sound :: "sizes \<Rightarrow> session_id \<Rightarrow> actor \<Rightarrow> bool" where
  "sound Z sid a \<longleftrightarrow> a_session_id a = sid \<and> log_ok Z a \<and> a_emitted a \<noteq> [] \<and> (\<exists>ws. turns_ok Z ws a)
     \<and> (a_state a = SClosed \<longrightarrow> a_active a = None)"

lemma sound_start: "spawn_actor Z i cfg clk instants = Inr (a, h) \<Longrightarrow> sound Z (in_session_id i) a"
proof -
  assume spawn: "spawn_actor Z i cfg clk instants = Inr (a, h)"
  then have start: "actor_start Z a" unfolding actor_start_def by blast
  have "a_session_id a = in_session_id i \<and> a_generation_id a = in_generation_id i"
    using spawn
    by (auto elim!: spawn_cases dest!: named.keeps_transition named.keeps_set_needs_input simp: fresh_actor_def)
  then show ?thesis
    using start_log_ok [OF start] start_emits [OF start] start_turns [OF start] by (auto simp: sound_def)
qed

lemma sound_step:
  assumes "compact_failures Z" "sound Z sid a"
  shows "sound Z sid (actor_step Z nfc m a)"
proof -
  obtain ws where ws: "turns_ok Z ws a" using assms(2) by (auto simp: sound_def)
  have "a_session_id (actor_step Z nfc m a) = sid"
    using named.keeps_step [of a sid "a_generation_id a" Z nfc m] assms(2) by (simp add: sound_def)
  moreover have "a_emitted (actor_step Z nfc m a) \<noteq> []"
    using append_only.keeps_step [of "a_emitted a" a Z nfc m] assms(2) by (auto simp: sound_def)
  ultimately show ?thesis
    using assms(2) shape.keeps_step [of Z a nfc m] step_keeps [OF assms(1) ws _, of m nfc] closed_step [of a Z nfc m]
    by (auto simp: sound_def)
qed

lemma sound_run: "compact_failures Z \<Longrightarrow> sound Z sid a \<Longrightarrow> sound Z sid (actor_run Z nfc ms a)"
  by (induction ms arbitrary: a) (simp_all add: actor_run_def sound_step)

lemma sound_ask: "compact_failures Z \<Longrightarrow> sound Z sid a \<Longrightarrow> sound Z sid (snd (ask Z nfc m a))"
  by (simp add: ask_def sound_step)

lemma ask_events_runs: "\<exists>ms. snd (ask_events Z nfc before during after wait n a) = actor_run Z nfc ms a"
proof -
  let ?e = "Events after n"
  have asked: "snd (ask Z nfc m b) = actor_run Z nfc [m] b" for m b
    by (simp add: ask_def actor_run_def actor_step_def)
  have runs: "actor_run Z nfc ys (actor_run Z nfc xs b) = actor_run Z nfc (xs @ ys) b" for xs ys b
    by (simp add: actor_run_def)
  obtain r a1 where one: "ask Z nfc ?e a = (r, a1)" by (cases "ask Z nfc ?e a")
  have a1: "a1 = actor_run Z nfc [?e] a" using asked [of ?e a] one by simp
  have "snd (ask_events Z nfc before during after wait n a) \<in> {a1, actor_run Z nfc during (actor_run Z nfc before a1),
      actor_run Z nfc [?e] (actor_run Z nfc during (actor_run Z nfc before a1))}"
    using one asked by (auto simp: ask_events_def Let_def split: sum.splits actor_reply.splits)
  then show ?thesis unfolding a1 runs by blast
qed

definition registry_sound :: "sizes \<Rightarrow> session_registry \<Rightarrow> bool" where
  "registry_sound Z r \<longleftrightarrow> (\<forall>sid o' a. rs_actors r sid = Some (o', a) \<longrightarrow> sound Z sid a)"

lemma with_owned_sound:
  assumes "registry_sound Z r" "\<And>a. sound Z sid a \<Longrightarrow> sound Z sid (snd (f a))"
  shows "registry_sound Z (snd (with_owned owner sid gen f r))"
  using assms
  by (auto simp: registry_sound_def with_owned_def actor_owned_def split: sum.splits prod.splits option.splits if_splits)
    (metis snd_conv)+

lemma register_sound: "registry_sound Z r \<Longrightarrow> registry_sound Z (snd (register Z clk instants proven reg r))"
  by (auto simp: registry_sound_def register_def Let_def sound_start split: sum.splits)

lemma unregister_sound: "registry_sound Z r \<Longrightarrow> registry_sound Z (snd (unregister sid gen r))"
  by (auto simp: registry_sound_def unregister_def split: option.splits)

lemma report_sound:
  "compact_failures Z \<Longrightarrow> registry_sound Z r \<Longrightarrow> registry_sound Z (registry_report Z nfc sid m r)"
  by (auto simp: registry_sound_def registry_report_def sound_step split: option.splits)

section \<open>Sequences of operations\<close>

text \<open>
  What happens to a registry. Sessions are registered and unregistered on behalf of callers and of the pool; a caller
  has its methods, the pool drives its own sessions; the actors of both hear from their workers and screens.
\<close>

datatype registry_event =
    CallerRegister "nat \<Rightarrow> timestamp_ms" "nat \<Rightarrow> nat" "error_body + unit" actor_init
  | ByCaller session_id generation_id session_call
  | CallerEvents "actor_message list" "actor_message list" subscribe_events_request
  | CallerReport session_id actor_message
  | CallerUnregister session_id generation_id
  | PoolRegister "nat \<Rightarrow> timestamp_ms" "nat \<Rightarrow> nat" "error_body + unit" actor_init
  | ByPool session_id generation_id actor_message
  | PoolReport session_id actor_message
  | PoolUnregister session_id generation_id

definition owned_by :: "session_owner \<Rightarrow> session_id \<Rightarrow> session_registry \<Rightarrow> bool" where
  "owned_by owner sid r \<longleftrightarrow> map_option fst (rs_actors r sid) = Some owner"

text \<open>What a caller is told: whether its session was registered, and the answers to its methods.\<close>

datatype caller_answer = Registered "error_body + session_handle" | Replied "error_body + actor_reply"

fun registry_do ::
  "sizes \<Rightarrow> (utext \<Rightarrow> utext) \<Rightarrow> registry_event \<Rightarrow> session_registry \<Rightarrow> caller_answer list \<times> session_registry" where
  "registry_do Z nfc (CallerRegister clk instants proven i) r =
     map_prod (\<lambda>x. [Registered x]) id (register Z clk instants proven \<lparr>sr_owner = Caller, sr_init = i\<rparr> r)"
| "registry_do Z nfc (ByCaller sid gen c) r = map_prod (\<lambda>x. [Replied x]) id (session_method Z nfc sid gen c r)"
| "registry_do Z nfc (CallerEvents before during q) r =
     map_prod (\<lambda>x. [Replied x]) id (registry_events Z nfc before during q r)"
| "registry_do Z nfc (CallerReport sid m) r =
     ([], if owned_by Caller sid r then registry_report Z nfc sid m r else r)"
| "registry_do Z nfc (CallerUnregister sid gen) r =
     ([], if owned_by Caller sid r then snd (unregister sid gen r) else r)"
| "registry_do Z nfc (PoolRegister clk instants proven i) r =
     ([], snd (register Z clk instants proven \<lparr>sr_owner = Pool, sr_init = i\<rparr> r))"
| "registry_do Z nfc (ByPool sid gen m) r = ([], snd (pool_method Z nfc sid gen m r))"
| "registry_do Z nfc (PoolReport sid m) r =
     ([], if owned_by Pool sid r then registry_report Z nfc sid m r else r)"
| "registry_do Z nfc (PoolUnregister sid gen) r =
     ([], if owned_by Pool sid r then snd (unregister sid gen r) else r)"

fun registry_run ::
  "sizes \<Rightarrow> (utext \<Rightarrow> utext) \<Rightarrow> registry_event list \<Rightarrow> session_registry \<Rightarrow> caller_answer list \<times> session_registry" where
  "registry_run Z nfc [] r = ([], r)"
| "registry_run Z nfc (ev # evs) r =
     (case registry_do Z nfc ev r of (out, r1) \<Rightarrow>
        (case registry_run Z nfc evs r1 of (outs, r2) \<Rightarrow> (out @ outs, r2)))"

lemma do_sound:
  assumes "compact_failures Z" "registry_sound Z r"
  shows "registry_sound Z (snd (registry_do Z nfc ev r))"
proof (cases ev)
  case (CallerEvents before during q)
  have "sound Z sid (snd (ask_events Z nfc before during x y z a))" if "sound Z sid a" for sid x y z a
    using ask_events_runs [of Z nfc before during x y z a] sound_run [OF assms(1) that] by auto
  then show ?thesis
    using assms(2) CallerEvents by (auto simp: registry_events_def intro!: with_owned_sound split: sum.splits)
qed (use assms in \<open>auto simp: session_method_def pool_method_def register_sound unregister_sound report_sound
    intro!: with_owned_sound sound_ask\<close>)

lemma run_sound: "compact_failures Z \<Longrightarrow> registry_sound Z r \<Longrightarrow> registry_sound Z (snd (registry_run Z nfc evs r))"
proof (induction evs arbitrary: r)
  case (Cons ev evs)
  have "registry_sound Z (snd (registry_do Z nfc ev r))" by (rule do_sound [OF Cons.prems])
  then show ?case using Cons.IH [OF Cons.prems(1)] by (fastforce split: prod.splits)
qed simp


text \<open>C19: Every session of a registry, a caller's or the pool's, stays sound, whatever callers, the pool and the workers
  do in whatever order, registering and unregistering sessions included: it is registered under its own id, its log is numbered without gaps and within its bounds, its
  turns are accounted for and bounded, no \<open>expect\<close> of its actor fails, and a closed session has no turn
  in flight.\<close>
theorem registry_keeps_every_session_sound:
  assumes "compact_failures Z" "rs_actors (snd (registry_run Z nfc evs (registry_new cfg))) sid = Some (owner, a)"
  shows "a_session_id a = sid \<and> log_ok Z a \<and> (\<exists>ws. turns_ok Z ws a) \<and> (a_state a = SClosed \<longrightarrow> a_active a = None)"
proof -
  have "registry_sound Z (registry_new cfg)" by (simp add: registry_sound_def registry_new_def)
  from run_sound [OF assms(1) this] show ?thesis using assms(2) by (fastforce simp: registry_sound_def sound_def)
qed

section \<open>What a caller can see of the pool\<close>

definition callers :: "session_registry \<Rightarrow> session_id \<rightharpoonup> actor" where
  "callers r = (\<lambda>sid. case rs_actors r sid of Some (Caller, a) \<Rightarrow> Some a | _ \<Rightarrow> None)"

definition pooled :: "session_registry \<Rightarrow> session_id \<rightharpoonup> actor" where
  "pooled r = (\<lambda>sid. case rs_actors r sid of Some (Pool, a) \<Rightarrow> Some a | _ \<Rightarrow> None)"

lemma resolve_caller:
  "actor_owned sid gen Caller r =
     (case callers r sid of
        None \<Rightarrow> Inl (not_registered sid)
      | Some a \<Rightarrow> if a_generation_id a \<noteq> gen then Inl (stale_generation sid gen) else Inr a)"
  by (auto simp: actor_owned_def callers_def split: option.splits session_owner.splits)

lemma callers_update: "callers (r\<lparr>rs_actors := (rs_actors r)(sid \<mapsto> (Caller, a))\<rparr>) = (callers r)(sid \<mapsto> a)"
  by (auto simp: callers_def)

lemma caller_call:
  assumes "callers r = callers r'"
  shows "fst (with_owned Caller sid gen f r) = fst (with_owned Caller sid gen f r')"
    "callers (snd (with_owned Caller sid gen f r)) = callers (snd (with_owned Caller sid gen f r'))"
  by (auto simp: with_owned_def resolve_caller assms callers_update split: sum.splits option.splits prod.splits)

lemma caller_spares_pool: "pooled (snd (with_owned Caller sid gen f r)) = pooled r"
  by (auto simp: with_owned_def actor_owned_def pooled_def fun_eq_iff
      split: sum.splits option.splits prod.splits session_owner.splits if_splits)

lemma pool_spares_callers: "callers (snd (with_owned Pool sid gen f r)) = callers r"
  by (auto simp: with_owned_def actor_owned_def callers_def fun_eq_iff
      split: sum.splits option.splits prod.splits session_owner.splits if_splits)

fun is_pool_event :: "registry_event \<Rightarrow> bool" where
  "is_pool_event (PoolRegister clk instants proven i) = True"
| "is_pool_event (ByPool sid gen m) = True"
| "is_pool_event (PoolReport sid m) = True"
| "is_pool_event (PoolUnregister sid gen) = True"
| "is_pool_event _ = False"

lemma callers_spared:
  "(\<And>a. rs_actors r sid \<noteq> Some (Caller, a)) \<Longrightarrow> callers (r\<lparr>rs_actors := (rs_actors r)(sid \<mapsto> (Pool, b))\<rparr>) = callers r"
  "(\<And>a. rs_actors r sid \<noteq> Some (Caller, a)) \<Longrightarrow> callers (r\<lparr>rs_actors := (rs_actors r)(sid := None)\<rparr>) = callers r"
  by (auto simp: callers_def fun_eq_iff split: option.splits session_owner.splits)

lemma pool_register_hidden:
  "callers (snd (register Z clk instants proven \<lparr>sr_owner = Pool, sr_init = i\<rparr> r)) = callers r"
  by (simp add: register_def Let_def callers_spared(1) split: sum.splits prod.splits)

lemma pool_owned: "owned_by Pool sid r \<Longrightarrow> \<exists>a. rs_actors r sid = Some (Pool, a)"
  by (auto simp: owned_by_def)

lemma pool_report_hidden: "owned_by Pool sid r \<Longrightarrow> callers (registry_report Z nfc sid m r) = callers r"
  by (drule pool_owned) (auto simp: registry_report_def callers_spared(1))

lemma pool_unregister_hidden: "owned_by Pool sid r \<Longrightarrow> callers (snd (unregister sid gen r)) = callers r"
  by (drule pool_owned) (auto simp: unregister_def callers_spared(2))

lemma pool_event_hidden:
  assumes "is_pool_event ev"
  shows "fst (registry_do Z nfc ev r) = []" "callers (snd (registry_do Z nfc ev r)) = callers r"
  using assms
  by (cases ev; simp add: pool_method_def pool_spares_callers pool_register_hidden pool_report_hidden
      pool_unregister_hidden)+

text \<open>
  The ids of both owners share one map, so a caller who registers an id the pool holds collides with it. \<open>apart\<close>
  says that this does not happen: no caller registers an id that the pool has registered before.
\<close>

fun apart :: "session_id set \<Rightarrow> registry_event list \<Rightarrow> bool" where
  "apart ids [] \<longleftrightarrow> True"
| "apart ids (PoolRegister clk instants proven i # evs) \<longleftrightarrow> apart (insert (in_session_id i) ids) evs"
| "apart ids (CallerRegister clk instants proven i # evs) \<longleftrightarrow> in_session_id i \<notin> ids \<and> apart ids evs"
| "apart ids (ev # evs) \<longleftrightarrow> apart ids evs"

fun pool_ids :: "registry_event \<Rightarrow> session_id set" where
  "pool_ids (PoolRegister clk instants proven i) = {in_session_id i}"
| "pool_ids ev = {}"

fun caller_ids :: "registry_event \<Rightarrow> session_id set" where
  "caller_ids (CallerRegister clk instants proven i) = {in_session_id i}"
| "caller_ids ev = {}"

lemma apart_step: "apart ids (ev # evs) \<Longrightarrow> caller_ids ev \<inter> ids = {} \<and> apart (ids \<union> pool_ids ev) evs"
  by (cases ev) simp_all

lemma registered_ids:
  "register Z clk instants proven reg r = (x, r') \<Longrightarrow>
     rs_config r' = rs_config r \<and> (r' = r \<or> (\<exists>a. r' = r\<lparr>rs_actors := (rs_actors r)(in_session_id (sr_init reg) \<mapsto> (sr_owner reg, a))\<rparr>
       \<and> rs_actors r (in_session_id (sr_init reg)) = None))"
  by (cases "rs_actors r (in_session_id (sr_init reg))")
    (auto simp: register_def Let_def split: sum.splits if_splits)

lemma with_owned_ids:
  "pooled (snd (with_owned owner sid gen f r)) s = None \<longleftrightarrow> pooled r s = None"
  "rs_config (snd (with_owned owner sid gen f r)) = rs_config r"
  by (auto simp: with_owned_def actor_owned_def pooled_def
      split: sum.splits option.splits prod.splits session_owner.splits if_splits)

lemma report_ids:
  "pooled (registry_report Z nfc sid m r) s = None \<longleftrightarrow> pooled r s = None"
  "rs_config (registry_report Z nfc sid m r) = rs_config r"
  by (auto simp: registry_report_def pooled_def split: option.splits session_owner.splits)

lemma unregister_ids:
  "pooled r s = None \<Longrightarrow> pooled (snd (unregister sid gen r)) s = None"
  "rs_config (snd (unregister sid gen r)) = rs_config r"
  by (auto simp: unregister_def pooled_def split: option.splits session_owner.splits if_splits)

lemma register_pools:
  assumes "s \<notin> (if sr_owner reg = Pool then {in_session_id (sr_init reg)} else {})" "pooled r s = None"
  shows "pooled (snd (register Z clk instants proven reg r)) s = None"
proof (cases "register Z clk instants proven reg r")
  case (Pair x r')
  then show ?thesis
    using registered_ids [OF Pair] assms by (auto simp: pooled_def split: option.splits session_owner.splits if_splits)
qed

lemma do_pools: "pooled r s = None \<Longrightarrow> s \<notin> pool_ids ev \<Longrightarrow> pooled (snd (registry_do Z nfc ev r)) s = None"
  by (cases ev)
    (auto simp: session_method_def registry_events_def pool_method_def with_owned_ids report_ids unregister_ids
      register_pools split: sum.splits)

lemma do_config: "rs_config (snd (registry_do Z nfc ev r)) = rs_config r"
proof -
  have "rs_config (snd (register Z clk instants proven reg r)) = rs_config r" for clk instants proven reg
    using registered_ids [of Z clk instants proven reg r] by (cases "register Z clk instants proven reg r") simp
  then show ?thesis
    by (cases ev)
      (auto simp: session_method_def registry_events_def pool_method_def with_owned_ids report_ids unregister_ids
        split: sum.splits)
qed

lemma caller_registers:
  assumes "callers r = callers r'" "rs_config r = rs_config r'" "pooled r sid = None" "pooled r' sid = None"
    "sr_owner reg = Caller" "in_session_id (sr_init reg) = sid"
  shows "fst (register Z clk instants proven reg r) = fst (register Z clk instants proven reg r')"
    "callers (snd (register Z clk instants proven reg r)) = callers (snd (register Z clk instants proven reg r'))"
proof -
  have free: "rs_actors r sid = None \<longleftrightarrow> rs_actors r' sid = None"
    using fun_cong [OF assms(1), of sid] assms(3,4)
    by (auto simp: callers_def pooled_def split: option.splits session_owner.splits)
  show "fst (register Z clk instants proven reg r) = fst (register Z clk instants proven reg r')"
    "callers (snd (register Z clk instants proven reg r)) = callers (snd (register Z clk instants proven reg r'))"
    using free assms(1,2,5,6) by (auto simp: register_def Let_def callers_update split: sum.splits prod.splits)
qed

lemma caller_unregisters:
  "callers (if owned_by Caller sid r then snd (unregister sid gen r) else r) =
     (case callers r sid of
        None \<Rightarrow> callers r
      | Some a \<Rightarrow> if a_generation_id a = gen then (callers r)(sid := None) else callers r)"
  by (auto simp: owned_by_def unregister_def callers_def fun_eq_iff split: option.splits session_owner.splits)

lemma caller_event_low:
  assumes "\<not> is_pool_event ev" "callers r = callers r'" "rs_config r = rs_config r'"
    "\<forall>s \<in> caller_ids ev. pooled r s = None \<and> pooled r' s = None"
  shows "fst (registry_do Z nfc ev r) = fst (registry_do Z nfc ev r')"
    "callers (snd (registry_do Z nfc ev r)) = callers (snd (registry_do Z nfc ev r'))"
proof -
  have report: "callers (if owned_by Caller sid r then registry_report Z nfc sid m r else r) =
      (case callers r sid of None \<Rightarrow> callers r | Some a \<Rightarrow> (callers r)(sid \<mapsto> actor_step Z nfc m a))" for sid m r
    by (auto simp: registry_report_def owned_by_def callers_def split: option.splits session_owner.splits)
  show "fst (registry_do Z nfc ev r) = fst (registry_do Z nfc ev r')"
    using assms caller_call(1) [OF assms(2)] caller_registers(1) [OF assms(2,3)]
    by (cases ev) (auto simp: session_method_def registry_events_def split: sum.splits)
  show "callers (snd (registry_do Z nfc ev r)) = callers (snd (registry_do Z nfc ev r'))"
    using assms caller_call(2) [OF assms(2)] caller_registers(2) [OF assms(2,3)]
    by (cases ev)
      (auto simp: session_method_def registry_events_def report caller_unregisters assms(2) split: sum.splits option.splits)
qed

lemma pool_invisible:
  assumes "callers r = callers r'" "rs_config r = rs_config r'" "apart ids evs"
    "\<And>s. pooled r s \<noteq> None \<Longrightarrow> s \<in> ids" "pooled r' = Map.empty"
  shows "fst (registry_run Z nfc evs r) = fst (registry_run Z nfc (filter (\<lambda>ev. \<not> is_pool_event ev) evs) r')
    \<and> callers (snd (registry_run Z nfc evs r)) =
        callers (snd (registry_run Z nfc (filter (\<lambda>ev. \<not> is_pool_event ev) evs) r'))"
  using assms
proof (induction evs arbitrary: r r' ids)
  case (Cons ev evs)
  obtain out r1 where one: "registry_do Z nfc ev r = (out, r1)" by (cases "registry_do Z nfc ev r")
  obtain out' r1' where one': "registry_do Z nfc ev r' = (out', r1')" by (cases "registry_do Z nfc ev r'")
  note ids = apart_step [OF Cons.prems(3)]
  have pools: "s \<in> ids \<union> pool_ids ev" if "pooled r1 s \<noteq> None" for s
    using do_pools [of r s ev Z nfc] Cons.prems(4) one that by fastforce
  have configs: "rs_config r1 = rs_config r" "rs_config r1' = rs_config r'"
    using do_config [of Z nfc ev r] do_config [of Z nfc ev r'] one one' by simp_all
  show ?case
  proof (cases "is_pool_event ev")
    case True
    then have "out = []" "callers r1 = callers r'"
      using pool_event_hidden [OF True, of Z nfc r] one Cons.prems(1) by simp_all
    then show ?thesis
      using Cons.IH [of r1 r' "ids \<union> pool_ids ev"] True one ids pools configs Cons.prems(2,5)
      by (auto split: prod.splits)
  next
    case False
    then have none: "pool_ids ev = {}" by (cases ev) simp_all
    have "pooled r1' = Map.empty"
      using do_pools [of r' _ ev Z nfc] Cons.prems(5) none one' by (auto simp: fun_eq_iff)
    moreover have "\<forall>s \<in> caller_ids ev. pooled r s = None \<and> pooled r' s = None"
      using ids Cons.prems(4,5) by auto
    then have "out = out'" "callers r1 = callers r1'"
      using caller_event_low [OF False Cons.prems(1,2), of Z nfc] one one' by simp_all
    ultimately show ?thesis
      using Cons.IH [of r1 r1' "ids \<union> pool_ids ev"] False one one' ids pools configs Cons.prems(2)
      by (auto split: prod.splits)
  qed
qed simp

lemma caller_register_spares_pool:
  "sr_owner reg = Caller \<Longrightarrow> pooled (snd (register Z clk instants proven reg r)) = pooled r"
  using registered_ids [of Z clk instants proven reg r]
  by (cases "register Z clk instants proven reg r") (auto simp: pooled_def fun_eq_iff)

lemma caller_event_spares_pool:
  assumes "\<not> is_pool_event ev"
  shows "pooled (snd (registry_do Z nfc ev r)) = pooled r"
proof -
  have "pooled (if owned_by Caller sid r then registry_report Z nfc sid m r else r) = pooled r"
    "pooled (if owned_by Caller sid r then snd (unregister sid gen r) else r) = pooled r" for sid m gen
    by (auto simp: owned_by_def registry_report_def unregister_def pooled_def fun_eq_iff
        split: option.splits session_owner.splits)
  then show ?thesis
    using assms
    by (cases ev)
      (auto simp: session_method_def registry_events_def caller_spares_pool caller_register_spares_pool split: sum.splits)
qed


section \<open>Long polls\<close>

text \<open>A poll that comes back empty has nothing to report: every published event is at or below its cursor.\<close>

lemma empty_poll:
  assumes "json_lengths Z" "log_ok Z a" "a_emitted a \<noteq> []" "event_batch Z after n a = Inr b" "eb_events b = []"
    "eb_replay_gap b = None"
  shows "a_sequence a \<le> after"
proof (rule ccontr)
  assume "\<not> a_sequence a \<le> after"
  then have lt: "after < a_next_sequence a" "after + 1 < a_next_sequence a"
    using assms(2) log_bounds(1) [OF assms(2)] by (auto simp: log_ok_def)
  show False
  proof (cases "after < sat_sub (oldest_available a) 1")
    case True
    then show ?thesis using assms(4,6) lt by (auto simp: event_batch_def behind_the_ring_def ensure_event_batch_fits_def Let_def split: if_splits option.splits)
  next
    case False
    then have old: "oldest_available a \<le> after + 1" by (auto simp: sat_sub_def split: if_splits)
    obtain m where "event_batch Z after n a =
        Inr \<lparr>eb_events = take m (drop after (a_emitted a)), eb_next_sequence = after + m + 1, eb_replay_gap = None\<rparr>"
      "after < length (a_emitted a) \<longrightarrow> 0 < m"
      by (rule page_is_next_slice [OF assms(1-3) old lt(1), of n])
    then show False using assms(4,5) lt log_bounds(3) [OF assms(2)] by auto
  qed
qed


lemma ask_poll:
  "log_ok Z a \<Longrightarrow> ask Z nfc (Events after n) a =
     (if a_state a = SClosed then Inl daemon_lost else Inr (EventsReply (event_batch Z after n a)), a)"
  using snapshot_taken [of Z a] by (auto simp: ask_def actor_step_def)

lemma ask_events_asks:
  assumes "log_ok Z a" "ask Z nfc (Events after n) a = (Inr (EventsReply (Inr b)), a')"
  shows "event_batch Z after n a = Inr b" "a' = a"
  using assms by (auto simp: ask_poll [OF assms(1)] split: if_splits)

lemma run_emitted: "a_emitted a \<noteq> [] \<Longrightarrow> a_emitted (actor_run Z nfc ms a) \<noteq> []"
proof -
  have "a_emitted (actor_step Z nfc m b) \<noteq> []" if "a_emitted b \<noteq> []" for m b
    using append_only.keeps_step [of "a_emitted b" b Z nfc m] that by auto
  then show "a_emitted a \<noteq> [] \<Longrightarrow> a_emitted (actor_run Z nfc ms a) \<noteq> []"
    by (induction ms arbitrary: a) (simp_all add: actor_run_def)
qed

text \<open>C20: A long poll misses nothing. When it comes back without events and without a gap, no event past its cursor
  had been published by the time it came back, whatever the session did while it waited.\<close>
theorem long_poll_misses_nothing:
  assumes "json_lengths Z" "actor_start Z a0" "a = actor_run Z nfc ms a0"
    "ask_events Z nfc before during after wait n a = (Inr (EventsReply (Inr b)), a')"
    "eb_events b = []" "eb_replay_gap b = None"
  shows "a_sequence a' \<le> after"
proof -
  have a: "log_ok Z a" "a_emitted a \<noteq> []"
    using start_log_ok [OF assms(2)] start_emits [OF assms(2)] run_log_ok run_emitted by (simp_all add: assms(3))
  let ?a2 = "actor_run Z nfc before a" and ?a3 = "actor_run Z nfc during (actor_run Z nfc before a)"
  have a3: "log_ok Z ?a3" "a_emitted ?a3 \<noteq> []" using a by (simp_all add: run_log_ok run_emitted)
  have live: "a_state a \<noteq> SClosed" using assms(4) by (auto simp: ask_events_def ask_poll [OF a(1)])
  obtain b1 where b1: "event_batch Z after n a = Inr b1"
  proof (cases "event_batch Z after n a")
    case (Inl e)
    then show thesis using assms(4) live by (simp add: ask_events_def ask_poll [OF a(1)])
  qed
  then have first: "ask Z nfc (Events after n) a = (Inr (EventsReply (Inr b1)), a)" using live by (simp add: ask_poll [OF a(1)])
  have outcome: "ask_events Z nfc before during after wait n a \<in>
      {(Inr (EventsReply (Inr b1)), a), ask Z nfc (Events after n) ?a3, (Inr (EventsReply (Inr b1)), ?a3)}
    \<and> (ask_events Z nfc before during after wait n a = (Inr (EventsReply (Inr b1)), ?a3) \<longrightarrow>
        ask_events Z nfc before during after wait n a = (Inr (EventsReply (Inr b1)), a)
        \<or> ask_events Z nfc before during after wait n a = ask Z nfc (Events after n) ?a3
        \<or> \<not> after < a_sequence ?a2 \<and> a_sequence ?a3 = a_sequence ?a2)"
    unfolding ask_events_def first by (simp add: Let_def)
  then consider "b = b1" "a' = a"
    | "ask Z nfc (Events after n) ?a3 = (Inr (EventsReply (Inr b)), a')"
    | "a' = ?a3" "\<not> after < a_sequence ?a2" "a_sequence ?a3 = a_sequence ?a2"
    unfolding assms(4) by (elim conjE insertE emptyE) (metis prod.inject sum.inject actor_reply.inject)+
  then show ?thesis
  proof cases
    case 1
    then show ?thesis using empty_poll [OF assms(1) a ask_events_asks(1) [OF a(1) first]] assms(5,6) by simp
  next
    case 2
    then show ?thesis
      using empty_poll [OF assms(1) a3 ask_events_asks(1) [OF a3(1) 2] assms(5,6)] ask_events_asks(2) [OF a3(1) 2] by simp
  qed simp
qed


section \<open>A concrete registry\<close>

text \<open>The pool's session and a caller's, each with a turn; the caller also names the pool's, and the pool registers the caller's id.\<close>

definition sample_events :: "registry_event list" where
  "sample_events =
     [PoolRegister (\<lambda>n. 1000 + n) id (Inr ()) sample_init,
      CallerRegister (\<lambda>n. 1000 + n) id (Inr ()) (sample_init\<lparr>in_session_id := ''c''\<rparr>),
      PoolRegister (\<lambda>n. 1000 + n) id (Inr ()) (sample_init\<lparr>in_session_id := ''c'', in_generation_id := ''h''\<rparr>),
      ByCaller ''s'' ''g'' (RunTurn sample_request), ByPool ''s'' ''g'' (Submit sample_request),
      ByCaller ''c'' ''g'' (RunTurn sample_request), ByCaller ''c'' ''g'' (CancelTurn ''t1'' 7)]"

definition sample_registry :: session_registry where
  "sample_registry = snd (registry_run sample_sizes id sample_events (registry_new actor_config_default))"

fun succeeded :: "caller_answer \<Rightarrow> bool" where
  "succeeded (Registered x) = is_ok x"
| "succeeded (Replied x) = is_ok x"


theorem registry_keeps_every_session_sound_witness:
  "\<exists>a. rs_actors sample_registry ''c'' = Some (Caller, a) \<and> a_session_id a = ''c'' \<and> log_ok sample_sizes a
     \<and> a_state a = SCancelling"
proof -
  have "map_option (\<lambda>(owner, a). (owner = Caller, a_state a)) (rs_actors sample_registry ''c'') = Some (True, SCancelling)"
    by code_simp
  then obtain a where a: "rs_actors sample_registry ''c'' = Some (Caller, a)" "a_state a = SCancelling" by auto
  from registry_keeps_every_session_sound [OF sample_compact a(1) [unfolded sample_registry_def]]
  show ?thesis using a by blast
qed

definition sample_poll :: "(error_body + actor_reply) \<times> actor" where
  "sample_poll = ask_events sample_sizes id [] [SelectMinifiedCell] 2 50 0
     (actor_run sample_sizes id [StoredTurn ''t1''] sample_actor)"

definition comes_back_empty :: "error_body + actor_reply \<Rightarrow> bool" where
  "comes_back_empty reply = (case reply of
     Inr (EventsReply (Inr b)) \<Rightarrow> eb_events b = [] \<and> Option.is_none (eb_replay_gap b) | _ \<Rightarrow> False)"

lemma came_back:
  assumes "comes_back_empty reply"
  shows "\<exists>b. reply = Inr (EventsReply (Inr b)) \<and> eb_events b = [] \<and> eb_replay_gap b = None"
proof (cases reply)
  case (Inr r)
  then show ?thesis
  proof (cases r)
    case (EventsReply e)
    then show ?thesis using assms Inr by (cases e) (simp_all add: comes_back_empty_def Option.is_none_def)
  qed (use assms Inr in \<open>simp_all add: comes_back_empty_def\<close>)
qed (use assms in \<open>simp add: comes_back_empty_def\<close>)

theorem long_poll_misses_nothing_witness:
  "comes_back_empty (fst sample_poll) \<and> a_sequence (snd sample_poll) = 2 \<and> a_sequence (snd sample_poll) \<le> 2"
proof -
  have came: "comes_back_empty (fst sample_poll)" by code_simp
  from came_back [OF this] obtain b
    where b: "fst sample_poll = Inr (EventsReply (Inr b))" "eb_events b = []" "eb_replay_gap b = None" by blast
  have "ask_events sample_sizes id [] [SelectMinifiedCell] 2 50 0
      (actor_run sample_sizes id [StoredTurn ''t1''] sample_actor) = (Inr (EventsReply (Inr b)), snd sample_poll)"
    using b(1) by (simp add: sample_poll_def prod_eq_iff)
  from long_poll_misses_nothing [OF sample_lengths sample_start refl this b(2,3)]
  have "a_sequence (snd sample_poll) \<le> 2" .
  moreover have "a_sequence (snd sample_poll) = 2" by code_simp
  ultimately show ?thesis using came by simp
qed

end
