(* ===== verification/Closing.thy ===== *)
theory Closing
  imports Registry
begin

text \<open>
  How the service closes sessions: the record of closed generations
  (\<open>src/crates/service/src/tombstones.rs\<close>), the closing half of \<open>native.rs\<close> over the registry, and
  the fence a shutdown waits at (\<open>tasks.rs\<close>). The guard that serialises a close with a start makes a close one
  step; what the terminal answers is an argument.
\<close>

section \<open>Closed generations\<close>

record tombstones =
  tm_capacity :: nat
  tm_order :: "(session_id \<times> generation_id) list"
  tm_ids :: "(session_id \<times> generation_id) set"

definition tombstones_new :: "nat \<Rightarrow> tombstones" where
  "tombstones_new capacity = \<lparr>tm_capacity = max capacity 1, tm_order = [], tm_ids = {}\<rparr>"

definition tombstoned :: "session_id \<Rightarrow> generation_id \<Rightarrow> tombstones \<Rightarrow> bool" where
  "tombstoned sid gen t \<longleftrightarrow> (sid, gen) \<in> tm_ids t"

fun evict_oldest :: "nat \<Rightarrow> 'a list \<Rightarrow> 'a set \<Rightarrow> 'a list \<times> 'a set" where
  "evict_oldest capacity [] ids = ([], ids)"
| "evict_oldest capacity (x # xs) ids =
     (if capacity < length (x # xs) then evict_oldest capacity xs (ids - {x}) else (x # xs, ids))"

definition bury :: "session_id \<Rightarrow> generation_id \<Rightarrow> tombstones \<Rightarrow> tombstones" where
  "bury sid gen t =
     (if (sid, gen) \<in> tm_ids t then t
      else case evict_oldest (tm_capacity t) (tm_order t @ [(sid, gen)]) (insert (sid, gen) (tm_ids t)) of
        (order, ids) \<Rightarrow> t\<lparr>tm_order := order, tm_ids := ids\<rparr>)"

section \<open>Closing a session\<close>

text \<open>Of a session's metadata its owner and generation decide; the rest is what \<open>shutdown\<close> releases.\<close>

record native =
  nt_registry :: session_registry
  nt_sessions :: "session_id \<rightharpoonup> session_owner \<times> generation_id"
  nt_closed :: tombstones

definition CLOSED_SESSION_TOMBSTONE_CAPACITY :: nat where "CLOSED_SESSION_TOMBSTONE_CAPACITY = 4096"

definition native_new :: "actor_config \<Rightarrow> native" where
  "native_new cfg = \<lparr>nt_registry = registry_new cfg, nt_sessions = Map.empty,
     nt_closed = tombstones_new CLOSED_SESSION_TOMBSTONE_CAPACITY\<rparr>"

definition retire :: "session_id \<Rightarrow> generation_id \<Rightarrow> native \<Rightarrow> (error_body + unit) \<times> native" where
  "retire sid gen n =
     (case unregister sid gen (nt_registry n) of
        (Inl e, r) \<Rightarrow> (Inl e, n\<lparr>nt_registry := r\<rparr>)
      | (Inr _, r) \<Rightarrow>
          (Inr (), n\<lparr>nt_registry := r,
             nt_sessions := (if map_option snd (nt_sessions n sid) = Some gen then (nt_sessions n)(sid := None)
                             else nt_sessions n),
             nt_closed := bury sid gen (nt_closed n)\<rparr>))"

definition already_closed :: "session_id \<Rightarrow> generation_id \<Rightarrow> close_session_result" where
  "already_closed sid gen = \<lparr>cs_session_id = sid, cs_generation_id = gen, cs_already_closed = True, cs_process_reaped = True\<rparr>"

fun close_reply :: "error_body + actor_reply \<Rightarrow> error_body + close_session_result" where
  "close_reply (Inr (CloseReply r)) = r"
| "close_reply (Inl e) = Inl e"
| "close_reply (Inr _) = Inl daemon_lost"

definition close_session_with_state ::
  "sizes \<Rightarrow> (utext \<Rightarrow> utext) \<Rightarrow> session_owner \<Rightarrow> session_id \<Rightarrow> generation_id \<Rightarrow> close_policy \<Rightarrow> error_body + bool \<Rightarrow>
     native \<Rightarrow> (error_body + close_session_result) \<times> native" where
  "close_session_with_state Z nfc owner sid gen policy closed n =
     (if owner = Caller \<and> tombstoned sid gen (nt_closed n) then (Inr (already_closed sid gen), n)
      else case with_owned owner sid gen (ask Z nfc (Close policy closed)) (nt_registry n) of
        (reply, r) \<Rightarrow>
          (let n' = n\<lparr>nt_registry := r\<rparr>
           in case close_reply reply of
                Inl e \<Rightarrow> (Inl e, n')
              | Inr result \<Rightarrow>
                  if cs_process_reaped result
                  then (case retire sid gen n' of (Inl e, n'') \<Rightarrow> (Inl e, n'') | (Inr _, n'') \<Rightarrow> (Inr result, n''))
                  else (Inr result, n')))"

text \<open>What the pool's host answers a destroy with: whether the process was reaped, or why it may be alive.\<close>

definition destroy_pool_instance ::
  "sizes \<Rightarrow> (utext \<Rightarrow> utext) \<Rightarrow> session_id \<Rightarrow> generation_id \<Rightarrow> error_body + bool \<Rightarrow> native \<Rightarrow> (error_body + bool) \<times> native" where
  "destroy_pool_instance Z nfc sid gen closed n =
     (case close_session_with_state Z nfc Pool sid gen Force closed n of
        (Inr result, n') \<Rightarrow> (Inr (cs_process_reaped result), n')
      | (Inl e, n') \<Rightarrow> if code e = SessionNotFound then (Inr True, n') else (Inl e, n'))"

section \<open>The idle reaper\<close>

fun expired_result :: "error_body + actor_reply \<Rightarrow> close_session_result option" where
  "expired_result (Inr (ExpireReply (Inr r))) = r"
| "expired_result _ = None"

definition reap_session ::
  "sizes \<Rightarrow> (utext \<Rightarrow> utext) \<Rightarrow> timestamp_ms \<Rightarrow> (session_id \<Rightarrow> error_body + bool) \<Rightarrow> session_id \<times> generation_id \<Rightarrow>
     native \<Rightarrow> native" where
  "reap_session Z nfc now closes = (\<lambda>(sid, gen) n.
     case session_method Z nfc sid gen (ExpireSession now (closes sid)) (nt_registry n) of
       (reply, r) \<Rightarrow>
         (let n' = n\<lparr>nt_registry := r\<rparr>
          in case expired_result reply of
               None \<Rightarrow> n'
             | Some result \<Rightarrow> if cs_process_reaped result then snd (retire sid gen n') else n'))"

text \<open>\<open>order\<close> lists the sessions in the order the map enumerates them; \<open>now\<close> is missing when the clock cannot be read.\<close>

definition reap_idle_sessions ::
  "sizes \<Rightarrow> (utext \<Rightarrow> utext) \<Rightarrow> timestamp_ms option \<Rightarrow> (session_id \<Rightarrow> error_body + bool) \<Rightarrow> session_id list \<Rightarrow>
     native \<Rightarrow> native" where
  "reap_idle_sessions Z nfc now closes order n =
     (case now of
        None \<Rightarrow> n
      | Some t \<Rightarrow>
          fold (reap_session Z nfc t closes)
            (List.map_filter (\<lambda>sid. case nt_sessions n sid of
                 Some (Caller, gen) \<Rightarrow> Some (sid, gen) | _ \<Rightarrow> None) order) n)"

section \<open>Draining at shutdown\<close>

fun drain_survivors ::
  "(session_id \<times> generation_id) list \<Rightarrow> error_body option \<Rightarrow> native \<Rightarrow> error_body option \<times> native" where
  "drain_survivors [] first_error n = (first_error, n)"
| "drain_survivors ((sid, gen) # rest) first_error n =
     (case unregister sid gen (nt_registry n) of
        (Inl e, r) \<Rightarrow>
          drain_survivors rest (if first_error = None then Some e else first_error) (n\<lparr>nt_registry := r\<rparr>)
      | (Inr _, r) \<Rightarrow>
          drain_survivors rest first_error (n\<lparr>nt_registry := r, nt_closed := bury sid gen (nt_closed n)\<rparr>))"

definition drain_after_runtime_shutdown ::
  "session_id list \<Rightarrow> error_body option \<Rightarrow> native \<Rightarrow> error_body option \<times> native" where
  "drain_after_runtime_shutdown order first_error n =
     drain_survivors
       (List.map_filter (\<lambda>sid. map_option (\<lambda>(owner, gen). (sid, gen)) (nt_sessions n sid)) order) first_error
       (n\<lparr>nt_sessions := Map.empty\<rparr>)"

section \<open>What is remembered\<close>

definition tombstones_ok :: "tombstones \<Rightarrow> bool" where
  "tombstones_ok t \<longleftrightarrow> tm_ids t = set (tm_order t) \<and> distinct (tm_order t) \<and> length (tm_order t) \<le> tm_capacity t
     \<and> 1 \<le> tm_capacity t"

lemma tombstones_new_ok: "tombstones_ok (tombstones_new c)"
  by (simp add: tombstones_ok_def tombstones_new_def)

lemma evict_oldest_eq:
  "evict_oldest c xs ids = (drop (length xs - c) xs, ids - set (take (length xs - c) xs))"
proof (induction xs arbitrary: ids)
  case (Cons x xs)
  show ?case
  proof (cases "c < length (x # xs)")
    case True
    then have "length (x # xs) - c = Suc (length xs - c)" by simp
    then show ?thesis using True Cons.IH [of "ids - {x}"] by auto
  qed simp
qed simp

lemma bury_new:
  assumes "(sid, gen) \<notin> tm_ids t"
  defines "xs \<equiv> tm_order t @ [(sid, gen)]" and "k \<equiv> Suc (length (tm_order t)) - tm_capacity t"
  shows "tm_order (bury sid gen t) = drop k xs" "tm_ids (bury sid gen t) = insert (sid, gen) (tm_ids t) - set (take k xs)"
proof -
  have "length xs = Suc (length (tm_order t))" by (simp add: xs_def)
  then show "tm_order (bury sid gen t) = drop k xs" "tm_ids (bury sid gen t) = insert (sid, gen) (tm_ids t) - set (take k xs)"
    unfolding bury_def evict_oldest_eq xs_def [symmetric] k_def using assms(1) by simp_all
qed

lemmas bury_order = bury_new(1)

lemma bury_capacity [simp]: "tm_capacity (bury sid gen t) = tm_capacity t"
  by (simp add: bury_def split: prod.splits)

lemma bury_ok:
  assumes "tombstones_ok t"
  shows "tombstones_ok (bury sid gen t)"
proof (cases "(sid, gen) \<in> tm_ids t")
  case True
  then show ?thesis using assms by (simp add: bury_def)
next
  case False
  define xs where "xs = tm_order t @ [(sid, gen)]"
  define k where "k = Suc (length (tm_order t)) - tm_capacity t"
  have xs: "distinct xs" "set xs = insert (sid, gen) (tm_ids t)" "length xs = Suc (length (tm_order t))"
    using assms False by (auto simp: tombstones_ok_def xs_def)
  have split: "set xs = set (take k xs) \<union> set (drop k xs)" "set (take k xs) \<inter> set (drop k xs) = {}"
    using xs(1) by (metis append_take_drop_id set_append) (metis append_take_drop_id distinct_append xs(1))
  have "tm_ids (bury sid gen t) = set (drop k xs)"
    using bury_new(2) [OF False] split unfolding xs(2) [symmetric] xs_def [symmetric] k_def [symmetric] by blast
  moreover have "tm_order (bury sid gen t) = drop k xs" unfolding xs_def k_def by (rule bury_order [OF False])
  ultimately show ?thesis
    using assms xs(1,3) by (simp add: tombstones_ok_def distinct_drop k_def)
qed

text \<open>A generation that fewer others have been buried after is remembered.\<close>

definition buried_within :: "nat \<Rightarrow> session_id \<times> generation_id \<Rightarrow> tombstones \<Rightarrow> bool" where
  "buried_within k x t \<longleftrightarrow> (\<exists>pre post. tm_order t = pre @ x # post \<and> length post \<le> k)"

lemma buried_within_mono: "buried_within k x t \<Longrightarrow> k \<le> k' \<Longrightarrow> buried_within k' x t"
  unfolding buried_within_def by (meson le_trans)

lemma bury_remembers:
  assumes "tombstones_ok t" "(sid, gen) \<notin> tm_ids t"
  shows "buried_within 0 (sid, gen) (bury sid gen t)"
proof -
  have "Suc (length (tm_order t)) - tm_capacity t \<le> length (tm_order t)"
    using assms(1) unfolding tombstones_ok_def by linarith
  then show ?thesis
    unfolding buried_within_def bury_order [OF assms(2)] by (intro exI [of _ "drop _ (tm_order t)"] exI [of _ "[]"]) simp
qed

lemma bury_keeps:
  assumes "tombstones_ok t" "buried_within k x t" "Suc k < tm_capacity t"
  shows "buried_within (Suc k) x (bury sid gen t)"
proof (cases "(sid, gen) \<in> tm_ids t")
  case True
  then show ?thesis using buried_within_mono [OF assms(2)] by (simp add: bury_def)
next
  case False
  from assms(2) obtain pre post where x: "tm_order t = pre @ x # post" "length post \<le> k"
    unfolding buried_within_def by blast
  let ?n = "Suc (length (tm_order t)) - tm_capacity t"
  have "?n \<le> length pre" using x assms(3) by simp
  then have "tm_order (bury sid gen t) = drop ?n pre @ x # (post @ [(sid, gen)])"
    by (simp add: bury_order [OF False] x(1))
  then show ?thesis using x(2) unfolding buried_within_def by (intro exI [of _ "drop ?n pre"] exI [of _ "post @ [(sid, gen)]"]) simp
qed

lemma buried_is_tombstoned: "tombstones_ok t \<Longrightarrow> buried_within k (sid, gen) t \<Longrightarrow> tombstoned sid gen t"
  unfolding tombstones_ok_def buried_within_def tombstoned_def by (elim conjE exE) simp

section \<open>A closed generation stays closed\<close>

text \<open>
  What happens to the service: closes and expiries, sessions that are started, what the actors handle, and the drain that
  follows a shutdown of the private runtime.
\<close>

datatype native_op =
    Closes session_owner session_id generation_id close_policy "error_body + bool"
  | Expires timestamp_ms "session_id \<Rightarrow> error_body + bool" session_id generation_id
  | Registers "nat \<Rightarrow> timestamp_ms" "nat \<Rightarrow> nat" "error_body + unit" session_registration
  | Handles session_id actor_message
  | Drains "session_id list"

fun native_step :: "sizes \<Rightarrow> (utext \<Rightarrow> utext) \<Rightarrow> native_op \<Rightarrow> native \<Rightarrow> native" where
  "native_step Z nfc (Closes owner sid gen policy closed) n = snd (close_session_with_state Z nfc owner sid gen policy closed n)"
| "native_step Z nfc (Expires now closes sid gen) n = reap_session Z nfc now closes (sid, gen) n"
| "native_step Z nfc (Registers clk instants empty_at_launch reg) n =
     (case register Z clk instants empty_at_launch reg (nt_registry n) of
        (Inl e, r) \<Rightarrow> n\<lparr>nt_registry := r\<rparr>
      | (Inr h, r) \<Rightarrow>
          n\<lparr>nt_registry := r,
            nt_sessions := (nt_sessions n)(in_session_id (sr_init reg) \<mapsto> (sr_owner reg, sh_generation_id h))\<rparr>)"
| "native_step Z nfc (Handles sid m) n = n\<lparr>nt_registry := registry_report Z nfc sid m (nt_registry n)\<rparr>"
| "native_step Z nfc (Drains order) n = snd (drain_after_runtime_shutdown order None n)"

text \<open>How many generations an operation can bury.\<close>

fun burials :: "native_op \<Rightarrow> nat" where
  "burials (Closes owner sid gen policy closed) = 1"
| "burials (Expires now closes sid gen) = 1"
| "burials (Drains order) = length order"
| "burials _ = 0"

definition bury_all :: "(session_id \<times> generation_id) list \<Rightarrow> tombstones \<Rightarrow> tombstones" where
  "bury_all = fold (\<lambda>(sid, gen). bury sid gen)"

definition buries :: "nat \<Rightarrow> native \<Rightarrow> native \<Rightarrow> bool" where
  "buries k n n' \<longleftrightarrow> (\<exists>xs. length xs \<le> k \<and> nt_closed n' = bury_all xs (nt_closed n))"

lemma bury_all_simps [simp]:
  "bury_all [] t = t" "bury_all ((sid, gen) # xs) t = bury_all xs (bury sid gen t)"
  by (simp_all add: bury_all_def)

lemma bury_all_ok:
  "tombstones_ok t \<Longrightarrow> tombstones_ok (bury_all xs t) \<and> tm_capacity (bury_all xs t) = tm_capacity t"
  by (induction xs arbitrary: t) (auto simp: bury_ok)

lemma bury_all_keeps:
  assumes "tombstones_ok t" "buried_within k x t" "k + length xs < tm_capacity t"
  shows "buried_within (k + length xs) x (bury_all xs t)"
  using assms
proof (induction xs arbitrary: k t)
  case (Cons y xs)
  obtain sid gen where y: "y = (sid, gen)" by (cases y)
  have "buried_within (Suc k) x (bury sid gen t)" using bury_keeps [OF Cons.prems(1,2)] Cons.prems(3) by simp
  from Cons.IH [OF bury_ok [OF Cons.prems(1)] this] Cons.prems(3) show ?case by (simp add: y)
qed simp

lemma buries_one:
  "nt_closed n' = nt_closed n \<or> nt_closed n' = bury sid gen (nt_closed n) \<Longrightarrow> buries 1 n n'"
proof (elim disjE)
  assume "nt_closed n' = nt_closed n"
  then show ?thesis unfolding buries_def by (intro exI [of _ "[]"]) simp
next
  assume "nt_closed n' = bury sid gen (nt_closed n)"
  then show ?thesis unfolding buries_def by (intro exI [of _ "[(sid, gen)]"]) simp
qed

lemma retire_buries: "retire sid gen n = (Inr u, n') \<Longrightarrow> nt_closed n' = bury sid gen (nt_closed n)"
  "retire sid gen n = (Inl e, n') \<Longrightarrow> nt_closed n' = nt_closed n"
  by (auto simp: retire_def split: prod.splits sum.splits)

lemma close_buries:
  assumes "close_session_with_state Z nfc owner sid gen policy closed n = (reply, n')"
  shows "nt_closed n' = nt_closed n \<or> nt_closed n' = bury sid gen (nt_closed n)"
  using assms retire_buries
  by (force simp: close_session_with_state_def Let_def split: if_splits prod.splits sum.splits)

lemma drain_buries: "buries (length xs) n (snd (drain_survivors xs first_error n))"
proof (induction xs arbitrary: first_error n)
  case (Cons x xs)
  obtain sid gen where x: "x = (sid, gen)" by (cases x)
  obtain reply r where u: "unregister sid gen (nt_registry n) = (reply, r)" by (cases "unregister sid gen (nt_registry n)")
  show ?case
  proof (cases reply)
    case (Inl e)
    have "buries (length xs) (n\<lparr>nt_registry := r\<rparr>) (snd (drain_survivors (x # xs) first_error n))"
      using Cons.IH [of "n\<lparr>nt_registry := r\<rparr>"] by (simp add: x u Inl)
    then show ?thesis by (auto simp: buries_def intro: le_SucI)
  next
    case (Inr y)
    let ?n = "n\<lparr>nt_registry := r, nt_closed := bury sid gen (nt_closed n)\<rparr>"
    have "buries (length xs) ?n (snd (drain_survivors (x # xs) first_error n))"
      using Cons.IH [of ?n] by (simp add: x u Inr)
    then obtain ys where "length ys \<le> length xs"
      "nt_closed (snd (drain_survivors (x # xs) first_error n)) = bury_all ys (bury sid gen (nt_closed n))"
      by (auto simp: buries_def)
    then show ?thesis unfolding buries_def by (intro exI [of _ "(sid, gen) # ys"]) simp
  qed
qed (simp add: buries_def)

lemma step_buries: "buries (burials op) n (native_step Z nfc op n)"
proof (cases op)
  case (Closes owner sid gen policy closed)
  then show ?thesis using close_buries [of Z nfc owner sid gen policy closed n] buries_one by (simp add: prod_eq_iff)
next
  case (Expires now closes sid gen)
  have "nt_closed (reap_session Z nfc now closes (sid, gen) n) = nt_closed n
      \<or> nt_closed (reap_session Z nfc now closes (sid, gen) n) = bury sid gen (nt_closed n)"
    unfolding reap_session_def by (auto simp: Let_def retire_def split: prod.splits option.splits sum.splits)
  then show ?thesis using Expires buries_one by simp
next
  case (Drains order)
  have "length (List.map_filter f xs) \<le> length xs" for f :: "session_id \<Rightarrow> (session_id \<times> generation_id) option" and xs
    by (simp add: List.map_filter_def)
  then show ?thesis
    using drain_buries [of _ "n\<lparr>nt_sessions := Map.empty\<rparr>" None] Drains
    by (fastforce simp: drain_after_runtime_shutdown_def buries_def intro: le_trans)
qed (auto simp: buries_def split: prod.splits sum.splits intro!: exI [of _ "[]"])

lemma step_keeps_tombstones:
  assumes "tombstones_ok (nt_closed n)"
  shows "tombstones_ok (nt_closed (native_step Z nfc op n))"
    "tm_capacity (nt_closed (native_step Z nfc op n)) = tm_capacity (nt_closed n)"
  using step_buries [of op n Z nfc] bury_all_ok [OF assms] by (auto simp: buries_def)

lemma run_keeps_tombstones:
  "tombstones_ok (nt_closed n) \<Longrightarrow> tombstones_ok (nt_closed (fold (native_step Z nfc) ops n))
     \<and> tm_capacity (nt_closed (fold (native_step Z nfc) ops n)) = tm_capacity (nt_closed n)"
  by (induction ops arbitrary: n) (simp_all add: step_keeps_tombstones)

lemma run_remembers:
  assumes "tombstones_ok (nt_closed n)" "buried_within k x (nt_closed n)"
    "k + sum_list (map burials ops) < tm_capacity (nt_closed n)"
  shows "buried_within (k + sum_list (map burials ops)) x (nt_closed (fold (native_step Z nfc) ops n))"
  using assms
proof (induction ops arbitrary: k n)
  case (Cons op ops)
  let ?n = "native_step Z nfc op n"
  obtain xs where xs: "length xs \<le> burials op" "nt_closed ?n = bury_all xs (nt_closed n)"
    using step_buries [of op n Z nfc] by (auto simp: buries_def)
  have "buried_within (k + length xs) x (nt_closed ?n)"
    unfolding xs(2) using xs(1) Cons.prems(3) by (intro bury_all_keeps [OF Cons.prems(1,2)]) simp
  then have "buried_within (k + burials op) x (nt_closed ?n)" by (rule buried_within_mono) (simp add: xs(1))
  from Cons.IH [OF step_keeps_tombstones(1) [OF Cons.prems(1)] this] Cons.prems(3) show ?case
    by (simp add: step_keeps_tombstones(2) [OF Cons.prems(1)] add.assoc)
qed simp

lemma run_from_start:
  "tombstones_ok (nt_closed (fold (native_step Z nfc) ops (native_new cfg)))"
  "tm_capacity (nt_closed (fold (native_step Z nfc) ops (native_new cfg))) = CLOSED_SESSION_TOMBSTONE_CAPACITY"
proof -
  have new: "nt_closed (native_new cfg) = tombstones_new CLOSED_SESSION_TOMBSTONE_CAPACITY" by (simp add: native_new_def)
  have capacity: "tm_capacity (tombstones_new CLOSED_SESSION_TOMBSTONE_CAPACITY) = CLOSED_SESSION_TOMBSTONE_CAPACITY"
    by (simp add: tombstones_new_def CLOSED_SESSION_TOMBSTONE_CAPACITY_def)
  note run = run_keeps_tombstones [of "native_new cfg" Z nfc ops, unfolded new capacity, OF tombstones_new_ok]
  show "tombstones_ok (nt_closed (fold (native_step Z nfc) ops (native_new cfg)))"
    "tm_capacity (nt_closed (fold (native_step Z nfc) ops (native_new cfg))) = CLOSED_SESSION_TOMBSTONE_CAPACITY"
    using run by blast+
qed

lemma close_that_reaps:
  assumes "close_session_with_state Z nfc owner sid gen policy closed n = (Inr result, n')" "cs_process_reaped result"
    "\<not> tombstoned sid gen (nt_closed n)"
  shows "nt_closed n' = bury sid gen (nt_closed n)"
  using assms
  by (auto simp: close_session_with_state_def Let_def retire_def split: if_splits prod.splits sum.splits)

text \<open>C16: A generation a caller has closed stays closed. Once a caller's close has reaped a process, every later close of
  that generation by a caller is answered as already closed and changes nothing, whatever the service does in between and
  even if the same id now names another generation, as long as fewer than 4096 generations can have been closed, expired
  or drained since.\<close>

theorem closed_generation_stays_closed:
  assumes "n = fold (native_step Z nfc) before (native_new cfg)" and "\<not> tombstoned sid gen (nt_closed n)"
    and "close_session_with_state Z nfc Caller sid gen policy closed n = (Inr result, n1)" and "cs_process_reaped result"
    and "n2 = fold (native_step Z nfc) between n1" and "sum_list (map burials between) < CLOSED_SESSION_TOMBSTONE_CAPACITY"
  shows "close_session_with_state Z nfc Caller sid gen policy' closed' n2 = (Inr (already_closed sid gen), n2)"
proof -
  have ok: "tombstones_ok (nt_closed n)" "tm_capacity (nt_closed n) = CLOSED_SESSION_TOMBSTONE_CAPACITY"
    unfolding assms(1) by (rule run_from_start)+
  have n1: "nt_closed n1 = bury sid gen (nt_closed n)" by (rule close_that_reaps [OF assms(3,4,2)])
  have "buried_within 0 (sid, gen) (nt_closed n1)"
    unfolding n1 using ok(1) assms(2) by (intro bury_remembers) (simp_all add: tombstoned_def)
  moreover have ok1: "tombstones_ok (nt_closed n1)" unfolding n1 by (rule bury_ok [OF ok(1)])
  ultimately have "buried_within (0 + sum_list (map burials between)) (sid, gen) (nt_closed n2)"
    unfolding assms(5) using assms(6) ok(2) by (intro run_remembers) (simp_all add: n1)
  moreover have "tombstones_ok (nt_closed n2)" unfolding assms(5) using run_keeps_tombstones [OF ok1] by blast
  ultimately have "tombstoned sid gen (nt_closed n2)" by (metis buried_is_tombstoned)
  then show ?thesis by (simp add: close_session_with_state_def)
qed

text \<open>A session closed by force, its id then taken by another generation.\<close>

definition sample_registered :: "generation_id \<Rightarrow> native_op" where
  "sample_registered gen =
     Registers (\<lambda>n. 1000 + n) id (Inr ()) \<lparr>sr_owner = Caller, sr_init = sample_init\<lparr>in_generation_id := gen\<rparr>\<rparr>"

definition sample_native :: native where
  "sample_native = fold (native_step sample_sizes id) [sample_registered ''g''] (native_new actor_config_default)"

definition sample_close :: "(error_body + close_session_result) \<times> native" where
  "sample_close = close_session_with_state sample_sizes id Caller ''s'' ''g'' Force (Inr True) sample_native"

definition sample_reused :: native where
  "sample_reused = fold (native_step sample_sizes id) [sample_registered ''h''] (snd sample_close)"

theorem closed_generation_stays_closed_witness:
  "close_session_with_state sample_sizes id Caller ''s'' ''g'' Graceful (Inr True) sample_reused
     = (Inr (already_closed ''s'' ''g''), sample_reused)
   \<and> (\<exists>a. actor_owned ''s'' ''h'' Caller (nt_registry sample_reused) = Inr a)"
proof
  have closed: "\<not> isl (fst sample_close) \<and> cs_process_reaped (projr (fst sample_close))" by code_simp
  then have reaped: "close_session_with_state sample_sizes id Caller ''s'' ''g'' Force (Inr True) sample_native
      = (Inr (projr (fst sample_close)), snd sample_close)"
    by (simp add: sample_close_def [symmetric] prod_eq_iff sum.collapse)
  have fresh: "\<not> tombstoned ''s'' ''g'' (nt_closed sample_native)" by code_simp
  show "close_session_with_state sample_sizes id Caller ''s'' ''g'' Graceful (Inr True) sample_reused
     = (Inr (already_closed ''s'' ''g''), sample_reused)"
    by (rule closed_generation_stays_closed [OF sample_native_def fresh reaped _ sample_reused_def])
      (use closed in \<open>simp_all add: CLOSED_SESSION_TOMBSTONE_CAPACITY_def sample_registered_def\<close>)
  have "\<not> isl (actor_owned ''s'' ''h'' Caller (nt_registry sample_reused))" by code_simp
  then show "\<exists>a. actor_owned ''s'' ''h'' Caller (nt_registry sample_reused) = Inr a"
    by (cases "actor_owned ''s'' ''h'' Caller (nt_registry sample_reused)") simp_all
qed

text \<open>
  The record does not keep the owner: what the pool closed is remembered as well, and a caller who names that
  generation is told it was closed, where a generation that never was is not found.
\<close>

lemma pool_close_answers_a_caller:
  assumes "n = fold (native_step Z nfc) before (native_new cfg)" "\<not> tombstoned sid gen (nt_closed n)"
    "close_session_with_state Z nfc Pool sid gen policy closed n = (Inr result, n')" "cs_process_reaped result"
  shows "fst (close_session_with_state Z nfc Caller sid gen policy' closed' n') = Inr (already_closed sid gen)"
proof -
  have ok: "tombstones_ok (nt_closed n)" unfolding assms(1) by (rule run_from_start)
  have "nt_closed n' = bury sid gen (nt_closed n)" by (rule close_that_reaps [OF assms(3,4,2)])
  then have "tombstoned sid gen (nt_closed n')"
    using bury_remembers [OF ok] bury_ok [OF ok] assms(2) buried_is_tombstoned by (metis tombstoned_def)
  then show ?thesis by (simp add: close_session_with_state_def)
qed

lemma unknown_close_is_not_found:
  assumes "\<not> tombstoned sid gen (nt_closed n)" "rs_actors (nt_registry n) sid = None"
  shows "fst (close_session_with_state Z nfc Caller sid gen policy closed n) = Inl (not_registered sid)"
  using assms by (simp add: close_session_with_state_def with_owned_def actor_owned_def)

section \<open>A destroyed instance was reaped\<close>

text \<open>The errors of a transition are the actor's own, and none of them says that a session is not found.\<close>

lemma code_simps: "code (error_new c m) = c" "code (with_details d e) = code e"
  by (simp_all add: error_new_def with_details_def)

lemma checked_now_code: "checked_now_ms resource a = (Inl e, a') \<Longrightarrow> code e \<noteq> SessionNotFound"
  by (auto simp: checked_now_ms_def checked_actor_timestamp_def checked_idle_deadline_def bind_r_def code_simps
      split: prod.splits if_splits sum.splits)

lemma bounded_event_code: "bounded_event Z a turn ts payload = Inl e \<Longrightarrow> code e \<noteq> SessionNotFound"
  by (simp add: bounded_event_def Let_def split: if_splits) (auto simp: code_simps)

lemma emit_error_code:
  assumes "emit Z turn payload a = (Inl e, a')"
  shows "code e \<noteq> SessionNotFound"
proof (cases "checked_now_ms ''event_timestamp'' a")
  case (Pair r b)
  show ?thesis
  proof (cases r)
    case (Inl d)
    then show ?thesis using assms Pair checked_now_code by (auto simp: emit_def and_then_def)
  next
    case (Inr ts)
    then show ?thesis
      using assms Pair bounded_event_code
      by (auto simp: emit_def and_then_def refused_def sequence_capacity_error_def code_simps Let_def
          split: if_splits sum.splits)
  qed
qed

lemma transition_error_code: "transition Z st reason turn a = (Inl e, a') \<Longrightarrow> code e \<noteq> SessionNotFound"
  using emit_error_code
  by (fastforce simp: transition_def and_then_def refused_def Let_def error_new_def split: prod.splits sum.splits if_splits)

lemma close_error_code:
  assumes "close Z closed a = (Inl e, a')" "\<And>d. closed = Inl d \<Longrightarrow> code d \<noteq> SessionNotFound"
  shows "code e \<noteq> SessionNotFound"
  using assms transition_error_code
  by (fastforce simp: close_def and_then_def refused_def Let_def split: prod.splits sum.splits if_splits)

lemma ask_close_error_code:
  assumes "close_reply (fst (ask Z nfc (Close policy closed) a)) = Inl e" "\<And>d. closed = Inl d \<Longrightarrow> code d \<noteq> SessionNotFound"
  shows "code e \<noteq> SessionNotFound"
proof (cases "a_state a = SClosed")
  case True
  then show ?thesis using assms(1) by (auto simp: ask_def daemon_lost_def with_retryable_def error_new_def)
next
  case False
  obtain r a' where closed: "close Z closed a = (r, a')" by (cases "close Z closed a")
  then have "r = Inl e" using assms(1) False by (simp add: ask_def)
  then show ?thesis using close_error_code closed assms(2) by blast
qed

definition pooled_as :: "session_id \<Rightarrow> generation_id \<Rightarrow> native \<Rightarrow> bool" where
  "pooled_as sid gen n \<longleftrightarrow> (\<exists>a. rs_actors (nt_registry n) sid = Some (Pool, a) \<and> a_generation_id a = gen)"

fun reaps :: "sizes \<Rightarrow> (utext \<Rightarrow> utext) \<Rightarrow> session_id \<Rightarrow> generation_id \<Rightarrow> native_op \<Rightarrow> native \<Rightarrow> bool" where
  "reaps Z nfc sid gen (Closes owner s g policy closed) n \<longleftrightarrow> owner = Pool \<and> s = sid \<and> g = gen
     \<and> (\<exists>r. fst (close_session_with_state Z nfc Pool sid gen policy closed n) = Inr r \<and> cs_process_reaped r)"
| "reaps Z nfc sid gen op n \<longleftrightarrow> False"

text \<open>A drain that finds the session unregisters it whatever its actor knows.\<close>

definition drained :: "session_id \<Rightarrow> generation_id \<Rightarrow> native_op \<Rightarrow> native \<Rightarrow> bool" where
  "drained sid gen op n \<longleftrightarrow>
     (\<exists>order. op = Drains order \<and> sid \<in> set order \<and> map_option snd (nt_sessions n sid) = Some gen)"

lemma ask_generation: "a_generation_id (snd (ask Z nfc m a)) = a_generation_id a"
  using named.keeps_step [of a "a_session_id a" "a_generation_id a" Z nfc m] by (simp add: ask_def)

lemma step_generation: "a_generation_id (actor_step Z nfc m a) = a_generation_id a"
  using named.keeps_step [of a "a_session_id a" "a_generation_id a" Z nfc m] by simp

lemma retire_other: "s \<noteq> sid \<Longrightarrow> rs_actors (nt_registry (snd (retire s g n))) sid = rs_actors (nt_registry n) sid"
  by (auto simp: retire_def unregister_def split: option.splits)

lemma with_owned_pooled:
  assumes "rs_actors r sid = Some (Pool, a)" "with_owned owner s g f r = (reply, r')"
  shows "s \<noteq> sid \<and> rs_actors r' sid = Some (Pool, a)
    \<or> s = sid \<and> r' = r \<and> isl reply
    \<or> s = sid \<and> owner = Pool \<and> g = a_generation_id a \<and> reply = fst (f a) \<and> rs_actors r' sid = Some (Pool, snd (f a))"
proof (cases "s = sid")
  case True
  show ?thesis
  proof (cases "owner = Pool \<and> a_generation_id a = g")
    case owned: True
    then show ?thesis using True assms by (auto simp: with_owned_def actor_owned_def split: prod.splits)
  next
    case False
    then show ?thesis
      using True assms by (cases owner) (auto simp: with_owned_def actor_owned_def split: if_splits)
  qed
next
  case False
  have "rs_actors r' sid = rs_actors r sid"
    using assms(2) False by (auto simp: with_owned_def split: sum.splits prod.splits)
  then show ?thesis using False assms(1) by simp
qed

lemma close_keeps_pooled:
  assumes "pooled_as sid gen n"
  shows "pooled_as sid gen (snd (close_session_with_state Z nfc owner s g policy closed n))
    \<or> reaps Z nfc sid gen (Closes owner s g policy closed) n"
proof (cases "owner = Caller \<and> tombstoned s g (nt_closed n)")
  case True
  then show ?thesis using assms by (simp add: close_session_with_state_def)
next
  case unburied: False
  from assms obtain a where a: "rs_actors (nt_registry n) sid = Some (Pool, a)" "a_generation_id a = gen"
    by (auto simp: pooled_as_def)
  obtain reply r where owned: "with_owned owner s g (ask Z nfc (Close policy closed)) (nt_registry n) = (reply, r)"
    by (cases "with_owned owner s g (ask Z nfc (Close policy closed)) (nt_registry n)")
  let ?n = "n\<lparr>nt_registry := r\<rparr>"
  have r: "\<exists>b. rs_actors r sid = Some (Pool, b) \<and> a_generation_id b = gen"
    using with_owned_pooled [OF a(1) owned] a ask_generation by (elim disjE) auto
  then have kept: "pooled_as sid gen ?n" by (simp add: pooled_as_def)
  note step = close_session_with_state_def owned unburied
  show ?thesis
  proof (cases "close_reply reply")
    case (Inl e)
    then have "snd (close_session_with_state Z nfc owner s g policy closed n) = ?n" using unburied by (simp add: step)
    then show ?thesis using kept by simp
  next
    case (Inr result)
    show ?thesis
    proof (cases "cs_process_reaped result")
      case False
      then have "snd (close_session_with_state Z nfc owner s g policy closed n) = ?n" using Inr unburied by (simp add: step)
      then show ?thesis using kept by simp
    next
      case True
      then have result: "close_session_with_state Z nfc owner s g policy closed n
          = (case retire s g ?n of (Inl e, n'') \<Rightarrow> (Inl e, n'') | (Inr _, n'') \<Rightarrow> (Inr result, n''))"
        using Inr unburied by (simp add: step)
      show ?thesis
      proof (cases "s = sid")
        case s: True
        have "owner = Pool" "g = gen" using with_owned_pooled [OF a(1) owned] s Inr a(2) by (auto simp: isl_def)
        moreover have "\<exists>n''. retire sid gen ?n = (Inr (), n'')"
          using r by (auto simp: retire_def unregister_def split: prod.splits)
        ultimately show ?thesis using result s True by auto
      next
        case False
        have "snd (close_session_with_state Z nfc owner s g policy closed n) = snd (retire s g ?n)"
          unfolding result by (auto split: prod.splits sum.splits)
        then show ?thesis using retire_other [OF False, of g ?n] r by (simp add: pooled_as_def)
      qed
    qed
  qed
qed

lemma reap_keeps_pooled:
  assumes "pooled_as sid gen n"
  shows "pooled_as sid gen (reap_session Z nfc now closes (s, g) n)"
proof -
  from assms obtain a where a: "rs_actors (nt_registry n) sid = Some (Pool, a)" "a_generation_id a = gen"
    by (auto simp: pooled_as_def)
  obtain reply r where owned: "session_method Z nfc s g (ExpireSession now (closes s)) (nt_registry n) = (reply, r)"
    by (cases "session_method Z nfc s g (ExpireSession now (closes s)) (nt_registry n)")
  from with_owned_pooled [OF a(1) owned [unfolded session_method_def]] consider
    "s \<noteq> sid" "rs_actors r sid = Some (Pool, a)" | "r = nt_registry n" "isl reply"
    by auto
  then show ?thesis
  proof cases
    case 1
    then show ?thesis
      using retire_other [OF 1(1), of g "n\<lparr>nt_registry := r\<rparr>"] a(2)
      by (simp add: reap_session_def owned pooled_as_def Let_def split: option.splits)
  next
    case 2
    then obtain e where "reply = Inl e" by (auto simp: isl_def)
    then show ?thesis using 2(1) assms by (simp add: reap_session_def owned Let_def)
  qed
qed

lemma drain_keeps_pooled:
  "pooled_as sid gen n \<Longrightarrow> (sid, gen) \<notin> set xs \<Longrightarrow> pooled_as sid gen (snd (drain_survivors xs first_error n))"
proof (induction xs arbitrary: first_error n)
  case (Cons x xs)
  obtain s g where x: "x = (s, g)" by (cases x)
  obtain reply r where u: "unregister s g (nt_registry n) = (reply, r)" by (cases "unregister s g (nt_registry n)")
  have "\<exists>a. rs_actors r sid = Some (Pool, a) \<and> a_generation_id a = gen"
    using u Cons.prems by (auto simp: x pooled_as_def unregister_def split: option.splits if_splits)
  then show ?case
    using Cons.IH Cons.prems(2) by (cases reply) (simp_all add: x u pooled_as_def)
qed simp

lemma step_keeps_pooled:
  assumes "pooled_as sid gen n"
  shows "pooled_as sid gen (native_step Z nfc op n) \<or> reaps Z nfc sid gen op n \<or> drained sid gen op n"
proof (cases op)
  case (Closes owner s g policy closed)
  then show ?thesis using close_keeps_pooled [OF assms, of Z nfc owner s g policy closed] by auto
next
  case (Expires now closes s g)
  then show ?thesis using reap_keeps_pooled [OF assms] by simp
next
  case (Handles s m)
  then show ?thesis
    using assms by (auto simp: pooled_as_def registry_report_def step_generation split: option.splits)
next
  case (Registers clk instants empty_at_launch reg)
  then show ?thesis using assms by (auto simp: pooled_as_def register_def Let_def split: sum.splits if_splits)
next
  case (Drains order)
  let ?xs = "List.map_filter (\<lambda>sid. map_option (\<lambda>(owner, gen). (sid, gen)) (nt_sessions n sid)) order"
  have "pooled_as sid gen (n\<lparr>nt_sessions := Map.empty\<rparr>)" using assms by (simp add: pooled_as_def)
  moreover have "(sid, gen) \<in> set ?xs \<Longrightarrow> drained sid gen op n"
    by (auto simp: drained_def Drains List.map_filter_def)
  ultimately show ?thesis
    using drain_keeps_pooled [of sid gen "n\<lparr>nt_sessions := Map.empty\<rparr>" ?xs None]
    by (auto simp: Drains drain_after_runtime_shutdown_def)
qed

lemma emit_reaped: "emit Z turn payload a = (r, a') \<Longrightarrow> a_process_reaped a' = a_process_reaped a"
  by (auto simp: emit_def and_then_def refused_def checked_now_ms_def now_ms_def publish_event_def Let_def
      split: prod.splits sum.splits if_splits)

lemma transition_reaped: "transition Z st reason turn a = (r, a') \<Longrightarrow> a_process_reaped a' = a_process_reaped a"
  by (auto simp: transition_def and_then_def refused_def Let_def dest!: emit_reaped split: prod.splits sum.splits if_splits)

lemma close_reaped:
  assumes "close Z closed a = (Inr r, a')" "cs_process_reaped r"
  shows "closed = Inr True \<or> a_process_reaped a"
proof -
  let ?b = "abandon_active (a\<lparr>a_writable_attach := None, a_writable_attach_release_pending := False\<rparr>)"
  have b: "a_process_reaped ?b = a_process_reaped a"
    by (auto simp: abandon_active_def answer_waiters_def set_off_def split: option.splits)
  obtain t c where t: "transition Z SClosing None None ?b = (t, c)" by (cases "transition Z SClosing None None ?b")
  have c: "a_process_reaped c = a_process_reaped a" using transition_reaped [OF t] b by simp
  show ?thesis
    using assms t c
    by (auto simp: close_def close_result_def and_then_def refused_def Let_def split: if_splits sum.splits prod.splits)
qed

text \<open>The process of a pool session was seen gone: by the terminal in this close, or by its actor before.\<close>

definition seen_gone :: "session_id \<Rightarrow> generation_id \<Rightarrow> native_op \<Rightarrow> native \<Rightarrow> bool" where
  "seen_gone sid gen op n \<longleftrightarrow> (\<exists>policy closed a. op = Closes Pool sid gen policy closed
     \<and> rs_actors (nt_registry n) sid = Some (Pool, a) \<and> a_generation_id a = gen \<and> (closed = Inr True \<or> a_process_reaped a))"

lemma pooled_close:
  assumes "pooled_as sid gen n"
    and "close_session_with_state Z nfc Pool sid gen policy closed n = (reply, n')"
  obtains a where "rs_actors (nt_registry n) sid = Some (Pool, a)" "a_generation_id a = gen"
    "case reply of
       Inr r \<Rightarrow> close_reply (fst (ask Z nfc (Close policy closed) a)) = Inr r
     | Inl e \<Rightarrow> close_reply (fst (ask Z nfc (Close policy closed) a)) = Inl e"
proof -
  from assms(1) obtain a where a: "rs_actors (nt_registry n) sid = Some (Pool, a)" "a_generation_id a = gen"
    by (auto simp: pooled_as_def)
  obtain x b where ask: "ask Z nfc (Close policy closed) a = (x, b)" by (cases "ask Z nfc (Close policy closed) a")
  have b: "a_generation_id b = gen" using ask_generation [of Z nfc "Close policy closed" a] ask a(2) by simp
  have "reply = close_reply x"
    using assms(2) a ask b
    by (auto simp: close_session_with_state_def with_owned_def actor_owned_def retire_def unregister_def Let_def
        split: sum.splits if_splits)
  then show thesis using that a ask by (auto split: sum.splits)
qed

lemma reaps_seen_gone:
  assumes "pooled_as sid gen n" "reaps Z nfc sid gen op n"
  shows "seen_gone sid gen op n"
proof -
  from assms(2) obtain policy closed r where op: "op = Closes Pool sid gen policy closed" "cs_process_reaped r"
    and close: "fst (close_session_with_state Z nfc Pool sid gen policy closed n) = Inr r"
    by (cases op) auto
  from close have "close_session_with_state Z nfc Pool sid gen policy closed n
      = (Inr r, snd (close_session_with_state Z nfc Pool sid gen policy closed n))"
    by (simp add: prod_eq_iff)
  from assms(1) this obtain a where a: "rs_actors (nt_registry n) sid = Some (Pool, a)" "a_generation_id a = gen"
    "close_reply (fst (ask Z nfc (Close policy closed) a)) = Inr r"
    by (rule pooled_close) auto
  then have "\<exists>a'. close Z closed a = (Inr r, a')"
    by (cases "close Z closed a") (auto simp: ask_def split: if_splits)
  then show ?thesis using a op close_reaped unfolding seen_gone_def by blast
qed

lemma run_keeps_pooled:
  assumes "pooled_as sid gen n"
  shows "pooled_as sid gen (fold (native_step Z nfc) ops n)
    \<or> (\<exists>pre op post. ops = pre @ op # post
        \<and> (seen_gone sid gen op (fold (native_step Z nfc) pre n) \<or> drained sid gen op (fold (native_step Z nfc) pre n)))"
  using assms
proof (induction ops arbitrary: n)
  case (Cons op ops)
  show ?case
  proof (cases "reaps Z nfc sid gen op n \<or> drained sid gen op n")
    case True
    then have "seen_gone sid gen op n \<or> drained sid gen op n" using reaps_seen_gone [OF Cons.prems] by blast
    then show ?thesis by (intro disjI2 exI [of _ "[]"] exI [of _ op] exI [of _ ops]) simp
  next
    case False
    then have "pooled_as sid gen (native_step Z nfc op n)" using step_keeps_pooled [OF Cons.prems] by blast
    from Cons.IH [OF this] show ?thesis
      by simp (metis append_Cons fold_simps(2))
  qed
qed simp

text \<open>C15: An instance is reported destroyed only when its process was seen gone or the whole runtime was. If the pool's
  session was registered and the host answers a destroy of it with a reaped process, also because the session is no
  longer found, then this close or an earlier close by the pool was told so by the terminal, or found that the
  session's actor had been, or else the session was unregistered by the drain of a shutdown, which the service runs only
  after its private runtime has reported every process reaped. The terminal's own failures never carry the code of a
  missing session.\<close>

theorem destroyed_means_reaped:
  assumes "pooled_as sid gen n" and "\<And>d. closed = Inl d \<Longrightarrow> code d \<noteq> SessionNotFound"
    and "fst (destroy_pool_instance Z nfc sid gen closed (fold (native_step Z nfc) ops n)) = Inr True"
  shows "\<exists>pre op post. ops @ [Closes Pool sid gen Force closed] = pre @ op # post
    \<and> (seen_gone sid gen op (fold (native_step Z nfc) pre n) \<or> drained sid gen op (fold (native_step Z nfc) pre n))"
proof -
  let ?n = "fold (native_step Z nfc) ops n"
  from run_keeps_pooled [OF assms(1)] consider "pooled_as sid gen ?n"
    | pre op post where "ops = pre @ op # post"
        "seen_gone sid gen op (fold (native_step Z nfc) pre n) \<or> drained sid gen op (fold (native_step Z nfc) pre n)"
    by blast
  then show ?thesis
  proof cases
    case 1
    obtain reply n' where close: "close_session_with_state Z nfc Pool sid gen Force closed ?n = (reply, n')"
      by (cases "close_session_with_state Z nfc Pool sid gen Force closed ?n")
    have "reaps Z nfc sid gen (Closes Pool sid gen Force closed) ?n"
    proof (cases reply)
      case (Inl e)
      from 1 close obtain a where "close_reply (fst (ask Z nfc (Close Force closed) a)) = Inl e"
        by (rule pooled_close) (simp add: Inl)
      then have "code e \<noteq> SessionNotFound" using ask_close_error_code assms(2) by blast
      then show ?thesis using assms(3) close Inl by (simp add: destroy_pool_instance_def)
    next
      case (Inr r)
      then show ?thesis using assms(3) close by (simp add: destroy_pool_instance_def)
    qed
    from reaps_seen_gone [OF 1 this] show ?thesis
      by (intro exI [of _ ops] exI [of _ "Closes Pool sid gen Force closed"] exI [of _ "[]"]) simp
  next
    case 2
    then show ?thesis by (metis append_Cons append_assoc)
  qed
qed

definition sample_pooled :: native where
  "sample_pooled = native_step sample_sizes id
     (Registers (\<lambda>n. 1000 + n) id (Inr ()) \<lparr>sr_owner = Pool, sr_init = sample_init\<rparr>) (native_new actor_config_default)"

definition sample_destroys :: "native_op list" where
  "sample_destroys = [Closes Caller ''s'' ''g'' Force (Inr True), Closes Pool ''s'' ''g'' Force (Inr False),
     Closes Pool ''s'' ''g'' Force (Inr True)]"

theorem destroyed_means_reaped_witness:
  "\<exists>pre op post. sample_destroys @ [Closes Pool ''s'' ''g'' Force (Inr False)] = pre @ op # post
    \<and> (seen_gone ''s'' ''g'' op (fold (native_step sample_sizes id) pre sample_pooled)
        \<or> drained ''s'' ''g'' op (fold (native_step sample_sizes id) pre sample_pooled))"
proof (rule destroyed_means_reaped)
  have "map_option (\<lambda>(owner, a). (owner = Pool, a_generation_id a)) (rs_actors (nt_registry sample_pooled) ''s'')
      = Some (True, ''g'')"
    by code_simp
  then show "pooled_as ''s'' ''g'' sample_pooled" by (auto simp: pooled_as_def)
  show "fst (destroy_pool_instance sample_sizes id ''s'' ''g'' (Inr False)
      (fold (native_step sample_sizes id) sample_destroys sample_pooled)) = Inr True"
    by code_simp
qed simp

text \<open>
  The drain leaves no trace of a close: the pool that asks for a destroy afterwards is told the process is gone although
  neither the terminal nor the actor said so.
\<close>

lemma drained_is_reported_reaped:
  "fst (destroy_pool_instance sample_sizes id ''s'' ''g'' (Inr False)
      (native_step sample_sizes id (Drains [''s'']) sample_pooled)) = Inr True
   \<and> map_option (\<lambda>(_, a). a_process_reaped a) (rs_actors (nt_registry sample_pooled) ''s'') = Some False"
  by code_simp

section \<open>The fence of a shutdown\<close>

text \<open>
  The counter of detached tasks. A permit is dropped in two steps, the count and then the notice, and a
  waiter subscribes before its first look at the count; it sleeps until a notice it has not seen. \<open>tk_leaving\<close>
  counts the permits between the two steps.
\<close>

record tracked_tasks =
  tk_active :: nat
  tk_notices :: nat
  tk_leaving :: nat

definition tracked_tasks_default :: tracked_tasks where
  "tracked_tasks_default = \<lparr>tk_active = 0, tk_notices = 0, tk_leaving = 0\<rparr>"

definition track :: "tracked_tasks \<Rightarrow> tracked_tasks option" where
  "track t = (if tk_active t < usize_max then Some (t\<lparr>tk_active := tk_active t + 1\<rparr>) else None)"

definition count_down :: "tracked_tasks \<Rightarrow> tracked_tasks" where
  "count_down t = t\<lparr>tk_active := tk_active t - 1, tk_leaving := tk_leaving t + 1\<rparr>"

definition notify :: "tracked_tasks \<Rightarrow> tracked_tasks" where
  "notify t = t\<lparr>tk_leaving := tk_leaving t - 1, tk_notices := tk_notices t + 1\<rparr>"

datatype waiter = Looking nat | Asleep nat | Passed

fun wait_step :: "tracked_tasks \<Rightarrow> waiter \<Rightarrow> waiter option" where
  "wait_step t (Looking seen) = Some (if tk_active t = 0 then Passed else Asleep seen)"
| "wait_step t (Asleep seen) = (if tk_notices t = seen then None else Some (Looking (tk_notices t)))"
| "wait_step t Passed = None"

inductive fence_step :: "tracked_tasks \<times> waiter \<Rightarrow> tracked_tasks \<times> waiter \<Rightarrow> bool" where
  registers: "track t = Some t' \<Longrightarrow> fence_step (t, w) (t', w)"
| counts_down: "0 < tk_active t \<Longrightarrow> fence_step (t, w) (count_down t, w)"
| notifies: "0 < tk_leaving t \<Longrightarrow> fence_step (t, w) (notify t, w)"
| waits: "wait_step t w = Some w' \<Longrightarrow> fence_step (t, w) (t, w')"

fun fence_ok :: "tracked_tasks \<times> waiter \<Rightarrow> bool" where
  "fence_ok (t, Looking seen) = (seen \<le> tk_notices t)"
| "fence_ok (t, Asleep seen) = (seen \<le> tk_notices t \<and> (seen = tk_notices t \<longrightarrow> 0 < tk_active t + tk_leaving t))"
| "fence_ok (t, Passed) = True"

lemma fence_step_ok: "fence_step s s' \<Longrightarrow> fence_ok s \<Longrightarrow> fence_ok s'"
proof (induction rule: fence_step.induct)
  case (registers t t' w)
  then show ?case by (cases w) (auto simp: track_def split: if_splits)
next
  case (counts_down t w)
  then show ?case by (cases w) (auto simp: count_down_def)
next
  case (notifies t w)
  then show ?case by (cases w) (auto simp: notify_def)
next
  case (waits t w w')
  then show ?case by (cases w) (auto split: if_splits)
qed

lemma fence_reachable_ok: "fence_step\<^sup>*\<^sup>* (t, Looking (tk_notices t)) s \<Longrightarrow> fence_ok s"
  by (induction rule: rtranclp_induct) (auto intro: fence_step_ok)

text \<open>C21: A shutdown waits for every detached task and sleeps past none. From the moment a waiter subscribes, whatever
  tasks register, finish and notify in whatever order, it passes only at a moment when no task is counted,
  and once no task is counted and every notice is out it is not left asleep: at most two of its own steps take it past.\<close>

theorem fence_waits_exactly:
  assumes "fence_step\<^sup>*\<^sup>* (t, Looking (tk_notices t)) (u, w)"
  shows "(wait_step u w = Some Passed \<longrightarrow> tk_active u = 0)
    \<and> (w \<noteq> Passed \<and> tk_active u = 0 \<and> tk_leaving u = 0 \<longrightarrow>
        wait_step u w = Some Passed \<or> (\<exists>w'. wait_step u w = Some w' \<and> wait_step u w' = Some Passed))"
proof -
  have ok: "fence_ok (u, w)" by (rule fence_reachable_ok [OF assms])
  then show ?thesis by (cases w) auto
qed

definition sample_tasks :: tracked_tasks where
  "sample_tasks = tracked_tasks_default\<lparr>tk_active := 1\<rparr>"

theorem fence_waits_exactly_witness:
  "let u = notify (count_down sample_tasks)
   in wait_step u (Asleep 0) = Some (Looking 1) \<and> wait_step u (Looking 1) = Some Passed \<and> tk_active u = 0"
proof -
  let ?u = "notify (count_down sample_tasks)"
  have "fence_step (sample_tasks, Looking 0) (sample_tasks, Asleep 0)"
    by (rule fence_step.waits) (simp add: sample_tasks_def)
  moreover have "fence_step (sample_tasks, Asleep 0) (count_down sample_tasks, Asleep 0)"
    by (rule fence_step.counts_down) (simp add: sample_tasks_def)
  moreover have "fence_step (count_down sample_tasks, Asleep 0) (?u, Asleep 0)"
    by (rule fence_step.notifies) (simp add: sample_tasks_def count_down_def)
  ultimately have "fence_step\<^sup>*\<^sup>* (sample_tasks, Looking 0) (?u, Asleep 0)"
    by (meson converse_rtranclp_into_rtranclp rtranclp.rtrancl_refl)
  moreover have "tk_notices sample_tasks = 0" by (simp add: sample_tasks_def tracked_tasks_default_def)
  ultimately have run: "fence_step\<^sup>*\<^sup>* (sample_tasks, Looking (tk_notices sample_tasks)) (?u, Asleep 0)" by simp
  from fence_waits_exactly [OF run] show ?thesis
    by (simp add: Let_def sample_tasks_def tracked_tasks_default_def count_down_def notify_def)
qed

end
