(* ===== verification/Spec2Isabelle.thy ===== *)
theory Spec2Isabelle
  imports Machine Class Paths Config Instance Refusals Wire Sweep Composer Filesystem Isolation Progress Cursor RowTypes
    Answer ToolPairing Sidechains Sticky Http Completion WorkerProof Closing
begin

text \<open>
  \<^bold>\<open>What the program is.\<close> pseudomux runs Claude Code as a service. The daemon \<open>pmuxd\<close> keeps a pool of Claude processes
  (\<^emph>\<open>instances\<close>), each in a terminal of its own; a caller's prompt is pasted into the composer of an idle instance, and the
  answer is read from the JSONL transcript Claude writes. Between two callers an instance is cleared. Some things have to
  be right: an answer is the answer to the prompt it is given for; no caller sees what another left behind; and the
  pool neither loses nor leaks its slots and directories. The Messages facade adds a fourth: a conversation that keeps its
  process over many requests is told each of its messages once. And a session a client keeps open promises that a turn runs once
  and that its events reach every subscriber. The development models the parts that decide these.

  \<^bold>\<open>The pool\<close>, \<open>src/crates/service/src/pool/\<close>.
  \<^item> \<open>Machine\<close> is \<open>machine.rs\<close>: the eleven states' transition function, the census buckets, the shutdown and recycle
    decisions. Theorems: \<open>step\<close> is the edge table of the specification tests; \<open>Idle\<close> is entered only by a transition that
    carries a proof of emptiness; nothing is checked out again without a proven clear.
  \<^item> \<open>Class\<close> is \<open>class.rs\<close> and \<open>account.rs\<close>, \<open>Config\<close> is \<open>config.rs\<close>, \<open>Paths\<close> and \<open>Instance\<close> are \<open>instance.rs\<close>, \<open>Refusals\<close> is
    \<open>refusal.rs\<close>: names, the model table and its resolution, every configuration bound, an instance's directories and
    invariants, the census and the error bodies.
  \<^item> \<open>PoolState\<close> and \<open>PoolOps\<close> are the critical sections of \<open>mod.rs\<close>: one definition for what the code does between taking and
    dropping the lock. \<open>BTree\<close> is the ordered map they use, behind the locale \<open>ordered_map\<close>. \<open>PoolSafety\<close>,
    \<open>Admission\<close> and \<open>Sweep\<close> prove what each section guarantees.
  \<^item> \<open>Filesystem\<close> is the directory handling of \<open>mod.rs\<close> and \<open>private_dir.rs\<close> over a map from paths to nodes, the kernel's
    refusals being a parameter: a mint hands over a pristine private tree, and erasing reaches only its tree and the place in
    the retain directory it is moved to.
  \<^item> \<open>Tasks\<close> is every asynchronous handler of \<open>mod.rs\<close>. A handler is a program counter between two atomic actions (a critical
    section, a filesystem call, an answer of the host), \<open>task_step\<close> performs the next action, and \<open>pool_step\<close> of \<open>Serving\<close> lets
    any task of the pool do so: the model has every interleaving at await points. The host (terminal and process control)
    is an input: whatever it answers, the theorems hold, except that an answer \<open>cleared\<close> means the process forgot and an answer
    \<open>reaped\<close> means it is gone; two ghost fields, \<open>running\<close> and \<open>heard\<close>, record that and are read by no handler.
  \<^item> \<open>Ownership\<close> is the contract between interleaved tasks, as a locale: what each task holds, that it takes only
    what is free. \<open>SlotOwners\<close> and \<open>ConvOwners\<close> interpret it for slots and conversations, \<open>Serving\<close> proves that every step
    keeps both, and \<open>Isolation\<close> draws the conclusions: turns never share a context, no tree changes under a live process,
    every busy instance has exactly one task, the pool's own audit passes. They are stated for a pool that is
    serving; what may go wrong while it shuts down is shown there by three runs. \<open>Progress\<close> proves that no handler
    runs forever.

  \<^bold>\<open>The transcript\<close>, \<open>src/crates/claude/src/\<close>.
  \<^item> \<open>Transcript\<close> is the data of \<open>model.rs\<close> and \<open>error.rs\<close>. \<open>Cursor\<close> is \<open>cursor.rs\<close>: reads of a growing file become lines; whatever
    way the file is cut into reads the records delivered are the ones appended (records within the limit that do not end in a carriage
    return), and a read refines the reference splitter.
  \<^item> \<open>Parser\<close> is \<open>parser.rs\<close>: a line's JSON value (its decoding is a parameter) becomes a typed row or an error; \<open>RowTypes\<close> says
    what the type is.
  \<^item> \<open>Engine\<close> is \<open>engine.rs\<close>: arming a turn, ingesting rows, and the analysis. \<open>Acknowledgement\<close> proves the invariant of its
    states, as an interpretation of \<open>transition_system\<close>; \<open>ActivePath\<close> that the path it computes is the whole turn; \<open>Answer\<close> that
    an answer is one whole message and that token totals are exact; \<open>ToolPairing\<close> that tool calls and results are paired;
    \<open>Sidechains\<close> that the cached search for descendants equals the plain one.
  \<^item> \<open>Composer\<close> is \<open>composer.rs\<close>, \<open>normalize_prompt\<close> of \<open>engine.rs\<close> and \<open>validate_prompt\<close> of \<open>driver_io.rs\<close>: which prompts are sent,
    in which form, and how the rows of the screen are proven to spell one. Unicode NFC is the parameter \<open>nfc\<close>.

  \<^bold>\<open>The Messages facade\<close>, \<open>conversation.rs\<close> and \<open>messages_http.rs\<close> in \<open>src/bin/pmuxd/src/\<close>.
  \<^item> \<open>Messages\<close> is the text side of \<open>messages_http.rs\<close>: how a request becomes a prompt and an answer becomes text and tool calls.
    \<open>Completion\<close> proves that the second loses nothing.
  \<^item> \<open>Conversation\<close> is \<open>conversation.rs\<close> up to its awaits: fingerprints, conversation ids, the checks of a request, the lease book
    and its critical sections. \<open>Desk\<close> is its handlers, each suspended before a critical section or inside a call of
    the pool, whose task it then carries; \<open>desk_step\<close> interleaves them with each other and with the pool's tasks. A ghost
    records what was typed into each process since it was last proven empty.
  \<^item> \<open>History\<close> states what a handler may rely on between two steps, with conversations as the resources of \<open>Ownership\<close>, and
    proves that the pool's tasks keep it; \<open>Leases\<close> proves that each section of the book does, and interprets the locale of
    reachability for the composed system and for the lease cap. The book compares digests; \<open>Wording\<close> relates them to the
    messages: what a process was given is spelled from requests that passed their checks, and equal digests are equal messages
    where no two texts collide under the hash and no role holds a newline (with one they need not be, as is shown
    there). \<open>Sticky\<close> concludes: a cell is told each message once, a lease describes its cell, leases stay within the cap; and shows by a run how a sweep can forget a live lease.
  \<^item> \<open>Http\<close> is one connection, given the bytes its reads return: framing, request line and headers, routing, the response and its
    event stream. Every id a client can pin is routed back to its own release.
  \<^item> \<open>serde_json\<close> and \<open>sha2\<close> are the fields of the record \<open>libs\<close>, over which every definition and theorem of the facade ranges.

  \<^bold>\<open>The session\<close>, \<open>src/crates/service/src/v1/\<close>.
  \<^item> \<open>SessionTypes\<close> is the session side of the protocol: states, requests, results, events. \<open>Actor\<close> and \<open>ActorLoop\<close> are the session
    actor of \<open>actor.rs\<close>, one definition per command and per worker update, over a record of its fields; \<open>actor_step\<close> is one
    iteration of its loop. Clocks are fields that a read consumes; what the terminal and the transcript answer is an
    argument of the message; what the actor sets off (a worker, an abort, an answer to a cancel request) is appended to a list
    of effects. The lengths \<open>serde_json\<close> writes are the parameter \<open>sizes\<close>, whose two laws (an array's length, and that a longer number is
    no shorter) are hypotheses where a frame limit is at stake, as is that the two compact errors fit their reserve.
  \<^item> \<open>ActorLog\<close> is the contract of the event log as a locale, \<open>log_property\<close>, interpreted for its shape and for its being append-only;
    \<open>Subscription\<close> concludes that a subscriber receives the log. \<open>ActorTurns\<close> is the contract of the turns: every message changes
    them in one of six ways (\<open>turn_change\<close>), and each way keeps the invariant; \<open>SessionTurns\<close> concludes that a turn runs once, that a
    cancel is answered once, and that memory is bounded and none of the actor's eight \<open>expect\<close>s fails (each is a branch of the model that
    sets \<open>a_panicked\<close>), and shows by a run how a refused turn can stay active.
  \<^item> \<open>Registry\<close> is \<open>registry.rs\<close> and the actor's handle. Callers and the pool register, use and unregister sessions in any order:
    every session stays sound, callers cannot see the pool's sessions as long as they do not pick their ids, and a long poll misses
    nothing.
  \<^item> \<open>TurnProof\<close> and \<open>Worker\<close> are the tasks beside the actor: the evidence of \<open>backend.rs\<close>, the ten checks of \<open>minified.rs\<close>, and
    the turn worker, the recovery after a cancel and the reconciliation after a detach of \<open>actor.rs\<close>. A task is a function of what
    the terminal, the transcript and the clock answer at each of its awaits; what it reports is the actor's
    input. The worker drives the engine of \<open>Engine\<close>. The text of a transcript error, the \<open>Debug\<close> form of a
    warning and the domain check of a float are the fields of the parameter \<open>foreign\<close>. \<open>WorkerProof\<close> is a contract for a task's steps, in
    the manner of a Hoare triple, and concludes that a turn reported complete is proven complete, that a worker
    ends its turn once, and that a session is called ready again only over a drained transcript. A worker that is never
    answered runs on; its deadline is one of its answers.
  \<^item> \<open>Closing\<close> is how the service closes sessions: \<open>tombstones.rs\<close>, the closing half of \<open>native.rs\<close>, \<open>destroy_pool_instance\<close> of
    \<open>stateless.rs\<close>, and \<open>tasks.rs\<close>, with the drain after the runtime's shutdown among the operations. What the pool hears as \<open>reaped\<close>
    the terminal or the actor saw, or else that drain had unregistered the session; a generation a caller closed stays
    closed for callers; and a shutdown sleeps past no task.

  The parts meet in \<open>Tasks\<close>, which validates prompts by \<open>Composer\<close>, and in the canonical form of a prompt, by which the engine
  recognises the turn a prompt was armed for. \<open>Wire\<close> holds what they share of the protocol
  (\<open>src/crates/protocol/src/v1.rs\<close>), \<open>Text_Utf8\<close> Rust's strings, \<open>Prelude\<close> fixed-width arithmetic, results and the locale
  of reachability.

  \<^bold>\<open>Conventions.\<close> \<open>Result\<close> is a sum with the error left. \<open>u32\<close> and \<open>u64\<close> are natural numbers with each saturating, checked or bounded
  operation written out; bytes are words. Loops are structural recursion or \<open>function\<close>s with a termination proof, none has
  fuel: the traversals of the transcript graph end because they never revisit a row, the admission wait because its
  budget shrinks with each read (at most 2501 of them). Where a \<open>HashSet\<close> is iterated the model takes the rows in order; the order
  only seeds a worklist. Diagnostic counters and the wording of \<open>Debug\<close> output are left out.

  \<^bold>\<open>Not modelled.\<close> Terminal control, process supervision and screens (most of \<open>native.rs\<close> and of \<open>driver_io.rs\<close>,
  \<open>claude_launch.rs\<close>, the \<open>rmux\<close> crate): they are input and output against a terminal, and the pool and the sessions see them only as
  the answers of their host, their terminal and their transcript. The stateful and stateless front ends, the MCP and command-line
  front ends, the client library and the end-to-end harness: they route the requests the pool serves. The evidence mirror of
  \<open>pool/evidence.rs\<close> copies files and feeds no decision. Of the HTTP facade, the listener, its back-off and its timeouts.
\<close>

end
